(* ===== verification/Prelude.thy ===== *)
theory Prelude
  imports Main "HOL-Library.Word" "HOL-Library.Monad_Syntax"
begin

text \<open>
  What every component shares: the outcome type of code that can abort, unsigned 64-bit
  arithmetic on \<open>nat\<close> with the wrap-around written out, and generic lemmas on lists.
\<close>

section \<open>Collections of rewrite rules\<close>

named_theorems u64_simps \<open>64-bit operations that do not wrap\<close>
named_theorems wire_simps \<open>decoding what was encoded\<close>
named_theorems size_simps \<open>sizes of encoded values\<close>

section \<open>Outcomes\<close>

text \<open>
  A C++ function that returns gives \<open>Inr\<close> of its result. \<open>Inl AssertFailed\<close> is a failed
  \<open>assert\<close>; \<open>Inl Undefined\<close> is a step with no defined behaviour (dereferencing or
  decrementing past the ends of a container, or using a variable that was never assigned);
  \<open>Inl Thrown\<close> is an exception of the standard library.
\<close>

datatype fault = AssertFailed | Undefined | Thrown

type_synonym 'a res = "fault + 'a"

definition rbind :: "'a res \<Rightarrow> ('a \<Rightarrow> 'b res) \<Rightarrow> 'b res" where
  "rbind r f = (case r of Inl e \<Rightarrow> Inl e | Inr x \<Rightarrow> f x)"

lemma rbind_simps [simp]:
  "rbind (Inr x) f = f x"
  "rbind (Inl e) f = Inl e"
  by (simp_all add: rbind_def)

lemma rbind_Inr_iff: "rbind r f = Inr y \<longleftrightarrow> (\<exists>x. r = Inr x \<and> f x = Inr y)"
  by (cases r) (auto simp: rbind_def)

lemma rbind_InrE [elim]:
  assumes "rbind r f = Inr y"
  obtains x where "r = Inr x" and "f x = Inr y"
  using assms by (auto simp: rbind_Inr_iff)

definition assert_that :: "bool \<Rightarrow> unit res" where
  "assert_that b = (if b then Inr () else Inl AssertFailed)"

lemma assert_that_simps [simp]:
  "assert_that True = Inr ()"
  "assert_that False = Inl AssertFailed"
  "assert_that b = Inr u \<longleftrightarrow> b"
  by (simp_all add: assert_that_def)

definition res_of_option :: "'a option \<Rightarrow> 'a res" where
  "res_of_option r = (case r of None \<Rightarrow> Inl Undefined | Some x \<Rightarrow> Inr x)"

lemma res_of_option_simps [simp]:
  "res_of_option (Some x) = Inr x"
  "res_of_option None = Inl Undefined"
  by (simp_all add: res_of_option_def)

text \<open>Code that may also run forever: \<open>None\<close>.\<close>

type_synonym 'a run = "'a res option"

definition run_bind :: "'a run \<Rightarrow> ('a \<Rightarrow> 'b run) \<Rightarrow> 'b run" where
  "run_bind m f =
     (case m of None \<Rightarrow> None | Some (Inl e) \<Rightarrow> Some (Inl e) | Some (Inr x) \<Rightarrow> f x)"

abbreviation ret :: "'a \<Rightarrow> 'a run" where
  "ret x \<equiv> Some (Inr x)"

abbreviation lift_res :: "'a res \<Rightarrow> 'a run" where
  "lift_res r \<equiv> Some r"

lemma run_bind_simps [simp]:
  "run_bind (Some (Inr x)) f = f x"
  "run_bind (Some (Inl e)) f = Some (Inl e)"
  "run_bind None f = None"
  by (simp_all add: run_bind_def)

lemma run_bind_ret_iff: "run_bind m f = Some (Inr y) \<longleftrightarrow> (\<exists>x. m = Some (Inr x) \<and> f x = Some (Inr y))"
  by (auto simp: run_bind_def split: option.splits sum.splits)

section \<open>Unsigned 64-bit integers\<close>

type_synonym u64 = nat

abbreviation u64_bound :: nat where
  "u64_bound \<equiv> 18446744073709551616"

lemma u64_bound_eq: "u64_bound = 2 ^ 64"
  by simp

definition u64_max :: u64 where
  "u64_max = 18446744073709551615"

definition u64_add :: "u64 \<Rightarrow> u64 \<Rightarrow> u64" where
  "u64_add a b = (a + b) mod u64_bound"

definition u64_sub :: "u64 \<Rightarrow> u64 \<Rightarrow> u64" where
  "u64_sub a b = (if b \<le> a then a - b else (a + (u64_bound - b mod u64_bound)) mod u64_bound)"

text \<open>The conversion of a signed to an unsigned number.\<close>

definition u64_of_int :: "int \<Rightarrow> u64" where
  "u64_of_int i = nat (i mod 18446744073709551616)"

lemma u64_add_exact [u64_simps]: "a + b < u64_bound \<Longrightarrow> u64_add a b = a + b"
  by (simp add: u64_add_def)

lemma u64_sub_exact [u64_simps]: "b \<le> a \<Longrightarrow> u64_sub a b = a - b"
  by (simp add: u64_sub_def)

lemma u64_add_bound: "u64_add a b < u64_bound"
  by (simp add: u64_add_def)

text \<open>The two operations are those of 64-bit words.\<close>

lemma u64_add_word: "u64_add (unat a) (unat b) = unat (a + b :: 64 word)"
  by (simp add: u64_add_def unat_word_ariths)

lemma u64_sub_word: "u64_sub (unat a) (unat b) = unat (a - b :: 64 word)"
proof (cases "unat b \<le> unat a")
  case True
  then show ?thesis
    by (simp add: u64_sub_def unat_sub word_le_nat_alt)
next
  case False
  have b: "unat b < u64_bound" using unsigned_less [of b] by simp
  from False have "u64_sub (unat a) (unat b) = (unat a + (u64_bound - unat b)) mod u64_bound"
    using b by (simp add: u64_sub_def)
  moreover have "unat a + (u64_bound - unat b) < u64_bound" using False b by simp
  moreover have "unat (a - b) = u64_bound + unat a - unat b"
    using False by (simp add: unat_sub_if_size word_size)
  ultimately show ?thesis using b by simp
qed

section \<open>Lists\<close>

lemma takeWhile_dropWhile_split: "m = takeWhile P m @ dropWhile P m"
  by simp

lemma hd_dropWhile_not: "dropWhile P xs = y # ys \<Longrightarrow> \<not> P y"
  by (metis hd_dropWhile list.distinct(1) list.sel(1))

lemma last_snoc_cases: "xs \<noteq> [] \<Longrightarrow> \<exists>ys y. xs = ys @ [y]"
  by (metis append_butlast_last_id)

lemma sum_list_concat_length: "length (concat xss) = sum_list (map length xss)"
  by (simp add: length_concat)

end
