(* ===== verification/StdMap.thy ===== *)
theory StdMap
  imports Prelude
begin

text \<open>
  \<open>std::map\<close> as the sources use it: an association list with strictly increasing keys. An
  iterator is the suffix of entries it still has to visit (\<open>end()\<close> is the empty suffix);
  \<open>m_insert\<close> is \<open>map::insert\<close> (an existing key keeps its value), \<open>m_assign\<close> is
  \<open>operator[]\<close> followed by an assignment, \<open>m_index\<close> the default-inserting read of
  \<open>operator[]\<close>. The contract the clients rely on is the locale \<open>ordered_dict\<close>.
\<close>

type_synonym ('k, 'v) smap = "('k \<times> 'v) list"

definition smap_inv :: "('k::linorder, 'v) smap \<Rightarrow> bool" where
  "smap_inv m \<longleftrightarrow> sorted_wrt (<) (map fst m)"

fun m_insert :: "'k::linorder \<Rightarrow> 'v \<Rightarrow> ('k, 'v) smap \<Rightarrow> ('k, 'v) smap" where
  "m_insert k v [] = [(k, v)]"
| "m_insert k v ((a, b) # m) =
     (if k < a then (k, v) # (a, b) # m
      else if k = a then (a, b) # m
      else (a, b) # m_insert k v m)"

fun m_assign :: "'k::linorder \<Rightarrow> 'v \<Rightarrow> ('k, 'v) smap \<Rightarrow> ('k, 'v) smap" where
  "m_assign k v [] = [(k, v)]"
| "m_assign k v ((a, b) # m) =
     (if k < a then (k, v) # (a, b) # m
      else if k = a then (k, v) # m
      else (a, b) # m_assign k v m)"

fun m_erase :: "'k::linorder \<Rightarrow> ('k, 'v) smap \<Rightarrow> ('k, 'v) smap" where
  "m_erase k [] = []"
| "m_erase k ((a, b) # m) = (if k = a then m else (a, b) # m_erase k m)"

definition m_index :: "'v \<Rightarrow> ('k::linorder, 'v) smap \<Rightarrow> 'k \<Rightarrow> 'v" where
  "m_index d m k = (case map_of m k of None \<Rightarrow> d | Some v \<Rightarrow> v)"

definition lower_bound :: "'k::linorder \<Rightarrow> ('k, 'v) smap \<Rightarrow> ('k, 'v) smap" where
  "lower_bound k m = dropWhile (\<lambda>p. fst p < k) m"

definition upper_bound :: "'k::linorder \<Rightarrow> ('k, 'v) smap \<Rightarrow> ('k, 'v) smap" where
  "upper_bound k m = dropWhile (\<lambda>p. fst p \<le> k) m"

definition below :: "'k::linorder \<Rightarrow> ('k, 'v) smap \<Rightarrow> ('k, 'v) smap" where
  "below k m = takeWhile (\<lambda>p. fst p < k) m"

definition upto :: "'k::linorder \<Rightarrow> ('k, 'v) smap \<Rightarrow> ('k, 'v) smap" where
  "upto k m = takeWhile (\<lambda>p. fst p \<le> k) m"

text \<open>The entry before an iterator: \<open>--it\<close> on \<open>begin()\<close> has no defined result.\<close>

definition it_prev :: "('k, 'v) smap \<Rightarrow> ('k \<times> 'v) res" where
  "it_prev passed = (if passed = [] then Inl Undefined else Inr (last passed))"

section \<open>Sortedness\<close>

lemma smap_inv_Nil [simp]: "smap_inv []"
  by (simp add: smap_inv_def)

lemma smap_inv_Cons [simp]:
  "smap_inv ((k, v) # m) \<longleftrightarrow> (\<forall>x \<in> fst ` set m. k < x) \<and> smap_inv m"
  by (simp add: smap_inv_def)

lemma smap_inv_append:
  "smap_inv (xs @ ys) \<longleftrightarrow>
     smap_inv xs \<and> smap_inv ys \<and> (\<forall>x \<in> fst ` set xs. \<forall>y \<in> fst ` set ys. x < y)"
  by (auto simp: smap_inv_def sorted_wrt_append)

lemma m_insert_keys: "fst ` set (m_insert k v m) = insert k (fst ` set m)"
  by (induction k v m rule: m_insert.induct) auto

lemma m_assign_keys: "fst ` set (m_assign k v m) = insert k (fst ` set m)"
  by (induction k v m rule: m_assign.induct) auto

lemma m_erase_keys: "smap_inv m \<Longrightarrow> fst ` set (m_erase k m) = fst ` set m - {k}"
  by (induction k m rule: m_erase.induct) auto

lemma smap_inv_insert: "smap_inv m \<Longrightarrow> smap_inv (m_insert k v m)"
  by (induction k v m rule: m_insert.induct) (auto simp: m_insert_keys)

lemma smap_inv_assign: "smap_inv m \<Longrightarrow> smap_inv (m_assign k v m)"
  by (induction k v m rule: m_assign.induct) (auto simp: m_assign_keys)

lemma smap_inv_erase: "smap_inv m \<Longrightarrow> smap_inv (m_erase k m)"
  by (induction k m rule: m_erase.induct) (auto simp: m_erase_keys)

lemma map_of_below_None:
  "\<forall>x \<in> fst ` set m. k < x \<Longrightarrow> map_of m (k :: 'k::linorder) = None"
  by (fastforce simp: map_of_eq_None_iff)

lemma map_of_insert:
  "smap_inv m \<Longrightarrow>
   map_of (m_insert k v m) = (case map_of m k of None \<Rightarrow> (map_of m)(k \<mapsto> v) | Some w \<Rightarrow> map_of m)"
proof (induction k v m rule: m_insert.induct)
  case (2 k v a b m)
  show ?case
  proof (cases "k < a")
    case True
    then have "map_of m k = None"
      using "2.prems" by (intro map_of_below_None) fastforce
    with True show ?thesis by (auto simp: fun_eq_iff)
  next
    case False
    with 2 show ?thesis by (auto simp: fun_eq_iff split: option.splits)
  qed
qed (simp add: fun_eq_iff)

lemma map_of_assign: "smap_inv m \<Longrightarrow> map_of (m_assign k v m) = (map_of m)(k \<mapsto> v)"
  by (induction k v m rule: m_assign.induct) (auto simp: fun_eq_iff)

lemma map_of_erase: "smap_inv m \<Longrightarrow> map_of (m_erase k m) = (map_of m)(k := None)"
  by (induction k m rule: m_erase.induct) (auto simp: fun_eq_iff map_of_below_None)

section \<open>The contract of an ordered dictionary\<close>

locale ordered_dict =
  fixes inv :: "'m \<Rightarrow> bool"
    and look :: "'m \<Rightarrow> 'k \<Rightarrow> 'v option"
    and ins :: "'k \<Rightarrow> 'v \<Rightarrow> 'm \<Rightarrow> 'm"
    and asg :: "'k \<Rightarrow> 'v \<Rightarrow> 'm \<Rightarrow> 'm"
    and del :: "'k \<Rightarrow> 'm \<Rightarrow> 'm"
  assumes look_ins: "inv m \<Longrightarrow>
      look (ins k v m) = (case look m k of None \<Rightarrow> (look m)(k \<mapsto> v) | Some w \<Rightarrow> look m)"
    and look_asg: "inv m \<Longrightarrow> look (asg k v m) = (look m)(k \<mapsto> v)"
    and look_del: "inv m \<Longrightarrow> look (del k m) = (look m)(k := None)"
    and inv_ins: "inv m \<Longrightarrow> inv (ins k v m)"
    and inv_asg: "inv m \<Longrightarrow> inv (asg k v m)"
    and inv_del: "inv m \<Longrightarrow> inv (del k m)"
begin

lemma look_ins_same: "inv m \<Longrightarrow> look m k = None \<Longrightarrow> look (ins k v m) k = Some v"
  by (simp add: look_ins)

lemma ins_existing: "inv m \<Longrightarrow> look m k = Some w \<Longrightarrow> look (ins k v m) = look m"
  by (simp add: look_ins)

lemma look_ins_other: "inv m \<Longrightarrow> k' \<noteq> k \<Longrightarrow> look (ins k v m) k' = look m k'"
  by (cases "look m k") (simp_all add: look_ins)

lemma del_ins_fresh: "inv m \<Longrightarrow> look m k = None \<Longrightarrow> look (del k (ins k v m)) = look m"
  by (auto simp: look_del look_ins inv_ins fun_eq_iff)

lemma ins_after_del: "inv m \<Longrightarrow> look (ins k v (del k m)) = look (asg k v m)"
  by (auto simp: look_ins look_del look_asg inv_del fun_eq_iff)

end

interpretation smap: ordered_dict smap_inv map_of m_insert m_assign m_erase
  by unfold_locales
    (auto simp: map_of_insert map_of_assign map_of_erase smap_inv_insert smap_inv_assign
      smap_inv_erase)

section \<open>Operations at a split point\<close>

text \<open>
  Client proofs work on \<open>P @ S\<close> where the operation's key separates the two halves.
\<close>

lemma m_insert_append:
  "\<forall>x \<in> fst ` set P. x < k \<Longrightarrow> m_insert k v (P @ S) = P @ m_insert k v S"
  by (induction P) auto

lemma m_insert_front: "\<forall>x \<in> fst ` set S. k < x \<Longrightarrow> m_insert k v S = (k, v) # S"
  by (cases S) auto

lemma m_assign_append:
  "\<forall>x \<in> fst ` set P. x < k \<Longrightarrow> m_assign k v (P @ S) = P @ m_assign k v S"
  by (induction P) auto

lemma m_erase_append:
  "\<forall>x \<in> fst ` set P. x < k \<Longrightarrow> m_erase k (P @ S) = P @ m_erase k S"
  by (induction P) auto

lemma map_of_append_sorted:
  "\<forall>x \<in> fst ` set P. x < k \<Longrightarrow> map_of (P @ S) (k :: 'k::linorder) = map_of S k"
  by (induction P) auto

lemma below_lower_bound: "below k m @ lower_bound k m = m"
  by (simp add: below_def lower_bound_def)

lemma upto_upper_bound: "upto k m @ upper_bound k m = m"
  by (simp add: upto_def upper_bound_def)

lemma below_keys: "x \<in> fst ` set (below k m) \<Longrightarrow> x < k"
  by (auto simp: below_def dest: set_takeWhileD)

lemma upto_keys: "x \<in> fst ` set (upto k m) \<Longrightarrow> x \<le> k"
  by (auto simp: upto_def dest: set_takeWhileD)

lemma smap_inv_halves:
  "smap_inv m \<Longrightarrow> smap_inv (below k m)" "smap_inv m \<Longrightarrow> smap_inv (lower_bound k m)"
  using below_lower_bound [of k m] smap_inv_append [of "below k m" "lower_bound k m"] by auto

lemma lower_bound_keys:
  assumes "smap_inv m" and "x \<in> fst ` set (lower_bound k m)"
  shows "k \<le> x"
proof (cases "lower_bound k m")
  case Nil
  with assms(2) show ?thesis by simp
next
  case (Cons p r)
  then have "\<not> fst p < k"
    unfolding lower_bound_def by (rule hd_dropWhile_not)
  moreover have "smap_inv (p # r)" using smap_inv_halves(2) [OF assms(1)] Cons by metis
  ultimately show ?thesis using assms(2) Cons by (cases p) auto
qed

lemma upper_bound_keys:
  assumes "smap_inv m" and "x \<in> fst ` set (upper_bound k m)"
  shows "k < x"
proof (cases "upper_bound k m")
  case Nil
  with assms(2) show ?thesis by simp
next
  case (Cons p r)
  then have "\<not> fst p \<le> k"
    unfolding upper_bound_def by (rule hd_dropWhile_not)
  moreover have "smap_inv (p # r)"
    using assms(1) Cons upto_upper_bound [of k m] smap_inv_append by metis
  ultimately show ?thesis using assms(2) Cons by (cases p) auto
qed

lemma lower_bound_Nil_iff: "lower_bound k m = [] \<longleftrightarrow> (\<forall>x \<in> fst ` set m. x < k)"
  by (auto simp: lower_bound_def dropWhile_eq_Nil_conv)

lemma it_prev_snoc [simp]: "it_prev (Q @ [p]) = Inr p"
  by (simp add: it_prev_def)

lemma it_prev_Nil [simp]: "it_prev [] = Inl Undefined"
  by (simp add: it_prev_def)

end
