(* ===== verification/Wire.thy ===== *)
theory Wire
  imports Prelude
begin

text \<open>
  The interface of the external library \<open>e\<close> (\<open>e::buffer::packer\<close>, \<open>e::unpacker\<close>) that
  all serialization code is written against. The library is not part of the repository, so its
  operations are the fields of a parameter \<open>e_codec\<close> and its documented behaviour (reading
  back what was packed, the fixed width of integers, an error when too few bytes remain) is the
  locale \<open>e_buffer\<close>. An unpacker in the error state is \<open>None\<close>.

  The big-endian codec at the end is the encoding the library documents
  (\<open>e::pack64be\<close> and its kin); it interprets the locale and is the instance of every witness.
  \<open>max_reserve\<close> is the number of servers for which \<open>std::vector::reserve\<close> finds room; asked for more, it
  throws. The instance has the limit of the standard library, \<open>(2 ^ 63 - 1) div 40\<close>, for servers of 40 bytes.
  The last section models \<open>common/network_msgtype.{h,cc}\<close>,
  \<open>common/response_returncode.{h,cc}\<close> and \<open>common/coordinator_returncode.{h,cc}\<close>.
\<close>

type_synonym byte = "8 word"

type_synonym 'a reader = "byte list \<Rightarrow> ('a \<times> byte list) option"

record e_codec =
  pk8 :: "nat \<Rightarrow> byte list"
  pk16 :: "nat \<Rightarrow> byte list"
  pk32 :: "nat \<Rightarrow> byte list"
  pk64 :: "u64 \<Rightarrow> byte list"
  pk_slice :: "byte list \<Rightarrow> byte list"
  up8 :: "nat reader"
  up16 :: "nat reader"
  up32 :: "nat reader"
  up64 :: "u64 reader"
  up_slice :: "byte list reader"
  max_reserve :: nat

section \<open>The contract\<close>

text \<open>One unsigned integer of \<open>w\<close> bytes.\<close>

locale int_codec =
  fixes w :: nat
    and pk :: "nat \<Rightarrow> byte list"
    and up :: "nat reader"
  assumes up_pk: "x < 256 ^ w \<Longrightarrow> up (pk x @ r) = Some (x, r)"
    and pk_length: "length (pk x) = w"
    and up_short: "length bs < w \<Longrightarrow> up bs = None"
    and up_long: "w \<le> length bs \<Longrightarrow> \<exists>x < 256 ^ w. up bs = Some (x, drop w bs)"
begin

lemma up_Some_iff: "(\<exists>x r. up bs = Some (x, r)) \<longleftrightarrow> w \<le> length bs"
  using up_short [of bs] up_long [of bs] by (cases "w \<le> length bs") auto

lemma up_rest: "up bs = Some (x, r) \<Longrightarrow> r = drop w bs \<and> w \<le> length bs \<and> x < 256 ^ w"
  using up_short [of bs] up_long [of bs] by (cases "w \<le> length bs") auto

lemma up_pk_only: "x < 256 ^ w \<Longrightarrow> up (pk x) = Some (x, [])"
  using up_pk [of x "[]"] by simp

end

locale e_buffer =
  fixes E :: e_codec
  assumes codec8: "int_codec 1 (pk8 E) (up8 E)"
    and codec16: "int_codec 2 (pk16 E) (up16 E)"
    and codec32: "int_codec 4 (pk32 E) (up32 E)"
    and codec64: "int_codec 8 (pk64 E) (up64 E)"
    and up_pk_slice: "length s < 2 ^ 32 \<Longrightarrow> up_slice E (pk_slice E s @ r) = Some (s, r)"
    and pk_slice_length: "length (pk_slice E s) = 4 + length s"
begin

lemma up8_pk8 [wire_simps]: "x < 256 \<Longrightarrow> up8 E (pk8 E x @ r) = Some (x, r)"
  using int_codec.up_pk [OF codec8] by simp

lemma up16_pk16 [wire_simps]: "x < 65536 \<Longrightarrow> up16 E (pk16 E x @ r) = Some (x, r)"
  using int_codec.up_pk [OF codec16] by simp

lemma up32_pk32 [wire_simps]: "x < 4294967296 \<Longrightarrow> up32 E (pk32 E x @ r) = Some (x, r)"
  using int_codec.up_pk [OF codec32] by simp

lemma up64_pk64 [wire_simps]: "x < u64_bound \<Longrightarrow> up64 E (pk64 E x @ r) = Some (x, r)"
  using int_codec.up_pk [OF codec64] by simp

lemma pk_lengths [size_simps]:
  "length (pk8 E x) = 1" "length (pk16 E x) = 2" "length (pk32 E x) = 4" "length (pk64 E x) = 8"
  using int_codec.pk_length [OF codec8] int_codec.pk_length [OF codec16]
    int_codec.pk_length [OF codec32] int_codec.pk_length [OF codec64] by simp_all

lemma up64_None_iff: "up64 E bs = None \<longleftrightarrow> length bs < 8"
  using int_codec.up_Some_iff [OF codec64, of bs] by (cases "up64 E bs") auto

lemma up8_None_iff: "up8 E bs = None \<longleftrightarrow> length bs < 1"
  using int_codec.up_Some_iff [OF codec8, of bs] by (cases "up8 E bs") (auto simp: not_le)

lemma up64_rest: "up64 E bs = Some (x, r) \<Longrightarrow> r = drop 8 bs \<and> 8 \<le> length bs \<and> x < u64_bound"
  using int_codec.up_rest [OF codec64] by fastforce

lemma up8_rest: "up8 E bs = Some (x, r) \<Longrightarrow> r = drop 1 bs \<and> 1 \<le> length bs \<and> x < 256"
  using int_codec.up_rest [OF codec8] by fastforce

end

section \<open>The big-endian codec\<close>

fun be_put :: "nat \<Rightarrow> nat \<Rightarrow> byte list" where
  "be_put 0 n = []"
| "be_put (Suc k) n = be_put k (n div 256) @ [of_nat n]"

fun be_val :: "nat \<Rightarrow> byte list \<Rightarrow> nat" where
  "be_val a [] = a"
| "be_val a (b # bs) = be_val (a * 256 + unat b) bs"

definition be_get :: "nat \<Rightarrow> nat reader" where
  "be_get k bs = (if length bs < k then None else Some (be_val 0 (take k bs), drop k bs))"

definition be_put_slice :: "byte list \<Rightarrow> byte list" where
  "be_put_slice s = be_put 4 (length s) @ s"

definition be_get_slice :: "byte list reader" where
  "be_get_slice bs =
     (case be_get 4 bs of
        None \<Rightarrow> None
      | Some (n, r) \<Rightarrow> if length r < n then None else Some (take n r, drop n r))"

definition be_codec :: e_codec where
  "be_codec =
     \<lparr>pk8 = be_put 1, pk16 = be_put 2, pk32 = be_put 4, pk64 = be_put 8, pk_slice = be_put_slice,
      up8 = be_get 1, up16 = be_get 2, up32 = be_get 4, up64 = be_get 8, up_slice = be_get_slice,
      max_reserve = 230584300921369395\<rparr>"

lemma max_reserve_be [simp]: "max_reserve be_codec = 230584300921369395"
  by (simp add: be_codec_def)

lemma be_val_append: "be_val a (xs @ ys) = be_val (be_val a xs) ys"
  by (induction a xs rule: be_val.induct) auto

lemma be_put_length [simp]: "length (be_put k n) = k"
  by (induction k n rule: be_put.induct) auto

lemma be_val_put: "n < 256 ^ k \<Longrightarrow> be_val 0 (be_put k n) = n"
proof (induction k n rule: be_put.induct)
  case (2 k n)
  then have "be_val 0 (be_put k (n div 256)) = n div 256"
    by (intro "2.IH") (simp add: less_mult_imp_div_less mult.commute)
  moreover have "unat (of_nat n :: byte) = n mod 256"
    by (simp add: unat_of_nat take_bit_eq_mod)
  ultimately show ?case by (simp add: be_val_append)
qed simp

lemma be_val_bound: "be_val a bs < (a + 1) * 256 ^ length bs"
proof (induction a bs rule: be_val.induct)
  case (2 a b bs)
  have "unat b < 256" using unsigned_less [of b] by simp
  then have "(a * 256 + unat b + 1) * 256 ^ length bs \<le> (a * 256 + 256) * 256 ^ length bs"
    by (intro mult_le_mono1) simp
  with 2 have "be_val (a * 256 + unat b) bs < (a * 256 + 256) * 256 ^ length bs"
    by (meson order_less_le_trans)
  then show ?case by (simp add: algebra_simps)
qed simp

lemma be_int_codec: "int_codec k (be_put k) (be_get k)"
proof
  fix x :: nat and r assume "x < 256 ^ k"
  then show "be_get k (be_put k x @ r) = Some (x, r)"
    by (simp add: be_get_def be_val_put)
next
  fix bs :: "byte list" assume "k \<le> length bs"
  moreover have "be_val 0 (take k bs) < 256 ^ length (take k bs)"
    using be_val_bound [of 0 "take k bs"] by simp
  ultimately show "\<exists>x < 256 ^ k. be_get k bs = Some (x, drop k bs)"
    by (auto simp: be_get_def)
qed (simp_all add: be_get_def)

interpretation be_int: int_codec k "be_put k" "be_get k" for k
  by (rule be_int_codec)

interpretation be: e_buffer be_codec
proof (rule e_buffer.intro)
  fix s r :: "byte list" assume "length s < 2 ^ 32"
  then show "up_slice be_codec (pk_slice be_codec s @ r) = Some (s, r)"
    by (simp add: be_codec_def be_put_slice_def be_get_slice_def be_get_def be_val_put)
qed (simp_all only: be_codec_def e_codec.simps be_int_codec be_put_slice_def length_append
  be_put_length)

section \<open>Message types and return codes\<close>

datatype wtf_network_msgtype =
    REQ_GET | RESP_GET | REQ_TRUNCATE | RESP_TRUNCATE | REQ_PUT | RESP_PUT
  | REQ_UPDATE | RESP_UPDATE | HYPERDEX_RESPONSE | PACKET_NOP | CONFIGMISMATCH

fun msgtype_code :: "wtf_network_msgtype \<Rightarrow> nat" where
  "msgtype_code REQ_GET = 8"
| "msgtype_code RESP_GET = 9"
| "msgtype_code REQ_TRUNCATE = 10"
| "msgtype_code RESP_TRUNCATE = 11"
| "msgtype_code REQ_PUT = 16"
| "msgtype_code RESP_PUT = 17"
| "msgtype_code REQ_UPDATE = 32"
| "msgtype_code RESP_UPDATE = 33"
| "msgtype_code HYPERDEX_RESPONSE = 64"
| "msgtype_code PACKET_NOP = 254"
| "msgtype_code CONFIGMISMATCH = 255"

text \<open>\<open>static_cast\<close> from the byte: a value outside the enumeration has no name (\<open>None\<close>).\<close>

definition msgtype_of_code :: "nat \<Rightarrow> wtf_network_msgtype option" where
  "msgtype_of_code n =
     find (\<lambda>m. msgtype_code m = n)
       [REQ_GET, RESP_GET, REQ_TRUNCATE, RESP_TRUNCATE, REQ_PUT, RESP_PUT, REQ_UPDATE,
        RESP_UPDATE, HYPERDEX_RESPONSE, PACKET_NOP, CONFIGMISMATCH]"

definition pack_msgtype :: "e_codec \<Rightarrow> wtf_network_msgtype \<Rightarrow> byte list" where
  "pack_msgtype E m = pk8 E (msgtype_code m)"

definition unpack_msgtype :: "e_codec \<Rightarrow> wtf_network_msgtype option reader" where
  "unpack_msgtype E bs = do { (mt, r) \<leftarrow> up8 E bs; Some (msgtype_of_code mt, r) }"

definition msgtype_pack_size :: nat where
  "msgtype_pack_size = 1"

datatype response_returncode =
  RESPONSE_SUCCESS | RESPONSE_OBJ_NOT_EXIST | RESPONSE_SERVER_ERROR | RESPONSE_MALFORMED

fun response_code :: "response_returncode \<Rightarrow> nat" where
  "response_code RESPONSE_SUCCESS = 0"
| "response_code RESPONSE_OBJ_NOT_EXIST = 1"
| "response_code RESPONSE_SERVER_ERROR = 2"
| "response_code RESPONSE_MALFORMED = 3"

definition response_of_code :: "nat \<Rightarrow> response_returncode option" where
  "response_of_code n =
     find (\<lambda>m. response_code m = n)
       [RESPONSE_SUCCESS, RESPONSE_OBJ_NOT_EXIST, RESPONSE_SERVER_ERROR, RESPONSE_MALFORMED]"

definition pack_response :: "e_codec \<Rightarrow> response_returncode \<Rightarrow> byte list" where
  "pack_response E m = pk8 E (response_code m)"

definition unpack_response :: "e_codec \<Rightarrow> response_returncode option reader" where
  "unpack_response E bs = do { (mt, r) \<leftarrow> up8 E bs; Some (response_of_code mt, r) }"

definition response_pack_size :: nat where
  "response_pack_size = 1"

datatype coordinator_returncode =
    COORD_SUCCESS | COORD_MALFORMED | COORD_DUPLICATE | COORD_NOT_FOUND
  | COORD_UNINITIALIZED | COORD_NO_CAN_DO

fun coord_code :: "coordinator_returncode \<Rightarrow> nat" where
  "coord_code COORD_SUCCESS = 8832"
| "coord_code COORD_MALFORMED = 8833"
| "coord_code COORD_DUPLICATE = 8834"
| "coord_code COORD_NOT_FOUND = 8835"
| "coord_code COORD_UNINITIALIZED = 8837"
| "coord_code COORD_NO_CAN_DO = 8839"

text \<open>What the calls of BusyBee, the message library, return.\<close>

datatype busybee_returncode =
    BUSYBEE_SUCCESS | BUSYBEE_SHUTDOWN | BUSYBEE_POLLFAILED | BUSYBEE_DISRUPTED | BUSYBEE_ADDFDFAIL
  | BUSYBEE_TIMEOUT | BUSYBEE_EXTERNAL | BUSYBEE_INTERRUPTED

lemma msgtype_code_bound: "msgtype_code m < 256"
  by (cases m) simp_all

lemma msgtype_of_code_inverse [simp]: "msgtype_of_code (msgtype_code m) = Some m"
  by (cases m) (simp_all add: msgtype_of_code_def)

lemma response_code_bound: "response_code m < 256"
  by (cases m) simp_all

lemma response_of_code_inverse [simp]: "response_of_code (response_code m) = Some m"
  by (cases m) (simp_all add: response_of_code_def)

context e_buffer
begin

lemma unpack_pack_msgtype: "unpack_msgtype E (pack_msgtype E m @ r) = Some (Some m, r)"
  by (simp add: unpack_msgtype_def pack_msgtype_def up8_pk8 msgtype_code_bound)

lemma unpack_pack_response: "unpack_response E (pack_response E m @ r) = Some (Some m, r)"
  by (simp add: unpack_response_def pack_response_def up8_pk8 response_code_bound)

end

end
