(* ===== verification/Block.thy ===== *)
theory Block
  imports Wire
begin

text \<open>
  \<open>common/block_location.{h,cc}\<close>: the name of a stored block (server, block number), its six
  comparison operators as the \<open>OPERATOR\<close> macro expands them, and its encoding.
  \<open>common/block.{h,cc}\<close>: a block of a file, which is a list of replicas with an offset and a
  length. Reference counting and the \<open>ostream\<close> printers are not modelled.

  A reader gives \<open>None\<close> when the unpacker ends in its error state: the object then holds no
  value the code may rely on.
\<close>

section \<open>Block locations\<close>

record block_location =
  bl_si :: u64
  bl_bi :: u64

definition bl_default :: block_location where
  "bl_default = \<lparr>bl_si = u64_max, bl_bi = u64_max\<rparr>"

definition bl_operator :: "(u64 \<Rightarrow> u64 \<Rightarrow> bool) \<Rightarrow> block_location \<Rightarrow> block_location \<Rightarrow> bool" where
  "bl_operator rel l r \<longleftrightarrow>
     rel (bl_si l) (bl_si r) \<or> (bl_si l = bl_si r \<and> rel (bl_bi l) (bl_bi r))"

definition bl_lt :: "block_location \<Rightarrow> block_location \<Rightarrow> bool" where
  "bl_lt = bl_operator (<)"

definition bl_le :: "block_location \<Rightarrow> block_location \<Rightarrow> bool" where
  "bl_le = bl_operator (\<le>)"

definition bl_eq :: "block_location \<Rightarrow> block_location \<Rightarrow> bool" where
  "bl_eq = bl_operator (=)"

definition bl_ne :: "block_location \<Rightarrow> block_location \<Rightarrow> bool" where
  "bl_ne = bl_operator (\<noteq>)"

definition bl_ge :: "block_location \<Rightarrow> block_location \<Rightarrow> bool" where
  "bl_ge = bl_operator (\<ge>)"

definition bl_gt :: "block_location \<Rightarrow> block_location \<Rightarrow> bool" where
  "bl_gt = bl_operator (>)"

lemmas bl_order_defs = bl_operator_def bl_lt_def bl_le_def bl_eq_def bl_ne_def bl_ge_def bl_gt_def

definition bl_pack_size :: nat where
  "bl_pack_size = 2 * 8"

definition pack_bl :: "e_codec \<Rightarrow> block_location \<Rightarrow> byte list" where
  "pack_bl E b = pk64 E (bl_si b) @ pk64 E (bl_bi b)"

definition unpack_bl :: "e_codec \<Rightarrow> block_location reader" where
  "unpack_bl E bs =
     do { (si, bs) \<leftarrow> up64 E bs; (bi, bs) \<leftarrow> up64 E bs; Some (\<lparr>bl_si = si, bl_bi = bi\<rparr>, bs) }"

definition bl_wf :: "block_location \<Rightarrow> bool" where
  "bl_wf b \<longleftrightarrow> bl_si b < u64_bound \<and> bl_bi b < u64_bound"

lemma bl_wf_default [simp]: "bl_wf bl_default"
  by (simp add: bl_wf_def bl_default_def u64_max_def)

text \<open>The strict order is the lexicographic one, and \<open>!=\<close> is inequality.\<close>

lemma bl_lt_irrefl: "\<not> bl_lt b b"
  by (simp add: bl_order_defs)

lemma bl_lt_trans: "bl_lt a b \<Longrightarrow> bl_lt b c \<Longrightarrow> bl_lt a c"
  by (auto simp: bl_order_defs)

lemma bl_lt_total: "a \<noteq> b \<Longrightarrow> bl_lt a b \<or> bl_lt b a"
  by (cases a, cases b) (auto simp: bl_order_defs)

lemma bl_ne_iff: "bl_ne a b \<longleftrightarrow> a \<noteq> b"
  by (auto simp: bl_order_defs)

lemma bl_eq_iff_server: "bl_eq a b \<longleftrightarrow> bl_si a = bl_si b"
  by (auto simp: bl_order_defs)

lemma bl_le_iff_server: "bl_le a b \<longleftrightarrow> bl_si a \<le> bl_si b"
  by (auto simp: bl_order_defs)

text \<open>A run of \<open>n\<close> locations, the loop shared by blocks and slices.\<close>

definition pack_bls :: "e_codec \<Rightarrow> block_location list \<Rightarrow> byte list" where
  "pack_bls E bs = concat (map (pack_bl E) bs)"

fun unpack_bls :: "e_codec \<Rightarrow> nat \<Rightarrow> block_location list reader" where
  "unpack_bls E 0 bs = Some ([], bs)"
| "unpack_bls E (Suc n) bs =
     do { (b, bs) \<leftarrow> unpack_bl E bs; (rest, bs) \<leftarrow> unpack_bls E n bs; Some (b # rest, bs) }"

context e_buffer
begin

lemma unpack_pack_bl [wire_simps]: "bl_wf b \<Longrightarrow> unpack_bl E (pack_bl E b @ r) = Some (b, r)"
  by (simp add: unpack_bl_def pack_bl_def bl_wf_def up64_pk64)

lemma pack_bl_length [size_simps]: "length (pack_bl E b) = bl_pack_size"
  by (simp add: pack_bl_def bl_pack_size_def pk_lengths)

lemma unpack_pack_bls [wire_simps]:
  "list_all bl_wf bs \<Longrightarrow> unpack_bls E (length bs) (pack_bls E bs @ r) = Some (bs, r)"
  by (induction bs) (simp_all add: pack_bls_def unpack_pack_bl)

lemma pack_bls_length [size_simps]: "length (pack_bls E bs) = length bs * bl_pack_size"
  by (induction bs) (simp_all add: pack_bls_def pack_bl_length)

end

section \<open>Blocks\<close>

record block =
  b_list :: "block_location list"
  b_offset :: u64
  b_length :: u64

definition block_new :: "u64 \<Rightarrow> u64 \<Rightarrow> nat \<Rightarrow> block" where
  "block_new block_capacity file_offset reps =
     \<lparr>b_list = replicate reps bl_default, b_offset = file_offset, b_length = 0\<rparr>"

definition block_add_replica :: "block_location \<Rightarrow> block \<Rightarrow> block" where
  "block_add_replica bl b = b\<lparr>b_list := b_list b @ [bl]\<rparr>"

definition block_size :: "block \<Rightarrow> u64" where
  "block_size b = length (b_list b)"

definition block_set_length :: "u64 \<Rightarrow> block \<Rightarrow> block" where
  "block_set_length len b = b\<lparr>b_length := len\<rparr>"

definition block_set_offset :: "u64 \<Rightarrow> block \<Rightarrow> block" where
  "block_set_offset off b = b\<lparr>b_offset := off\<rparr>"

definition block_first_location :: "block \<Rightarrow> block_location" where
  "block_first_location b = (case b_list b of [] \<Rightarrow> bl_default | bl # _ \<Rightarrow> bl)"

definition block_pack_size :: "block \<Rightarrow> nat" where
  "block_pack_size b = 3 * 8 + length (b_list b) * bl_pack_size"

definition pack_block :: "e_codec \<Rightarrow> block \<Rightarrow> byte list" where
  "pack_block E b =
     pk64 E (b_offset b) @ pk64 E (b_length b) @ pk64 E (length (b_list b)) @ pack_bls E (b_list b)"

text \<open>Unpacking reads into an existing object: the replicas are added to those it has.\<close>

definition unpack_block :: "e_codec \<Rightarrow> block \<Rightarrow> block reader" where
  "unpack_block E old bs =
     do {
       (offset, bs) \<leftarrow> up64 E bs;
       (len, bs) \<leftarrow> up64 E bs;
       (replicas, bs) \<leftarrow> up64 E bs;
       (bls, bs) \<leftarrow> unpack_bls E replicas bs;
       Some (foldl (\<lambda>b bl. block_add_replica bl b) (old\<lparr>b_length := len, b_offset := offset\<rparr>) bls, bs)
     }"

definition block_wf :: "block \<Rightarrow> bool" where
  "block_wf b \<longleftrightarrow> b_offset b < u64_bound \<and> b_length b < u64_bound \<and>
     length (b_list b) < u64_bound \<and> list_all bl_wf (b_list b)"

lemma block_add_replicas:
  "foldl (\<lambda>b bl. block_add_replica bl b) b bls = b\<lparr>b_list := b_list b @ bls\<rparr>"
  by (induction bls arbitrary: b) (simp_all add: block_add_replica_def)

context e_buffer
begin

lemma unpack_pack_block:
  assumes "block_wf b"
  shows "unpack_block E old (pack_block E b @ r) =
     Some (\<lparr>b_list = b_list old @ b_list b, b_offset = b_offset b, b_length = b_length b\<rparr>, r)"
  using assms
  by (simp add: unpack_block_def pack_block_def block_wf_def up64_pk64 unpack_pack_bls
      block_add_replicas)

lemma pack_block_length [size_simps]: "length (pack_block E b) = block_pack_size b"
  by (simp add: pack_block_def block_pack_size_def pk_lengths pack_bls_length)

end

end
