(* ===== verification/IntervalMap.thy ===== *)
theory IntervalMap
  imports StdMap Block
begin

text \<open>
  \<open>common/interval_map.{h,cc}\<close>: the map of a file, from start addresses to slices of
  replicated blocks. The state is the \<open>std::map\<close> from start address to slice; every private
  step of \<open>insert\<close> is a definition, and \<open>insert\<close> composes them with the code's case
  analysis. A decrement of \<open>begin()\<close> is \<open>Inl Undefined\<close>.
\<close>

record slice =
  sl_location :: "block_location list"
  sl_offset :: u64
  sl_length :: u64

type_synonym slice_map = "(u64, slice) smap"

definition empty_slice :: slice where
  "empty_slice = \<lparr>sl_location = [], sl_offset = 0, sl_length = 0\<rparr>"

section \<open>The steps of insert\<close>

definition set_slice_length :: "u64 \<Rightarrow> u64 \<Rightarrow> slice_map \<Rightarrow> slice_map" where
  "set_slice_length k len m = m_assign k ((m_index empty_slice m k)\<lparr>sl_length := len\<rparr>) m"

definition insert_contained :: "u64 \<Rightarrow> u64 \<Rightarrow> u64 \<Rightarrow> u64 \<Rightarrow> slice_map \<Rightarrow> slice_map" where
  "insert_contained block_start_address block_length insert_address insert_length m =
     (let slc_location = sl_location (m_index empty_slice m block_start_address);
          new_length = u64_sub insert_address block_start_address;
          m1 = set_slice_length block_start_address new_length m;
          new_block_start = u64_add (u64_add block_start_address new_length) insert_length;
          new_block_length = u64_sub (u64_sub block_length new_length) insert_length;
          new_slice = \<lparr>sl_location = slc_location, sl_offset = u64_add new_length insert_length,
                       sl_length = new_block_length\<rparr>
      in m_insert new_block_start new_slice m1)"

definition insert_right :: "u64 \<Rightarrow> u64 \<Rightarrow> slice_map \<Rightarrow> slice_map" where
  "insert_right block_start_address insert_address m =
     (let new_length = u64_sub insert_address block_start_address
      in set_slice_length block_start_address new_length m)"

definition insert_left :: "u64 \<Rightarrow> u64 \<Rightarrow> u64 \<Rightarrow> u64 \<Rightarrow> slice_map \<Rightarrow> slice_map" where
  "insert_left block_start_address block_length insert_address insert_length m =
     (let new_offset = u64_sub (u64_add insert_address insert_length) block_start_address;
          new_length = u64_sub block_length new_offset;
          new_block_start = u64_add block_start_address new_offset;
          loc = sl_location (m_index empty_slice m block_start_address);
          m1 = m_erase block_start_address m;
          new_slice = \<lparr>sl_location = loc, sl_offset = new_offset, sl_length = new_length\<rparr>
      in m_insert new_block_start new_slice m1)"

definition insert_overwrite_interval :: "u64 \<Rightarrow> slice_map \<Rightarrow> slice_map" where
  "insert_overwrite_interval block_start_address m = m_erase block_start_address m"

definition insert_interval ::
  "u64 \<Rightarrow> u64 \<Rightarrow> block_location list \<Rightarrow> slice_map \<Rightarrow> slice_map" where
  "insert_interval insert_address insert_length insert_location m =
     m_insert insert_address \<lparr>sl_location = insert_location, sl_offset = 0, sl_length = insert_length\<rparr> m"

text \<open>The loop that drops the slices ending before the end of the new one.\<close>

fun overwrite_loop :: "u64 \<Rightarrow> slice_map \<Rightarrow> slice_map \<Rightarrow> slice_map \<times> slice_map" where
  "overwrite_loop insert_end m [] = (m, [])"
| "overwrite_loop insert_end m ((k, s) # it) =
     (if u64_add k (sl_length s) < insert_end
      then overwrite_loop insert_end (insert_overwrite_interval k m) it
      else (m, (k, s) # it))"

definition overwrite_and_cut :: "u64 \<Rightarrow> u64 \<Rightarrow> slice_map \<Rightarrow> slice_map \<Rightarrow> slice_map" where
  "overwrite_and_cut insert_address insert_length m it =
     (let (m1, it1) = overwrite_loop (u64_add insert_address insert_length) m it
      in case it1 of
           [] \<Rightarrow> m1
         | (k, s) # _ \<Rightarrow> insert_left k (sl_length s) insert_address insert_length m1)"

definition fill_hole :: "u64 \<Rightarrow> slice_map \<Rightarrow> slice_map" where
  "fill_hole insert_address m =
     (if 0 < insert_address then m_insert 0 (empty_slice\<lparr>sl_length := insert_address\<rparr>) m else m)"

text \<open>The case \<open>it == end()\<close>: the new slice starts after the start of every other.\<close>

definition insert_at_end :: "u64 \<Rightarrow> u64 \<Rightarrow> u64 \<times> slice \<Rightarrow> slice_map \<Rightarrow> slice_map" where
  "insert_at_end insert_address insert_length prev m =
     (let block_start = fst prev;
          len = sl_length (snd prev)
      in if u64_add block_start len < insert_address then
           m_insert (u64_add block_start len)
             (empty_slice\<lparr>sl_length := u64_add (u64_sub insert_address block_start) len\<rparr>) m
         else if u64_add block_start len > u64_add insert_address insert_length then
           insert_contained block_start len insert_address insert_length m
         else if u64_add block_start len \<noteq> insert_address then
           insert_right block_start insert_address m
         else m)"

text \<open>The case where the new slice starts strictly inside the slice before the iterator.\<close>

definition insert_inside :: "u64 \<Rightarrow> u64 \<Rightarrow> u64 \<times> slice \<Rightarrow> slice_map \<Rightarrow> slice_map \<Rightarrow> slice_map" where
  "insert_inside insert_address insert_length prev it m =
     (let block_start = fst prev;
          len = sl_length (snd prev)
      in if u64_add block_start len > u64_add insert_address insert_length then
           insert_contained block_start len insert_address insert_length m
         else
           overwrite_and_cut insert_address insert_length (insert_right block_start insert_address m) it)"

definition imap_insert ::
  "u64 \<Rightarrow> u64 \<Rightarrow> block_location list \<Rightarrow> slice_map \<Rightarrow> slice_map res" where
  "imap_insert insert_address insert_length insert_location m =
     (let passed = below insert_address m;
          it = lower_bound insert_address m
      in rbind
           (if m = [] then Inr (fill_hole insert_address m)
            else case it of
                [] \<Rightarrow> rbind (it_prev passed) (\<lambda>prev. Inr (insert_at_end insert_address insert_length prev m))
              | (k, _) # _ \<Rightarrow>
                  if k \<noteq> insert_address then
                    rbind (it_prev passed) (\<lambda>prev. Inr (insert_inside insert_address insert_length prev it m))
                  else Inr (overwrite_and_cut insert_address insert_length m it))
           (\<lambda>m'. Inr (insert_interval insert_address insert_length insert_location m')))"

text \<open>The overload on a slice uses its length and sl_location, not its sl_offset.\<close>

definition insert_slice :: "u64 \<Rightarrow> slice \<Rightarrow> slice_map \<Rightarrow> slice_map res" where
  "insert_slice insert_address slc m = imap_insert insert_address (sl_length slc) (sl_location slc) m"

section \<open>Reading, truncation, length\<close>

text \<open>One round of the loop of \<open>get_slices\<close>: the slice pushed, and whether it returns.\<close>

definition clip_slice :: "u64 \<Rightarrow> u64 \<Rightarrow> u64 \<times> slice \<Rightarrow> slice \<times> bool" where
  "clip_slice request_address request_length entry =
     (let block_address = fst entry;
          s = snd entry;
          block_length = sl_length s;
          block_offset = sl_offset s
      in if request_address \<ge> block_address \<and>
            u64_add request_address request_length \<le> u64_add block_address block_length then
           (s\<lparr>sl_offset := u64_add (u64_sub request_address block_address) block_offset,
              sl_length := request_length\<rparr>, True)
         else if block_address < request_address then
           (s\<lparr>sl_offset := u64_add (u64_sub request_address block_address) block_offset,
              sl_length := u64_sub (u64_add block_address block_length) request_address\<rparr>, False)
         else
           (s\<lparr>sl_offset := (if block_address < request_address
                         then u64_sub request_address block_address else block_offset),
              sl_length := (if u64_add block_address block_length \<le> u64_add request_address request_length
                          then block_length
                          else u64_sub (u64_add request_address request_length) block_address)\<rparr>, False))"

fun get_slices_loop :: "u64 \<Rightarrow> u64 \<Rightarrow> slice_map \<Rightarrow> slice list" where
  "get_slices_loop request_address request_length [] = []"
| "get_slices_loop request_address request_length (entry # it) =
     (if fst entry < u64_add request_address request_length then
        (let (s, done) = clip_slice request_address request_length entry
         in if done then [s] else s # get_slices_loop request_address request_length it)
      else [])"

definition get_slices :: "u64 \<Rightarrow> u64 \<Rightarrow> slice_map \<Rightarrow> slice list res" where
  "get_slices request_address request_length m =
     (let passed = below request_address m;
          it = lower_bound request_address m
      in if m = [] \<or> request_length = 0 then Inr []
         else case it of
             [] \<Rightarrow> rbind (it_prev passed) (\<lambda>prev.
                let block_address = fst prev;
                    s = snd prev;
                    block_offset = sl_offset s;
                    block_length = sl_length s
                in if u64_add block_address block_length < request_address then Inr []
                   else Inr [s\<lparr>sl_offset := u64_add (u64_sub request_address block_address) block_offset,
                               sl_length := request_length\<rparr>])
           | (k, _) # _ \<Rightarrow>
               if k \<noteq> request_address then
                 rbind (it_prev passed) (\<lambda>prev. Inr (get_slices_loop request_address request_length (prev # it)))
               else Inr (get_slices_loop request_address request_length it))"

definition imap_clear :: "slice_map \<Rightarrow> slice_map" where
  "imap_clear m = []"

definition imap_truncate :: "u64 \<Rightarrow> slice_map \<Rightarrow> slice_map res" where
  "imap_truncate len m =
     (if m = [] then Inr m
      else rbind (it_prev (upto len m)) (\<lambda>(k, s).
        Inr (if u64_add k (sl_length s) > len
             then butlast (upto len m) @ [(k, s\<lparr>sl_length := u64_sub len k\<rparr>)]
             else upto len m)))"

definition imap_length :: "slice_map \<Rightarrow> u64" where
  "imap_length m = (if m = [] then 0 else u64_add (fst (last m)) (sl_length (snd (last m))))"

section \<open>Encoding\<close>

definition slice_pack_size :: "slice \<Rightarrow> nat" where
  "slice_pack_size s = 3 * 8 + length (sl_location s) * bl_pack_size"

definition imap_pack_size :: "slice_map \<Rightarrow> nat" where
  "imap_pack_size m = foldl (\<lambda>ret p. ret + slice_pack_size (snd p)) 8 m"

definition pack_slice :: "e_codec \<Rightarrow> slice \<Rightarrow> byte list" where
  "pack_slice E s =
     pk64 E (sl_offset s) @ pk64 E (sl_length s) @ pk64 E (length (sl_location s)) @ pack_bls E (sl_location s)"

definition unpack_slice :: "e_codec \<Rightarrow> slice reader" where
  "unpack_slice E bs =
     do {
       (off, bs) \<leftarrow> up64 E bs;
       (len, bs) \<leftarrow> up64 E bs;
       (sz, bs) \<leftarrow> up64 E bs;
       (locs, bs) \<leftarrow> unpack_bls E sz bs;
       Some (\<lparr>sl_location = locs, sl_offset = off, sl_length = len\<rparr>, bs)
     }"

definition pack_imap :: "e_codec \<Rightarrow> slice_map \<Rightarrow> byte list" where
  "pack_imap E m = pk64 E (length m) @ concat (map (\<lambda>p. pack_slice E (snd p)) m)"

fun unpack_imap_loop :: "e_codec \<Rightarrow> nat \<Rightarrow> u64 \<Rightarrow> slice_map \<Rightarrow> slice_map reader" where
  "unpack_imap_loop E 0 insert_address m bs = Some (m, bs)"
| "unpack_imap_loop E (Suc n) insert_address m bs =
     do {
       (slc, bs) \<leftarrow> unpack_slice E bs;
       case insert_slice insert_address slc m of
         Inl _ \<Rightarrow> None
       | Inr m' \<Rightarrow> unpack_imap_loop E n (u64_add insert_address (sl_length slc)) m' bs
     }"

definition unpack_imap :: "e_codec \<Rightarrow> slice_map \<Rightarrow> slice_map reader" where
  "unpack_imap E old bs =
     do { (sz, bs) \<leftarrow> up64 E bs; unpack_imap_loop E sz 0 (imap_clear old) bs }"

end
