(* ===== verification/IntervalMapProps.thy ===== *)
theory IntervalMapProps
  imports IntervalMap
begin

text \<open>
  Correctness of the interval map. The invariant \<open>imap_wf n m\<close>: the slices tile the addresses
  from 0 to the file length \<open>n\<close>. The abstraction \<open>seg_lookup m\<close>: which byte of which replicated
  block holds the byte at an address. \<open>insert\<close> overlays the new slice on the abstraction,
  \<open>get_slices\<close> reads it, \<open>truncate\<close> cuts it.
\<close>

section \<open>Invariant and abstraction\<close>

fun contig :: "u64 \<Rightarrow> slice_map \<Rightarrow> u64 \<Rightarrow> bool" where
  "contig a [] b \<longleftrightarrow> a = b"
| "contig a ((k, s) # m) b \<longleftrightarrow> k = a \<and> contig (k + sl_length s) m b"

definition offsets_ok :: "slice_map \<Rightarrow> bool" where
  "offsets_ok m \<longleftrightarrow> list_all (\<lambda>(k, s). sl_offset s + sl_length s < u64_bound) m"

definition imap_wf :: "u64 \<Rightarrow> slice_map \<Rightarrow> bool" where
  "imap_wf n m \<longleftrightarrow> smap_inv m \<and> contig 0 m n \<and> offsets_ok m \<and> n < u64_bound"

fun seg_lookup :: "slice_map \<Rightarrow> u64 \<Rightarrow> (block_location list \<times> u64) option" where
  "seg_lookup [] x = None"
| "seg_lookup ((k, s) # m) x =
     (if k \<le> x \<and> x < k + sl_length s then Some (sl_location s, sl_offset s + (x - k))
      else seg_lookup m x)"

text \<open>The slice that holds address \<open>e\<close>, if any, starts at the first byte of its block.\<close>

definition cut_ok :: "slice_map \<Rightarrow> u64 \<Rightarrow> bool" where
  "cut_ok m e \<longleftrightarrow> list_all (\<lambda>(k, s). k \<le> e \<and> e < k + sl_length s \<longrightarrow> sl_offset s = 0) m"

lemma contig_append: "contig a (P @ S) c \<longleftrightarrow> (\<exists>b. contig a P b \<and> contig b S c)"
  by (induction a P c rule: contig.induct) auto

lemma contig_le: "contig a m b \<Longrightarrow> a \<le> b"
  by (induction a m b rule: contig.induct) auto

lemma contig_keys: "contig a m b \<Longrightarrow> (k, s) \<in> set m \<Longrightarrow> a \<le> k \<and> k + sl_length s \<le> b"
  by (induction a m b rule: contig.induct) (auto dest: contig_le)

lemma contig_unique: "contig a m b \<Longrightarrow> contig a m c \<Longrightarrow> b = c"
  by (induction a m b rule: contig.induct) auto

lemma contig_key_ge: "contig a m b \<Longrightarrow> y \<in> fst ` set m \<Longrightarrow> a \<le> y"
  by (auto dest: contig_keys)

lemma seg_lookup_append:
  "seg_lookup (P @ S) x = (case seg_lookup P x of None \<Rightarrow> seg_lookup S x | Some v \<Rightarrow> Some v)"
  by (induction P x rule: seg_lookup.induct) auto

lemma seg_lookup_None: "contig a m b \<Longrightarrow> x < a \<or> b \<le> x \<Longrightarrow> seg_lookup m x = None"
proof (induction m arbitrary: a)
  case (Cons p m)
  obtain k s where p: "p = (k, s)" by (cases p)
  with Cons.prems have "k = a" and c: "contig (a + sl_length s) m b" by auto
  moreover from c have "a + sl_length s \<le> b" by (rule contig_le)
  moreover have "seg_lookup m x = None" using Cons.IH [OF c] Cons.prems(2) by auto
  ultimately show ?case using p Cons.prems(2) by auto
qed simp

lemma seg_lookup_Some: "contig a m b \<Longrightarrow> a \<le> x \<Longrightarrow> x < b \<Longrightarrow> \<exists>v. seg_lookup m x = Some v"
proof (induction m arbitrary: a)
  case (Cons p m)
  then show ?case by (cases p) (auto simp: not_less)
qed simp

lemma seg_lookup_left: "contig a P b \<Longrightarrow> a \<le> x \<Longrightarrow> x < b \<Longrightarrow> seg_lookup (P @ S) x = seg_lookup P x"
  using seg_lookup_Some [of a P b x] by (auto simp: seg_lookup_append)

lemma seg_lookup_right: "contig a P b \<Longrightarrow> b \<le> x \<Longrightarrow> seg_lookup (P @ S) x = seg_lookup S x"
  by (simp add: seg_lookup_append seg_lookup_None)

lemma offsets_ok_simps [simp]:
  "offsets_ok []"
  "offsets_ok ((k, s) # m) \<longleftrightarrow> sl_offset s + sl_length s < u64_bound \<and> offsets_ok m"
  "offsets_ok (P @ S) \<longleftrightarrow> offsets_ok P \<and> offsets_ok S"
  by (simp_all add: offsets_ok_def)

lemma cut_ok_append [simp]: "cut_ok (P @ S) e \<longleftrightarrow> cut_ok P e \<and> cut_ok S e"
  by (simp add: cut_ok_def)

lemma cut_ok_Cons [simp]:
  "cut_ok ((k, s) # m) e \<longleftrightarrow> (k \<le> e \<and> e < k + sl_length s \<longrightarrow> sl_offset s = 0) \<and> cut_ok m e"
  by (simp add: cut_ok_def)

section \<open>Splicing a slice between two halves\<close>

text \<open>The halves that a non-empty insertion leaves: \<open>P\<close> up to \<open>a\<close> and \<open>T\<close> from \<open>a + n\<close>.\<close>

definition splice :: "slice_map \<Rightarrow> u64 \<Rightarrow> u64 \<Rightarrow> block_location list \<Rightarrow> slice_map \<Rightarrow> slice_map" where
  "splice P a n L T = P @ (a, \<lparr>sl_location = L, sl_offset = 0, sl_length = n\<rparr>) # T"

definition left_half :: "slice_map \<Rightarrow> u64 \<Rightarrow> slice_map \<Rightarrow> bool" where
  "left_half m a P \<longleftrightarrow> smap_inv P \<and> contig 0 P a \<and> offsets_ok P \<and> (\<forall>y \<in> fst ` set P. y < a) \<and>
     (\<forall>x < a. seg_lookup P x = seg_lookup m x)"

definition right_half :: "slice_map \<Rightarrow> u64 \<Rightarrow> u64 \<Rightarrow> slice_map \<Rightarrow> bool" where
  "right_half m e b T \<longleftrightarrow> smap_inv T \<and> contig e T b \<and> offsets_ok T \<and>
     (cut_ok m e \<longrightarrow> (\<forall>x \<ge> e. seg_lookup T x = seg_lookup m x))"

lemma splice_wf:
  assumes "left_half m a P" and "right_half m (a + n) b T" and "0 < n" and "b < u64_bound"
    and n: "n < u64_bound"
  shows "imap_wf b (splice P a n L T)"
proof -
  from assms have "contig 0 (splice P a n L T) b"
    by (auto simp: splice_def contig_append left_half_def right_half_def)
  moreover have "\<forall>y \<in> fst ` set T. a < y"
    using assms by (auto simp: right_half_def dest!: contig_key_ge [where m = T])
  moreover have "\<forall>y \<in> fst ` set P. y < a" using assms by (simp add: left_half_def)
  moreover have "smap_inv P" "smap_inv T" using assms by (simp_all add: left_half_def right_half_def)
  ultimately show ?thesis
    using assms by (fastforce simp: imap_wf_def splice_def smap_inv_append left_half_def right_half_def)
qed

lemma splice_lookup:
  assumes "left_half m a P" and "right_half m (a + n) b T"
    and "x < a + n \<or> cut_ok m (a + n)"
  shows "seg_lookup (splice P a n L T) x =
     (if a \<le> x \<and> x < a + n then Some (L, x - a) else seg_lookup m x)"
proof (cases "x < a")
  case True
  then have "seg_lookup (splice P a n L T) x = seg_lookup P x"
    using assms(1) unfolding splice_def left_half_def by (intro seg_lookup_left) auto
  with True assms(1) show ?thesis by (simp add: left_half_def)
next
  case False
  then have "seg_lookup (splice P a n L T) x =
      seg_lookup ((a, \<lparr>sl_location = L, sl_offset = 0, sl_length = n\<rparr>) # T) x"
    using assms(1) unfolding splice_def left_half_def by (intro seg_lookup_right) auto
  with False assms show ?thesis by (auto simp: right_half_def)
qed

section \<open>Cutting on the left and on the right\<close>

lemma set_slice_length_last:
  assumes "smap_inv (Q @ (k, s) # S)"
  shows "set_slice_length k len (Q @ (k, s) # S) = Q @ (k, s\<lparr>sl_length := len\<rparr>) # S"
proof -
  have lt: "\<forall>x \<in> fst ` set Q. x < k" using assms by (auto simp: smap_inv_append)
  then have "map_of (Q @ (k, s) # S) k = map_of ((k, s) # S) k" by (rule map_of_append_sorted)
  then have "m_index empty_slice (Q @ (k, s) # S) k = s" by (simp add: m_index_def)
  then show ?thesis by (simp add: set_slice_length_def m_assign_append [OF lt])
qed

lemma m_index_last:
  assumes "smap_inv (Q @ (k, s) # S)"
  shows "m_index d (Q @ (k, s) # S) k = s"
proof -
  have lt: "\<forall>x \<in> fst ` set Q. x < k" using assms by (auto simp: smap_inv_append)
  then have "map_of (Q @ (k, s) # S) k = map_of ((k, s) # S) k" by (rule map_of_append_sorted)
  then show ?thesis by (simp add: m_index_def)
qed

lemma left_cut:
  assumes wf: "imap_wf b (Q @ (k, s) # S)" and "k < a" and "a \<le> k + sl_length s"
  shows "left_half (Q @ (k, s) # S) a (Q @ [(k, s\<lparr>sl_length := a - k\<rparr>)])"
proof -
  have c: "contig 0 Q k" using wf by (auto simp: imap_wf_def contig_append)
  have inv: "smap_inv Q" "\<forall>y \<in> fst ` set Q. y < k"
    using wf by (auto simp: imap_wf_def smap_inv_append)
  have "seg_lookup (Q @ [(k, s\<lparr>sl_length := a - k\<rparr>)]) x = seg_lookup (Q @ (k, s) # S) x"
    if "x < a" for x
  proof (cases "x < k")
    case True
    then show ?thesis using seg_lookup_left [OF c] by simp
  next
    case False
    then show ?thesis using seg_lookup_right [OF c] that assms(3) by simp
  qed
  moreover have "offsets_ok Q" "sl_offset s + (a - k) < u64_bound"
    using wf assms(3) by (auto simp: imap_wf_def)
  ultimately show ?thesis
    using c inv assms(2) by (fastforce simp: left_half_def smap_inv_append contig_append)
qed

lemma left_whole:
  assumes "imap_wf b (P @ S)" and "contig 0 P a" and "\<forall>y \<in> fst ` set P. y < a"
  shows "left_half (P @ S) a P"
  using assms seg_lookup_left [OF assms(2)]
  by (auto simp: left_half_def imap_wf_def smap_inv_append)

lemma right_cut:
  assumes wf: "imap_wf b (Q @ (k, s) # S)" and "k \<le> e" and "e < k + sl_length s"
  shows "right_half (Q @ (k, s) # S) e b
     ((e, \<lparr>sl_location = sl_location s, sl_offset = e - k, sl_length = k + sl_length s - e\<rparr>) # S)"
proof -
  have c: "contig 0 Q k" "contig (k + sl_length s) S b"
    using wf by (auto simp: imap_wf_def contig_append)
  have "\<forall>y \<in> fst ` set S. e < y"
    using contig_key_ge [OF c(2)] assms(3) by (meson order_less_le_trans)
  moreover have "smap_inv S" using wf by (auto simp: imap_wf_def smap_inv_append)
  moreover have "seg_lookup (Q @ (k, s) # S) x = seg_lookup ((k, s) # S) x" if "e \<le> x" for x
    using seg_lookup_right [OF c(1)] assms(2) that by simp
  moreover have "offsets_ok S" "k + sl_length s \<le> b" "b < u64_bound"
    using wf contig_le [OF c(2)] by (auto simp: imap_wf_def)
  ultimately show ?thesis using c assms(2,3) by (auto simp: right_half_def)
qed

lemma right_split:
  assumes wf: "imap_wf b (Q @ (k, s) # S)" and "k \<le> e" and "e \<le> k + sl_length s"
  shows "right_half (Q @ (k, s) # S) e b
     (if e = k + sl_length s \<and> S \<noteq> [] then S
      else (e, \<lparr>sl_location = sl_location s, sl_offset = e - k, sl_length = k + sl_length s - e\<rparr>) # S)"
proof (cases "e < k + sl_length s")
  case True
  with right_cut [OF wf assms(2)] show ?thesis by simp
next
  case False
  then have e: "e = k + sl_length s" using assms(3) by simp
  have c: "contig 0 Q k" "contig e S b"
    using wf e by (auto simp: imap_wf_def contig_append)
  have "seg_lookup (Q @ (k, s) # S) x = seg_lookup S x" if "e \<le> x" for x
    using seg_lookup_right [OF c(1), of x] e that by simp
  then show ?thesis
    using wf c e by (auto simp: right_half_def imap_wf_def smap_inv_append)
qed

lemma right_beyond: "contig 0 m b \<Longrightarrow> b \<le> e \<Longrightarrow> right_half m e e []"
  by (auto simp: right_half_def seg_lookup_None)

section \<open>Overwriting\<close>

definition uncovered :: "u64 \<Rightarrow> slice_map \<Rightarrow> slice_map" where
  "uncovered e m = dropWhile (\<lambda>(k, s). k + sl_length s < e) m"

lemma overwrite_loop_uncovered:
  assumes "smap_inv (P @ it)" and "contig c it b" and "b < u64_bound"
  shows "overwrite_loop e (P @ it) it = (P @ uncovered e it, uncovered e it)"
  using assms
proof (induction it arbitrary: c)
  case (Cons p it)
  obtain k s where p: "p = (k, s)" by (cases p)
  with Cons.prems(2) have c: "contig (k + sl_length s) it b" by auto
  then have "k + sl_length s \<le> b" by (rule contig_le)
  then have e: "u64_add k (sl_length s) = k + sl_length s" using Cons.prems(3) by (simp add: u64_add_exact)
  have "\<forall>y \<in> fst ` set P. y < k" and i: "smap_inv (P @ it)"
    using Cons.prems(1) p by (auto simp: smap_inv_append)
  then have "insert_overwrite_interval k (P @ (k, s) # it) = P @ it"
    by (simp add: insert_overwrite_interval_def m_erase_append)
  with Cons.IH [OF i c Cons.prems(3)] p e show ?case by (simp add: uncovered_def)
qed (simp add: uncovered_def)

text \<open>What is left starts at or before \<open>e\<close> and ends at or after it.\<close>

lemma uncovered_cases:
  assumes "contig c m b" and "c \<le> e"
  shows "(uncovered e m = [] \<and> b \<le> e) \<or>
    (\<exists>P k s S. m = P @ (k, s) # S \<and> uncovered e m = (k, s) # S \<and> k \<le> e \<and> e \<le> k + sl_length s)"
  using assms
proof (induction m arbitrary: c)
  case (Cons p m)
  obtain k s where p: "p = (k, s)" by (cases p)
  show ?case
  proof (cases "k + sl_length s < e")
    case True
    then have u: "uncovered e (p # m) = uncovered e m" by (simp add: uncovered_def p)
    have "contig (k + sl_length s) m b" using Cons.prems p by auto
    from Cons.IH [OF this] True show ?thesis unfolding u by (metis append_Cons less_imp_le)
  next
    case False
    then have "uncovered e (p # m) = (k, s) # m" by (simp add: uncovered_def p)
    moreover have "k \<le> e" using Cons.prems p by simp
    ultimately show ?thesis using False p by (metis append_Nil linorder_not_less)
  qed
qed (simp add: uncovered_def)

lemma insert_left_split:
  assumes inv: "smap_inv (P @ (k, s) # S)" and c: "contig k ((k, s) # S) b" "b < u64_bound"
    and e: "k \<le> a + n" "a + n \<le> k + sl_length s" and P: "\<forall>y \<in> fst ` set P. y < a"
  shows "insert_left k (sl_length s) a n (P @ (k, s) # S) =
     P @ (if a + n = k + sl_length s \<and> S \<noteq> [] then S
          else (a + n, \<lparr>sl_location = sl_location s, sl_offset = a + n - k,
                        sl_length = k + sl_length s - (a + n)\<rparr>) # S)"
proof -
  have cS: "contig (k + sl_length s) S b" using c by simp
  then have le: "k + sl_length s \<le> b" by (rule contig_le)
  have Pk: "\<forall>y \<in> fst ` set P. y < k" using inv by (auto simp: smap_inv_append)
  then have er: "m_erase k (P @ (k, s) # S) = P @ S" by (simp add: m_erase_append)
  have "insert_left k (sl_length s) a n (P @ (k, s) # S) =
      m_insert (a + n) \<lparr>sl_location = sl_location s, sl_offset = a + n - k,
                        sl_length = k + sl_length s - (a + n)\<rparr> (P @ S)"
    using e le c(2) m_index_last [OF inv] er
    by (simp add: insert_left_def Let_def u64_simps add.commute [of k])
  also have "\<dots> = P @ m_insert (a + n) \<lparr>sl_location = sl_location s, sl_offset = a + n - k,
                        sl_length = k + sl_length s - (a + n)\<rparr> S"
    using P by (intro m_insert_append) auto
  also have "m_insert (a + n) v S = (if a + n = k + sl_length s \<and> S \<noteq> [] then S else (a + n, v) # S)" for v
    using cS e by (cases S) auto
  finally show ?thesis .
qed

lemma overwrite_and_cut_split:
  assumes wf: "imap_wf b (P0 @ it)" and c: "contig 0 P0 c" and ac: "a \<le> c" "c \<le> a + n"
    and inv: "smap_inv (P @ it)" and P: "\<forall>y \<in> fst ` set P. y < a" and e: "a + n < u64_bound"
  shows "\<exists>T. overwrite_and_cut a n (P @ it) it = P @ T \<and>
     right_half (P0 @ it) (a + n) (max b (a + n)) T"
proof -
  have cit: "contig c it b" using wf c by (auto simp: imap_wf_def contig_append dest: contig_unique)
  have bb: "b < u64_bound" using wf by (simp add: imap_wf_def)
  have ol: "overwrite_loop (u64_add a n) (P @ it) it = (P @ uncovered (a + n) it, uncovered (a + n) it)"
    using overwrite_loop_uncovered [OF inv cit bb] e by (simp add: u64_simps)
  consider "uncovered (a + n) it = []" "b \<le> a + n"
    | Q k s S where "it = Q @ (k, s) # S" "uncovered (a + n) it = (k, s) # S"
        "k \<le> a + n" "a + n \<le> k + sl_length s"
    using uncovered_cases [OF cit ac(2)] by metis
  then show ?thesis
  proof cases
    case 1
    have "contig 0 (P0 @ it) b" using wf by (simp add: imap_wf_def)
    from right_beyond [OF this 1(2)] 1 ol show ?thesis
      by (auto simp: overwrite_and_cut_def max_def)
  next
    case 2
    have cS: "contig k ((k, s) # S) b"
      using cit unfolding 2(1) by (auto simp: contig_append)
    then have b: "a + n \<le> b" using 2(4) contig_le [of "k + sl_length s" S b] by simp
    have inv': "smap_inv (P @ (k, s) # S)"
      using inv unfolding 2(1) by (auto simp: smap_inv_append)
    let ?T = "if a + n = k + sl_length s \<and> S \<noteq> [] then S
          else (a + n, \<lparr>sl_location = sl_location s, sl_offset = a + n - k,
                        sl_length = k + sl_length s - (a + n)\<rparr>) # S"
    have "overwrite_and_cut a n (P @ it) it = P @ ?T"
      unfolding overwrite_and_cut_def ol 2(2)
      using insert_left_split [OF inv' cS bb 2(3,4) P] by simp
    moreover have "right_half (P0 @ it) (a + n) b ?T"
      using wf 2(3,4) unfolding 2(1) append_assoc [symmetric] by (rule right_split)
    ultimately show ?thesis using b by (auto simp: max_def)
  qed
qed

section \<open>Insertion\<close>

text \<open>What every branch of \<open>insert\<close> leaves before the new slice goes in.\<close>

definition halves :: "slice_map \<Rightarrow> u64 \<Rightarrow> u64 \<Rightarrow> u64 \<Rightarrow> slice_map \<Rightarrow> bool" where
  "halves m a e b X \<longleftrightarrow> (\<exists>P T. X = P @ T \<and> left_half m a P \<and> right_half m e b T)"

lemma halvesI: "left_half m a P \<Longrightarrow> right_half m e b T \<Longrightarrow> halves m a e b (P @ T)"
  by (auto simp: halves_def)

lemma insert_interval_splice:
  assumes "left_half m a P" and "right_half m (a + n) b T" and "0 < n"
  shows "insert_interval a n L (P @ T) = splice P a n L T"
proof -
  have "\<forall>y \<in> fst ` set T. a < y"
    using assms by (auto simp: right_half_def dest!: contig_key_ge [where m = T])
  then show ?thesis
    using assms(1)
    by (simp add: insert_interval_def splice_def left_half_def m_insert_append m_insert_front)
qed

lemma insert_contained_split:
  assumes wf: "imap_wf b (Q @ (k, s) # S)" and k: "k < a" and e: "a + n < k + sl_length s"
  shows "insert_contained k (sl_length s) a n (Q @ (k, s) # S) =
     (Q @ [(k, s\<lparr>sl_length := a - k\<rparr>)]) @
     (a + n, \<lparr>sl_location = sl_location s, sl_offset = a + n - k, sl_length = k + sl_length s - (a + n)\<rparr>) # S"
proof -
  have inv: "smap_inv (Q @ (k, s) # S)" and bb: "b < u64_bound" using wf by (simp_all add: imap_wf_def)
  have c: "contig (k + sl_length s) S b" using wf by (auto simp: imap_wf_def contig_append)
  then have "k + sl_length s \<le> b" by (rule contig_le)
  moreover have "\<forall>y \<in> fst ` set S. a + n < y"
    using contig_key_ge [OF c] e by (meson order_less_le_trans)
  moreover have "\<forall>y \<in> fst ` set (Q @ [(k, s\<lparr>sl_length := a - k\<rparr>)]). y < a + n"
    using inv k by (fastforce simp: smap_inv_append)
  then have "m_insert (a + n) v ((Q @ [(k, s\<lparr>sl_length := a - k\<rparr>)]) @ S) =
      (Q @ [(k, s\<lparr>sl_length := a - k\<rparr>)]) @ m_insert (a + n) v S" for v
    by (rule m_insert_append)
  ultimately show ?thesis
    using k e bb m_index_last [OF inv] set_slice_length_last [OF inv]
    by (simp add: insert_contained_def Let_def u64_simps m_insert_front add.commute [of k])
qed

lemma insert_right_split:
  assumes "smap_inv (Q @ (k, s) # S)" and "k < a"
  shows "insert_right k a (Q @ (k, s) # S) = (Q @ [(k, s\<lparr>sl_length := a - k\<rparr>)]) @ S"
  using assms by (simp add: insert_right_def u64_simps set_slice_length_last)

text \<open>The case analysis of \<open>insert\<close>: whatever branch runs leaves the two halves.\<close>

lemma insert_inside_split:
  assumes wf: "imap_wf b (Q @ (k, s) # S)" and k: "k < a" and a: "a < k + sl_length s"
    and e: "a + n < u64_bound"
  shows "halves (Q @ (k, s) # S) a (a + n) (max b (a + n)) (insert_inside a n (k, s) S (Q @ (k, s) # S))"
proof -
  have inv: "smap_inv (Q @ (k, s) # S)" and bb: "b < u64_bound" using wf by (simp_all add: imap_wf_def)
  have cS: "contig (k + sl_length s) S b" and cQ: "contig 0 Q k"
    using wf by (auto simp: imap_wf_def contig_append)
  have le: "k + sl_length s \<le> b" using contig_le [OF cS] .
  have lh: "left_half (Q @ (k, s) # S) a (Q @ [(k, s\<lparr>sl_length := a - k\<rparr>)])"
    using left_cut [OF wf k] a by simp
  show ?thesis
  proof (cases "a + n < k + sl_length s")
    case True
    then have "insert_inside a n (k, s) S (Q @ (k, s) # S) =
        insert_contained k (sl_length s) a n (Q @ (k, s) # S)"
      using e le bb by (simp add: insert_inside_def u64_simps)
    moreover have "max b (a + n) = b" using True le by simp
    ultimately show ?thesis
      unfolding insert_contained_split [OF wf k True]
      using halvesI [OF lh right_cut [OF wf _ True]] k by simp
  next
    case False
    let ?P = "Q @ [(k, s\<lparr>sl_length := a - k\<rparr>)]"
    have ins: "insert_inside a n (k, s) S (Q @ (k, s) # S) = overwrite_and_cut a n (?P @ S) S"
      using False e le bb insert_right_split [OF inv k] by (simp add: insert_inside_def u64_simps)
    have "\<exists>T. overwrite_and_cut a n (?P @ S) S = ?P @ T \<and>
       right_half ((Q @ [(k, s)]) @ S) (a + n) (max b (a + n)) T"
    proof (rule overwrite_and_cut_split)
      show "imap_wf b ((Q @ [(k, s)]) @ S)" using wf by simp
      show "contig 0 (Q @ [(k, s)]) (k + sl_length s)" using cQ by (auto simp: contig_append)
      show "a \<le> k + sl_length s" "k + sl_length s \<le> a + n" using a False by simp_all
      show "smap_inv (?P @ S)" using inv by (auto simp: smap_inv_append)
      show "\<forall>y \<in> fst ` set ?P. y < a" using lh by (simp add: left_half_def)
    qed (rule e)
    then obtain T where T: "overwrite_and_cut a n (?P @ S) S = ?P @ T"
      and r: "right_half (Q @ (k, s) # S) (a + n) (max b (a + n)) T" by auto
    show ?thesis unfolding ins T using lh r by (rule halvesI)
  qed
qed

lemma insert_at_end_split:
  assumes wf: "imap_wf b (Q @ [(k, s)])" and k: "k < a" and a: "a \<le> b"
    and e: "a + n < u64_bound"
  shows "halves (Q @ [(k, s)]) a (a + n) (max b (a + n)) (insert_at_end a n (k, s) (Q @ [(k, s)]))"
proof -
  have inv: "smap_inv (Q @ [(k, s)])" and bb: "b < u64_bound" and c: "contig 0 (Q @ [(k, s)]) b"
    using wf by (simp_all add: imap_wf_def)
  have b: "b = k + sl_length s" using c by (auto simp: contig_append)
  have lh: "left_half (Q @ [(k, s)]) a (Q @ [(k, s\<lparr>sl_length := a - k\<rparr>)])"
    using left_cut [OF wf k] a b by simp
  consider "a + n < b" | "b \<le> a + n" "a < b" | "b = a" using a by linarith
  then show ?thesis
  proof cases
    case 1
    then have "insert_at_end a n (k, s) (Q @ [(k, s)]) =
        insert_contained k (sl_length s) a n (Q @ [(k, s)])"
      using e bb a b by (simp add: insert_at_end_def u64_simps)
    moreover have "a + n < k + sl_length s" "max b (a + n) = b" "k \<le> a + n" using 1 b k by simp_all
    ultimately show ?thesis
      using insert_contained_split [OF wf k, of n] halvesI [OF lh right_cut [OF wf, of "a + n"]] by simp
  next
    case 2
    then have "insert_at_end a n (k, s) (Q @ [(k, s)]) = Q @ [(k, s\<lparr>sl_length := a - k\<rparr>)]"
      using e bb b insert_right_split [OF inv k] by (simp add: insert_at_end_def u64_simps)
    moreover have "max b (a + n) = a + n" using 2(1) by simp
    ultimately show ?thesis using halvesI [OF lh right_beyond [OF c 2(1)]] by simp
  next
    case 3
    then have "insert_at_end a n (k, s) (Q @ [(k, s)]) = Q @ [(k, s)]"
      using e bb b by (simp add: insert_at_end_def u64_simps)
    moreover have "left_half (Q @ [(k, s)]) a (Q @ [(k, s)])"
      using left_whole [of b "Q @ [(k, s)]" "[]" a] wf c inv 3 k
      by (fastforce simp: smap_inv_append)
    moreover have "right_half (Q @ [(k, s)]) (a + n) (a + n) []"
      using right_beyond [OF c] 3 by simp
    moreover have "max b (a + n) = a + n" using 3 by simp
    ultimately show ?thesis using halvesI [of "Q @ [(k, s)]" a "Q @ [(k, s)]" "a + n" "a + n" "[]"] by simp
  qed
qed

lemma imap_insert_halves:
  assumes wf: "imap_wf b m" and a: "a \<le> b" and e: "a + n < u64_bound"
  shows "\<exists>X. halves m a (a + n) (max b (a + n)) X \<and>
     imap_insert a n L m = Inr (insert_interval a n L X)"
proof -
  define B where "B = below a m"
  have m: "m = B @ lower_bound a m" by (simp add: B_def below_lower_bound)
  have Bk: "\<forall>y \<in> fst ` set B. y < a" by (simp add: B_def below_keys)
  have inv: "smap_inv m" and c: "contig 0 m b" using wf by (simp_all add: imap_wf_def)
  have snoc: "\<exists>Q k s. B = Q @ [(k, s)] \<and> k < a" if "B \<noteq> []"
    using last_snoc_cases [OF that] Bk by fastforce
  show ?thesis
  proof (cases "lower_bound a m")
    case Nil
    with m have mB: "m = B" by simp
    show ?thesis
    proof (cases "B = []")
      case True
      with mB c a have "m = []" "b = 0" "a = 0" by auto
      then have "imap_insert a n L m = Inr (insert_interval a n L [])"
        by (simp add: imap_insert_def fill_hole_def)
      moreover have "halves m a (a + n) (max b (a + n)) []"
        using halvesI [of m a "[]" "a + n" "a + n" "[]"] \<open>m = []\<close> \<open>b = 0\<close> \<open>a = 0\<close>
        by (simp add: left_half_def right_half_def)
      ultimately show ?thesis by auto
    next
      case False
      from snoc [OF this] obtain Q k s where B: "B = Q @ [(k, s)]" and k: "k < a" by auto
      have "imap_insert a n L m = Inr (insert_interval a n L (insert_at_end a n (k, s) m))"
        using Nil False mB B [unfolded B_def] by (simp add: imap_insert_def)
      with insert_at_end_split [OF wf [unfolded mB B] k a e] show ?thesis unfolding mB B by auto
    qed
  next
    case (Cons p it)
    obtain k' s' where p: "p = (k', s')" by (cases p)
    have ge: "a \<le> k'" using lower_bound_keys [OF inv, of k' a] Cons p by simp
    show ?thesis
    proof (cases "k' = a")
      case True
      have mb: "imap_wf b (B @ (a, s') # it)" using wf m Cons p True by simp
      have cB: "contig 0 B a" using mb by (auto simp: imap_wf_def contig_append)
      have "imap_insert a n L m =
          Inr (insert_interval a n L (overwrite_and_cut a n (B @ (a, s') # it) ((a, s') # it)))"
        using m Cons p True by (simp add: imap_insert_def Let_def)
      moreover obtain T where "overwrite_and_cut a n (B @ (a, s') # it) ((a, s') # it) = B @ T"
        and "right_half (B @ (a, s') # it) (a + n) (max b (a + n)) T"
        using overwrite_and_cut_split [OF mb cB _ _ _ Bk e] mb by (auto simp: imap_wf_def)
      moreover have "left_half (B @ (a, s') # it) a B" using mb cB Bk by (rule left_whole)
      ultimately show ?thesis using halvesI m Cons p True by metis
    next
      case False
      then have "B \<noteq> []" using m Cons p c ge by (cases B) auto
      from snoc [OF this] obtain Q k s where B: "B = Q @ [(k, s)]" and k: "k < a" by auto
      have mb: "m = Q @ (k, s) # p # it" using m B Cons by simp
      have "a < k + sl_length s" using c ge False unfolding mb p by (auto simp: contig_append)
      from insert_inside_split [OF wf [unfolded mb] k this e]
      show ?thesis
        using Cons p False B unfolding B_def mb [symmetric]
        by (cases m) (auto simp: imap_insert_def Let_def lower_bound_def)
    qed
  qed
qed

text \<open>The file of the witnesses: two blocks of 10 and 6 bytes.\<close>

definition demo_map :: slice_map where
  "demo_map =
     [(0, \<lparr>sl_location = [\<lparr>bl_si = 1, bl_bi = 7\<rparr>], sl_offset = 0, sl_length = 10\<rparr>),
      (10, \<lparr>sl_location = [\<lparr>bl_si = 2, bl_bi = 3\<rparr>], sl_offset = 0, sl_length = 6\<rparr>)]"

lemma demo_map_wf: "imap_wf 16 demo_map"
  by (simp add: demo_map_def imap_wf_def)

lemma imap_insert_bytes:
  assumes "imap_wf b m" and "a \<le> b" and "0 < n" and "a + n < u64_bound"
  shows "\<exists>m'. imap_insert a n L m = Inr m' \<and> imap_wf (max b (a + n)) m' \<and>
     (\<forall>x. (x < a + n \<or> cut_ok m (a + n)) \<longrightarrow>
        seg_lookup m' x = (if a \<le> x \<and> x < a + n then Some (L, x - a) else seg_lookup m x))"
proof -
  from imap_insert_halves [OF assms(1,2,4), of L] obtain P T
    where lh: "left_half m a P" and rh: "right_half m (a + n) (max b (a + n)) T"
      and ins: "imap_insert a n L m = Inr (insert_interval a n L (P @ T))"
    by (auto simp: halves_def)
  have "max b (a + n) < u64_bound" using assms(1,4) by (simp add: imap_wf_def)
  with splice_wf [OF lh rh assms(3)] assms(4) splice_lookup [OF lh rh] ins
    insert_interval_splice [OF lh rh assms(3)]
  show ?thesis by simp
qed

text \<open>C9: a write of a slice inside or at the end of the file (it may reach beyond its end) keeps
  the slices tiling the file, which grows to the end of the write; every address of the write
  reads the new block from its first byte, and every other address reads what it read before.
  After the end of the write this needs the slice that contains its end to start at the first
  byte of its block, because the code recomputes the rest of a cut slice from offset 0.\<close>

theorem imap_insert_overlay:
  assumes "imap_wf b m" and "a \<le> b" and "0 < n" and "a + n < u64_bound"
  shows "\<exists>m'. imap_insert a n L m = Inr m' \<and> imap_wf (max b (a + n)) m' \<and>
     (\<forall>x. (x < a + n \<or> cut_ok m (a + n)) \<longrightarrow>
        seg_lookup m' x = (if a \<le> x \<and> x < a + n then Some (L, x - a) else seg_lookup m x))"
  using assms by (rule imap_insert_bytes)

theorem imap_insert_overlay_witness:
  "\<exists>m'. imap_insert 4 8 [bl_default] demo_map = Inr m' \<and> imap_wf 16 m' \<and>
     seg_lookup m' 3 = Some ([\<lparr>bl_si = 1, bl_bi = 7\<rparr>], 3) \<and> seg_lookup m' 11 = Some ([bl_default], 7) \<and>
     seg_lookup m' 14 = Some ([\<lparr>bl_si = 2, bl_bi = 3\<rparr>], 4)"
proof -
  have "cut_ok demo_map 12" by (simp add: demo_map_def cut_ok_def)
  then show ?thesis
    using imap_insert_overlay [OF demo_map_wf, of 4 8 "[bl_default]"] by (auto simp: demo_map_def)
qed

section \<open>Reading\<close>

text \<open>The bytes a slice names: its replicas and the position in their block.\<close>

definition slice_bytes :: "slice \<Rightarrow> (block_location list \<times> u64) list" where
  "slice_bytes s = map (\<lambda>i. (sl_location s, sl_offset s + i)) [0..<sl_length s]"

definition slices_bytes :: "slice list \<Rightarrow> (block_location list \<times> u64) list" where
  "slices_bytes ss = concat (map slice_bytes ss)"

lemma slices_bytes_simps [simp]:
  "slices_bytes [] = []"
  "slices_bytes (s # ss) = slice_bytes s @ slices_bytes ss"
  by (simp_all add: slices_bytes_def)

lemma slice_bytes_lookup:
  assumes "k \<le> x" and "x + l \<le> k + sl_length s"
  shows "map Some (slice_bytes (s\<lparr>sl_offset := sl_offset s + (x - k), sl_length := l\<rparr>)) =
     map (seg_lookup ((k, s) # m)) [x..<x + l]"
  using assms by (auto simp: slice_bytes_def intro!: nth_equalityI)

lemma map_seg_lookup_skip:
  "k + sl_length s \<le> x \<Longrightarrow> map (seg_lookup ((k, s) # m)) [x..<y] = map (seg_lookup m) [x..<y]"
  by simp

lemma seg_lookup_upto_split:
  assumes "x \<le> k + sl_length s" and "k + sl_length s \<le> e"
  shows "map (seg_lookup ((k, s) # m)) [x..<e] =
     map (seg_lookup ((k, s) # m)) [x..<k + sl_length s] @ map (seg_lookup m) [k + sl_length s..<e]"
proof -
  have "[x..<e] = [x..<k + sl_length s] @ [k + sl_length s..<e]"
    using upt_add_eq_append [OF assms(1), of "e - (k + sl_length s)"] assms(2) by simp
  then show ?thesis by (simp add: map_seg_lookup_skip)
qed

lemma get_slices_loop_bytes:
  assumes "contig a m b" and "offsets_ok m" and "b < u64_bound" and "r \<le> a" and "r + n \<le> b"
  shows "map Some (slices_bytes (get_slices_loop r n m)) = map (seg_lookup m) [a..<r + n]"
  using assms
proof (induction m arbitrary: a)
  case (Cons p m)
  obtain k s where p: "p = (k, s)" by (cases p)
  have k: "k = a" and c: "contig (k + sl_length s) m b" using Cons.prems(1) p by auto
  have le: "k + sl_length s \<le> b" using contig_le [OF c] .
  have IH: "map Some (slices_bytes (get_slices_loop r n m)) = map (seg_lookup m) [k + sl_length s..<r + n]"
    using Cons.IH [OF c] Cons.prems p k by simp
  have s: "s\<lparr>sl_offset := sl_offset s + (k - k), sl_length := sl_length s\<rparr> = s" by simp
  consider "r + n \<le> a" | "a < r + n" "r + n \<le> a + sl_length s" | "a < r + n" "a + sl_length s < r + n"
    by linarith
  then show ?case
  proof cases
    case 1
    then show ?thesis using p k le Cons.prems by (simp add: u64_simps)
  next
    case 2
    have "map Some (slice_bytes (s\<lparr>sl_offset := sl_offset s + (a - a), sl_length := r + n - a\<rparr>)) =
        map (seg_lookup ((a, s) # m)) [a..<r + n]"
      using slice_bytes_lookup [of a a "r + n - a" s m] 2 by simp
    moreover have "clip_slice r n (a, s) =
        (s\<lparr>sl_offset := sl_offset s, sl_length := r + n - a\<rparr>, r = a)"
      using 2 k le Cons.prems p by (auto simp: clip_slice_def Let_def u64_simps)
    moreover have "map (seg_lookup m) [k + sl_length s..<r + n] = []" using 2 k by simp
    ultimately show ?thesis using IH p k le Cons.prems 2 by (auto simp: u64_simps)
  next
    case 3
    have "clip_slice r n (a, s) = (s, False)"
      using 3 k le Cons.prems p by (auto simp: clip_slice_def Let_def u64_simps)
    moreover have "map Some (slice_bytes s) = map (seg_lookup ((a, s) # m)) [a..<a + sl_length s]"
      using slice_bytes_lookup [of a a "sl_length s" s m] s by simp
    ultimately show ?thesis
      using IH p k le Cons.prems 3 seg_lookup_upto_split [of a a s "r + n" m]
      by (simp add: u64_simps del: seg_lookup.simps)
  qed
qed simp

lemma get_slices_first_bytes:
  assumes "contig k ((k, s) # m) b" and "offsets_ok ((k, s) # m)" and "b < u64_bound"
    and "k < r" and "r \<le> k + sl_length s" and "r + n \<le> b" and "0 < n"
  shows "map Some (slices_bytes (get_slices_loop r n ((k, s) # m))) =
     map (seg_lookup ((k, s) # m)) [r..<r + n]"
proof -
  have c: "contig (k + sl_length s) m b" using assms(1) by simp
  have le: "k + sl_length s \<le> b" using contig_le [OF c] .
  show ?thesis
  proof (cases "r + n \<le> k + sl_length s")
    case True
    then have "clip_slice r n (k, s) = (s\<lparr>sl_offset := sl_offset s + (r - k), sl_length := n\<rparr>, True)"
      using assms le by (auto simp: clip_slice_def Let_def u64_simps)
    then show ?thesis
      using slice_bytes_lookup [of k r n s m] True assms le by (simp add: u64_simps)
  next
    case False
    then have "clip_slice r n (k, s) =
        (s\<lparr>sl_offset := sl_offset s + (r - k), sl_length := k + sl_length s - r\<rparr>, False)"
      using assms le by (auto simp: clip_slice_def Let_def u64_simps)
    moreover have "map Some (slices_bytes (get_slices_loop r n m)) =
        map (seg_lookup m) [k + sl_length s..<r + n]"
      using get_slices_loop_bytes [OF c] assms by simp
    moreover have "map Some (slice_bytes (s\<lparr>sl_offset := sl_offset s + (r - k),
          sl_length := k + sl_length s - r\<rparr>)) = map (seg_lookup ((k, s) # m)) [r..<k + sl_length s]"
      using slice_bytes_lookup [of k r "k + sl_length s - r" s m] assms by simp
    ultimately show ?thesis
      using seg_lookup_upto_split [of r k s "r + n" m] assms False le
      by (simp add: u64_simps del: seg_lookup.simps)
  qed
qed

text \<open>C10: a read inside the file returns slices whose bytes, in order, are exactly the bytes the
  map holds at the requested addresses, one for each address.\<close>

theorem get_slices_reads:
  assumes wf: "imap_wf b m" and r: "r + n \<le> b"
  shows "\<exists>ss. get_slices r n m = Inr ss \<and>
     map Some (slices_bytes ss) = map (seg_lookup m) [r..<r + n]"
proof (cases "n = 0 \<or> m = []")
  case True
  moreover from this have "n = 0" using wf r by (auto simp: imap_wf_def)
  ultimately show ?thesis by (auto simp: get_slices_def)
next
  case False
  define B where "B = below r m"
  have m: "m = B @ lower_bound r m" by (simp add: B_def below_lower_bound)
  have Bk: "\<forall>y \<in> fst ` set B. y < r" by (simp add: B_def below_keys)
  have inv: "smap_inv m" and c: "contig 0 m b" and bb: "b < u64_bound" and off: "offsets_ok m"
    using wf by (simp_all add: imap_wf_def)
  have snoc: "\<exists>Q k s. B = Q @ [(k, s)] \<and> k < r" if "B \<noteq> []"
    using last_snoc_cases [OF that] Bk by fastforce
  show ?thesis
  proof (cases "lower_bound r m")
    case Nil
    with m False have "B \<noteq> []" by auto
    from snoc [OF this] obtain Q k s where B: "B = Q @ [(k, s)]" and k: "k < r" by auto
    have mb: "m = Q @ [(k, s)]" using m Nil B by simp
    have b: "b = k + sl_length s" and cQ: "contig 0 Q k" using c unfolding mb by (auto simp: contig_append)
    have "get_slices r n m = Inr [s\<lparr>sl_offset := sl_offset s + (r - k), sl_length := n\<rparr>]"
      using False Nil B [unfolded B_def] k b r bb off mb
      by (auto simp: get_slices_def u64_simps add.commute)
    moreover have "map (seg_lookup m) [r..<r + n] = map (seg_lookup [(k, s)]) [r..<r + n]"
      unfolding mb using k by (auto simp: seg_lookup_right [OF cQ])
    ultimately show ?thesis using slice_bytes_lookup [of k r n s "[]"] k b r by simp
  next
    case (Cons p it)
    obtain k' s' where p: "p = (k', s')" by (cases p)
    have ge: "r \<le> k'" using lower_bound_keys [OF inv, of k' r] Cons p by simp
    show ?thesis
    proof (cases "k' = r")
      case True
      have mb: "m = B @ (r, s') # it" using m Cons p True by simp
      have cB: "contig 0 B r" "contig r ((r, s') # it) b" using c unfolding mb by (auto simp: contig_append)
      have "get_slices r n m = Inr (get_slices_loop r n ((r, s') # it))"
        using False Cons p True by (simp add: get_slices_def)
      moreover have "map (seg_lookup m) [r..<r + n] = map (seg_lookup ((r, s') # it)) [r..<r + n]"
        unfolding mb by (rule map_cong) (simp_all only: set_upt atLeastLessThan_iff seg_lookup_right [OF cB(1)])
      ultimately show ?thesis
        using get_slices_loop_bytes [OF cB(2) _ bb order_refl r] off mb by simp
    next
      case neq: False
      then have "B \<noteq> []" using m Cons p c ge by (cases B) auto
      from snoc [OF this] obtain Q k s where B: "B = Q @ [(k, s)]" and k: "k < r" by auto
      have mb: "m = Q @ (k, s) # p # it" using m B Cons by simp
      have cQ: "contig 0 Q k" "contig k ((k, s) # p # it) b" and "k + sl_length s = k'"
        using c unfolding mb p by (auto simp: contig_append)
      moreover have "get_slices r n m = Inr (get_slices_loop r n ((k, s) # p # it))"
        using False Cons p neq B [unfolded B_def] by (simp add: get_slices_def)
      moreover have "map (seg_lookup m) [r..<r + n] = map (seg_lookup ((k, s) # p # it)) [r..<r + n]"
        unfolding mb using k
        by (intro map_cong) (simp_all only: set_upt atLeastLessThan_iff, rule seg_lookup_right [OF cQ(1)], simp)
      moreover have "offsets_ok ((k, s) # p # it)" using off mb by simp
      ultimately show ?thesis
        using get_slices_first_bytes [OF cQ(2) _ bb k _ r] ge False by simp
    qed
  qed
qed

theorem get_slices_reads_witness:
  "\<exists>ss. get_slices 8 4 demo_map = Inr ss \<and>
     map Some (slices_bytes ss) = map (seg_lookup demo_map) [8..<12]"
  using get_slices_reads [OF demo_map_wf, of 8 4] by simp

section \<open>Truncation and length\<close>

lemma imap_length_wf: "imap_wf b m \<Longrightarrow> imap_length m = b"
proof (cases "m = []")
  case False
  assume wf: "imap_wf b m"
  from False obtain Q k s where m: "m = Q @ [(k, s)]" using last_snoc_cases [of m] by fastforce
  with wf have "b = k + sl_length s" "b < u64_bound" by (auto simp: imap_wf_def contig_append)
  with m show ?thesis by (simp add: imap_length_def u64_simps)
qed (simp add: imap_length_def imap_wf_def)

lemma upto_split:
  assumes wf: "imap_wf b m" and "m \<noteq> []"
  shows "\<exists>Q k s. upto t m = Q @ [(k, s)] \<and> k \<le> t \<and> m = Q @ (k, s) # upper_bound t m"
proof -
  obtain p m' where m: "m = p # m'" using assms(2) by (cases m) auto
  then have "fst p = 0" using wf by (cases p) (auto simp: imap_wf_def)
  then have "upto t m \<noteq> []" by (simp add: upto_def m)
  then obtain Q k s where u: "upto t m = Q @ [(k, s)]" using last_snoc_cases by fastforce
  moreover have "k \<le> t" using upto_keys [of k t m] u by simp
  moreover have "m = Q @ (k, s) # upper_bound t m" using u upto_upper_bound [of t m] by simp
  ultimately show ?thesis by blast
qed

text \<open>C36: truncation never runs off the map, leaves a file of the smaller of the two lengths that the
  slices tile, and every address that is left reads what it read before.\<close>

theorem imap_truncate_prefix:
  assumes wf: "imap_wf b m"
  shows "\<exists>m'. imap_truncate t m = Inr m' \<and> imap_wf (min b t) m' \<and> imap_length m' = min b t \<and>
     (\<forall>x < t. seg_lookup m' x = seg_lookup m x)"
proof (cases "m = []")
  case True
  with wf show ?thesis by (simp add: imap_truncate_def imap_wf_def imap_length_def)
next
  case False
  from upto_split [OF wf this, of t] obtain Q k s U
    where u: "upto t m = Q @ [(k, s)]" and k: "k \<le> t" and m: "m = Q @ (k, s) # U"
      and U: "upper_bound t m = U" by blast
  have c: "contig 0 Q k" "contig (k + sl_length s) U b" and off: "offsets_ok (Q @ [(k, s)])"
    and inv: "smap_inv (Q @ [(k, s)])" and b: "b < u64_bound"
    using wf unfolding imap_wf_def m by (auto simp: contig_append smap_inv_append)
  have le: "k + sl_length s \<le> b" using contig_le [OF c(2)] .
  have look: "seg_lookup (Q @ (k, s\<lparr>sl_length := l\<rparr>) # S) x = seg_lookup m x"
    if "x < k + l" "l \<le> sl_length s" for x S l
  proof (cases "x < k")
    case True
    with seg_lookup_left [OF c(1)] show ?thesis unfolding m by simp
  next
    case ge: False
    with seg_lookup_right [OF c(1), of x] that show ?thesis unfolding m by simp
  qed
  show ?thesis
  proof (cases "t < k + sl_length s")
    case True
    let ?m = "Q @ [(k, s\<lparr>sl_length := t - k\<rparr>)]"
    have "imap_truncate t m = Inr ?m"
      using u False True k le b by (simp add: imap_truncate_def u64_simps)
    moreover have "imap_wf (min b t) ?m"
      using c off inv b k True le by (auto simp: imap_wf_def contig_append smap_inv_append)
    ultimately show ?thesis using look [of _ "t - k"] True k imap_length_wf by auto
  next
    case beyond: False
    have "U = []"
    proof (rule ccontr)
      assume "U \<noteq> []"
      then obtain k' s' U' where U': "U = (k', s') # U'" by (cases U) auto
      then have "t < k'" using upper_bound_keys [of m k' t] wf U by (simp add: imap_wf_def)
      then show False using c(2) U' beyond by simp
    qed
    then have mm: "upto t m = m" and "b = k + sl_length s" using u m c(2) by simp_all
    moreover have "imap_truncate t m = Inr (upto t m)"
      using False k beyond b le unfolding u imap_truncate_def by (simp add: u64_simps)
    moreover have "min b t = b" using \<open>b = k + sl_length s\<close> beyond by simp
    ultimately show ?thesis using wf imap_length_wf by simp
  qed
qed

theorem imap_truncate_prefix_witness:
  "\<exists>m'. imap_truncate 12 demo_map = Inr m' \<and> imap_wf 12 m' \<and> imap_length m' = 12 \<and>
     (\<forall>x < 12. seg_lookup m' x = seg_lookup demo_map x)"
  using imap_truncate_prefix [OF demo_map_wf, of 12] by simp

section \<open>Writing beyond the end\<close>

text \<open>A write that starts beyond the end of a non-empty file stores a hole slice before it. The
  length given to the hole is the distance from the start of the last slice plus the length of
  that slice, so it also covers the written slice and the slices tile no file any more: a read from
  the old end through a write that is not more than twice as long as the last slice returns the
  hole only, although the exact read of the written range returns the written slice.\<close>

theorem imap_insert_gap:
  assumes wf: "imap_wf b (Q @ [(k, s)])" and s: "0 < sl_length s" and a: "b < a"
    and n: "0 < n" "n \<le> 2 * sl_length s" and e: "a + n < u64_bound" "a - k + sl_length s < u64_bound"
    and e2: "b + (a - k + sl_length s) < u64_bound"
    and hole: "hole = \<lparr>sl_location = [], sl_offset = 0, sl_length = a - k + sl_length s\<rparr>"
    and new: "new = \<lparr>sl_location = L, sl_offset = 0, sl_length = n\<rparr>"
  shows "imap_insert a n L (Q @ [(k, s)]) = Inr (Q @ [(k, s), (b, hole), (a, new)]) \<and>
     \<not> imap_wf c (Q @ [(k, s), (b, hole), (a, new)]) \<and>
     get_slices b (a + n - b) (Q @ [(k, s), (b, hole), (a, new)]) =
       Inr [hole\<lparr>sl_length := a + n - b\<rparr>] \<and>
     get_slices a n (Q @ [(k, s), (b, hole), (a, new)]) = Inr [new]"
proof -
  have b: "b = k + sl_length s" "b < u64_bound" and keys: "\<forall>y \<in> fst ` set Q. y < k"
    using wf by (auto simp: imap_wf_def contig_append smap_inv_append)
  have ka: "\<forall>y \<in> fst ` set (Q @ [(k, s)]). y < a" and kb: "\<forall>y \<in> fst ` set (Q @ [(k, s)]). y < b"
    using keys a b s by (fastforce)+
  have Qa: "dropWhile (\<lambda>p. fst p < a) (Q @ (k, s) # S) = dropWhile (\<lambda>p. fst p < a) S"
    "takeWhile (\<lambda>p. fst p < a) (Q @ (k, s) # S) = Q @ (k, s) # takeWhile (\<lambda>p. fst p < a) S"
    "dropWhile (\<lambda>p. fst p < b) (Q @ (k, s) # S) = dropWhile (\<lambda>p. fst p < b) S" for S :: slice_map
    using ka kb by (auto simp: dropWhile_append2 takeWhile_append2)
  have "insert_at_end a n (k, s) (Q @ [(k, s)]) = Q @ [(k, s), (b, hole)]"
    using a b e e2 m_insert_append [OF kb, of _ "[]"]
    by (simp add: insert_at_end_def Let_def u64_simps hole empty_slice_def)
  moreover have "insert_interval a n L (Q @ [(k, s), (b, hole)]) = Q @ [(k, s), (b, hole), (a, new)]"
    using m_insert_append [of "Q @ [(k, s), (b, hole)]" a _ "[]"] ka a
    by (simp add: insert_interval_def new)
  ultimately have 1: "imap_insert a n L (Q @ [(k, s)]) = Inr (Q @ [(k, s), (b, hole), (a, new)])"
    by (simp add: imap_insert_def Let_def lower_bound_def below_def Qa)
  have lb: "lower_bound b (Q @ [(k, s), (b, hole), (a, new)]) = [(b, hole), (a, new)]"
    "lower_bound a (Q @ [(k, s), (b, hole), (a, new)]) = [(a, new)]"
    using a by (simp_all add: lower_bound_def Qa)
  have 2: "\<not> imap_wf c (Q @ [(k, s), (b, hole), (a, new)])"
    using a b s by (auto simp: imap_wf_def contig_append hole)
  have "clip_slice b (a + n - b) (b, hole) = (hole\<lparr>sl_length := a + n - b\<rparr>, True)"
    using a b e e2 n by (simp add: clip_slice_def Let_def u64_simps hole)
  then have 3: "get_slices b (a + n - b) (Q @ [(k, s), (b, hole), (a, new)]) =
       Inr [hole\<lparr>sl_length := a + n - b\<rparr>]"
    using lb(1) u64_add_exact [of b "a + n - b"] a e n by (simp add: get_slices_def Let_def)
  have "clip_slice a n (a, new) = (new, True)"
    using e by (simp add: clip_slice_def Let_def u64_simps new)
  then have 4: "get_slices a n (Q @ [(k, s), (b, hole), (a, new)]) = Inr [new]"
    using lb(2) u64_add_exact [OF e(1)] n by (simp add: get_slices_def Let_def)
  from 1 2 3 4 show ?thesis by blast
qed

theorem imap_insert_gap_witness:
  "\<exists>hole new m. imap_insert 20 4 [bl_default] demo_map = Inr m \<and>
     get_slices 16 8 m = Inr [hole] \<and> get_slices 20 4 m = Inr [new] \<and> \<not> imap_wf 24 m"
  using imap_insert_gap [of 16 "[(0, \<lparr>sl_location = [\<lparr>bl_si = 1, bl_bi = 7\<rparr>], sl_offset = 0, sl_length = 10\<rparr>)]"
      10 "\<lparr>sl_location = [\<lparr>bl_si = 2, bl_bi = 3\<rparr>], sl_offset = 0, sl_length = 6\<rparr>" 20 4
      "\<lparr>sl_location = [], sl_offset = 0, sl_length = 16\<rparr>"
      "\<lparr>sl_location = [bl_default], sl_offset = 0, sl_length = 4\<rparr>" "[bl_default]" 24]
    demo_map_wf
  by (auto simp: demo_map_def)

end
