(* ===== verification/IntervalMapCodec.thy ===== *)
theory IntervalMapCodec
  imports IntervalMapProps
begin

text \<open>
  The encoding of an interval map (\<open>operator <<\<close> and \<open>operator >>\<close> of
  \<open>common/interval_map.h\<close>). Only the slices are written, not their addresses; the reader
  re-inserts each slice where the one before it ends.
\<close>

definition slice_wf :: "slice \<Rightarrow> bool" where
  "slice_wf s \<longleftrightarrow> sl_offset s < u64_bound \<and> sl_length s < u64_bound \<and>
     length (sl_location s) < u64_bound \<and> list_all bl_wf (sl_location s)"

text \<open>A map whose slices all start at the first byte of their block.\<close>

definition drop_offsets :: "slice_map \<Rightarrow> slice_map" where
  "drop_offsets m = map (\<lambda>(k, s). (k, s\<lparr>sl_offset := 0\<rparr>)) m"

lemma drop_offsets_simps [simp]:
  "drop_offsets [] = []"
  "drop_offsets ((k, s) # m) = (k, s\<lparr>sl_offset := 0\<rparr>) # drop_offsets m"
  by (simp_all add: drop_offsets_def)

text \<open>Inserting at the end of a file only adds the slice.\<close>

lemma insert_slice_append:
  assumes "contig 0 D a" and "\<forall>y \<in> fst ` set D. y < a" and "a + sl_length s < u64_bound"
  shows "insert_slice a s D = Inr (D @ [(a, s\<lparr>sl_offset := 0\<rparr>)])"
proof -
  have app: "insert_interval a (sl_length s) (sl_location s) D = D @ [(a, s\<lparr>sl_offset := 0\<rparr>)]"
    using m_insert_append [OF assms(2), of _ "[]"] by (simp add: insert_interval_def)
  show ?thesis
  proof (cases "D = []")
    case True
    with assms app show ?thesis by (simp add: insert_slice_def imap_insert_def fill_hole_def)
  next
    case False
    then obtain Q k s' where D: "D = Q @ [(k, s')]" using last_snoc_cases by fastforce
    then have "k + sl_length s' = a" using assms(1) by (auto simp: contig_append)
    then have "insert_at_end a (sl_length s) (k, s') D = D"
      using assms(3) by (simp add: insert_at_end_def u64_simps)
    moreover have "lower_bound a D = []" "below a D = D"
      using assms(2) by (auto simp: lower_bound_Nil_iff below_def takeWhile_eq_all_conv)
    ultimately show ?thesis
      using False D app by (simp add: insert_slice_def imap_insert_def)
  qed
qed

context e_buffer
begin

lemma unpack_pack_slice [wire_simps]:
  "slice_wf s \<Longrightarrow> unpack_slice E (pack_slice E s @ r) = Some (s, r)"
  by (simp add: unpack_slice_def pack_slice_def slice_wf_def up64_pk64 unpack_pack_bls)

lemma pack_slice_length [size_simps]: "length (pack_slice E s) = slice_pack_size s"
  by (simp add: pack_slice_def slice_pack_size_def pk_lengths pack_bls_length)

lemma unpack_imap_loop_pack:
  assumes "contig 0 D a" and "contig a m b" and "smap_inv (drop_offsets D @ m)" and "b < u64_bound"
    and "list_all (\<lambda>(k, s). slice_wf s) m"
  shows "unpack_imap_loop E (length m) a (drop_offsets D)
     (concat (map (\<lambda>p. pack_slice E (snd p)) m) @ r) = Some (drop_offsets D @ drop_offsets m, r)"
  using assms
proof (induction m arbitrary: a D)
  case (Cons p m)
  obtain s where p: "p = (a, s)" using Cons.prems(2) by (cases p) auto
  have c: "contig (a + sl_length s) m b" using Cons.prems(2) p by simp
  have ab: "a + sl_length s < u64_bound" using contig_le [OF c] Cons.prems(4) by simp
  have D': "contig 0 (D @ [(a, s)]) (a + sl_length s)"
    using Cons.prems(1) by (auto simp: contig_append)
  have cD: "contig 0 (drop_offsets D) a" if "contig x D a" "x = 0" for x
  proof -
    have "contig x (drop_offsets D) a" using that(1)
      by (induction x D a rule: contig.induct) auto
    with that show ?thesis by simp
  qed
  have "\<forall>y \<in> fst ` set (drop_offsets D). y < a"
    using Cons.prems(3) p by (auto simp: smap_inv_append)
  then have "insert_slice a s (drop_offsets D) = Inr (drop_offsets D @ [(a, s\<lparr>sl_offset := 0\<rparr>)])"
    using cD [OF Cons.prems(1) refl] ab by (intro insert_slice_append) auto
  moreover have "slice_wf s" using Cons.prems(5) p by simp
  moreover have "smap_inv (drop_offsets (D @ [(a, s)]) @ m)"
    using Cons.prems(3) p by (auto simp: drop_offsets_def smap_inv_append)
  then have "unpack_imap_loop E (length m) (a + sl_length s) (drop_offsets (D @ [(a, s)]))
     (concat (map (\<lambda>p. pack_slice E (snd p)) m) @ r) =
     Some (drop_offsets (D @ [(a, s)]) @ drop_offsets m, r)"
    using Cons.IH [OF D' c] Cons.prems by simp
  ultimately show ?case
    using p ab by (simp add: unpack_pack_slice u64_simps drop_offsets_def)
qed simp

lemma unpack_pack_imap:
  assumes "imap_wf b m" and "list_all (\<lambda>(k, s). slice_wf s) m" and "length m < u64_bound"
  shows "unpack_imap E old (pack_imap E m @ r) = Some (drop_offsets m, r)"
  using assms unpack_imap_loop_pack [of "[]" 0 m b r]
  by (simp add: unpack_imap_def pack_imap_def up64_pk64 imap_clear_def imap_wf_def)

lemma pack_imap_length: "length (pack_imap E m) = imap_pack_size m"
proof -
  have "foldl (\<lambda>ret p. ret + slice_pack_size (snd p)) z m =
      z + length (concat (map (\<lambda>p. pack_slice E (snd p)) m))" for z
    by (induction m arbitrary: z) (simp_all add: pack_slice_length)
  then show ?thesis by (simp add: pack_imap_def imap_pack_size_def pk_lengths)
qed

end

lemma drop_offsets_id_iff: "drop_offsets m = m \<longleftrightarrow> list_all (\<lambda>(k, s). sl_offset s = 0) m"
proof (induction m)
  case (Cons p m)
  obtain k s where "p = (k, s)" by (cases p)
  moreover have "s\<lparr>sl_offset := 0\<rparr> = s \<longleftrightarrow> sl_offset s = 0"
    by (cases s) simp
  ultimately show ?case using Cons by simp
qed simp



end
