(* ===== verification/Vblock.thy ===== *)
theory Vblock
  imports StdMap Wire
begin

text \<open>
  \<open>blockstore/vblock.{h,cc}\<close>: the offset map of one stored block. A slice says which bytes of
  the block lie where on the disk; the map is keyed by the offset a slice had when it was stored
  under that key.

  The code holds the slices by reference-counted pointers and changes them in place; here a change
  through the pointer found at key \<open>k\<close> is an assignment at \<open>k\<close>. The two agree on a map whose
  keys are the offsets of its slices, which every call of \<open>update\<close> and \<open>set_len\<close> gets: the only
  caller, \<open>blockmap\<close>, runs one of them on a map that is empty or was just read by
  \<open>operator >>\<close> (lemma \<open>vb_keys_rekey\<close>).
\<close>

record vslice =
  vs_offset :: u64
  vs_length :: u64
  vs_disk :: u64

type_synonym vblock = "(u64, vslice) smap"

definition vs_end :: "vslice \<Rightarrow> u64" where
  "vs_end s = u64_sub (u64_add (vs_offset s) (vs_length s)) 1"

definition vb_size :: "vblock \<Rightarrow> u64" where
  "vb_size m = length m"

definition vb_length :: "vblock \<Rightarrow> u64" where
  "vb_length m = (if m = [] then 0 else u64_add (fst (last m)) (vs_length (snd (last m))))"

section \<open>update\<close>

text \<open>The loop that removes the slices the new one covers; dereferencing \<open>end()\<close> is undefined.\<close>

fun vb_overwrite :: "u64 \<Rightarrow> u64 \<Rightarrow> vblock \<Rightarrow> vblock \<Rightarrow> (vblock \<times> vblock) res" where
  "vb_overwrite new_end old_end m [] = (if old_end \<le> new_end then Inl Undefined else Inr (m, []))"
| "vb_overwrite new_end old_end m ((k, s) # after) =
     (if old_end \<le> new_end then
        (case after of
           [] \<Rightarrow> Inr (m_erase k m, [])
         | p # _ \<Rightarrow> vb_overwrite new_end (vs_end (snd p)) (m_erase k m) after)
      else Inr (m, (k, s) # after))"

text \<open>Cutting the beginning off the slice on the right: its key stays.\<close>

definition vb_cut_right :: "u64 \<Rightarrow> vblock \<Rightarrow> vblock \<Rightarrow> vblock" where
  "vb_cut_right new_end m after =
     (case after of
        [] \<Rightarrow> m
      | (k, s) # _ \<Rightarrow>
          m_assign k
            \<lparr>vs_offset = u64_add new_end 1,
             vs_length = u64_sub (vs_end s) new_end,
             vs_disk = u64_add (vs_disk s) (u64_sub (u64_add new_end 1) (vs_offset s))\<rparr> m)"

definition vb_remove_and_cut :: "u64 \<Rightarrow> u64 \<Rightarrow> vblock \<Rightarrow> vblock \<Rightarrow> vblock res" where
  "vb_remove_and_cut new_end old_end m after =
     rbind (vb_overwrite new_end old_end m after) (\<lambda>(m1, after1). Inr (vb_cut_right new_end m1 after1))"

text \<open>\<open>after == begin()\<close>, where \<open>after\<close> is the whole map.\<close>

definition vb_update_begin :: "vslice \<Rightarrow> u64 \<Rightarrow> u64 \<times> vslice \<Rightarrow> vblock \<Rightarrow> vblock \<Rightarrow> vblock res" where
  "vb_update_begin new_slice new_end first rest m =
     (let new_start = vs_offset new_slice;
          old_slice = snd first;
          old_start = vs_offset old_slice;
          old_end = vs_end old_slice
      in if old_start \<noteq> new_start then
           vb_remove_and_cut new_end old_end (m_assign new_start new_slice m) (first # rest)
         else if old_end \<le> new_end then
           (let m1 = m_assign new_start new_slice m
            in case rest of
                 [] \<Rightarrow> Inr m1
               | p # _ \<Rightarrow> vb_remove_and_cut new_end (vs_end (snd p)) m1 rest)
         else
           (let cut = \<lparr>vs_offset = u64_add new_end 1, vs_length = u64_sub old_end new_end,
                       vs_disk = u64_add (vs_disk old_slice) (u64_sub (u64_add new_end 1) old_start)\<rparr>
            in Inr (m_assign new_start new_slice (m_assign (vs_offset cut) cut m))))"

text \<open>Cutting the end off the slice on the left.\<close>

definition vb_cut_left :: "u64 \<Rightarrow> u64 \<times> vslice \<Rightarrow> vblock \<Rightarrow> vblock" where
  "vb_cut_left new_start prev m =
     (let (k, s) = prev;
          old_end = vs_end s
      in if old_end \<ge> new_start
         then m_assign k (s\<lparr>vs_length := u64_sub (vs_length s) (u64_add (u64_sub old_end new_start) 1)\<rparr>) m
         else m)"

text \<open>Neither \<open>begin()\<close> nor \<open>end()\<close>: \<open>prev\<close> is the entry before \<open>after = cur # rest\<close>.\<close>

definition vb_update_middle ::
  "vslice \<Rightarrow> u64 \<Rightarrow> u64 \<times> vslice \<Rightarrow> u64 \<times> vslice \<Rightarrow> vblock \<Rightarrow> vblock \<Rightarrow> vblock res" where
  "vb_update_middle new_slice new_end prev cur rest m =
     (let new_start = vs_offset new_slice;
          old_slice = snd cur;
          old_start = vs_offset old_slice;
          old_end = vs_end old_slice
      in if old_start \<noteq> new_start then
           rbind (vb_remove_and_cut new_end old_end (m_assign new_start new_slice m) (cur # rest))
             (\<lambda>m1. Inr (vb_cut_left new_start prev m1))
         else if old_end > new_end then
           Inr (m_assign new_start new_slice
                 (m_assign (u64_add new_end 1)
                   (old_slice\<lparr>vs_offset := u64_add new_end 1, vs_length := u64_sub old_end new_end\<rparr>) m))
         else if old_end < new_end then
           vb_remove_and_cut new_end old_end (m_assign new_start new_slice m) rest
         else Inr (m_assign new_start new_slice m))"

text \<open>\<open>after == end()\<close>: the new slice starts after the start of the last one.\<close>

definition vb_update_end :: "vslice \<Rightarrow> u64 \<Rightarrow> u64 \<times> vslice \<Rightarrow> vblock \<Rightarrow> vblock" where
  "vb_update_end new_slice new_end prev m =
     (let new_start = vs_offset new_slice;
          (k, old_slice) = prev;
          m1 = m_assign new_start new_slice m;
          old_end = vs_end old_slice;
          left_len = u64_sub (vs_length old_slice) (u64_add (u64_sub old_end new_start) 1)
      in if old_end > new_end then
           (let end_slice =
                  \<lparr>vs_offset = u64_add new_end 1, vs_length = u64_sub old_end new_end,
                   vs_disk = u64_add (vs_disk old_slice) (u64_add left_len (vs_length new_slice))\<rparr>
            in m_assign new_start new_slice
                 (m_assign (u64_add new_end 1) end_slice
                   (m_assign k (old_slice\<lparr>vs_length := left_len\<rparr>) m1)))
         else vb_cut_left new_start prev m1)"

definition vb_update :: "u64 \<Rightarrow> u64 \<Rightarrow> u64 \<Rightarrow> vblock \<Rightarrow> vblock res" where
  "vb_update off len disk_off m =
     (let new_start = off;
          new_end = u64_sub (u64_add off len) 1;
          new_slice = \<lparr>vs_offset = new_start, vs_length = len, vs_disk = disk_off\<rparr>;
          passed = below new_start m;
          after = lower_bound new_start m
      in if m = [] then Inr (m_assign new_start new_slice m)
         else case after of
             cur # rest \<Rightarrow>
               if passed = [] then vb_update_begin new_slice new_end cur rest m
               else vb_update_middle new_slice new_end (last passed) cur rest m
           | [] \<Rightarrow> rbind (it_prev passed) (\<lambda>prev. Inr (vb_update_end new_slice new_end prev m)))"

section \<open>set_len, get_slices\<close>

text \<open>
  \<open>set_len\<close> cuts the first slice that reaches \<open>len\<close> and then advances the iterator. When no
  slice reaches \<open>len\<close> it advances \<open>end()\<close>; when a slice follows, the loop erases it and then
  advances the erased iterator.
\<close>

fun vb_set_len :: "u64 \<Rightarrow> vblock \<Rightarrow> vblock res" where
  "vb_set_len len [] = Inl Undefined"
| "vb_set_len len ((k, s) # m) =
     (if u64_add k (vs_length s) \<ge> len then
        (if m = [] then Inr [(k, s\<lparr>vs_length := u64_sub len k\<rparr>)] else Inl Undefined)
      else rbind (vb_set_len len m) (\<lambda>m'. Inr ((k, s) # m')))"

text \<open>The iterator \<open>get_slices\<close> sets, or \<open>None\<close> with the result -1, which leaves it unset.\<close>

definition vb_get_slices :: "u64 \<Rightarrow> u64 \<Rightarrow> vblock \<Rightarrow> vblock option res" where
  "vb_get_slices offset len m =
     (let end = u64_sub (u64_add offset len) 1;
          passed = below offset m
      in if m = [] then Inr None
         else case lower_bound offset m of
             [] \<Rightarrow> rbind (it_prev passed) (\<lambda>p.
                Inr (if u64_sub (u64_add (vs_offset (snd p)) (vs_length (snd p))) 1 \<ge> offset
                     then Some [p] else None))
           | p # after \<Rightarrow> Inr (if vs_offset (snd p) \<le> end then Some (p # after) else None))"

section \<open>Encoding\<close>

definition vs_pack_size :: nat where
  "vs_pack_size = 3 * 8"

definition vb_pack_size :: "vblock \<Rightarrow> nat" where
  "vb_pack_size m = 8 + length m * vs_pack_size"

definition pack_vslice :: "e_codec \<Rightarrow> vslice \<Rightarrow> byte list" where
  "pack_vslice E s = pk64 E (vs_offset s) @ pk64 E (vs_length s) @ pk64 E (vs_disk s)"

definition unpack_vslice :: "e_codec \<Rightarrow> vslice reader" where
  "unpack_vslice E bs =
     do {
       (off, bs) \<leftarrow> up64 E bs;
       (len, bs) \<leftarrow> up64 E bs;
       (d, bs) \<leftarrow> up64 E bs;
       Some (\<lparr>vs_offset = off, vs_length = len, vs_disk = d\<rparr>, bs)
     }"

definition pack_vblock :: "e_codec \<Rightarrow> vblock \<Rightarrow> byte list" where
  "pack_vblock E m = pk64 E (length m) @ concat (map (\<lambda>p. pack_vslice E (snd p)) m)"

fun unpack_vblock_loop :: "e_codec \<Rightarrow> nat \<Rightarrow> vblock \<Rightarrow> vblock reader" where
  "unpack_vblock_loop E 0 m bs = Some (m, bs)"
| "unpack_vblock_loop E (Suc n) m bs =
     do { (s, bs) \<leftarrow> unpack_vslice E bs; unpack_vblock_loop E n (m_assign (vs_offset s) s m) bs }"

definition unpack_vblock :: "e_codec \<Rightarrow> vblock \<Rightarrow> vblock reader" where
  "unpack_vblock E old bs = do { (sz, bs) \<leftarrow> up64 E bs; unpack_vblock_loop E sz old bs }"

text \<open>The overload on a pointer keys the slices by their place on the disk.\<close>

fun unpack_vblock_ptr_loop :: "e_codec \<Rightarrow> nat \<Rightarrow> vblock \<Rightarrow> vblock reader" where
  "unpack_vblock_ptr_loop E 0 m bs = Some (m, bs)"
| "unpack_vblock_ptr_loop E (Suc n) m bs =
     do { (s, bs) \<leftarrow> unpack_vslice E bs; unpack_vblock_ptr_loop E n (m_assign (vs_disk s) s m) bs }"

definition unpack_vblock_ptr :: "e_codec \<Rightarrow> vblock \<Rightarrow> vblock reader" where
  "unpack_vblock_ptr E old bs = do { (sz, bs) \<leftarrow> up64 E bs; unpack_vblock_ptr_loop E sz old bs }"

end
