(* ===== verification/VblockProps.thy ===== *)
theory VblockProps
  imports Vblock
begin

text \<open>
  Correctness of the offset map of a block. The invariant \<open>vb_wf b m\<close>: the slices tile the block
  from 0 to its length \<open>b\<close>, each keyed by its offset. The abstraction \<open>vs_lookup\<close>: the disk
  address of each byte of the block. \<open>update\<close> overlays the new slice on it in every branch that
  handles the slices around it; \<open>vb_safe\<close> names these branches.
\<close>

section \<open>Invariant and abstraction\<close>

fun vtiles :: "u64 \<Rightarrow> vslice list \<Rightarrow> u64 \<Rightarrow> bool" where
  "vtiles a [] b \<longleftrightarrow> a = b"
| "vtiles a (s # ss) b \<longleftrightarrow> vs_offset s = a \<and> 0 < vs_length s \<and> vs_disk s + vs_length s < u64_bound \<and>
     vtiles (a + vs_length s) ss b"

fun vs_lookup :: "vslice list \<Rightarrow> u64 \<Rightarrow> u64 option" where
  "vs_lookup [] x = None"
| "vs_lookup (s # ss) x =
     (if vs_offset s \<le> x \<and> x < vs_offset s + vs_length s then Some (vs_disk s + (x - vs_offset s))
      else vs_lookup ss x)"

definition vb_lookup :: "vblock \<Rightarrow> u64 \<Rightarrow> u64 option" where
  "vb_lookup m = vs_lookup (map snd m)"

definition entries :: "vslice list \<Rightarrow> vblock" where
  "entries ss = map (\<lambda>s. (vs_offset s, s)) ss"

definition vb_wf :: "u64 \<Rightarrow> vblock \<Rightarrow> bool" where
  "vb_wf b m \<longleftrightarrow> m = entries (map snd m) \<and> vtiles 0 (map snd m) b \<and> b < u64_bound"

lemma entries_simps [simp]:
  "entries [] = []"
  "entries (s # ss) = (vs_offset s, s) # entries ss"
  "entries (ss @ ts) = entries ss @ entries ts"
  "map snd (entries ss) = ss"
  "length (entries ss) = length ss"
  "entries ss = [] \<longleftrightarrow> ss = []"
  by (simp_all add: entries_def comp_def)

lemma vb_wf_entries: "vb_wf b m \<longleftrightarrow> (\<exists>ss. m = entries ss \<and> vtiles 0 ss b \<and> b < u64_bound)"
  by (auto simp: vb_wf_def)

lemma vtiles_append: "vtiles a (P @ S) c \<longleftrightarrow> (\<exists>b. vtiles a P b \<and> vtiles b S c)"
  by (induction P arbitrary: a) auto

lemma vtiles_le: "vtiles a ss b \<Longrightarrow> a \<le> b"
  by (induction ss arbitrary: a) (fastforce+)

lemma vtiles_unique: "vtiles a ss b \<Longrightarrow> vtiles a ss c \<Longrightarrow> b = c"
  by (induction ss arbitrary: a) auto

lemma vtiles_slices: "vtiles a ss b \<Longrightarrow> s \<in> set ss \<Longrightarrow>
   a \<le> vs_offset s \<and> vs_offset s + vs_length s \<le> b \<and> 0 < vs_length s"
proof (induction ss arbitrary: a)
  case (Cons t ss)
  then have c: "vtiles (a + vs_length t) ss b" and t: "vs_offset t = a" "0 < vs_length t" by auto
  show ?case
  proof (cases "s = t")
    case True
    with t vtiles_le [OF c] show ?thesis by simp
  next
    case False
    with Cons.IH [OF c] Cons.prems(2) show ?thesis by auto
  qed
qed simp

lemma vtiles_keys: "vtiles a ss b \<Longrightarrow> y \<in> fst ` set (entries ss) \<Longrightarrow> a \<le> y \<and> y < b"
  by (fastforce simp: entries_def dest: vtiles_slices)

lemma vtiles_smap_inv: "vtiles a ss b \<Longrightarrow> smap_inv (entries ss)"
proof (induction ss arbitrary: a)
  case (Cons s ss)
  then have "vtiles (a + vs_length s) ss b" by auto
  with Cons show ?case by (fastforce dest: vtiles_keys)
qed simp

lemma vs_lookup_append:
  "vs_lookup (P @ S) x = (case vs_lookup P x of None \<Rightarrow> vs_lookup S x | Some v \<Rightarrow> Some v)"
  by (induction P) auto

lemma vs_lookup_None: "vtiles a ss b \<Longrightarrow> x < a \<or> b \<le> x \<Longrightarrow> vs_lookup ss x = None"
proof (induction ss arbitrary: a)
  case (Cons s ss)
  then have c: "vtiles (a + vs_length s) ss b" and s: "vs_offset s = a" by auto
  have "vs_lookup ss x = None" using Cons.IH [OF c] Cons.prems(2) by auto
  with s Cons.prems(2) vtiles_le [OF c] show ?case by auto
qed simp

lemma vs_lookup_Some: "vtiles a ss b \<Longrightarrow> a \<le> x \<Longrightarrow> x < b \<Longrightarrow> \<exists>v. vs_lookup ss x = Some v"
proof (induction ss arbitrary: a)
  case (Cons s ss)
  then show ?case by (cases "x < a + vs_length s") auto
qed simp

lemma vs_lookup_left: "vtiles a P b \<Longrightarrow> a \<le> x \<Longrightarrow> x < b \<Longrightarrow> vs_lookup (P @ S) x = vs_lookup P x"
  using vs_lookup_Some [of a P b x] by (auto simp: vs_lookup_append)

lemma vs_lookup_right: "vtiles a P b \<Longrightarrow> b \<le> x \<Longrightarrow> vs_lookup (P @ S) x = vs_lookup S x"
  by (simp add: vs_lookup_append vs_lookup_None)

section \<open>Splicing\<close>

text \<open>The halves around a new slice from \<open>a\<close> to \<open>e\<close>.\<close>

definition v_left :: "vslice list \<Rightarrow> u64 \<Rightarrow> vslice list \<Rightarrow> bool" where
  "v_left ss a P \<longleftrightarrow> vtiles 0 P a \<and> (\<forall>x < a. vs_lookup P x = vs_lookup ss x)"

definition v_right :: "vslice list \<Rightarrow> u64 \<Rightarrow> u64 \<Rightarrow> vslice list \<Rightarrow> bool" where
  "v_right ss e b T \<longleftrightarrow> vtiles e T b \<and> (\<forall>x \<ge> e. vs_lookup T x = vs_lookup ss x)"

definition v_overlay :: "vslice list \<Rightarrow> u64 \<Rightarrow> vslice \<Rightarrow> vslice list \<Rightarrow> bool" where
  "v_overlay ss b s ss' \<longleftrightarrow> vtiles 0 ss' (max b (vs_offset s + vs_length s)) \<and>
     (\<forall>x. vs_lookup ss' x =
        (if vs_offset s \<le> x \<and> x < vs_offset s + vs_length s then Some (vs_disk s + (x - vs_offset s))
         else vs_lookup ss x))"

lemma v_overlayI:
  assumes "v_left ss (vs_offset s) P"
    and "v_right ss (vs_offset s + vs_length s) (max b (vs_offset s + vs_length s)) T"
    and "0 < vs_length s" and "vs_disk s + vs_length s < u64_bound"
  shows "v_overlay ss b s (P @ s # T)"
proof -
  have P: "vtiles 0 P (vs_offset s)" using assms(1) by (simp add: v_left_def)
  have "vtiles 0 (P @ s # T) (max b (vs_offset s + vs_length s))"
    using assms by (auto simp: v_left_def v_right_def vtiles_append)
  moreover have "vs_lookup (P @ s # T) x =
      (if vs_offset s \<le> x \<and> x < vs_offset s + vs_length s then Some (vs_disk s + (x - vs_offset s))
       else vs_lookup ss x)" for x
  proof (cases "x < vs_offset s")
    case True
    with assms(1) vs_lookup_left [OF P] show ?thesis by (simp add: v_left_def)
  next
    case False
    with assms(2) vs_lookup_right [OF P] show ?thesis by (simp add: v_right_def)
  qed
  ultimately show ?thesis by (simp add: v_overlay_def)
qed

lemma v_left_cut:
  assumes "vtiles 0 (Q @ s # S) b" and "vs_offset s < a" and "a \<le> vs_offset s + vs_length s"
  shows "v_left (Q @ s # S) a (Q @ [s\<lparr>vs_length := a - vs_offset s\<rparr>])"
proof -
  have Q: "vtiles 0 Q (vs_offset s)" and s: "vs_disk s + vs_length s < u64_bound"
    using assms(1) by (auto simp: vtiles_append)
  have "vs_lookup (Q @ [s\<lparr>vs_length := a - vs_offset s\<rparr>]) x = vs_lookup (Q @ s # S) x" if "x < a" for x
    using vs_lookup_left [OF Q] vs_lookup_right [OF Q, of x] assms that
    by (cases "x < vs_offset s") auto
  with Q s assms show ?thesis by (auto simp: v_left_def vtiles_append)
qed

lemma v_left_whole: "vtiles 0 P a \<Longrightarrow> v_left (P @ S) a P"
  by (simp add: v_left_def vs_lookup_left)

definition vs_cut :: "u64 \<Rightarrow> vslice \<Rightarrow> vslice" where
  "vs_cut e s = \<lparr>vs_offset = e, vs_length = vs_offset s + vs_length s - e,
                 vs_disk = vs_disk s + (e - vs_offset s)\<rparr>"

lemma v_right_cut:
  assumes "vtiles 0 (Q @ s # S) b" and "vs_offset s \<le> e" and "e < vs_offset s + vs_length s"
  shows "v_right (Q @ s # S) e b (vs_cut e s # S)"
proof -
  have Q: "vtiles 0 Q (vs_offset s)" and S: "vtiles (vs_offset s + vs_length s) S b"
    and s: "vs_disk s + vs_length s < u64_bound"
    using assms(1) by (auto simp: vtiles_append)
  have "vs_lookup (Q @ s # S) x = vs_lookup (s # S) x" if "e \<le> x" for x
    using vs_lookup_right [OF Q] assms(2) that by simp
  with S s assms(2,3) show ?thesis by (auto simp: v_right_def vs_cut_def)
qed

lemma v_right_beyond: "vtiles 0 ss b \<Longrightarrow> b \<le> e \<Longrightarrow> v_right ss e e []"
  by (auto simp: v_right_def vs_lookup_None)

lemma v_right_whole: "vtiles 0 P e \<Longrightarrow> vtiles e S b \<Longrightarrow> v_right (P @ S) e b S"
  by (simp add: v_right_def vs_lookup_right)

section \<open>Removing and cutting\<close>

lemma vs_end_eq:
  "vs_offset s + vs_length s < u64_bound \<Longrightarrow> 0 < vs_length s \<Longrightarrow> vs_end s = vs_offset s + vs_length s - 1"
  by (simp add: vs_end_def u64_simps)

lemma vs_end_le_iff:
  assumes "vs_offset s + vs_length s < u64_bound" and "0 < vs_length s" and "0 < e"
  shows "vs_end s \<le> e - 1 \<longleftrightarrow> vs_offset s + vs_length s \<le> e"
  using assms by (auto simp: vs_end_eq)

definition vs_beyond :: "u64 \<Rightarrow> vslice list \<Rightarrow> vslice list" where
  "vs_beyond e ss = dropWhile (\<lambda>s. vs_offset s + vs_length s \<le> e) ss"

lemma vb_overwrite_beyond:
  assumes "vtiles c (s # S) b" and "b < u64_bound" and "0 < e"
    and "\<forall>y \<in> fst ` set P. y < c"
  shows "vb_overwrite (e - 1) (vs_end s) (P @ entries (s # S)) (entries (s # S)) =
     Inr (P @ entries (vs_beyond e (s # S)), entries (vs_beyond e (s # S)))"
  using assms
proof (induction S arbitrary: c s)
  case Nil
  then have "vs_end s \<le> e - 1 \<longleftrightarrow> vs_offset s + vs_length s \<le> e"
    by (intro vs_end_le_iff) auto
  with Nil show ?case by (simp add: vs_beyond_def m_erase_append)
next
  case (Cons t S)
  have c: "vtiles (c + vs_length s) (t # S) b" and s: "vs_offset s = c" "0 < vs_length s"
    using Cons.prems(1) by auto
  have "vs_end s \<le> e - 1 \<longleftrightarrow> vs_offset s + vs_length s \<le> e"
    using s vtiles_le [OF c] Cons.prems by (intro vs_end_le_iff) auto
  moreover have "\<forall>y \<in> fst ` set P. y < c + vs_length s" using Cons.prems(4) by auto
  ultimately show ?case
    using Cons.IH [OF c Cons.prems(2,3)] Cons.prems(4) s
    by (simp add: vs_beyond_def m_erase_append)
qed

lemma vs_beyond_cases:
  assumes "vtiles c ss b" and "c \<le> e"
  shows "(vs_beyond e ss = [] \<and> b \<le> e) \<or>
    (\<exists>P s S. ss = P @ s # S \<and> vs_beyond e ss = s # S \<and> vs_offset s \<le> e \<and> e < vs_offset s + vs_length s)"
  using assms
proof (induction ss arbitrary: c)
  case (Cons s ss)
  show ?case
  proof (cases "vs_offset s + vs_length s \<le> e")
    case True
    then have u: "vs_beyond e (s # ss) = vs_beyond e ss" by (simp add: vs_beyond_def)
    have "vtiles (c + vs_length s) ss b" "c + vs_length s \<le> e" using Cons.prems True by auto
    from Cons.IH [OF this] show ?thesis unfolding u by (metis append_Cons)
  next
    case False
    then have "vs_beyond e (s # ss) = s # ss" by (simp add: vs_beyond_def)
    moreover have "vs_offset s \<le> e" using Cons.prems by simp
    ultimately show ?thesis using False by (metis append_Nil linorder_not_le)
  qed
qed (simp add: vs_beyond_def)

lemma vb_remove_and_cut_right:
  assumes t: "vtiles 0 (P0 @ s # S) b" and P0: "vtiles 0 P0 c" and c: "c \<le> e" "0 < e"
    and b: "b < u64_bound" and P: "\<forall>y \<in> fst ` set P. y < c"
  shows "\<exists>T. vb_remove_and_cut (e - 1) (vs_end s) (P @ entries (s # S)) (entries (s # S)) = Inr (P @ T) \<and>
     v_right (P0 @ s # S) e (max b e) (map snd T) \<and> (\<forall>y \<in> fst ` set T. c \<le> y)"
proof -
  have tS: "vtiles c (s # S) b" using t P0 vtiles_unique [OF P0] unfolding vtiles_append by blast
  have ow: "vb_overwrite (e - 1) (vs_end s) (P @ entries (s # S)) (entries (s # S)) =
     Inr (P @ entries (vs_beyond e (s # S)), entries (vs_beyond e (s # S)))"
    using tS b c(2) P by (rule vb_overwrite_beyond)
  consider "vs_beyond e (s # S) = []" "b \<le> e"
    | Q u R where "s # S = Q @ u # R" "vs_beyond e (s # S) = u # R" "vs_offset u \<le> e"
        "e < vs_offset u + vs_length u"
    using vs_beyond_cases [OF tS c(1)] by blast
  then show ?thesis
  proof cases
    case 1
    with ow v_right_beyond [OF t 1(2)] show ?thesis
      by (auto simp: vb_remove_and_cut_def vb_cut_right_def max_def)
  next
    case 2
    have tu: "vtiles 0 ((P0 @ Q) @ u # R) b" using t unfolding 2(1) by simp
    have u: "vs_offset u + vs_length u \<le> b" "vs_disk u + vs_length u < u64_bound" "0 < vs_length u"
      "vtiles (vs_offset u + vs_length u) R b"
      using tu by (auto simp: vtiles_append dest: vtiles_le)
    have cu: "c \<le> vs_offset u" using vtiles_slices [OF tS, of u] 2(1) by simp
    then have Pu: "\<forall>y \<in> fst ` set P. y < vs_offset u" using P by auto
    let ?T = "(vs_offset u, vs_cut e u) # entries R"
    have "vb_cut_right (e - 1) (P @ entries (u # R)) (entries (u # R)) = P @ ?T"
      using u b 2(3,4) c(2) m_assign_append [OF Pu]
      by (simp add: vb_cut_right_def vs_cut_def u64_simps vs_end_eq)
    then have "vb_remove_and_cut (e - 1) (vs_end s) (P @ entries (s # S)) (entries (s # S)) = Inr (P @ ?T)"
      using ow 2(2) by (simp add: vb_remove_and_cut_def)
    moreover have "v_right (P0 @ s # S) e (max b e) (map snd ?T)"
      using v_right_cut [OF tu 2(3,4)] 2(1,4) u(1) by (simp add: max_def)
    moreover have "\<forall>y \<in> fst ` set ?T. c \<le> y"
      using cu vtiles_keys [OF u(4)] by fastforce
    ultimately show ?thesis by blast
  qed
qed

section \<open>update\<close>

text \<open>The branches that keep every byte outside the new slice.\<close>

definition vb_safe :: "u64 \<Rightarrow> u64 \<Rightarrow> vblock \<Rightarrow> bool" where
  "vb_safe off len m \<longleftrightarrow>
     (case lower_bound off m of
        [] \<Rightarrow> True
      | (k, s) # _ \<Rightarrow>
          below off m = [] \<or>
          (if k = off then vs_length s = len
           else vs_offset (snd (last (below off m))) + vs_length (snd (last (below off m))) \<le> off + len))"

lemma entries_keys_less: "vtiles 0 Q k \<Longrightarrow> \<forall>y \<in> fst ` set (entries Q). y < k"
  using vtiles_keys by blast

lemma vb_cut_left_split:
  assumes "vtiles 0 (Q @ [s]) c" and "vs_offset s < a" and "a \<le> c" and "c < u64_bound"
  shows "vb_cut_left a (vs_offset s, s) (entries (Q @ [s]) @ M) =
     entries Q @ (vs_offset s, s\<lparr>vs_length := a - vs_offset s\<rparr>) # M"
proof -
  have Q: "vtiles 0 Q (vs_offset s)" and c: "c = vs_offset s + vs_length s" "0 < vs_length s"
    using assms(1) by (auto simp: vtiles_append)
  show ?thesis
  proof (cases "a = c")
    case True
    have "s\<lparr>vs_length := vs_length s\<rparr> = s" by simp
    moreover have "\<not> a \<le> vs_end s" using True c assms by (simp add: vs_end_eq)
    ultimately show ?thesis using True c by (simp add: vb_cut_left_def Let_def)
  next
    case False
    then have "vs_end s = c - 1" "a \<le> c - 1" using c assms(3,4) by (simp_all add: vs_end_eq)
    moreover from this have "u64_sub (vs_length s) (u64_add (u64_sub (vs_end s) a) 1) = a - vs_offset s"
      using c assms(2,4) by (simp add: u64_simps)
    ultimately show ?thesis
      using m_assign_append [OF entries_keys_less [OF Q]] by (simp add: vb_cut_left_def Let_def)
  qed
qed

lemma vb_update_end_overlay:
  assumes t: "vtiles 0 (Q @ [s]) b" and s: "vs_offset s < off" "off \<le> b" and b: "b < u64_bound"
    and len: "0 < len" "off + len < u64_bound" and d: "d + len < u64_bound"
  shows "v_overlay (Q @ [s]) b \<lparr>vs_offset = off, vs_length = len, vs_disk = d\<rparr>
     (map snd (vb_update_end \<lparr>vs_offset = off, vs_length = len, vs_disk = d\<rparr> (off + len - 1)
        (vs_offset s, s) (entries (Q @ [s]))))"
proof -
  let ?new = "\<lparr>vs_offset = off, vs_length = len, vs_disk = d\<rparr>"
  let ?cut = "s\<lparr>vs_length := off - vs_offset s\<rparr>"
  have Q: "vtiles 0 Q (vs_offset s)" and bs: "b = vs_offset s + vs_length s" "0 < vs_length s"
    and ds: "vs_disk s + vs_length s < u64_bound"
    using t by (auto simp: vtiles_append)
  have Qk: "\<forall>y \<in> fst ` set (entries Q). y < vs_offset s" using entries_keys_less [OF Q] .
  have k: "\<forall>y \<in> fst ` set (entries (Q @ [s])). y < off" using Qk s(1) by auto
  have m1: "m_assign off ?new (entries (Q @ [s])) = entries (Q @ [s]) @ [(off, ?new)]"
    using m_assign_append [OF k, of ?new "[]"] by simp
  have lh: "v_left (Q @ [s]) off (Q @ [?cut])" using v_left_cut [OF t s(1)] s(2) bs by simp
  show ?thesis
  proof (cases "off + len < b")
    case True
    have e: "vs_end s = b - 1" "b - 1 > off + len - 1" using bs b len True by (simp_all add: vs_end_eq)
    have ll: "u64_sub (vs_length s) (u64_add (u64_sub (vs_end s) off) 1) = off - vs_offset s"
      using e bs b s True by (simp add: u64_simps)
    have cut: "\<lparr>vs_offset = u64_add (off + len - 1) 1, vs_length = u64_sub (vs_end s) (off + len - 1),
        vs_disk = u64_add (vs_disk s) (u64_add (off - vs_offset s) len)\<rparr> = vs_cut (off + len) s"
      using e(1) bs b s True len ds by (simp add: u64_simps vs_cut_def)
    have a2: "m_assign (vs_offset s) ?cut (entries (Q @ [s]) @ [(off, ?new)]) =
        (entries Q @ [(vs_offset s, ?cut), (off, ?new)])"
      using m_assign_append [OF Qk] by simp
    have a3: "m_assign (off + len) c (entries Q @ [(vs_offset s, ?cut), (off, ?new)]) =
        entries Q @ [(vs_offset s, ?cut), (off, ?new), (off + len, c)]" for c
      using m_assign_append [of "entries Q @ [(vs_offset s, ?cut), (off, ?new)]" "off + len" c "[]"] k len(1)
      by fastforce
    have a4: "m_assign off ?new (entries Q @ [(vs_offset s, ?cut), (off, ?new), (off + len, c)]) =
        entries Q @ [(vs_offset s, ?cut), (off, ?new), (off + len, c)]" for c
      using m_assign_append [of "entries Q @ [(vs_offset s, ?cut)]" off ?new "[(off, ?new), (off + len, c)]"] k
      by simp
    have "u64_add (off + len - 1) 1 = off + len" using len by (simp add: u64_simps)
    then have "vb_update_end ?new (off + len - 1) (vs_offset s, s) (entries (Q @ [s])) =
        entries Q @ [(vs_offset s, ?cut), (off, ?new), (off + len, vs_cut (off + len) s)]"
      using e ll cut a2 a3 a4 m1 by (simp add: vb_update_end_def Let_def)
    moreover have "v_right (Q @ [s]) (off + len) (max b (off + len)) [vs_cut (off + len) s]"
      using v_right_cut [OF t] s True bs by (simp add: max_def)
    ultimately show ?thesis
      using v_overlayI [of "Q @ [s]" ?new "Q @ [?cut]" b "[vs_cut (off + len) s]"] lh len d by simp
  next
    case False
    then have "\<not> off + len - 1 < vs_end s" using bs b len by (simp add: vs_end_eq)
    then have "vb_update_end ?new (off + len - 1) (vs_offset s, s) (entries (Q @ [s])) =
        vb_cut_left off (vs_offset s, s) (entries (Q @ [s]) @ [(off, ?new)])"
      using m1 by (simp add: vb_update_end_def Let_def)
    also have "\<dots> = entries Q @ [(vs_offset s, ?cut), (off, ?new)]"
      using vb_cut_left_split [OF t s b] by simp
    finally show ?thesis
      using v_overlayI [of "Q @ [s]" ?new "Q @ [?cut]" b "[]"] lh len d v_right_beyond [OF t, of "off + len"] False
      by (simp add: max_def)
  qed
qed

lemma vb_update_begin_overlay:
  assumes t: "vtiles 0 (s # S) b" and b: "b < u64_bound"
    and len: "0 < len" "len < u64_bound" and d: "d + len < u64_bound"
  shows "\<exists>m'. vb_update_begin \<lparr>vs_offset = 0, vs_length = len, vs_disk = d\<rparr> (len - 1) (0, s) (entries S)
       (entries (s # S)) = Inr m' \<and>
     v_overlay (s # S) b \<lparr>vs_offset = 0, vs_length = len, vs_disk = d\<rparr> (map snd m')"
proof -
  let ?new = "\<lparr>vs_offset = 0, vs_length = len, vs_disk = d\<rparr>"
  have S: "vtiles (vs_length s) S b" and s: "vs_offset s = 0" "0 < vs_length s" "vs_disk s + vs_length s < u64_bound"
    using t by auto
  have bs: "vs_length s \<le> b" using vtiles_le [OF S] .
  have lh: "v_left (s # S) 0 []" by (simp add: v_left_def)
  have es: "vs_end s = vs_length s - 1" using s bs b by (simp add: vs_end_eq)
  have m1: "m_assign 0 ?new (entries (s # S)) = (0, ?new) # entries S" using s by simp
  show ?thesis
  proof (cases "vs_length s \<le> len")
    case True
    show ?thesis
    proof (cases S)
      case Nil
      have "vs_end s \<le> len - 1" using es True by simp
      with Nil have "vb_update_begin ?new (len - 1) (0, s) (entries S) (entries (s # S)) = Inr [(0, ?new)]"
        using s m1 by (simp add: vb_update_begin_def Let_def)
      moreover have "v_right (s # S) len (max b len) []"
        using v_right_beyond [OF t, of len] True Nil S by (simp add: max_def)
      ultimately show ?thesis
        using v_overlayI [of "s # S" ?new "[]" b "[]"] lh len d by simp
    next
      case (Cons u R)
      have P0: "vtiles 0 [s] (vs_length s)" using s by simp
      obtain T where T: "vb_remove_and_cut (len - 1) (vs_end u) ([(0, ?new)] @ entries (u # R)) (entries (u # R)) =
          Inr ([(0, ?new)] @ T)" "v_right ([s] @ u # R) len (max b len) (map snd T)"
        using vb_remove_and_cut_right [of "[s]" u R b "vs_length s" len "[(0, ?new)]"] t P0 Cons True len(1) b s(2)
        by auto
      have "vs_end s \<le> len - 1" using es True by simp
      then have "vb_update_begin ?new (len - 1) (0, s) (entries S) (entries (s # S)) = Inr ([(0, ?new)] @ T)"
        using s m1 T(1) Cons by (simp add: vb_update_begin_def Let_def)
      then show ?thesis
        using v_overlayI [of "s # S" ?new "[]" b "map snd T"] lh len d T(2) Cons by simp
    qed
  next
    case False
    have c: "u64_add (len - 1) 1 = len" "u64_sub (vs_end s) (len - 1) = vs_length s - len"
      "u64_add (vs_disk s) (u64_sub len 0) = vs_disk s + len" "\<not> vs_end s \<le> len - 1"
      using es bs b False len s by (simp_all add: u64_simps)
    have "\<forall>y \<in> fst ` set (entries S). len < y" using vtiles_keys [OF S] False by fastforce
    then have "m_assign len c (entries (s # S)) = (0, s) # (len, c) # entries S" for c
      using s len(1) by (cases S) auto
    then have "vb_update_begin ?new (len - 1) (0, s) (entries S) (entries (s # S)) =
        Inr ((0, ?new) # (len, vs_cut len s) # entries S)"
      using s(1) c len(1) by (simp add: vb_update_begin_def Let_def vs_cut_def)
    moreover have "v_right (s # S) len (max b len) (vs_cut len s # S)"
      using v_right_cut [of "[]" s S b len] t s False bs by (simp add: max_def)
    ultimately show ?thesis
      using v_overlayI [of "s # S" ?new "[]" b "vs_cut len s # S"] lh len d by simp
  qed
qed

lemma vb_update_middle_overlay:
  assumes t: "vtiles 0 (Q @ s # u # S) b" and s: "vs_offset s < off" "off < vs_offset u"
    and safe: "vs_offset u \<le> off + len" and b: "b < u64_bound"
    and len: "0 < len" "off + len < u64_bound" and d: "d + len < u64_bound"
  shows "\<exists>m'. vb_update_middle \<lparr>vs_offset = off, vs_length = len, vs_disk = d\<rparr> (off + len - 1)
       (vs_offset s, s) (vs_offset u, u) (entries S) (entries (Q @ s # u # S)) = Inr m' \<and>
     v_overlay (Q @ s # u # S) b \<lparr>vs_offset = off, vs_length = len, vs_disk = d\<rparr> (map snd m')"
proof -
  let ?new = "\<lparr>vs_offset = off, vs_length = len, vs_disk = d\<rparr>"
  let ?P = "entries (Q @ [s]) @ [(off, ?new)]"
  have us: "vs_offset u = vs_offset s + vs_length s" and Qs: "vtiles 0 (Q @ [s]) (vs_offset u)"
    using t by (auto simp: vtiles_append)
  have ub: "vs_offset u < u64_bound" using vtiles_slices [OF t, of u] b by simp
  have "vtiles 0 Q (vs_offset s)" using Qs by (auto simp: vtiles_append)
  then have k: "\<forall>y \<in> fst ` set (entries (Q @ [s])). y < off"
    using entries_keys_less [of Q "vs_offset s"] s(1) by fastforce
  have m1: "m_assign off ?new (entries (Q @ s # u # S)) = ?P @ entries (u # S)"
    using m_assign_append [OF k, of ?new "entries (u # S)"] s(2) by simp
  obtain T where T: "vb_remove_and_cut (off + len - 1) (vs_end u) (?P @ entries (u # S)) (entries (u # S)) =
      Inr (?P @ T)" and rt: "v_right ((Q @ [s]) @ u # S) (off + len) (max b (off + len)) (map snd T)"
  proof -
    have "\<forall>y \<in> fst ` set ?P. y < vs_offset u" using k s by fastforce
    with vb_remove_and_cut_right [of "Q @ [s]" u S b "vs_offset u" "off + len" ?P] t Qs safe len(1) b that
    show ?thesis by auto
  qed
  have "vb_cut_left off (vs_offset s, s) (?P @ T) =
      entries Q @ (vs_offset s, s\<lparr>vs_length := off - vs_offset s\<rparr>) # (off, ?new) # T"
    using vb_cut_left_split [OF Qs s(1) _ ub, of "(off, ?new) # T"] s(2) by simp
  then have "vb_update_middle ?new (off + len - 1) (vs_offset s, s) (vs_offset u, u) (entries S)
      (entries (Q @ s # u # S)) =
      Inr (entries Q @ (vs_offset s, s\<lparr>vs_length := off - vs_offset s\<rparr>) # (off, ?new) # T)"
    using s(2) m1 T by (simp add: vb_update_middle_def Let_def)
  moreover have "v_left (Q @ s # u # S) off (Q @ [s\<lparr>vs_length := off - vs_offset s\<rparr>])"
    using v_left_cut [OF t s(1)] s(2) us by simp
  ultimately show ?thesis
    using v_overlayI [of "Q @ s # u # S" ?new "Q @ [s\<lparr>vs_length := off - vs_offset s\<rparr>]" b "map snd T"]
      rt len d by simp
qed

lemma vb_update_replace_overlay:
  assumes t: "vtiles 0 (Q @ s # u # S) b" and u: "vs_length u = len" and b: "b < u64_bound"
    and len: "0 < len" and d: "d + len < u64_bound"
  shows "\<exists>m'. vb_update_middle \<lparr>vs_offset = vs_offset u, vs_length = len, vs_disk = d\<rparr> (vs_offset u + len - 1)
       (vs_offset s, s) (vs_offset u, u) (entries S) (entries (Q @ s # u # S)) = Inr m' \<and>
     v_overlay (Q @ s # u # S) b \<lparr>vs_offset = vs_offset u, vs_length = len, vs_disk = d\<rparr> (map snd m')"
proof -
  let ?new = "\<lparr>vs_offset = vs_offset u, vs_length = len, vs_disk = d\<rparr>"
  have Qs: "vtiles 0 (Q @ [s]) (vs_offset u)" and S: "vtiles (vs_offset u + len) S b"
    and Qu: "vtiles 0 (Q @ [s, u]) (vs_offset u + len)"
    using t u len by (auto simp: vtiles_append)
  have "vs_offset u + len \<le> b" using vtiles_le [OF S] .
  then have "vs_end u = vs_offset u + len - 1" using u b len by (simp add: vs_end_eq)
  moreover have "m_assign (vs_offset u) ?new (entries (Q @ s # u # S)) =
      entries (Q @ [s]) @ (vs_offset u, ?new) # entries S"
    using m_assign_append [OF entries_keys_less [OF Qs], of ?new "entries (u # S)"] by simp
  ultimately have "vb_update_middle ?new (vs_offset u + len - 1) (vs_offset s, s) (vs_offset u, u) (entries S)
      (entries (Q @ s # u # S)) = Inr (entries (Q @ [s]) @ (vs_offset u, ?new) # entries S)"
    by (simp add: vb_update_middle_def Let_def)
  moreover have "v_left (Q @ s # u # S) (vs_offset u) (Q @ [s])"
    using v_left_whole [OF Qs, of "u # S"] by simp
  moreover have "v_right (Q @ s # u # S) (vs_offset u + len) (max b (vs_offset u + len)) S"
    using v_right_whole [OF Qu S] \<open>vs_offset u + len \<le> b\<close> by (simp add: max_def)
  ultimately show ?thesis
    using v_overlayI [of "Q @ s # u # S" ?new "Q @ [s]" b S] len d by simp
qed

lemma vb_update_overlay_aux:
  assumes t: "vtiles 0 ss b" and b: "b < u64_bound" and off: "off \<le> b"
    and len: "0 < len" "off + len < u64_bound" and d: "d + len < u64_bound"
    and safe: "vb_safe off len (entries ss)"
  shows "\<exists>m'. vb_update off len d (entries ss) = Inr m' \<and>
     v_overlay ss b \<lparr>vs_offset = off, vs_length = len, vs_disk = d\<rparr> (map snd m')"
proof (cases "ss = []")
  case True
  then show ?thesis using t off len d by (auto simp: vb_update_def Let_def v_overlay_def)
next
  case False
  let ?new = "\<lparr>vs_offset = off, vs_length = len, vs_disk = d\<rparr>"
  define Q U where "Q = takeWhile (\<lambda>s. vs_offset s < off) ss" and "U = dropWhile (\<lambda>s. vs_offset s < off) ss"
  have ss: "ss = Q @ U" by (simp add: Q_def U_def)
  have bl: "below off (entries ss) = entries Q" "lower_bound off (entries ss) = entries U"
    by (simp_all add: below_def lower_bound_def Q_def U_def entries_def takeWhile_map dropWhile_map comp_def)
  have ne: "u64_sub (u64_add off len) 1 = off + len - 1" using len by (simp add: u64_simps)
  have Qk: "\<forall>s \<in> set Q. vs_offset s < off" by (auto simp: Q_def dest: set_takeWhileD)
  show ?thesis
  proof (cases U)
    case Nil
    with ss False obtain Q' s where Q': "Q = Q' @ [s]" by (metis append_Nil2 rev_exhaust)
    have "vb_update off len d (entries ss) = Inr (vb_update_end ?new (off + len - 1) (vs_offset s, s) (entries ss))"
      using False bl Nil Q' ne by (simp add: vb_update_def Let_def)
    then show ?thesis
      using vb_update_end_overlay [of Q' s b off len d] t off b len d ss Nil Q' Qk by simp
  next
    case (Cons u S)
    have ge: "off \<le> vs_offset u" using hd_dropWhile_not [of "\<lambda>s. vs_offset s < off" ss u S] Cons
      by (simp add: U_def not_less)
    show ?thesis
    proof (cases "Q = []")
      case True
      with ss Cons t ge have "off = 0" "ss = u # S" "vs_offset u = 0" by auto
      moreover have "vb_update off len d (entries ss) =
          vb_update_begin ?new (off + len - 1) (vs_offset u, u) (entries S) (entries ss)"
        using False bl Cons True ne by (simp add: vb_update_def Let_def)
      ultimately show ?thesis
        using vb_update_begin_overlay [of u S b len d] t b len d by simp
    next
      case False
      then obtain Q' s where Q': "Q = Q' @ [s]" by (metis rev_exhaust)
      have mid: "vb_update off len d (entries ss) =
          vb_update_middle ?new (off + len - 1) (vs_offset s, s) (vs_offset u, u) (entries S) (entries ss)"
        using bl Cons Q' ne ss by (simp add: vb_update_def Let_def)
      have t': "vtiles 0 (Q' @ s # u # S) b" and ss': "ss = Q' @ s # u # S"
        using t ss Cons Q' by simp_all
      have su: "vs_offset u = vs_offset s + vs_length s" using t' by (auto simp: vtiles_append)
      have "if vs_offset u = off then vs_length u = len else vs_offset u \<le> off + len"
        using safe su unfolding vb_safe_def bl Cons Q' by (auto split: if_splits)
      then show ?thesis
        using vb_update_middle_overlay [OF t', of off len d] vb_update_replace_overlay [OF t' _ b, of len d]
          mid ge Qk Q' b len d ss' by (auto split: if_splits)
    qed
  qed
qed

section \<open>Encoding\<close>

definition vs_wf :: "vslice \<Rightarrow> bool" where
  "vs_wf s \<longleftrightarrow> vs_offset s < u64_bound \<and> vs_length s < u64_bound \<and> vs_disk s < u64_bound"

lemma vtiles_vs_wf: "vtiles a ss b \<Longrightarrow> b < u64_bound \<Longrightarrow> list_all vs_wf ss"
proof (induction ss arbitrary: a)
  case (Cons s ss)
  then have "vtiles (a + vs_length s) ss b" by simp
  with Cons show ?case by (auto simp: vs_wf_def dest: vtiles_le)
qed simp

lemma vtiles_length: "vtiles a ss b \<Longrightarrow> a + length ss \<le> b"
proof (induction ss arbitrary: a)
  case (Cons s ss)
  then have "a + vs_length s + length ss \<le> b" "0 < vs_length s" by auto
  then show ?case by simp
qed simp

context e_buffer
begin

lemma unpack_pack_vslice [wire_simps]: "vs_wf s \<Longrightarrow> unpack_vslice E (pack_vslice E s @ r) = Some (s, r)"
  by (simp add: unpack_vslice_def pack_vslice_def vs_wf_def up64_pk64)

lemma pack_vslice_length [size_simps]: "length (pack_vslice E s) = vs_pack_size"
  by (simp add: pack_vslice_def vs_pack_size_def pk_lengths)

lemma unpack_vblock_loop_pack:
  assumes "vtiles 0 P a" and "vtiles a ss b" and "b < u64_bound"
  shows "unpack_vblock_loop E (length ss) (entries P) (concat (map (pack_vslice E) ss) @ r) =
     Some (entries (P @ ss), r)"
  using assms
proof (induction ss arbitrary: a P)
  case (Cons s ss)
  have t: "vtiles (a + vs_length s) ss b" and s: "vs_offset s = a" using Cons.prems(2) by simp_all
  have "vs_wf s" using vtiles_vs_wf [OF Cons.prems(2,3)] by simp
  moreover have "m_assign a s (entries P) = entries (P @ [s])"
    using m_assign_append [OF entries_keys_less [OF Cons.prems(1)], of s "[]"] s by simp
  moreover have "vtiles 0 (P @ [s]) (a + vs_length s)" using Cons.prems by (auto simp: vtiles_append)
  from Cons.IH [OF this t Cons.prems(3)]
  have "unpack_vblock_loop E (length ss) (entries (P @ [s])) (concat (map (pack_vslice E) ss) @ r) =
      Some (entries (P @ s # ss), r)" by simp
  ultimately show ?case using s by (simp add: unpack_pack_vslice)
qed simp

lemma unpack_pack_vblock:
  assumes "vtiles 0 (map snd m) b" and "b < u64_bound"
  shows "unpack_vblock E [] (pack_vblock E m @ r) = Some (entries (map snd m), r)"
proof -
  from vtiles_length [OF assms(1)] have "length m < u64_bound" using assms(2) by simp
  then show ?thesis
    using unpack_vblock_loop_pack [of "[]" 0 "map snd m" b r] assms
    by (simp add: unpack_vblock_def pack_vblock_def up64_pk64 comp_def)
qed

lemma pack_vblock_length [size_simps]: "length (pack_vblock E m) = vb_pack_size m"
proof -
  have "length (concat (map (\<lambda>p. pack_vslice E (snd p)) m)) = length m * vs_pack_size"
    by (induction m) (simp_all add: pack_vslice_length)
  then show ?thesis by (simp add: pack_vblock_def vb_pack_size_def pk_lengths)
qed

end

section \<open>Properties\<close>

definition demo_vblock :: vblock where
  "demo_vblock =
     [(0, \<lparr>vs_offset = 0, vs_length = 10, vs_disk = 100\<rparr>),
      (10, \<lparr>vs_offset = 10, vs_length = 10, vs_disk = 200\<rparr>)]"

lemma demo_vblock_wf: "vb_wf 20 demo_vblock"
  by (simp add: vb_wf_def demo_vblock_def)

lemma vb_update_overlays:
  assumes "vb_wf b m" and "off \<le> b" and "0 < len" and "off + len < u64_bound"
    and "d + len < u64_bound" and "vb_safe off len m"
  shows "\<exists>m'. vb_update off len d m = Inr m' \<and>
     vb_wf (max b (off + len)) (entries (map snd m')) \<and>
     (\<forall>x. vb_lookup m' x = (if off \<le> x \<and> x < off + len then Some (d + (x - off)) else vb_lookup m x))"
proof -
  from assms(1) obtain ss where ss: "m = entries ss" "vtiles 0 ss b" "b < u64_bound"
    by (auto simp: vb_wf_entries)
  with vb_update_overlay_aux [OF ss(2,3) assms(2-5)] assms(4,6) show ?thesis
    by (auto simp: v_overlay_def vb_lookup_def vb_wf_def)
qed



text \<open>An update that starts where the last slice of a block of several slices starts, and is
  longer than it, steps past the end of the map and dereferences it: the code has no defined
  result there. (The loop that removes covered slices tests the slice being replaced, after the
  iterator has moved beyond it.)\<close>

theorem vb_update_grow_last_undefined:
  assumes "vb_wf b (entries (Q @ [s, u]))" and "vs_length u < len" and "vs_offset u + len < u64_bound"
  shows "vb_update (vs_offset u) len d (entries (Q @ [s, u])) = Inl Undefined"
proof -
  have t: "vtiles 0 (Q @ [s, u]) b" and b: "b < u64_bound" using assms(1) by (simp_all add: vb_wf_def)
  have Qs: "vtiles 0 (Q @ [s]) (vs_offset u)" and u: "0 < vs_length u" "b = vs_offset u + vs_length u"
    using t by (auto simp: vtiles_append)
  have k: "\<forall>y \<in> fst ` set (entries (Q @ [s])). y < vs_offset u" using entries_keys_less [OF Qs] .
  have bl: "below (vs_offset u) (entries (Q @ [s]) @ [(vs_offset u, u)]) = entries (Q @ [s])"
    "lower_bound (vs_offset u) (entries (Q @ [s]) @ [(vs_offset u, u)]) = [(vs_offset u, u)]"
    unfolding below_def lower_bound_def using k by (simp_all add: takeWhile_append2 dropWhile_append2)
  have ue: "vs_end u = b - 1" using u b by (simp add: vs_end_eq)
  have "u64_sub (u64_add (vs_offset u) len) 1 = vs_offset u + len - 1"
    using assms(2,3) by (simp add: u64_simps)
  then have "vb_update (vs_offset u) len d (entries (Q @ [s]) @ [(vs_offset u, u)]) =
      vb_update_middle \<lparr>vs_offset = vs_offset u, vs_length = len, vs_disk = d\<rparr> (vs_offset u + len - 1)
        (vs_offset s, s) (vs_offset u, u) [] (entries (Q @ [s]) @ [(vs_offset u, u)])"
    using bl by (simp add: vb_update_def Let_def)
  also have "\<dots> = Inl Undefined"
    using ue u assms(2)
    by (auto simp: vb_update_middle_def Let_def vb_remove_and_cut_def)
  finally show ?thesis by simp
qed

theorem vb_update_grow_last_undefined_witness:
  "vb_update 10 12 300 demo_vblock = Inl Undefined"
  using vb_update_grow_last_undefined [of 20 "[]" "\<lparr>vs_offset = 0, vs_length = 10, vs_disk = 100\<rparr>"
      "\<lparr>vs_offset = 10, vs_length = 10, vs_disk = 200\<rparr>" 12 300] demo_vblock_wf
  by (simp add: demo_vblock_def)

text \<open>An update strictly inside a slice that is not the last one loses the rest of that slice.
  The code extends the next slice down to the end of the update instead, so the bytes in between
  are read from the disk before that slice, not from where they were written.\<close>

theorem vb_update_inner_tail_lost:
  assumes wf: "vb_wf b (entries [s, u])" and off: "0 < off" "0 < len" "off + len < vs_offset u"
    and du: "vs_offset u - (off + len) \<le> vs_disk u" and x: "off + len \<le> x" "x < vs_offset u"
  shows "vb_lookup (entries [s, u]) x = Some (vs_disk s + x) \<and>
     (\<exists>m'. vb_update off len d (entries [s, u]) = Inr m' \<and>
        vb_lookup m' x = Some (vs_disk u - (vs_offset u - x)))"
proof -
  have s: "vs_offset s = 0" "vs_offset u = vs_length s" and u: "0 < vs_length u" "b = vs_length s + vs_length u"
    and b: "b < u64_bound" and du2: "vs_disk u + vs_length u < u64_bound"
    using wf by (auto simp: vb_wf_def)
  let ?e = "off + len" and ?new = "\<lparr>vs_offset = off, vs_length = len, vs_disk = d\<rparr>"
  let ?u = "\<lparr>vs_offset = ?e, vs_length = b - ?e, vs_disk = vs_disk u - (vs_offset u - ?e)\<rparr>"
  have ends: "vs_end s = vs_length s - 1" "vs_end u = b - 1"
    using s u b off by (simp_all add: vs_end_eq)
  have ne: "u64_sub (u64_add off len) 1 = ?e - 1" "u64_add (?e - 1) 1 = ?e" "u64_sub (b - 1) (?e - 1) = b - ?e"
    using off s u b by (simp_all add: u64_simps)
  have "u64_sub ?e (vs_offset u) = u64_bound - (vs_offset u - ?e)"
    using off(3) b s u by (simp add: u64_sub_def)
  then have dd: "u64_add (vs_disk u) (u64_sub ?e (vs_offset u)) = vs_disk u - (vs_offset u - ?e)"
    using du du2 off(3) b s u by (simp add: u64_add_def mod_if)
  have bl: "below off (entries [s, u]) = [(0, s)]" "lower_bound off (entries [s, u]) = [(vs_offset u, u)]"
    using s off by (simp_all add: below_def lower_bound_def)
  have nle: "\<not> b - 1 \<le> ?e - 1" "off \<le> vs_length s - 1" using off s u by simp_all
  have "u64_sub (vs_length s) (u64_add (u64_sub (vs_length s - 1) off) 1) = off"
    using off s b u by (simp add: u64_simps)
  then have "vb_update off len d (entries [s, u]) =
      Inr [(0, s\<lparr>vs_length := off\<rparr>), (off, ?new), (vs_offset u, ?u)]"
    using bl ne ends dd nle s off
    by (simp add: vb_update_def Let_def vb_update_middle_def vb_remove_and_cut_def vb_cut_right_def
        vb_cut_left_def)
  moreover have "vb_lookup [(0, s\<lparr>vs_length := off\<rparr>), (off, ?new), (vs_offset u, ?u)] x =
      Some (vs_disk u - (vs_offset u - x))"
    using x s u off du by (auto simp: vb_lookup_def)
  moreover have "vb_lookup (entries [s, u]) x = Some (vs_disk s + x)"
    using x s by (simp add: vb_lookup_def)
  ultimately show ?thesis by blast
qed

theorem vb_update_inner_tail_lost_witness:
  "vb_lookup demo_vblock 7 = Some 107 \<and>
   (\<exists>m'. vb_update 3 2 300 demo_vblock = Inr m' \<and> vb_lookup m' 7 = Some 197)"
  using vb_update_inner_tail_lost [of 20 "\<lparr>vs_offset = 0, vs_length = 10, vs_disk = 100\<rparr>"
      "\<lparr>vs_offset = 10, vs_length = 10, vs_disk = 200\<rparr>" 3 2 7 300] demo_vblock_wf
  by (simp add: demo_vblock_def)

text \<open>When an update from the start of a block ends inside the second of its two slices, the
  length the code computes from the changed map is too small by what was cut off that slice,
  because the slice keeps its old key. The map as it is stored and read back has the right
  length again.\<close>

theorem vb_length_after_cut:
  assumes wf: "vb_wf b (entries [s, u])" and len: "vs_length s < len" "len < b"
    and d: "d + len < u64_bound"
  shows "\<exists>m'. vb_update 0 len d (entries [s, u]) = Inr m' \<and>
     vb_length m' = b - (len - vs_length s) \<and> vb_length (entries (map snd m')) = b"
proof -
  have s: "vs_offset s = 0" "0 < vs_length s" "vs_offset u = vs_length s" and u: "b = vs_length s + vs_length u"
    and b: "b < u64_bound" and du: "vs_disk u + vs_length u < u64_bound"
    using wf by (auto simp: vb_wf_def)
  have ends: "vs_end s = vs_length s - 1" "vs_end u = b - 1"
    using s u b len by (simp_all add: vs_end_eq)
  have ne: "u64_sub (u64_add 0 len) 1 = len - 1" "u64_add (len - 1) 1 = len"
    "u64_sub (b - 1) (len - 1) = b - len" "u64_add (vs_length s) (b - len) = b - (len - vs_length s)"
    "u64_add len (b - len) = b"
    using b len s by (simp_all add: u64_simps)
  have nle: "vs_length s - 1 \<le> len - 1" "\<not> b - 1 \<le> len - 1" using len by simp_all
  have bl: "below 0 (entries [s, u]) = []" "lower_bound 0 (entries [s, u]) = entries [s, u]"
    using s by (simp_all add: below_def lower_bound_def)
  have "vb_update 0 len d (entries [s, u]) =
      Inr [(0, \<lparr>vs_offset = 0, vs_length = len, vs_disk = d\<rparr>),
           (vs_length s, \<lparr>vs_offset = len, vs_length = b - len,
              vs_disk = u64_add (vs_disk u) (u64_sub len (vs_length s))\<rparr>)]"
    using bl ne ends nle s
    by (simp add: vb_update_def Let_def vb_update_begin_def vb_remove_and_cut_def vb_cut_right_def)
  then show ?thesis using ne by (simp add: vb_length_def)
qed

theorem vb_length_after_cut_witness:
  "\<exists>m'. vb_update 0 15 300 demo_vblock = Inr m' \<and> vb_length m' = 15 \<and> vb_length (entries (map snd m')) = 20"
  using vb_length_after_cut [of 20 "\<lparr>vs_offset = 0, vs_length = 10, vs_disk = 100\<rparr>"
      "\<lparr>vs_offset = 10, vs_length = 10, vs_disk = 200\<rparr>" 15 300] demo_vblock_wf
  by (simp add: demo_vblock_def)

text \<open>The offset map of a block read back from its encoding is the map again, keyed by the
  offsets of its slices, whatever keys it had; the encoding has the announced size.\<close>

theorem vblock_roundtrip:
  assumes "e_buffer E" and "vb_wf b (entries (map snd m))"
  shows "unpack_vblock E [] (pack_vblock E m @ r) = Some (entries (map snd m), r) \<and>
     length (pack_vblock E m) = vb_pack_size m"
  using e_buffer.unpack_pack_vblock [OF assms(1)] e_buffer.pack_vblock_length [OF assms(1)] assms(2)
  by (auto simp: vb_wf_def)

theorem vblock_roundtrip_witness:
  "unpack_vblock be_codec [] (pack_vblock be_codec demo_vblock @ [7]) = Some (demo_vblock, [7])"
  using vblock_roundtrip [OF be.e_buffer_axioms, of 20 demo_vblock "[7]"] demo_vblock_wf
  by (metis vb_wf_def)

section \<open>set_len\<close>

lemma vb_set_len_tiles:
  assumes "vtiles a (Q @ [s]) b" and "b < u64_bound"
  shows "vb_set_len len (entries (Q @ [s])) =
     (if len \<le> b \<and> (Q = [] \<or> vs_offset s < len)
      then Inr (entries Q @ [(vs_offset s, s\<lparr>vs_length := u64_sub len (vs_offset s)\<rparr>)])
      else Inl Undefined)"
  using assms
proof (induction Q arbitrary: a)
  case Nil
  then show ?case by (auto simp: u64_simps)
next
  case (Cons t Q)
  have c: "vtiles (a + vs_length t) (Q @ [s]) b" and t: "vs_offset t = a" "0 < vs_length t"
    using Cons.prems by auto
  have le: "a + vs_length t \<le> vs_offset s" "vs_offset s < b" using vtiles_slices [OF c, of s] by auto
  have "u64_add a (vs_length t) = a + vs_length t" using le Cons.prems(2) by (simp add: u64_simps)
  moreover have "vs_offset s = a + vs_length t" if "Q = []" using c that by simp
  ultimately show ?case using Cons.IH [OF c Cons.prems(2)] t le Cons.prems(2) by (cases Q) auto
qed

lemma vb_set_len_aux:
  assumes wf: "vb_wf b (entries (Q @ [s]))"
  shows "((\<exists>m'. vb_set_len len (entries (Q @ [s])) = Inr m') \<longleftrightarrow>
       len \<le> b \<and> (Q = [] \<or> vs_offset s < len)) \<and>
    (0 < len \<and> len \<le> b \<and> (Q = [] \<or> vs_offset s < len) \<longrightarrow>
       (\<exists>m'. vb_set_len len (entries (Q @ [s])) = Inr m' \<and> vb_wf len m' \<and> vb_length m' = len \<and>
          (\<forall>x < len. vb_lookup m' x = vb_lookup (entries (Q @ [s])) x)))"
proof -
  have t: "vtiles 0 (Q @ [s]) b" and b: "b < u64_bound" using wf by (simp_all add: vb_wf_def)
  have s: "vs_offset s + vs_length s = b" using t by (auto simp: vtiles_append)
  note eq = vb_set_len_tiles [OF t b, of len]
  show ?thesis
  proof (cases "0 < len \<and> len \<le> b \<and> (Q = [] \<or> vs_offset s < len)")
    case True
    then have k: "vs_offset s < len" "len \<le> b" using t by auto
    let ?s = "s\<lparr>vs_length := len - vs_offset s\<rparr>"
    have "v_left (Q @ [s]) len (Q @ [?s])" using v_left_cut [OF t k(1)] k(2) s by simp
    then have "vb_wf len (entries (Q @ [?s]))" "\<forall>x < len. vb_lookup (entries (Q @ [?s])) x = vb_lookup (entries (Q @ [s])) x"
      using k b by (simp_all add: v_left_def vb_wf_def vb_lookup_def)
    moreover have "vb_length (entries (Q @ [?s])) = len" using k b by (simp add: vb_length_def u64_simps)
    ultimately show ?thesis using eq k by (simp add: u64_simps)
  next
    case False
    with eq show ?thesis by auto
  qed
qed

text \<open>\<open>set_len\<close> on a non-empty block has a defined result exactly when the new length ends in the
  last slice (or the block is one slice). Then the block has the new length and keeps every byte
  before it. Otherwise the iterator runs past the end, or is used after its element was erased.\<close>

theorem vb_set_len_defined:
  assumes wf: "vb_wf b (entries (Q @ [s]))"
  shows "((\<exists>m'. vb_set_len len (entries (Q @ [s])) = Inr m') \<longleftrightarrow>
       len \<le> b \<and> (Q = [] \<or> vs_offset s < len)) \<and>
    (0 < len \<and> len \<le> b \<and> (Q = [] \<or> vs_offset s < len) \<longrightarrow>
       (\<exists>m'. vb_set_len len (entries (Q @ [s])) = Inr m' \<and> vb_wf len m' \<and> vb_length m' = len \<and>
          (\<forall>x < len. vb_lookup m' x = vb_lookup (entries (Q @ [s])) x)))"
  using vb_set_len_aux [OF wf] .

theorem vb_set_len_defined_witness:
  "(\<exists>m'. vb_set_len 14 demo_vblock = Inr m' \<and> vb_length m' = 14) \<and> vb_set_len 5 demo_vblock = Inl Undefined"
  using vb_set_len_defined [of 20 "[\<lparr>vs_offset = 0, vs_length = 10, vs_disk = 100\<rparr>]"
      "\<lparr>vs_offset = 10, vs_length = 10, vs_disk = 200\<rparr>" 14] demo_vblock_wf
  by (auto simp: demo_vblock_def u64_simps)

end
