(* ===== verification/Blockmap.thy ===== *)
theory Blockmap
  imports VblockProps
begin

text \<open>
  \<open>blockstore/disk.{h,cc}\<close>, \<open>blockstore/blockmap.{h,cc}\<close> and
  \<open>daemon/block_storage_manager.cc\<close>: the storage of one server. Block data goes to a log that
  only grows (the mapped backing file, here a byte list); the offset map of each block goes to
  LevelDB under the number of the block.

  LevelDB is not part of the repository: \<open>kv_get\<close> and \<open>kv_put\<close> are parameters, \<open>None\<close> being a
  status that is not ok, and the locale \<open>kv_store\<close> states that a successful write is read back and
  leaves other keys alone. Opening the database and mapping the backing file
  (\<open>blockmap::setup\<close>) are in the theory \<open>StoreSetup\<close>; the state they leave is \<open>blockmap_new\<close>.
\<close>

section \<open>The log\<close>

record disk =
  d_log :: "byte list"
  d_log_len :: u64
  d_log_offset :: u64

definition disk_new :: "byte list \<Rightarrow> u64 \<Rightarrow> disk" where
  "disk_new log log_len = \<lparr>d_log = log, d_log_len = log_len, d_log_offset = 0\<rparr>"

text \<open>The status, the offset the data was given, and the log: the offset advances in any case.\<close>

definition disk_write :: "byte list \<Rightarrow> disk \<Rightarrow> (int \<times> u64 \<times> disk) res" where
  "disk_write data dk =
     (let sz = length data;
          off = d_log_offset dk;
          dk1 = dk\<lparr>d_log_offset := u64_add off sz\<rparr>
      in if u64_add off sz > d_log_len dk then Inr (-1, off, dk1)
         else if off + sz > length (d_log dk) then Inl Undefined
         else Inr (int sz, off, dk1\<lparr>d_log := take off (d_log dk) @ data @ drop (off + sz) (d_log dk)\<rparr>))"

definition disk_read :: "u64 \<Rightarrow> u64 \<Rightarrow> disk \<Rightarrow> (u64 \<times> byte list) res" where
  "disk_read off len dk =
     (if off + len > length (d_log dk) then Inl Undefined
      else Inr (len, take len (drop off (d_log dk))))"

section \<open>The block map\<close>

record 'db kv_ops =
  kv_get :: "'db \<Rightarrow> u64 \<Rightarrow> byte list option"
  kv_put :: "'db \<Rightarrow> u64 \<Rightarrow> byte list \<Rightarrow> 'db option"

locale kv_store =
  fixes K :: "'db kv_ops"
  assumes get_put: "kv_put K db k v = Some db' \<Longrightarrow> kv_get K db' = (kv_get K db)(k \<mapsto> v)"

record 'db blockmap =
  bm_db :: 'db
  bm_disk :: disk
  bm_block_id :: u64

definition blockmap_new :: "'db \<Rightarrow> disk \<Rightarrow> 'db blockmap" where
  "blockmap_new db dk = \<lparr>bm_db = db, bm_disk = dk, bm_block_id = 0\<rparr>"

definition read_offset_map ::
  "'db kv_ops \<Rightarrow> e_codec \<Rightarrow> u64 \<Rightarrow> vblock \<Rightarrow> 'db blockmap \<Rightarrow> (int \<times> vblock) res" where
  "read_offset_map K E bid vb bm =
     (case kv_get K (bm_db bm) bid of
        None \<Rightarrow> Inr (-1, vb)
      | Some rbacking \<Rightarrow>
          (case unpack_vblock E vb rbacking of
             None \<Rightarrow> Inl Undefined
           | Some (vb', _) \<Rightarrow> Inr (0, vb')))"

text \<open>The function has no \<open>return\<close>: whatever it did, its result is not defined. Nothing calls it.\<close>

definition update_offset_map ::
  "'db kv_ops \<Rightarrow> e_codec \<Rightarrow> u64 \<Rightarrow> vblock \<Rightarrow> u64 \<Rightarrow> u64 \<Rightarrow> u64 \<Rightarrow> 'db blockmap \<Rightarrow> (int \<times> vblock) res" where
  "update_offset_map K E bid vb offset len disk_offset bm =
     rbind (read_offset_map K E bid vb bm) (\<lambda>(_, vb1).
     rbind (vb_update offset len disk_offset vb1) (\<lambda>_. Inl Undefined))"

definition write_offset_map ::
  "'db kv_ops \<Rightarrow> e_codec \<Rightarrow> u64 \<Rightarrow> vblock \<Rightarrow> 'db blockmap \<Rightarrow> int \<times> 'db blockmap" where
  "write_offset_map K E bid vb bm =
     (case kv_put K (bm_db bm) bid (pack_vblock E vb) of
        None \<Rightarrow> (-1, bm)
      | Some db' \<Rightarrow> (0, bm\<lparr>bm_db := db'\<rparr>))"

text \<open>The status, the block number (an out parameter) and the new state.\<close>

definition bm_write ::
  "'db kv_ops \<Rightarrow> e_codec \<Rightarrow> byte list \<Rightarrow> u64 \<Rightarrow> 'db blockmap \<Rightarrow> (int \<times> u64 \<times> 'db blockmap) res" where
  "bm_write K E data bid bm =
     rbind (disk_write data (bm_disk bm)) (\<lambda>(status, disk_offset, dk).
       let bm1 = bm\<lparr>bm_disk := dk\<rparr>
       in if status < 0 then Inr (status, bid, bm1)
          else
            (let bid' = bm_block_id bm1;
                 bm2 = bm1\<lparr>bm_block_id := u64_add bid' 1\<rparr>
             in rbind (vb_update 0 (length data) disk_offset []) (\<lambda>vb.
                  let (st, bm3) = write_offset_map K E bid' vb bm2
                  in if st < 0 then Inr (-1, bid', bm3) else Inr (status, bid', bm3))))"

definition bm_update ::
  "'db kv_ops \<Rightarrow> e_codec \<Rightarrow> byte list \<Rightarrow> u64 \<Rightarrow> u64 \<Rightarrow> u64 \<Rightarrow> 'db blockmap \<Rightarrow>
     (int \<times> u64 \<times> u64 \<times> 'db blockmap) res" where
  "bm_update K E data offset bid block_len bm =
     rbind (disk_write data (bm_disk bm)) (\<lambda>(status, disk_offset, dk).
       let bm1 = bm\<lparr>bm_disk := dk\<rparr>
       in if status < 0 then Inr (status, bid, block_len, bm1)
          else
            rbind (read_offset_map K E bid [] bm1) (\<lambda>(st, vb).
              if st < 0 then Inr (-1, bid, block_len, bm1)
              else
                (let bid' = bm_block_id bm1;
                     bm2 = bm1\<lparr>bm_block_id := u64_add bid' 1\<rparr>
                 in rbind (vb_update offset (length data) disk_offset vb) (\<lambda>vb1.
                      let (st, bm3) = write_offset_map K E bid' vb1 bm2
                      in if st < 0 then Inr (-1, bid', vb_length vb1, bm3)
                         else Inr (status, bid', vb_length vb1, bm3)))))"

text \<open>
  The loop of \<open>read\<close>, over the slices from the iterator on: what is left to read and the bytes
  put into the buffer so far. A round with the iterator at \<open>end()\<close> is undefined.
\<close>

fun bm_read_loop :: "disk \<Rightarrow> bool \<Rightarrow> u64 \<Rightarrow> u64 \<Rightarrow> byte list \<Rightarrow> vblock \<Rightarrow> (u64 \<times> byte list) res" where
  "bm_read_loop dk first offset rem out [] = Inl Undefined"
| "bm_read_loop dk first offset rem out ((k, s) # it) =
     (if vs_offset s > u64_sub (u64_add offset rem) 1 then Inr (rem, out)
      else
        (let skip = u64_sub offset (vs_offset s);
             (offset1, disk_offset, disk_len) =
               (if first then (offset, u64_add (vs_disk s) skip, u64_sub (vs_length s) skip)
                else if vs_offset s > offset then (vs_offset s, vs_disk s, vs_length s)
                else (offset, vs_disk s, vs_length s));
             disk_len1 = (if disk_len > rem then rem else disk_len)
         in rbind (disk_read disk_offset disk_len1 dk) (\<lambda>(status, bytes).
              let rem1 = u64_sub rem status
              in if rem1 > 0
                 then bm_read_loop dk False (u64_add offset1 status) rem1 (out @ bytes) it
                 else Inr (rem1, out @ bytes))))"

text \<open>
  The status and the bytes read. The test of the result of \<open>get_slices\<close> compares an unsigned
  variable with 0, so on -1 the code goes on with an iterator that was never set.
\<close>

definition bm_read ::
  "'db kv_ops \<Rightarrow> e_codec \<Rightarrow> u64 \<Rightarrow> u64 \<Rightarrow> u64 \<Rightarrow> 'db blockmap \<Rightarrow> (int \<times> byte list) res" where
  "bm_read K E bid offset len bm =
     rbind (read_offset_map K E bid [] bm) (\<lambda>(st, vb).
       if st < 0 then Inr (-1, [])
       else rbind (vb_get_slices offset len vb) (\<lambda>slices.
              case slices of
                None \<Rightarrow> Inl Undefined
              | Some it \<Rightarrow>
                  rbind (bm_read_loop (bm_disk bm) True offset len [] it) (\<lambda>(rem, out).
                    Inr (int (u64_sub len rem), out))))"

definition bm_truncate ::
  "'db kv_ops \<Rightarrow> e_codec \<Rightarrow> u64 \<Rightarrow> u64 \<Rightarrow> 'db blockmap \<Rightarrow> (int \<times> u64 \<times> 'db blockmap) res" where
  "bm_truncate K E bid len bm =
     rbind (read_offset_map K E bid [] bm) (\<lambda>(st, vb).
       if st < 0 then Inr (-1, bid, bm)
       else
         (let bid' = bm_block_id bm;
              bm1 = bm\<lparr>bm_block_id := u64_add bid' 1\<rparr>
          in rbind (vb_set_len len vb) (\<lambda>vb1.
               let (st, bm2) = write_offset_map K E bid' vb1 bm1
               in if st < 0 then Inr (-1, bid', bm2) else Inr (int len, bid', bm2))))"

section \<open>The block storage manager\<close>

record 'db block_storage_manager =
  bsm_prefix :: u64
  bsm_last_block_num :: u64
  bsm_blockmap :: "'db blockmap"

definition bsm_setup :: "u64 \<Rightarrow> 'db blockmap \<Rightarrow> 'db block_storage_manager" where
  "bsm_setup sid bm = \<lparr>bsm_prefix = sid, bsm_last_block_num = 0, bsm_blockmap = bm\<rparr>"

definition write_block ::
  "'db kv_ops \<Rightarrow> e_codec \<Rightarrow> byte list \<Rightarrow> u64 \<Rightarrow> u64 \<Rightarrow> 'db block_storage_manager \<Rightarrow>
     (int \<times> u64 \<times> 'db block_storage_manager) res" where
  "write_block K E data sid bid b =
     rbind (bm_write K E data bid (bsm_blockmap b)) (\<lambda>(st, bid', bm). Inr (st, bid', b\<lparr>bsm_blockmap := bm\<rparr>))"

text \<open>The parameter \<open>offset\<close> has 32 bits.\<close>

definition update_block ::
  "'db kv_ops \<Rightarrow> e_codec \<Rightarrow> byte list \<Rightarrow> u64 \<Rightarrow> u64 \<Rightarrow> u64 \<Rightarrow> u64 \<Rightarrow> 'db block_storage_manager \<Rightarrow>
     (int \<times> u64 \<times> u64 \<times> 'db block_storage_manager) res" where
  "update_block K E data offset sid bid block_len b =
     rbind (bm_update K E data (offset mod 4294967296) bid block_len (bsm_blockmap b))
       (\<lambda>(st, bid', bl, bm). Inr (st, bid', bl, b\<lparr>bsm_blockmap := bm\<rparr>))"

definition read_block ::
  "'db kv_ops \<Rightarrow> e_codec \<Rightarrow> u64 \<Rightarrow> u64 \<Rightarrow> u64 \<Rightarrow> 'db block_storage_manager \<Rightarrow> (int \<times> byte list) res" where
  "read_block K E sid bid data_sz b = bm_read K E bid 0 data_sz (bsm_blockmap b)"

definition truncate_block ::
  "'db kv_ops \<Rightarrow> e_codec \<Rightarrow> u64 \<Rightarrow> u64 \<Rightarrow> u64 \<Rightarrow> 'db block_storage_manager \<Rightarrow>
     (int \<times> u64 \<times> 'db block_storage_manager) res" where
  "truncate_block K E sid bid len b =
     rbind (bm_truncate K E bid len (bsm_blockmap b)) (\<lambda>(st, bid', bm). Inr (st, bid', b\<lparr>bsm_blockmap := bm\<rparr>))"

end
