(* ===== verification/BlockmapProps.thy ===== *)
theory BlockmapProps
  imports Blockmap
begin

text \<open>
  Correctness of the block store. Its abstract state is a map from block numbers to the bytes of
  the blocks (\<open>block_bytes\<close>); a write adds a block, an update adds the overlaid block, a truncate
  adds the prefix, a read returns the bytes, and no operation changes a block that exists.
\<close>

section \<open>Abstraction and invariant\<close>

definition log_bytes :: "byte list \<Rightarrow> vblock \<Rightarrow> u64 \<Rightarrow> u64 \<Rightarrow> byte list" where
  "log_bytes log m a b = map (\<lambda>x. log ! the (vb_lookup m x)) [a..<b]"

definition block_map :: "'db kv_ops \<Rightarrow> e_codec \<Rightarrow> 'db blockmap \<Rightarrow> u64 \<Rightarrow> vblock option" where
  "block_map K E bm bid =
     (case kv_get K (bm_db bm) bid of None \<Rightarrow> None | Some v \<Rightarrow> map_option fst (unpack_vblock E [] v))"

definition block_bytes :: "'db kv_ops \<Rightarrow> e_codec \<Rightarrow> 'db blockmap \<Rightarrow> u64 \<Rightarrow> byte list option" where
  "block_bytes K E bm bid =
     map_option (\<lambda>m. log_bytes (d_log (bm_disk bm)) m 0 (vb_length m)) (block_map K E bm bid)"

definition disk_wf :: "disk \<Rightarrow> bool" where
  "disk_wf dk \<longleftrightarrow> d_log_len dk = length (d_log dk) \<and> length (d_log dk) < u64_bound"

definition on_log :: "disk \<Rightarrow> u64 \<Rightarrow> vblock \<Rightarrow> bool" where
  "on_log dk b m \<longleftrightarrow>
     (\<forall>x < b. \<exists>p. vb_lookup m x = Some p \<and> p < d_log_offset dk \<and> p < length (d_log dk))"

text \<open>A well-formed block: its map tiles it, and lies in the part of the log already written.\<close>

definition stored :: "'db kv_ops \<Rightarrow> e_codec \<Rightarrow> 'db blockmap \<Rightarrow> u64 \<Rightarrow> vblock \<Rightarrow> bool" where
  "stored K E bm bid m \<longleftrightarrow> block_map K E bm bid = Some m \<and> m \<noteq> [] \<and>
     vb_wf (vb_length m) m \<and> on_log (bm_disk bm) (vb_length m) m"

definition bm_ok :: "'db kv_ops \<Rightarrow> 'db blockmap \<Rightarrow> bool" where
  "bm_ok K bm \<longleftrightarrow> disk_wf (bm_disk bm) \<and>
     (\<forall>bid. kv_get K (bm_db bm) bid \<noteq> None \<longrightarrow> bid < bm_block_id bm)"

lemma vb_length_wf: "vb_wf b m \<Longrightarrow> vb_length m = b"
proof (cases "m = []")
  case False
  assume wf: "vb_wf b m"
  then obtain ss where ss: "m = entries ss" "vtiles 0 ss b" "b < u64_bound" by (auto simp: vb_wf_entries)
  with False obtain Q s where "ss = Q @ [s]" by (metis entries_simps(1) rev_exhaust)
  with ss show ?thesis by (auto simp: vb_length_def vtiles_append u64_simps)
qed (simp add: vb_length_def vb_wf_def)

section \<open>The log only grows\<close>

lemma disk_write_eq:
  assumes "disk_wf dk" and "d_log_offset dk + length data < u64_bound"
  shows "disk_write data dk =
     (if d_log_offset dk + length data > length (d_log dk)
      then Inr (-1, d_log_offset dk, dk\<lparr>d_log_offset := d_log_offset dk + length data\<rparr>)
      else Inr (int (length data), d_log_offset dk,
        dk\<lparr>d_log_offset := d_log_offset dk + length data,
           d_log := take (d_log_offset dk) (d_log dk) @ data @
             drop (d_log_offset dk + length data) (d_log dk)\<rparr>))"
  using assms by (simp add: disk_write_def disk_wf_def Let_def u64_simps)

lemma disk_write_facts:
  assumes "disk_wf dk" and "d_log_offset dk + length data < u64_bound"
    and "disk_write data dk = Inr (st, off, dk')"
  shows "disk_wf dk'" and "length (d_log dk') = length (d_log dk)" and "off = d_log_offset dk"
    and "d_log_offset dk' = d_log_offset dk + length data"
    and "\<And>p. p < d_log_offset dk \<Longrightarrow> p < length (d_log dk) \<Longrightarrow> d_log dk' ! p = d_log dk ! p"
    and "st \<ge> 0 \<Longrightarrow> st = int (length data) \<and> off + length data \<le> length (d_log dk) \<and>
       (\<forall>i < length data. d_log dk' ! (off + i) = data ! i)"
    and "st < 0 \<Longrightarrow> st = -1 \<and> off + length data > length (d_log dk)"
  using assms(3) unfolding disk_write_eq [OF assms(1,2)]
  using assms(1) by (auto simp: disk_wf_def nth_append split: if_splits)

lemma on_log_mono:
  assumes "on_log dk b m" and "length (d_log dk') = length (d_log dk)" and "d_log_offset dk \<le> d_log_offset dk'"
  shows "on_log dk' b m"
  using assms unfolding on_log_def by fastforce

lemma log_bytes_same:
  assumes "on_log dk b m"
    and "\<And>p. p < d_log_offset dk \<Longrightarrow> p < length (d_log dk) \<Longrightarrow> d_log dk' ! p = d_log dk ! p"
  shows "log_bytes (d_log dk') m 0 b = log_bytes (d_log dk) m 0 b"
  using assms unfolding log_bytes_def on_log_def by fastforce

section \<open>Reading a block\<close>

lemma disk_read_slice:
  assumes "on_log dk b m" and "a + l \<le> b" and "\<And>x. a \<le> x \<Longrightarrow> x < a + l \<Longrightarrow> vb_lookup m x = Some (d + (x - a))"
    and "0 < l"
  shows "disk_read d l dk = Inr (l, log_bytes (d_log dk) m a (a + l))"
proof -
  have "vb_lookup m (a + l - 1) = Some (d + (l - 1))" using assms(3) [of "a + l - 1"] assms(4) by simp
  then have "d + (l - 1) < length (d_log dk)"
    using assms(1,2,4) unfolding on_log_def by (metis diff_less less_numeral_extra(1) option.inject
        order_less_le_trans trans_less_add2 zero_less_diff add_gr_0)
  then have "d + l \<le> length (d_log dk)" using assms(4) by simp
  moreover from this have "take l (drop d (d_log dk)) = log_bytes (d_log dk) m a (a + l)"
    using assms(3) by (auto simp: log_bytes_def intro!: nth_equalityI)
  ultimately show ?thesis by (simp add: disk_read_def)
qed

lemma log_bytes_append: "a \<le> b \<Longrightarrow> b \<le> c \<Longrightarrow> log_bytes log m a b @ log_bytes log m b c = log_bytes log m a c"
  using upt_add_eq_append [of a b "c - b"] by (simp add: log_bytes_def)

lemma bm_read_loop_tiles:
  assumes "vtiles a S b" and "b < u64_bound" and "0 < rem" and "on_log dk b m"
    and "first \<Longrightarrow> S \<noteq> []"
    and "\<And>x. a \<le> x \<Longrightarrow> x < b \<Longrightarrow> vb_lookup m x = vs_lookup S x" and "a + rem < u64_bound"
  shows "bm_read_loop dk first a rem out (entries S) =
     (if a + rem \<le> b then Inr (0, out @ log_bytes (d_log dk) m a (a + rem)) else Inl Undefined)"
  using assms
proof (induction S arbitrary: a rem out first)
  case Nil
  then show ?case by simp
next
  case (Cons s S)
  have t: "vtiles (a + vs_length s) S b" and s: "vs_offset s = a" "0 < vs_length s"
      "vs_disk s + vs_length s < u64_bound"
    using Cons.prems(1) by auto
  have le: "a + vs_length s \<le> b" using vtiles_le [OF t] .
  define l where "l = min (vs_length s) rem"
  have l: "0 < l" "a + l \<le> b" "l \<le> vs_length s" "l \<le> rem" using s le Cons.prems(3) by (auto simp: l_def)
  have lk: "vb_lookup m x = Some (vs_disk s + (x - a))" if "a \<le> x" "x < a + l" for x
    using Cons.prems(6) [of x] that l s le by simp
  have rd: "disk_read (vs_disk s) l dk = Inr (l, log_bytes (d_log dk) m a (a + l))"
    using disk_read_slice [OF Cons.prems(4) l(2) lk l(1)] by simp
  have nb: "\<not> a > u64_sub (u64_add a rem) 1" using Cons.prems(3,7) by (simp add: u64_simps)
  have dl: "(if vs_length s > rem then rem else vs_length s) = l" by (auto simp: l_def)
  have step: "bm_read_loop dk first a rem out (entries (s # S)) =
      (if rem - l > 0 then bm_read_loop dk False (a + l) (rem - l) (out @ log_bytes (d_log dk) m a (a + l)) (entries S)
       else Inr (rem - l, out @ log_bytes (d_log dk) m a (a + l)))"
    using nb rd s l le Cons.prems(2) dl by (cases "l = rem") (simp_all add: u64_simps Let_def)
  show ?case
  proof (cases "rem \<le> vs_length s")
    case True
    then show ?thesis using step le by (simp add: l_def)
  next
    case False
    then have lv: "l = vs_length s" and r: "0 < rem - l" by (simp_all add: l_def)
    have "vb_lookup m x = vs_lookup S x" if "a + l \<le> x" "x < b" for x
      using Cons.prems(6) [of x] that s lv by simp
    then have "bm_read_loop dk False (a + l) (rem - l) (out @ log_bytes (d_log dk) m a (a + l)) (entries S) =
      (if a + rem \<le> b then Inr (0, (out @ log_bytes (d_log dk) m a (a + l)) @ log_bytes (d_log dk) m (a + l) (a + rem))
       else Inl Undefined)"
      using Cons.IH [of "a + l" "rem - l" False "out @ log_bytes (d_log dk) m a (a + l)"] t r lv Cons.prems(2,4,7) False
      by simp
    then show ?thesis using step r log_bytes_append [of a "a + l" "a + rem"] l by simp
  qed
qed

lemma read_offset_map_stored:
  "block_map K E bm bid = Some m \<Longrightarrow> read_offset_map K E bid [] bm = Inr (0, m)"
  by (auto simp: block_map_def read_offset_map_def split: option.splits)

lemma bm_read_stored:
  assumes st: "stored K E bm bid m" and len: "0 < len" "len < u64_bound"
  shows "bm_read K E bid 0 len bm =
     (if len \<le> vb_length m then Inr (int len, log_bytes (d_log (bm_disk bm)) m 0 len) else Inl Undefined)"
proof -
  have wf: "vb_wf (vb_length m) m" and ne: "m \<noteq> []" and ol: "on_log (bm_disk bm) (vb_length m) m"
    and bm: "block_map K E bm bid = Some m"
    using st by (simp_all add: stored_def)
  from wf obtain ss where ss: "m = entries ss" "vtiles 0 ss (vb_length m)" "vb_length m < u64_bound"
    by (auto simp: vb_wf_entries)
  with ne obtain s S where S: "ss = s # S" by (cases ss) auto
  then have "lower_bound 0 m = m" by (simp add: lower_bound_def ss(1))
  then have "vb_get_slices 0 len m = Inr (Some m)"
    using ss(2) S unfolding ss(1) by (simp add: vb_get_slices_def)
  moreover have "bm_read_loop (bm_disk bm) True 0 len [] m =
      (if len \<le> vb_length m then Inr (0, log_bytes (d_log (bm_disk bm)) m 0 len) else Inl Undefined)"
    using bm_read_loop_tiles [OF ss(2,3) len(1) ol, of True "[]"] ss S len
    by (simp add: vb_lookup_def)
  ultimately show ?thesis
    using read_offset_map_stored [OF bm] by (simp add: bm_read_def u64_simps)
qed

section \<open>One operation\<close>

lemma stored_same:
  assumes "stored K E bm bid m" and "kv_get K (bm_db bm') bid = kv_get K (bm_db bm) bid"
    and "length (d_log (bm_disk bm')) = length (d_log (bm_disk bm))"
    and "d_log_offset (bm_disk bm) \<le> d_log_offset (bm_disk bm')"
    and "\<And>p. p < d_log_offset (bm_disk bm) \<Longrightarrow> p < length (d_log (bm_disk bm)) \<Longrightarrow>
       d_log (bm_disk bm') ! p = d_log (bm_disk bm) ! p"
  shows "stored K E bm' bid m \<and> block_bytes K E bm' bid = block_bytes K E bm bid"
proof -
  have "block_map K E bm' bid = block_map K E bm bid" using assms(2) by (simp add: block_map_def)
  moreover have "on_log (bm_disk bm') (vb_length m) m"
    using assms(1) on_log_mono [OF _ assms(3,4)] by (simp add: stored_def)
  moreover have "log_bytes (d_log (bm_disk bm')) m 0 (vb_length m) = log_bytes (d_log (bm_disk bm)) m 0 (vb_length m)"
    using assms(1) log_bytes_same [OF _ assms(5)] by (simp add: stored_def)
  ultimately show ?thesis using assms(1) by (simp add: stored_def block_bytes_def)
qed

text \<open>The states one operation can leave: it may have used up a number and log space, put one block
  under a fresh number, and changed the log only beyond its old end.\<close>

definition bm_grows :: "'db kv_ops \<Rightarrow> 'db blockmap \<Rightarrow> 'db blockmap \<Rightarrow> bool" where
  "bm_grows K bm bm' \<longleftrightarrow> disk_wf (bm_disk bm') \<and> bm_block_id bm \<le> bm_block_id bm' \<and>
     length (d_log (bm_disk bm')) = length (d_log (bm_disk bm)) \<and>
     d_log_offset (bm_disk bm) \<le> d_log_offset (bm_disk bm') \<and>
     (\<forall>p. p < d_log_offset (bm_disk bm) \<and> p < length (d_log (bm_disk bm)) \<longrightarrow>
        d_log (bm_disk bm') ! p = d_log (bm_disk bm) ! p) \<and>
     (kv_get K (bm_db bm') = kv_get K (bm_db bm) \<or>
        (bm_block_id bm < bm_block_id bm' \<and>
         (\<exists>v. kv_get K (bm_db bm') = (kv_get K (bm_db bm))(bm_block_id bm \<mapsto> v))))"

lemma bm_grows_ok: "bm_ok K bm \<Longrightarrow> bm_grows K bm bm' \<Longrightarrow> bm_ok K bm'"
  unfolding bm_ok_def bm_grows_def
  by (elim conjE disjE exE) (force split: if_splits)+

lemma bm_grows_stored:
  assumes ok: "bm_ok K bm" and g: "bm_grows K bm bm'" and st: "stored K E bm bid m"
  shows "stored K E bm' bid m \<and> block_bytes K E bm' bid = block_bytes K E bm bid"
proof (rule stored_same [OF st])
  have "kv_get K (bm_db bm) bid \<noteq> None" using st by (auto simp: stored_def block_map_def split: option.splits)
  then have "bid < bm_block_id bm" using ok by (simp add: bm_ok_def)
  then show "kv_get K (bm_db bm') bid = kv_get K (bm_db bm) bid"
    using g by (auto simp: bm_grows_def)
qed (use g in \<open>auto simp: bm_grows_def\<close>)

text \<open>How an operation can return.\<close>

lemma bm_write_cases [consumes 1, case_names full commit]:
  assumes w: "bm_write K E data bid bm = Inr (st, bid', bm')"
  obtains o0 dk where "disk_write data (bm_disk bm) = Inr (st, o0, dk)" "st < 0" "bid' = bid"
      "bm' = bm\<lparr>bm_disk := dk\<rparr>"
  | st0 o0 dk vb st1 where "disk_write data (bm_disk bm) = Inr (st0, o0, dk)" "0 \<le> st0"
      "vb_update 0 (length data) o0 [] = Inr vb"
      "write_offset_map K E (bm_block_id bm) vb
         (bm\<lparr>bm_disk := dk, bm_block_id := u64_add (bm_block_id bm) 1\<rparr>) = (st1, bm')"
      "bid' = bm_block_id bm" "st = (if st1 < 0 then -1 else st0)"
proof (cases "disk_write data (bm_disk bm)")
  case (Inr p)
  obtain st0 o0 dk where p: "p = (st0, o0, dk)" by (cases p)
  show thesis
  proof (cases "st0 < 0")
    case True
    with w Inr p that(1) show thesis by (simp add: bm_write_def)
  next
    case False
    then obtain vb where vb: "vb_update 0 (length data) o0 [] = Inr vb"
      using w Inr p by (cases "vb_update 0 (length data) o0 []") (auto simp: bm_write_def Let_def)
    obtain st1 bm3 where wm: "write_offset_map K E (bm_block_id bm) vb
         (bm\<lparr>bm_disk := dk, bm_block_id := u64_add (bm_block_id bm) 1\<rparr>) = (st1, bm3)" by fastforce
    have "st = (if st1 < 0 then -1 else st0)" "bid' = bm_block_id bm" "bm' = bm3"
      using w Inr p False vb wm by (simp_all add: bm_write_def Let_def split: if_splits)
    with Inr p False vb wm show thesis by (intro that(2) [of st0 o0 dk vb st1]) simp_all
  qed
qed (use w in \<open>simp add: bm_write_def\<close>)

lemma bm_update_cases [consumes 1, case_names fail commit]:
  assumes w: "bm_update K E data offset bid bl bm = Inr (st, bid', bl', bm')"
  obtains st0 o0 dk where "disk_write data (bm_disk bm) = Inr (st0, o0, dk)" "st < 0" "bid' = bid"
      "bm' = bm\<lparr>bm_disk := dk\<rparr>" "bl' = bl"
  | st0 o0 dk vb0 vb st1 where "disk_write data (bm_disk bm) = Inr (st0, o0, dk)" "0 \<le> st0"
      "block_map K E bm bid = Some vb0" "vb_update offset (length data) o0 vb0 = Inr vb"
      "write_offset_map K E (bm_block_id bm) vb
         (bm\<lparr>bm_disk := dk, bm_block_id := u64_add (bm_block_id bm) 1\<rparr>) = (st1, bm')"
      "bid' = bm_block_id bm" "bl' = vb_length vb" "st = (if st1 < 0 then -1 else st0)"
proof (cases "disk_write data (bm_disk bm)")
  case (Inr p)
  obtain st0 o0 dk where p: "p = (st0, o0, dk)" by (cases p)
  show thesis
  proof (cases "st0 < 0")
    case True
    with w Inr p that(1) show thesis by (simp add: bm_update_def)
  next
    case False
    show thesis
    proof (cases "kv_get K (bm_db bm) bid")
      case None
      with w Inr p False that(1) show thesis by (simp add: bm_update_def read_offset_map_def)
    next
      case (Some v)
      then obtain vb0 r where v: "unpack_vblock E [] v = Some (vb0, r)"
        using w Inr p False
        by (cases "unpack_vblock E [] v") (auto simp: bm_update_def read_offset_map_def)
      then have bmap: "block_map K E bm bid = Some vb0" using Some by (simp add: block_map_def)
      obtain vb where vb: "vb_update offset (length data) o0 vb0 = Inr vb"
        using w Inr p False Some v
        by (cases "vb_update offset (length data) o0 vb0")
          (auto simp: bm_update_def read_offset_map_def Let_def)
      obtain st1 bm3 where wm: "write_offset_map K E (bm_block_id bm) vb
         (bm\<lparr>bm_disk := dk, bm_block_id := u64_add (bm_block_id bm) 1\<rparr>) = (st1, bm3)" by fastforce
      have "st = (if st1 < 0 then -1 else st0)" "bid' = bm_block_id bm" "bm' = bm3" "bl' = vb_length vb"
        using w Inr p False Some v vb wm
        by (simp_all add: bm_update_def read_offset_map_def Let_def split: if_splits)
      with Inr p False bmap vb wm show thesis by (intro that(2) [of st0 o0 dk vb0 vb st1]) simp_all
    qed
  qed
qed (use w in \<open>simp add: bm_update_def\<close>)

lemma bm_truncate_cases [consumes 1, case_names absent commit]:
  assumes w: "bm_truncate K E bid len bm = Inr (st, bid', bm')"
  obtains "kv_get K (bm_db bm) bid = None" "st = -1" "bid' = bid" "bm' = bm"
  | vb0 vb st1 where "block_map K E bm bid = Some vb0" "vb_set_len len vb0 = Inr vb"
      "write_offset_map K E (bm_block_id bm) vb
         (bm\<lparr>bm_block_id := u64_add (bm_block_id bm) 1\<rparr>) = (st1, bm')"
      "bid' = bm_block_id bm" "st = (if st1 < 0 then -1 else int len)"
proof (cases "kv_get K (bm_db bm) bid")
  case None
  then have "st = -1 \<and> bid' = bid \<and> bm' = bm" using w by (simp add: bm_truncate_def read_offset_map_def)
  with None that(1) show thesis by blast
next
  case (Some v)
  then obtain vb0 r where v: "unpack_vblock E [] v = Some (vb0, r)"
    using w by (cases "unpack_vblock E [] v") (auto simp: bm_truncate_def read_offset_map_def)
  then have bmap: "block_map K E bm bid = Some vb0" using Some by (simp add: block_map_def)
  obtain vb where vb: "vb_set_len len vb0 = Inr vb"
    using w Some v
    by (cases "vb_set_len len vb0") (auto simp: bm_truncate_def read_offset_map_def Let_def)
  obtain st1 bm3 where wm: "write_offset_map K E (bm_block_id bm) vb
         (bm\<lparr>bm_block_id := u64_add (bm_block_id bm) 1\<rparr>) = (st1, bm3)" by fastforce
  have "st = (if st1 < 0 then -1 else int len)" "bid' = bm_block_id bm" "bm' = bm3"
    using w Some v vb wm
    by (simp_all add: bm_truncate_def read_offset_map_def Let_def split: if_splits)
  with bmap vb wm show thesis by (intro that(2) [of vb0 vb st1]) simp_all
qed

context kv_store
begin

lemma write_offset_map_cases:
  assumes "write_offset_map K E bid vb bm = (st, bm')"
  shows "(st = -1 \<and> bm' = bm) \<or>
     (st = 0 \<and> bm_disk bm' = bm_disk bm \<and> bm_block_id bm' = bm_block_id bm \<and>
      kv_get K (bm_db bm') = (kv_get K (bm_db bm))(bid \<mapsto> pack_vblock E vb))"
  using assms by (auto simp: write_offset_map_def get_put split: option.splits)

text \<open>Storing a map under the next number, after the log went from \<open>bm_disk bm\<close> to \<open>dk\<close>.\<close>

lemma commit_grows:
  assumes g: "bm_grows K bm (bm\<lparr>bm_disk := dk\<rparr>)" and next_id: "bm_block_id bm + 1 < u64_bound"
    and w: "write_offset_map K E (bm_block_id bm) vb
        (bm\<lparr>bm_disk := dk, bm_block_id := u64_add (bm_block_id bm) 1\<rparr>) = (st, bm')"
  shows "bm_grows K bm bm'" and "bm_disk bm' = dk"
    and "st = -1 \<and> kv_get K (bm_db bm') = kv_get K (bm_db bm) \<or>
      st = 0 \<and> kv_get K (bm_db bm') = (kv_get K (bm_db bm))(bm_block_id bm \<mapsto> pack_vblock E vb)"
  using write_offset_map_cases [OF w] g next_id by (auto simp: bm_grows_def u64_simps)

lemma disk_write_grows:
  assumes "bm_ok K bm" and "d_log_offset (bm_disk bm) + length data < u64_bound"
    and "disk_write data (bm_disk bm) = Inr (st, off, dk)"
  shows "bm_grows K bm (bm\<lparr>bm_disk := dk\<rparr>)"
  using disk_write_facts [OF _ assms(2,3)] assms(1) by (auto simp: bm_grows_def bm_ok_def)

lemma bm_write_grows:
  assumes ok: "bm_ok K bm" and off: "d_log_offset (bm_disk bm) + length data < u64_bound"
    and next_id: "bm_block_id bm + 1 < u64_bound" and w: "bm_write K E data bid bm = Inr (st, bid', bm')"
  shows "bm_grows K bm bm'"
  using w
proof (cases rule: bm_write_cases)
  case (full o0 dk)
  with disk_write_grows [OF ok off] show ?thesis by simp
next
  case (commit st0 o0 dk vb st1)
  then show ?thesis using commit_grows(1) [OF disk_write_grows [OF ok off commit(1)] next_id commit(4)] by simp
qed

lemma bm_update_grows:
  assumes ok: "bm_ok K bm" and off: "d_log_offset (bm_disk bm) + length data < u64_bound"
    and next_id: "bm_block_id bm + 1 < u64_bound"
    and w: "bm_update K E data offset bid bl bm = Inr (st, bid', bl', bm')"
  shows "bm_grows K bm bm'"
  using w
proof (cases rule: bm_update_cases)
  case (fail st0 o0 dk)
  with disk_write_grows [OF ok off] show ?thesis by simp
next
  case (commit st0 o0 dk vb0 vb st1)
  then show ?thesis using commit_grows(1) [OF disk_write_grows [OF ok off commit(1)] next_id commit(5)] by simp
qed

lemma bm_truncate_grows:
  assumes ok: "bm_ok K bm" and next_id: "bm_block_id bm + 1 < u64_bound"
    and w: "bm_truncate K E bid len bm = Inr (st, bid', bm')"
  shows "bm_grows K bm bm'"
proof -
  have g: "bm_grows K bm (bm\<lparr>bm_disk := bm_disk bm\<rparr>)"
    using ok by (simp add: bm_grows_def bm_ok_def)
  from w show ?thesis
  proof (cases rule: bm_truncate_cases)
    case absent
    with g show ?thesis by simp
  next
    case (commit vb0 vb st1)
    from commit_grows(1) [OF g next_id, of E vb st1 bm'] commit(3) show ?thesis by simp
  qed
qed

end

text \<open>Any sequence of operations, with any arguments.\<close>

inductive bm_step :: "'db kv_ops \<Rightarrow> e_codec \<Rightarrow> 'db blockmap \<Rightarrow> 'db blockmap \<Rightarrow> bool" for K E where
  step_write: "d_log_offset (bm_disk bm) + length data < u64_bound \<Longrightarrow> bm_block_id bm + 1 < u64_bound \<Longrightarrow>
    bm_write K E data bid bm = Inr (st, bid', bm') \<Longrightarrow> bm_step K E bm bm'"
| step_update: "d_log_offset (bm_disk bm) + length data < u64_bound \<Longrightarrow> bm_block_id bm + 1 < u64_bound \<Longrightarrow>
    bm_update K E data offset bid bl bm = Inr (st, bid', bl', bm') \<Longrightarrow> bm_step K E bm bm'"
| step_truncate: "bm_block_id bm + 1 < u64_bound \<Longrightarrow>
    bm_truncate K E bid len bm = Inr (st, bid', bm') \<Longrightarrow> bm_step K E bm bm'"

context kv_store
begin

lemma bm_step_grows: "bm_step K E bm bm' \<Longrightarrow> bm_ok K bm \<Longrightarrow> bm_grows K bm bm'"
  by (induction rule: bm_step.induct) (auto intro: bm_write_grows bm_update_grows bm_truncate_grows)

lemma bm_steps_stored:
  assumes "(bm_step K E)\<^sup>*\<^sup>* bm bm'" and "bm_ok K bm" and "stored K E bm bid m"
  shows "bm_ok K bm' \<and> stored K E bm' bid m \<and> block_bytes K E bm' bid = block_bytes K E bm bid"
  using assms
proof (induction rule: rtranclp_induct)
  case (step y z)
  then have y: "bm_ok K y" "stored K E y bid m" "block_bytes K E y bid = block_bytes K E bm bid" by auto
  have g: "bm_grows K y z" using bm_step_grows [OF step.hyps(2) y(1)] .
  from bm_grows_ok [OF y(1) g] bm_grows_stored [OF y(1) g y(2)] y(3) show ?case by simp
qed simp

end

section \<open>What the new block holds\<close>

definition overlay_bytes :: "u64 \<Rightarrow> byte list \<Rightarrow> byte list \<Rightarrow> byte list" where
  "overlay_bytes off data old = take off old @ data @ drop (off + length data) old"

lemma vb_lookup_entries [simp]: "vb_lookup (entries (map snd m)) = vb_lookup m"
  by (simp add: vb_lookup_def)

lemma log_bytes_entries [simp]: "log_bytes log (entries (map snd m)) = log_bytes log m"
  by (simp add: log_bytes_def fun_eq_iff)

lemma on_log_entries [simp]: "on_log dk b (entries (map snd m)) = on_log dk b m"
  by (simp add: on_log_def)

lemma length_log_bytes [simp]: "length (log_bytes log m a b) = b - a"
  by (simp add: log_bytes_def)

lemma take_log_bytes: "n \<le> b \<Longrightarrow> take n (log_bytes log m 0 b) = log_bytes log m 0 n"
  by (rule nth_equalityI) (simp_all add: log_bytes_def)

lemma log_after_update:
  assumes dk: "disk_wf dk" and fits: "d_log_offset dk + length data < u64_bound"
    and w: "disk_write data dk = Inr (st, o0, dk')" "0 \<le> st"
    and ol: "on_log dk b m" and off: "off \<le> b"
    and lk: "\<forall>x. vb_lookup vb x = (if off \<le> x \<and> x < off + length data then Some (o0 + (x - off)) else vb_lookup m x)"
  shows "on_log dk' (max b (off + length data)) vb"
    and "log_bytes (d_log dk') vb 0 (max b (off + length data)) =
      overlay_bytes off data (log_bytes (d_log dk) m 0 b)"
proof -
  note f = disk_write_facts [OF dk fits w(1)]
  have new: "o0 + length data \<le> length (d_log dk)" "\<And>i. i < length data \<Longrightarrow> d_log dk' ! (o0 + i) = data ! i"
    using f(6) w(2) by auto
  show "on_log dk' (max b (off + length data)) vb"
    unfolding on_log_def
  proof (intro allI impI)
    fix x assume x: "x < max b (off + length data)"
    show "\<exists>p. vb_lookup vb x = Some p \<and> p < d_log_offset dk' \<and> p < length (d_log dk')"
    proof (cases "off \<le> x \<and> x < off + length data")
      case True
      then have "o0 + (x - off) < o0 + length data" by auto
      then show ?thesis using True lk new f(2-4) by auto
    next
      case False
      then have "x < b" using x off by auto
      then obtain p where "vb_lookup m x = Some p" "p < d_log_offset dk" "p < length (d_log dk)"
        using ol unfolding on_log_def by blast
      then show ?thesis using False lk f(2,4) by auto
    qed
  qed
  show "log_bytes (d_log dk') vb 0 (max b (off + length data)) =
      overlay_bytes off data (log_bytes (d_log dk) m 0 b)"
  proof (rule nth_equalityI)
    show "length (log_bytes (d_log dk') vb 0 (max b (off + length data))) =
        length (overlay_bytes off data (log_bytes (d_log dk) m 0 b))"
      using off by (auto simp: overlay_bytes_def)
    fix x assume "x < length (log_bytes (d_log dk') vb 0 (max b (off + length data)))"
    then have x: "x < max b (off + length data)" by simp
    have l: "log_bytes (d_log dk') vb 0 (max b (off + length data)) ! x = d_log dk' ! the (vb_lookup vb x)"
      using x by (simp add: log_bytes_def)
    show "log_bytes (d_log dk') vb 0 (max b (off + length data)) ! x =
        overlay_bytes off data (log_bytes (d_log dk) m 0 b) ! x"
    proof (cases "off \<le> x \<and> x < off + length data")
      case True
      then show ?thesis using l lk new(2) [of "x - off"] off by (auto simp: overlay_bytes_def nth_append)
    next
      case False
      then have xb: "x < b" using x off by auto
      then obtain p where "vb_lookup m x = Some p" "p < d_log_offset dk" "p < length (d_log dk)"
        using ol unfolding on_log_def by blast
      then have "d_log dk' ! the (vb_lookup vb x) = log_bytes (d_log dk) m 0 b ! x"
        using False lk f(5) xb by (auto simp: log_bytes_def)
      then show ?thesis using l False xb off by (auto simp: overlay_bytes_def nth_append)
    qed
  qed
qed

lemma stored_committed:
  assumes "e_buffer E" and "kv_get K (bm_db bm') bid = Some (pack_vblock E vb)"
    and "vb_wf b (entries (map snd vb))" and "0 < b" and "on_log (bm_disk bm') b vb"
  shows "stored K E bm' bid (entries (map snd vb)) \<and>
    block_bytes K E bm' bid = Some (log_bytes (d_log (bm_disk bm')) vb 0 b)"
proof -
  have t: "vtiles 0 (map snd vb) b" "b < u64_bound" using assms(3) by (simp_all add: vb_wf_def)
  have "unpack_vblock E [] (pack_vblock E vb) = Some (entries (map snd vb), [])"
    using e_buffer.unpack_pack_vblock [OF assms(1) t, of "[]"] by simp
  then have "block_map K E bm' bid = Some (entries (map snd vb))" using assms(2) by (simp add: block_map_def)
  moreover have "vb \<noteq> []" using t(1) assms(4) by auto
  ultimately show ?thesis
    using assms vb_length_wf [OF assms(3)] by (simp add: stored_def block_bytes_def)
qed

section \<open>Properties\<close>

definition map_kv :: "(u64 \<Rightarrow> byte list option) kv_ops" where
  "map_kv = \<lparr>kv_get = (\<lambda>db k. db k), kv_put = (\<lambda>db k v. Some (db(k \<mapsto> v)))\<rparr>"

interpretation map_kv: kv_store map_kv
  by unfold_locales (auto simp: map_kv_def)

text \<open>A server that has just started, with a log of 64 bytes and an empty database.\<close>

definition demo_store :: "(u64 \<Rightarrow> byte list option) blockmap" where
  "demo_store = blockmap_new (\<lambda>_. None) (disk_new (replicate 64 0) 64)"

lemma demo_store_ok: "bm_ok map_kv demo_store"
  by (simp add: demo_store_def bm_ok_def blockmap_new_def disk_new_def disk_wf_def map_kv_def)

lemma bm_write_exact:
  assumes K: "kv_store K" and E: "e_buffer E" and ok: "bm_ok K bm" and data: "0 < length data"
    and fits: "d_log_offset (bm_disk bm) + length data < u64_bound"
    and next_id: "bm_block_id bm + 1 < u64_bound"
  shows "\<exists>st bid' bm'. bm_write K E data bid bm = Inr (st, bid', bm') \<and> bm_ok K bm' \<and>
     d_log_offset (bm_disk bm') = d_log_offset (bm_disk bm) + length data \<and>
     (\<forall>b m. stored K E bm b m \<longrightarrow> stored K E bm' b m \<and> block_bytes K E bm' b = block_bytes K E bm b) \<and>
     (st < 0 \<longleftrightarrow> length (d_log (bm_disk bm)) < d_log_offset (bm_disk bm) + length data \<or>
        (\<exists>vb. vb_update 0 (length data) (d_log_offset (bm_disk bm)) [] = Inr vb \<and>
           kv_put K (bm_db bm) (bm_block_id bm) (pack_vblock E vb) = None)) \<and>
     (if st < 0 then st = -1 \<and> kv_get K (bm_db bm') = kv_get K (bm_db bm)
      else st = int (length data) \<and> bid' = bm_block_id bm \<and> (\<exists>m. stored K E bm' bid' m) \<and>
        block_bytes K E bm' bid' = Some data)"
proof -
  have dk: "disk_wf (bm_disk bm)" using ok by (simp add: bm_ok_def)
  obtain st0 o0 d' where d: "disk_write data (bm_disk bm) = Inr (st0, o0, d')"
    using disk_write_eq [OF dk fits] by (auto split: if_splits)
  note f = disk_write_facts [OF dk fits d]
  show ?thesis
  proof (cases "st0 < 0")
    case True
    then have w: "bm_write K E data bid bm = Inr (-1, bid, bm\<lparr>bm_disk := d'\<rparr>)"
      using d f(7) by (simp add: bm_write_def)
    note g = kv_store.bm_write_grows [OF K ok fits next_id w]
    from bm_grows_ok [OF ok g] bm_grows_stored [OF ok g] f(3,4,7) True w show ?thesis by auto
  next
    case False
    let ?bm2 = "bm\<lparr>bm_disk := d', bm_block_id := u64_add (bm_block_id bm) 1\<rparr>"
    have "vb_safe 0 (length data) []" by (simp add: vb_safe_def lower_bound_def)
    with vb_update_overlays [of 0 "[]" 0 "length data" o0] data fits f(3)
    obtain vb where vb: "vb_update 0 (length data) o0 [] = Inr vb"
      and wf: "vb_wf (length data) (entries (map snd vb))"
      and lk: "\<forall>x. vb_lookup vb x = (if 0 \<le> x \<and> x < 0 + length data then Some (o0 + (x - 0)) else vb_lookup [] x)"
      by (auto simp: vb_wf_def)
    obtain st1 bm3 where wo: "write_offset_map K E (bm_block_id bm) vb ?bm2 = (st1, bm3)" by fastforce
    have w: "bm_write K E data bid bm = Inr (if st1 < 0 then -1 else st0, bm_block_id bm, bm3)"
      using d False vb wo by (simp add: bm_write_def Let_def)
    note g = kv_store.bm_write_grows [OF K ok fits next_id w]
    note c = kv_store.commit_grows [OF K kv_store.disk_write_grows [OF K ok fits d] next_id wo]
    have ol: "on_log d' (length data) vb" "log_bytes (d_log d') vb 0 (length data) = data"
      using log_after_update [OF dk fits d _ _ _ lk, of 0] False
      by (simp_all add: on_log_def log_bytes_def overlay_bytes_def)
    show ?thesis
    proof (cases "st1 < 0")
      case True
      then have "kv_put K (bm_db bm) (bm_block_id bm) (pack_vblock E vb) = None"
        using wo by (auto simp: write_offset_map_def split: option.splits)
      with vb f(3) have "\<exists>vb. vb_update 0 (length data) (d_log_offset (bm_disk bm)) [] = Inr vb \<and>
          kv_put K (bm_db bm) (bm_block_id bm) (pack_vblock E vb) = None" by auto
      with w bm_grows_ok [OF ok g] bm_grows_stored [OF ok g] c(2,3) f(4) True show ?thesis by auto
    next
      case st1: False
      then have put: "kv_put K (bm_db bm) (bm_block_id bm) (pack_vblock E vb) \<noteq> None"
        using wo by (auto simp: write_offset_map_def split: option.splits)
      have "\<not> length (d_log (bm_disk bm)) < d_log_offset (bm_disk bm) + length data" using f(3,6) False by simp
      with put vb f(3) have room: "\<not> (length (d_log (bm_disk bm)) < d_log_offset (bm_disk bm) + length data \<or>
          (\<exists>vb. vb_update 0 (length data) (d_log_offset (bm_disk bm)) [] = Inr vb \<and>
             kv_put K (bm_db bm) (bm_block_id bm) (pack_vblock E vb) = None))" by auto
      from st1 have "kv_get K (bm_db bm3) (bm_block_id bm) = Some (pack_vblock E vb)" using c(3) by auto
      from stored_committed [OF E this wf data] ol c(2)
      have "stored K E bm3 (bm_block_id bm) (entries (map snd vb))"
        "block_bytes K E bm3 (bm_block_id bm) = Some data" by simp_all
      with w bm_grows_ok [OF ok g] bm_grows_stored [OF ok g] c(2) f(4) room st1 False f(6) show ?thesis by auto
    qed
  qed
qed

lemma bm_write_stores:
  assumes K: "kv_store K" and E: "e_buffer E" and ok: "bm_ok K bm" and data: "0 < length data"
    and fits: "d_log_offset (bm_disk bm) + length data < u64_bound"
    and next_id: "bm_block_id bm + 1 < u64_bound"
  shows "\<exists>st bid' bm'. bm_write K E data bid bm = Inr (st, bid', bm') \<and> bm_ok K bm' \<and>
     (if st < 0
      then st = -1 \<and> kv_get K (bm_db bm') = kv_get K (bm_db bm) \<and>
        (length (d_log (bm_disk bm)) < d_log_offset (bm_disk bm) + length data \<or>
         (\<exists>k v. kv_put K (bm_db bm) k v = None))
      else st = int (length data) \<and> bid' = bm_block_id bm \<and> (\<exists>m. stored K E bm' bid' m) \<and>
        block_bytes K E bm' bid' = Some data)"
proof -
  from bm_write_exact [OF assms, of bid] obtain st bid' bm' where w: "bm_write K E data bid bm = Inr (st, bid', bm')"
    "bm_ok K bm'" and f: "st < 0 \<Longrightarrow> length (d_log (bm_disk bm)) < d_log_offset (bm_disk bm) + length data \<or>
      (\<exists>vb. kv_put K (bm_db bm) (bm_block_id bm) (pack_vblock E vb) = None)"
    and r: "if st < 0 then st = -1 \<and> kv_get K (bm_db bm') = kv_get K (bm_db bm)
      else st = int (length data) \<and> bid' = bm_block_id bm \<and> (\<exists>m. stored K E bm' bid' m) \<and>
        block_bytes K E bm' bid' = Some data" by blast
  then show ?thesis by (intro exI [of _ st] exI [of _ bid'] exI [of _ bm']) (auto split: if_splits)
qed

text \<open>C37: writing a block never has an undefined result. It fails exactly when the data does not fit in the rest of the
  log or the database refuses the map of the new block, and then with -1 and no change of the database; otherwise the
  new block has the next number and holds exactly the data. Either way the place of the data in the log is used up,
  whether it was written or not, and every block that was stored before is still stored with the same bytes.
  (There is data, the end of the log and the numbers of the blocks stay below 2^64.)\<close>

theorem bm_write_adds_block:
  assumes K: "kv_store K" and E: "e_buffer E" and ok: "bm_ok K bm" and data: "0 < length data"
    and fits: "d_log_offset (bm_disk bm) + length data < u64_bound"
    and next_id: "bm_block_id bm + 1 < u64_bound"
  shows "\<exists>st bid' bm'. bm_write K E data bid bm = Inr (st, bid', bm') \<and> bm_ok K bm' \<and>
     d_log_offset (bm_disk bm') = d_log_offset (bm_disk bm) + length data \<and>
     (\<forall>b m. stored K E bm b m \<longrightarrow> stored K E bm' b m \<and> block_bytes K E bm' b = block_bytes K E bm b) \<and>
     (st < 0 \<longleftrightarrow> length (d_log (bm_disk bm)) < d_log_offset (bm_disk bm) + length data \<or>
        (\<exists>vb. vb_update 0 (length data) (d_log_offset (bm_disk bm)) [] = Inr vb \<and>
           kv_put K (bm_db bm) (bm_block_id bm) (pack_vblock E vb) = None)) \<and>
     (if st < 0 then st = -1 \<and> kv_get K (bm_db bm') = kv_get K (bm_db bm)
      else st = int (length data) \<and> bid' = bm_block_id bm \<and> (\<exists>m. stored K E bm' bid' m) \<and>
        block_bytes K E bm' bid' = Some data)"
  using assms by (rule bm_write_exact)

theorem bm_write_adds_block_witness:
  "\<exists>bid' bm'. bm_write map_kv be_codec [1, 2, 3] 0 demo_store = Inr (3, bid', bm') \<and>
     block_bytes map_kv be_codec bm' bid' = Some [1, 2, 3]"
proof -
  have "d_log_offset (bm_disk demo_store) = 0" "length (d_log (bm_disk demo_store)) = 64"
    "bm_block_id demo_store = 0"
    by (simp_all add: demo_store_def blockmap_new_def disk_new_def)
  moreover have "\<not> (\<exists>k v. kv_put map_kv (bm_db demo_store) k v = None)" by (simp add: map_kv_def)
  ultimately show ?thesis
    using bm_write_adds_block [OF map_kv.kv_store_axioms be.e_buffer_axioms demo_store_ok, of "[1, 2, 3]" 0]
    by (auto split: if_splits)
qed

text \<open>C11: an update of a stored block, at an offset in it and in a branch of \<open>vblock::update\<close> that
  keeps the bytes around it, never has an undefined result; when it succeeds the block under the
  next number holds the old bytes overlaid with the data.\<close>

theorem bm_update_overlays:
  assumes K: "kv_store K" and E: "e_buffer E" and ok: "bm_ok K bm" and data: "0 < length data"
    and fits: "d_log_offset (bm_disk bm) + length data < u64_bound"
    and next_id: "bm_block_id bm + 1 < u64_bound"
    and st: "stored K E bm bid m" and off: "off \<le> vb_length m" "off + length data < u64_bound"
    and safe: "vb_safe off (length data) m"
  shows "\<exists>st bid' bl' bm'. bm_update K E data off bid bl bm = Inr (st, bid', bl', bm') \<and> bm_ok K bm' \<and>
     (if st < 0 then st = -1 \<and> kv_get K (bm_db bm') = kv_get K (bm_db bm)
      else st = int (length data) \<and> bid' = bm_block_id bm \<and> (\<exists>m'. stored K E bm' bid' m') \<and>
        block_bytes K E bm' bid' = map_option (overlay_bytes off data) (block_bytes K E bm bid))"
proof -
  have dk: "disk_wf (bm_disk bm)" using ok by (simp add: bm_ok_def)
  have bmap: "block_map K E bm bid = Some m" and wfm: "vb_wf (vb_length m) m"
    and olm: "on_log (bm_disk bm) (vb_length m) m"
    using st by (simp_all add: stored_def)
  obtain st0 o0 d' where d: "disk_write data (bm_disk bm) = Inr (st0, o0, d')"
    using disk_write_eq [OF dk fits] by (auto split: if_splits)
  note f = disk_write_facts [OF dk fits d]
  show ?thesis
  proof (cases "st0 < 0")
    case True
    then have w: "bm_update K E data off bid bl bm = Inr (-1, bid, bl, bm\<lparr>bm_disk := d'\<rparr>)"
      using d f(7) by (simp add: bm_update_def)
    with bm_grows_ok [OF ok kv_store.bm_update_grows [OF K ok fits next_id w]]
    show ?thesis by auto
  next
    case False
    let ?bm1 = "bm\<lparr>bm_disk := d'\<rparr>"
    let ?bm2 = "bm\<lparr>bm_disk := d', bm_block_id := u64_add (bm_block_id bm) 1\<rparr>"
    let ?b = "max (vb_length m) (off + length data)"
    from vb_update_overlays [OF wfm off(1) data off(2) _ safe, of o0] fits f(3)
    obtain vb where vb: "vb_update off (length data) o0 m = Inr vb"
      and wf: "vb_wf ?b (entries (map snd vb))"
      and lk: "\<forall>x. vb_lookup vb x = (if off \<le> x \<and> x < off + length data then Some (o0 + (x - off)) else vb_lookup m x)"
      by auto
    have r: "read_offset_map K E bid [] ?bm1 = Inr (0, m)"
      using bmap by (intro read_offset_map_stored) (simp add: block_map_def)
    obtain st1 bm3 where wo: "write_offset_map K E (bm_block_id bm) vb ?bm2 = (st1, bm3)" by fastforce
    have w: "bm_update K E data off bid bl bm =
        Inr (if st1 < 0 then -1 else st0, bm_block_id bm, vb_length vb, bm3)"
      using d False vb wo r by (simp add: bm_update_def Let_def)
    note g = kv_store.bm_update_grows [OF K ok fits next_id w]
    note c = kv_store.commit_grows [OF K kv_store.disk_write_grows [OF K ok fits d] next_id wo]
    have ol: "on_log d' ?b vb"
      "log_bytes (d_log d') vb 0 ?b = overlay_bytes off data (log_bytes (d_log (bm_disk bm)) m 0 (vb_length m))"
      using log_after_update [OF dk fits d _ olm off(1) lk] False by simp_all
    show ?thesis
    proof (cases "st1 < 0")
      case True
      with w bm_grows_ok [OF ok g] c(3) show ?thesis by auto
    next
      case st1: False
      then have kv: "kv_get K (bm_db bm3) (bm_block_id bm) = Some (pack_vblock E vb)" using c(3) by auto
      have "0 < ?b" using data by (simp add: less_max_iff_disj)
      from stored_committed [OF E kv wf this] ol c(2)
      have "stored K E bm3 (bm_block_id bm) (entries (map snd vb))"
        "block_bytes K E bm3 (bm_block_id bm) = map_option (overlay_bytes off data) (block_bytes K E bm bid)"
        using bmap by (simp_all add: block_bytes_def)
      with w bm_grows_ok [OF ok g] st1 False f(6) show ?thesis by auto
    qed
  qed
qed

text \<open>A store with one block of the bytes 10 to 13.\<close>

definition demo_one_map :: vblock where
  "demo_one_map = [(0, \<lparr>vs_offset = 0, vs_length = 4, vs_disk = 0\<rparr>)]"

definition demo_one :: "(u64 \<Rightarrow> byte list option) blockmap" where
  "demo_one = \<lparr>bm_db = (\<lambda>_. None)(0 \<mapsto> pack_vblock be_codec demo_one_map),
     bm_disk = \<lparr>d_log = [10, 11, 12, 13] @ replicate 60 0, d_log_len = 64, d_log_offset = 4\<rparr>,
     bm_block_id = 1\<rparr>"

lemma demo_one_stored:
  "stored map_kv be_codec demo_one 0 demo_one_map"
  "block_bytes map_kv be_codec demo_one 0 = Some [10, 11, 12, 13]"
  "bm_ok map_kv demo_one"
proof -
  have wf: "vb_wf 4 (entries (map snd demo_one_map))" and e: "entries (map snd demo_one_map) = demo_one_map"
    by (simp_all add: demo_one_map_def vb_wf_def)
  have "\<forall>x < 4. vb_lookup demo_one_map x = Some x"
    by (auto simp: demo_one_map_def vb_lookup_def)
  then have "on_log (bm_disk demo_one) 4 demo_one_map"
    by (auto simp: on_log_def demo_one_def)
  then have *: "stored map_kv be_codec demo_one 0 demo_one_map \<and> block_bytes map_kv be_codec demo_one 0 =
      Some (log_bytes (d_log (bm_disk demo_one)) demo_one_map 0 4)"
    using stored_committed [OF be.e_buffer_axioms _ wf, of map_kv demo_one 0] e
    by (simp add: demo_one_def map_kv_def)
  then show "stored map_kv be_codec demo_one 0 demo_one_map" by simp
  have "[0..<4] = [0, 1, 2, 3::nat]" by (simp add: upt_rec)
  then have "log_bytes (d_log (bm_disk demo_one)) demo_one_map 0 4 = [10, 11, 12, 13]"
    by (simp add: log_bytes_def demo_one_def demo_one_map_def vb_lookup_def)
  with * show "block_bytes map_kv be_codec demo_one 0 = Some [10, 11, 12, 13]" by simp
  show "bm_ok map_kv demo_one"
    by (simp add: bm_ok_def demo_one_def disk_wf_def map_kv_def)
qed

lemma demo_one_values:
  "vb_length demo_one_map = 4" "d_log_offset (bm_disk demo_one) = 4" "length (d_log (bm_disk demo_one)) = 64"
  "bm_block_id demo_one = 1" "kv_put map_kv db k v \<noteq> None"
  by (simp_all add: demo_one_def demo_one_map_def vb_length_def u64_simps map_kv_def)

lemma demo_one_safe: "vb_safe 1 2 demo_one_map"
  by (simp add: vb_safe_def demo_one_map_def lower_bound_def)

theorem bm_update_overlays_witness:
  "\<exists>st bid' bl' bm'. bm_update map_kv be_codec [7, 8] 1 0 0 demo_one = Inr (st, bid', bl', bm') \<and>
     (0 \<le> st \<longrightarrow> block_bytes map_kv be_codec bm' bid' = Some [10, 7, 8, 13])"
proof -
  have o: "overlay_bytes 1 [7, 8] [10, 11, 12, 13] = [10, 7, 8, 13]" by (simp add: overlay_bytes_def)
  have p: "0 < length [7, 8 :: byte]" "d_log_offset (bm_disk demo_one) + length [7, 8 :: byte] < u64_bound"
    "bm_block_id demo_one + 1 < u64_bound" "1 \<le> vb_length demo_one_map"
    "1 + length [7, 8 :: byte] < u64_bound"
    by (simp_all add: demo_one_values)
  have "vb_safe 1 (length [7, 8 :: byte]) demo_one_map" using demo_one_safe by (simp add: numeral_2_eq_2)
  note th = bm_update_overlays [OF map_kv.kv_store_axioms be.e_buffer_axioms demo_one_stored(3) p(1-3)
      demo_one_stored(1) p(4,5) this, of 0]
  obtain st bid' bl' bm' where u: "bm_update map_kv be_codec [7, 8] 1 0 0 demo_one = Inr (st, bid', bl', bm')"
    and b: "if st < 0 then st = -1 \<and> kv_get map_kv (bm_db bm') = kv_get map_kv (bm_db demo_one)
      else st = int (length [7, 8 :: byte]) \<and> bid' = bm_block_id demo_one \<and>
        (\<exists>m'. stored map_kv be_codec bm' bid' m') \<and>
        block_bytes map_kv be_codec bm' bid' =
          map_option (overlay_bytes 1 [7, 8]) (block_bytes map_kv be_codec demo_one 0)"
    using th by blast
  from b have "0 \<le> st \<longrightarrow> block_bytes map_kv be_codec bm' bid' = Some [10, 7, 8, 13]"
    using demo_one_stored(2) o by (auto simp only: option.map split: if_splits)
  with u show ?thesis by blast
qed

lemma bm_read_bytes:
  assumes "0 < len" and "len < u64_bound"
  shows "(\<forall>m bs. stored K E bm bid m \<and> block_bytes K E bm bid = Some bs \<longrightarrow>
       bm_read K E bid 0 len bm =
         (if len \<le> length bs then Inr (int len, take len bs) else Inl Undefined)) \<and>
     (kv_get K (bm_db bm) bid = None \<longrightarrow> bm_read K E bid 0 len bm = Inr (-1, []))"
proof (intro conjI allI impI)
  fix m bs assume a: "stored K E bm bid m \<and> block_bytes K E bm bid = Some bs"
  then have "bs = log_bytes (d_log (bm_disk bm)) m 0 (vb_length m)"
    by (auto simp: stored_def block_bytes_def)
  with bm_read_stored [OF conjunct1 [OF a] assms]
  show "bm_read K E bid 0 len bm = (if len \<le> length bs then Inr (int len, take len bs) else Inl Undefined)"
    by (auto simp: take_log_bytes)
qed (simp add: bm_read_def read_offset_map_def)

text \<open>C26: reading a stored block from its start returns exactly the bytes asked for, as long as it
  has that many; asking for more bytes than the block has makes the code step past the last
  slice and dereference the end of the map. A number that was never stored gives -1.\<close>

theorem bm_read_returns_bytes:
  assumes "0 < len" and "len < u64_bound"
  shows "(\<forall>m bs. stored K E bm bid m \<and> block_bytes K E bm bid = Some bs \<longrightarrow>
       bm_read K E bid 0 len bm =
         (if len \<le> length bs then Inr (int len, take len bs) else Inl Undefined)) \<and>
     (kv_get K (bm_db bm) bid = None \<longrightarrow> bm_read K E bid 0 len bm = Inr (-1, []))"
  using assms by (rule bm_read_bytes)

theorem bm_read_returns_bytes_witness:
  "bm_read map_kv be_codec 0 0 3 demo_one = Inr (3, [10, 11, 12])"
  using bm_read_returns_bytes [where len = 3 and K = map_kv and E = be_codec and bm = demo_one and bid = 0]
    demo_one_stored by fastforce

text \<open>C25: blocks are immutable. Whatever sequence of writes, updates and truncates runs, with whatever
  arguments, as long as the 64-bit counters do not wrap, a block that was stored keeps its bytes,
  and reading it returns them.\<close>

theorem block_immutable:
  assumes K: "kv_store K" and steps: "(bm_step K E)\<^sup>*\<^sup>* bm bm'" and ok: "bm_ok K bm"
    and st: "stored K E bm bid m"
  shows "block_bytes K E bm' bid = block_bytes K E bm bid \<and>
    (0 < vb_length m \<longrightarrow> (\<exists>bs. block_bytes K E bm bid = Some bs \<and>
       bm_read K E bid 0 (length bs) bm' = Inr (int (length bs), bs)))"
proof -
  from kv_store.bm_steps_stored [OF K steps ok st]
  have st': "stored K E bm' bid m" and eq: "block_bytes K E bm' bid = block_bytes K E bm bid" by auto
  have bs: "block_bytes K E bm' bid = Some (log_bytes (d_log (bm_disk bm')) m 0 (vb_length m))"
    using st' by (simp add: stored_def block_bytes_def)
  have "vb_length m < u64_bound" using st by (simp add: stored_def vb_wf_def)
  moreover have "block_bytes K E bm bid = Some (log_bytes (d_log (bm_disk bm')) m 0 (vb_length m))"
    using eq bs by simp
  ultimately show ?thesis using bm_read_stored [OF st', of "vb_length m"] eq by auto
qed

theorem block_immutable_witness:
  "\<exists>bm'. bm_step map_kv be_codec demo_one bm' \<and>
     bm_read map_kv be_codec 0 0 4 bm' = Inr (4, [10, 11, 12, 13])"
proof -
  obtain st bid' bm' where "bm_write map_kv be_codec [1] 0 demo_one = Inr (st, bid', bm')"
    by (simp add: bm_write_def demo_one_def disk_write_def vb_update_def write_offset_map_def map_kv_def u64_simps)
  then have s: "bm_step map_kv be_codec demo_one bm'"
    by (rule step_write [rotated 2]) (simp_all add: demo_one_values)
  from block_immutable [OF map_kv.kv_store_axioms r_into_rtranclp [of "bm_step map_kv be_codec", OF s] demo_one_stored(3,1)] s
  show ?thesis using demo_one_stored(2) demo_one_values(1) by (auto simp: numeral_eq_Suc)
qed

text \<open>Truncating a stored block whose last slice contains the new length never has an undefined
  result; when it succeeds the block under the next number holds the prefix. When the new length
  ends in an earlier slice, or beyond the block, the result is undefined.\<close>

theorem bm_truncate_prefix:
  assumes K: "kv_store K" and E: "e_buffer E" and ok: "bm_ok K bm" and len: "0 < len"
    and next_id: "bm_block_id bm + 1 < u64_bound" and st: "stored K E bm bid m"
  shows "(len \<le> vb_length m \<and> vs_offset (snd (last m)) < len \<longrightarrow>
      (\<exists>st bid' bm'. bm_truncate K E bid len bm = Inr (st, bid', bm') \<and> bm_ok K bm' \<and>
         (if st < 0 then st = -1 \<and> kv_get K (bm_db bm') = kv_get K (bm_db bm)
          else st = int len \<and> bid' = bm_block_id bm \<and> (\<exists>m'. stored K E bm' bid' m') \<and>
            block_bytes K E bm' bid' = map_option (take len) (block_bytes K E bm bid)))) \<and>
    (vb_length m < len \<or> len \<le> vs_offset (snd (last m)) \<longrightarrow> bm_truncate K E bid len bm = Inl Undefined)"
proof -
  have bmap: "block_map K E bm bid = Some m" and wfm: "vb_wf (vb_length m) m" and ne: "m \<noteq> []"
    and olm: "on_log (bm_disk bm) (vb_length m) m"
    using st by (simp_all add: stored_def)
  from wfm obtain ss where ss: "m = entries ss" by (auto simp: vb_wf_entries)
  with ne obtain Q s where "ss = Q @ [s]" by (metis entries_simps(1) rev_exhaust)
  with ss have m: "m = entries (Q @ [s])" and last: "snd (last m) = s" by simp_all
  have r: "read_offset_map K E bid [] bm = Inr (0, m)" using read_offset_map_stored [OF bmap] .
  note sl = vb_set_len_tiles [of 0 Q s "vb_length m" len]
  have t: "vtiles 0 (Q @ [s]) (vb_length m)" "vb_length m < u64_bound"
    using wfm unfolding m vb_wf_def by simp_all
  show ?thesis
  proof (intro conjI impI)
    assume a: "vb_length m < len \<or> len \<le> vs_offset (snd (last m))"
    then have "vb_set_len len m = Inl Undefined"
      using sl [OF t] len t(1) unfolding m [symmetric] last by (cases Q) auto
    then show "bm_truncate K E bid len bm = Inl Undefined"
      using r by (simp add: bm_truncate_def Let_def)
  next
    assume a: "len \<le> vb_length m \<and> vs_offset (snd (last m)) < len"
    then obtain vb where vb: "vb_set_len len m = Inr vb" and wf: "vb_wf len vb"
      and lk: "\<forall>x < len. vb_lookup vb x = vb_lookup m x"
      using vb_set_len_aux [OF wfm [unfolded m], of len] len unfolding m [symmetric] last by auto
    let ?bm1 = "bm\<lparr>bm_block_id := u64_add (bm_block_id bm) 1\<rparr>"
    obtain st1 bm3 where wo: "write_offset_map K E (bm_block_id bm) vb ?bm1 = (st1, bm3)" by fastforce
    have w: "bm_truncate K E bid len bm = Inr (if st1 < 0 then -1 else int len, bm_block_id bm, bm3)"
      using r vb wo by (simp add: bm_truncate_def Let_def)
    note g = kv_store.bm_truncate_grows [OF K ok next_id w]
    have g0: "bm_grows K bm (bm\<lparr>bm_disk := bm_disk bm\<rparr>)"
      using ok by (simp add: bm_grows_def bm_ok_def)
    have "write_offset_map K E (bm_block_id bm) vb
        (bm\<lparr>bm_disk := bm_disk bm, bm_block_id := u64_add (bm_block_id bm) 1\<rparr>) = (st1, bm3)"
      using wo by simp
    note c = kv_store.commit_grows [OF K g0 next_id this]
    have e: "entries (map snd vb) = vb" using wf by (simp add: vb_wf_def)
    show "\<exists>st bid' bm'. bm_truncate K E bid len bm = Inr (st, bid', bm') \<and> bm_ok K bm' \<and>
         (if st < 0 then st = -1 \<and> kv_get K (bm_db bm') = kv_get K (bm_db bm)
          else st = int len \<and> bid' = bm_block_id bm \<and> (\<exists>m'. stored K E bm' bid' m') \<and>
            block_bytes K E bm' bid' = map_option (take len) (block_bytes K E bm bid))"
    proof (cases "st1 < 0")
      case True
      with w bm_grows_ok [OF ok g] c(3) show ?thesis by auto
    next
      case False
      then have kv: "kv_get K (bm_db bm3) (bm_block_id bm) = Some (pack_vblock E vb)" using c(3) by auto
      have "on_log (bm_disk bm3) len vb" using olm lk a c(2) by (simp add: on_log_def)
      from stored_committed [OF E kv _ len this] wf e
      have "stored K E bm3 (bm_block_id bm) vb"
        and b3: "block_bytes K E bm3 (bm_block_id bm) = Some (log_bytes (d_log (bm_disk bm3)) vb 0 len)" by simp_all
      moreover have "log_bytes (d_log (bm_disk bm)) vb 0 len = take len (log_bytes (d_log (bm_disk bm)) m 0 (vb_length m))"
        using a lk by (simp add: take_log_bytes) (simp add: log_bytes_def)
      ultimately have "block_bytes K E bm3 (bm_block_id bm) = map_option (take len) (block_bytes K E bm bid)"
        using bmap c(2) by (simp add: block_bytes_def)
      with w bm_grows_ok [OF ok g] False \<open>stored K E bm3 (bm_block_id bm) vb\<close> show ?thesis by auto
    qed
  qed
qed

theorem bm_truncate_prefix_witness:
  "bm_truncate map_kv be_codec 0 5 demo_one = Inl Undefined \<and>
   (\<exists>st bid' bm'. bm_truncate map_kv be_codec 0 2 demo_one = Inr (st, bid', bm') \<and>
      (0 \<le> st \<longrightarrow> block_bytes map_kv be_codec bm' bid' = Some [10, 11]))"
proof -
  have o: "vs_offset (snd (last demo_one_map)) = 0" by (simp add: demo_one_map_def)
  have p: "bm_block_id demo_one + 1 < u64_bound" by (simp add: demo_one_values)
  have t: "take 2 [10, 11, 12, 13 :: byte] = [10, 11]" by simp
  note th = bm_truncate_prefix [OF map_kv.kv_store_axioms be.e_buffer_axioms demo_one_stored(3) _ p demo_one_stored(1)]
  have "bm_truncate map_kv be_codec 0 5 demo_one = Inl Undefined"
    using th [of 5] demo_one_values(1) by simp
  moreover obtain st bid' bm' where u: "bm_truncate map_kv be_codec 0 2 demo_one = Inr (st, bid', bm')"
    and b: "if st < 0 then st = -1 \<and> kv_get map_kv (bm_db bm') = kv_get map_kv (bm_db demo_one)
       else st = int 2 \<and> bid' = bm_block_id demo_one \<and> (\<exists>m'. stored map_kv be_codec bm' bid' m') \<and>
         block_bytes map_kv be_codec bm' bid' = map_option (take 2) (block_bytes map_kv be_codec demo_one 0)"
    using th [of 2] demo_one_values(1) o by auto
  from b have "0 \<le> st \<longrightarrow> block_bytes map_kv be_codec bm' bid' = Some [10, 11]"
    using demo_one_stored(2) t by (auto simp only: option.map split: if_splits)
  ultimately show ?thesis using u by blast
qed

text \<open>A write that does not fit still moves the end of the log past the end of the file, so every
  later write or update fails, also one that would have fitted before.\<close>

theorem bm_full_stays_full:
  assumes ok: "bm_ok K bm" and big: "length (d_log (bm_disk bm)) < d_log_offset (bm_disk bm) + length data"
    and small: "d_log_offset (bm_disk bm) + length data + length data' < u64_bound"
  shows "\<exists>bm'. bm_write K E data bid bm = Inr (-1, bid, bm') \<and>
     (\<exists>bm''. bm_write K E data' bid' bm' = Inr (-1, bid', bm'')) \<and>
     (\<exists>bm''. bm_update K E data' off bid' bl bm' = Inr (-1, bid', bl, bm''))"
proof -
  have dk: "disk_wf (bm_disk bm)" using ok by (simp add: bm_ok_def)
  obtain d' where d: "disk_write data (bm_disk bm) = Inr (-1, d_log_offset (bm_disk bm), d')"
    and d': "d_log_offset d' = d_log_offset (bm_disk bm) + length data" "d_log d' = d_log (bm_disk bm)" "disk_wf d'"
    using disk_write_eq [OF dk, of data] big small dk by (auto simp: disk_wf_def)
  then have "bm_write K E data bid bm = Inr (-1, bid, bm\<lparr>bm_disk := d'\<rparr>)" by (simp add: bm_write_def)
  moreover obtain d'' where "disk_write data' d' = Inr (-1, d_log_offset d', d'')"
    using disk_write_eq [OF d'(3), of data'] d' big small by auto
  ultimately show ?thesis by (simp add: bm_write_def bm_update_def)
qed

theorem bm_full_stays_full_witness:
  "\<exists>bm'. bm_write map_kv be_codec (replicate 65 1) 0 demo_one = Inr (-1, 0, bm') \<and>
     (\<exists>bm''. bm_write map_kv be_codec [1] 0 bm' = Inr (-1, 0, bm''))"
proof -
  have "length (d_log (bm_disk demo_one)) < d_log_offset (bm_disk demo_one) + length (replicate 65 (1 :: byte))"
    "d_log_offset (bm_disk demo_one) + length (replicate 65 (1 :: byte)) + length [1 :: byte] < u64_bound"
    by (simp_all add: demo_one_values)
  from bm_full_stays_full [OF demo_one_stored(3) this, of be_codec 0 0 0 0] show ?thesis by blast
qed

text \<open>A read that starts strictly inside a slice and ends before the next one begins finds no
  slice, because the search starts at the first slice at or after the offset. The code cannot see
  the -1 in its unsigned status and uses an iterator that was never set.\<close>

theorem bm_read_inner_undefined:
  assumes st: "stored K E bm bid (entries (Q @ s # u # S))"
    and off: "vs_offset s < off" "0 < len" "off + len \<le> vs_offset u"
  shows "bm_read K E bid off len bm = Inl Undefined"
proof -
  let ?m = "entries (Q @ s # u # S)"
  have bmap: "block_map K E bm bid = Some ?m" and t: "vtiles 0 (Q @ s # u # S) (vb_length ?m)"
    and b: "vb_length ?m < u64_bound"
    using st by (simp_all add: stored_def vb_wf_def)
  have u: "vs_offset u < vb_length ?m" using vtiles_slices [OF t, of u] by simp
  have "vtiles 0 Q (vs_offset s)" using t by (auto simp: vtiles_append)
  then have k: "\<forall>y \<in> fst ` set (entries (Q @ [s])). y < off"
    using entries_keys_less [of Q "vs_offset s"] off(1) by fastforce
  have "lower_bound off (entries (Q @ [s]) @ entries (u # S)) = entries (u # S)"
    unfolding lower_bound_def using k off by (simp add: dropWhile_append2)
  then have "vb_get_slices off len ?m = Inr None"
    using off u b by (simp add: vb_get_slices_def u64_simps Let_def)
  then show ?thesis using read_offset_map_stored [OF bmap] by (simp add: bm_read_def)
qed

theorem bm_read_inner_undefined_witness:
  "bm_read map_kv be_codec 0 1 2 (demo_one\<lparr>bm_db := (\<lambda>_. None)(0 \<mapsto> pack_vblock be_codec
       (entries [\<lparr>vs_offset = 0, vs_length = 3, vs_disk = 0\<rparr>, \<lparr>vs_offset = 3, vs_length = 1, vs_disk = 3\<rparr>]))\<rparr>)
     = Inl Undefined"
proof -
  let ?s = "\<lparr>vs_offset = 0, vs_length = 3, vs_disk = 0\<rparr>" and ?u = "\<lparr>vs_offset = 3, vs_length = 1, vs_disk = 3\<rparr>"
  let ?bm = "demo_one\<lparr>bm_db := (\<lambda>_. None)(0 \<mapsto> pack_vblock be_codec (entries [?s, ?u]))\<rparr>"
  have wf: "vb_wf 4 (entries (map snd (entries [?s, ?u])))" by (simp add: vb_wf_def)
  have "\<forall>x < 4. vb_lookup (entries [?s, ?u]) x = Some x" by (auto simp: vb_lookup_def)
  then have "on_log (bm_disk ?bm) 4 (entries [?s, ?u])" by (auto simp: on_log_def demo_one_def)
  then have "stored map_kv be_codec ?bm 0 (entries [?s, ?u])"
    using stored_committed [OF be.e_buffer_axioms _ wf, of map_kv ?bm 0] by (simp add: map_kv_def)
  from bm_read_inner_undefined [of map_kv be_codec ?bm 0 "[]" ?s ?u "[]" 1 2] this show ?thesis by simp
qed

end
