(* ===== verification/Server.thy ===== *)
theory Server
  imports Wire
begin

text \<open>
  \<open>common/server.{h,cc}\<close>, \<open>common/ids.{h,cc}\<close> and the encodings of network addresses
  (\<open>common/serialization.cc\<close> for the coordinator and the tools; \<open>common/packing.cc\<close>, linked
  into the daemon and the client, repeats the same functions line by line).

  The classes of po6 are not part of the repository. Of an \<open>ipaddr\<close> the sources use its family and
  its address bytes in network order, so it is a datatype of these; a \<open>location\<close> is an address
  and a port, a \<open>hostname\<close> a string of bytes and a port, compared member by member.
\<close>

section \<open>Identifiers\<close>

type_synonym server_id = u64

definition pack_id :: "e_codec \<Rightarrow> u64 \<Rightarrow> byte list" where
  "pack_id E i = pk64 E i"

definition unpack_id :: "e_codec \<Rightarrow> u64 reader" where
  "unpack_id E bs = do { (i, bs) \<leftarrow> up64 E bs; Some (i, bs) }"

definition id_pack_size :: nat where
  "id_pack_size = 8"

section \<open>Addresses\<close>

datatype ipaddr = Unspec | Inet "byte list" | Inet6 "byte list"

record location =
  loc_address :: ipaddr
  loc_port :: nat

definition loc_default :: location where
  "loc_default = \<lparr>loc_address = Unspec, loc_port = 0\<rparr>"

record hostname =
  host_address :: "byte list"
  host_port :: nat

text \<open>The type byte and the 16 bytes of data, zero where the address has none.\<close>

fun ip_type :: "ipaddr \<Rightarrow> nat" where
  "ip_type (Inet _) = 4"
| "ip_type (Inet6 _) = 6"
| "ip_type Unspec = 0"

fun ip_data :: "ipaddr \<Rightarrow> byte list" where
  "ip_data (Inet a) = a @ replicate 12 0"
| "ip_data (Inet6 a) = a"
| "ip_data Unspec = replicate 16 0"

definition pack_ipaddr :: "e_codec \<Rightarrow> ipaddr \<Rightarrow> byte list" where
  "pack_ipaddr E a = pk8 E (ip_type a) @ ip_data a"

text \<open>What the data mean for a type byte: a type 0 leaves the old address in place.\<close>

definition ip_of_data :: "ipaddr \<Rightarrow> nat \<Rightarrow> byte list \<Rightarrow> ipaddr option" where
  "ip_of_data old type rem =
     (if type = 4 then Some (Inet (take 4 rem))
      else if type = 6 then Some (Inet6 (take 16 rem))
      else if type = 0 then Some old
      else None)"

definition unpack_ipaddr :: "e_codec \<Rightarrow> ipaddr \<Rightarrow> ipaddr reader" where
  "unpack_ipaddr E old bs =
     do {
       (type, rem) \<leftarrow> up8 E bs;
       if length rem < 16 then None
       else do { a \<leftarrow> ip_of_data old type rem; Some (a, drop 16 rem) }
     }"

definition ip_pack_size :: nat where
  "ip_pack_size = 17"

definition pack_location :: "e_codec \<Rightarrow> location \<Rightarrow> byte list" where
  "pack_location E l = pack_ipaddr E (loc_address l) @ pk16 E (loc_port l)"

definition unpack_location :: "e_codec \<Rightarrow> location \<Rightarrow> location reader" where
  "unpack_location E old bs =
     do {
       (a, bs) \<leftarrow> unpack_ipaddr E (loc_address old) bs;
       (p, bs) \<leftarrow> up16 E bs;
       Some (\<lparr>loc_address = a, loc_port = p\<rparr>, bs)
     }"

definition loc_pack_size :: nat where
  "loc_pack_size = ip_pack_size + 2"

definition pack_hostname :: "e_codec \<Rightarrow> hostname \<Rightarrow> byte list" where
  "pack_hostname E h = pk_slice E (host_address h) @ pk16 E (host_port h)"

definition unpack_hostname :: "e_codec \<Rightarrow> hostname reader" where
  "unpack_hostname E bs =
     do { (a, bs) \<leftarrow> up_slice E bs; (p, bs) \<leftarrow> up16 E bs; Some (\<lparr>host_address = a, host_port = p\<rparr>, bs) }"

definition hostname_pack_size :: "hostname \<Rightarrow> nat" where
  "hostname_pack_size h = 4 + length (host_address h) + 2"

definition slice_bytes_pack_size :: "byte list \<Rightarrow> nat" where
  "slice_bytes_pack_size s = 4 + length s"

section \<open>Servers\<close>

text \<open>A byte outside the enumeration is a state of its own.\<close>

datatype server_state = ASSIGNED | NOT_AVAILABLE | AVAILABLE | SHUTDOWN | KILLED | OTHER_STATE nat

fun state_code :: "server_state \<Rightarrow> nat" where
  "state_code ASSIGNED = 1"
| "state_code NOT_AVAILABLE = 2"
| "state_code AVAILABLE = 3"
| "state_code SHUTDOWN = 4"
| "state_code KILLED = 5"
| "state_code (OTHER_STATE n) = n"

definition state_of_code :: "nat \<Rightarrow> server_state" where
  "state_of_code n =
     (if n = 1 then ASSIGNED else if n = 2 then NOT_AVAILABLE else if n = 3 then AVAILABLE
      else if n = 4 then SHUTDOWN else if n = 5 then KILLED else OTHER_STATE n)"

fun state_to_string :: "server_state \<Rightarrow> string" where
  "state_to_string ASSIGNED = ''ASSIGNED''"
| "state_to_string NOT_AVAILABLE = ''NOT_AVAILABLE''"
| "state_to_string AVAILABLE = ''AVAILABLE''"
| "state_to_string SHUTDOWN = ''SHUTDOWN''"
| "state_to_string KILLED = ''KILLED''"
| "state_to_string (OTHER_STATE _) = ''UNKNOWN''"

record server =
  srv_state :: server_state
  srv_id :: server_id
  srv_bind_to :: location

definition server_default :: server where
  "server_default = \<lparr>srv_state = KILLED, srv_id = 0, srv_bind_to = loc_default\<rparr>"

definition server_new :: "server_id \<Rightarrow> server" where
  "server_new sid = \<lparr>srv_state = ASSIGNED, srv_id = sid, srv_bind_to = loc_default\<rparr>"

definition server_less :: "server \<Rightarrow> server \<Rightarrow> bool" where
  "server_less l r \<longleftrightarrow> srv_id l < srv_id r"

definition pack_server :: "e_codec \<Rightarrow> server \<Rightarrow> byte list" where
  "pack_server E s = pk8 E (state_code (srv_state s)) @ pack_id E (srv_id s) @ pack_location E (srv_bind_to s)"

definition unpack_server :: "e_codec \<Rightarrow> server \<Rightarrow> server reader" where
  "unpack_server E old bs =
     do {
       (st, bs) \<leftarrow> up8 E bs;
       (i, bs) \<leftarrow> unpack_id E bs;
       (l, bs) \<leftarrow> unpack_location E (srv_bind_to old) bs;
       Some (\<lparr>srv_state = state_of_code st, srv_id = i, srv_bind_to = l\<rparr>, bs)
     }"

definition server_pack_size :: nat where
  "server_pack_size = 1 + 8 + loc_pack_size"

section \<open>Well-formed values and round trips\<close>

fun ip_wf :: "ipaddr \<Rightarrow> bool" where
  "ip_wf (Inet a) \<longleftrightarrow> length a = 4"
| "ip_wf (Inet6 a) \<longleftrightarrow> length a = 16"
| "ip_wf Unspec \<longleftrightarrow> True"

definition loc_wf :: "location \<Rightarrow> bool" where
  "loc_wf l \<longleftrightarrow> ip_wf (loc_address l) \<and> loc_port l < 65536"

fun state_wf :: "server_state \<Rightarrow> bool" where
  "state_wf (OTHER_STATE n) \<longleftrightarrow> n < 256 \<and> n \<notin> {1, 2, 3, 4, 5}"
| "state_wf _ \<longleftrightarrow> True"

definition server_wf :: "server \<Rightarrow> bool" where
  "server_wf s \<longleftrightarrow> state_wf (srv_state s) \<and> srv_id s < u64_bound \<and> loc_wf (srv_bind_to s)"

lemma state_of_code_inverse [simp]: "state_wf s \<Longrightarrow> state_of_code (state_code s) = s"
  by (cases s) (auto simp: state_of_code_def)

lemma state_code_bound: "state_wf s \<Longrightarrow> state_code s < 256"
  by (cases s) auto

lemma ip_type_bound: "ip_type a < 256"
  by (cases a) auto

lemma ip_data_length: "ip_wf a \<Longrightarrow> length (ip_data a) = 16"
  by (cases a) auto

lemma ip_of_data_inverse:
  "ip_wf a \<Longrightarrow> a = Unspec \<longrightarrow> old = Unspec \<Longrightarrow> ip_of_data old (ip_type a) (ip_data a @ r) = Some a"
  by (cases a) (auto simp: ip_of_data_def)

context e_buffer
begin

lemma unpack_pack_id [wire_simps]: "i < u64_bound \<Longrightarrow> unpack_id E (pack_id E i @ r) = Some (i, r)"
  by (simp add: unpack_id_def pack_id_def up64_pk64)

lemma pack_id_length [size_simps]: "length (pack_id E i) = id_pack_size"
  by (simp add: pack_id_def id_pack_size_def pk_lengths)

lemma unpack_pack_ipaddr [wire_simps]:
  assumes "ip_wf a" and "a = Unspec \<longrightarrow> old = Unspec"
  shows "unpack_ipaddr E old (pack_ipaddr E a @ r) = Some (a, r)"
  using assms
  by (simp add: unpack_ipaddr_def pack_ipaddr_def up8_pk8 ip_type_bound ip_data_length ip_of_data_inverse)

text \<open>Reading an unspecified address over another one keeps the other one.\<close>

lemma unpack_pack_unspec: "unpack_ipaddr E old (pack_ipaddr E Unspec @ r) = Some (old, r)"
  by (simp add: unpack_ipaddr_def pack_ipaddr_def up8_pk8 ip_of_data_def)

lemma pack_ipaddr_length [size_simps]: "ip_wf a \<Longrightarrow> length (pack_ipaddr E a) = ip_pack_size"
  by (simp add: pack_ipaddr_def pk_lengths ip_data_length ip_pack_size_def)

lemma unpack_pack_location [wire_simps]:
  "loc_wf l \<Longrightarrow> loc_address old = Unspec \<Longrightarrow> unpack_location E old (pack_location E l @ r) = Some (l, r)"
  by (simp add: unpack_location_def pack_location_def loc_wf_def unpack_pack_ipaddr up16_pk16)

lemma pack_location_length [size_simps]: "loc_wf l \<Longrightarrow> length (pack_location E l) = loc_pack_size"
  by (simp add: pack_location_def loc_wf_def pack_ipaddr_length pk_lengths loc_pack_size_def)

lemma unpack_pack_hostname:
  "length (host_address h) < 2 ^ 32 \<Longrightarrow> host_port h < 65536 \<Longrightarrow>
   unpack_hostname E (pack_hostname E h @ r) = Some (h, r)"
  by (simp add: unpack_hostname_def pack_hostname_def up_pk_slice up16_pk16)

lemma pack_hostname_length: "length (pack_hostname E h) = hostname_pack_size h"
  by (simp add: pack_hostname_def hostname_pack_size_def pk_slice_length pk_lengths)

lemma unpack_pack_server [wire_simps]:
  "server_wf s \<Longrightarrow> loc_address (srv_bind_to old) = Unspec \<Longrightarrow>
   unpack_server E old (pack_server E s @ r) = Some (s, r)"
  by (simp add: unpack_server_def pack_server_def server_wf_def up8_pk8 state_code_bound
      unpack_pack_id unpack_pack_location)

lemma pack_server_length [size_simps]: "server_wf s \<Longrightarrow> length (pack_server E s) = server_pack_size"
  by (simp add: pack_server_def server_wf_def pk_lengths pack_id_length id_pack_size_def
      pack_location_length server_pack_size_def)

end

end
