(* ===== verification/Barrier.thy ===== *)
theory Barrier
  imports Server
begin

text \<open>
  \<open>coordinator/server_barrier.{h,cc}\<close>: a barrier holds, for each version from the last completed
  one on, the servers that have not passed it. \<open>min_version\<close> is the last completed version.

  The encoding of vectors is a template of the external library \<open>e\<close>: a parameter \<open>e_vec\<close> with the
  law that it reads back what it wrote, interpreted on the encoding the library documents (a
  32-bit count and the elements).
\<close>

type_synonym server_barrier = "(u64 \<times> server_id list) list"

definition barrier_new :: server_barrier where
  "barrier_new = [(0, [])]"

definition min_version :: "server_barrier \<Rightarrow> u64" where
  "min_version m = fst (hd m)"

text \<open>The list from its last entry without servers on.\<close>

fun from_last_empty :: "server_barrier \<Rightarrow> server_barrier option" where
  "from_last_empty [] = None"
| "from_last_empty (e # m) =
     (case from_last_empty m of
        Some s \<Rightarrow> Some s
      | None \<Rightarrow> if snd e = [] then Some (e # m) else None)"

definition maybe_clear_prefix :: "server_barrier \<Rightarrow> server_barrier" where
  "maybe_clear_prefix m = (case from_last_empty m of None \<Rightarrow> m | Some s \<Rightarrow> s)"

definition new_version :: "u64 \<Rightarrow> server_id list \<Rightarrow> server_barrier \<Rightarrow> server_barrier res" where
  "new_version version servers m =
     rbind (assert_that (m \<noteq> [])) (\<lambda>_.
     rbind (assert_that (version > 0)) (\<lambda>_.
     rbind (assert_that (fst (last m) < version)) (\<lambda>_.
       Inr (maybe_clear_prefix (m @ [(version, servers)])))))"

text \<open>Removing an identifier moves the last element into its place.\<close>

function drop_sid :: "server_id \<Rightarrow> server_id list \<Rightarrow> server_id list" where
  "drop_sid sid [] = []"
| "drop_sid sid (x # xs) =
     (if x = sid then (if xs = [] then [] else drop_sid sid (last xs # butlast xs))
      else x # drop_sid sid xs)"
  by pat_completeness auto
termination
  by (relation "measure (\<lambda>(_, xs). length xs)") (auto simp: Suc_diff_le)

fun pass_at :: "u64 \<Rightarrow> server_id \<Rightarrow> server_barrier \<Rightarrow> server_barrier option" where
  "pass_at version sid [] = None"
| "pass_at version sid ((v, ss) # m) =
     (if v < version then map_option (\<lambda>m'. (v, ss) # m') (pass_at version sid m)
      else if v > version then None
      else Some ((v, drop_sid sid ss) # m))"

definition barrier_pass :: "u64 \<Rightarrow> server_id \<Rightarrow> server_barrier \<Rightarrow> server_barrier" where
  "barrier_pass version sid m =
     (case pass_at version sid m of None \<Rightarrow> m | Some m' \<Rightarrow> maybe_clear_prefix m')"

section \<open>Encoding\<close>

record e_vec =
  pk_ids :: "server_id list \<Rightarrow> byte list"
  up_ids :: "server_id list reader"
  pk_srvs :: "server list \<Rightarrow> byte list"
  up_srvs :: "server list reader"

locale e_vectors = e_buffer E for E +
  fixes V :: e_vec
  assumes up_pk_ids: "length is < 2 ^ 32 \<Longrightarrow> list_all (\<lambda>i. i < u64_bound) is \<Longrightarrow>
      up_ids V (pk_ids V is @ r) = Some (is, r)"
    and pk_ids_length: "length (pk_ids V is) = 4 + length is * 8"
    and up_pk_srvs: "length ss < 2 ^ 32 \<Longrightarrow> list_all server_wf ss \<Longrightarrow>
      up_srvs V (pk_srvs V ss @ r) = Some (ss, r)"
    and pk_srvs_length: "list_all server_wf ss \<Longrightarrow> length (pk_srvs V ss) = 4 + length ss * server_pack_size"

definition barrier_pack_size :: "server_barrier \<Rightarrow> nat" where
  "barrier_pack_size m = foldl (\<lambda>sz p. sz + 8 + (4 + length (snd p) * id_pack_size)) 4 m"

definition pack_barrier :: "e_codec \<Rightarrow> e_vec \<Rightarrow> server_barrier \<Rightarrow> byte list" where
  "pack_barrier E V m =
     pk32 E (length m mod 4294967296) @ concat (map (\<lambda>(v, ss). pk64 E v @ pk_ids V ss) m)"

fun unpack_barrier_loop :: "e_codec \<Rightarrow> e_vec \<Rightarrow> nat \<Rightarrow> server_barrier \<Rightarrow> server_barrier reader" where
  "unpack_barrier_loop E V 0 m bs = Some (m, bs)"
| "unpack_barrier_loop E V (Suc n) m bs =
     do {
       (v, bs) \<leftarrow> up64 E bs;
       (ss, bs) \<leftarrow> up_ids V bs;
       unpack_barrier_loop E V n (m @ [(v, ss)]) bs
     }"

text \<open>Reading appends to what the barrier holds.\<close>

definition unpack_barrier :: "e_codec \<Rightarrow> e_vec \<Rightarrow> server_barrier \<Rightarrow> server_barrier reader" where
  "unpack_barrier E V old bs = do { (x, bs) \<leftarrow> up32 E bs; unpack_barrier_loop E V x old bs }"

fun be_get_list :: "'a reader \<Rightarrow> nat \<Rightarrow> 'a list reader" where
  "be_get_list rd 0 bs = Some ([], bs)"
| "be_get_list rd (Suc n) bs =
     do { (x, bs) \<leftarrow> rd bs; (xs, bs) \<leftarrow> be_get_list rd n bs; Some (x # xs, bs) }"

definition be_vec :: e_vec where
  "be_vec =
     \<lparr>pk_ids = (\<lambda>is. be_put 4 (length is) @ concat (map (pack_id be_codec) is)),
      up_ids = (\<lambda>bs. do { (n, bs) \<leftarrow> be_get 4 bs; be_get_list (unpack_id be_codec) n bs }),
      pk_srvs = (\<lambda>ss. be_put 4 (length ss) @ concat (map (pack_server be_codec) ss)),
      up_srvs = (\<lambda>bs. do { (n, bs) \<leftarrow> be_get 4 bs; be_get_list (unpack_server be_codec server_default) n bs })\<rparr>"

lemma be_get_list_concat:
  assumes "\<And>x r. x \<in> set xs \<Longrightarrow> rd (wr x @ r) = Some (x, r)"
  shows "be_get_list rd (length xs) (concat (map wr xs) @ r) = Some (xs, r)"
  using assms by (induction xs) simp_all

lemma be_get_put: "n < 256 ^ k \<Longrightarrow> be_get k (be_put k n @ r) = Some (n, r)"
  by (simp add: be_get_def be_val_put)

interpretation be_vec: e_vectors be_codec be_vec
proof unfold_locales
  fix "is" :: "server_id list" and r
  assume "length is < 2 ^ 32" "list_all (\<lambda>i. i < u64_bound) is"
  then show "up_ids be_vec (pk_ids be_vec is @ r) = Some (is, r)"
    by (simp add: be_vec_def be_get_put be_get_list_concat be.unpack_pack_id list_all_iff)
next
  fix ss :: "server list" and r
  assume "length ss < 2 ^ 32" "list_all server_wf ss"
  then show "up_srvs be_vec (pk_srvs be_vec ss @ r) = Some (ss, r)"
    by (simp add: be_vec_def be_get_put be_get_list_concat be.unpack_pack_server list_all_iff
        server_default_def loc_default_def)
next
  fix "is" :: "server_id list"
  have "length (concat (map (pack_id be_codec) is)) = length is * 8"
    by (induction "is") (simp_all add: be.pack_id_length id_pack_size_def)
  then show "length (pk_ids be_vec is) = 4 + length is * 8" by (simp add: be_vec_def)
next
  fix ss :: "server list"
  assume "list_all server_wf ss"
  then have "length (concat (map (pack_server be_codec) ss)) = length ss * server_pack_size"
    by (induction ss) (simp_all add: be.pack_server_length)
  then show "length (pk_srvs be_vec ss) = 4 + length ss * server_pack_size" by (simp add: be_vec_def)
qed

section \<open>Invariant\<close>

text \<open>Versions increase; the first is complete and no later one is.\<close>

definition barrier_inv :: "server_barrier \<Rightarrow> bool" where
  "barrier_inv m \<longleftrightarrow> m \<noteq> [] \<and> sorted_wrt (<) (map fst m) \<and> snd (hd m) = [] \<and>
     list_all (\<lambda>p. snd p \<noteq> []) (tl m)"

lemma barrier_inv_new [simp]: "barrier_inv barrier_new"
  by (simp add: barrier_inv_def barrier_new_def)

lemma barrier_invE:
  assumes "barrier_inv m"
  obtains v t where "m = (v, []) # t" and "list_all (\<lambda>p. snd p \<noteq> []) t"
    and "\<forall>x \<in> fst ` set t. v < x" and "sorted_wrt (<) (map fst t)"
  using assms by (cases m) (auto simp: barrier_inv_def)

lemma from_last_empty_None: "from_last_empty m = None \<longleftrightarrow> list_all (\<lambda>p. snd p \<noteq> []) m"
  by (induction m) (auto split: option.splits)

lemma from_last_empty_split:
  "list_all (\<lambda>p. snd p \<noteq> []) t \<Longrightarrow> from_last_empty (P @ (v, []) # t) = Some ((v, []) # t)"
proof (induction P)
  case Nil
  then have "from_last_empty t = None" by (simp add: from_last_empty_None)
  then show ?case by simp
qed simp

lemma maybe_clear_prefix_split:
  "list_all (\<lambda>p. snd p \<noteq> []) t \<Longrightarrow> maybe_clear_prefix (P @ (v, []) # t) = (v, []) # t"
  by (simp add: maybe_clear_prefix_def from_last_empty_split)

lemma drop_sid_set: "set (drop_sid sid xs) = set xs - {sid}"
proof (induction sid xs rule: drop_sid.induct)
  case (2 sid x xs)
  show ?case
  proof (cases "x = sid \<and> xs \<noteq> []")
    case True
    then have "set (last xs # butlast xs) = set xs"
      by (metis append_butlast_last_id list.set(2) set_append Un_insert_right list.set(1) Un_empty_right)
    with True 2(1) show ?thesis by auto
  next
    case False
    with 2(2) show ?thesis by auto
  qed
qed simp

lemma drop_sid_empty_iff: "drop_sid sid ss = [] \<longleftrightarrow> set ss \<subseteq> {sid}"
  using drop_sid_set [of sid ss] by (metis set_empty Diff_eq_empty_iff)

section \<open>Operations\<close>

lemma new_version_eq:
  assumes "barrier_inv m" and "fst (last m) < v"
  shows "new_version v ss m = Inr (if ss = [] then [(v, [])] else m @ [(v, ss)])"
proof -
  obtain v0 t where m: "m = (v0, []) # t" and t: "list_all (\<lambda>p. snd p \<noteq> []) t"
    using assms(1) by (rule barrier_invE)
  have "maybe_clear_prefix (m @ [(v, ss)]) = (if ss = [] then [(v, [])] else m @ [(v, ss)])"
  proof (cases "ss = []")
    case True
    then show ?thesis using maybe_clear_prefix_split [of "[]" m v] by simp
  next
    case False
    then show ?thesis using maybe_clear_prefix_split [of "t @ [(v, ss)]" "[]" v0] t m by simp
  qed
  then show ?thesis using assms by (simp add: new_version_def m)
qed

lemma sorted_last_ge:
  assumes "sorted_wrt (<) (map fst m)" and "p \<in> set m"
  shows "fst p \<le> fst (last m :: u64 \<times> 'a)"
proof -
  from assms(2) have "m \<noteq> []" by auto
  then obtain xs x where m: "m = xs @ [x]" by (metis rev_exhaust)
  with assms show ?thesis by (auto simp: sorted_wrt_append intro: less_imp_le)
qed

lemma new_version_inv:
  assumes "barrier_inv m" and "fst (last m) < v"
  shows "barrier_inv (if ss = [] then [(v, [])] else m @ [(v, ss)])"
proof -
  obtain v0 t where m: "m = (v0, []) # t" using assms(1) by (rule barrier_invE)
  have "\<forall>p \<in> set m. fst p < v"
    using sorted_last_ge [of m] assms by (auto simp: barrier_inv_def intro: le_less_trans)
  then show ?thesis using assms(1) m by (auto simp: barrier_inv_def sorted_wrt_append)
qed

lemma pass_at_split:
  "\<forall>p \<in> set P. fst p < v \<Longrightarrow> pass_at v sid (P @ (v, ss) # t) = Some (P @ (v, drop_sid sid ss) # t)"
  by (induction P) auto

lemma pass_at_None:
  "v \<notin> fst ` set m \<Longrightarrow> pass_at v sid m = None"
  by (induction v sid m rule: pass_at.induct) auto

lemma barrier_pass_absent: "v \<notin> fst ` set m \<Longrightarrow> barrier_pass v sid m = m"
  by (simp add: barrier_pass_def pass_at_None)

lemma barrier_split:
  assumes "barrier_inv m" and "(v, ss) \<in> set m"
  obtains P t where "m = P @ (v, ss) # t" and "\<forall>p \<in> set P. fst p < v" and "\<forall>p \<in> set t. v < fst p"
    and "list_all (\<lambda>p. snd p \<noteq> []) t"
proof -
  obtain P t where m: "m = P @ (v, ss) # t" using assms(2) by (meson split_list)
  have "sorted_wrt (<) (map fst m)" using assms(1) by (simp add: barrier_inv_def)
  moreover have "list_all (\<lambda>p. snd p \<noteq> []) t"
    using assms(1) m by (cases P) (auto simp: barrier_inv_def)
  ultimately show thesis using that [OF m] m by (auto simp: sorted_wrt_append)
qed

lemma barrier_pass_present:
  assumes inv: "barrier_inv m" and m: "m = P @ (v, ss) # t" and P: "\<forall>p \<in> set P. fst p < v"
    and t: "list_all (\<lambda>p. snd p \<noteq> []) t"
  shows "barrier_pass v sid m =
     (if set ss \<subseteq> {sid} then (v, []) # t else P @ (v, drop_sid sid ss) # t)"
proof (cases "set ss \<subseteq> {sid}")
  case True
  then have "drop_sid sid ss = []" by (simp add: drop_sid_empty_iff)
  then show ?thesis
    using True maybe_clear_prefix_split [OF t] P by (simp add: m barrier_pass_def pass_at_split)
next
  case False
  then have d: "drop_sid sid ss \<noteq> []" by (simp add: drop_sid_empty_iff)
  have "P \<noteq> []" using False inv m by (auto simp: barrier_inv_def)
  then obtain v0 P' where P': "P = (v0, []) # P'" "list_all (\<lambda>p. snd p \<noteq> []) P'"
    using inv m by (cases P) (auto simp: barrier_inv_def)
  have "maybe_clear_prefix (P @ (v, drop_sid sid ss) # t) = P @ (v, drop_sid sid ss) # t"
    using maybe_clear_prefix_split [of "P' @ (v, drop_sid sid ss) # t" "[]" v0] P' d t by simp
  then show ?thesis using False P by (simp add: m barrier_pass_def pass_at_split)
qed

lemma barrier_pass_inv:
  assumes inv: "barrier_inv m"
  shows "barrier_inv (barrier_pass v sid m)"
proof (cases "v \<in> fst ` set m")
  case True
  then obtain ss where "(v, ss) \<in> set m" by auto
  with inv obtain P t where m: "m = P @ (v, ss) # t" and P: "\<forall>p \<in> set P. fst p < v"
    and t: "list_all (\<lambda>p. snd p \<noteq> []) t" by (rule barrier_split)
  have "barrier_inv (if set ss \<subseteq> {sid} then (v, []) # t else P @ (v, drop_sid sid ss) # t)"
  proof (cases "set ss \<subseteq> {sid}")
    case False
    then have "drop_sid sid ss \<noteq> []" "P \<noteq> []" using inv m by (auto simp: drop_sid_empty_iff barrier_inv_def)
    then show ?thesis using False inv m by (cases P) (auto simp: barrier_inv_def)
  qed (use inv m t in \<open>auto simp: barrier_inv_def sorted_wrt_append\<close>)
  then show ?thesis using barrier_pass_present [OF inv m P t] by simp
qed (simp add: barrier_pass_absent inv)

text \<open>The servers a version still waits for.\<close>

definition waiting :: "server_barrier \<Rightarrow> u64 \<Rightarrow> server_id set option" where
  "waiting m v = map_option set (map_of m v)"

text \<open>C35: a barrier opens version by version. Passing keeps its invariant; the completed version
  moves exactly when the server was the last one some outstanding version waited for, to that
  version; and the versions from there on wait for the same servers as before, without the one
  that passed.\<close>

theorem barrier_pass_spec:
  assumes inv: "barrier_inv m"
  shows "barrier_inv (barrier_pass v sid m) \<and>
    min_version (barrier_pass v sid m) =
      (if \<exists>ss. (v, ss) \<in> set m \<and> set ss \<subseteq> {sid} then v else min_version m) \<and>
    (\<forall>w \<ge> min_version (barrier_pass v sid m).
       waiting (barrier_pass v sid m) w =
         (if w = v then map_option (\<lambda>s. s - {sid}) (waiting m w) else waiting m w))"
proof (cases "v \<in> fst ` set m")
  case True
  then obtain ss where vs: "(v, ss) \<in> set m" by auto
  with inv obtain P t where m: "m = P @ (v, ss) # t" and P: "\<forall>p \<in> set P. fst p < v"
    and t: "list_all (\<lambda>p. snd p \<noteq> []) t" and tv: "\<forall>p \<in> set t. v < fst p" by (rule barrier_split)
  have ex: "(\<exists>ss. (v, ss) \<in> set m \<and> set ss \<subseteq> {sid}) \<longleftrightarrow> set ss \<subseteq> {sid}"
    using P tv unfolding m by force
  have skip: "map_of (P @ S) w = map_of S w" if "v \<le> w" for S w
    using P that by (induction P) (auto simp del: map_of_append)
  note eq = barrier_pass_present [OF inv m P t, of sid]
  show ?thesis
  proof (cases "set ss \<subseteq> {sid}")
    case True
    have "waiting ((v, []) # t) w = (if w = v then map_option (\<lambda>s. s - {sid}) (waiting m w) else waiting m w)"
      if "v \<le> w" for w
      using that True unfolding m waiting_def skip [OF that] by auto
    then show ?thesis
      using eq ex barrier_pass_inv [OF inv, of v sid] True by (simp add: min_version_def)
  next
    case False
    then have "P \<noteq> []" using inv m by (auto simp: barrier_inv_def)
    then have mv: "min_version (P @ (v, drop_sid sid ss) # t) = min_version m" by (simp add: min_version_def m)
    have "map_of (P @ (v, ss') # t) w = (case map_of P w of None \<Rightarrow> map_of ((v, ss') # t) w | Some x \<Rightarrow> Some x)"
      for ss' w by (simp add: map_add_def split: option.splits)
    moreover have "map_of P v = None" using P by (auto simp: map_of_eq_None_iff)
    ultimately have "waiting (P @ (v, drop_sid sid ss) # t) w =
        (if w = v then map_option (\<lambda>s. s - {sid}) (waiting m w) else waiting m w)" for w
      unfolding m waiting_def by (auto simp: drop_sid_set simp del: map_of_append split: option.splits)
    with mv show ?thesis using False eq ex barrier_pass_inv [OF inv, of v sid] by auto
  qed
next
  case False
  then have "waiting m v = None" by (simp add: map_of_eq_None_iff waiting_def)
  with False show ?thesis using inv barrier_pass_absent [OF False] by force
qed

theorem barrier_pass_spec_witness:
  "barrier_inv (barrier_pass 1 7 [(0, []), (1, [7]), (2, [7, 8])]) \<and>
   min_version (barrier_pass 1 7 [(0, []), (1, [7]), (2, [7, 8])]) = 1"
proof -
  have "barrier_inv [(0, []), (1, [7]), (2, [7, 8])]" by (simp add: barrier_inv_def)
  from barrier_pass_spec [OF this, of 1 7] show ?thesis by simp
qed

end
