(* ===== verification/Configuration.thy ===== *)
theory Configuration
  imports Server Block
begin

text \<open>
  \<open>common/configuration.{h,cc}\<close> and \<open>common/mapper.cc\<close>: the configuration of a cluster as its
  members see it, its lookups, its decoding, and the choice of servers for the replicas of a block.

  \<open>std::sort\<close> by the order of servers (their identifiers) is \<open>sort_key srv_id\<close>: the identifiers
  are distinct when it runs, so the result does not depend on the algorithm. The random numbers
  read from the operating system are a parameter, a stream of integers; the loop that draws from it
  may never end and is a \<open>partial_function (option)\<close>.
\<close>

section \<open>State and lookups\<close>

record configuration =
  c_cluster :: u64
  c_version :: u64
  c_flags :: u64
  c_servers :: "server list"

definition config_new :: configuration where
  "config_new = \<lparr>c_cluster = 0, c_version = 0, c_flags = 0, c_servers = []\<rparr>"

fun validate_servers :: "server list \<Rightarrow> bool" where
  "validate_servers [] = True"
| "validate_servers (s # ss) =
     (if list_ex (\<lambda>t. srv_id s = srv_id t \<or> srv_bind_to s = srv_bind_to t) ss then False
      else validate_servers ss)"

definition config_validate :: "configuration \<Rightarrow> bool" where
  "config_validate c = validate_servers (c_servers c)"

definition config_exists :: "server_id \<Rightarrow> configuration \<Rightarrow> bool" where
  "config_exists i c = list_ex (\<lambda>s. srv_id s = i) (c_servers c)"

definition server_from_id :: "server_id \<Rightarrow> configuration \<Rightarrow> server option" where
  "server_from_id i c = find (\<lambda>s. srv_id s = i) (c_servers c)"

definition get_address :: "server_id \<Rightarrow> configuration \<Rightarrow> location" where
  "get_address i c =
     (case find (\<lambda>s. srv_id s = i) (c_servers c) of None \<Rightarrow> loc_default | Some s \<Rightarrow> srv_bind_to s)"

definition get_state :: "server_id \<Rightarrow> configuration \<Rightarrow> server_state" where
  "get_state i c =
     (case find (\<lambda>s. srv_id s = i) (c_servers c) of None \<Rightarrow> KILLED | Some s \<Rightarrow> srv_state s)"

definition bump_version :: "configuration \<Rightarrow> configuration" where
  "bump_version c = c\<lparr>c_version := u64_add (c_version c) 1\<rparr>"

definition add_server :: "server \<Rightarrow> configuration \<Rightarrow> configuration res" where
  "add_server node c =
     rbind (assert_that (\<not> config_exists (srv_id node) c))
       (\<lambda>_. Inr (c\<lparr>c_servers := sort_key srv_id (c_servers c @ [node])\<rparr>))"

definition config_eq :: "configuration \<Rightarrow> configuration \<Rightarrow> bool" where
  "config_eq l r =
     (if c_cluster l \<noteq> c_cluster r \<or> c_version l \<noteq> c_version r \<or> c_flags l \<noteq> c_flags r \<or>
         length (c_servers l) \<noteq> length (c_servers r) then False
      else list_all (\<lambda>(a, b). \<not> (srv_id a \<noteq> srv_id b \<or> srv_bind_to a \<noteq> srv_bind_to b \<or>
              srv_state a \<noteq> srv_state b)) (zip (c_servers l) (c_servers r)))"

definition mapper_lookup :: "configuration \<Rightarrow> u64 \<Rightarrow> location \<times> bool" where
  "mapper_lookup c i = (let addr = get_address i c in (addr, addr \<noteq> loc_default))"

section \<open>Decoding\<close>

text \<open>
  When the bytes run out inside a server, the code still adds the server, with whatever was read
  of it, before it leaves the loop: the assertion in \<open>add_server\<close> can fail on its identifier, and
  reads a variable that was never assigned when there is none (\<open>None\<close>).
\<close>

definition partial_server_id :: "e_codec \<Rightarrow> byte list \<Rightarrow> server_id option" where
  "partial_server_id E bs =
     (case up8 E bs of
        None \<Rightarrow> None
      | Some (_, bs1) \<Rightarrow> (case unpack_id E bs1 of None \<Rightarrow> None | Some (i, _) \<Rightarrow> Some i))"

fun unpack_config_loop ::
  "e_codec \<Rightarrow> nat \<Rightarrow> configuration \<Rightarrow> byte list \<Rightarrow> (configuration \<times> byte list) option res" where
  "unpack_config_loop E 0 c bs = Inr (Some (c, bs))"
| "unpack_config_loop E (Suc n) c bs =
     (case unpack_server E server_default bs of
        None \<Rightarrow>
          (case partial_server_id E bs of
             None \<Rightarrow> Inl Undefined
           | Some i \<Rightarrow> rbind (add_server (server_new i) c) (\<lambda>_. Inr None))
      | Some (s, bs1) \<Rightarrow> rbind (add_server s c) (\<lambda>c1. unpack_config_loop E n c1 bs1))"

text \<open>The number of servers is reserved before it is known whether it was read.\<close>

definition unpack_config ::
  "e_codec \<Rightarrow> byte list \<Rightarrow> (configuration \<times> byte list) option res" where
  "unpack_config E bs =
     (case do {
         (cluster, bs) \<leftarrow> up64 E bs;
         (version, bs) \<leftarrow> up64 E bs;
         (flags, bs) \<leftarrow> up64 E bs;
         (num_servers, bs) \<leftarrow> up64 E bs;
         Some (\<lparr>c_cluster = cluster, c_version = version, c_flags = flags, c_servers = []\<rparr>, num_servers, bs)
       } of
        None \<Rightarrow> Inl Undefined
      | Some (c, num_servers, bs1) \<Rightarrow>
          if num_servers > max_reserve E then Inl Thrown else unpack_config_loop E num_servers c bs1)"

section \<open>Choosing servers\<close>

text \<open>The server a random integer selects; an empty cluster makes the code take a remainder by 0.\<close>

definition get_random_server :: "int \<Rightarrow> server list \<Rightarrow> server res" where
  "get_random_server randint servers =
     (if servers = [] then Inl Undefined
      else Inr (servers ! (nat (randint mod 18446744073709551616) mod length servers)))"

partial_function (option) draw_server ::
  "(nat \<Rightarrow> int) \<Rightarrow> nat \<Rightarrow> server list \<Rightarrow> u64 set \<Rightarrow> (server \<times> nat) res option" where
  "draw_server rnd k servers used =
     (case get_random_server (rnd k) servers of
        Inl e \<Rightarrow> Some (Inl e)
      | Inr s \<Rightarrow>
          if srv_id s \<notin> used \<and> srv_state s = AVAILABLE then Some (Inr (s, Suc k))
          else draw_server rnd (Suc k) servers used)"

text \<open>The fallback after the assertion: the next available server in turn.\<close>

fun next_available :: "nat \<Rightarrow> nat \<Rightarrow> server list \<Rightarrow> u64 option \<times> nat" where
  "next_available 0 last_srv servers = (None, last_srv)"
| "next_available (Suc n) last_srv servers =
     (let s = servers ! (last_srv mod length servers)
      in if srv_state s = AVAILABLE then (Some (srv_id s), Suc last_srv)
         else next_available n (Suc last_srv) servers)"

definition assign_fallback ::
  "server list \<Rightarrow> nat \<Rightarrow> block_location \<Rightarrow> block_location \<times> nat" where
  "assign_fallback servers last_srv b =
     (if bl_eq b bl_default then
        (case next_available (length servers) last_srv servers of
           (None, last_srv') \<Rightarrow> (b, last_srv')
         | (Some i, last_srv') \<Rightarrow> (b\<lparr>bl_si := i\<rparr>, last_srv'))
      else (b, last_srv))"

fun assign_loop ::
  "(nat \<Rightarrow> int) \<Rightarrow> nat \<Rightarrow> server list \<Rightarrow> u64 set \<Rightarrow> nat \<Rightarrow> block_location list \<Rightarrow>
     block_location list res option" where
  "assign_loop rnd k servers used last_srv [] = Some (Inr [])"
| "assign_loop rnd k servers used last_srv (b # bs) =
     (case (if bl_eq b bl_default then
              map_option (\<lambda>r. rbind r (\<lambda>(s, k').
                Inr (b\<lparr>bl_si := srv_id s\<rparr>, k', insert (srv_id s) used)))
                (draw_server rnd k servers used)
            else Some (Inr (b, k, used))) of
        None \<Rightarrow> None
      | Some (Inl e) \<Rightarrow> Some (Inl e)
      | Some (Inr (b1, k1, used1)) \<Rightarrow>
          if \<not> bl_ne b1 bl_default then Some (Inl AssertFailed)
          else
            (let (b2, last_srv2) = assign_fallback servers last_srv b1
             in map_option (\<lambda>r. rbind r (\<lambda>bs'. Inr (b2 # bs')))
                  (assign_loop rnd k1 servers used1 last_srv2 bs)))"

definition assign_local ::
  "server \<Rightarrow> u64 set \<Rightarrow> block_location list \<Rightarrow> block_location list \<times> u64 set" where
  "assign_local my_server used bl =
     (if srv_bind_to my_server \<noteq> loc_default \<and> srv_id my_server \<notin> used \<and> srv_state my_server = AVAILABLE then
        (case dropWhile (\<lambda>b. \<not> bl_eq b bl_default) bl of
           [] \<Rightarrow> (bl, used)
         | b # rest \<Rightarrow>
             (takeWhile (\<lambda>b. \<not> bl_eq b bl_default) bl @ b\<lparr>bl_si := srv_id my_server\<rparr> # rest,
              insert (srv_id my_server) used))
      else (bl, used))"

text \<open>The final check: its inner loop advances the outer index, so it compares with the first only.\<close>

fun count_check :: "block_location \<Rightarrow> nat \<Rightarrow> block_location list \<Rightarrow> bool" where
  "count_check b0 count [] = True"
| "count_check b0 count (b # bs) =
     (let count' = (if bl_eq b b0 then Suc count else count)
      in if count' = 1 then count_check b0 count' bs else False)"

definition assign_random_block_locations ::
  "(nat \<Rightarrow> int) \<Rightarrow> nat \<Rightarrow> ipaddr \<Rightarrow> configuration \<Rightarrow> block_location list \<Rightarrow> block_location list res option" where
  "assign_random_block_locations rnd last_srv my_addr c bl =
     (let location_set = set (map bl_si (filter (\<lambda>b. bl_ne b bl_default) bl));
          my_server = (case find (\<lambda>s. loc_address (srv_bind_to s) = my_addr) (c_servers c) of
                         None \<Rightarrow> server_default | Some s \<Rightarrow> s);
          (bl1, used1) = assign_local my_server location_set bl
      in map_option
           (\<lambda>r. rbind r (\<lambda>bl2.
              case bl2 of
                [] \<Rightarrow> Inr []
              | b0 # _ \<Rightarrow> rbind (assert_that (count_check b0 0 bl2)) (\<lambda>_. Inr bl2)))
           (assign_loop rnd 0 (c_servers c) used1 last_srv bl1))"

end
