(* ===== verification/Coordinator.thy ===== *)
theory Coordinator
  imports Barrier Configuration
begin

text \<open>
  \<open>coordinator/coordinator.{h,cc}\<close> and \<open>coordinator/util.h\<close>: the replicated state machine that
  owns the configuration of a cluster.

  The coordinator runs inside Replicant, which is not part of the repository. Of its interface the
  code observes two things: the result of a broadcast on a condition (\<open>None\<close> for failure, which
  leaves the output variable alone, else the new value) and the identifier of the client; both are
  parameters, over a state of the library of type \<open>'r\<close>. The calls it only makes (the response, the
  alarm, the registration of a suspect callback) are recorded in order in the context. The
  documented behaviour of conditions, counters that a broadcast increments, is the locale
  \<open>replicant_conditions\<close>.

  The loops that broadcast until a counter arrives may never end when broadcasts fail; they are a
  \<open>partial_function (option)\<close>. Vector elements are addressed by index, as the code's pointers into
  the vector are.
\<close>

section \<open>Replicant\<close>

record 'r replicant =
  rep_broadcast :: "string \<Rightarrow> 'r \<Rightarrow> u64 option \<times> 'r"
  rep_client :: "'r \<Rightarrow> u64"
  rep_create :: "string \<Rightarrow> 'r \<Rightarrow> bool \<times> 'r"

datatype effect =
    SetResponse "byte list"
  | SetAlarm string nat
  | SuspectClient u64 string "byte list"

record 'r rsm_context =
  cx_rep :: 'r
  cx_effects :: "effect list"

definition emit :: "effect \<Rightarrow> 'r rsm_context \<Rightarrow> 'r rsm_context" where
  "emit e cx = cx\<lparr>cx_effects := cx_effects cx @ [e]\<rparr>"

definition condition_broadcast :: "'r replicant \<Rightarrow> string \<Rightarrow> 'r rsm_context \<Rightarrow> u64 option \<times> 'r rsm_context" where
  "condition_broadcast R c cx =
     (let (v, r) = rep_broadcast R c (cx_rep cx) in (v, cx\<lparr>cx_rep := r\<rparr>))"

locale replicant_conditions =
  fixes R :: "'r replicant"
    and cond :: "string \<Rightarrow> 'r \<Rightarrow> u64"
  assumes broadcast_value: "cond c r + 1 < u64_bound \<Longrightarrow> fst (rep_broadcast R c r) = Some (cond c r + 1)"
    and broadcast_state: "cond c r + 1 < u64_bound \<Longrightarrow>
      cond c' (snd (rep_broadcast R c r)) = (if c' = c then cond c r + 1 else cond c' r)"

text \<open>The documented behaviour itself, with the values of the conditions as the library's state.\<close>

definition counter_replicant :: "(string \<Rightarrow> u64) replicant" where
  "counter_replicant =
     \<lparr>rep_broadcast = (\<lambda>c r. (Some (u64_add (r c) 1), r(c := u64_add (r c) 1))),
      rep_client = (\<lambda>r. 1), rep_create = (\<lambda>c r. (True, r(c := 0)))\<rparr>"

interpretation counters: replicant_conditions counter_replicant "\<lambda>c r. r c"
  by unfold_locales (simp_all add: counter_replicant_def u64_simps)

section \<open>Responses\<close>

text \<open>The two bytes of a response; the default case of the switch cannot be reached.\<close>

fun response_bytes :: "coordinator_returncode \<Rightarrow> byte list" where
  "response_bytes COORD_SUCCESS = [0x22, 0x80]"
| "response_bytes COORD_MALFORMED = [0x22, 0x81]"
| "response_bytes COORD_DUPLICATE = [0x22, 0x82]"
| "response_bytes COORD_NOT_FOUND = [0x22, 0x83]"
| "response_bytes COORD_UNINITIALIZED = [0x22, 0x85]"
| "response_bytes COORD_NO_CAN_DO = [0x22, 0x87]"

definition generate_response :: "coordinator_returncode \<Rightarrow> 'r rsm_context \<Rightarrow> 'r rsm_context" where
  "generate_response x cx = emit (SetResponse (response_bytes x)) cx"

section \<open>State\<close>

record coordinator =
  m_cluster :: u64
  m_counter :: u64
  m_version :: u64
  m_flags :: "64 word"
  m_servers :: "server list"
  m_offline :: "server list"
  m_config_ack_through :: u64
  m_config_ack_barrier :: server_barrier
  m_config_stable_through :: u64
  m_config_stable_barrier :: server_barrier
  m_checkpoint :: u64
  m_checkpoint_stable_through :: u64
  m_checkpoint_gc_through :: u64
  m_checkpoint_stable_barrier :: server_barrier
  m_latest_config :: "byte list option"

definition coordinator_new :: coordinator where
  "coordinator_new =
     \<lparr>m_cluster = 0, m_counter = 1, m_version = 0, m_flags = 0, m_servers = [], m_offline = [],
      m_config_ack_through = 0, m_config_ack_barrier = barrier_new,
      m_config_stable_through = 0, m_config_stable_barrier = barrier_new,
      m_checkpoint = 0, m_checkpoint_stable_through = 0, m_checkpoint_gc_through = 0,
      m_checkpoint_stable_barrier = barrier_new, m_latest_config = None\<rparr>"

definition alarm_interval :: nat where
  "alarm_interval = 30"

definition outstanding_checkpoints :: nat where
  "outstanding_checkpoints = 120"

section \<open>Utilities\<close>

definition new_server :: "server_id \<Rightarrow> server list \<Rightarrow> server list \<times> nat" where
  "new_server sid ss =
     (let pre = rev (dropWhile (\<lambda>s. \<not> srv_id s < sid) (rev ss))
      in (pre @ [server_new sid] @ drop (length pre) ss, length pre))"

definition get_server :: "server_id \<Rightarrow> server list \<Rightarrow> nat option" where
  "get_server sid ss =
     (let i = length (takeWhile (\<lambda>s. srv_id s \<noteq> sid) ss) in if i < length ss then Some i else None)"

definition remove_offline :: "server_id \<Rightarrow> coordinator \<Rightarrow> coordinator" where
  "remove_offline sid c = c\<lparr>m_offline := filter (\<lambda>s. srv_id s \<noteq> sid) (m_offline c)\<rparr>"

text \<open>The loop \<open>while (through + slack < target) broadcast\<close>: a failed broadcast changes nothing.\<close>

partial_function (option) broadcast_until ::
  "'r replicant \<Rightarrow> string \<Rightarrow> nat \<Rightarrow> u64 \<Rightarrow> u64 \<Rightarrow> 'r rsm_context \<Rightarrow> (u64 \<times> 'r rsm_context) option" where
  "broadcast_until R c slack target through cx =
     (if (through + slack) mod u64_bound < target then
        (case condition_broadcast R c cx of
           (None, cx') \<Rightarrow> broadcast_until R c slack target through cx'
         | (Some v, cx') \<Rightarrow> broadcast_until R c slack target v cx')
      else Some (through, cx))"

definition check_ack_condition ::
  "'r replicant \<Rightarrow> coordinator \<Rightarrow> 'r rsm_context \<Rightarrow> (coordinator \<times> 'r rsm_context) option" where
  "check_ack_condition R c cx =
     map_option (\<lambda>(t, cx'). (c\<lparr>m_config_ack_through := t\<rparr>, cx'))
       (broadcast_until R ''ack'' 0 (min_version (m_config_ack_barrier c)) (m_config_ack_through c) cx)"

definition check_stable_condition ::
  "'r replicant \<Rightarrow> coordinator \<Rightarrow> 'r rsm_context \<Rightarrow> (coordinator \<times> 'r rsm_context) option" where
  "check_stable_condition R c cx =
     map_option (\<lambda>(t, cx'). (c\<lparr>m_config_stable_through := t\<rparr>, cx'))
       (broadcast_until R ''stable'' 0 (min_version (m_config_stable_barrier c)) (m_config_stable_through c) cx)"

definition servers_in_configuration :: "coordinator \<Rightarrow> server_id list" where
  "servers_in_configuration c = remdups_adj (sort (map srv_id (m_servers c)))"

definition packed_config :: "e_codec \<Rightarrow> coordinator \<Rightarrow> byte list" where
  "packed_config E c =
     pk64 E (m_cluster c) @ pk64 E (m_version c) @ pk64 E (unat (m_flags c)) @
     pk64 E (length (m_servers c)) @ concat (map (pack_server E) (m_servers c))"

definition generate_cached_configuration :: "e_codec \<Rightarrow> coordinator \<Rightarrow> coordinator" where
  "generate_cached_configuration E c = c\<lparr>m_latest_config := Some (packed_config E c)\<rparr>"

text \<open>When the broadcast fails the assertion reads a variable that was never set.\<close>

definition generate_next_configuration ::
  "'r replicant \<Rightarrow> e_codec \<Rightarrow> coordinator \<Rightarrow> 'r rsm_context \<Rightarrow> (coordinator \<times> 'r rsm_context) run" where
  "generate_next_configuration R E c cx =
     (let (cond_state, cx1) = condition_broadcast R ''config'' cx;
          c1 = c\<lparr>m_version := u64_add (m_version c) 1\<rparr>
      in case cond_state of
           None \<Rightarrow> Some (Inl Undefined)
         | Some v \<Rightarrow>
             run_bind (lift_res (assert_that (v = m_version c1))) (\<lambda>_.
             run_bind (lift_res (new_version (m_version c1) (servers_in_configuration c1) (m_config_ack_barrier c1)))
               (\<lambda>ackb.
             run_bind (lift_res (new_version (m_version c1) (servers_in_configuration c1)
                 (m_config_stable_barrier c1))) (\<lambda>stb.
             run_bind (map_option Inr (check_ack_condition R
                 (c1\<lparr>m_config_ack_barrier := ackb, m_config_stable_barrier := stb\<rparr>) cx1)) (\<lambda>(c2, cx2).
             run_bind (map_option Inr (check_stable_condition R c2 cx2)) (\<lambda>(c3, cx3).
               ret (generate_cached_configuration E c3, cx3)))))))"

definition check_checkpoint_stable_condition ::
  "'r replicant \<Rightarrow> coordinator \<Rightarrow> 'r rsm_context \<Rightarrow> (coordinator \<times> 'r rsm_context) run" where
  "check_checkpoint_stable_condition R c cx =
     run_bind (lift_res (assert_that (m_checkpoint_stable_through c \<le> m_checkpoint c))) (\<lambda>_.
     run_bind (map_option Inr (broadcast_until R ''checkps'' 0
         (min_version (m_checkpoint_stable_barrier c)) (m_checkpoint_stable_through c) cx)) (\<lambda>(t, cx1).
     run_bind (map_option Inr (broadcast_until R ''checkpgc'' outstanding_checkpoints
         (min_version (m_checkpoint_stable_barrier c)) (m_checkpoint_gc_through c) cx1)) (\<lambda>(g, cx2).
     let c1 = c\<lparr>m_checkpoint_stable_through := t, m_checkpoint_gc_through := g\<rparr>
     in run_bind (lift_res (assert_that (m_checkpoint_stable_through c1 \<le> m_checkpoint c1))) (\<lambda>_.
        run_bind (lift_res (assert_that
            (u64_add (m_checkpoint_gc_through c1) outstanding_checkpoints \<le> m_checkpoint c1 \<or>
             m_checkpoint c1 \<le> outstanding_checkpoints))) (\<lambda>_.
          ret (c1, cx2))))))"

section \<open>Operations\<close>

definition respond ::
  "coordinator_returncode \<Rightarrow> coordinator \<times> 'r rsm_context \<Rightarrow> (coordinator \<times> 'r rsm_context) run" where
  "respond x s = ret (fst s, generate_response x (snd s))"

definition coord_init ::
  "'r replicant \<Rightarrow> e_codec \<Rightarrow> u64 \<Rightarrow> coordinator \<Rightarrow> 'r rsm_context \<Rightarrow> (coordinator \<times> 'r rsm_context) run" where
  "coord_init R E token c cx =
     (if m_cluster c \<noteq> 0 then respond COORD_SUCCESS (c, cx)
      else run_bind (generate_next_configuration R E (c\<lparr>m_cluster := token\<rparr>)
             (emit (SetAlarm ''alarm'' alarm_interval) cx)) (respond COORD_SUCCESS))"

definition config_read_only :: "64 word" where
  "config_read_only = 1"

definition read_only ::
  "'r replicant \<Rightarrow> e_codec \<Rightarrow> bool \<Rightarrow> coordinator \<Rightarrow> 'r rsm_context \<Rightarrow> (coordinator \<times> 'r rsm_context) run" where
  "read_only R E ro c cx =
     (let old_flags = m_flags c;
          c1 = c\<lparr>m_flags := (if ro then or old_flags config_read_only
                           else and old_flags (not config_read_only))\<rparr>
      in run_bind (if old_flags \<noteq> m_flags c1 then generate_next_configuration R E c1 cx else ret (c1, cx))
           (respond COORD_SUCCESS))"

definition server_register ::
  "'r replicant \<Rightarrow> e_codec \<Rightarrow> server_id \<Rightarrow> location \<Rightarrow> coordinator \<Rightarrow> 'r rsm_context \<Rightarrow>
     (coordinator \<times> 'r rsm_context) run" where
  "server_register R E sid bind_to c cx =
     (case get_server sid (m_servers c) of
        Some _ \<Rightarrow> respond COORD_DUPLICATE (c, cx)
      | None \<Rightarrow>
          (let (ss, i) = new_server sid (m_servers c)
           in run_bind (generate_next_configuration R E
                (c\<lparr>m_servers := ss[i := (ss ! i)\<lparr>srv_state := ASSIGNED, srv_bind_to := bind_to\<rparr>]\<rparr>) cx)
                (respond COORD_SUCCESS)))"

text \<open>The second part of \<open>server_online\<close>, from the test of the state on.\<close>

definition server_online_finish ::
  "'r replicant \<Rightarrow> e_codec \<Rightarrow> server_id \<Rightarrow> nat \<Rightarrow> bool \<Rightarrow> coordinator \<Rightarrow> 'r rsm_context \<Rightarrow>
     (coordinator \<times> 'r rsm_context) run" where
  "server_online_finish R E sid i changed c cx =
     (let (c1, changed1) =
            (if srv_state (m_servers c ! i) \<noteq> AVAILABLE
             then (c\<lparr>m_servers := (m_servers c)[i := (m_servers c ! i)\<lparr>srv_state := AVAILABLE\<rparr>]\<rparr>, True)
             else (c, changed))
      in run_bind (if changed1 then generate_next_configuration R E c1 cx else ret (c1, cx)) (\<lambda>(c2, cx2).
           respond COORD_SUCCESS
             (c2, emit (SuspectClient (rep_client R (cx_rep cx2)) ''server_suspect'' (be_put 8 sid)) cx2)))"

definition server_online ::
  "'r replicant \<Rightarrow> e_codec \<Rightarrow> server_id \<Rightarrow> location option \<Rightarrow> coordinator \<Rightarrow> 'r rsm_context \<Rightarrow>
     (coordinator \<times> 'r rsm_context) run" where
  "server_online R E sid bind_to c cx =
     (case get_server sid (m_servers c) of
        None \<Rightarrow> respond COORD_NOT_FOUND (c, cx)
      | Some i \<Rightarrow>
          (let srv = m_servers c ! i
           in if srv_state srv \<noteq> ASSIGNED \<and> srv_state srv \<noteq> NOT_AVAILABLE \<and> srv_state srv \<noteq> SHUTDOWN \<and>
                 srv_state srv \<noteq> AVAILABLE
              then respond COORD_NO_CAN_DO (c, cx)
              else
                (case bind_to of
                   None \<Rightarrow> server_online_finish R E sid i False c cx
                 | Some l \<Rightarrow>
                     if srv_bind_to srv = l then server_online_finish R E sid i False c cx
                     else if list_ex (\<lambda>s. srv_id s \<noteq> sid \<and> srv_bind_to s = l) (m_servers c)
                     then respond COORD_DUPLICATE (c, cx)
                     else server_online_finish R E sid i True
                            (c\<lparr>m_servers := (m_servers c)[i := srv\<lparr>srv_bind_to := l\<rparr>]\<rparr>) cx)))"

definition server_offline ::
  "'r replicant \<Rightarrow> e_codec \<Rightarrow> server_id \<Rightarrow> coordinator \<Rightarrow> 'r rsm_context \<Rightarrow> (coordinator \<times> 'r rsm_context) run" where
  "server_offline R E sid c cx =
     (case get_server sid (m_servers c) of
        None \<Rightarrow> respond COORD_NOT_FOUND (c, cx)
      | Some i \<Rightarrow>
          (let srv = m_servers c ! i
           in if srv_state srv \<noteq> ASSIGNED \<and> srv_state srv \<noteq> NOT_AVAILABLE \<and> srv_state srv \<noteq> AVAILABLE \<and>
                 srv_state srv \<noteq> SHUTDOWN
              then respond COORD_NO_CAN_DO (c, cx)
              else run_bind
                (if srv_state srv \<noteq> NOT_AVAILABLE \<and> srv_state srv \<noteq> SHUTDOWN
                 then generate_next_configuration R E
                        (c\<lparr>m_servers := (m_servers c)[i := srv\<lparr>srv_state := NOT_AVAILABLE\<rparr>]\<rparr>) cx
                 else ret (c, cx)) (respond COORD_SUCCESS)))"

definition server_shutdown ::
  "'r replicant \<Rightarrow> e_codec \<Rightarrow> server_id \<Rightarrow> coordinator \<Rightarrow> 'r rsm_context \<Rightarrow> (coordinator \<times> 'r rsm_context) run" where
  "server_shutdown R E sid c cx =
     (case get_server sid (m_servers c) of
        None \<Rightarrow> respond COORD_NOT_FOUND (c, cx)
      | Some i \<Rightarrow>
          (let srv = m_servers c ! i
           in if srv_state srv \<noteq> ASSIGNED \<and> srv_state srv \<noteq> NOT_AVAILABLE \<and> srv_state srv \<noteq> AVAILABLE \<and>
                 srv_state srv \<noteq> SHUTDOWN
              then respond COORD_NO_CAN_DO (c, cx)
              else run_bind
                (if srv_state srv \<noteq> SHUTDOWN
                 then generate_next_configuration R E
                        (c\<lparr>m_servers := (m_servers c)[i := srv\<lparr>srv_state := SHUTDOWN\<rparr>]\<rparr>) cx
                 else ret (c, cx)) (respond COORD_SUCCESS)))"

definition server_kill ::
  "'r replicant \<Rightarrow> e_codec \<Rightarrow> server_id \<Rightarrow> coordinator \<Rightarrow> 'r rsm_context \<Rightarrow> (coordinator \<times> 'r rsm_context) run" where
  "server_kill R E sid c cx =
     (case get_server sid (m_servers c) of
        None \<Rightarrow> respond COORD_NOT_FOUND (c, cx)
      | Some i \<Rightarrow>
          (let srv = m_servers c ! i
           in run_bind
                (if srv_state srv \<noteq> KILLED
                 then generate_next_configuration R E
                        (remove_offline sid
                          (c\<lparr>m_servers := (m_servers c)[i := srv\<lparr>srv_state := KILLED\<rparr>]\<rparr>)) cx
                 else ret (c, cx)) (respond COORD_SUCCESS)))"

text \<open>The loop of \<open>server_forget\<close>: the last element takes the place of a removed one and is not
  looked at again.\<close>

function forget_loop :: "server_id \<Rightarrow> server list \<Rightarrow> server list" where
  "forget_loop sid [] = []"
| "forget_loop sid (x # xs) =
     (if srv_id x = sid then (if xs = [] then [] else last xs # forget_loop sid (butlast xs))
      else x # forget_loop sid xs)"
  by pat_completeness auto
termination
  by (relation "measure (\<lambda>(_, xs). length xs)") auto

definition server_forget ::
  "'r replicant \<Rightarrow> e_codec \<Rightarrow> server_id \<Rightarrow> coordinator \<Rightarrow> 'r rsm_context \<Rightarrow> (coordinator \<times> 'r rsm_context) run" where
  "server_forget R E sid c cx =
     (case get_server sid (m_servers c) of
        None \<Rightarrow> respond COORD_NOT_FOUND (c, cx)
      | Some _ \<Rightarrow>
          run_bind (generate_next_configuration R E
            (remove_offline sid (c\<lparr>m_servers := sort_key srv_id (forget_loop sid (m_servers c))\<rparr>)) cx)
            (respond COORD_SUCCESS))"

definition server_suspect ::
  "'r replicant \<Rightarrow> e_codec \<Rightarrow> server_id \<Rightarrow> coordinator \<Rightarrow> 'r rsm_context \<Rightarrow> (coordinator \<times> 'r rsm_context) run" where
  "server_suspect R E sid c cx =
     (case get_server sid (m_servers c) of
        None \<Rightarrow> respond COORD_NOT_FOUND (c, cx)
      | Some i \<Rightarrow>
          (let srv = m_servers c ! i
           in if srv_state srv = SHUTDOWN then respond COORD_SUCCESS (c, cx)
              else if srv_state srv \<noteq> ASSIGNED \<and> srv_state srv \<noteq> NOT_AVAILABLE \<and> srv_state srv \<noteq> AVAILABLE
              then respond COORD_NO_CAN_DO (c, cx)
              else run_bind
                (if srv_state srv \<noteq> NOT_AVAILABLE \<and> srv_state srv \<noteq> SHUTDOWN
                 then generate_next_configuration R E
                        (c\<lparr>m_servers := (m_servers c)[i := srv\<lparr>srv_state := NOT_AVAILABLE\<rparr>]\<rparr>) cx
                 else ret (c, cx)) (respond COORD_SUCCESS)))"

definition report_disconnect ::
  "server_id \<Rightarrow> u64 \<Rightarrow> coordinator \<Rightarrow> 'r rsm_context \<Rightarrow> (coordinator \<times> 'r rsm_context) run" where
  "report_disconnect sid version c cx = ret (c, cx)"

definition config_get :: "coordinator \<Rightarrow> 'r rsm_context \<Rightarrow> (coordinator \<times> 'r rsm_context) run" where
  "config_get c cx =
     run_bind (lift_res (assert_that (m_cluster c \<noteq> 0 \<and> m_version c \<noteq> 0))) (\<lambda>_.
     case m_latest_config c of
       None \<Rightarrow> Some (Inl AssertFailed)
     | Some output \<Rightarrow> ret (c, emit (SetResponse output) cx))"

definition config_ack ::
  "'r replicant \<Rightarrow> server_id \<Rightarrow> u64 \<Rightarrow> coordinator \<Rightarrow> 'r rsm_context \<Rightarrow> (coordinator \<times> 'r rsm_context) run" where
  "config_ack R sid version c cx =
     map_option Inr (check_ack_condition R
       (c\<lparr>m_config_ack_barrier := barrier_pass version sid (m_config_ack_barrier c)\<rparr>) cx)"

definition config_stable ::
  "'r replicant \<Rightarrow> server_id \<Rightarrow> u64 \<Rightarrow> coordinator \<Rightarrow> 'r rsm_context \<Rightarrow> (coordinator \<times> 'r rsm_context) run" where
  "config_stable R sid version c cx =
     map_option Inr (check_stable_condition R
       (c\<lparr>m_config_stable_barrier := barrier_pass version sid (m_config_stable_barrier c)\<rparr>) cx)"

definition checkpoint ::
  "'r replicant \<Rightarrow> coordinator \<Rightarrow> 'r rsm_context \<Rightarrow> (coordinator \<times> 'r rsm_context) run" where
  "checkpoint R c cx =
     (let (r, cx1) = condition_broadcast R ''checkp'' cx;
          cond_state = (case r of None \<Rightarrow> 0 | Some v \<Rightarrow> v);
          c1 = c\<lparr>m_checkpoint := u64_add (m_checkpoint c) 1\<rparr>
      in run_bind (lift_res (assert_that (cond_state = m_checkpoint c1))) (\<lambda>_.
         run_bind (lift_res (assert_that (m_checkpoint_stable_through c1 \<le> m_checkpoint c1))) (\<lambda>_.
         run_bind (lift_res (new_version (m_checkpoint c1) (servers_in_configuration c1)
             (m_checkpoint_stable_barrier c1))) (\<lambda>b.
           check_checkpoint_stable_condition R (c1\<lparr>m_checkpoint_stable_barrier := b\<rparr>) cx1))))"

definition checkpoint_stable ::
  "'r replicant \<Rightarrow> server_id \<Rightarrow> u64 \<Rightarrow> u64 \<Rightarrow> coordinator \<Rightarrow> 'r rsm_context \<Rightarrow> (coordinator \<times> 'r rsm_context) run" where
  "checkpoint_stable R sid config number c cx =
     (if config < m_version c then respond COORD_NO_CAN_DO (c, cx)
      else run_bind (check_checkpoint_stable_condition R
             (c\<lparr>m_checkpoint_stable_barrier := barrier_pass number sid (m_checkpoint_stable_barrier c)\<rparr>) cx)
             (respond COORD_SUCCESS))"

definition coord_alarm ::
  "'r replicant \<Rightarrow> coordinator \<Rightarrow> 'r rsm_context \<Rightarrow> (coordinator \<times> 'r rsm_context) run" where
  "coord_alarm R c cx = checkpoint R c (emit (SetAlarm ''alarm'' alarm_interval) cx)"

section \<open>Snapshots\<close>

definition snapshot :: "e_codec \<Rightarrow> e_vec \<Rightarrow> coordinator \<Rightarrow> byte list" where
  "snapshot E V c =
     pk64 E (m_cluster c) @ pk64 E (m_counter c) @ pk64 E (m_version c) @ pk64 E (unat (m_flags c)) @
     pk_srvs V (m_servers c) @ pk_srvs V (m_offline c) @
     pk64 E (m_config_ack_through c) @ pack_barrier E V (m_config_ack_barrier c) @
     pk64 E (m_config_stable_through c) @ pack_barrier E V (m_config_stable_barrier c) @
     pk64 E (m_checkpoint c) @ pk64 E (m_checkpoint_stable_through c) @
     pk64 E (m_checkpoint_gc_through c) @ pack_barrier E V (m_checkpoint_stable_barrier c)"

definition snapshot_size :: "coordinator \<Rightarrow> nat" where
  "snapshot_size c =
     8 + 8 + 8 + 8 + (4 + length (m_servers c) * server_pack_size) + (4 + length (m_offline c) * server_pack_size) +
     8 + barrier_pack_size (m_config_ack_barrier c) + 8 + barrier_pack_size (m_config_stable_barrier c) +
     8 + 8 + 8 + barrier_pack_size (m_checkpoint_stable_barrier c)"

definition unpack_coordinator :: "e_codec \<Rightarrow> e_vec \<Rightarrow> coordinator \<Rightarrow> coordinator reader" where
  "unpack_coordinator E V c0 bs =
     do {
       (cluster, bs) \<leftarrow> up64 E bs;
       (counter, bs) \<leftarrow> up64 E bs;
       (version, bs) \<leftarrow> up64 E bs;
       (flags, bs) \<leftarrow> up64 E bs;
       (servers, bs) \<leftarrow> up_srvs V bs;
       (offline, bs) \<leftarrow> up_srvs V bs;
       (ack, bs) \<leftarrow> up64 E bs;
       (ackb, bs) \<leftarrow> unpack_barrier E V (m_config_ack_barrier c0) bs;
       (stable, bs) \<leftarrow> up64 E bs;
       (stb, bs) \<leftarrow> unpack_barrier E V (m_config_stable_barrier c0) bs;
       (cp, bs) \<leftarrow> up64 E bs;
       (cps, bs) \<leftarrow> up64 E bs;
       (cpgc, bs) \<leftarrow> up64 E bs;
       (cpb, bs) \<leftarrow> unpack_barrier E V (m_checkpoint_stable_barrier c0) bs;
       Some (c0\<lparr>m_cluster := cluster, m_counter := counter, m_version := version, m_flags := word_of_nat flags,
                m_servers := servers, m_offline := offline,
                m_config_ack_through := ack, m_config_ack_barrier := ackb,
                m_config_stable_through := stable, m_config_stable_barrier := stb,
                m_checkpoint := cp, m_checkpoint_stable_through := cps, m_checkpoint_gc_through := cpgc,
                m_checkpoint_stable_barrier := cpb\<rparr>, bs)
     }"

definition recreate ::
  "e_codec \<Rightarrow> e_vec \<Rightarrow> byte list \<Rightarrow> 'r rsm_context \<Rightarrow> coordinator option \<times> 'r rsm_context" where
  "recreate E V data cx =
     (case unpack_coordinator E V coordinator_new data of
        None \<Rightarrow> (None, cx)
      | Some (c, _) \<Rightarrow>
          (Some (generate_cached_configuration E c), emit (SetAlarm ''alarm'' alarm_interval) cx))"

end
