(* ===== verification/Transitions.thy ===== *)
theory Transitions
  imports Coordinator
begin

text \<open>
  \<open>coordinator/transitions.cc\<close>: the entry points Replicant calls with the object (\<open>None\<close> for a
  null pointer) and the bytes of a message. Each checks the object, decodes the message and calls
  the coordinator. Log messages are not modelled; allocation does not fail.

  \<open>strtoull\<close> with base 0 is written out: white space, a sign, a prefix that selects base 16 or 8,
  the longest run of digits, and the largest number on overflow.
\<close>

section \<open>Guards\<close>

definition protect_null ::
  "coordinator option \<Rightarrow> 'r rsm_context \<Rightarrow> (coordinator \<Rightarrow> (coordinator \<times> 'r rsm_context) run) \<Rightarrow>
     (coordinator option \<times> 'r rsm_context) run" where
  "protect_null obj cx f =
     (case obj of
        None \<Rightarrow> ret (None, generate_response COORD_UNINITIALIZED cx)
      | Some c \<Rightarrow> run_bind (f c) (\<lambda>(c', cx'). ret (Some c', cx')))"

definition protect_uninitialized ::
  "coordinator option \<Rightarrow> 'r rsm_context \<Rightarrow> (coordinator \<Rightarrow> (coordinator \<times> 'r rsm_context) run) \<Rightarrow>
     (coordinator option \<times> 'r rsm_context) run" where
  "protect_uninitialized obj cx f =
     protect_null obj cx (\<lambda>c.
       if m_cluster c = 0 then ret (c, generate_response COORD_UNINITIALIZED cx) else f c)"

text \<open>\<open>CHECK_UNPACK\<close>: the message must decode and leave nothing behind.\<close>

definition check_unpack ::
  "('a \<times> byte list) option \<Rightarrow> coordinator \<Rightarrow> 'r rsm_context \<Rightarrow>
     ('a \<Rightarrow> (coordinator \<times> 'r rsm_context) run) \<Rightarrow> (coordinator \<times> 'r rsm_context) run" where
  "check_unpack r c cx f =
     (case r of
        None \<Rightarrow> ret (c, generate_response COORD_MALFORMED cx)
      | Some (x, rest) \<Rightarrow>
          if rest \<noteq> [] then ret (c, generate_response COORD_MALFORMED cx) else f x)"

definition unpack_sid_version :: "e_codec \<Rightarrow> (server_id \<times> u64) reader" where
  "unpack_sid_version E bs =
     do { (sid, bs) \<leftarrow> unpack_id E bs; (v, bs) \<leftarrow> up64 E bs; Some ((sid, v), bs) }"

section \<open>strtoull\<close>

definition is_space :: "byte \<Rightarrow> bool" where
  "is_space b \<longleftrightarrow> b = 32 \<or> (9 \<le> b \<and> b \<le> 13)"

definition digit_value :: "byte \<Rightarrow> nat option" where
  "digit_value b =
     (if 48 \<le> b \<and> b \<le> 57 then Some (unat b - 48)
      else if 97 \<le> b \<and> b \<le> 122 then Some (unat b - 87)
      else if 65 \<le> b \<and> b \<le> 90 then Some (unat b - 55)
      else None)"

definition is_digit :: "nat \<Rightarrow> byte \<Rightarrow> bool" where
  "is_digit base b = (case digit_value b of None \<Rightarrow> False | Some d \<Rightarrow> d < base)"

definition digits_value :: "nat \<Rightarrow> byte list \<Rightarrow> nat" where
  "digits_value base ds = foldl (\<lambda>n b. n * base + the (digit_value b)) 0 ds"

definition split_base :: "byte list \<Rightarrow> nat \<times> byte list" where
  "split_base s =
     (case s of
        a # b # c # r \<Rightarrow>
          if a = 48 \<and> (b = 120 \<or> b = 88) \<and> is_digit 16 c then (16, c # r)
          else if a = 48 then (8, s) else (10, s)
      | a # r \<Rightarrow> if a = 48 then (8, s) else (10, s)
      | [] \<Rightarrow> (10, s))"

definition strtoull :: "byte list \<Rightarrow> u64" where
  "strtoull str =
     (let s = dropWhile is_space (takeWhile (\<lambda>b. b \<noteq> 0) str);
          (neg, s1) = (case s of b # r \<Rightarrow> if b = 45 then (True, r) else if b = 43 then (False, r) else (False, s)
                               | [] \<Rightarrow> (False, s));
          (base, s2) = split_base s1;
          n = digits_value base (takeWhile (is_digit base) s2)
      in if n > u64_max then u64_max
         else if neg then u64_sub 0 n else n)"

section \<open>Transitions\<close>

definition coordinator_conditions :: "string list" where
  "coordinator_conditions = [''config'', ''ack'', ''stable'', ''checkp'', ''checkps'', ''checkpgc'']"

fun create_conditions :: "'r replicant \<Rightarrow> string list \<Rightarrow> 'r rsm_context \<Rightarrow> bool \<times> 'r rsm_context" where
  "create_conditions R [] cx = (True, cx)"
| "create_conditions R (n # ns) cx =
     (let (ok, r) = rep_create R n (cx_rep cx);
          cx1 = cx\<lparr>cx_rep := r\<rparr>
      in if ok then create_conditions R ns cx1 else (False, cx1))"

definition t_create :: "'r replicant \<Rightarrow> 'r rsm_context \<Rightarrow> coordinator option \<times> 'r rsm_context" where
  "t_create R cx =
     (let (ok, cx1) = create_conditions R coordinator_conditions cx
      in (if ok then Some coordinator_new else None, cx1))"

definition t_recreate ::
  "e_codec \<Rightarrow> e_vec \<Rightarrow> byte list \<Rightarrow> 'r rsm_context \<Rightarrow> coordinator option \<times> 'r rsm_context" where
  "t_recreate E V data cx = recreate E V data cx"

text \<open>The bytes, or \<open>None\<close> when the object is null and a response is given instead.\<close>

definition t_snapshot ::
  "e_codec \<Rightarrow> e_vec \<Rightarrow> coordinator option \<Rightarrow> 'r rsm_context \<Rightarrow> byte list option \<times> 'r rsm_context" where
  "t_snapshot E V obj cx =
     (case obj of
        None \<Rightarrow> (None, generate_response COORD_UNINITIALIZED cx)
      | Some c \<Rightarrow> (Some (snapshot E V c), cx))"

type_synonym 'r transition =
  "coordinator option \<Rightarrow> byte list \<Rightarrow> 'r rsm_context \<Rightarrow> (coordinator option \<times> 'r rsm_context) run"

definition t_init :: "'r replicant \<Rightarrow> e_codec \<Rightarrow> 'r transition" where
  "t_init R E obj data cx = protect_null obj cx (\<lambda>c. coord_init R E (strtoull data) c cx)"

definition t_read_only :: "'r replicant \<Rightarrow> e_codec \<Rightarrow> 'r transition" where
  "t_read_only R E obj data cx =
     protect_uninitialized obj cx (\<lambda>c.
       check_unpack (up8 E data) c cx (\<lambda>set. read_only R E (set \<noteq> 0) c cx))"

definition t_config_get :: "'r transition" where
  "t_config_get obj data cx = protect_uninitialized obj cx (\<lambda>c. config_get c cx)"

definition t_config_ack :: "'r replicant \<Rightarrow> e_codec \<Rightarrow> 'r transition" where
  "t_config_ack R E obj data cx =
     protect_uninitialized obj cx (\<lambda>c.
       check_unpack (unpack_sid_version E data) c cx (\<lambda>(sid, version). config_ack R sid version c cx))"

definition t_config_stable :: "'r replicant \<Rightarrow> e_codec \<Rightarrow> 'r transition" where
  "t_config_stable R E obj data cx =
     protect_uninitialized obj cx (\<lambda>c.
       check_unpack (unpack_sid_version E data) c cx (\<lambda>(sid, version). config_stable R sid version c cx))"

definition t_server_register :: "'r replicant \<Rightarrow> e_codec \<Rightarrow> 'r transition" where
  "t_server_register R E obj data cx =
     protect_uninitialized obj cx (\<lambda>c.
       check_unpack
         (do { (sid, bs) \<leftarrow> unpack_id E data; (l, bs) \<leftarrow> unpack_location E loc_default bs; Some ((sid, l), bs) })
         c cx (\<lambda>(sid, bind_to). server_register R E sid bind_to c cx))"

definition t_server_online :: "'r replicant \<Rightarrow> e_codec \<Rightarrow> 'r transition" where
  "t_server_online R E obj data cx =
     protect_uninitialized obj cx (\<lambda>c.
       case unpack_id E data of
         Some (sid, []) \<Rightarrow> server_online R E sid None c cx
       | r \<Rightarrow>
           check_unpack
             (do { (sid, bs) \<leftarrow> r; (l, bs) \<leftarrow> unpack_location E loc_default bs; Some ((sid, l), bs) })
             c cx (\<lambda>(sid, bind_to). server_online R E sid (Some bind_to) c cx))"

definition t_server_offline :: "'r replicant \<Rightarrow> e_codec \<Rightarrow> 'r transition" where
  "t_server_offline R E obj data cx =
     protect_uninitialized obj cx (\<lambda>c.
       check_unpack (unpack_id E data) c cx (\<lambda>sid. server_offline R E sid c cx))"

definition t_server_shutdown :: "'r replicant \<Rightarrow> e_codec \<Rightarrow> 'r transition" where
  "t_server_shutdown R E obj data cx =
     protect_uninitialized obj cx (\<lambda>c.
       check_unpack (unpack_id E data) c cx (\<lambda>sid. server_shutdown R E sid c cx))"

definition t_server_kill :: "'r replicant \<Rightarrow> e_codec \<Rightarrow> 'r transition" where
  "t_server_kill R E obj data cx =
     protect_uninitialized obj cx (\<lambda>c.
       check_unpack (unpack_id E data) c cx (\<lambda>sid. server_kill R E sid c cx))"

definition t_server_forget :: "'r replicant \<Rightarrow> e_codec \<Rightarrow> 'r transition" where
  "t_server_forget R E obj data cx =
     protect_uninitialized obj cx (\<lambda>c.
       check_unpack (unpack_id E data) c cx (\<lambda>sid. server_forget R E sid c cx))"

definition t_server_suspect :: "'r replicant \<Rightarrow> e_codec \<Rightarrow> 'r transition" where
  "t_server_suspect R E obj data cx =
     protect_uninitialized obj cx (\<lambda>c.
       check_unpack (unpack_id E data) c cx (\<lambda>sid. server_suspect R E sid c cx))"

definition t_report_disconnect :: "e_codec \<Rightarrow> 'r transition" where
  "t_report_disconnect E obj data cx =
     protect_uninitialized obj cx (\<lambda>c.
       check_unpack (unpack_sid_version E data) c cx (\<lambda>(sid, version). report_disconnect sid version c cx))"

definition t_checkpoint_stable :: "'r replicant \<Rightarrow> e_codec \<Rightarrow> 'r transition" where
  "t_checkpoint_stable R E obj data cx =
     protect_uninitialized obj cx (\<lambda>c.
       check_unpack
         (do { (sid, bs) \<leftarrow> unpack_id E data; (g, bs) \<leftarrow> up64 E bs; (n, bs) \<leftarrow> up64 E bs; Some ((sid, g, n), bs) })
         c cx (\<lambda>(sid, config, number). checkpoint_stable R sid config number c cx))"

definition t_alarm :: "'r replicant \<Rightarrow> 'r transition" where
  "t_alarm R obj data cx = protect_uninitialized obj cx (\<lambda>c. coord_alarm R c cx)"

definition t_debug_dump :: "'r transition" where
  "t_debug_dump obj data cx = protect_uninitialized obj cx (\<lambda>c. ret (c, cx))"

text \<open>\<open>coordinator/symtable.c\<close>: the transitions by the names Replicant and the callbacks use.\<close>

definition symtable :: "'r replicant \<Rightarrow> e_codec \<Rightarrow> (string \<times> 'r transition) list" where
  "symtable R E =
     [(''config_get'', t_config_get),
      (''config_ack'', t_config_ack R E),
      (''server_register'', t_server_register R E),
      (''server_online'', t_server_online R E),
      (''server_offline'', t_server_offline R E),
      (''server_shutdown'', t_server_shutdown R E),
      (''server_kill'', t_server_kill R E),
      (''server_forget'', t_server_forget R E),
      (''server_suspect'', t_server_suspect R E),
      (''report_disconnect'', t_report_disconnect E),
      (''checkpoint_stable'', t_checkpoint_stable R E),
      (''alarm'', t_alarm R),
      (''read_only'', t_read_only R E),
      (''debug_dump'', t_debug_dump),
      (''init'', t_init R E)]"

end
