(* ===== verification/ConfigurationProps.thy ===== *)
theory ConfigurationProps
  imports Configuration
begin

text \<open>
  Correctness of the configuration: validation, the sorted table of servers, its decoding with all the ways it can
  fail, and
  the choice of servers for a block, with what it promises when it returns and when it cannot.
\<close>

section \<open>The table of servers\<close>

definition servers_sorted :: "server list \<Rightarrow> bool" where
  "servers_sorted ss \<longleftrightarrow> sorted_wrt (<) (map srv_id ss)"

lemma servers_sorted_distinct: "servers_sorted ss \<Longrightarrow> distinct (map srv_id ss)"
  by (simp add: servers_sorted_def strict_sorted_iff)

lemma sort_key_sorted_strict:
  "distinct (map srv_id ss) \<Longrightarrow> servers_sorted (sort_key srv_id ss)"
  by (simp add: servers_sorted_def strict_sorted_iff distinct_map)

lemma sort_key_snoc_last:
  assumes "servers_sorted (ss @ [s])"
  shows "sort_key srv_id (ss @ [s]) = ss @ [s]"
  using assms by (intro sort_key_id_if_sorted) (simp add: servers_sorted_def strict_sorted_iff)

lemma find_None_iff_exists: "find (\<lambda>s. srv_id s = i) ss = None \<longleftrightarrow> \<not> list_ex (\<lambda>s. srv_id s = i) ss"
  by (auto simp: find_None_iff list_ex_iff)

lemma find_distinct:
  assumes "distinct (map srv_id ss)"
  shows "find (\<lambda>s. srv_id s = i) ss = Some s \<longleftrightarrow> s \<in> set ss \<and> srv_id s = i"
  using assms by (induction ss) auto

lemma config_exists_iff: "config_exists i c \<longleftrightarrow> i \<in> srv_id ` set (c_servers c)"
  by (auto simp: config_exists_def list_ex_iff)

lemma validate_servers_distinct:
  "validate_servers ss \<longleftrightarrow> distinct (map srv_id ss) \<and> distinct (map srv_bind_to ss)"
  by (induction ss) (auto simp: list_ex_iff)

text \<open>A configuration is valid exactly when no two of its servers share an identifier or an
  address.\<close>

theorem config_validate_iff:
  "config_validate c \<longleftrightarrow>
     distinct (map srv_id (c_servers c)) \<and> distinct (map srv_bind_to (c_servers c))"
  by (simp add: config_validate_def validate_servers_distinct)

text \<open>Adding a server aborts exactly when its identifier is taken. Otherwise the table stays
  sorted by identifier, finds the new server under its identifier, and finds every other
  identifier as before.\<close>

theorem add_server_inserts:
  assumes "servers_sorted (c_servers c)"
  shows "(add_server s c = Inl AssertFailed \<longleftrightarrow> config_exists (srv_id s) c) \<and>
    (\<forall>c'. add_server s c = Inr c' \<longrightarrow> servers_sorted (c_servers c') \<and>
       server_from_id (srv_id s) c' = Some s \<and>
       (\<forall>i. i \<noteq> srv_id s \<longrightarrow> server_from_id i c' = server_from_id i c))"
proof (cases "config_exists (srv_id s) c")
  case True
  then show ?thesis by (simp add: add_server_def)
next
  case False
  define ss where "ss = sort_key srv_id (c_servers c @ [s])"
  have d: "distinct (map srv_id (c_servers c @ [s]))"
    using servers_sorted_distinct [OF assms] False by (auto simp: config_exists_iff)
  have so: "servers_sorted ss" unfolding ss_def using d by (rule sort_key_sorted_strict)
  have f: "find (\<lambda>t. srv_id t = i) ss = Some t \<longleftrightarrow> (t = s \<and> i = srv_id s) \<or>
      find (\<lambda>t. srv_id t = i) (c_servers c) = Some t" for i t
    using find_distinct [OF servers_sorted_distinct [OF so]] find_distinct [OF servers_sorted_distinct [OF assms]]
    by (auto simp: ss_def)
  have new: "find (\<lambda>t. srv_id t = srv_id s) ss = Some s" using f by blast
  have other: "find (\<lambda>t. srv_id t = i) ss = find (\<lambda>t. srv_id t = i) (c_servers c)" if "i \<noteq> srv_id s" for i
    using f [of i] that by (metis not_Some_eq)
  show ?thesis
    using False so new other by (auto simp: add_server_def server_from_id_def ss_def [symmetric])
qed

theorem add_server_inserts_witness:
  "\<exists>c'. add_server (server_new 2) (config_new\<lparr>c_servers := [server_new 1, server_new 3]\<rparr>) = Inr c' \<and>
     servers_sorted (c_servers c') \<and> server_from_id 2 c' = Some (server_new 2)"
proof -
  let ?c = "config_new\<lparr>c_servers := [server_new 1, server_new 3]\<rparr>"
  have s: "servers_sorted (c_servers ?c)" by (simp add: servers_sorted_def server_new_def)
  have n: "\<not> config_exists (srv_id (server_new 2)) ?c" by (simp add: config_exists_def server_new_def)
  have "\<exists>c'. add_server (server_new 2) ?c = Inr c'" using n by (simp add: add_server_def)
  then show ?thesis using add_server_inserts [OF s, of "server_new 2"] by (auto simp: server_new_def)
qed

section \<open>Decoding\<close>

definition pack_servers :: "e_codec \<Rightarrow> server list \<Rightarrow> byte list" where
  "pack_servers E ss = concat (map (pack_server E) ss)"

context e_buffer
begin

lemma unpack_config_loop_pack:
  assumes "servers_sorted (c_servers c @ ss)" and "list_all server_wf ss"
  shows "unpack_config_loop E (length ss) c (pack_servers E ss @ r) =
     Inr (Some (c\<lparr>c_servers := c_servers c @ ss\<rparr>, r))"
  using assms
proof (induction ss arbitrary: c)
  case Nil
  then show ?case by (simp add: pack_servers_def)
next
  case (Cons s ss)
  have u: "unpack_server E server_default (pack_server E s @ pack_servers E ss @ r) = Some (s, pack_servers E ss @ r)"
    using Cons.prems(2) by (intro unpack_pack_server) (simp_all add: server_default_def loc_default_def)
  have ss: "servers_sorted (c_servers c @ [s])"
    using Cons.prems(1) by (auto simp: servers_sorted_def sorted_wrt_append)
  have "\<not> config_exists (srv_id s) c"
    using Cons.prems(1) by (auto simp: config_exists_iff servers_sorted_def sorted_wrt_append)
  then have a: "add_server s c = Inr (c\<lparr>c_servers := c_servers c @ [s]\<rparr>)"
    using sort_key_snoc_last [OF ss] by (simp add: add_server_def)
  show ?case
    using u a Cons.IH [of "c\<lparr>c_servers := c_servers c @ [s]\<rparr>"] Cons.prems by (simp add: pack_servers_def)
qed

lemma unpack_config_pack:
  assumes "servers_sorted ss" and "list_all server_wf ss" and "length ss < u64_bound" and "length ss \<le> max_reserve E"
    and "cl < u64_bound" and "v < u64_bound" and "fl < u64_bound"
  shows "unpack_config E (pk64 E cl @ pk64 E v @ pk64 E fl @ pk64 E (length ss) @ pack_servers E ss @ r) =
     Inr (Some (\<lparr>c_cluster = cl, c_version = v, c_flags = fl, c_servers = ss\<rparr>, r))"
  using assms unpack_config_loop_pack [of "\<lparr>c_cluster = cl, c_version = v, c_flags = fl, c_servers = []\<rparr>" ss r]
  by (simp add: unpack_config_def up64_pk64)

end

text \<open>What decoding gives, whatever the bytes are.\<close>

lemma add_server_sorted:
  assumes "add_server s c = Inr c'" and "servers_sorted (c_servers c)"
  shows "servers_sorted (c_servers c') \<and> set (c_servers c') = insert s (set (c_servers c)) \<and>
    c_cluster c' = c_cluster c \<and> c_version c' = c_version c \<and> c_flags c' = c_flags c \<and>
    length (c_servers c') = Suc (length (c_servers c))"
proof -
  have n: "\<not> config_exists (srv_id s) c" and c': "c' = c\<lparr>c_servers := sort_key srv_id (c_servers c @ [s])\<rparr>"
    using assms(1) by (auto simp: add_server_def assert_that_def split: if_splits)
  then have "distinct (map srv_id (c_servers c @ [s]))"
    using servers_sorted_distinct [OF assms(2)] by (auto simp: config_exists_iff)
  from sort_key_sorted_strict [OF this] show ?thesis by (simp add: c')
qed

context e_buffer
begin

lemma unpack_server_wf:
  assumes "unpack_server E old bs = Some (s, r)" and "loc_address (srv_bind_to old) = Unspec"
  shows "server_wf s"
proof -
  from assms(1) obtain st b1 i b2 ty b3 a p b4 where u: "up8 E bs = Some (st, b1)" "up64 E b1 = Some (i, b2)"
    "up8 E b2 = Some (ty, b3)" "16 \<le> length b3" "ip_of_data Unspec ty b3 = Some a" "up16 E (drop 16 b3) = Some (p, b4)"
    and s: "s = \<lparr>srv_state = state_of_code st, srv_id = i, srv_bind_to = \<lparr>loc_address = a, loc_port = p\<rparr>\<rparr>"
    using assms(2) by (auto simp: unpack_server_def unpack_id_def unpack_location_def unpack_ipaddr_def
        split: bind_splits if_splits prod.splits)
  have "p < 65536" using int_codec.up_rest [OF codec16 u(6)] by simp
  moreover have "ip_wf a" using u(4,5) by (auto simp: ip_of_data_def split: if_splits)
  moreover have "state_wf (state_of_code st)" using up8_rest [OF u(1)] by (simp add: state_of_code_def)
  ultimately show ?thesis using up64_rest [OF u(2)] by (simp add: s server_wf_def loc_wf_def)
qed

lemma unpack_server_size:
  assumes "unpack_server E old bs = Some (s, r)"
  shows "28 \<le> length bs \<and> r = drop 28 bs \<and> up64 E (drop 1 bs) = Some (srv_id s, drop 9 bs)"
proof -
  from assms obtain st b1 i b2 ty b3 p b4 where u: "up8 E bs = Some (st, b1)" "up64 E b1 = Some (i, b2)"
    "up8 E b2 = Some (ty, b3)" "16 \<le> length b3" "up16 E (drop 16 b3) = Some (p, r)" "srv_id s = i"
    by (auto simp: unpack_server_def unpack_id_def unpack_location_def unpack_ipaddr_def split: bind_splits if_splits prod.splits)
  from up8_rest [OF u(1)] up64_rest [OF u(2)] up8_rest [OF u(3)] int_codec.up_rest [OF codec16 u(5)] u show ?thesis
    by auto
qed

lemma partial_server_id_eq:
  "partial_server_id E bs = (if length bs < 9 then None else map_option fst (up64 E (drop 1 bs)))"
proof (cases "up8 E bs")
  case None
  then have "length bs < 1" using int_codec.up_long [OF codec8, of bs] by (metis None leI option.distinct(1))
  then show ?thesis using None by (simp add: partial_server_id_def)
next
  case (Some p)
  obtain x b where p: "p = (x, b)" by (cases p)
  with Some have b: "b = drop 1 bs" using up8_rest by blast
  show ?thesis
  proof (cases "length bs < 9")
    case True
    then have "up64 E (drop 1 bs) = None" using int_codec.up_short [OF codec64, of "drop 1 bs"] by simp
    then show ?thesis using Some p b True by (simp add: partial_server_id_def unpack_id_def)
  next
    case False
    then show ?thesis using Some p b by (auto simp: partial_server_id_def unpack_id_def split: option.split)
  qed
qed

end

text \<open>The identifier of the server at a place of the bytes, where it is complete.\<close>

definition id_at :: "e_codec \<Rightarrow> byte list \<Rightarrow> nat \<Rightarrow> u64 option" where
  "id_at E bs i = map_option fst (up64 E (drop (1 + 28 * i) bs))"

definition loop_result :: "e_codec \<Rightarrow> nat \<Rightarrow> configuration \<Rightarrow> byte list \<Rightarrow> (configuration \<times> byte list) option res \<Rightarrow> bool" where
  "loop_result E n c bs r \<longleftrightarrow>
     (case r of
        Inl AssertFailed \<Rightarrow> (\<exists>i < n. \<exists>x. id_at E bs i = Some x \<and> config_exists x c) \<or>
          (\<exists>i j x. i < j \<and> j < n \<and> id_at E bs i = Some x \<and> id_at E bs j = Some x)
      | Inl Undefined \<Rightarrow> (\<exists>k < n. 28 * k \<le> length bs \<and> length bs < 28 * k + 9)
      | Inl Thrown \<Rightarrow> False
      | Inr None \<Rightarrow> n \<noteq> 0
      | Inr (Some (c', rest)) \<Rightarrow> 28 * n \<le> length bs \<and> rest = drop (28 * n) bs \<and>
          servers_sorted (c_servers c') \<and> list_all server_wf (c_servers c') \<and> length (c_servers c') = length (c_servers c) + n \<and>
          c_cluster c' = c_cluster c \<and> c_version c' = c_version c \<and> c_flags c' = c_flags c)"

lemma id_at_drop: "id_at E (drop 28 bs) i = id_at E bs (Suc i)"
  by (simp add: id_at_def add.commute)

text \<open>One server more in front.\<close>

lemma loop_result_Suc:
  assumes r: "loop_result E n c1 (drop 28 bs) r" and len: "28 \<le> length bs"
    and c1: "c_cluster c1 = c_cluster c" "c_version c1 = c_version c" "c_flags c1 = c_flags c"
      "length (c_servers c1) = Suc (length (c_servers c))"
    and x: "id_at E bs 0 = Some x" "\<And>y. config_exists y c1 \<longleftrightarrow> y = x \<or> config_exists y c"
  shows "loop_result E (Suc n) c bs r"
proof (cases r)
  case (Inl f)
  show ?thesis
  proof (cases f)
    case AssertFailed
    from r Inl AssertFailed consider (old) i y where "i < n" "id_at E bs (Suc i) = Some y" "y = x \<or> config_exists y c"
      | (two) i j y where "i < j" "j < n" "id_at E bs (Suc i) = Some y" "id_at E bs (Suc j) = Some y"
      by (auto simp: loop_result_def id_at_drop x(2))
    then show ?thesis
    proof cases
      case old
      then have "Suc i < Suc n" by simp
      show ?thesis
      proof (cases "config_exists y c")
        case True
        with \<open>Suc i < Suc n\<close> old Inl AssertFailed show ?thesis unfolding loop_result_def by auto
      next
        case False
        with old x(1) have "id_at E bs 0 = Some y" "id_at E bs (Suc i) = Some y" by auto
        then have "\<exists>i j x. i < j \<and> j < Suc n \<and> id_at E bs i = Some x \<and> id_at E bs j = Some x"
          using \<open>Suc i < Suc n\<close> zero_less_Suc by blast
        then show ?thesis using Inl AssertFailed by (simp add: loop_result_def)
      qed
    next
      case two
      then have "Suc i < Suc j" "Suc j < Suc n" by simp_all
      with two(3,4) have "\<exists>i j x. i < j \<and> j < Suc n \<and> id_at E bs i = Some x \<and> id_at E bs j = Some x" by blast
      then show ?thesis using Inl AssertFailed by (simp add: loop_result_def)
    qed
  next
    case Undefined
    with r Inl obtain k where "k < n" "28 * k \<le> length bs - 28" "length bs - 28 < 28 * k + 9" by (auto simp: loop_result_def)
    then have "Suc k < Suc n" "28 * Suc k \<le> length bs" "length bs < 28 * Suc k + 9" using len by auto
    then have "\<exists>k < Suc n. 28 * k \<le> length bs \<and> length bs < 28 * k + 9" by blast
    then show ?thesis using Inl Undefined by (simp add: loop_result_def)
  qed (use r Inl in \<open>simp add: loop_result_def\<close>)
next
  case (Inr y)
  then show ?thesis using r len c1 by (auto simp: loop_result_def add.commute split: option.splits)
qed

context e_buffer
begin

lemma unpack_config_loop_result:
  assumes "servers_sorted (c_servers c)" and "list_all server_wf (c_servers c)"
  shows "loop_result E n c bs (unpack_config_loop E n c bs)"
  using assms
proof (induction n arbitrary: c bs)
  case (Suc n)
  show ?case
  proof (cases "unpack_server E server_default bs")
    case None
    show ?thesis
    proof (cases "length bs < 9")
      case True
      then have "unpack_config_loop E (Suc n) c bs = Inl Undefined" using None by (simp add: partial_server_id_eq)
      then show ?thesis using True by (auto simp: loop_result_def intro!: exI [of _ 0])
    next
      case False
      then have "8 \<le> length (drop 1 bs)" by simp
      then obtain x where "id_at E bs 0 = Some x"
        using int_codec.up_long [OF codec64, of "drop 1 bs"] by (auto simp: id_at_def)
      moreover from this have "partial_server_id E bs = Some x" using False by (simp add: partial_server_id_eq id_at_def)
      ultimately show ?thesis using None by (auto simp: loop_result_def add_server_def assert_that_def server_new_def)
    qed
  next
    case (Some p)
    obtain s b where p: "p = (s, b)" by (cases p)
    note u = Some [unfolded p]
    from unpack_server_size [OF u] have b: "28 \<le> length bs" "b = drop 28 bs" and i: "id_at E bs 0 = Some (srv_id s)"
      by (simp_all add: id_at_def)
    have wf: "server_wf s" by (rule unpack_server_wf [OF u]) (simp add: server_default_def loc_default_def)
    show ?thesis
    proof (cases "config_exists (srv_id s) c")
      case True
      then show ?thesis using u i by (auto simp: loop_result_def add_server_def)
    next
      case False
      then obtain c1 where c1: "add_server s c = Inr c1" by (simp add: add_server_def)
      note a = add_server_sorted [OF c1 Suc.prems(1)]
      have "list_all server_wf (c_servers c1)" using a wf Suc.prems(2) by (simp add: list_all_iff)
      moreover have "config_exists y c1 \<longleftrightarrow> y = srv_id s \<or> config_exists y c" for y
        using a by (auto simp: config_exists_iff)
      ultimately show ?thesis using loop_result_Suc [OF Suc.IH [of c1 "drop 28 bs"] b(1), of c "srv_id s"] a i u c1 b(2)
        by simp
    qed
  qed
qed (simp add: loop_result_def)

end

text \<open>The number of servers the header of a configuration announces, when it is complete.\<close>

definition sent_count :: "e_codec \<Rightarrow> byte list \<Rightarrow> u64 option" where
  "sent_count E bs = map_option fst (up64 E (drop 24 bs))"

text \<open>C29: decoding a configuration, whatever bytes a member of the cluster receives. It gives an error, which an
  announced server that is cut short or malformed causes, or a configuration
  that is well formed: every field is in the range of its type, the addresses have their lengths, and the
  servers, as many as were announced, are in the order of their identifiers, none of which occurs twice; the rest
  of the bytes is left. Otherwise it fails in one of three ways: it reads a variable that was never set, when the header
  is incomplete or the bytes end before the identifier of a server; it throws, when more servers are
  announced than there is room for; or it fails the assertion about identifiers, when two of them are equal.\<close>

theorem decoded_config_ok:
  assumes "e_buffer E"
  shows "case unpack_config E bs of
      Inl Undefined \<Rightarrow> length bs < 32 \<or>
        (\<exists>n k. sent_count E bs = Some n \<and> k < n \<and> 32 + 28 * k \<le> length bs \<and> length bs < 32 + 28 * k + 9)
    | Inl Thrown \<Rightarrow> (\<exists>n. sent_count E bs = Some n \<and> max_reserve E < n)
    | Inl AssertFailed \<Rightarrow> (\<exists>n i j x. sent_count E bs = Some n \<and> i < j \<and> j < n \<and>
        id_at E (drop 32 bs) i = Some x \<and> id_at E (drop 32 bs) j = Some x)
    | Inr None \<Rightarrow> 32 \<le> length bs \<and> sent_count E bs \<noteq> Some 0
    | Inr (Some (c, rest)) \<Rightarrow> c_cluster c < u64_bound \<and> c_version c < u64_bound \<and> c_flags c < u64_bound \<and>
        sent_count E bs = Some (length (c_servers c)) \<and> rest = drop (32 + 28 * length (c_servers c)) bs \<and>
        list_all server_wf (c_servers c) \<and> servers_sorted (c_servers c)"
proof (cases "length bs < 32")
  case True
  have "do { (cluster, bs) \<leftarrow> up64 E bs; (version, bs) \<leftarrow> up64 E bs; (flags, bs) \<leftarrow> up64 E bs;
      (num_servers, bs) \<leftarrow> up64 E bs;
      Some (\<lparr>c_cluster = cluster, c_version = version, c_flags = flags, c_servers = []\<rparr>, num_servers, bs) } = None"
    using True by (auto split: bind_splits dest!: e_buffer.up64_rest [OF assms])
  then show ?thesis using True by (simp add: unpack_config_def)
next
  case False
  have long: "\<exists>x < u64_bound. up64 E b = Some (x, drop 8 b)" if "8 \<le> length b" for b
    using int_codec.up_long [OF e_buffer.codec64 [OF assms] that] by simp
  have field: "\<exists>x < u64_bound. up64 E (drop k bs) = Some (x, drop (k + 8) bs)" if "k \<le> 24" for k
  proof -
    have "8 \<le> length (drop k bs)" using that False by simp
    from long [OF this] show ?thesis by (simp add: add.commute)
  qed
  obtain cl v fl n where u: "up64 E bs = Some (cl, drop 8 bs)" "up64 E (drop 8 bs) = Some (v, drop 16 bs)"
    "up64 E (drop 16 bs) = Some (fl, drop 24 bs)" "up64 E (drop 24 bs) = Some (n, drop 32 bs)"
    and b: "cl < u64_bound" "v < u64_bound" "fl < u64_bound"
    using field [of 0] field [of 8] field [of 16] field [of 24] by auto
  let ?c = "\<lparr>c_cluster = cl, c_version = v, c_flags = fl, c_servers = []\<rparr>"
  have n: "sent_count E bs = Some n" using u(4) by (simp add: sent_count_def)
  show ?thesis
  proof (cases "max_reserve E < n")
    case True
    then show ?thesis using u n by (simp add: unpack_config_def)
  next
    case room: False
    then have r: "unpack_config E bs = unpack_config_loop E n ?c (drop 32 bs)" using u by (simp add: unpack_config_def)
    have "loop_result E n ?c (drop 32 bs) (unpack_config E bs)"
      unfolding r using e_buffer.unpack_config_loop_result [OF assms, of ?c n "drop 32 bs"] by (simp add: servers_sorted_def)
    then show ?thesis using False n b
      by (auto simp: loop_result_def config_exists_def add.commute split: sum.splits fault.splits option.splits)
  qed
qed

text \<open>Two servers in the wrong order are put in order.\<close>

theorem decoded_config_ok_witness:
  "\<exists>c. unpack_config be_codec (concat (map (pk64 be_codec) [1, 2, 0, 2]) @
       pack_servers be_codec [server_new 7, server_new 3]) = Inr (Some (c, [])) \<and>
     map srv_id (c_servers c) = [3, 7] \<and> list_all server_wf (c_servers c)"
proof -
  have wf: "server_wf (server_new 7)" "server_wf (server_new 3)"
    by (simp_all add: server_wf_def server_new_def loc_wf_def loc_default_def)
  let ?c = "\<lparr>c_cluster = 1, c_version = 2, c_flags = 0, c_servers = [server_new 3, server_new 7]\<rparr>"
  have old: "loc_address (srv_bind_to server_default) = Unspec" by (simp add: server_default_def loc_default_def)
  have "unpack_config be_codec (concat (map (pk64 be_codec) [1, 2, 0, 2]) @
       pack_servers be_codec [server_new 7, server_new 3]) = Inr (Some (?c, []))"
    using be.unpack_pack_server [OF wf(1) old] be.unpack_pack_server [OF wf(2) old, of "[]"]
    by (simp add: unpack_config_def be.up64_pk64 pack_servers_def numeral_2_eq_2 add_server_def config_exists_def
        server_new_def sort_key_def insort_key_def max_reserve_be)
  with decoded_config_ok [OF be.e_buffer_axioms, of "concat (map (pk64 be_codec) [1, 2, 0, 2]) @
       pack_servers be_codec [server_new 7, server_new 3]"] show ?thesis
    by (simp add: server_new_def)
qed

section \<open>Choosing servers\<close>

lemma bl_eq_default_iff: "bl_eq b bl_default \<longleftrightarrow> bl_si b = u64_max"
  by (simp add: bl_eq_iff_server bl_default_def)

definition usable :: "server list \<Rightarrow> u64 set \<Rightarrow> server \<Rightarrow> bool" where
  "usable servers used s \<longleftrightarrow> s \<in> set servers \<and> srv_id s \<notin> used \<and> srv_state s = AVAILABLE"

lemma get_random_server_Inr:
  "get_random_server r servers = Inr s \<Longrightarrow> s \<in> set servers"
  by (auto simp: get_random_server_def split: if_splits)

definition draw_ok :: "server list \<Rightarrow> u64 set \<Rightarrow> (server \<times> nat) res \<Rightarrow> bool" where
  "draw_ok servers used r \<longleftrightarrow>
     (case r of Inl e \<Rightarrow> servers = [] | Inr (s, k) \<Rightarrow> usable servers used s)"

lemma draw_server_sound:
  assumes "draw_server rnd k servers used = Some r"
  shows "draw_ok servers used r"
proof (rule draw_server.raw_induct [where P = "\<lambda>rnd k servers used r. draw_ok servers used r", OF _ assms])
  fix f rnd k servers used r
  assume IH: "\<And>rnd k servers used r. f rnd k servers used = Some r \<Longrightarrow> draw_ok servers used r"
    and eq: "(case get_random_server (rnd k) servers of Inl e \<Rightarrow> Some (Inl e)
      | Inr s \<Rightarrow> if srv_id s \<notin> used \<and> srv_state s = AVAILABLE then Some (Inr (s, Suc k))
               else f rnd (Suc k) servers used) = Some r"
  show "draw_ok servers used r"
  proof (cases "get_random_server (rnd k) servers")
    case (Inl e)
    with eq show ?thesis by (auto simp: draw_ok_def get_random_server_def split: if_splits)
  next
    case (Inr s)
    with eq IH get_random_server_Inr [OF Inr] show ?thesis
      by (auto simp: draw_ok_def usable_def split: if_splits)
  qed
qed

text \<open>The draw returns as soon as the random numbers select a server that can be used, and never
  when there is none.\<close>

lemma draw_server_returns:
  assumes "get_random_server (rnd (k + n)) servers = Inr s" and "usable servers used s"
  shows "\<exists>r. draw_server rnd k servers used = Some r"
  using assms
proof (induction n arbitrary: k)
  case 0
  then show ?case by (subst draw_server.simps) (simp add: usable_def)
next
  case (Suc n)
  have "servers \<noteq> []" using Suc.prems(2) by (auto simp: usable_def)
  then obtain t where t: "get_random_server (rnd k) servers = Inr t" by (simp add: get_random_server_def)
  show ?case
    using Suc.IH [of "Suc k"] Suc.prems t by (subst draw_server.simps) simp
qed

lemma draw_server_hangs:
  assumes "servers \<noteq> []" and "\<forall>s. \<not> usable servers used s"
  shows "draw_server rnd k servers used = None"
proof (cases "draw_server rnd k servers used")
  case (Some r)
  from draw_server_sound [OF this] assms show ?thesis by (auto simp: draw_ok_def split: sum.splits)
qed simp

text \<open>What an assignment may do to one location, and to a list of them.\<close>

definition fill_rel :: "server list \<Rightarrow> u64 set \<Rightarrow> block_location \<Rightarrow> block_location \<Rightarrow> bool" where
  "fill_rel servers used b b' \<longleftrightarrow>
     (if bl_si b = u64_max then \<exists>s. usable servers used s \<and> b' = b\<lparr>bl_si := srv_id s\<rparr> else b' = b)"

definition preset :: "block_location list \<Rightarrow> u64 list" where
  "preset bl = filter (\<lambda>i. i \<noteq> u64_max) (map bl_si bl)"

lemma preset_simps [simp]:
  "preset [] = []"
  "preset (b # bl) = (if bl_si b = u64_max then preset bl else bl_si b # preset bl)"
  "preset (xs @ ys) = preset xs @ preset ys"
  by (simp_all add: preset_def)

definition no_max :: "server list \<Rightarrow> bool" where
  "no_max servers \<longleftrightarrow> list_all (\<lambda>s. srv_id s \<noteq> u64_max) servers"

lemma fill_rel_mono: "used \<subseteq> used' \<Longrightarrow> fill_rel servers used' b b' \<Longrightarrow> fill_rel servers used b b'"
  by (auto simp: fill_rel_def usable_def split: if_splits)

lemma bl_ne_default: "bl_si b \<noteq> u64_max \<Longrightarrow> bl_ne b bl_default"
  by (auto simp: bl_ne_iff bl_default_def)

lemma assign_fallback_assigned: "bl_si b \<noteq> u64_max \<Longrightarrow> assign_fallback servers n b = (b, n)"
  by (simp add: assign_fallback_def bl_eq_default_iff)

text \<open>Every round of the loop fills one location or keeps it.\<close>

lemma assign_loop_spec:
  assumes "no_max servers" and "distinct (preset bl)" and "set (preset bl) \<subseteq> used"
    and "servers \<noteq> []" and "assign_loop rnd k servers used n bl = Some r"
  shows "\<exists>bl'. r = Inr bl' \<and> list_all2 (fill_rel servers used) bl bl' \<and> distinct (map bl_si bl') \<and>
     (\<forall>i \<in> set (map bl_si bl'). i \<in> set (preset bl) \<or> i \<notin> used) \<and> u64_max \<notin> set (map bl_si bl')"
  using assms
proof (induction bl arbitrary: k used n r)
  case Nil
  then show ?case by simp
next
  case (Cons b bl)
  show ?case
  proof (cases "bl_si b = u64_max")
    case False
    then have "bl_ne b bl_default" "assign_fallback servers n b = (b, n)"
      by (simp_all add: bl_ne_default assign_fallback_assigned)
    then obtain r0 where r0: "assign_loop rnd k servers used n bl = Some r0" "r = rbind r0 (\<lambda>bs'. Inr (b # bs'))"
      using Cons.prems(5) False by (auto simp: bl_eq_default_iff)
    from Cons.IH [OF Cons.prems(1) _ _ Cons.prems(4) r0(1)] Cons.prems(2,3) False
    obtain bl' where bl': "r0 = Inr bl'" "list_all2 (fill_rel servers used) bl bl'" "distinct (map bl_si bl')"
      "\<forall>i \<in> set (map bl_si bl'). i \<in> set (preset bl) \<or> i \<notin> used" "u64_max \<notin> set (map bl_si bl')" by auto
    have "bl_si b \<notin> set (map bl_si bl')" using bl'(4) Cons.prems(2,3) False by auto
    moreover have "fill_rel servers used b b" using False by (simp add: fill_rel_def)
    ultimately show ?thesis using bl' r0(2) False by auto
  next
    case True
    then obtain r1 where d: "draw_server rnd k servers used = Some r1"
      using Cons.prems(5) by (cases "draw_server rnd k servers used") (auto simp: bl_eq_default_iff)
    from draw_server_sound [OF this] Cons.prems(4) obtain s k1
      where r1: "r1 = Inr (s, k1)" and u: "usable servers used s"
      by (auto simp: draw_ok_def split: sum.splits)
    let ?b = "b\<lparr>bl_si := srv_id s\<rparr>"
    have nm: "srv_id s \<noteq> u64_max" using u Cons.prems(1) by (auto simp: usable_def no_max_def list_all_iff)
    then have "bl_ne ?b bl_default" "assign_fallback servers n ?b = (?b, n)"
      by (simp_all add: bl_ne_default assign_fallback_assigned)
    then obtain r0 where r0: "assign_loop rnd k1 servers (insert (srv_id s) used) n bl = Some r0"
      "r = rbind r0 (\<lambda>bs'. Inr (?b # bs'))"
      using Cons.prems(5) True d r1 by (auto simp: bl_eq_default_iff)
    from Cons.IH [OF Cons.prems(1) _ _ Cons.prems(4) r0(1)] Cons.prems(2,3) True
    obtain bl' where bl': "r0 = Inr bl'" "list_all2 (fill_rel servers (insert (srv_id s) used)) bl bl'"
      "distinct (map bl_si bl')"
      "\<forall>i \<in> set (map bl_si bl'). i \<in> set (preset bl) \<or> i \<notin> insert (srv_id s) used"
      "u64_max \<notin> set (map bl_si bl')" by auto
    have "list_all2 (fill_rel servers used) bl bl'"
      using bl'(2) by (rule list_all2_mono) (rule fill_rel_mono [rotated], auto)
    moreover have "srv_id s \<notin> set (preset bl)" using u Cons.prems(3) True by (auto simp: usable_def)
    then have "srv_id s \<notin> set (map bl_si bl')" using bl'(4) by blast
    moreover have "fill_rel servers used b ?b" using True u by (auto simp: fill_rel_def)
    ultimately show ?thesis using bl' r0(2) True u nm by (auto simp: usable_def)
  qed
qed

lemma assign_local_spec:
  assumes "no_max servers" and "distinct (preset bl)" and "set (preset bl) \<subseteq> used"
    and "my_server \<in> set servers \<or> my_server = server_default" and "assign_local my_server used bl = (bl1, used1)"
  shows "distinct (preset bl1) \<and> set (preset bl1) \<subseteq> used1 \<and> used \<subseteq> used1 \<and>
     (\<forall>i \<in> set (preset bl1). i \<in> set (preset bl) \<or> i \<notin> used) \<and>
     list_all2 (\<lambda>b b1. b1 = b \<or> (bl_si b1 \<noteq> u64_max \<and> fill_rel servers used b b1)) bl bl1"
proof (cases "(bl1, used1) = (bl, used)")
  case True
  with assms(2,3) show ?thesis by (auto simp: list_all2_same)
next
  case False
  define P where "P = takeWhile (\<lambda>b. \<not> bl_eq b bl_default) bl"
  have u: "srv_id my_server \<notin> used" "srv_state my_server = AVAILABLE" "srv_bind_to my_server \<noteq> loc_default"
    using False assms(5) by (auto simp: assign_local_def split: if_splits)
  obtain b R where d: "dropWhile (\<lambda>b. \<not> bl_eq b bl_default) bl = b # R"
    using False assms(5) u
    by (cases "dropWhile (\<lambda>b. \<not> bl_eq b bl_default) bl") (simp_all add: assign_local_def)
  then have r: "bl1 = P @ b\<lparr>bl_si := srv_id my_server\<rparr> # R" "used1 = insert (srv_id my_server) used"
    using assms(5) u by (simp_all add: assign_local_def P_def)
  have bl: "bl = P @ b # R" using d takeWhile_dropWhile_id [of "\<lambda>b. \<not> bl_eq b bl_default" bl] by (simp add: P_def)
  have b: "bl_si b = u64_max" using hd_dropWhile_not [OF d] by (simp add: bl_eq_default_iff)
  have "my_server \<in> set servers" using assms(4) u by (auto simp: server_default_def)
  then have us: "usable servers used my_server" and nm: "srv_id my_server \<noteq> u64_max"
    using u assms(1) by (auto simp: usable_def no_max_def list_all_iff)
  have "fill_rel servers used b (b\<lparr>bl_si := srv_id my_server\<rparr>)" using b us by (auto simp: fill_rel_def)
  then have "list_all2 (\<lambda>b b1. b1 = b \<or> (bl_si b1 \<noteq> u64_max \<and> fill_rel servers used b b1)) bl bl1"
    unfolding bl r using nm by (auto intro!: list_all2_appendI simp: list_all2_same)
  with assms(2,3) nm u(1) r b show ?thesis unfolding bl by auto
qed

lemma count_check_distinct:
  "distinct (map bl_si (b0 # bs)) \<Longrightarrow> count_check b0 1 bs"
  by (induction bs) (auto simp: bl_eq_iff_server)

lemma assign_random_fills:
  assumes "no_max (c_servers c)" and "c_servers c \<noteq> []" and "distinct (preset bl)"
    and "assign_random_block_locations rnd n my_addr c bl = Some r"
  shows "\<exists>bl'. r = Inr bl' \<and> list_all2 (fill_rel (c_servers c) (set (preset bl))) bl bl' \<and>
     distinct (map bl_si bl') \<and> u64_max \<notin> set (map bl_si bl')"
proof -
  let ?used = "set (map bl_si (filter (\<lambda>b. bl_ne b bl_default) bl))"
  define my where "my = (case find (\<lambda>s. loc_address (srv_bind_to s) = my_addr) (c_servers c) of
      None \<Rightarrow> server_default | Some s \<Rightarrow> s)"
  obtain bl1 used1 where l: "assign_local my ?used bl = (bl1, used1)" by fastforce
  have pu: "set (preset bl) \<subseteq> ?used" by (auto simp: preset_def bl_ne_default)
  have my: "my \<in> set (c_servers c) \<or> my = server_default"
    by (auto simp: my_def find_Some_iff split: option.splits)
  note L = assign_local_spec [OF assms(1,3) pu my l]
  from assms(4) l obtain r0 where r0: "assign_loop rnd 0 (c_servers c) used1 n bl1 = Some r0"
    and r: "r = rbind r0 (\<lambda>bl2. case bl2 of [] \<Rightarrow> Inr [] |
       b0 # _ \<Rightarrow> rbind (assert_that (count_check b0 0 bl2)) (\<lambda>_. Inr bl2))"
    by (auto simp: assign_random_block_locations_def my_def [symmetric] Let_def)
  from assign_loop_spec [OF assms(1) _ _ assms(2) r0] L obtain bl2
    where bl2: "r0 = Inr bl2" "list_all2 (fill_rel (c_servers c) used1) bl1 bl2" "distinct (map bl_si bl2)"
      "u64_max \<notin> set (map bl_si bl2)" by auto
  have "r = Inr bl2"
    using r bl2(1,3) count_check_distinct by (cases bl2) (simp_all add: bl_eq_iff_server)
  moreover have "list_all2 (fill_rel (c_servers c) (set (preset bl))) bl bl2"
  proof (rule list_all2_trans [OF _ conjunct2 [OF conjunct2 [OF conjunct2 [OF conjunct2 [OF L]]]] bl2(2)])
    fix b b1 b2
    assume "b1 = b \<or> (bl_si b1 \<noteq> u64_max \<and> fill_rel (c_servers c) ?used b b1)" "fill_rel (c_servers c) used1 b1 b2"
    moreover have "set (preset bl) \<subseteq> used1" "set (preset bl) \<subseteq> ?used" using pu L by auto
    ultimately show "fill_rel (c_servers c) (set (preset bl)) b b2"
      by (metis fill_rel_def fill_rel_mono)
  qed
  ultimately show ?thesis using bl2(3,4) by blast
qed

text \<open>C38: choosing servers for the replicas of a block. When the function returns, it returns a full
  assignment and no assertion failed: the locations that had a server keep it, every other one
  got a server of the configuration that is available, and no two locations share a server.
  (Identifiers are below 2^64 - 1, which marks a missing server, and the servers the locations
  already have are distinct.)\<close>

theorem assign_random_sound:
  assumes "no_max (c_servers c)" and "c_servers c \<noteq> []" and "distinct (preset bl)"
    and "assign_random_block_locations rnd n my_addr c bl = Some r"
  shows "\<exists>bl'. r = Inr bl' \<and> list_all2 (fill_rel (c_servers c) (set (preset bl))) bl bl' \<and>
     distinct (map bl_si bl') \<and> u64_max \<notin> set (map bl_si bl')"
  using assms by (rule assign_random_fills)

definition demo_config :: configuration where
  "demo_config = config_new\<lparr>c_servers :=
     [\<lparr>srv_state = AVAILABLE, srv_id = 1, srv_bind_to = \<lparr>loc_address = Inet [10, 0, 0, 1], loc_port = 80\<rparr>\<rparr>,
      \<lparr>srv_state = AVAILABLE, srv_id = 2, srv_bind_to = \<lparr>loc_address = Inet [10, 0, 0, 2], loc_port = 80\<rparr>\<rparr>]\<rparr>"

lemma demo_config_ok: "no_max (c_servers demo_config)" "c_servers demo_config \<noteq> []"
  by (simp_all add: demo_config_def no_max_def u64_max_def)

lemma demo_assign:
  "assign_random_block_locations (\<lambda>k. int k) 0 (Inet [10, 0, 0, 2]) demo_config [bl_default, bl_default] =
     Some (Inr [\<lparr>bl_si = 2, bl_bi = u64_max\<rparr>, \<lparr>bl_si = 1, bl_bi = u64_max\<rparr>])"
proof -
  have d: "draw_server (\<lambda>k. int k) 0 (c_servers demo_config) {2} =
      Some (Inr (\<lparr>srv_state = AVAILABLE, srv_id = 1,
        srv_bind_to = \<lparr>loc_address = Inet [10, 0, 0, 1], loc_port = 80\<rparr>\<rparr>, 1))"
    by (subst draw_server.simps) (simp add: demo_config_def get_random_server_def)
  then show ?thesis
    by (simp add: assign_random_block_locations_def assign_local_def bl_order_defs bl_default_def u64_max_def
        assign_fallback_def demo_config_def loc_default_def)
qed

theorem assign_random_sound_witness:
  "\<exists>bl'. assign_random_block_locations (\<lambda>k. int k) 0 (Inet [10, 0, 0, 2]) demo_config [bl_default, bl_default] =
     Some (Inr bl') \<and> distinct (map bl_si bl')"
  using assign_random_sound [OF demo_config_ok _ demo_assign] demo_assign
  by (auto simp: preset_def bl_default_def)

text \<open>When a block needs more servers than there are available ones it does not have yet, the
  function never returns, whatever the random numbers are.\<close>

theorem assign_random_hangs:
  assumes "no_max (c_servers c)" and "c_servers c \<noteq> []" and "distinct (preset bl)"
    and few: "card (srv_id ` {s \<in> set (c_servers c). srv_state s = AVAILABLE} - set (preset bl)) <
       length (filter (\<lambda>b. bl_si b = u64_max) bl)"
  shows "assign_random_block_locations rnd n my_addr c bl = None"
proof (rule ccontr)
  assume "assign_random_block_locations rnd n my_addr c bl \<noteq> None"
  then obtain r where "assign_random_block_locations rnd n my_addr c bl = Some r" by auto
  from assign_random_fills [OF assms(1-3) this] obtain bl'
    where f: "list_all2 (fill_rel (c_servers c) (set (preset bl))) bl bl'" and d: "distinct (map bl_si bl')" by auto
  let ?A = "srv_id ` {s \<in> set (c_servers c). srv_state s = AVAILABLE} - set (preset bl)"
  define new where "new = map (\<lambda>(b, b'). bl_si b') (filter (\<lambda>(b, b'). bl_si b = u64_max) (zip bl bl'))"
  have "list_all2 (fill_rel ss used) xs ys \<Longrightarrow> distinct (map bl_si ys) \<Longrightarrow>
      length (filter (\<lambda>b. bl_si b = u64_max) xs) =
        length (map (\<lambda>(b, b'). bl_si b') (filter (\<lambda>(b, b'). bl_si b = u64_max) (zip xs ys))) \<and>
      distinct (map (\<lambda>(b, b'). bl_si b') (filter (\<lambda>(b, b'). bl_si b = u64_max) (zip xs ys))) \<and>
      set (map (\<lambda>(b, b'). bl_si b') (filter (\<lambda>(b, b'). bl_si b = u64_max) (zip xs ys))) \<subseteq>
        set (map bl_si ys) \<inter> (srv_id ` {s \<in> set ss. srv_state s = AVAILABLE} - used)" for ss used xs ys
  proof (induction xs ys rule: list_all2_induct)
    case (Cons b bs b' bs')
    then show ?case by (auto simp: fill_rel_def usable_def split: if_splits)
  qed simp
  from this [OF f d] have "length (filter (\<lambda>b. bl_si b = u64_max) bl) = length new" "distinct new" "set new \<subseteq> ?A"
    by (auto simp: new_def)
  then have "length (filter (\<lambda>b. bl_si b = u64_max) bl) \<le> card ?A"
    by (metis card_mono distinct_card finite_Diff finite_imageI finite_set List.finite_set finite_Collect_conjI Collect_mem_eq)
  with few show False by simp
qed

theorem assign_random_hangs_witness:
  "assign_random_block_locations (\<lambda>k. int k) 0 Unspec demo_config [bl_default, bl_default, bl_default] = None"
proof (rule assign_random_hangs [OF demo_config_ok])
  have "srv_id ` {s \<in> set (c_servers demo_config). srv_state s = AVAILABLE} \<subseteq> {1, 2}"
    by (auto simp: demo_config_def)
  then have "card (srv_id ` {s \<in> set (c_servers demo_config). srv_state s = AVAILABLE}) \<le> card {1, 2 :: nat}"
    by (intro card_mono) auto
  then show "card (srv_id ` {s \<in> set (c_servers demo_config). srv_state s = AVAILABLE} -
      set (preset [bl_default, bl_default, bl_default])) <
      length (filter (\<lambda>b. bl_si b = u64_max) [bl_default, bl_default, bl_default])"
    by (simp add: bl_default_def)
qed (simp add: bl_default_def)

end
