(* ===== verification/CoordinatorInv.thy ===== *)
theory CoordinatorInv
  imports Transitions ConfigurationProps
begin

text \<open>
  Correctness of the coordinator. The invariant ties its counters to the conditions of Replicant
  and its barriers; under it no operation aborts or loops forever, and every operation keeps it.
  The table of servers refines a map from identifiers to servers (\<open>spec_op\<close>), and the cached
  configuration decodes to the coordinator's state.
\<close>

section \<open>Barriers of a recreated coordinator\<close>

text \<open>
  Decoding a barrier appends to the initial entry \<open>(0, [])\<close>, so a recreated coordinator has such
  entries in front of the barrier that was saved. They do not change what the barrier does.
\<close>

definition barrier_like :: "server_barrier \<Rightarrow> server_barrier \<Rightarrow> bool" where
  "barrier_like m b \<longleftrightarrow> barrier_inv b \<and> (\<exists>n. m = replicate n (0, []) @ b)"

lemma barrier_like_refl [simp]: "barrier_like b b \<longleftrightarrow> barrier_inv b"
  by (auto simp: barrier_like_def intro: exI [of _ 0])

definition barrier_next :: "u64 \<Rightarrow> server_id list \<Rightarrow> server_barrier \<Rightarrow> server_barrier" where
  "barrier_next v ss b = (if ss = [] then [(v, [])] else b @ [(v, ss)])"

lemma barrier_next_last [simp]: "fst (last (barrier_next v ss b)) = v"
  by (simp add: barrier_next_def)

lemma new_version_like:
  assumes "barrier_like m b" and "fst (last b) < v"
  shows "new_version v ss m = Inr (barrier_next v ss b)"
proof -
  obtain n where m: "m = replicate n (0, []) @ b" and inv: "barrier_inv b"
    using assms(1) by (auto simp: barrier_like_def)
  then obtain v0 t where b: "b = (v0, []) # t" and t: "list_all (\<lambda>p. snd p \<noteq> []) t"
    using barrier_invE by blast
  have "maybe_clear_prefix (m @ [(v, ss)]) = barrier_next v ss b"
  proof (cases "ss = []")
    case True
    then show ?thesis using maybe_clear_prefix_split [of "[]" m v] by (simp add: barrier_next_def)
  next
    case False
    then show ?thesis
      using maybe_clear_prefix_split [of "t @ [(v, ss)]" "replicate n (0, [])" v0] t m b
      by (simp add: barrier_next_def)
  qed
  moreover have "m \<noteq> []" "fst (last m) = fst (last b)" using m b by simp_all
  ultimately show ?thesis using assms(2) by (simp add: new_version_def)
qed

lemma barrier_next_inv: "barrier_inv b \<Longrightarrow> fst (last b) < v \<Longrightarrow> barrier_inv (barrier_next v ss b)"
  unfolding barrier_next_def by (rule new_version_inv)

lemma barrier_next_min:
  "barrier_inv b \<Longrightarrow> fst (last b) < v \<Longrightarrow> min_version b \<le> min_version (barrier_next v ss b) \<and>
    min_version (barrier_next v ss b) \<le> v"
  using sorted_last_ge [of b "hd b"] by (auto simp: barrier_next_def min_version_def barrier_inv_def)

lemma barrier_inv_min_le: "barrier_inv b \<Longrightarrow> min_version b \<le> fst (last b)"
  using sorted_last_ge [of b "hd b"] by (auto simp: min_version_def barrier_inv_def)

lemma min_version_like:
  assumes "barrier_like m b"
  shows "min_version m \<le> min_version b \<and> (min_version m = min_version b \<or> min_version m = 0)"
proof -
  obtain n where "m = replicate n (0, []) @ b" using assms by (auto simp: barrier_like_def)
  then show ?thesis by (cases n) (simp_all add: min_version_def)
qed

lemma pass_at_replicate:
  "pass_at v sid (replicate n (0, []) @ b) =
     (if v = 0 \<and> 0 < n then Some (replicate n (0, []) @ b)
      else map_option (\<lambda>b'. replicate n (0, []) @ b') (pass_at v sid b))"
proof (induction n)
  case 0
  then show ?case by (cases "pass_at v sid b") simp_all
next
  case (Suc n)
  show ?case by (cases "pass_at v sid b") (auto simp: Suc)
qed

lemma barrier_pass_like:
  assumes like: "barrier_like m b"
  shows "barrier_like (barrier_pass v sid m) (barrier_pass v sid b) \<and>
    (barrier_pass v sid m = barrier_pass v sid b \<or> barrier_pass v sid m = m \<and> barrier_pass v sid b = b)"
proof -
  obtain n where m: "m = replicate n (0, []) @ b" and inv: "barrier_inv b"
    using like by (auto simp: barrier_like_def)
  then obtain v0 t where b: "b = (v0, []) # t" and t: "list_all (\<lambda>p. snd p \<noteq> []) t"
    using barrier_invE by blast
  have clear_b: "maybe_clear_prefix (replicate n (0, []) @ b) = b"
    using maybe_clear_prefix_split [OF t] b by simp
  have "from_last_empty X = Some Y \<Longrightarrow> from_last_empty (P @ X) = Some Y" for P X Y
    by (induction P) auto
  then have sh: "from_last_empty X \<noteq> None \<Longrightarrow> maybe_clear_prefix (P @ X) = maybe_clear_prefix X" for P X
    by (auto simp: maybe_clear_prefix_def)
  have b': "barrier_inv (barrier_pass v sid b)" using inv by (rule barrier_pass_inv)
  show ?thesis
  proof (cases "v = 0 \<and> 0 < n")
    case True
    then have "barrier_pass v sid m = b" unfolding m barrier_pass_def pass_at_replicate using clear_b by simp
    moreover have "barrier_pass v sid b = b"
    proof (cases "v0 = 0")
      case v0: True
      then have "pass_at v sid b = Some b" using True b by simp
      then show ?thesis using maybe_clear_prefix_split [OF t, of "[]"] b by (simp add: barrier_pass_def)
    next
      case False
      then show ?thesis using True b by (simp add: barrier_pass_def)
    qed
    ultimately show ?thesis using inv by simp
  next
    case False
    show ?thesis
    proof (cases "pass_at v sid b")
      case None
      then have "barrier_pass v sid m = m" "barrier_pass v sid b = b"
        using False by (auto simp: m barrier_pass_def pass_at_replicate)
      then show ?thesis using like by simp
    next
      case (Some b1)
      have "fst ` set b1 \<noteq> {} \<and> from_last_empty b1 \<noteq> None"
      proof -
        have "\<exists>p \<in> set b1. snd p = []"
          using Some b by (cases "v = v0") (auto split: if_splits)
        then show ?thesis by (auto simp: from_last_empty_None list_all_iff)
      qed
      then have "barrier_pass v sid m = barrier_pass v sid b"
        using False Some sh by (auto simp: m barrier_pass_def pass_at_replicate)
      then show ?thesis using b' by simp
    qed
  qed
qed

section \<open>The broadcast loops\<close>

definition cx_cond :: "(string \<Rightarrow> 'r \<Rightarrow> u64) \<Rightarrow> string \<Rightarrow> 'r rsm_context \<Rightarrow> u64" where
  "cx_cond cond c cx = cond c (cx_rep cx)"

lemma cx_cond_emit [simp]: "cx_cond cond c (emit e cx) = cx_cond cond c cx"
  by (simp add: cx_cond_def emit_def)

lemma cx_effects_emit [simp]: "cx_effects (emit e cx) = cx_effects cx @ [e]"
  by (simp add: emit_def)

context replicant_conditions
begin

lemma condition_broadcast_cond:
  assumes "cx_cond cond c cx + 1 < u64_bound"
  shows "\<exists>cx'. condition_broadcast R c cx = (Some (cx_cond cond c cx + 1), cx') \<and> cx_effects cx' = cx_effects cx \<and>
     (\<forall>c'. cx_cond cond c' cx' = (if c' = c then cx_cond cond c cx + 1 else cx_cond cond c' cx))"
proof -
  obtain v r where b: "rep_broadcast R c (cx_rep cx) = (v, r)" by fastforce
  with broadcast_value [of c "cx_rep cx"] broadcast_state [of c "cx_rep cx"] assms show ?thesis
    by (simp add: condition_broadcast_def cx_cond_def)
qed

lemma broadcast_until_cond:
  assumes "through = cx_cond cond c cx" and "through + slack < u64_bound" and "target < u64_bound"
  shows "\<exists>cx'. broadcast_until R c slack target through cx = Some (max through (target - slack), cx') \<and>
     cx_effects cx' = cx_effects cx \<and>
     (\<forall>c'. cx_cond cond c' cx' = (if c' = c then max through (target - slack) else cx_cond cond c' cx))"
  using assms
proof (induction "target - slack - through" arbitrary: through cx)
  case 0
  then have "\<not> (through + slack) mod u64_bound < target" by simp
  moreover have "max through (target - slack) = through" using 0(1) by simp
  ultimately show ?case using 0(2) by (subst broadcast_until.simps) simp
next
  case (Suc d)
  then have lt: "(through + slack) mod u64_bound < target" "through + 1 < u64_bound" by simp_all
  from condition_broadcast_cond [of c cx] lt(2) Suc.prems(1) obtain cx1
    where b: "condition_broadcast R c cx = (Some (through + 1), cx1)" "cx_effects cx1 = cx_effects cx"
      "\<And>c'. cx_cond cond c' cx1 = (if c' = c then through + 1 else cx_cond cond c' cx)" by auto
  have "d = target - slack - (through + 1)" "through + 1 + slack < u64_bound" using Suc by simp_all
  with Suc.hyps(1) [of "through + 1" cx1] b(3) [of c] Suc.prems(3) obtain cx2
    where u: "broadcast_until R c slack target (through + 1) cx1 = Some (max (through + 1) (target - slack), cx2)"
      "cx_effects cx2 = cx_effects cx1"
      "\<And>c'. cx_cond cond c' cx2 = (if c' = c then max (through + 1) (target - slack) else cx_cond cond c' cx1)" by auto
  have mx: "max (through + 1) (target - slack) = max through (target - slack)" using Suc.hyps(2) by simp
  have "broadcast_until R c slack target through cx = Some (max through (target - slack), cx2)"
    using lt(1) b(1) u(1) mx by (subst broadcast_until.simps) simp
  with u(2,3) b(2,3) mx show ?case by auto
qed

end

section \<open>The invariant\<close>

definition barrier_state :: "server_barrier \<Rightarrow> u64 \<Rightarrow> u64 \<Rightarrow> bool" where
  "barrier_state m newest through \<longleftrightarrow>
     (\<exists>b. barrier_like m b \<and> fst (last b) = newest \<and> through = min_version b)"

text \<open>Counters, barriers and conditions agree.\<close>

definition coord_core :: "(string \<Rightarrow> 'r \<Rightarrow> u64) \<Rightarrow> coordinator \<Rightarrow> 'r rsm_context \<Rightarrow> bool" where
  "coord_core cond c cx \<longleftrightarrow>
     m_version c = cx_cond cond ''config'' cx \<and>
     barrier_state (m_config_ack_barrier c) (m_version c) (m_config_ack_through c) \<and>
     m_config_ack_through c = cx_cond cond ''ack'' cx \<and>
     barrier_state (m_config_stable_barrier c) (m_version c) (m_config_stable_through c) \<and>
     m_config_stable_through c = cx_cond cond ''stable'' cx \<and>
     m_checkpoint c = cx_cond cond ''checkp'' cx \<and>
     barrier_state (m_checkpoint_stable_barrier c) (m_checkpoint c) (m_checkpoint_stable_through c) \<and>
     m_checkpoint_stable_through c = cx_cond cond ''checkps'' cx \<and>
     m_checkpoint_gc_through c = m_checkpoint_stable_through c - outstanding_checkpoints \<and>
     m_checkpoint_gc_through c = cx_cond cond ''checkpgc'' cx"

lemma coord_coreD:
  assumes "coord_core cond c cx"
  shows "m_version c = cx_cond cond ''config'' cx"
    and "barrier_state (m_config_ack_barrier c) (m_version c) (m_config_ack_through c)"
    and "m_config_ack_through c = cx_cond cond ''ack'' cx"
    and "barrier_state (m_config_stable_barrier c) (m_version c) (m_config_stable_through c)"
    and "m_config_stable_through c = cx_cond cond ''stable'' cx"
    and "m_checkpoint c = cx_cond cond ''checkp'' cx"
    and "barrier_state (m_checkpoint_stable_barrier c) (m_checkpoint c) (m_checkpoint_stable_through c)"
    and "m_checkpoint_stable_through c = cx_cond cond ''checkps'' cx"
    and "m_checkpoint_gc_through c = m_checkpoint_stable_through c - outstanding_checkpoints"
    and "m_checkpoint_gc_through c = cx_cond cond ''checkpgc'' cx"
  using assms unfolding coord_core_def by blast+

definition coord_inv :: "(string \<Rightarrow> 'r \<Rightarrow> u64) \<Rightarrow> e_codec \<Rightarrow> coordinator \<Rightarrow> 'r rsm_context \<Rightarrow> bool" where
  "coord_inv cond E c cx \<longleftrightarrow> coord_core cond c cx \<and> servers_sorted (m_servers c) \<and>
     (m_version c \<noteq> 0 \<longrightarrow> m_latest_config c = Some (packed_config E c)) \<and>
     (m_cluster c \<noteq> 0 \<longrightarrow> m_version c \<noteq> 0)"

text \<open>The counters are far enough from wrapping around for one more operation.\<close>

definition coord_room :: "coordinator \<Rightarrow> bool" where
  "coord_room c \<longleftrightarrow> m_version c + 1 < u64_bound \<and> m_checkpoint c + 1 + outstanding_checkpoints < u64_bound"

text \<open>With servers, a step that is not an acknowledgement leaves the stable condition where it is.\<close>

definition stable_frozen :: "coordinator \<Rightarrow> coordinator \<Rightarrow> bool" where
  "stable_frozen c c' \<longleftrightarrow> (m_servers c' \<noteq> [] \<longrightarrow> m_config_stable_through c' = m_config_stable_through c)"

lemma servers_in_configuration_empty: "servers_in_configuration c = [] \<longleftrightarrow> m_servers c = []"
proof -
  have "length (sort (map srv_id (m_servers c))) = length (m_servers c)" by simp
  then have "sort (map srv_id (m_servers c)) = [] \<longleftrightarrow> m_servers c = []" by (metis length_0_conv)
  then show ?thesis by (simp add: servers_in_configuration_def)
qed

lemma barrier_state_le: "barrier_state m newest through \<Longrightarrow> through \<le> newest \<and> min_version m \<le> through"
  using barrier_inv_min_le min_version_like by (fastforce simp: barrier_state_def barrier_like_def)

lemma barrier_state_new [simp]: "barrier_state barrier_new 0 0"
  by (auto simp: barrier_state_def barrier_new_def min_version_def barrier_inv_def
      intro!: exI [of _ "[(0, [])]"])

lemma barrier_state_next:
  assumes "barrier_state m newest through" and "newest < v"
  shows "\<exists>b'. new_version v ss m = Inr b' \<and> barrier_inv b' \<and> fst (last b') = v \<and>
     through \<le> min_version b' \<and> min_version b' \<le> v \<and> (ss \<noteq> [] \<longrightarrow> min_version b' = through)"
proof -
  obtain b where b: "barrier_like m b" "fst (last b) = newest" "through = min_version b"
    using assms(1) by (auto simp: barrier_state_def)
  have inv: "barrier_inv b" using b(1) by (simp add: barrier_like_def)
  show ?thesis
    using new_version_like [OF b(1), of v ss] barrier_next_inv [OF inv, of v ss]
      barrier_next_min [OF inv, of v ss] b(2,3) assms(2) inv
    by (auto simp: barrier_next_def min_version_def barrier_inv_def)
qed

text \<open>Passing does not lower the completed version, and does not change the newest one.\<close>

lemma barrier_pass_mono:
  assumes inv: "barrier_inv b"
  shows "min_version b \<le> min_version (barrier_pass v sid b) \<and> fst (last (barrier_pass v sid b)) = fst (last b)"
proof (cases "v \<in> fst ` set b")
  case True
  then obtain ss where "(v, ss) \<in> set b" by auto
  with inv obtain P t where b: "b = P @ (v, ss) # t" and P: "\<forall>p \<in> set P. fst p < v"
    and t: "list_all (\<lambda>p. snd p \<noteq> []) t" by (rule barrier_split)
  show ?thesis
    unfolding barrier_pass_present [OF inv b P t] using P
    by (cases P) (auto simp: b min_version_def intro: less_imp_le)
qed (simp add: barrier_pass_absent)

lemma barrier_state_pass:
  assumes "barrier_state m newest through"
  shows "barrier_state (barrier_pass v sid m) newest (max through (min_version (barrier_pass v sid m)))"
proof -
  obtain b where b: "barrier_like m b" "fst (last b) = newest" "through = min_version b"
    using assms by (auto simp: barrier_state_def)
  have inv: "barrier_inv b" using b(1) by (simp add: barrier_like_def)
  note p = barrier_pass_like [OF b(1), of v sid] and mono = barrier_pass_mono [OF inv, of v sid]
  have "max through (min_version (barrier_pass v sid m)) = min_version (barrier_pass v sid b)"
    using p mono b(3) min_version_like [OF b(1)] by (auto simp: max_def)
  then show ?thesis
    unfolding barrier_state_def using p mono b(2) by (intro exI [of _ "barrier_pass v sid b"]) simp
qed

lemma barrier_inv_state: "barrier_inv b \<Longrightarrow> barrier_state b (fst (last b)) (min_version b)"
  unfolding barrier_state_def by (intro exI [of _ b]) simp

context replicant_conditions
begin

lemma check_ack_ok:
  assumes "m_config_ack_through c = cx_cond cond ''ack'' cx" and "min_version (m_config_ack_barrier c) < u64_bound"
    and "m_config_ack_through c < u64_bound"
  shows "\<exists>cx'. check_ack_condition R c cx =
       Some (c\<lparr>m_config_ack_through := max (m_config_ack_through c) (min_version (m_config_ack_barrier c))\<rparr>, cx') \<and>
     cx_effects cx' = cx_effects cx \<and>
     (\<forall>n. cx_cond cond n cx' = (if n = ''ack''
        then max (m_config_ack_through c) (min_version (m_config_ack_barrier c)) else cx_cond cond n cx))"
  using broadcast_until_cond [OF assms(1) _ assms(2), of 0] assms(3) by (auto simp: check_ack_condition_def)

lemma check_stable_ok:
  assumes "m_config_stable_through c = cx_cond cond ''stable'' cx"
    and "min_version (m_config_stable_barrier c) < u64_bound" and "m_config_stable_through c < u64_bound"
  shows "\<exists>cx'. check_stable_condition R c cx =
       Some (c\<lparr>m_config_stable_through := max (m_config_stable_through c) (min_version (m_config_stable_barrier c))\<rparr>, cx') \<and>
     cx_effects cx' = cx_effects cx \<and>
     (\<forall>n. cx_cond cond n cx' = (if n = ''stable''
        then max (m_config_stable_through c) (min_version (m_config_stable_barrier c)) else cx_cond cond n cx))"
  using broadcast_until_cond [OF assms(1) _ assms(2), of 0] assms(3) by (auto simp: check_stable_condition_def)

text \<open>Issuing a new configuration: it never fails, raises the version by one, caches the encoding of
  the new state, and keeps counters, barriers and conditions in step.\<close>

lemma generate_next_ok:
  assumes core: "coord_core cond c cx" and room: "coord_room c"
  shows "\<exists>c' cx'. generate_next_configuration R E c cx = ret (c', cx') \<and> coord_core cond c' cx' \<and>
     cx_effects cx' = cx_effects cx \<and> m_version c' = m_version c + 1 \<and> m_cluster c' = m_cluster c \<and>
     m_flags c' = m_flags c \<and> m_servers c' = m_servers c \<and> m_offline c' = m_offline c \<and>
     m_counter c' = m_counter c \<and> m_checkpoint c' = m_checkpoint c \<and>
     m_latest_config c' = Some (packed_config E c') \<and> stable_frozen c c'"
proof -
  have v: "m_version c + 1 < u64_bound" using room by (simp add: coord_room_def)
  have ver: "m_version c = cx_cond cond ''config'' cx" using core by (simp add: coord_core_def)
  from condition_broadcast_cond [of "''config''" cx] v ver obtain cx1
    where bc: "condition_broadcast R ''config'' cx = (Some (m_version c + 1), cx1)"
      and e1: "cx_effects cx1 = cx_effects cx"
      and c1: "\<And>n. cx_cond cond n cx1 = (if n = ''config'' then m_version c + 1 else cx_cond cond n cx)" by auto
  let ?c1 = "c\<lparr>m_version := m_version c + 1\<rparr>"
  have bs: "barrier_state (m_config_ack_barrier c) (m_version c) (m_config_ack_through c)"
    "barrier_state (m_config_stable_barrier c) (m_version c) (m_config_stable_through c)"
    using core unfolding coord_core_def by blast+
  obtain ab where ab: "new_version (m_version c + 1) (servers_in_configuration ?c1) (m_config_ack_barrier c) = Inr ab"
      "barrier_inv ab" "fst (last ab) = m_version c + 1" "m_config_ack_through c \<le> min_version ab"
      "min_version ab \<le> m_version c + 1"
    using barrier_state_next [OF bs(1), of "m_version c + 1"] by auto
  obtain sb where sb: "new_version (m_version c + 1) (servers_in_configuration ?c1) (m_config_stable_barrier c) = Inr sb"
      "barrier_inv sb" "fst (last sb) = m_version c + 1" "m_config_stable_through c \<le> min_version sb"
      "min_version sb \<le> m_version c + 1"
      "servers_in_configuration ?c1 \<noteq> [] \<longrightarrow> min_version sb = m_config_stable_through c"
    using barrier_state_next [OF bs(2), of "m_version c + 1"] by auto
  let ?c2 = "?c1\<lparr>m_config_ack_barrier := ab, m_config_stable_barrier := sb\<rparr>"
  have thr: "m_config_ack_through c = cx_cond cond ''ack'' cx1" "m_config_stable_through c = cx_cond cond ''stable'' cx1"
    using core c1 by (simp_all add: coord_core_def)
  obtain cx2 where a: "check_ack_condition R ?c2 cx1 = Some (?c2\<lparr>m_config_ack_through := min_version ab\<rparr>, cx2)"
      and e2: "cx_effects cx2 = cx_effects cx1"
      and c2: "\<And>n. cx_cond cond n cx2 = (if n = ''ack'' then min_version ab else cx_cond cond n cx1)"
    using check_ack_ok [of ?c2 cx1] thr ab(4,5) v by (auto simp: max_absorb2)
  let ?c3 = "?c2\<lparr>m_config_ack_through := min_version ab\<rparr>"
  obtain cx3 where s: "check_stable_condition R ?c3 cx2 = Some (?c3\<lparr>m_config_stable_through := min_version sb\<rparr>, cx3)"
      and e3: "cx_effects cx3 = cx_effects cx2"
      and c3: "\<And>n. cx_cond cond n cx3 = (if n = ''stable'' then min_version sb else cx_cond cond n cx2)"
    using check_stable_ok [of ?c3 cx2] thr c2 sb(4,5) v by (auto simp: max_absorb2)
  let ?c4 = "generate_cached_configuration E (?c3\<lparr>m_config_stable_through := min_version sb\<rparr>)"
  have "generate_next_configuration R E c cx = ret (?c4, cx3)"
    using bc v ab(1) sb(1) a s by (simp add: generate_next_configuration_def u64_simps)
  moreover have "coord_core cond ?c4 cx3"
  proof -
    have cp: "m_checkpoint c = cx_cond cond ''checkp'' cx" "m_checkpoint_stable_through c = cx_cond cond ''checkps'' cx"
      "m_checkpoint_gc_through c = m_checkpoint_stable_through c - outstanding_checkpoints"
      "m_checkpoint_gc_through c = cx_cond cond ''checkpgc'' cx"
      "barrier_state (m_checkpoint_stable_barrier c) (m_checkpoint c) (m_checkpoint_stable_through c)"
      using core unfolding coord_core_def by blast+
    have cs: "cx_cond cond ''config'' cx3 = m_version c + 1" "cx_cond cond ''ack'' cx3 = min_version ab"
      "cx_cond cond ''stable'' cx3 = min_version sb"
      "cx_cond cond ''checkp'' cx3 = m_checkpoint c" "cx_cond cond ''checkps'' cx3 = m_checkpoint_stable_through c"
      "cx_cond cond ''checkpgc'' cx3 = m_checkpoint_gc_through c"
      using c1 c2 c3 cp(1,2,4) by simp_all
    show ?thesis
      using cs cp(3,5) barrier_inv_state [OF ab(2)] barrier_inv_state [OF sb(2)] ab(3) sb(3)
      unfolding coord_core_def generate_cached_configuration_def by simp
  qed
  moreover have "stable_frozen c ?c4"
    using sb(6) by (simp add: stable_frozen_def generate_cached_configuration_def servers_in_configuration_empty)
  ultimately show ?thesis
    using e1 e2 e3 by (simp add: generate_cached_configuration_def packed_config_def)
qed

text \<open>The checkpoint conditions: \<open>checkps\<close> follows the barrier, \<open>checkpgc\<close> stays
  \<open>outstanding_checkpoints\<close> behind, and neither assertion fails.\<close>

lemma check_checkpoint_ok:
  fixes c :: coordinator
  defines "t \<equiv> m_checkpoint_stable_through c" and "u \<equiv> min_version (m_checkpoint_stable_barrier c)"
  assumes t: "t = cx_cond cond ''checkps'' cx" and g: "m_checkpoint_gc_through c = t - outstanding_checkpoints"
    and gc: "m_checkpoint_gc_through c = cx_cond cond ''checkpgc'' cx"
    and le: "t \<le> m_checkpoint c" "u \<le> m_checkpoint c"
    and room: "m_checkpoint c + outstanding_checkpoints < u64_bound"
  shows "\<exists>cx'. check_checkpoint_stable_condition R c cx =
       ret (c\<lparr>m_checkpoint_stable_through := max t u,
              m_checkpoint_gc_through := max t u - outstanding_checkpoints\<rparr>, cx') \<and>
     cx_effects cx' = cx_effects cx \<and>
     (\<forall>n. cx_cond cond n cx' = (if n = ''checkps'' then max t u
        else if n = ''checkpgc'' then max t u - outstanding_checkpoints else cx_cond cond n cx))"
proof -
  have o: "outstanding_checkpoints = 120" by (simp add: outstanding_checkpoints_def)
  obtain cx1 where 1: "broadcast_until R ''checkps'' 0 u t cx = Some (max t u, cx1)" "cx_effects cx1 = cx_effects cx"
    "\<And>n. cx_cond cond n cx1 = (if n = ''checkps'' then max t u else cx_cond cond n cx)"
    using broadcast_until_cond [OF t, of 0 u] le room by auto
  have gc1: "m_checkpoint_gc_through c = cx_cond cond ''checkpgc'' cx1" using gc 1(3) by simp
  have gb: "m_checkpoint_gc_through c + outstanding_checkpoints < u64_bound" and ub: "u < u64_bound"
    using g le room o by auto
  have mx: "max (m_checkpoint_gc_through c) (u - outstanding_checkpoints) = max t u - outstanding_checkpoints"
    using g by (simp add: max_def)
  obtain cx2 where 2: "broadcast_until R ''checkpgc'' outstanding_checkpoints u (m_checkpoint_gc_through c) cx1 =
      Some (max t u - outstanding_checkpoints, cx2)" "cx_effects cx2 = cx_effects cx1"
    "\<And>n. cx_cond cond n cx2 = (if n = ''checkpgc'' then max t u - outstanding_checkpoints else cx_cond cond n cx1)"
    using broadcast_until_cond [OF gc1 gb ub] unfolding mx by blast
  have "max t u \<le> m_checkpoint c" using le by simp
  moreover have "u64_add (max t u - outstanding_checkpoints) outstanding_checkpoints \<le> m_checkpoint c \<or>
      m_checkpoint c \<le> outstanding_checkpoints"
    using le room o by (auto simp: u64_add_def max_def)
  ultimately have "check_checkpoint_stable_condition R c cx =
       ret (c\<lparr>m_checkpoint_stable_through := max t u,
              m_checkpoint_gc_through := max t u - outstanding_checkpoints\<rparr>, cx2)"
    using 1(1) 2(1) le unfolding t_def u_def by (simp add: check_checkpoint_stable_condition_def)
  then show ?thesis using 1 2 by auto
qed

end

section \<open>Changes outside the counters\<close>

lemma coord_core_update [simp]:
  "coord_core cond (c\<lparr>m_servers := ss\<rparr>) cx = coord_core cond c cx"
  "coord_core cond (c\<lparr>m_offline := ss\<rparr>) cx = coord_core cond c cx"
  "coord_core cond (c\<lparr>m_flags := f\<rparr>) cx = coord_core cond c cx"
  "coord_core cond (c\<lparr>m_cluster := k\<rparr>) cx = coord_core cond c cx"
  "coord_core cond (remove_offline sid c) cx = coord_core cond c cx"
  "coord_core cond c (emit e cx) = coord_core cond c cx"
  by (simp_all add: coord_core_def remove_offline_def)

lemma stable_frozen_update [simp]:
  "stable_frozen (c\<lparr>m_servers := ss\<rparr>) = stable_frozen c"
  "stable_frozen (c\<lparr>m_offline := ss\<rparr>) = stable_frozen c"
  "stable_frozen (c\<lparr>m_flags := f\<rparr>) = stable_frozen c"
  "stable_frozen (c\<lparr>m_cluster := k\<rparr>) = stable_frozen c"
  "stable_frozen (remove_offline sid c) = stable_frozen c"
  "stable_frozen c c"
  by (auto simp: stable_frozen_def remove_offline_def)

lemma coord_room_update [simp]:
  "coord_room (c\<lparr>m_servers := ss\<rparr>) = coord_room c"
  "coord_room (c\<lparr>m_offline := ss\<rparr>) = coord_room c"
  "coord_room (c\<lparr>m_flags := f\<rparr>) = coord_room c"
  "coord_room (c\<lparr>m_cluster := k\<rparr>) = coord_room c"
  "coord_room (remove_offline sid c) = coord_room c"
  by (simp_all add: coord_room_def remove_offline_def)

lemma remove_offline_fields [simp]:
  "m_servers (remove_offline sid c) = m_servers c"
  "m_version (remove_offline sid c) = m_version c"
  "m_cluster (remove_offline sid c) = m_cluster c"
  "m_checkpoint (remove_offline sid c) = m_checkpoint c"
  "m_flags (remove_offline sid c) = m_flags c"
  by (simp_all add: remove_offline_def)

lemma coord_inv_emit [simp]: "coord_inv cond E c (emit e cx) = coord_inv cond E c cx"
  by (simp add: coord_inv_def)

lemma coord_inv_core: "coord_inv cond E c cx \<Longrightarrow> coord_core cond c cx"
  by (simp add: coord_inv_def)

lemma coord_inv_sorted: "coord_inv cond E c cx \<Longrightarrow> servers_sorted (m_servers c)"
  by (simp add: coord_inv_def)

lemma packed_config_cong:
  "m_cluster c' = m_cluster c \<Longrightarrow> m_version c' = m_version c \<Longrightarrow> m_flags c' = m_flags c \<Longrightarrow>
   m_servers c' = m_servers c \<Longrightarrow> packed_config E c' = packed_config E c"
  by (simp add: packed_config_def)

context replicant_conditions
begin

text \<open>The two endings of an operation on the table: a new configuration and a response, or only a
  response.\<close>

lemma change_respond:
  assumes "coord_core cond c cx" and "coord_room c" and "servers_sorted (m_servers c)"
  shows "\<exists>c' cx'. run_bind (generate_next_configuration R E c cx) (respond x) = ret (c', cx') \<and>
     coord_inv cond E c' cx' \<and> m_version c' = m_version c + 1 \<and> m_servers c' = m_servers c \<and>
     m_cluster c' = m_cluster c \<and> m_flags c' = m_flags c \<and> m_checkpoint c' = m_checkpoint c \<and>
     cx_effects cx' = cx_effects cx @ [SetResponse (response_bytes x)] \<and> stable_frozen c c'"
proof -
  from generate_next_ok [OF assms(1,2), of E] obtain c' cx'
    where g: "generate_next_configuration R E c cx = ret (c', cx')" "coord_core cond c' cx'"
      "cx_effects cx' = cx_effects cx" "m_version c' = m_version c + 1" "m_cluster c' = m_cluster c"
      "m_flags c' = m_flags c" "m_servers c' = m_servers c" "m_checkpoint c' = m_checkpoint c"
      "m_latest_config c' = Some (packed_config E c')"
      "stable_frozen c c'" by blast
  have "run_bind (generate_next_configuration R E c cx) (respond x) = ret (c', generate_response x cx')"
    using g(1) by (simp add: respond_def)
  then show ?thesis using g assms(3) by (auto simp: generate_response_def coord_inv_def)
qed

lemma checkpoint_ok:
  assumes inv: "coord_inv cond E c cx" and room: "coord_room c"
  shows "\<exists>c' cx'. checkpoint R c cx = ret (c', cx') \<and> coord_inv cond E c' cx' \<and>
     m_checkpoint c' = m_checkpoint c + 1 \<and> m_version c' = m_version c \<and> m_cluster c' = m_cluster c \<and>
     m_servers c' = m_servers c \<and> m_config_stable_through c' = m_config_stable_through c \<and>
     cx_effects cx' = cx_effects cx \<and> m_checkpoint_stable_through c \<le> m_checkpoint_stable_through c' \<and>
     (m_servers c = [] \<longrightarrow> m_checkpoint_stable_through c' = m_checkpoint c')"
proof -
  have cp: "m_checkpoint c = cx_cond cond ''checkp'' cx" "m_checkpoint_stable_through c = cx_cond cond ''checkps'' cx"
    "m_checkpoint_gc_through c = m_checkpoint_stable_through c - outstanding_checkpoints"
    "m_checkpoint_gc_through c = cx_cond cond ''checkpgc'' cx"
    "barrier_state (m_checkpoint_stable_barrier c) (m_checkpoint c) (m_checkpoint_stable_through c)"
    using coord_coreD [OF coord_inv_core [OF inv]] by simp_all
  have b: "m_checkpoint c + 1 < u64_bound" "m_checkpoint c + 1 + outstanding_checkpoints < u64_bound"
    using room by (simp_all add: coord_room_def)
  obtain cx1 where bc: "condition_broadcast R ''checkp'' cx = (Some (m_checkpoint c + 1), cx1)"
      and e1: "cx_effects cx1 = cx_effects cx"
      and c1: "\<And>n. cx_cond cond n cx1 = (if n = ''checkp'' then m_checkpoint c + 1 else cx_cond cond n cx)"
    using condition_broadcast_cond [of "''checkp''" cx] b(1) unfolding cp(1) [symmetric] by auto
  let ?sids = "servers_in_configuration (c\<lparr>m_checkpoint := m_checkpoint c + 1\<rparr>)"
  obtain m where m: "new_version (m_checkpoint c + 1) ?sids (m_checkpoint_stable_barrier c) = Inr m"
      "barrier_inv m" "fst (last m) = m_checkpoint c + 1" "m_checkpoint_stable_through c \<le> min_version m"
      "min_version m \<le> m_checkpoint c + 1"
    using barrier_state_next [OF cp(5), of "m_checkpoint c + 1"] by auto
  let ?c = "c\<lparr>m_checkpoint := m_checkpoint c + 1, m_checkpoint_stable_barrier := m\<rparr>"
  have t: "m_checkpoint_stable_through c = cx_cond cond ''checkps'' cx1"
    "m_checkpoint_gc_through c = cx_cond cond ''checkpgc'' cx1" using cp(2,4) c1 by simp_all
  obtain cx2 where ck: "check_checkpoint_stable_condition R ?c cx1 =
      ret (?c\<lparr>m_checkpoint_stable_through := min_version m,
             m_checkpoint_gc_through := min_version m - outstanding_checkpoints\<rparr>, cx2)"
      "cx_effects cx2 = cx_effects cx1"
      "\<And>n. cx_cond cond n cx2 = (if n = ''checkps'' then min_version m
        else if n = ''checkpgc'' then min_version m - outstanding_checkpoints else cx_cond cond n cx1)"
    using check_checkpoint_ok [of ?c cx1] t m(4,5) cp(3) b(2) by (auto simp: max_absorb2)
  let ?c' = "?c\<lparr>m_checkpoint_stable_through := min_version m,
             m_checkpoint_gc_through := min_version m - outstanding_checkpoints\<rparr>"
  have run: "checkpoint R c cx = ret (?c', cx2)"
    using bc b(1) m(1,4,5) ck(1) by (simp add: checkpoint_def u64_simps)
  have "coord_core cond ?c' cx2"
  proof -
    have r: "m_version c = cx_cond cond ''config'' cx2"
      "barrier_state (m_config_ack_barrier c) (m_version c) (m_config_ack_through c)"
      "m_config_ack_through c = cx_cond cond ''ack'' cx2"
      "barrier_state (m_config_stable_barrier c) (m_version c) (m_config_stable_through c)"
      "m_config_stable_through c = cx_cond cond ''stable'' cx2"
      using coord_coreD [OF coord_inv_core [OF inv]] unfolding ck(3) c1 by simp_all
    have cs: "cx_cond cond ''checkp'' cx2 = m_checkpoint c + 1" "cx_cond cond ''checkps'' cx2 = min_version m"
      "cx_cond cond ''checkpgc'' cx2 = min_version m - outstanding_checkpoints"
      unfolding ck(3) c1 by simp_all
    show ?thesis
      unfolding coord_core_def using r cs barrier_inv_state [OF m(2)] m(3) by simp
  qed
  then have "coord_inv cond E ?c' cx2"
    using inv packed_config_cong [of ?c' c E] by (simp add: coord_inv_def)
  moreover have "m_servers c = [] \<longrightarrow> min_version m = m_checkpoint c + 1"
    using m(1) maybe_clear_prefix_split [of "[]" "m_checkpoint_stable_barrier c" "m_checkpoint c + 1"]
    by (auto simp: servers_in_configuration_def new_version_def rbind_Inr_iff min_version_def)
  ultimately show ?thesis using run e1 ck(2) m(4) by auto
qed

lemma config_ack_ok:
  assumes inv: "coord_inv cond E c cx" and room: "coord_room c"
  shows "\<exists>cx'. config_ack R sid v c cx =
       ret (c\<lparr>m_config_ack_barrier := barrier_pass v sid (m_config_ack_barrier c),
              m_config_ack_through := max (m_config_ack_through c)
                (min_version (barrier_pass v sid (m_config_ack_barrier c)))\<rparr>, cx') \<and>
     coord_inv cond E
       (c\<lparr>m_config_ack_barrier := barrier_pass v sid (m_config_ack_barrier c),
          m_config_ack_through := max (m_config_ack_through c)
                (min_version (barrier_pass v sid (m_config_ack_barrier c)))\<rparr>) cx' \<and>
     cx_effects cx' = cx_effects cx"
proof -
  note core = coord_coreD [OF coord_inv_core [OF inv]]
  let ?m = "barrier_pass v sid (m_config_ack_barrier c)"
  let ?t = "max (m_config_ack_through c) (min_version ?m)"
  have st: "barrier_state ?m (m_version c) ?t" using core(2) by (rule barrier_state_pass)
  have b: "?t < u64_bound" using barrier_state_le [OF st] room by (auto simp: coord_room_def)
  let ?c1 = "c\<lparr>m_config_ack_barrier := ?m\<rparr>"
  let ?c2 = "?c1\<lparr>m_config_ack_through := ?t\<rparr>"
  obtain cx' where a: "check_ack_condition R ?c1 cx = Some (?c2, cx')" "cx_effects cx' = cx_effects cx"
      "\<And>n. cx_cond cond n cx' = (if n = ''ack'' then ?t else cx_cond cond n cx)"
    using check_ack_ok [of ?c1 cx] core(3) b by auto
  have "coord_core cond ?c2 cx'"
    unfolding coord_core_def a(3) using core st by simp
  then have "coord_inv cond E ?c2 cx'"
    using inv packed_config_cong [of ?c2 c E] by (simp add: coord_inv_def)
  then show ?thesis using a(1,2) by (simp add: config_ack_def)
qed

lemma config_stable_ok:
  assumes inv: "coord_inv cond E c cx" and room: "coord_room c"
  shows "\<exists>cx'. config_stable R sid v c cx =
       ret (c\<lparr>m_config_stable_barrier := barrier_pass v sid (m_config_stable_barrier c),
              m_config_stable_through := max (m_config_stable_through c)
                (min_version (barrier_pass v sid (m_config_stable_barrier c)))\<rparr>, cx') \<and>
     coord_inv cond E
       (c\<lparr>m_config_stable_barrier := barrier_pass v sid (m_config_stable_barrier c),
          m_config_stable_through := max (m_config_stable_through c)
                (min_version (barrier_pass v sid (m_config_stable_barrier c)))\<rparr>) cx' \<and>
     cx_effects cx' = cx_effects cx"
proof -
  note core = coord_coreD [OF coord_inv_core [OF inv]]
  let ?m = "barrier_pass v sid (m_config_stable_barrier c)"
  let ?t = "max (m_config_stable_through c) (min_version ?m)"
  have st: "barrier_state ?m (m_version c) ?t" using core(4) by (rule barrier_state_pass)
  have b: "?t < u64_bound" using barrier_state_le [OF st] room by (auto simp: coord_room_def)
  let ?c1 = "c\<lparr>m_config_stable_barrier := ?m\<rparr>"
  let ?c2 = "?c1\<lparr>m_config_stable_through := ?t\<rparr>"
  obtain cx' where a: "check_stable_condition R ?c1 cx = Some (?c2, cx')" "cx_effects cx' = cx_effects cx"
      "\<And>n. cx_cond cond n cx' = (if n = ''stable'' then ?t else cx_cond cond n cx)"
    using check_stable_ok [of ?c1 cx] core(5) b by auto
  have "coord_core cond ?c2 cx'"
    unfolding coord_core_def a(3) using core st by simp
  then have "coord_inv cond E ?c2 cx'"
    using inv packed_config_cong [of ?c2 c E] by (simp add: coord_inv_def)
  then show ?thesis using a(1,2) by (simp add: config_stable_def)
qed

lemma checkpoint_stable_ok:
  assumes inv: "coord_inv cond E c cx" and room: "coord_room c"
  shows "\<exists>c' cx'. checkpoint_stable R sid config v c cx = ret (c', cx') \<and> coord_inv cond E c' cx' \<and>
     m_checkpoint c' = m_checkpoint c \<and> m_version c' = m_version c \<and> m_cluster c' = m_cluster c \<and>
     m_servers c' = m_servers c \<and> m_config_stable_through c' = m_config_stable_through c \<and>
     m_checkpoint_stable_barrier c' =
       (if config < m_version c then m_checkpoint_stable_barrier c
        else barrier_pass v sid (m_checkpoint_stable_barrier c)) \<and>
     cx_effects cx' = cx_effects cx @
       [SetResponse (response_bytes (if config < m_version c then COORD_NO_CAN_DO else COORD_SUCCESS))]"
proof (cases "config < m_version c")
  case True
  then show ?thesis using inv by (simp add: checkpoint_stable_def respond_def generate_response_def)
next
  case False
  note core = coord_coreD [OF coord_inv_core [OF inv]]
  let ?m = "barrier_pass v sid (m_checkpoint_stable_barrier c)"
  let ?t = "max (m_checkpoint_stable_through c) (min_version ?m)"
  have st: "barrier_state ?m (m_checkpoint c) ?t" using core(7) by (rule barrier_state_pass)
  let ?c1 = "c\<lparr>m_checkpoint_stable_barrier := ?m\<rparr>"
  let ?c2 = "?c1\<lparr>m_checkpoint_stable_through := ?t, m_checkpoint_gc_through := ?t - outstanding_checkpoints\<rparr>"
  obtain cx' where a: "check_checkpoint_stable_condition R ?c1 cx = ret (?c2, cx')" "cx_effects cx' = cx_effects cx"
      "\<And>n. cx_cond cond n cx' = (if n = ''checkps'' then ?t
        else if n = ''checkpgc'' then ?t - outstanding_checkpoints else cx_cond cond n cx)"
    using check_checkpoint_ok [of ?c1 cx] core(7-10) barrier_state_le [OF st] barrier_state_le [OF core(7)] room
    by (auto simp: coord_room_def)
  have "coord_core cond ?c2 cx'"
    unfolding coord_core_def a(3) using core st by simp
  then have "coord_inv cond E ?c2 cx'"
    using inv packed_config_cong [of ?c2 c E] by (simp add: coord_inv_def)
  then show ?thesis
    using a(1,2) False by (simp add: checkpoint_stable_def respond_def generate_response_def)
qed

lemma init_ok:
  assumes inv: "coord_inv cond E c cx" and room: "coord_room c"
  shows "\<exists>c' cx'. coord_init R E token c cx = ret (c', cx') \<and> coord_inv cond E c' cx' \<and>
     m_cluster c' = (if m_cluster c = 0 then token else m_cluster c) \<and>
     m_version c' = m_version c + (if m_cluster c = 0 then 1 else 0) \<and>
     m_checkpoint c' = m_checkpoint c \<and> m_servers c' = m_servers c \<and> stable_frozen c c' \<and>
     cx_effects cx' = cx_effects cx @ (if m_cluster c = 0 then [SetAlarm ''alarm'' alarm_interval] else []) @
       [SetResponse (response_bytes COORD_SUCCESS)]"
proof (cases "m_cluster c = 0")
  case True
  have "coord_core cond (c\<lparr>m_cluster := token\<rparr>) (emit (SetAlarm ''alarm'' alarm_interval) cx)"
      "coord_room (c\<lparr>m_cluster := token\<rparr>)" "servers_sorted (m_servers (c\<lparr>m_cluster := token\<rparr>))"
    using coord_inv_core [OF inv] coord_inv_sorted [OF inv] room by simp_all
  from change_respond [OF this, of E COORD_SUCCESS] show ?thesis using True
    by (auto simp: coord_init_def)
next
  case False
  then show ?thesis using inv by (simp add: coord_init_def respond_def generate_response_def)
qed

lemma read_only_ok:
  fixes c :: coordinator
  defines "f ro \<equiv> if ro then or (m_flags c) config_read_only else and (m_flags c) (not config_read_only)"
  assumes inv: "coord_inv cond E c cx" and room: "coord_room c"
  shows "\<exists>c' cx'. read_only R E ro c cx = ret (c', cx') \<and> coord_inv cond E c' cx' \<and>
     m_flags c' = f ro \<and> m_version c' = m_version c + (if f ro = m_flags c then 0 else 1) \<and>
     m_checkpoint c' = m_checkpoint c \<and> m_servers c' = m_servers c \<and> m_cluster c' = m_cluster c \<and>
     stable_frozen c c' \<and> cx_effects cx' = cx_effects cx @ [SetResponse (response_bytes COORD_SUCCESS)]"
proof (cases "f ro = m_flags c")
  case True
  then have "c\<lparr>m_flags := f ro\<rparr> = c" by simp
  then show ?thesis using True inv
    by (simp add: read_only_def f_def [symmetric] respond_def generate_response_def)
next
  case False
  have "coord_core cond (c\<lparr>m_flags := f ro\<rparr>) cx" "coord_room (c\<lparr>m_flags := f ro\<rparr>)"
      "servers_sorted (m_servers (c\<lparr>m_flags := f ro\<rparr>))"
    using coord_inv_core [OF inv] coord_inv_sorted [OF inv] room by simp_all
  from change_respond [OF this, of E COORD_SUCCESS] show ?thesis using False
    by (auto simp: read_only_def f_def [symmetric])
qed

lemma alarm_ok:
  assumes inv: "coord_inv cond E c cx" and room: "coord_room c"
  shows "\<exists>c' cx'. coord_alarm R c cx = ret (c', cx') \<and> coord_inv cond E c' cx' \<and>
     m_checkpoint c' = m_checkpoint c + 1 \<and> m_version c' = m_version c \<and> m_cluster c' = m_cluster c \<and>
     m_servers c' = m_servers c \<and> m_config_stable_through c' = m_config_stable_through c \<and>
     cx_effects cx' = cx_effects cx @ [SetAlarm ''alarm'' alarm_interval] \<and>
     m_checkpoint_stable_through c \<le> m_checkpoint_stable_through c' \<and>
     (m_servers c = [] \<longrightarrow> m_checkpoint_stable_through c' = m_checkpoint c')"
  using checkpoint_ok [of E c "emit (SetAlarm ''alarm'' alarm_interval) cx"] inv room
  by (simp add: coord_alarm_def)

lemma config_get_ok:
  assumes inv: "coord_inv cond E c cx" and k: "m_cluster c \<noteq> 0"
  shows "config_get c cx = ret (c, emit (SetResponse (packed_config E c)) cx)"
  using assms by (auto simp: config_get_def coord_inv_def)

end

end
