(* ===== verification/ServerTable.thy ===== *)
theory ServerTable
  imports CoordinatorInv "HOL-Library.Multiset"
begin

text \<open>
  What the operations of the coordinator do to the table of servers: an abstract state machine
  over a map from identifiers to servers (\<open>spec_op\<close>), and the refinement of the code's sorted
  vector to it, operation by operation.
\<close>

section \<open>The table as a map\<close>

definition table :: "server list \<Rightarrow> server_id \<Rightarrow> server option" where
  "table ss = (\<lambda>sid. find (\<lambda>s. srv_id s = sid) ss)"

lemma table_Some_iff: "servers_sorted ss \<Longrightarrow> table ss sid = Some s \<longleftrightarrow> s \<in> set ss \<and> srv_id s = sid"
  by (simp add: table_def find_distinct servers_sorted_distinct)

lemma option_fun_eqI: "(\<And>k v. f k = Some v \<longleftrightarrow> g k = Some v) \<Longrightarrow> f = g"
  by (rule ext) (metis not_Some_eq)

lemma table_eqI:
  assumes "servers_sorted ss" and "\<And>k s. g k = Some s \<longleftrightarrow> s \<in> set ss \<and> srv_id s = k"
  shows "table ss = g"
  using assms by (intro option_fun_eqI) (simp add: table_Some_iff)

lemma get_server_cases:
  obtains (None) "get_server sid ss = None" and "table ss sid = None"
  | (Some) i where "get_server sid ss = Some i" and "i < length ss" and "srv_id (ss ! i) = sid"
      and "table ss sid = Some (ss ! i)"
proof (cases "length (takeWhile (\<lambda>s. srv_id s \<noteq> sid) ss) < length ss")
  case True
  let ?i = "length (takeWhile (\<lambda>s. srv_id s \<noteq> sid) ss)"
  have i: "get_server sid ss = Some ?i" using True by (simp add: get_server_def)
  moreover have "srv_id (ss ! ?i) = sid" using nth_length_takeWhile [OF True] by simp
  moreover have "table ss sid = Some (ss ! ?i)" using True unfolding table_def by (induction ss) auto
  ultimately show thesis using Some True by blast
next
  case False
  then have "\<forall>s \<in> set ss. srv_id s \<noteq> sid" by (induction ss) (auto split: if_splits)
  then have "table ss sid = None" by (simp add: table_def find_None_iff)
  with False show thesis using None by (simp add: get_server_def)
qed

lemma update_sorted:
  assumes "servers_sorted ss" and "i < length ss" and "srv_id s = srv_id (ss ! i)"
  shows "servers_sorted (ss[i := s])"
proof -
  have "map srv_id (ss[i := s]) = map srv_id ss" using assms(2,3) by (simp add: map_update list_update_same_conv)
  then show ?thesis using assms(1) by (simp add: servers_sorted_def)
qed

lemma table_update:
  assumes so: "servers_sorted ss" and i: "i < length ss" and s: "srv_id s = srv_id (ss ! i)"
  shows "table (ss[i := s]) = (table ss)(srv_id s \<mapsto> s)"
proof (rule table_eqI [OF update_sorted [OF assms]])
  fix k t
  have d: "distinct (map srv_id ss)" using so by (rule servers_sorted_distinct)
  then have "set (ss[i := s]) = insert s (set ss - {ss ! i})"
    using i by (intro set_update_distinct) (simp_all add: distinct_map)
  moreover have "t = ss ! i" if "t \<in> set ss" "srv_id t = srv_id (ss ! i)"
    using d that i by (auto simp: distinct_map inj_on_def)
  ultimately show "((table ss)(srv_id s \<mapsto> s)) k = Some t \<longleftrightarrow> t \<in> set (ss[i := s]) \<and> srv_id t = k"
    using so s i by (auto simp: table_Some_iff)
qed

lemma takeWhile_filter_sorted:
  assumes "sorted_wrt (<) (map srv_id ss)"
  shows "rev (dropWhile (\<lambda>s. \<not> srv_id s < sid) (rev ss)) = filter (\<lambda>s. srv_id s < sid) ss"
  using assms
proof (induction ss rule: rev_induct)
  case (snoc x ss)
  show ?case
  proof (cases "srv_id x < sid")
    case True
    then have "filter (\<lambda>s. srv_id s < sid) ss = ss"
      using snoc.prems by (force simp: filter_id_conv sorted_wrt_append)
    then show ?thesis using True by simp
  qed (use snoc in \<open>simp add: sorted_wrt_append\<close>)
qed simp

lemma drop_filter_sorted:
  assumes "sorted_wrt (<) (map srv_id ss)"
  shows "drop (length (filter (\<lambda>s. srv_id s < sid) ss)) ss = filter (\<lambda>s. \<not> srv_id s < sid) ss"
  using assms
proof (induction ss)
  case (Cons x ss)
  show ?case
  proof (cases "srv_id x < sid")
    case False
    then have "filter (\<lambda>s. srv_id s < sid) ss = []" "filter (\<lambda>s. \<not> srv_id s < sid) ss = ss"
      using Cons.prems by (auto simp: filter_empty_conv filter_id_conv)
    then show ?thesis using False by simp
  qed (use Cons in simp)
qed simp

text \<open>The new server goes where the order wants it.\<close>

lemma new_server_sorted:
  assumes so: "servers_sorted ss" and fresh: "table ss sid = None"
    and i: "new_server sid ss = (ts, i)" and s: "srv_id s = sid"
  shows "i < length ts \<and> ts ! i = server_new sid \<and> servers_sorted (ts[i := s]) \<and>
    table (ts[i := s]) = (table ss)(sid \<mapsto> s)"
proof -
  let ?a = "filter (\<lambda>t. srv_id t < sid) ss" and ?b = "filter (\<lambda>t. \<not> srv_id t < sid) ss"
  have w: "sorted_wrt (<) (map srv_id ss)" using so by (simp add: servers_sorted_def)
  have ts: "ts = ?a @ server_new sid # ?b" "i = length ?a"
    using i unfolding new_server_def takeWhile_filter_sorted [OF w] Let_def drop_filter_sorted [OF w] by auto
  have neq: "\<forall>t \<in> set ss. srv_id t \<noteq> sid" using fresh by (auto simp: table_def find_None_iff)
  have up: "ts[i := s] = ?a @ s # ?b" by (simp add: ts)
  have "sorted_wrt (<) (map srv_id (filter P ss))" for P
    using w by (induction ss) auto
  then have so': "servers_sorted (ts[i := s])"
    using neq s unfolding up servers_sorted_def by (auto simp: sorted_wrt_append not_less intro: less_trans le_neq_trans)
  have "table (ts[i := s]) = (table ss)(sid \<mapsto> s)"
    by (rule table_eqI [OF so']) (use so s neq in \<open>auto simp: table_Some_iff up\<close>)
  then show ?thesis using ts so' by (simp add: nth_append)
qed

text \<open>The removal leaves every other server, whatever place the last element moved to.\<close>

lemma forget_loop_mset:
  assumes "distinct (map srv_id ss)"
  shows "mset (forget_loop sid ss) = mset (filter (\<lambda>s. srv_id s \<noteq> sid) ss)"
  using assms
proof (induction sid ss rule: forget_loop.induct)
  case (2 sid x xs)
  show ?case
  proof (cases "srv_id x = sid \<and> xs \<noteq> []")
    case True
    then have neq: "\<forall>t \<in> set xs. srv_id t \<noteq> sid" using "2.prems" by (auto simp: image_iff)
    have xs: "xs = butlast xs @ [last xs]" using True by simp
    have "distinct (map srv_id (butlast xs))" using "2.prems" by (simp add: map_butlast distinct_butlast)
    then have "mset (forget_loop sid (butlast xs)) = mset (filter (\<lambda>s. srv_id s \<noteq> sid) (butlast xs))"
      using "2.IH"(1) True by simp
    moreover have "filter (\<lambda>s. srv_id s \<noteq> sid) (butlast xs) = butlast xs"
      using neq by (auto simp: filter_id_conv dest: in_set_butlastD)
    moreover have "filter (\<lambda>s. srv_id s \<noteq> sid) xs = xs" using neq by (auto simp: filter_id_conv)
    moreover have "mset xs = add_mset (last xs) (mset (butlast xs))" by (subst xs) simp
    ultimately show ?thesis using True by simp
  qed (use 2 in auto)
qed simp

lemma forget_sorted:
  assumes "servers_sorted ss"
  shows "sort_key srv_id (forget_loop sid ss) = filter (\<lambda>s. srv_id s \<noteq> sid) ss"
proof (rule sort_key_inj_key_eq)
  have d: "distinct (map srv_id ss)" and w: "sorted (map srv_id ss)"
    using assms by (simp_all add: servers_sorted_def strict_sorted_iff)
  show m: "mset (forget_loop sid ss) = mset (filter (\<lambda>s. srv_id s \<noteq> sid) ss)"
    using forget_loop_mset [OF d] .
  show "sorted (map srv_id (filter (\<lambda>s. srv_id s \<noteq> sid) ss))" using w by (simp add: sorted_filter)
  have "set (forget_loop sid ss) \<subseteq> set ss" using mset_eq_setD [OF m] by auto
  then show "inj_on srv_id (set (forget_loop sid ss))" using d by (auto simp: distinct_map intro: inj_on_subset)
qed

lemma forget_table:
  assumes "servers_sorted ss"
  shows "servers_sorted (sort_key srv_id (forget_loop sid ss)) \<and>
    table (sort_key srv_id (forget_loop sid ss)) = (table ss)(sid := None)"
proof -
  have so: "servers_sorted (filter (\<lambda>s. srv_id s \<noteq> sid) ss)"
    using assms unfolding servers_sorted_def by (induction ss) auto
  moreover have "table (filter (\<lambda>s. srv_id s \<noteq> sid) ss) = (table ss)(sid := None)"
    by (rule table_eqI [OF so]) (use assms in \<open>auto simp: table_Some_iff\<close>)
  ultimately show ?thesis by (simp add: forget_sorted [OF assms])
qed

section \<open>The abstract state machine\<close>

text \<open>An operation on the table gives a response and, when the configuration changes, the new table.\<close>

datatype table_op =
    Register server_id location
  | Online server_id "location option"
  | Offline server_id
  | Shutdown server_id
  | Kill server_id
  | Forget server_id
  | Suspect server_id

type_synonym server_map = "server_id \<Rightarrow> server option"

definition spec_change :: "server_map \<Rightarrow> server \<Rightarrow> server_map option \<times> coordinator_returncode" where
  "spec_change t s = (if t (srv_id s) = Some s then None else Some (t(srv_id s \<mapsto> s)), COORD_SUCCESS)"

definition taken :: "server_map \<Rightarrow> server_id \<Rightarrow> location \<Rightarrow> bool" where
  "taken t sid l \<longleftrightarrow> (\<exists>j s. j \<noteq> sid \<and> t j = Some s \<and> srv_bind_to s = l)"

fun usable_state :: "server_state \<Rightarrow> bool" where
  "usable_state KILLED = False"
| "usable_state (OTHER_STATE n) = False"
| "usable_state _ = True"

definition spec_online :: "server_map \<Rightarrow> server \<Rightarrow> location option \<Rightarrow> server_map option \<times> coordinator_returncode" where
  "spec_online t s bind_to =
     (let l = (case bind_to of None \<Rightarrow> srv_bind_to s | Some l \<Rightarrow> l)
      in if \<not> usable_state (srv_state s) then (None, COORD_NO_CAN_DO)
         else if l \<noteq> srv_bind_to s \<and> taken t (srv_id s) l then (None, COORD_DUPLICATE)
         else spec_change t (s\<lparr>srv_state := AVAILABLE, srv_bind_to := l\<rparr>))"

definition spec_offline :: "server_map \<Rightarrow> server \<Rightarrow> server_map option \<times> coordinator_returncode" where
  "spec_offline t s =
     (if \<not> usable_state (srv_state s) then (None, COORD_NO_CAN_DO)
      else if srv_state s = SHUTDOWN then (None, COORD_SUCCESS)
      else spec_change t (s\<lparr>srv_state := NOT_AVAILABLE\<rparr>))"

definition known :: "server_map \<Rightarrow> server_id \<Rightarrow> (server \<Rightarrow> server_map option \<times> coordinator_returncode) \<Rightarrow>
    server_map option \<times> coordinator_returncode" where
  "known t sid f = (case t sid of None \<Rightarrow> (None, COORD_NOT_FOUND) | Some s \<Rightarrow> f s)"

fun spec_op :: "table_op \<Rightarrow> server_map \<Rightarrow> server_map option \<times> coordinator_returncode" where
  "spec_op (Register sid l) t =
     (case t sid of
        Some _ \<Rightarrow> (None, COORD_DUPLICATE)
      | None \<Rightarrow> (Some (t(sid \<mapsto> \<lparr>srv_state = ASSIGNED, srv_id = sid, srv_bind_to = l\<rparr>)), COORD_SUCCESS))"
| "spec_op (Online sid l) t = known t sid (\<lambda>s. spec_online t s l)"
| "spec_op (Offline sid) t = known t sid (spec_offline t)"
| "spec_op (Shutdown sid) t = known t sid (\<lambda>s.
     if usable_state (srv_state s) then spec_change t (s\<lparr>srv_state := SHUTDOWN\<rparr>) else (None, COORD_NO_CAN_DO))"
| "spec_op (Kill sid) t = known t sid (\<lambda>s. spec_change t (s\<lparr>srv_state := KILLED\<rparr>))"
| "spec_op (Forget sid) t = known t sid (\<lambda>s. (Some (t(sid := None)), COORD_SUCCESS))"
| "spec_op (Suspect sid) t = known t sid (spec_offline t)"

text \<open>The code's operation of each name, and the callback \<open>server_online\<close> registers.\<close>

fun run_op :: "'r replicant \<Rightarrow> e_codec \<Rightarrow> table_op \<Rightarrow> coordinator \<Rightarrow> 'r rsm_context \<Rightarrow>
    (coordinator \<times> 'r rsm_context) run" where
  "run_op R E (Register sid l) = server_register R E sid l"
| "run_op R E (Online sid l) = server_online R E sid l"
| "run_op R E (Offline sid) = server_offline R E sid"
| "run_op R E (Shutdown sid) = server_shutdown R E sid"
| "run_op R E (Kill sid) = server_kill R E sid"
| "run_op R E (Forget sid) = server_forget R E sid"
| "run_op R E (Suspect sid) = server_suspect R E sid"

fun callback :: "u64 \<Rightarrow> table_op \<Rightarrow> coordinator_returncode \<Rightarrow> effect list" where
  "callback client (Online sid l) COORD_SUCCESS = [SuspectClient client ''server_suspect'' (be_put 8 sid)]"
| "callback client op x = []"

definition op_refines ::
  "(string \<Rightarrow> 'r \<Rightarrow> u64) \<Rightarrow> 'r replicant \<Rightarrow> e_codec \<Rightarrow> table_op \<Rightarrow> coordinator \<Rightarrow> 'r rsm_context \<Rightarrow>
     coordinator \<Rightarrow> 'r rsm_context \<Rightarrow> bool" where
  "op_refines cond R E op c cx c' cx' \<longleftrightarrow>
     (let (t, x) = spec_op op (table (m_servers c)) in
      coord_inv cond E c' cx' \<and>
      table (m_servers c') = (case t of None \<Rightarrow> table (m_servers c) | Some t' \<Rightarrow> t') \<and>
      m_version c' = m_version c + (if t = None then 0 else 1) \<and>
      m_cluster c' = m_cluster c \<and> m_flags c' = m_flags c \<and> m_checkpoint c' = m_checkpoint c \<and> stable_frozen c c' \<and>
      cx_effects cx' = cx_effects cx @ callback (rep_client R (cx_rep cx')) op x @
        [SetResponse (response_bytes x)])"

lemma srv_update_swap: "s\<lparr>srv_bind_to := l, srv_state := x\<rparr> = s\<lparr>srv_state := x, srv_bind_to := l\<rparr>"
  by simp

lemma srv_state_update_id [simp]:
  "s\<lparr>srv_state := x\<rparr> = s \<longleftrightarrow> srv_state s = x"
  "s = s\<lparr>srv_state := x\<rparr> \<longleftrightarrow> srv_state s = x"
  by (cases s; auto)+

context replicant_conditions
begin

lemma refines_unchanged:
  assumes "coord_inv cond E c cx" and "spec_op op (table (m_servers c)) = (None, x)"
    and "\<And>k. callback k op x = []"
  shows "\<exists>c' cx'. respond x (c, cx) = ret (c', cx') \<and> op_refines cond R E op c cx c' cx'"
  using assms by (simp add: respond_def generate_response_def op_refines_def)

lemma refines_changed:
  assumes inv: "coord_inv cond E c cx" and room: "coord_room c"
    and spec: "spec_op op (table (m_servers c)) = (Some (table (m_servers c1)), COORD_SUCCESS)"
    and cb: "\<And>k. callback k op COORD_SUCCESS = []" and so: "servers_sorted (m_servers c1)"
    and c1: "coord_core cond c1 cx" "coord_room c1" "m_version c1 = m_version c" "m_cluster c1 = m_cluster c"
      "m_flags c1 = m_flags c" "m_checkpoint c1 = m_checkpoint c" "stable_frozen c1 = stable_frozen c"
  shows "\<exists>c' cx'. run_bind (generate_next_configuration R E c1 cx) (respond COORD_SUCCESS) = ret (c', cx') \<and>
     op_refines cond R E op c cx c' cx'"
  using change_respond [OF c1(1,2) so, of E COORD_SUCCESS] c1(3-) spec cb
  by (fastforce simp: op_refines_def)

lemma register_refines:
  assumes inv: "coord_inv cond E c cx" and room: "coord_room c"
  shows "\<exists>c' cx'. server_register R E sid l c cx = ret (c', cx') \<and> op_refines cond R E (Register sid l) c cx c' cx'"
proof (cases rule: get_server_cases [of sid "m_servers c"])
  case None
  obtain ts i where n: "new_server sid (m_servers c) = (ts, i)" by fastforce
  let ?s = "\<lparr>srv_state = ASSIGNED, srv_id = sid, srv_bind_to = l\<rparr>"
  have up: "i < length ts \<and> ts ! i = server_new sid \<and> servers_sorted (ts[i := ?s]) \<and>
      table (ts[i := ?s]) = (table (m_servers c))(sid \<mapsto> ?s)"
    using new_server_sorted [OF coord_inv_sorted [OF inv] None(2) n, of ?s] by simp
  have "server_new sid\<lparr>srv_state := ASSIGNED, srv_bind_to := l\<rparr> = ?s" by (simp add: server_new_def)
  with up show ?thesis
    using refines_changed [OF inv room, of "Register sid l" "c\<lparr>m_servers := ts[i := ?s]\<rparr>"] None n
      coord_inv_core [OF inv] room
    by (simp add: server_register_def)
next
  case (Some i)
  then show ?thesis using refines_unchanged [OF inv, of "Register sid l" COORD_DUPLICATE]
    by (simp add: server_register_def)
qed

lemma update_refines:
  assumes inv: "coord_inv cond E c cx" and room: "coord_room c"
    and i: "i < length (m_servers c)" and t: "table (m_servers c) sid = Some (m_servers c ! i)"
    and s: "srv_id s = srv_id (m_servers c ! i)" "srv_id s = sid" "s \<noteq> m_servers c ! i"
    and spec: "spec_op op (table (m_servers c)) = spec_change (table (m_servers c)) s"
    and cb: "\<And>k. callback k op COORD_SUCCESS = []"
    and c1: "m_servers c1 = (m_servers c)[i := s]" "coord_core cond c1 cx" "coord_room c1" "m_version c1 = m_version c"
      "m_cluster c1 = m_cluster c" "m_flags c1 = m_flags c" "m_checkpoint c1 = m_checkpoint c"
      "stable_frozen c1 = stable_frozen c"
  shows "\<exists>c' cx'. run_bind (generate_next_configuration R E c1 cx) (respond COORD_SUCCESS) = ret (c', cx') \<and>
     op_refines cond R E op c cx c' cx'"
proof -
  have "spec_op op (table (m_servers c)) = (Some (table (m_servers c1)), COORD_SUCCESS)"
    using spec table_update [OF coord_inv_sorted [OF inv] i s(1)] t s(2,3) c1(1) by (simp add: spec_change_def)
  then show ?thesis
    using refines_changed [OF inv room _ cb] update_sorted [OF coord_inv_sorted [OF inv] i s(1)] c1 by simp
qed

lemma unchanged_spec:
  assumes "coord_inv cond E c cx" and "table (m_servers c) sid = Some s"
    and "spec_op op (table (m_servers c)) = spec_change (table (m_servers c)) s" and "srv_id s = sid"
    and "\<And>k. callback k op COORD_SUCCESS = []"
  shows "\<exists>c' cx'. respond COORD_SUCCESS (c, cx) = ret (c', cx') \<and> op_refines cond R E op c cx c' cx'"
  using assms by (intro refines_unchanged) (simp_all add: spec_change_def)

lemma offline_refines:
  assumes inv: "coord_inv cond E c cx" and room: "coord_room c"
  shows "\<exists>c' cx'. server_offline R E sid c cx = ret (c', cx') \<and> op_refines cond R E (Offline sid) c cx c' cx'"
proof (cases rule: get_server_cases [of sid "m_servers c"])
  case None
  then show ?thesis using refines_unchanged [OF inv, of "Offline sid" COORD_NOT_FOUND]
    by (simp add: server_offline_def known_def)
next
  case (Some i)
  show ?thesis
    using refines_unchanged [OF inv, of "Offline sid"] coord_inv_core [OF inv] room Some
      update_refines [OF inv room Some(2,4), of "(m_servers c ! i)\<lparr>srv_state := NOT_AVAILABLE\<rparr>" "Offline sid"]
    by (cases "srv_state (m_servers c ! i)")
      (simp_all add: server_offline_def known_def spec_offline_def spec_change_def)
qed

lemma suspect_refines:
  assumes inv: "coord_inv cond E c cx" and room: "coord_room c"
  shows "\<exists>c' cx'. server_suspect R E sid c cx = ret (c', cx') \<and> op_refines cond R E (Suspect sid) c cx c' cx'"
proof (cases rule: get_server_cases [of sid "m_servers c"])
  case None
  then show ?thesis using refines_unchanged [OF inv, of "Suspect sid" COORD_NOT_FOUND]
    by (simp add: server_suspect_def known_def)
next
  case (Some i)
  show ?thesis
    using refines_unchanged [OF inv, of "Suspect sid"] coord_inv_core [OF inv] room Some
      update_refines [OF inv room Some(2,4), of "(m_servers c ! i)\<lparr>srv_state := NOT_AVAILABLE\<rparr>" "Suspect sid"]
    by (cases "srv_state (m_servers c ! i)")
      (simp_all add: server_suspect_def known_def spec_offline_def spec_change_def)
qed

lemma shutdown_refines:
  assumes inv: "coord_inv cond E c cx" and room: "coord_room c"
  shows "\<exists>c' cx'. server_shutdown R E sid c cx = ret (c', cx') \<and> op_refines cond R E (Shutdown sid) c cx c' cx'"
proof (cases rule: get_server_cases [of sid "m_servers c"])
  case None
  then show ?thesis using refines_unchanged [OF inv, of "Shutdown sid" COORD_NOT_FOUND]
    by (simp add: server_shutdown_def known_def)
next
  case (Some i)
  show ?thesis
    using refines_unchanged [OF inv, of "Shutdown sid"] coord_inv_core [OF inv] room Some
      update_refines [OF inv room Some(2,4), of "(m_servers c ! i)\<lparr>srv_state := SHUTDOWN\<rparr>" "Shutdown sid"]
    by (cases "srv_state (m_servers c ! i)")
      (simp_all add: server_shutdown_def known_def spec_change_def)
qed

lemma kill_refines:
  assumes inv: "coord_inv cond E c cx" and room: "coord_room c"
  shows "\<exists>c' cx'. server_kill R E sid c cx = ret (c', cx') \<and> op_refines cond R E (Kill sid) c cx c' cx'"
proof (cases rule: get_server_cases [of sid "m_servers c"])
  case None
  then show ?thesis using refines_unchanged [OF inv, of "Kill sid" COORD_NOT_FOUND]
    by (simp add: server_kill_def known_def)
next
  case (Some i)
  let ?s = "(m_servers c ! i)\<lparr>srv_state := KILLED\<rparr>"
  show ?thesis
    using refines_unchanged [OF inv, of "Kill sid"] coord_inv_core [OF inv] room Some
      update_refines [OF inv room Some(2,4), of ?s "Kill sid"
        "remove_offline sid (c\<lparr>m_servers := (m_servers c)[i := ?s]\<rparr>)"]
    by (cases "srv_state (m_servers c ! i) = KILLED")
      (simp_all add: server_kill_def known_def spec_change_def)
qed

lemma forget_refines:
  assumes inv: "coord_inv cond E c cx" and room: "coord_room c"
  shows "\<exists>c' cx'. server_forget R E sid c cx = ret (c', cx') \<and> op_refines cond R E (Forget sid) c cx c' cx'"
proof (cases rule: get_server_cases [of sid "m_servers c"])
  case None
  then show ?thesis using refines_unchanged [OF inv, of "Forget sid" COORD_NOT_FOUND]
    by (simp add: server_forget_def known_def)
next
  case (Some i)
  show ?thesis
    using refines_changed [OF inv room, of "Forget sid"
        "remove_offline sid (c\<lparr>m_servers := sort_key srv_id (forget_loop sid (m_servers c))\<rparr>)"]
      forget_table [OF coord_inv_sorted [OF inv], of sid] coord_inv_core [OF inv] room Some
    by (simp add: server_forget_def known_def)
qed

lemma online_finish_refines:
  fixes c :: coordinator
  defines "old \<equiv> \<lambda>i. m_servers c ! i"
  assumes inv: "coord_inv cond E c cx" and room: "coord_room c"
    and i: "i < length (m_servers c)" and t: "table (m_servers c) sid = Some (old i)" and sid: "srv_id (old i) = sid"
    and spec: "spec_op (Online sid bt) (table (m_servers c)) =
      spec_change (table (m_servers c)) ((old i)\<lparr>srv_state := AVAILABLE, srv_bind_to := l\<rparr>)"
    and changed: "changed \<longleftrightarrow> srv_bind_to (old i) \<noteq> l"
  shows "\<exists>c' cx'. server_online_finish R E sid i changed
       (c\<lparr>m_servers := (m_servers c)[i := (old i)\<lparr>srv_bind_to := l\<rparr>]\<rparr>) cx = ret (c', cx') \<and>
     op_refines cond R E (Online sid bt) c cx c' cx'"
proof -
  let ?s = "(old i)\<lparr>srv_state := AVAILABLE, srv_bind_to := l\<rparr>"
  let ?c0 = "c\<lparr>m_servers := (m_servers c)[i := (old i)\<lparr>srv_bind_to := l\<rparr>]\<rparr>"
  let ?c1 = "c\<lparr>m_servers := (m_servers c)[i := ?s]\<rparr>"
  let ?done = "\<lambda>(c2, cx2). respond COORD_SUCCESS
      (c2, emit (SuspectClient (rep_client R (cx_rep cx2)) ''server_suspect'' (be_put 8 sid)) cx2)"
  have fin: "server_online_finish R E sid i changed ?c0 cx =
      run_bind (if ?s = old i then ret (c, cx) else generate_next_configuration R E ?c1 cx) ?done"
  proof (cases "srv_state (old i) = AVAILABLE")
    case True
    then have b: "(old i)\<lparr>srv_bind_to := l\<rparr> = ?s" by (cases "old i") simp
    show ?thesis
    proof (cases "srv_bind_to (old i) = l")
      case l: True
      then have s: "?s = old i" using True by (cases "old i") simp
      then have c0: "?c0 = c" unfolding b s by (simp add: old_def)
      show ?thesis using True l s unfolding c0 using changed
        by (simp add: server_online_finish_def old_def [symmetric])
    next
      case False
      then have "?s \<noteq> old i" by (cases "old i") simp
      then show ?thesis using True False changed i by (simp add: b server_online_finish_def)
    qed
  next
    case False
    then have "?s \<noteq> old i" by (cases "old i") simp
    then show ?thesis using False i by (simp add: server_online_finish_def srv_update_swap)
  qed
  show ?thesis
  proof (cases "?s = old i")
    case True
    then have "spec_op (Online sid bt) (table (m_servers c)) = (None, COORD_SUCCESS)"
      using spec t sid by (simp add: spec_change_def)
    then show ?thesis
      using fin True inv by (simp add: respond_def generate_response_def op_refines_def) (simp add: emit_def)
  next
    case False
    have s: "srv_id ?s = srv_id (m_servers c ! i)" by (simp add: old_def)
    have so: "servers_sorted (m_servers ?c1)" using update_sorted [OF coord_inv_sorted [OF inv] i s] by simp
    have tb: "table (m_servers ?c1) = (table (m_servers c))(sid \<mapsto> ?s)"
      using table_update [OF coord_inv_sorted [OF inv] i s] sid by simp
    then have sp: "spec_op (Online sid bt) (table (m_servers c)) = (Some (table (m_servers ?c1)), COORD_SUCCESS)"
      using spec t sid False by (simp add: spec_change_def)
    have "coord_core cond ?c1 cx" "coord_room ?c1" using coord_inv_core [OF inv] room by simp_all
    from generate_next_ok [OF this, of E] obtain c2 cx2
      where g: "generate_next_configuration R E ?c1 cx = ret (c2, cx2)" "coord_core cond c2 cx2"
        "cx_effects cx2 = cx_effects cx" "m_version c2 = m_version c + 1" "m_cluster c2 = m_cluster c"
        "m_flags c2 = m_flags c" "m_servers c2 = m_servers ?c1" "m_checkpoint c2 = m_checkpoint c"
        "m_latest_config c2 = Some (packed_config E c2)" "stable_frozen c c2" by auto
    have "coord_inv cond E c2 cx2" using g so by (simp add: coord_inv_def)
    then show ?thesis
      using fin False sp g by (simp add: respond_def generate_response_def op_refines_def) (simp add: emit_def)
  qed
qed

lemma online_refines:
  assumes inv: "coord_inv cond E c cx" and room: "coord_room c"
  shows "\<exists>c' cx'. server_online R E sid bt c cx = ret (c', cx') \<and> op_refines cond R E (Online sid bt) c cx c' cx'"
proof (cases rule: get_server_cases [of sid "m_servers c"])
  case None
  then show ?thesis using refines_unchanged [OF inv, of "Online sid bt" COORD_NOT_FOUND]
    by (simp add: server_online_def known_def)
next
  case (Some i)
  let ?t = "table (m_servers c)" and ?s = "m_servers c ! i"
  show ?thesis
  proof (cases "usable_state (srv_state ?s)")
    case False
    then have "spec_op (Online sid bt) ?t = (None, COORD_NO_CAN_DO)"
      using Some by (simp add: known_def spec_online_def)
    then show ?thesis using refines_unchanged [OF inv, of "Online sid bt" COORD_NO_CAN_DO] Some False
      by (cases "srv_state ?s") (simp_all add: server_online_def)
  next
    case True
    then have st: "\<not> (srv_state ?s \<noteq> ASSIGNED \<and> srv_state ?s \<noteq> NOT_AVAILABLE \<and> srv_state ?s \<noteq> SHUTDOWN \<and>
        srv_state ?s \<noteq> AVAILABLE)" by (cases "srv_state ?s") simp_all
    let ?l = "case bt of None \<Rightarrow> srv_bind_to ?s | Some l \<Rightarrow> l"
    have dup: "list_ex (\<lambda>s. srv_id s \<noteq> sid \<and> srv_bind_to s = l) (m_servers c) \<longleftrightarrow> taken ?t sid l" for l
      using coord_inv_sorted [OF inv] by (auto simp: list_ex_iff taken_def table_Some_iff)
    have same: "c\<lparr>m_servers := (m_servers c)[i := ?s\<lparr>srv_bind_to := srv_bind_to ?s\<rparr>]\<rparr> = c" by simp
    show ?thesis
    proof (cases "?l \<noteq> srv_bind_to ?s \<and> taken ?t sid ?l")
      case dp: True
      then have "spec_op (Online sid bt) ?t = (None, COORD_DUPLICATE)"
        using Some True by (simp add: known_def spec_online_def)
      then show ?thesis using refines_unchanged [OF inv, of "Online sid bt" COORD_DUPLICATE] Some st dp dup
        by (cases bt) (auto simp: server_online_def)
    next
      case nd: False
      then have "spec_op (Online sid bt) ?t = spec_change ?t (?s\<lparr>srv_state := AVAILABLE, srv_bind_to := ?l\<rparr>)"
        using Some True by (auto simp: known_def spec_online_def Let_def)
      from online_finish_refines [OF inv room Some(2,4,3) this refl]
      moreover have "server_online R E sid bt c cx = server_online_finish R E sid i (srv_bind_to ?s \<noteq> ?l)
          (c\<lparr>m_servers := (m_servers c)[i := ?s\<lparr>srv_bind_to := ?l\<rparr>]\<rparr>) cx"
      proof (cases bt)
        case None
        then show ?thesis using Some(1) st same by (auto simp: server_online_def Let_def)
      next
        case l: (Some l)
        then show ?thesis using Some(1) st same nd dup [of l]
          by (cases "srv_bind_to ?s = l") (auto simp: server_online_def Let_def)
      qed
      ultimately show ?thesis by simp
    qed
  qed
qed

lemma run_op_refines:
  assumes "coord_inv cond E c cx" and "coord_room c"
  shows "\<exists>c' cx'. run_op R E op c cx = ret (c', cx') \<and> op_refines cond R E op c cx c' cx'"
  using register_refines [OF assms] online_refines [OF assms] offline_refines [OF assms] shutdown_refines [OF assms]
    kill_refines [OF assms] forget_refines [OF assms] suspect_refines [OF assms]
  by (cases op) simp_all

end

end
