(* ===== verification/CoordinatorProps.thy ===== *)
theory CoordinatorProps
  imports ServerTable
begin

text \<open>
  The properties of the coordinator: the table of servers refines its abstract machine, no
  sequence of messages makes the replicated state machine fail, hang or lose its invariant, what
  acknowledgements and checkpoints publish, and what clients read back.
\<close>

section \<open>A coordinator just created\<close>

definition fresh_context :: "'r \<Rightarrow> 'r rsm_context" where
  "fresh_context r = \<lparr>cx_rep = r, cx_effects = []\<rparr>"

lemma cx_effects_fresh [simp]: "cx_effects (fresh_context r) = []"
  by (simp add: fresh_context_def)

lemma coord_inv_new: "\<forall>n. cond n r = 0 \<Longrightarrow> coord_inv cond E coordinator_new (fresh_context r)"
  by (simp add: coord_inv_def coord_core_def coordinator_new_def servers_sorted_def cx_cond_def fresh_context_def)

lemma coord_room_new: "coord_room coordinator_new"
  by (simp add: coord_room_def coordinator_new_def outstanding_checkpoints_def)

definition zero_context :: "(string \<Rightarrow> u64) rsm_context" where
  "zero_context = fresh_context (\<lambda>n. 0)"

lemma zero_inv: "coord_inv (\<lambda>c r. r c) E coordinator_new zero_context"
  unfolding zero_context_def by (rule coord_inv_new) simp

section \<open>The table of servers\<close>

text \<open>C12: refinement of the server table. When the counters are not exhausted, each of the seven
  operations on servers returns (no assertion fails, no broadcast loop runs forever) with exactly the
  response and the change of the table that the abstract machine \<open>spec_op\<close> prescribes; the
  version of the configuration grows by one when the table changes and not at all otherwise, and
  the invariant of the coordinator is kept.\<close>

theorem server_table_refines:
  assumes "replicant_conditions R cond" and "coord_inv cond E c cx" and "coord_room c"
  shows "\<exists>c' cx'. run_op R E op c cx = ret (c', cx') \<and> op_refines cond R E op c cx c' cx'"
  using assms by (rule replicant_conditions.run_op_refines)

theorem server_table_refines_witness:
  "\<exists>c' cx'. run_op counter_replicant be_codec (Register 7 loc_default) coordinator_new zero_context = ret (c', cx') \<and>
     m_version c' = 1 \<and> table (m_servers c') 7 = Some (server_new 7) \<and>
     cx_effects cx' = [SetResponse (response_bytes COORD_SUCCESS)]"
  using server_table_refines [OF counters.replicant_conditions_axioms zero_inv coord_room_new,
      of be_codec "Register 7 loc_default"]
  by (fastforce simp: op_refines_def coordinator_new_def table_def server_new_def zero_context_def)

section \<open>Messages\<close>

text \<open>Replicant runs the transition registered under a message's name, and ignores other names.\<close>

fun run_messages ::
  "'r replicant \<Rightarrow> e_codec \<Rightarrow> (string \<times> byte list) list \<Rightarrow> coordinator option \<Rightarrow> 'r rsm_context \<Rightarrow>
     (coordinator option \<times> 'r rsm_context) run" where
  "run_messages R E [] obj cx = ret (obj, cx)"
| "run_messages R E ((name, data) # ms) obj cx =
     (case map_of (symtable R E) name of
        None \<Rightarrow> run_messages R E ms obj cx
      | Some t \<Rightarrow> run_bind (t obj data cx) (\<lambda>(obj', cx'). run_messages R E ms obj' cx'))"

text \<open>The callbacks a step asks for name registered transitions.\<close>

fun registered :: "'r replicant \<Rightarrow> e_codec \<Rightarrow> effect \<Rightarrow> bool" where
  "registered R E (SetResponse _) \<longleftrightarrow> True"
| "registered R E (SetAlarm n _) \<longleftrightarrow> map_of (symtable R E) n \<noteq> None"
| "registered R E (SuspectClient _ n _) \<longleftrightarrow> map_of (symtable R E) n \<noteq> None"

lemma registered_callbacks [simp]:
  "registered R E (SetAlarm ''alarm'' k)"
  "registered R E (SuspectClient i ''server_suspect'' d)"
  by (simp_all add: symtable_def)

definition step_ok ::
  "(string \<Rightarrow> 'r \<Rightarrow> u64) \<Rightarrow> 'r replicant \<Rightarrow> e_codec \<Rightarrow> coordinator \<Rightarrow> 'r rsm_context \<Rightarrow>
     (coordinator \<times> 'r rsm_context) run \<Rightarrow> bool" where
  "step_ok cond R E c cx r \<longleftrightarrow>
     (\<exists>c' cx' es. r = ret (c', cx') \<and> coord_inv cond E c' cx' \<and>
        m_version c' \<le> m_version c + 1 \<and> m_checkpoint c' \<le> m_checkpoint c + 1 \<and> stable_frozen c c' \<and>
        cx_effects cx' = cx_effects cx @ es \<and> list_all (registered R E) es)"

definition obj_ok ::
  "(string \<Rightarrow> 'r \<Rightarrow> u64) \<Rightarrow> 'r replicant \<Rightarrow> e_codec \<Rightarrow> coordinator \<Rightarrow> 'r rsm_context \<Rightarrow>
     (coordinator option \<times> 'r rsm_context) run \<Rightarrow> bool" where
  "obj_ok cond R E c cx r \<longleftrightarrow> (\<exists>s. r = run_bind s (\<lambda>(c', cx'). ret (Some c', cx')) \<and> step_ok cond R E c cx s)"

lemma step_okI:
  assumes "\<exists>c' cx' es. r = ret (c', cx') \<and> coord_inv cond E c' cx' \<and>
        m_version c' \<le> m_version c + 1 \<and> m_checkpoint c' \<le> m_checkpoint c + 1 \<and> stable_frozen c c' \<and>
        cx_effects cx' = cx_effects cx @ es \<and> list_all (registered R E) es"
  shows "step_ok cond R E c cx r"
  using assms by (simp add: step_ok_def)

lemma step_ok_response:
  "coord_inv cond E c cx \<Longrightarrow> step_ok cond R E c cx (ret (c, generate_response x cx))"
  by (rule step_okI) (simp add: generate_response_def)

lemma step_ok_same: "coord_inv cond E c cx \<Longrightarrow> step_ok cond R E c cx (ret (c, cx))"
  by (rule step_okI) simp

lemma obj_ok_null: "step_ok cond R E c cx (f c) \<Longrightarrow> obj_ok cond R E c cx (protect_null (Some c) cx f)"
  by (auto simp: obj_ok_def protect_null_def)

lemma obj_ok_initialized:
  assumes "coord_inv cond E c cx" and "m_cluster c \<noteq> 0 \<Longrightarrow> step_ok cond R E c cx (f c)"
  shows "obj_ok cond R E c cx (protect_uninitialized (Some c) cx f)"
  unfolding protect_uninitialized_def using assms by (intro obj_ok_null) (simp add: step_ok_response)

lemma step_ok_unpack:
  assumes "coord_inv cond E c cx" and "\<And>x. step_ok cond R E c cx (f x)"
  shows "step_ok cond R E c cx (check_unpack m c cx f)"
  using assms by (auto simp: check_unpack_def step_ok_response split: option.splits)

lemma callback_registered: "list_all (registered R E) (callback k op x)"
  by (cases op; cases x) (simp_all add: symtable_def)

context replicant_conditions
begin

lemma table_step_ok:
  assumes "coord_inv cond E c cx" and "coord_room c"
  shows "step_ok cond R E c cx (run_op R E op c cx)"
  using run_op_refines [OF assms, of op] callback_registered
  by (fastforce simp: step_ok_def op_refines_def split: prod.splits)

lemmas table_steps_ok =
  table_step_ok [of _ _ _ "Register sid l" for sid l, simplified]
  table_step_ok [of _ _ _ "Online sid l" for sid l, simplified]
  table_step_ok [of _ _ _ "Offline sid" for sid, simplified]
  table_step_ok [of _ _ _ "Shutdown sid" for sid, simplified]
  table_step_ok [of _ _ _ "Kill sid" for sid, simplified]
  table_step_ok [of _ _ _ "Forget sid" for sid, simplified]
  table_step_ok [of _ _ _ "Suspect sid" for sid, simplified]

lemma other_steps_ok:
  assumes inv: "coord_inv cond E c cx" and room: "coord_room c"
  shows "step_ok cond R E c cx (config_ack R sid v c cx)"
    and "step_ok cond R E c cx (checkpoint_stable R sid cfg v c cx)"
    and "step_ok cond R E c cx (coord_init R E token c cx)"
    and "step_ok cond R E c cx (read_only R E ro c cx)"
    and "step_ok cond R E c cx (coord_alarm R c cx)"
    and "m_cluster c \<noteq> 0 \<Longrightarrow> step_ok cond R E c cx (config_get c cx)"
proof -
  show "step_ok cond R E c cx (config_ack R sid v c cx)"
    using config_ack_ok [OF inv room, of sid v] by (auto simp: step_ok_def stable_frozen_def)
  show "step_ok cond R E c cx (checkpoint_stable R sid cfg v c cx)"
    using checkpoint_stable_ok [OF inv room, of sid cfg v] by (fastforce simp: step_ok_def stable_frozen_def)
  show "step_ok cond R E c cx (coord_init R E token c cx)"
    using init_ok [OF inv room, of token] by (fastforce simp: step_ok_def symtable_def)
  show "step_ok cond R E c cx (read_only R E ro c cx)"
    using read_only_ok [OF inv room, of ro] by (fastforce simp: step_ok_def)
  show "step_ok cond R E c cx (coord_alarm R c cx)"
    using alarm_ok [OF inv room] by (fastforce simp: step_ok_def stable_frozen_def symtable_def)
  show "step_ok cond R E c cx (config_get c cx)" if "m_cluster c \<noteq> 0"
    using config_get_ok [OF inv that] inv by (simp add: step_ok_def)
qed

lemma symtable_step:
  assumes inv: "coord_inv cond E c cx" and room: "coord_room c" and t: "(name, t) \<in> set (symtable R E)"
  shows "obj_ok cond R E c cx (t (Some c) data cx)"
proof -
  note ok = obj_ok_initialized [OF inv] step_ok_unpack [OF inv] table_steps_ok [OF inv room]
    other_steps_ok [OF inv room] step_ok_same [OF inv] obj_ok_null
  have "obj_ok cond R E c cx (t_config_get (Some c) data cx)" unfolding t_config_get_def by (intro ok)
  moreover have "obj_ok cond R E c cx (t_config_ack R E (Some c) data cx)"
    unfolding t_config_ack_def by (rule ok(1), rule ok(2)) (auto intro: ok split: prod.split)
  moreover have "obj_ok cond R E c cx (t_server_register R E (Some c) data cx)"
    unfolding t_server_register_def by (rule ok(1), rule ok(2)) (auto intro: ok split: prod.split)
  moreover have "obj_ok cond R E c cx (t_server_online R E (Some c) data cx)"
    unfolding t_server_online_def
    by (rule ok(1)) (auto intro!: ok split: option.splits prod.split list.splits)
  moreover have "obj_ok cond R E c cx (t_server_offline R E (Some c) data cx)"
    unfolding t_server_offline_def by (intro ok)
  moreover have "obj_ok cond R E c cx (t_server_shutdown R E (Some c) data cx)"
    unfolding t_server_shutdown_def by (intro ok)
  moreover have "obj_ok cond R E c cx (t_server_kill R E (Some c) data cx)"
    unfolding t_server_kill_def by (intro ok)
  moreover have "obj_ok cond R E c cx (t_server_forget R E (Some c) data cx)"
    unfolding t_server_forget_def by (intro ok)
  moreover have "obj_ok cond R E c cx (t_server_suspect R E (Some c) data cx)"
    unfolding t_server_suspect_def by (intro ok)
  moreover have "obj_ok cond R E c cx (t_report_disconnect E (Some c) data cx)"
    unfolding t_report_disconnect_def report_disconnect_def
    by (rule ok(1), rule ok(2)) (auto intro: ok split: prod.split)
  moreover have "obj_ok cond R E c cx (t_checkpoint_stable R E (Some c) data cx)"
    unfolding t_checkpoint_stable_def by (rule ok(1), rule ok(2)) (auto intro: ok split: prod.split)
  moreover have "obj_ok cond R E c cx (t_alarm R (Some c) data cx)" unfolding t_alarm_def by (intro ok)
  moreover have "obj_ok cond R E c cx (t_read_only R E (Some c) data cx)" unfolding t_read_only_def by (intro ok)
  moreover have "obj_ok cond R E c cx (t_debug_dump (Some c) data cx)" unfolding t_debug_dump_def by (intro ok)
  moreover have "obj_ok cond R E c cx (t_init R E (Some c) data cx)" unfolding t_init_def by (intro ok)
  ultimately show ?thesis using t unfolding symtable_def by auto
qed

lemma run_messages_ok:
  assumes "coord_inv cond E c cx" and "m_version c + length ms < u64_bound"
    and "m_checkpoint c + length ms + outstanding_checkpoints < u64_bound"
  shows "\<exists>c' cx' es. run_messages R E ms (Some c) cx = ret (Some c', cx') \<and> coord_inv cond E c' cx' \<and>
     cx_effects cx' = cx_effects cx @ es \<and> list_all (registered R E) es"
  using assms
proof (induction ms arbitrary: c cx)
  case (Cons m ms)
  obtain name data where m: "m = (name, data)" by fastforce
  show ?case
  proof (cases "map_of (symtable R E) name")
    case None
    then show ?thesis using Cons by (simp add: m)
  next
    case (Some t)
    have "coord_room c" using Cons.prems by (simp add: coord_room_def)
    from symtable_step [OF Cons.prems(1) this map_of_SomeD [OF Some], of data] obtain c1 cx1 es1
      where t: "t (Some c) data cx = ret (Some c1, cx1)" "coord_inv cond E c1 cx1"
        "m_version c1 \<le> m_version c + 1" "m_checkpoint c1 \<le> m_checkpoint c + 1"
        "cx_effects cx1 = cx_effects cx @ es1" "list_all (registered R E) es1"
      by (auto simp: obj_ok_def step_ok_def)
    with Cons.IH [of c1 cx1] Cons.prems(2,3) Some show ?thesis by (fastforce simp: m)
  qed
qed simp

end



section \<open>Acknowledgements\<close>

lemma barrier_state_exact:
  assumes "barrier_state m newest t" and "barrier_inv m"
  shows "t = min_version m"
proof -
  obtain n b where m: "m = replicate n (0, []) @ b" "barrier_inv b" "t = min_version b"
    using assms(1) by (auto simp: barrier_state_def barrier_like_def)
  then obtain v0 w where b: "b = (v0, []) # w" using barrier_invE by blast
  have "n = 0" using assms(2) m(1) b by (cases n) (auto simp: barrier_inv_def)
  then show ?thesis using m by simp
qed

text \<open>The completed version after a pass, by what the version waited for.\<close>

lemma barrier_pass_min:
  assumes inv: "barrier_inv m"
  shows "min_version (barrier_pass v sid m) =
    (case waiting m v of None \<Rightarrow> min_version m | Some S \<Rightarrow> if S \<subseteq> {sid} then v else min_version m)"
proof (cases "v \<in> fst ` set m")
  case True
  then obtain ss where vs: "(v, ss) \<in> set m" by auto
  with inv obtain P t where m: "m = P @ (v, ss) # t" and P: "\<forall>p \<in> set P. fst p < v"
    and t: "list_all (\<lambda>p. snd p \<noteq> []) t" by (rule barrier_split)
  have "distinct (map fst m)" using inv by (simp add: barrier_inv_def strict_sorted_iff)
  then have w: "waiting m v = Some (set ss)" using vs by (simp add: waiting_def)
  show ?thesis
  proof (cases "set ss \<subseteq> {sid}")
    case False
    then have "P \<noteq> []" using inv m by (auto simp: barrier_inv_def)
    then show ?thesis
      unfolding barrier_pass_present [OF inv m P t] w using False by (simp add: m min_version_def)
  qed (simp add: barrier_pass_present [OF inv m P t] w min_version_def)
next
  case False
  then have "waiting m v = None" by (simp add: waiting_def map_of_eq_None_iff)
  then show ?thesis by (simp add: barrier_pass_absent [OF False])
qed

text \<open>C31: an acknowledgement is published exactly when it completes a version. When the version
  waited for this server only, the \<open>ack\<close> condition that clients wait on moves to that version, and
  in every other case it keeps its value; the server is struck from the barrier, nothing is answered
  and the invariant is kept.

  The condition on the barrier of the acknowledgements (\<open>barrier_inv\<close>): it begins with a completed version, the
  versions behind it ascend, and each of them waits for somebody. This is the form it has in a coordinator that was created and
  has run since; it excludes one that was restored from a snapshot, whose barrier has one more entry in front (C34) and
  whose \<open>ack\<close> condition need not move when a version is complete. No counter of the coordinator is exhausted (\<open>coord_room\<close>).\<close>

theorem ack_publishes:
  assumes "replicant_conditions R cond" and inv: "coord_inv cond E c cx" and room: "coord_room c"
    and barrier: "barrier_inv (m_config_ack_barrier c)"
  shows "\<exists>c' cx'. config_ack R sid v c cx = ret (c', cx') \<and> coord_inv cond E c' cx' \<and>
    m_config_ack_barrier c' = barrier_pass v sid (m_config_ack_barrier c) \<and> cx_effects cx' = cx_effects cx \<and>
    cx_cond cond ''ack'' cx' =
      (case waiting (m_config_ack_barrier c) v of
         None \<Rightarrow> cx_cond cond ''ack'' cx
       | Some S \<Rightarrow> if S \<subseteq> {sid} then v else cx_cond cond ''ack'' cx)"
proof -
  let ?b = "m_config_ack_barrier c"
  note core = coord_coreD [OF coord_inv_core [OF inv]]
  from replicant_conditions.config_ack_ok [OF assms(1) inv room, of sid v] obtain cx'
    where run: "config_ack R sid v c cx =
        ret (c\<lparr>m_config_ack_barrier := barrier_pass v sid ?b,
              m_config_ack_through := max (m_config_ack_through c) (min_version (barrier_pass v sid ?b))\<rparr>, cx')"
      and inv': "coord_inv cond E (c\<lparr>m_config_ack_barrier := barrier_pass v sid ?b,
              m_config_ack_through := max (m_config_ack_through c) (min_version (barrier_pass v sid ?b))\<rparr>) cx'"
      and eff: "cx_effects cx' = cx_effects cx" by blast
  have t: "m_config_ack_through c = min_version ?b" using barrier_state_exact [OF core(2) barrier] .
  have "cx_cond cond ''ack'' cx' = max (m_config_ack_through c) (min_version (barrier_pass v sid ?b))"
    using coord_coreD(3) [OF coord_inv_core [OF inv']] by simp
  also have "\<dots> = min_version (barrier_pass v sid ?b)"
    using barrier_pass_mono [OF barrier, of v sid] t by (simp add: max_absorb2)
  finally have "cx_cond cond ''ack'' cx' = (case waiting ?b v of
      None \<Rightarrow> cx_cond cond ''ack'' cx | Some S \<Rightarrow> if S \<subseteq> {sid} then v else cx_cond cond ''ack'' cx)"
    unfolding barrier_pass_min [OF barrier] t [symmetric, unfolded core(3)] .
  then show ?thesis using run inv' eff by auto
qed

text \<open>A cluster whose first configuration waits for server 7.\<close>

definition demo_coordinator :: coordinator where
  "demo_coordinator = coordinator_new\<lparr>
     m_cluster := 5, m_version := 1, m_servers := [server_new 7],
     m_config_ack_barrier := [(0, []), (1, [7])], m_config_stable_barrier := [(0, []), (1, [7])],
     m_latest_config := Some (packed_config be_codec
       (coordinator_new\<lparr>m_cluster := 5, m_version := 1, m_servers := [server_new 7]\<rparr>))\<rparr>"

definition demo_context :: "(string \<Rightarrow> u64) rsm_context" where
  "demo_context = fresh_context (\<lambda>n. if n = ''config'' then 1 else 0)"

lemma demo_barrier: "barrier_state [(0, []), (Suc 0, [7])] (Suc 0) 0"
  using barrier_inv_state [of "[(0, []), (1, [7])]"] by (simp add: barrier_inv_def min_version_def)

lemma demo_inv: "coord_inv (\<lambda>c r. r c) be_codec demo_coordinator demo_context"
  by (simp add: demo_barrier coord_inv_def coord_core_def demo_coordinator_def demo_context_def coordinator_new_def
      cx_cond_def fresh_context_def servers_sorted_def packed_config_def outstanding_checkpoints_def)

lemma demo_room: "coord_room demo_coordinator"
  by (simp add: coord_room_def demo_coordinator_def coordinator_new_def outstanding_checkpoints_def)

theorem ack_publishes_witness:
  "\<exists>c' cx'. config_ack counter_replicant 7 1 demo_coordinator demo_context = ret (c', cx') \<and>
     cx_cond (\<lambda>c r. r c) ''ack'' cx' = 1"
proof -
  have b: "m_config_ack_barrier demo_coordinator = [(0, []), (1, [7])]" by (simp add: demo_coordinator_def)
  then have "barrier_inv (m_config_ack_barrier demo_coordinator)" by (simp add: barrier_inv_def)
  from ack_publishes [OF counters.replicant_conditions_axioms demo_inv demo_room this, of 7 1]
  show ?thesis by (auto simp: b waiting_def)
qed

section \<open>What clients read\<close>

text \<open>A client reads the state the coordinator has. \<open>config_get\<close> of an initialised coordinator
  answers, without changing anything, with bytes that the decoder of configurations turns into
  the cluster, version, flags and servers of the coordinator, with nothing left over.\<close>

theorem config_get_decodes:
  assumes "e_buffer E" and inv: "coord_inv cond E c cx" and k: "m_cluster c \<noteq> 0"
    and wf: "list_all server_wf (m_servers c)" "length (m_servers c) < u64_bound" "length (m_servers c) \<le> max_reserve E"
    and b: "m_cluster c < u64_bound" "m_version c < u64_bound"
  shows "\<exists>bytes. config_get c cx = ret (c, emit (SetResponse bytes) cx) \<and>
    unpack_config E bytes =
      Inr (Some (\<lparr>c_cluster = m_cluster c, c_version = m_version c, c_flags = unat (m_flags c),
                 c_servers = m_servers c\<rparr>, []))"
proof -
  have "config_get c cx = ret (c, emit (SetResponse (packed_config E c)) cx)"
    using inv k by (auto simp: config_get_def coord_inv_def)
  moreover have "unat (m_flags c) < u64_bound" using unsigned_less [of "m_flags c"] by simp
  then have "unpack_config E (packed_config E c) =
      Inr (Some (\<lparr>c_cluster = m_cluster c, c_version = m_version c, c_flags = unat (m_flags c),
                 c_servers = m_servers c\<rparr>, []))"
    using e_buffer.unpack_config_pack [OF assms(1) coord_inv_sorted [OF inv] wf b, of "unat (m_flags c)" "[]"]
    by (simp add: packed_config_def pack_servers_def)
  ultimately show ?thesis by blast
qed

theorem config_get_decodes_witness:
  "\<exists>bytes. config_get demo_coordinator demo_context = ret (demo_coordinator, emit (SetResponse bytes) demo_context) \<and>
     unpack_config be_codec bytes =
       Inr (Some (\<lparr>c_cluster = 5, c_version = 1, c_flags = 0, c_servers = [server_new 7]\<rparr>, []))"
  using config_get_decodes [OF be.e_buffer_axioms demo_inv]
  by (simp add: demo_coordinator_def coordinator_new_def server_wf_def server_new_def loc_wf_def loc_default_def)

section \<open>Checkpoints\<close>

text \<open>C39: the checkpoint alarm. Each alarm arms the next one and issues the next checkpoint number;
  of the conditions clients see, the stable checkpoint never goes back and never overtakes the
  issued one, the garbage-collection mark stays exactly \<open>outstanding_checkpoints\<close> behind the
  stable one (or at zero), and with no servers a checkpoint is stable at once.\<close>

theorem alarm_checkpoints:
  assumes "replicant_conditions R cond" and inv: "coord_inv cond E c cx" and room: "coord_room c"
  shows "\<exists>c' cx'. coord_alarm R c cx = ret (c', cx') \<and> coord_inv cond E c' cx' \<and>
    cx_effects cx' = cx_effects cx @ [SetAlarm ''alarm'' alarm_interval] \<and>
    cx_cond cond ''checkp'' cx' = cx_cond cond ''checkp'' cx + 1 \<and>
    cx_cond cond ''checkps'' cx \<le> cx_cond cond ''checkps'' cx' \<and>
    cx_cond cond ''checkps'' cx' \<le> cx_cond cond ''checkp'' cx' \<and>
    cx_cond cond ''checkpgc'' cx' = cx_cond cond ''checkps'' cx' - outstanding_checkpoints \<and>
    (m_servers c = [] \<longrightarrow> cx_cond cond ''checkps'' cx' = cx_cond cond ''checkp'' cx')"
proof -
  note core = coord_coreD [OF coord_inv_core [OF inv]]
  from replicant_conditions.alarm_ok [OF assms] obtain c' cx'
    where a: "coord_alarm R c cx = ret (c', cx')" "coord_inv cond E c' cx'" "m_checkpoint c' = m_checkpoint c + 1"
      "cx_effects cx' = cx_effects cx @ [SetAlarm ''alarm'' alarm_interval]"
      "m_checkpoint_stable_through c \<le> m_checkpoint_stable_through c'"
      "m_servers c = [] \<longrightarrow> m_checkpoint_stable_through c' = m_checkpoint c'" by blast
  note core' = coord_coreD [OF coord_inv_core [OF a(2)]]
  show ?thesis
    using a core(6,8) core'(6,8,9,10) barrier_state_le [OF core'(7)] by (intro exI [of _ c'] exI [of _ cx']) simp
qed

theorem alarm_checkpoints_witness:
  "\<exists>c' cx'. coord_alarm counter_replicant demo_coordinator demo_context = ret (c', cx') \<and>
     cx_cond (\<lambda>c r. r c) ''checkp'' cx' = 1"
  using alarm_checkpoints [OF counters.replicant_conditions_axioms demo_inv demo_room]
  by (fastforce simp: demo_context_def cx_cond_def fresh_context_def)

end
