(* ===== verification/TransitionProps.thy ===== *)
theory TransitionProps
  imports CoordinatorProps
begin

text \<open>
  The messages of the coordinator: what a transition does with the bytes it gets, the table of
  names, and three behaviours that follow from the code and that its users would not expect.
\<close>

definition as_object :: "(coordinator \<times> 'r rsm_context) run \<Rightarrow> (coordinator option \<times> 'r rsm_context) run" where
  "as_object m = run_bind m (\<lambda>(c', cx'). ret (Some c', cx'))"

lemma initialized_object:
  "m_cluster c \<noteq> 0 \<Longrightarrow> protect_uninitialized (Some c) cx f = as_object (f c)"
  by (simp add: protect_uninitialized_def protect_null_def as_object_def)

section \<open>Decoding\<close>

text \<open>The two forms of \<open>server_online\<close>. The identifier alone brings the server online where it
  is, an identifier and an address moves it there, and anything left over behind the address is
  answered with \<open>COORD_MALFORMED\<close> and changes nothing.\<close>

theorem online_messages:
  assumes "e_buffer E" and k: "m_cluster c \<noteq> 0" and sid: "sid < u64_bound" and l: "loc_wf l"
  shows "t_server_online R E (Some c) (pack_id E sid) cx = as_object (server_online R E sid None c cx) \<and>
    t_server_online R E (Some c) (pack_id E sid @ pack_location E l) cx =
      as_object (server_online R E sid (Some l) c cx) \<and>
    t_server_online R E (Some c) (pack_id E sid @ pack_location E l @ b # rest) cx =
      ret (Some c, generate_response COORD_MALFORMED cx)"
proof -
  note id = e_buffer.unpack_pack_id [OF assms(1) sid] e_buffer.unpack_pack_id [OF assms(1) sid, of "[]", simplified]
  have loc: "unpack_location E loc_default (pack_location E l @ r) = Some (l, r)" for r
    using e_buffer.unpack_pack_location [OF assms(1) l] by (simp add: loc_default_def)
  have "length (pack_location E l) = 19"
    using e_buffer.pack_location_length [OF assms(1) l] by (simp add: loc_pack_size_def ip_pack_size_def)
  then obtain x xs where ne: "pack_location E l = x # xs" by (cases "pack_location E l") auto
  have "t_server_online R E (Some c) (pack_id E sid @ pack_location E l @ r) cx =
      as_object (check_unpack (Some ((sid, l), r)) c cx (\<lambda>(sid, bind_to). server_online R E sid (Some bind_to) c cx))" for r
    using id(1) [of "pack_location E l @ r"] loc [of r]
    unfolding t_server_online_def initialized_object [OF k] by (simp add: ne)
  from this [of "[]"] this [of "b # rest"] id(2) show ?thesis
    unfolding t_server_online_def initialized_object [OF k]
    by (simp add: check_unpack_def) (simp add: as_object_def)
qed

theorem online_messages_witness:
  "t_server_online counter_replicant be_codec (Some demo_coordinator) (be_put 8 7) demo_context =
     as_object (server_online counter_replicant be_codec 7 None demo_coordinator demo_context)"
proof -
  have k: "m_cluster demo_coordinator \<noteq> 0" by (simp add: demo_coordinator_def)
  have l: "loc_wf loc_default" by (simp add: loc_wf_def loc_default_def)
  have id: "be_put 8 7 = pack_id be_codec 7" by (simp add: pack_id_def be_codec_def)
  show ?thesis unfolding id by (rule online_messages [OF be.e_buffer_axioms k _ l, THEN conjunct1]) simp
qed

section \<open>Failure detection\<close>

text \<open>Failure detection works end to end. The bytes that bringing a server online registers for
  the loss of its connection are a well-formed \<open>server_suspect\<close> message: when Replicant sends
  them, the available server becomes unavailable in a new configuration, and no other server is
  touched.\<close>

theorem suspect_callback:
  assumes "replicant_conditions R cond" and inv: "coord_inv cond be_codec c cx" and room: "coord_room c"
    and k: "m_cluster c \<noteq> 0" and sid: "sid < u64_bound"
    and s: "table (m_servers c) sid = Some s" "srv_state s = AVAILABLE"
  shows "\<exists>t c' cx'. map_of (symtable R be_codec) ''server_suspect'' = Some t \<and>
    t (Some c) (be_put 8 sid) cx = ret (Some c', cx') \<and> coord_inv cond be_codec c' cx' \<and>
    m_version c' = m_version c + 1 \<and>
    table (m_servers c') = (table (m_servers c))(sid \<mapsto> s\<lparr>srv_state := NOT_AVAILABLE\<rparr>)"
proof -
  have "unpack_id be_codec (be_put 8 sid) = Some (sid, [])"
    using be.unpack_pack_id [OF sid, of "[]"] by (simp add: pack_id_def be_codec_def)
  then have t: "t_server_suspect R be_codec (Some c) (be_put 8 sid) cx = as_object (server_suspect R be_codec sid c cx)"
    unfolding t_server_suspect_def initialized_object [OF k] by (simp add: check_unpack_def)
  have id: "srv_id s = sid" using s(1) coord_inv_sorted [OF inv] by (simp add: table_Some_iff)
  from replicant_conditions.suspect_refines [OF assms(1) inv room, of sid] s id obtain c' cx'
    where "server_suspect R be_codec sid c cx = ret (c', cx')" "coord_inv cond be_codec c' cx'"
      "m_version c' = m_version c + 1"
      "table (m_servers c') = (table (m_servers c))(sid \<mapsto> s\<lparr>srv_state := NOT_AVAILABLE\<rparr>)"
    by (auto simp: op_refines_def known_def spec_offline_def spec_change_def)
  then show ?thesis using t by (simp add: as_object_def symtable_def)
qed

definition online_demo :: coordinator where
  "online_demo = demo_coordinator\<lparr>m_servers := [(server_new 7)\<lparr>srv_state := AVAILABLE\<rparr>],
     m_latest_config := Some (packed_config be_codec
       (demo_coordinator\<lparr>m_servers := [(server_new 7)\<lparr>srv_state := AVAILABLE\<rparr>]\<rparr>))\<rparr>"

lemma online_demo_inv: "coord_inv (\<lambda>c r. r c) be_codec online_demo demo_context"
  by (simp add: demo_barrier online_demo_def coord_inv_def coord_core_def demo_coordinator_def demo_context_def
      coordinator_new_def cx_cond_def fresh_context_def servers_sorted_def packed_config_def outstanding_checkpoints_def)

theorem suspect_callback_witness:
  "\<exists>t c' cx'. map_of (symtable counter_replicant be_codec) ''server_suspect'' = Some t \<and>
    t (Some online_demo) (be_put 8 7) demo_context = ret (Some c', cx') \<and> m_version c' = 2"
proof -
  have "coord_room online_demo" using demo_room by (simp add: online_demo_def coord_room_def)
  from suspect_callback [OF counters.replicant_conditions_axioms online_demo_inv this, of 7]
  show ?thesis by (auto simp: online_demo_def demo_coordinator_def table_def server_new_def coordinator_new_def)
qed

section \<open>Surprises\<close>

text \<open>No message can complete the stable barrier. The table of transitions has no entry for
  \<open>config_stable\<close>, the message by which daemons report that a configuration is stable, and no
  transition it does have moves the \<open>stable\<close> condition while the configuration has servers.\<close>

theorem stable_never_advances:
  assumes "replicant_conditions R cond" and inv: "coord_inv cond E c cx" and room: "coord_room c"
    and t: "(name, t) \<in> set (symtable R E)"
  shows "name \<noteq> ''config_stable'' \<and> (\<exists>c' cx'. t (Some c) data cx = ret (Some c', cx') \<and>
    (m_servers c' \<noteq> [] \<longrightarrow> cx_cond cond ''stable'' cx' = cx_cond cond ''stable'' cx))"
proof -
  from replicant_conditions.symtable_step [OF assms, of data] obtain c' cx'
    where r: "t (Some c) data cx = ret (Some c', cx')" "coord_inv cond E c' cx'" "stable_frozen c c'"
    by (auto simp: obj_ok_def step_ok_def)
  have "m_config_stable_through c = cx_cond cond ''stable'' cx" "m_config_stable_through c' = cx_cond cond ''stable'' cx'"
    using coord_coreD(5) [OF coord_inv_core [OF inv]] coord_coreD(5) [OF coord_inv_core [OF r(2)]] by simp_all
  with r have "\<exists>c' cx'. t (Some c) data cx = ret (Some c', cx') \<and>
      (m_servers c' \<noteq> [] \<longrightarrow> cx_cond cond ''stable'' cx' = cx_cond cond ''stable'' cx)"
    by (auto simp: stable_frozen_def)
  moreover have "name \<noteq> ''config_stable''" using t by (auto simp: symtable_def)
  ultimately show ?thesis by simp
qed

theorem stable_never_advances_witness:
  "\<exists>c' cx'. t_config_ack counter_replicant be_codec (Some demo_coordinator) [1] demo_context = ret (Some c', cx') \<and>
     (m_servers c' \<noteq> [] \<longrightarrow> cx_cond (\<lambda>c r. r c) ''stable'' cx' = 0)"
  using stable_never_advances [OF counters.replicant_conditions_axioms demo_inv demo_room,
      of "''config_ack''" "t_config_ack counter_replicant be_codec" "[1]"]
  by (simp add: symtable_def demo_context_def fresh_context_def cx_cond_def)

text \<open>A token that is not a number. \<open>init\<close> of an uninitialised coordinator with bytes that
  read as zero answers success, yet the coordinator is still uninitialised: the next request is
  refused with \<open>COORD_UNINITIALIZED\<close>.\<close>

theorem init_zero_token:
  assumes "replicant_conditions R cond" and inv: "coord_inv cond E c cx" and room: "coord_room c"
    and k: "m_cluster c = 0" and z: "strtoull data = 0"
  shows "\<exists>c' cx'. t_init R E (Some c) data cx = ret (Some c', cx') \<and>
    cx_effects cx' = cx_effects cx @ [SetAlarm ''alarm'' alarm_interval, SetResponse (response_bytes COORD_SUCCESS)] \<and>
    t_config_get (Some c') d cx' = ret (Some c', generate_response COORD_UNINITIALIZED cx')"
proof -
  from replicant_conditions.init_ok [OF assms(1) inv room, of 0] k obtain c' cx'
    where "coord_init R E 0 c cx = ret (c', cx')" "m_cluster c' = 0"
      "cx_effects cx' = cx_effects cx @ [SetAlarm ''alarm'' alarm_interval, SetResponse (response_bytes COORD_SUCCESS)]"
    by auto
  then show ?thesis using z
    by (simp add: t_init_def t_config_get_def protect_uninitialized_def protect_null_def)
qed

theorem init_zero_token_witness:
  "strtoull [97, 98, 99] = 0 \<and>
   (\<exists>c' cx'. t_init counter_replicant be_codec (Some coordinator_new) [97, 98, 99] zero_context = ret (Some c', cx'))"
proof -
  have z: "strtoull [97, 98, 99] = 0"
    by (simp add: strtoull_def is_space_def split_base_def is_digit_def digit_value_def digits_value_def)
  have "m_cluster coordinator_new = 0" by (simp add: coordinator_new_def)
  from init_zero_token [OF counters.replicant_conditions_axioms zero_inv coord_room_new this z] z
  show ?thesis by blast
qed

text \<open>Registration does not look at addresses. A new identifier with the address of another
  server is registered with success, and from then on the configuration that clients read fails its
  own validation, whereas bringing a server online at a taken address is refused.\<close>

theorem register_duplicate_address:
  assumes "replicant_conditions R cond" and inv: "coord_inv cond E c cx" and room: "coord_room c"
    and new: "table (m_servers c) sid = None" and s: "s \<in> set (m_servers c)"
  shows "\<exists>c' cx'. server_register R E sid (srv_bind_to s) c cx = ret (c', cx') \<and>
    cx_effects cx' = cx_effects cx @ [SetResponse (response_bytes COORD_SUCCESS)] \<and>
    \<not> config_validate \<lparr>c_cluster = cl, c_version = v, c_flags = f, c_servers = m_servers c'\<rparr>"
proof -
  let ?n = "\<lparr>srv_state = ASSIGNED, srv_id = sid, srv_bind_to = srv_bind_to s\<rparr>"
  from replicant_conditions.register_refines [OF assms(1) inv room, of sid "srv_bind_to s"] new obtain c' cx'
    where r: "server_register R E sid (srv_bind_to s) c cx = ret (c', cx')" "coord_inv cond E c' cx'"
      "table (m_servers c') = (table (m_servers c))(sid \<mapsto> ?n)"
      "cx_effects cx' = cx_effects cx @ [SetResponse (response_bytes COORD_SUCCESS)]"
    by (auto simp: op_refines_def)
  have old: "table (m_servers c) (srv_id s) = Some s" using coord_inv_sorted [OF inv] s by (simp add: table_Some_iff)
  then have ne: "srv_id s \<noteq> sid" using new by auto
  have "table (m_servers c') sid = Some ?n" "table (m_servers c') (srv_id s) = Some s" using r(3) old ne by simp_all
  then have "?n \<in> set (m_servers c')" "s \<in> set (m_servers c')"
    using coord_inv_sorted [OF r(2)] by (auto simp: table_Some_iff)
  moreover have "?n \<noteq> s" using ne by (metis server.select_convs(2))
  ultimately have "\<not> inj_on srv_bind_to (set (m_servers c'))"
    by (metis inj_onD server.select_convs(3))
  then show ?thesis using r by (auto simp: config_validate_def validate_servers_distinct distinct_map)
qed

theorem register_duplicate_address_witness:
  "\<exists>c' cx'. server_register counter_replicant be_codec 8 loc_default demo_coordinator demo_context = ret (c', cx') \<and>
     \<not> config_validate \<lparr>c_cluster = 5, c_version = 2, c_flags = 0, c_servers = m_servers c'\<rparr>"
proof -
  have "table (m_servers demo_coordinator) 8 = None" "server_new 7 \<in> set (m_servers demo_coordinator)"
    by (simp_all add: demo_coordinator_def table_def server_new_def)
  from register_duplicate_address [OF counters.replicant_conditions_axioms demo_inv demo_room this, of 5 2 0]
  have "\<exists>c' cx'. server_register counter_replicant be_codec 8 (srv_bind_to (server_new 7)) demo_coordinator demo_context =
      ret (c', cx') \<and> \<not> config_validate \<lparr>c_cluster = 5, c_version = 2, c_flags = 0, c_servers = m_servers c'\<rparr>"
    by blast
  then show ?thesis by (simp add: server_new_def)
qed

end
