(* ===== verification/SnapshotProps.thy ===== *)
theory SnapshotProps
  imports CoordinatorProps
begin

text \<open>
  Snapshots of the coordinator: what \<open>recreate\<close> restores from the bytes of \<open>snapshot\<close>, and the
  size computed for the buffer of a snapshot.
\<close>

definition barrier_wf :: "server_barrier \<Rightarrow> bool" where
  "barrier_wf m \<longleftrightarrow> length m < 2 ^ 32 \<and>
     list_all (\<lambda>(v, ss). v < u64_bound \<and> length ss < 2 ^ 32 \<and> list_all (\<lambda>i. i < u64_bound) ss) m"

definition servers_wf :: "server list \<Rightarrow> bool" where
  "servers_wf ss \<longleftrightarrow> length ss < 2 ^ 32 \<and> list_all server_wf ss"

definition coord_wf :: "coordinator \<Rightarrow> bool" where
  "coord_wf c \<longleftrightarrow>
     m_cluster c < u64_bound \<and> m_counter c < u64_bound \<and> m_version c < u64_bound \<and>
     servers_wf (m_servers c) \<and> servers_wf (m_offline c) \<and>
     m_config_ack_through c < u64_bound \<and> barrier_wf (m_config_ack_barrier c) \<and>
     m_config_stable_through c < u64_bound \<and> barrier_wf (m_config_stable_barrier c) \<and>
     m_checkpoint c < u64_bound \<and> m_checkpoint_stable_through c < u64_bound \<and>
     m_checkpoint_gc_through c < u64_bound \<and> barrier_wf (m_checkpoint_stable_barrier c)"

lemma barrier_pack_size_sum:
  "barrier_pack_size m = 4 + sum_list (map (\<lambda>p. 8 + (4 + length (snd p) * id_pack_size)) m)"
proof -
  have "foldl (\<lambda>sz p. sz + 8 + (4 + length (snd p) * id_pack_size)) k m =
      k + sum_list (map (\<lambda>p. 8 + (4 + length (snd p) * id_pack_size)) m)" for k
    by (induction m arbitrary: k) simp_all
  then show ?thesis by (simp add: barrier_pack_size_def)
qed

context e_vectors
begin

lemma unpack_barrier_loop_pack:
  assumes "list_all (\<lambda>(v, ss). v < u64_bound \<and> length ss < 2 ^ 32 \<and> list_all (\<lambda>i. i < u64_bound) ss) m"
  shows "unpack_barrier_loop E V (length m) old (concat (map (\<lambda>(v, ss). pk64 E v @ pk_ids V ss) m) @ r) =
    Some (old @ m, r)"
  using assms
proof (induction m arbitrary: old)
  case (Cons p m)
  obtain v ss where p: "p = (v, ss)" by fastforce
  then show ?case using Cons by (simp add: up64_pk64 up_pk_ids)
qed simp

lemma unpack_barrier_pack:
  "barrier_wf m \<Longrightarrow> unpack_barrier E V old (pack_barrier E V m @ r) = Some (old @ m, r)"
  by (simp add: barrier_wf_def unpack_barrier_def pack_barrier_def up32_pk32 unpack_barrier_loop_pack)

lemma pack_barrier_length: "length (pack_barrier E V m) = barrier_pack_size m"
proof -
  have "length (concat (map (\<lambda>(v, ss). pk64 E v @ pk_ids V ss) m)) =
      sum_list (map (\<lambda>p. 8 + (4 + length (snd p) * id_pack_size)) m)"
    by (induction m) (auto simp: pk_lengths pk_ids_length id_pack_size_def)
  then show ?thesis by (simp add: pack_barrier_def barrier_pack_size_sum pk_lengths)
qed

text \<open>The state a snapshot is read back to: the barriers grow by the entry of the new object.\<close>

lemma recreate_snapshot_state:
  assumes wf: "coord_wf c"
  shows "recreate E V (snapshot E V c) cx =
    (Some (generate_cached_configuration E (c\<lparr>
        m_config_ack_barrier := barrier_new @ m_config_ack_barrier c,
        m_config_stable_barrier := barrier_new @ m_config_stable_barrier c,
        m_checkpoint_stable_barrier := barrier_new @ m_checkpoint_stable_barrier c\<rparr>)),
     emit (SetAlarm ''alarm'' alarm_interval) cx)"
proof -
  have fl: "unat (m_flags c) < u64_bound" using unsigned_less [of "m_flags c"] by simp
  note b = wf [unfolded coord_wf_def servers_wf_def]
  have new: "m_config_ack_barrier coordinator_new = barrier_new" "m_config_stable_barrier coordinator_new = barrier_new"
    "m_checkpoint_stable_barrier coordinator_new = barrier_new" by (simp_all add: coordinator_new_def)
  have cp: "unpack_barrier E V old (pack_barrier E V (m_checkpoint_stable_barrier c)) =
      Some (old @ m_checkpoint_stable_barrier c, [])" for old
    using unpack_barrier_pack [of "m_checkpoint_stable_barrier c" old "[]"] b by simp
  have "unpack_coordinator E V coordinator_new (snapshot E V c) =
    Some (coordinator_new\<lparr>m_cluster := m_cluster c, m_counter := m_counter c, m_version := m_version c,
      m_flags := m_flags c, m_servers := m_servers c, m_offline := m_offline c,
      m_config_ack_through := m_config_ack_through c,
      m_config_ack_barrier := barrier_new @ m_config_ack_barrier c,
      m_config_stable_through := m_config_stable_through c,
      m_config_stable_barrier := barrier_new @ m_config_stable_barrier c,
      m_checkpoint := m_checkpoint c, m_checkpoint_stable_through := m_checkpoint_stable_through c,
      m_checkpoint_gc_through := m_checkpoint_gc_through c,
      m_checkpoint_stable_barrier := barrier_new @ m_checkpoint_stable_barrier c\<rparr>, [])"
    using b fl unfolding unpack_coordinator_def snapshot_def new
    by (simp add: up64_pk64 up_pk_srvs unpack_barrier_pack cp)
  then show ?thesis
    by (simp add: recreate_def generate_cached_configuration_def packed_config_def coordinator_new_def)
qed

end

lemma barrier_state_prefix: "barrier_state m newest t \<Longrightarrow> barrier_state (barrier_new @ m) newest t"
proof -
  assume "barrier_state m newest t"
  then obtain n b where "m = replicate n (0, []) @ b" "barrier_inv b" "fst (last b) = newest" "t = min_version b"
    by (auto simp: barrier_state_def barrier_like_def)
  then have "barrier_like (barrier_new @ m) b \<and> fst (last b) = newest \<and> t = min_version b"
    by (auto simp: barrier_like_def barrier_new_def intro!: exI [of _ "Suc n"])
  then show ?thesis unfolding barrier_state_def by blast
qed

text \<open>C34: a restored coordinator continues where the saved one was. \<open>recreate\<close> accepts every
  snapshot of a coordinator whose numbers and lengths fit their encodings; cluster, versions, flags,
  servers and conditions are the saved ones; and although decoding leaves an extra initial
  entry in each barrier, the invariant (so also every property that rests on it) holds again.\<close>

theorem recreate_snapshot:
  assumes "e_vectors E V" and wf: "coord_wf c" and inv: "coord_inv cond E c cx"
  shows "\<exists>c'. recreate E V (snapshot E V c) cx = (Some c', emit (SetAlarm ''alarm'' alarm_interval) cx) \<and>
    coord_inv cond E c' (emit (SetAlarm ''alarm'' alarm_interval) cx) \<and>
    m_cluster c' = m_cluster c \<and> m_counter c' = m_counter c \<and> m_version c' = m_version c \<and>
    m_flags c' = m_flags c \<and> m_servers c' = m_servers c \<and> m_offline c' = m_offline c \<and>
    m_config_ack_through c' = m_config_ack_through c \<and> m_config_stable_through c' = m_config_stable_through c \<and>
    m_checkpoint c' = m_checkpoint c \<and> m_checkpoint_stable_through c' = m_checkpoint_stable_through c \<and>
    m_checkpoint_gc_through c' = m_checkpoint_gc_through c \<and> m_latest_config c' = Some (packed_config E c)"
proof -
  let ?c = "generate_cached_configuration E (c\<lparr>
        m_config_ack_barrier := barrier_new @ m_config_ack_barrier c,
        m_config_stable_barrier := barrier_new @ m_config_stable_barrier c,
        m_checkpoint_stable_barrier := barrier_new @ m_checkpoint_stable_barrier c\<rparr>)"
  note core = coord_coreD [OF coord_inv_core [OF inv]]
  have "coord_core cond ?c cx"
    unfolding coord_core_def generate_cached_configuration_def
    using core(1,3,5,6,8,9,10) core(2,4,7) [THEN barrier_state_prefix] by simp
  then have "coord_inv cond E ?c (emit (SetAlarm ''alarm'' alarm_interval) cx)"
    using inv by (simp add: coord_inv_def generate_cached_configuration_def packed_config_def)
  then show ?thesis
    using e_vectors.recreate_snapshot_state [OF assms(1) wf, of cx]
    by (simp add: generate_cached_configuration_def packed_config_def)
qed

lemma demo_wf: "coord_wf demo_coordinator"
  by (simp add: coord_wf_def demo_coordinator_def coordinator_new_def servers_wf_def barrier_wf_def barrier_new_def
      server_wf_def server_new_def loc_wf_def loc_default_def)

theorem recreate_snapshot_witness:
  "\<exists>c'. recreate be_codec be_vec (snapshot be_codec be_vec demo_coordinator) demo_context =
       (Some c', emit (SetAlarm ''alarm'' alarm_interval) demo_context) \<and> m_servers c' = [server_new 7]"
proof -
  have "m_servers demo_coordinator = [server_new 7]" by (simp add: demo_coordinator_def)
  with recreate_snapshot [OF be_vec.e_vectors_axioms demo_wf demo_inv] show ?thesis by auto
qed

text \<open>The buffer of a snapshot has the right size: the sum computed before packing is the
  number of bytes packed.\<close>

theorem snapshot_length:
  assumes "e_vectors E V" and "list_all server_wf (m_servers c)" and "list_all server_wf (m_offline c)"
  shows "length (snapshot E V c) = snapshot_size c"
proof -
  have b: "e_buffer E" using assms(1) by (simp add: e_vectors_def)
  show ?thesis
    using assms(2,3)
    by (simp add: snapshot_def snapshot_size_def e_buffer.pk_lengths [OF b] e_vectors.pk_srvs_length [OF assms(1)]
        e_vectors.pack_barrier_length [OF assms(1)])
qed

theorem snapshot_length_witness:
  "length (snapshot be_codec be_vec demo_coordinator) = snapshot_size demo_coordinator"
  using snapshot_length [OF be_vec.e_vectors_axioms] demo_wf by (simp add: coord_wf_def servers_wf_def)

end
