(* ===== verification/ClientPath.thy ===== *)
theory ClientPath
  imports Prelude
begin

text \<open>
  \<open>client::canon_path\<close> and \<open>client::getcwd\<close> of \<open>client/client.cc\<close>: turning a path, absolute or
  relative to the working directory of the client, into an absolute path without empty, \<open>.\<close> and
  \<open>..\<close> components, in a buffer of the caller.

  The buffer is the list of the characters before the pointer \<open>abspath\<close>: what is behind it is
  written before it is read. A path is the list of its characters before the final zero. Writing
  at or past the size of the buffer and reading before its start are \<open>Inl Undefined\<close>; \<open>None\<close> is
  the return value -1 after \<open>NAMETOOLONG\<close>.
\<close>

section \<open>The code\<close>

definition path_max :: nat where
  "path_max = 4096"

definition getcwd :: "string \<Rightarrow> nat \<Rightarrow> string option" where
  "getcwd cwd len = (if len < length cwd + 1 then None else Some cwd)"

text \<open>One character through the pointer.\<close>

definition put_char :: "nat \<Rightarrow> char \<Rightarrow> string \<Rightarrow> string res" where
  "put_char sz c out = (if length out < sz then Inr (out @ [c]) else Inl Undefined)"

text \<open>The loop that copies a component; the pointer is compared with \<open>end\<close> for equality.\<close>

fun canon_copy :: "nat \<Rightarrow> string \<Rightarrow> string \<Rightarrow> (string \<times> string) option res" where
  "canon_copy sz [] out = Inr (Some ([], out))"
| "canon_copy sz (c # rel) out =
     (if c = CHR ''/'' then Inr (Some (c # rel, out))
      else rbind (put_char sz c out) (\<lambda>out1.
             if length out1 = sz - 2 then Inr None else canon_copy sz rel out1))"

text \<open>The loop that takes the last component back: what it leaves ends in a slash.\<close>

function canon_back :: "string \<Rightarrow> string res" where
  "canon_back out =
     (if length out \<le> 1 then Inl Undefined
      else let out1 = butlast out in if last out1 = CHR ''/'' then Inr out1 else canon_back out1)"
  by auto
termination by (relation "measure length") auto

declare canon_back.simps [simp del]

lemma canon_copy_rest: "canon_copy sz rel out = Inr (Some (rel', out')) \<Longrightarrow> length rel' \<le> length rel"
  by (induction sz rel out rule: canon_copy.induct) (force split: if_splits)+

lemma canon_copy_shorter:
  "canon_copy sz (c # rel) out = Inr (Some (rel', out')) \<Longrightarrow> c \<noteq> CHR ''/'' \<Longrightarrow> length rel' < Suc (length rel)"
  using canon_copy_rest by (fastforce split: if_splits simp: less_Suc_eq_le)

definition is_dot :: "string \<Rightarrow> bool" where
  "is_dot rel \<longleftrightarrow> rel = ''.'' \<or> take 2 rel = ''./''"

definition is_dotdot :: "string \<Rightarrow> bool" where
  "is_dotdot rel \<longleftrightarrow> rel = ''..'' \<or> take 3 rel = ''../''"

function canon_loop :: "nat \<Rightarrow> string \<Rightarrow> string \<Rightarrow> string option res" where
  "canon_loop sz [] out = Inr (Some out)"
| "canon_loop sz (c # rel) out =
     (if c = CHR ''/'' then canon_loop sz rel out
      else if is_dotdot (c # rel) then
        (if length out = 1 then canon_loop sz (tl rel) out
         else rbind (canon_back out) (canon_loop sz (tl rel)))
      else if is_dot (c # rel) then canon_loop sz rel out
      else case canon_copy sz (c # rel) out of
             Inl e \<Rightarrow> Inl e
           | Inr None \<Rightarrow> Inr None
           | Inr (Some (rel', out1)) \<Rightarrow>
               (case put_char sz (CHR ''/'') out1 of
                  Inl e \<Rightarrow> Inl e
                | Inr out2 \<Rightarrow> canon_loop sz rel' out2))"
  by pat_completeness auto
termination
  by (relation "measure (\<lambda>(_, rel, _). length rel)")
    (auto dest!: canon_copy_shorter simp del: canon_copy.simps)

text \<open>The trailing slash is dropped, unless it is the root, and the zero written.\<close>

definition canon_finish :: "nat \<Rightarrow> string \<Rightarrow> string res" where
  "canon_finish sz out =
     (if out = [] then Inl Undefined
      else let out1 = (if last out = CHR ''/'' \<and> length out \<noteq> 1 then butlast out else out)
           in if length out1 < sz then Inr out1 else Inl Undefined)"

definition canon_start :: "string \<Rightarrow> nat \<Rightarrow> string \<Rightarrow> string res" where
  "canon_start cwd sz rel =
     (if take 1 rel \<noteq> ''/'' then
        (case getcwd cwd sz of
           None \<Rightarrow> Inl Undefined
         | Some out \<Rightarrow>
             if out = [] then Inl Undefined
             else if last out \<noteq> CHR ''/'' then put_char sz (CHR ''/'') out
             else Inr out)
      else put_char sz (CHR ''/'') [])"

definition canon_path :: "string \<Rightarrow> nat \<Rightarrow> string \<Rightarrow> string option res" where
  "canon_path cwd sz rel =
     (if length rel > path_max then Inr None
      else rbind (canon_start cwd sz rel) (\<lambda>out.
           rbind (canon_loop sz rel out) (\<lambda>r.
             case r of None \<Rightarrow> Inr None | Some out \<Rightarrow> rbind (canon_finish sz out) (\<lambda>s. Inr (Some s)))))"

end
