(* ===== verification/ClientPathProps.thy ===== *)
theory ClientPathProps
  imports ClientPath
begin

text \<open>
  \<open>canon_path\<close> against a reference: split the path at its slashes, take the components one by one
  on a stack, and write the stack down. They agree while the path fits; when an earlier component
  ends exactly at the limit the code writes past its buffer.
\<close>

section \<open>The reference\<close>

fun split_slash :: "string \<Rightarrow> string list" where
  "split_slash [] = [[]]"
| "split_slash (c # s) =
     (if c = CHR ''/'' then [] # split_slash s
      else case split_slash s of [] \<Rightarrow> [[c]] | x # xs \<Rightarrow> (c # x) # xs)"

definition path_step :: "string \<Rightarrow> string list \<Rightarrow> string list" where
  "path_step x st = (if x = '''' \<or> x = ''.'' then st else if x = ''..'' then butlast st else st @ [x])"

definition resolve :: "string list \<Rightarrow> string \<Rightarrow> string list" where
  "resolve st rel = fold path_step (split_slash rel) st"

definition path_text :: "string list \<Rightarrow> string" where
  "path_text st = (if st = [] then ''/'' else concat (map (\<lambda>x. CHR ''/'' # x) st))"

text \<open>Components of an absolute path.\<close>

definition path_ok :: "string list \<Rightarrow> bool" where
  "path_ok st \<longleftrightarrow> list_all (\<lambda>x. x \<noteq> [] \<and> x \<noteq> ''.'' \<and> x \<noteq> ''..'' \<and> CHR ''/'' \<notin> set x) st"

text \<open>What the buffer holds between two components.\<close>

definition path_buffer :: "string list \<Rightarrow> string" where
  "path_buffer st = CHR ''/'' # concat (map (\<lambda>x. x @ ''/'') st)"

section \<open>Splitting\<close>

definition component :: "string \<Rightarrow> string" where
  "component rel = takeWhile (\<lambda>c. c \<noteq> CHR ''/'') rel"

definition after_component :: "string \<Rightarrow> string" where
  "after_component rel = dropWhile (\<lambda>c. c \<noteq> CHR ''/'') rel"

lemma component_no_slash: "CHR ''/'' \<notin> set (component rel)"
  by (auto simp: component_def dest: set_takeWhileD)

lemma split_slash_component:
  "split_slash rel = component rel # (case after_component rel of [] \<Rightarrow> [] | _ # r \<Rightarrow> split_slash r)"
  by (induction rel rule: split_slash.induct) (auto simp: component_def after_component_def)

lemma component_length: "length (component rel) + length (after_component rel) = length rel"
  unfolding component_def after_component_def by (metis length_append takeWhile_dropWhile_id)

lemma resolve_component: "resolve st rel = (case after_component rel of [] \<Rightarrow> path_step (component rel) st
    | _ # r \<Rightarrow> resolve (path_step (component rel) st) r)"
  unfolding resolve_def by (subst split_slash_component) (simp split: list.split)

lemma resolve_slash [simp]: "resolve st (CHR ''/'' # rel) = resolve st rel"
  by (simp add: resolve_def path_step_def)

lemma resolve_Nil [simp]: "resolve st [] = st"
  by (simp add: resolve_def path_step_def)

text \<open>Taking the component off first: a slash in front adds an empty component.\<close>

lemma resolve_after:
  "resolve st rel = resolve (path_step (component rel) st) (after_component rel)"
proof (cases "after_component rel")
  case Nil
  then show ?thesis by (simp add: resolve_component [of st rel])
next
  case (Cons c r)
  then have "c = CHR ''/''" by (metis (mono_tags, lifting) after_component_def hd_dropWhile_not)
  then show ?thesis using Cons by (simp add: resolve_component [of st rel])
qed

lemma is_dotdot_component: "is_dotdot rel \<longleftrightarrow> component rel = ''..''"
  unfolding is_dotdot_def component_def
  by (cases rel; cases "tl rel"; cases "tl (tl rel)") auto

lemma is_dot_component: "is_dot rel \<longleftrightarrow> component rel = ''.''"
  unfolding is_dot_def component_def by (cases rel; cases "tl rel") auto

lemma path_ok_step: "path_ok st \<Longrightarrow> CHR ''/'' \<notin> set x \<Longrightarrow> path_ok (path_step x st)"
  by (auto simp: path_ok_def path_step_def list_all_iff dest: in_set_butlastD)

lemma path_ok_fold: "path_ok st \<Longrightarrow> \<forall>x \<in> set xs. CHR ''/'' \<notin> set x \<Longrightarrow> path_ok (fold path_step xs st)"
  by (induction xs arbitrary: st) (auto intro: path_ok_step)

lemma path_ok_resolve: "path_ok st \<Longrightarrow> path_ok (resolve st rel)"
proof -
  have "CHR ''/'' \<notin> set x" if "x \<in> set (split_slash rel)" for x
    using that by (induction rel arbitrary: x rule: split_slash.induct) (auto split: if_splits list.splits)
  then show "path_ok st \<Longrightarrow> path_ok (resolve st rel)" unfolding resolve_def by (intro path_ok_fold) auto
qed

section \<open>The loops\<close>

lemma path_buffer_snoc: "path_buffer (st @ [x]) = path_buffer st @ x @ ''/''"
  by (simp add: path_buffer_def)

lemma path_buffer_slash: obtains q where "path_buffer st = q @ ''/''"
  by (cases st rule: rev_cases) (auto simp: path_buffer_def)

lemma path_buffer_text: "path_buffer st = (if st = [] then path_text st else path_text st @ ''/'')"
proof -
  have "CHR ''/'' # concat (map (\<lambda>x. x @ ''/'') st) = concat (map (\<lambda>x. CHR ''/'' # x) st) @ ''/''"
    by (induction st) auto
  then show ?thesis by (auto simp: path_buffer_def path_text_def)
qed

lemma canon_back_component:
  "CHR ''/'' \<notin> set x \<Longrightarrow> canon_back (q @ CHR ''/'' # x @ [c]) = Inr (q @ ''/'')"
proof (induction x arbitrary: c rule: rev_induct)
  case Nil
  then show ?case by (subst canon_back.simps) (simp add: butlast_append)
next
  case (snoc d x)
  then show ?case by (subst canon_back.simps) (auto simp: butlast_append Let_def)
qed

lemma canon_back_buffer:
  assumes "path_ok (st @ [x])"
  shows "canon_back (path_buffer (st @ [x])) = Inr (path_buffer st)"
proof -
  obtain q where q: "path_buffer st = q @ ''/''" by (rule path_buffer_slash)
  have "CHR ''/'' \<notin> set x" using assms by (simp add: path_ok_def)
  from canon_back_component [OF this, of q "CHR ''/''"] show ?thesis by (simp add: path_buffer_snoc q)
qed

lemma canon_copy_component:
  assumes "length out + length (component rel) < sz - 2"
  shows "canon_copy sz rel out = Inr (Some (after_component rel, out @ component rel))"
  using assms
  by (induction rel arbitrary: out) (auto simp: component_def after_component_def put_char_def split: if_splits)

lemma canon_loop_resolve:
  assumes "path_ok st" and "length (path_buffer st) + length rel + (if take 1 rel = ''/'' \<or> rel = [] then 0 else 1) \<le> sz - 2"
  shows "canon_loop sz rel (path_buffer st) = Inr (Some (path_buffer (resolve st rel))) \<and>
    length (path_buffer (resolve st rel)) < sz"
  using assms
proof (induction "length rel" arbitrary: st rel rule: less_induct)
  case less
  show ?case
  proof (cases rel)
    case (Cons c r)
    show ?thesis
    proof (cases "c = CHR ''/''")
      case True
      then show ?thesis using less.prems less.hyps [of r st] Cons by (auto split: if_splits)
    next
      case False
      let ?x = "component rel" and ?r = "after_component rel"
      have x: "?x \<noteq> []" using Cons False by (simp add: component_def)
      have len: "length ?x + length ?r = length rel" by (rule component_length)
      have hd: "take 1 ?r = ''/'' \<or> ?r = []"
        by (cases ?r) (auto simp: after_component_def dest: hd_dropWhile_not)
      have sz: "length (path_buffer st) + length rel + 1 \<le> sz - 2" using less.prems(2) Cons False by simp
      have step: "canon_loop sz ?r (path_buffer (path_step ?x st)) = Inr (Some (path_buffer (resolve st rel))) \<and>
          length (path_buffer (resolve st rel)) < sz"
        if "length (path_buffer (path_step ?x st)) \<le> length (path_buffer st) + length ?x + 1"
      proof -
        have "length ?r < length rel" using len x by (metis add_diff_cancel_right' diff_less length_greater_0_conv
          less_add_same_cancel2 zero_less_diff)
        moreover have "length (path_buffer (path_step ?x st)) + length ?r +
            (if take 1 ?r = ''/'' \<or> ?r = [] then 0 else 1) \<le> sz - 2" using len hd sz that by auto
        ultimately show ?thesis unfolding resolve_after [of st rel]
          using less.hyps path_ok_step [OF less.prems(1) component_no_slash] by blast
      qed
      consider "?x = ''..''" | "?x = ''.''" | "?x \<noteq> ''..''" "?x \<noteq> ''.''" by blast
      then show ?thesis
      proof cases
        case 1
        then have dd: "is_dotdot (c # r)" "?r = tl r"
          using Cons by (simp add: is_dotdot_component)
            (cases r; cases "tl r"; use 1 Cons in \<open>auto simp: after_component_def component_def split: if_splits\<close>)
        show ?thesis
        proof (cases st rule: rev_cases)
          case Nil
          then show ?thesis using step 1 dd Cons False by (simp add: path_step_def path_buffer_def)
        next
          case (snoc ys y)
          then have "length (path_buffer st) \<noteq> 1" "length (path_buffer ys) \<le> length (path_buffer st)"
            by (simp_all add: path_buffer_snoc path_buffer_def)
          moreover have "canon_back (path_buffer st) = Inr (path_buffer ys)"
            using canon_back_buffer less.prems(1) snoc by blast
          ultimately show ?thesis using step 1 dd Cons False snoc by (simp add: path_step_def)
        qed
      next
        case 2
        then have "is_dot (c # r)" "\<not> is_dotdot (c # r)" "?r = r"
          using Cons by (simp_all add: is_dotdot_component is_dot_component)
            (cases r; auto simp: after_component_def component_def split: if_splits)
        then show ?thesis using step 2 Cons False by (simp add: path_step_def)
      next
        case 3
        then have d: "\<not> is_dot (c # r)" "\<not> is_dotdot (c # r)"
          using Cons by (simp_all add: is_dotdot_component is_dot_component)
        have "canon_copy sz (c # r) (path_buffer st) = Inr (Some (?r, path_buffer st @ ?x))"
          using canon_copy_component [of "path_buffer st" rel sz] sz len Cons by simp
        then show ?thesis using step 3 d Cons False x sz len
          by (simp add: path_step_def put_char_def path_buffer_snoc del: canon_copy.simps)
      qed
    qed
  qed (use less.prems in \<open>simp add: path_buffer_def\<close>)
qed

section \<open>Properties\<close>

lemma canon_finish_text:
  "length (path_buffer st) < sz \<Longrightarrow> canon_finish sz (path_buffer st) = Inr (path_text st)"
proof (cases st)
  case (Cons x xs)
  then have "1 < length (path_buffer st)" by (simp add: path_buffer_def)
  then show "length (path_buffer st) < sz \<Longrightarrow> canon_finish sz (path_buffer st) = Inr (path_text st)"
    using Cons by (auto simp: canon_finish_def path_buffer_text)
qed (simp add: canon_finish_def path_buffer_def path_text_def)

lemma canon_resolves:
  assumes ok: "path_ok st" and len: "length rel \<le> path_max"
    and sz: "(if take 1 rel = ''/'' then 0 else length (path_text st)) + length rel + 4 \<le> sz"
  shows "let st' = resolve (if take 1 rel = ''/'' then [] else st) rel
    in canon_path (path_text st) sz rel = Inr (Some (path_text st')) \<and> path_ok st'"
proof -
  let ?st = "if take 1 rel = ''/'' then [] else st"
  have ok': "path_ok ?st" using ok by (simp add: path_ok_def)
  have ne: "path_text st \<noteq> []" by (cases st) (simp_all add: path_text_def)
  have start: "canon_start (path_text st) sz rel = Inr (path_buffer ?st)"
  proof (cases "take 1 rel = ''/'' \<or> st = []")
    case True
    then show ?thesis using sz ne
      by (auto simp: canon_start_def path_buffer_def getcwd_def put_char_def path_text_def)
  next
    case False
    then obtain ys y where st: "st = ys @ [y]" by (metis rev_exhaust)
    then have "y \<noteq> []" "CHR ''/'' \<notin> set y" using ok by (simp_all add: path_ok_def)
    then have "last (path_text st) = last y" using st by (simp add: path_text_def)
    moreover have "last y \<noteq> CHR ''/''" using \<open>y \<noteq> []\<close> \<open>CHR ''/'' \<notin> set y\<close> by (metis last_in_set)
    ultimately show ?thesis using False sz ne
      by (simp add: canon_start_def getcwd_def put_char_def path_buffer_text)
  qed
  have len1: "length (path_buffer ?st) + length rel + (if take 1 rel = ''/'' \<or> rel = [] then 0 else 1) \<le> sz - 2"
    using sz by (auto simp: path_buffer_text) (auto simp: path_text_def)
  note loop = canon_loop_resolve [OF ok' len1]
  show ?thesis
    using len start loop path_ok_resolve [OF ok', of rel] by (simp add: Let_def canon_path_def canon_finish_text)
qed

text \<open>C28: as long as working directory and path together leave four bytes of the buffer, the result
  of \<open>canon_path\<close> is the absolute path whose components are those of the path taken one after the
  other, from the root or from the working directory: empty and \<open>.\<close> components are skipped, \<open>..\<close>
  drops the last one, never going past the root; no component of the result is special.\<close>

theorem canon_path_resolves:
  assumes ok: "path_ok st" and len: "length rel \<le> path_max"
    and sz: "(if take 1 rel = ''/'' then 0 else length (path_text st)) + length rel + 4 \<le> sz"
  shows "let st' = resolve (if take 1 rel = ''/'' then [] else st) rel
    in canon_path (path_text st) sz rel = Inr (Some (path_text st')) \<and> path_ok st'"
  by (rule canon_resolves [OF assms])

theorem canon_path_resolves_witness:
  "canon_path ''/home/user'' path_max ''../x//./y/..'' = Inr (Some ''/home/x'')"
proof -
  have "path_ok [''home'', ''user'']" by (simp add: path_ok_def)
  from canon_path_resolves [OF this, of "''../x//./y/..''" path_max] show ?thesis
    by (simp add: path_max_def path_text_def resolve_def path_step_def Let_def)
qed

lemma component_slash [simp]:
  "CHR ''/'' \<notin> set x \<Longrightarrow> component (x @ CHR ''/'' # y) = x"
  "CHR ''/'' \<notin> set x \<Longrightarrow> after_component (x @ CHR ''/'' # y) = CHR ''/'' # y"
  "CHR ''/'' \<notin> set x \<Longrightarrow> component x = x"
  "CHR ''/'' \<notin> set x \<Longrightarrow> after_component x = []"
  by (auto simp: component_def after_component_def takeWhile_append dropWhile_append)

lemma canon_copy_stops:
  assumes "length out < sz - 2" and "sz - 2 \<le> length out + length (component rel)"
  shows "canon_copy sz rel out = Inr None"
  using assms
proof (induction rel arbitrary: out)
  case (Cons c rel)
  then show ?case by (auto simp: component_def put_char_def split: if_splits)
qed (simp add: component_def)

text \<open>Past the limit the comparison with \<open>end\<close> never holds again.\<close>

lemma canon_copy_overruns:
  assumes "sz - 2 \<le> length out" and "length out \<le> sz" and "CHR ''/'' \<notin> set x"
  shows "canon_copy sz x out = (if length out + length x \<le> sz then Inr (Some ([], out @ x)) else Inl Undefined)"
  using assms
proof (induction x arbitrary: out)
  case (Cons c x)
  then show ?case by (cases "length out < sz") (auto simp: put_char_def)
qed simp

text \<open>What \<open>canon_path\<close> does at the limit of its buffer. An absolute path whose first component
  reaches the limit gives -1. When the component ends one byte before the limit, its slash moves the
  pointer onto the limit unchecked, and a second component of two or more characters is written
  past the end of the buffer; with a buffer of \<open>PATH_MAX\<close> bytes such paths pass the test of the
  length.\<close>

theorem canon_path_overruns:
  assumes len: "length (CHR ''/'' # x @ CHR ''/'' # y) \<le> path_max" and sz: "4 < sz"
    and x: "CHR ''/'' \<notin> set x" "3 \<le> length x" and y: "CHR ''/'' \<notin> set y" "2 \<le> length y" "y \<noteq> ''..''"
  shows "(sz - 3 \<le> length x \<longrightarrow> canon_path cwd sz (CHR ''/'' # x @ CHR ''/'' # y) = Inr None) \<and>
    (length x = sz - 4 \<longrightarrow> canon_path cwd sz (CHR ''/'' # x @ CHR ''/'' # y) = Inl Undefined)"
proof -
  obtain c x' where cx: "x = c # x'" "c \<noteq> CHR ''/''" using x by (cases x) auto
  obtain d y' where dy: "y = d # y'" "d \<noteq> CHR ''/''" using y by (cases y) auto
  have nx: "\<not> is_dotdot (x @ CHR ''/'' # y)" "\<not> is_dot (x @ CHR ''/'' # y)"
    using x by (auto simp: is_dotdot_component is_dot_component)
  have ny: "\<not> is_dotdot y" "\<not> is_dot y" using y by (auto simp: is_dotdot_component is_dot_component)
  have path: "canon_path cwd sz (CHR ''/'' # x @ CHR ''/'' # y) =
      rbind (canon_loop sz (x @ CHR ''/'' # y) ''/'') (\<lambda>r.
        case r of None \<Rightarrow> Inr None | Some out \<Rightarrow> rbind (canon_finish sz out) (\<lambda>s. Inr (Some s)))"
    using len sz by (simp add: canon_path_def canon_start_def put_char_def)
  have x_loop: "canon_loop sz (x @ CHR ''/'' # y) ''/'' =
      (case canon_copy sz (x @ CHR ''/'' # y) ''/'' of
         Inl e \<Rightarrow> Inl e
       | Inr None \<Rightarrow> Inr None
       | Inr (Some (rel', out1)) \<Rightarrow> rbind (put_char sz (CHR ''/'') out1) (canon_loop sz rel'))"
    using nx cx by (simp add: rbind_def del: canon_copy.simps split: sum.split option.split prod.split)
  have y_loop: "canon_loop sz (CHR ''/'' # y) out = Inl Undefined" if out: "length out = sz - 2" for out
  proof -
    have "canon_copy sz y out = (if length y \<le> 2 then Inr (Some ([], out @ y)) else Inl Undefined)"
      using canon_copy_overruns [of sz out y] out y(1) sz by auto
    then show ?thesis using ny dy out y(2) sz by (auto simp: put_char_def simp del: canon_copy.simps)
  qed
  show ?thesis
  proof (intro conjI impI)
    assume "sz - 3 \<le> length x"
    then have "canon_copy sz (x @ CHR ''/'' # y) ''/'' = Inr None" using x sz by (intro canon_copy_stops) auto
    then show "canon_path cwd sz (CHR ''/'' # x @ CHR ''/'' # y) = Inr None" unfolding path x_loop by simp
  next
    assume l: "length x = sz - 4"
    then have "canon_copy sz (x @ CHR ''/'' # y) ''/'' = Inr (Some (CHR ''/'' # y, ''/'' @ x))"
      using canon_copy_component [of "''/''" "x @ CHR ''/'' # y" sz] x sz by simp
    then show "canon_path cwd sz (CHR ''/'' # x @ CHR ''/'' # y) = Inl Undefined" unfolding path x_loop
      using y_loop [of "''/'' @ x @ ''/''"] l sz by (simp add: put_char_def)
  qed
qed

theorem canon_path_overruns_witness:
  "canon_path ''/'' path_max (CHR ''/'' # replicate 4092 CHR ''a'' @ CHR ''/'' # ''bb'') = Inl Undefined"
  by (rule canon_path_overruns [THEN conjunct2, rule_format]) (simp_all add: path_max_def)

end
