(* ===== verification/CoordinatorLink.thy ===== *)
theory CoordinatorLink
  imports Configuration
begin

text \<open>
  \<open>common/coordinator_link.{h,cc}\<close>: how clients and daemons follow the configuration the
  coordinator publishes. The link alternates between waiting for the condition that a newer
  configuration exists and fetching it.

  Replicant's client library is not part of the repository. Its calls are parameters over a state
  \<open>'e\<close> of their own. A call that starts an operation gives its number, negative on failure, and
  the status variable it was passed. \<open>rp_loop\<close> gives the number of the completed operation,
  negative on failure, its own status, and what the library stored in the variables of the
  completed operation: its status and its output.
\<close>

section \<open>The library\<close>

datatype replicant_returncode =
    REPLICANT_SUCCESS | REPLICANT_NAME_TOO_LONG | REPLICANT_FUNC_NOT_FOUND | REPLICANT_OBJ_EXIST
  | REPLICANT_OBJ_NOT_FOUND | REPLICANT_COND_NOT_FOUND | REPLICANT_COND_DESTROYED
  | REPLICANT_SERVER_ERROR | REPLICANT_BAD_LIBRARY | REPLICANT_TIMEOUT | REPLICANT_BACKOFF
  | REPLICANT_NEED_BOOTSTRAP | REPLICANT_MISBEHAVING_SERVER | REPLICANT_INTERNAL_ERROR
  | REPLICANT_NONE_PENDING | REPLICANT_INTERRUPTED | REPLICANT_CLUSTER_JUMP | REPLICANT_CTOR_FAILED
  | REPLICANT_GARBAGE

type_synonym op_result = "replicant_returncode \<times> byte list option"

record 'e replicant_ops =
  rp_send :: "string \<Rightarrow> byte list \<Rightarrow> replicant_returncode \<Rightarrow> 'e \<Rightarrow> int \<times> replicant_returncode \<times> 'e"
  rp_wait :: "string \<Rightarrow> u64 \<Rightarrow> replicant_returncode \<Rightarrow> 'e \<Rightarrow> int \<times> replicant_returncode \<times> 'e"
  rp_loop :: "int \<Rightarrow> 'e \<Rightarrow> int \<times> replicant_returncode \<times> op_result \<times> 'e"
  rp_kill :: "int \<Rightarrow> 'e \<Rightarrow> 'e"

section \<open>State\<close>

datatype link_state = NOTHING | WAITING_ON_BROADCAST | FETCHING_CONFIG

text \<open>Queued numbers of other operations carry what the library stored for them.\<close>

record 'e coordinator_link =
  lk_repl :: 'e
  lk_config :: configuration
  lk_state :: link_state
  lk_id :: int
  lk_status :: replicant_returncode
  lk_output :: "byte list option"
  lk_pending_ids :: "(int \<times> op_result) list"

definition link_new :: "'e \<Rightarrow> 'e coordinator_link" where
  "link_new e = \<lparr>lk_repl = e, lk_config = config_new, lk_state = NOTHING, lk_id = -1,
     lk_status = REPLICANT_GARBAGE, lk_output = None, lk_pending_ids = []\<rparr>"

definition link_reset :: "'e coordinator_link \<Rightarrow> 'e coordinator_link" where
  "link_reset l = l\<lparr>lk_id := -1, lk_state := NOTHING, lk_status := REPLICANT_GARBAGE, lk_output := None\<rparr>"

section \<open>Starting operations\<close>

text \<open>The result, the status for the caller, and the new state.\<close>

definition begin_waiting_on_broadcast ::
  "'e replicant_ops \<Rightarrow> 'e coordinator_link \<Rightarrow> (bool \<times> replicant_returncode \<times> 'e coordinator_link) res" where
  "begin_waiting_on_broadcast R l =
     rbind (assert_that (lk_id l = -1 \<and> lk_state l = NOTHING \<and> lk_status l = REPLICANT_GARBAGE \<and> lk_output l = None))
       (\<lambda>_. let (i, st, e) = rp_wait R ''config'' (u64_add (c_version (lk_config l)) 1) (lk_status l) (lk_repl l);
                l1 = l\<lparr>lk_repl := e, lk_id := i, lk_status := st, lk_state := WAITING_ON_BROADCAST\<rparr>
            in Inr (if i \<ge> 0 then (True, st, l1) else (False, st, link_reset l1)))"

definition begin_fetching_config ::
  "'e replicant_ops \<Rightarrow> 'e coordinator_link \<Rightarrow> (bool \<times> replicant_returncode \<times> 'e coordinator_link) res" where
  "begin_fetching_config R l =
     rbind (assert_that (lk_id l = -1 \<and> lk_state l = WAITING_ON_BROADCAST \<and> lk_status l = REPLICANT_SUCCESS \<and>
                         lk_output l = None))
       (\<lambda>_. let (i, st, e) = rp_send R ''config_get'' [] (lk_status l) (lk_repl l);
                l1 = l\<lparr>lk_repl := e, lk_id := i, lk_status := st, lk_state := FETCHING_CONFIG\<rparr>
            in Inr (if i \<ge> 0 then (True, st, l1) else (False, st, link_reset l1)))"

definition prime_state_machine ::
  "'e replicant_ops \<Rightarrow> replicant_returncode \<Rightarrow> 'e coordinator_link \<Rightarrow>
     (bool \<times> replicant_returncode \<times> 'e coordinator_link) res" where
  "prime_state_machine R st l =
     (if lk_id l \<ge> 0 then Inr (True, st, l)
      else if lk_state l = NOTHING then
        (if c_version (lk_config l) = 0
         then begin_fetching_config R (l\<lparr>lk_state := WAITING_ON_BROADCAST, lk_status := REPLICANT_SUCCESS\<rparr>)
         else begin_waiting_on_broadcast R l)
      else Inr (True, st, l))"

definition force_configuration_fetch ::
  "'e replicant_ops \<Rightarrow> 'e coordinator_link \<Rightarrow> (bool \<times> replicant_returncode \<times> 'e coordinator_link) res" where
  "force_configuration_fetch R l =
     begin_fetching_config R
       (l\<lparr>lk_repl := (if lk_id l \<ge> 0 then rp_kill R (lk_id l) (lk_repl l) else lk_repl l),
          lk_id := -1, lk_state := WAITING_ON_BROADCAST, lk_status := REPLICANT_SUCCESS, lk_output := None\<rparr>)"

section \<open>Completed operations\<close>

text \<open>
  \<open>handle_internal_callback\<close>: whether there is a new configuration, the flag \<open>failed\<close>, the status
  and the state.
\<close>

definition handle_internal_callback ::
  "'e replicant_ops \<Rightarrow> e_codec \<Rightarrow> replicant_returncode \<Rightarrow> 'e coordinator_link \<Rightarrow>
     (bool \<times> bool \<times> replicant_returncode \<times> 'e coordinator_link) res" where
  "handle_internal_callback R E st l =
     (let l1 = l\<lparr>lk_id := -1\<rparr>
      in if lk_status l1 \<noteq> REPLICANT_SUCCESS then Inr (False, True, lk_status l1, link_reset l1)
         else
           rbind (assert_that (lk_state l1 = WAITING_ON_BROADCAST \<or> lk_state l1 = FETCHING_CONFIG)) (\<lambda>_.
           if lk_state l1 = WAITING_ON_BROADCAST then
             rbind (begin_fetching_config R l1) (\<lambda>(ok, st1, l2). Inr (False, \<not> ok, st1, l2))
           else
             rbind (unpack_config E (case lk_output l1 of None \<Rightarrow> [] | Some out \<Rightarrow> out)) (\<lambda>r.
               let l2 = link_reset l1
               in case r of
                    None \<Rightarrow> Inr (False, True, REPLICANT_MISBEHAVING_SERVER, l2)
                  | Some (new_config, _) \<Rightarrow>
                      if c_cluster (lk_config l2) \<noteq> 0 \<and> c_cluster (lk_config l2) \<noteq> c_cluster new_config
                      then Inr (False, True, REPLICANT_MISBEHAVING_SERVER, l2)
                      else Inr (True, False, st, l2\<lparr>lk_config := new_config\<rparr>))))"

text \<open>The library stores the results of the link's own operation: a wait has no output.\<close>

definition store_result :: "op_result \<Rightarrow> 'e coordinator_link \<Rightarrow> 'e coordinator_link" where
  "store_result r l =
     l\<lparr>lk_status := fst r, lk_output := (if lk_state l = FETCHING_CONFIG then snd r else lk_output l)\<rparr>"

section \<open>The loops\<close>

text \<open>One round of the loop of \<open>ensure_configuration\<close>: going on, or returning.\<close>

datatype 'a round = Again 'a | Leave 'a

definition ensure_round ::
  "'e replicant_ops \<Rightarrow> e_codec \<Rightarrow> replicant_returncode \<Rightarrow> 'e coordinator_link \<Rightarrow>
     (bool \<times> replicant_returncode \<times> 'e coordinator_link) round res" where
  "ensure_round R E st l =
     rbind (prime_state_machine R st l) (\<lambda>(ok, st, l).
       if \<not> ok then Inr (Leave (False, st, l))
       else
         rbind (assert_that (lk_id l \<ge> 0 \<and> lk_state l \<noteq> NOTHING)) (\<lambda>_.
           let timeout = (if lk_state l = WAITING_ON_BROADCAST then 0 else -1 :: int);
               (lid, st, r, e) = rp_loop R timeout (lk_repl l);
               l = l\<lparr>lk_repl := e\<rparr>
           in if lid < 0 \<and> st = REPLICANT_TIMEOUT \<and> timeout \<ge> 0 then Inr (Leave (True, st, l))
              else if lid < 0 then Inr (Leave (False, st, l))
              else if lid = lk_id l then
                rbind (handle_internal_callback R E st (store_result r l)) (\<lambda>(new, failed, st, l).
                  Inr (if new then Leave (True, st, l)
                       else if failed then Leave (False, st, l)
                       else Again (True, st, l)))
              else Inr (Again (True, st, l\<lparr>lk_pending_ids := lk_pending_ids l @ [(lid, r)]\<rparr>))))"

partial_function (option) ensure_configuration ::
  "'e replicant_ops \<Rightarrow> e_codec \<Rightarrow> replicant_returncode \<Rightarrow> 'e coordinator_link \<Rightarrow>
     (bool \<times> replicant_returncode \<times> 'e coordinator_link) run" where
  "ensure_configuration R E st l =
     (case ensure_round R E st l of
        Inl e \<Rightarrow> Some (Inl e)
      | Inr (Leave x) \<Rightarrow> Some (Inr x)
      | Inr (Again (_, st1, l1)) \<Rightarrow> ensure_configuration R E st1 l1)"

text \<open>
  \<open>loop\<close> returns the number of an operation of the caller, with what the library stored for it,
  a negative number after a failure, or \<open>INT64_MAX\<close> when there is a new configuration.
\<close>

definition int64_max :: int where
  "int64_max = 9223372036854775807"

definition link_round ::
  "'e replicant_ops \<Rightarrow> e_codec \<Rightarrow> int \<Rightarrow> replicant_returncode \<Rightarrow> 'e coordinator_link \<Rightarrow>
     (int \<times> op_result \<times> replicant_returncode \<times> 'e coordinator_link) round res" where
  "link_round R E timeout st l =
     rbind (prime_state_machine R st l) (\<lambda>(ok, st, l).
       if \<not> ok then Inr (Leave (-1, (REPLICANT_GARBAGE, None), st, l))
       else
         (let (lid, st, r, e) = rp_loop R timeout (lk_repl l);
              l = l\<lparr>lk_repl := e\<rparr>
          in if lid = lk_id l then
               rbind (handle_internal_callback R E st (store_result r l)) (\<lambda>(new, failed, st, l).
                 Inr (if new then Leave (int64_max, r, st, l)
                      else if failed then Leave (-1, r, st, l)
                      else Again (0, r, st, l)))
             else Inr (Leave (lid, r, st, l))))"

partial_function (option) link_wait ::
  "'e replicant_ops \<Rightarrow> e_codec \<Rightarrow> int \<Rightarrow> replicant_returncode \<Rightarrow> 'e coordinator_link \<Rightarrow>
     (int \<times> op_result \<times> replicant_returncode \<times> 'e coordinator_link) run" where
  "link_wait R E timeout st l =
     (case link_round R E timeout st l of
        Inl e \<Rightarrow> Some (Inl e)
      | Inr (Leave x) \<Rightarrow> Some (Inr x)
      | Inr (Again (_, _, st1, l1)) \<Rightarrow> link_wait R E timeout st1 l1)"

definition link_loop ::
  "'e replicant_ops \<Rightarrow> e_codec \<Rightarrow> int \<Rightarrow> replicant_returncode \<Rightarrow> 'e coordinator_link \<Rightarrow>
     (int \<times> op_result \<times> replicant_returncode \<times> 'e coordinator_link) run" where
  "link_loop R E timeout st l =
     (case lk_pending_ids l of
        (i, r) # rest \<Rightarrow> Some (Inr (i, r, st, l\<lparr>lk_pending_ids := rest\<rparr>))
      | [] \<Rightarrow> link_wait R E timeout st l)"

section \<open>Calls of the coordinator\<close>

definition link_rpc ::
  "'e replicant_ops \<Rightarrow> string \<Rightarrow> byte list \<Rightarrow> 'e coordinator_link \<Rightarrow> int \<times> replicant_returncode \<times> 'e coordinator_link" where
  "link_rpc R func data l =
     (let (i, st, e) = rp_send R func data REPLICANT_GARBAGE (lk_repl l) in (i, st, l\<lparr>lk_repl := e\<rparr>))"

definition link_wait_for ::
  "'e replicant_ops \<Rightarrow> string \<Rightarrow> u64 \<Rightarrow> 'e coordinator_link \<Rightarrow> int \<times> replicant_returncode \<times> 'e coordinator_link" where
  "link_wait_for R cnd state l =
     (let (i, st, e) = rp_wait R cnd state REPLICANT_GARBAGE (lk_repl l) in (i, st, l\<lparr>lk_repl := e\<rparr>))"

end
