(* ===== verification/Daemon.thy ===== *)
theory Daemon
  imports Blockmap Configuration Block
begin

text \<open>
  \<open>daemon/daemon.{h,cc}\<close>: the storage daemon. A handler takes the bytes of a message behind
  BusyBee's own header and gives the new state and the messages it sends, each with the token of
  its receiver. BusyBee, the message library, is not part of the repository: the sender's token and
  the bytes it received are arguments, and whether a send succeeds changes nothing but the log.

  No handler looks at the error state of its unpacker, so a message that is too short leaves
  variables unset that are used at once: \<open>Inl Undefined\<close>. The handlers run in several threads
  on one block store without a lock; the model has them run one at a time. The start of the process is
  in the theory \<open>DaemonMain\<close>. The log and the periodic functions, which nothing runs, are not modelled.
\<close>

section \<open>State\<close>

record 'db daemon =
  dm_us :: server_id
  dm_blockman :: "'db block_storage_manager"
  dm_config :: configuration

type_synonym packet = "u64 \<times> byte list"

text \<open>The unpacker of a message: \<open>None\<close> is its error state.\<close>

type_synonym unpacker = "byte list option"

definition up_from :: "'a reader \<Rightarrow> unpacker \<Rightarrow> ('a \<times> byte list) option" where
  "up_from rd up = (case up of None \<Rightarrow> None | Some bs \<Rightarrow> rd bs)"

section \<open>Reading a block\<close>

definition process_get ::
  "'db kv_ops \<Rightarrow> e_codec \<Rightarrow> u64 \<Rightarrow> u64 \<Rightarrow> unpacker \<Rightarrow> 'db daemon \<Rightarrow> ('db daemon \<times> packet list) res" where
  "process_get K E conn nonce up d =
     (case up_from (\<lambda>bs. do { (bid, bs) \<leftarrow> up64 E bs; (len, bs) \<leftarrow> up32 E bs; Some ((bid, len), bs) }) up of
        None \<Rightarrow> Inl Undefined
      | Some ((bid, len), _) \<Rightarrow>
          rbind (read_block K E (dm_us d) bid len (dm_blockman d)) (\<lambda>(ret, data).
            let (rc, len1) = (if ret < int len then (RESPONSE_SERVER_ERROR, 0) else (RESPONSE_SUCCESS, len))
            in Inr (d, [(conn, pack_msgtype E RESP_GET @ pk64 E nonce @ pack_response E rc @ pk64 E bid @
                               take len1 data)])))"

section \<open>Replicas\<close>

text \<open>The last location of this server names the block it has.\<close>

definition own_block :: "server_id \<Rightarrow> block_location list \<Rightarrow> u64" where
  "own_block us bls = foldl (\<lambda>bid bl. if bl_si bl = us then bl_bi bl else bid) u64_max bls"

definition forward_message :: "block_location list \<Rightarrow> byte list \<Rightarrow> packet list" where
  "forward_message bls msg = map (\<lambda>bl. (bl_si bl, msg)) bls"

text \<open>The first server forwards; every server answers with the nonce of its place.\<close>

definition forward_if_first :: "server_id \<Rightarrow> block_location list \<Rightarrow> byte list \<Rightarrow> packet list res" where
  "forward_if_first us bls msg =
     (case bls of
        [] \<Rightarrow> Inl Undefined
      | b # rest \<Rightarrow> Inr (if bl_si b = us then forward_message rest msg else []))"

definition reply_nonce :: "server_id \<Rightarrow> u64 \<Rightarrow> block_location list \<Rightarrow> u64" where
  "reply_nonce us nonce bls =
     (let i = length (takeWhile (\<lambda>bl. bl_si bl \<noteq> us) bls)
      in if i < length bls then u64_add nonce i else nonce)"

section \<open>Writing a block\<close>

definition unpack_update :: "e_codec \<Rightarrow> (u64 \<times> block_location list \<times> u64) reader" where
  "unpack_update E bs =
     do {
       (sender, bs) \<leftarrow> up64 E bs;
       (num_replicas, bs) \<leftarrow> up32 E bs;
       (bls, bs) \<leftarrow> unpack_bls E num_replicas bs;
       (file_offset, bs) \<leftarrow> up64 E bs;
       Some ((sender, bls, file_offset), bs)
     }"

text \<open>
  A location with a block number asks for an update of that block, whose offset the handler never
  reads from the message. The test of the result compares with an unsigned length.
\<close>

definition process_update ::
  "'db kv_ops \<Rightarrow> e_codec \<Rightarrow> u64 \<Rightarrow> byte list \<Rightarrow> unpacker \<Rightarrow> 'db daemon \<Rightarrow> ('db daemon \<times> packet list) res" where
  "process_update K E nonce msg up d =
     (case up_from (unpack_update E) up of
        None \<Rightarrow> Inl Undefined
      | Some ((sender, bls, file_offset), data) \<Rightarrow>
          if own_block (dm_us d) bls \<noteq> u64_max then Inl Undefined
          else
            rbind (write_block K E data (dm_us d) u64_max (dm_blockman d)) (\<lambda>(ret, bid, bsm).
            rbind (forward_if_first (dm_us d) bls msg) (\<lambda>forwards.
              let block_len = u64_of_int ret;
                  rc = (if u64_of_int ret < length data then RESPONSE_SERVER_ERROR else RESPONSE_SUCCESS)
              in Inr (d\<lparr>dm_blockman := bsm\<rparr>,
                      forwards @
                      [(sender, pack_msgtype E RESP_UPDATE @ pk64 E (reply_nonce (dm_us d) nonce bls) @
                                pack_response E rc @ pk64 E bid @ pk64 E file_offset @ pk64 E block_len)]))))"

section \<open>Truncating a block\<close>

definition unpack_truncate :: "e_codec \<Rightarrow> (u64 \<times> block_location list \<times> nat \<times> u64 \<times> nat) reader" where
  "unpack_truncate E bs =
     do {
       (sender, bs) \<leftarrow> up64 E bs;
       (num_replicas, bs) \<leftarrow> up32 E bs;
       (bls, bs) \<leftarrow> unpack_bls E num_replicas bs;
       (block_capacity, bs) \<leftarrow> up32 E bs;
       (file_offset, bs) \<leftarrow> up64 E bs;
       (block_len, bs) \<leftarrow> up32 E bs;
       Some ((sender, bls, block_capacity, file_offset, block_len), bs)
     }"

text \<open>The result of the block store is not looked at.\<close>

definition process_truncate ::
  "'db kv_ops \<Rightarrow> e_codec \<Rightarrow> u64 \<Rightarrow> byte list \<Rightarrow> unpacker \<Rightarrow> 'db daemon \<Rightarrow> ('db daemon \<times> packet list) res" where
  "process_truncate K E nonce msg up d =
     (case up_from (unpack_truncate E) up of
        None \<Rightarrow> Inl Undefined
      | Some ((sender, bls, block_capacity, file_offset, block_len), _) \<Rightarrow>
          rbind (truncate_block K E (dm_us d) (own_block (dm_us d) bls) block_len (dm_blockman d))
            (\<lambda>(ret, bid, bsm).
            rbind (forward_if_first (dm_us d) bls msg) (\<lambda>forwards.
              Inr (d\<lparr>dm_blockman := bsm\<rparr>,
                   forwards @
                   [(sender, pack_msgtype E RESP_TRUNCATE @ pk64 E (reply_nonce (dm_us d) nonce bls) @
                             pack_response E RESPONSE_SUCCESS @ pk64 E bid @ pk32 E block_capacity @
                             pk64 E file_offset @ pk32 E block_len)]))))"

section \<open>The network loop\<close>

text \<open>
  One round of \<open>loop\<close>. The nonce keeps its initial value when it is missing; the type does not, since reading
  it assigns a byte that was never set. The daemon has no case for \<open>REQ_PUT\<close>.
\<close>

definition handle_message ::
  "'db kv_ops \<Rightarrow> e_codec \<Rightarrow> u64 \<Rightarrow> byte list \<Rightarrow> 'db daemon \<Rightarrow> ('db daemon \<times> packet list) res" where
  "handle_message K E conn msg d =
     (case unpack_msgtype E msg of
        None \<Rightarrow> Inl Undefined
      | Some (mt, up1) \<Rightarrow>
          (let (nonce, up2) = (case up64 E up1 of None \<Rightarrow> (0, None) | Some (n, bs) \<Rightarrow> (n, Some bs))
           in if mt = Some REQ_GET then process_get K E conn nonce up2 d
              else if mt = Some REQ_UPDATE then process_update K E nonce msg up2 d
              else if mt = Some REQ_TRUNCATE then process_truncate K E nonce msg up2 d
              else Inr (d, [])))"

section \<open>Receiving and sending\<close>

text \<open>\<open>recv\<close> over what BusyBee returns call by call; it may wait forever.\<close>

partial_function (option) daemon_recv ::
  "(nat \<Rightarrow> busybee_returncode \<times> packet) \<Rightarrow> nat \<Rightarrow> (packet option \<times> nat) option" where
  "daemon_recv src k =
     (case fst (src k) of
        BUSYBEE_SUCCESS \<Rightarrow> Some (Some (snd (src k)), Suc k)
      | BUSYBEE_SHUTDOWN \<Rightarrow> Some (None, Suc k)
      | _ \<Rightarrow> daemon_recv src (Suc k))"

definition daemon_send :: "busybee_returncode \<Rightarrow> bool" where
  "daemon_send rc \<longleftrightarrow> rc = BUSYBEE_SUCCESS"

section \<open>Following the configuration\<close>

text \<open>
  One round of the loop of \<open>run\<close> after \<open>maintain_link\<close> has returned true: leaving because the
  cluster is another one, skipping an older configuration, or moving to it and acknowledging its
  version. The second test of the code repeats the first, so an equal version is moved to again.
\<close>

datatype follow_result = ClusterJump | Skipped | Moved u64

definition follow_config :: "configuration \<Rightarrow> 'db daemon \<Rightarrow> 'db daemon \<times> follow_result" where
  "follow_config new_config d =
     (let old_config = dm_config d
      in if c_cluster old_config \<noteq> 0 \<and> c_cluster old_config \<noteq> c_cluster new_config then (d, ClusterJump)
         else if c_version old_config > c_version new_config then (d, Skipped)
         else if c_version old_config > c_version new_config then (d, Skipped)
         else (d\<lparr>dm_config := new_config\<rparr>, Moved (c_version new_config)))"

text \<open>The identifier of a new daemon: random numbers until one has 33 bits or more.\<close>

partial_function (option) generate_token :: "(nat \<Rightarrow> u64 option) \<Rightarrow> nat \<Rightarrow> u64 option option" where
  "generate_token rnd k =
     (case rnd k of
        None \<Rightarrow> Some None
      | Some t \<Rightarrow> if t < 2 ^ 32 then generate_token rnd (Suc k) else Some (Some t))"

end
