(* ===== verification/LinkWrapper.thy ===== *)
theory LinkWrapper
  imports CoordinatorLink Daemon
begin

text \<open>
  \<open>daemon/coordinator_link_wrapper.{h,cc}\<close>: how a daemon talks to the coordinator: it registers,
  keeps itself online, acknowledges configurations, and follows the checkpoint conditions, with at
  most one outstanding call of each kind, repeated until it succeeds; and the rounds of
  \<open>daemon::run\<close> built on it.

  The critical sections, which make the operations atomic, are in the theory \<open>CriticalSection\<close>; of
  \<open>do_sleep\<close> only the delay that doubles is modelled. The fields of the daemon that the code reads through
  \<open>m_daemon\<close> are arguments. \<open>e::pack64be\<close> writes what the packer writes for 64 bits.
\<close>

section \<open>State\<close>

text \<open>The classes of calls, by their callbacks.\<close>

datatype coord_rpc =
    Rpc | Rpc_available | Rpc_config_ack | Rpc_config_stable | Rpc_checkpoint
  | Rpc_checkpoint_report_stable | Rpc_checkpoint_stable | Rpc_checkpoint_gc

record 'e link_wrapper =
  lw_coord :: "'e coordinator_link"
  lw_rpcs :: "(int, coord_rpc) smap"
  lw_sleep :: u64
  lw_online_id :: int
  lw_shutdown_requested :: bool
  lw_need_config_ack :: bool
  lw_config_ack :: u64
  lw_config_ack_id :: int
  lw_need_config_stable :: bool
  lw_config_stable :: u64
  lw_config_stable_id :: int
  lw_checkpoint :: u64
  lw_checkpoint_id :: int
  lw_need_checkpoint_report_stable :: bool
  lw_checkpoint_report_stable :: u64
  lw_checkpoint_report_stable_id :: int
  lw_checkpoint_stable :: u64
  lw_checkpoint_stable_id :: int
  lw_checkpoint_gc :: u64
  lw_checkpoint_gc_id :: int

definition wrapper_new :: "'e \<Rightarrow> 'e link_wrapper" where
  "wrapper_new e = \<lparr>lw_coord = link_new e, lw_rpcs = [], lw_sleep = 1000000, lw_online_id = -1,
     lw_shutdown_requested = False, lw_need_config_ack = False, lw_config_ack = 0, lw_config_ack_id = -1,
     lw_need_config_stable = False, lw_config_stable = 0, lw_config_stable_id = -1,
     lw_checkpoint = 0, lw_checkpoint_id = -1, lw_need_checkpoint_report_stable = False,
     lw_checkpoint_report_stable = 0, lw_checkpoint_report_stable_id = -1, lw_checkpoint_stable = 0,
     lw_checkpoint_stable_id = -1, lw_checkpoint_gc = 0, lw_checkpoint_gc_id = -1\<rparr>"

definition do_sleep :: "'e link_wrapper \<Rightarrow> 'e link_wrapper" where
  "do_sleep w = w\<lparr>lw_sleep := min 1000000000 (lw_sleep w * 2 mod u64_bound)\<rparr>"

definition reset_sleep :: "'e link_wrapper \<Rightarrow> 'e link_wrapper" where
  "reset_sleep w = w\<lparr>lw_sleep := 1000000\<rparr>"

section \<open>Calls\<close>

definition make_rpc ::
  "'e replicant_ops \<Rightarrow> string \<Rightarrow> byte list \<Rightarrow> coord_rpc \<Rightarrow> 'e link_wrapper \<Rightarrow> int \<times> 'e link_wrapper" where
  "make_rpc R func data rpc w =
     (let (i, st, l) = link_rpc R func data (lw_coord w);
          w1 = w\<lparr>lw_coord := l\<rparr>
      in (i, if i < 0 then w1 else w1\<lparr>lw_rpcs := m_insert i rpc (lw_rpcs w1)\<rparr>))"

definition wait_cond ::
  "'e replicant_ops \<Rightarrow> string \<Rightarrow> u64 \<Rightarrow> coord_rpc \<Rightarrow> 'e link_wrapper \<Rightarrow> int \<times> 'e link_wrapper" where
  "wait_cond R cnd state rpc w =
     (let (i, st, l) = link_wait_for R cnd state (lw_coord w);
          w1 = w\<lparr>lw_coord := l\<rparr>
      in (i, if i < 0 then w1 else w1\<lparr>lw_rpcs := m_insert i rpc (lw_rpcs w1)\<rparr>))"

definition register_id ::
  "'e replicant_ops \<Rightarrow> e_codec \<Rightarrow> server_id \<Rightarrow> location \<Rightarrow> 'e link_wrapper \<Rightarrow> (bool \<times> 'e link_wrapper) run" where
  "register_id R E us bind_to w =
     (let (rid, st, l) = link_rpc R ''server_register'' (pack_id E us @ pack_location E bind_to) (lw_coord w)
      in if rid < 0 then ret (False, w\<lparr>lw_coord := l\<rparr>)
         else
           run_bind (link_loop R E (-1) REPLICANT_GARBAGE l) (\<lambda>(lid, (rst, out), _, l).
             let w1 = w\<lparr>lw_coord := l\<rparr>
             in if lid < 0 \<or> lid \<noteq> rid \<or> rst \<noteq> REPLICANT_SUCCESS then ret (False, w1)
                else case out of
                       None \<Rightarrow> ret (False, w1)
                     | Some bs \<Rightarrow>
                         (case up16 E bs of
                            None \<Rightarrow> ret (False, w1)
                          | Some (x, _) \<Rightarrow> ret (x = coord_code COORD_SUCCESS, w1))))"

definition should_exit :: "server_id \<Rightarrow> 'e link_wrapper \<Rightarrow> bool" where
  "should_exit us w \<longleftrightarrow>
     (let c = lk_config (lw_coord w)
      in \<not> config_exists us c \<and> c_version c > 0 \<or> lw_shutdown_requested w \<and> get_state us c = SHUTDOWN)"

definition request_shutdown :: "'e replicant_ops \<Rightarrow> e_codec \<Rightarrow> server_id \<Rightarrow> 'e link_wrapper \<Rightarrow> 'e link_wrapper" where
  "request_shutdown R E us w =
     snd (make_rpc R ''server_shutdown'' (pk64 E us) Rpc (w\<lparr>lw_shutdown_requested := True\<rparr>))"

definition report_tcp_disconnect ::
  "'e replicant_ops \<Rightarrow> e_codec \<Rightarrow> u64 \<Rightarrow> server_id \<Rightarrow> 'e link_wrapper \<Rightarrow> 'e link_wrapper" where
  "report_tcp_disconnect R E version i w = snd (make_rpc R ''report_disconnect'' (pk64 E i @ pk64 E version) Rpc w)"

section \<open>Keeping one call of each kind outstanding\<close>

definition ensure_available ::
  "'e replicant_ops \<Rightarrow> e_codec \<Rightarrow> server_id \<Rightarrow> location \<Rightarrow> 'e link_wrapper \<Rightarrow> 'e link_wrapper" where
  "ensure_available R E us bind_to w =
     (if lw_online_id w \<ge> 0 \<or> lw_shutdown_requested w then w
      else if get_address us (lk_config (lw_coord w)) = bind_to \<and> get_state us (lk_config (lw_coord w)) = AVAILABLE then w
      else let (i, w1) = make_rpc R ''server_online'' (pack_id E us @ pack_location E bind_to) Rpc_available w
           in w1\<lparr>lw_online_id := i\<rparr>)"

definition ensure_config_ack :: "'e replicant_ops \<Rightarrow> e_codec \<Rightarrow> server_id \<Rightarrow> 'e link_wrapper \<Rightarrow> 'e link_wrapper" where
  "ensure_config_ack R E us w =
     (if lw_config_ack_id w \<ge> 0 \<or> \<not> lw_need_config_ack w then w
      else let (i, w1) = make_rpc R ''config_ack'' (pk64 E us @ pk64 E (lw_config_ack w)) Rpc_config_ack w
           in w1\<lparr>lw_config_ack_id := i\<rparr>)"

definition ensure_config_stable :: "'e replicant_ops \<Rightarrow> e_codec \<Rightarrow> server_id \<Rightarrow> 'e link_wrapper \<Rightarrow> 'e link_wrapper" where
  "ensure_config_stable R E us w =
     (if lw_config_stable_id w \<ge> 0 \<or> \<not> lw_need_config_stable w then w
      else let (i, w1) = make_rpc R ''config_stable'' (pk64 E us @ pk64 E (lw_config_stable w)) Rpc_config_stable w
           in w1\<lparr>lw_config_stable_id := i\<rparr>)"

definition ensure_checkpoint :: "'e replicant_ops \<Rightarrow> 'e link_wrapper \<Rightarrow> 'e link_wrapper" where
  "ensure_checkpoint R w =
     (if lw_checkpoint_id w \<ge> 0 then w
      else let (i, w1) = wait_cond R ''checkp'' (u64_add (lw_checkpoint w) 1) Rpc_checkpoint w
           in w1\<lparr>lw_checkpoint_id := i\<rparr>)"

definition ensure_checkpoint_report_stable ::
  "'e replicant_ops \<Rightarrow> e_codec \<Rightarrow> server_id \<Rightarrow> 'e link_wrapper \<Rightarrow> 'e link_wrapper" where
  "ensure_checkpoint_report_stable R E us w =
     (if lw_checkpoint_report_stable_id w \<ge> 0 \<or> \<not> lw_need_checkpoint_report_stable w then w
      else let (i, w1) = make_rpc R ''checkpoint_stable''
                 (pk64 E us @ pk64 E (lw_config_ack w) @ pk64 E (lw_checkpoint_report_stable w))
                 Rpc_checkpoint_report_stable w
           in w1\<lparr>lw_checkpoint_report_stable_id := i\<rparr>)"

definition ensure_checkpoint_stable :: "'e replicant_ops \<Rightarrow> 'e link_wrapper \<Rightarrow> 'e link_wrapper" where
  "ensure_checkpoint_stable R w =
     (if lw_checkpoint_stable_id w \<ge> 0 then w
      else let (i, w1) = wait_cond R ''checkps'' (u64_add (lw_checkpoint_stable w) 1) Rpc_checkpoint_stable w
           in w1\<lparr>lw_checkpoint_stable_id := i\<rparr>)"

definition ensure_checkpoint_gc :: "'e replicant_ops \<Rightarrow> 'e link_wrapper \<Rightarrow> 'e link_wrapper" where
  "ensure_checkpoint_gc R w =
     (if lw_checkpoint_gc_id w \<ge> 0 then w
      else let (i, w1) = wait_cond R ''checkpgc'' (u64_add (lw_checkpoint_gc w) 1) Rpc_checkpoint_gc w
           in w1\<lparr>lw_checkpoint_gc_id := i\<rparr>)"

section \<open>What the daemon asks for\<close>

definition lw_ack_config :: "'e replicant_ops \<Rightarrow> e_codec \<Rightarrow> server_id \<Rightarrow> u64 \<Rightarrow> 'e link_wrapper \<Rightarrow> 'e link_wrapper" where
  "lw_ack_config R E us version w =
     (if lw_config_ack w < version
      then ensure_config_ack R E us (w\<lparr>lw_need_config_ack := True, lw_config_ack := version, lw_config_ack_id := -1\<rparr>)
      else w)"

definition lw_stable_config :: "'e replicant_ops \<Rightarrow> e_codec \<Rightarrow> server_id \<Rightarrow> u64 \<Rightarrow> 'e link_wrapper \<Rightarrow> 'e link_wrapper" where
  "lw_stable_config R E us version w =
     (if lw_config_stable w < version
      then ensure_config_stable R E us
             (w\<lparr>lw_need_config_stable := True, lw_config_stable := version, lw_config_stable_id := -1\<rparr>)
      else w)"

definition lw_report_stable :: "'e replicant_ops \<Rightarrow> e_codec \<Rightarrow> server_id \<Rightarrow> u64 \<Rightarrow> 'e link_wrapper \<Rightarrow> 'e link_wrapper" where
  "lw_report_stable R E us seq w =
     (if lw_checkpoint_report_stable w < seq
      then ensure_checkpoint_report_stable R E us
             (w\<lparr>lw_need_checkpoint_report_stable := True, lw_checkpoint_report_stable := seq,
                lw_checkpoint_report_stable_id := -1\<rparr>)
      else w)"

section \<open>Callbacks\<close>

definition rpc_callback :: "replicant_returncode \<Rightarrow> 'e link_wrapper \<Rightarrow> 'e link_wrapper" where
  "rpc_callback status w = (if status = REPLICANT_CLUSTER_JUMP then do_sleep w else w)"

text \<open>The result tells \<open>maintain_link\<close> to return.\<close>

definition run_callback :: "e_codec \<Rightarrow> coord_rpc \<Rightarrow> op_result \<Rightarrow> 'e link_wrapper \<Rightarrow> bool \<times> 'e link_wrapper" where
  "run_callback E rpc res w =
     (let (status, out) = res;
          w1 = rpc_callback status w
      in case rpc of
           Rpc \<Rightarrow> (False, w1)
         | Rpc_available \<Rightarrow> (False, w1\<lparr>lw_online_id := -1\<rparr>)
         | Rpc_config_ack \<Rightarrow>
             (False, w1\<lparr>lw_config_ack_id := -1, lw_need_config_ack := (status \<noteq> REPLICANT_SUCCESS)\<rparr>)
         | Rpc_config_stable \<Rightarrow>
             (False, w1\<lparr>lw_config_stable_id := -1, lw_need_config_stable := (status \<noteq> REPLICANT_SUCCESS)\<rparr>)
         | Rpc_checkpoint \<Rightarrow>
             (let w2 = w1\<lparr>lw_checkpoint_id := -1\<rparr>
              in if status \<noteq> REPLICANT_SUCCESS then (False, w2)
                 else (True, w2\<lparr>lw_checkpoint := u64_add (lw_checkpoint w2) 1\<rparr>))
         | Rpc_checkpoint_report_stable \<Rightarrow>
             (let w2 = w1\<lparr>lw_checkpoint_report_stable_id := -1, lw_need_checkpoint_report_stable := True\<rparr>
              in if status \<noteq> REPLICANT_SUCCESS then (False, w2)
                 else case out of
                        None \<Rightarrow> (False, w2)
                      | Some bs \<Rightarrow>
                          if length bs \<noteq> 2 then (False, w2)
                          else (case up16 E bs of
                                  None \<Rightarrow> (False, w2)
                                | Some (x, _) \<Rightarrow>
                                    (False, w2\<lparr>lw_need_checkpoint_report_stable := (x \<noteq> coord_code COORD_SUCCESS)\<rparr>)))
         | Rpc_checkpoint_stable \<Rightarrow>
             (let w2 = w1\<lparr>lw_checkpoint_stable_id := -1\<rparr>
              in if status \<noteq> REPLICANT_SUCCESS then (False, w2)
                 else (True, w2\<lparr>lw_checkpoint_stable := u64_add (lw_checkpoint_stable w2) 1\<rparr>))
         | Rpc_checkpoint_gc \<Rightarrow>
             (let w2 = w1\<lparr>lw_checkpoint_gc_id := -1\<rparr>
              in if status \<noteq> REPLICANT_SUCCESS then (False, w2)
                 else (True, w2\<lparr>lw_checkpoint_gc := u64_add (lw_checkpoint_gc w2) 1\<rparr>)))"

section \<open>The loop\<close>

definition ensure_all ::
  "'e replicant_ops \<Rightarrow> e_codec \<Rightarrow> server_id \<Rightarrow> location \<Rightarrow> 'e link_wrapper \<Rightarrow> 'e link_wrapper" where
  "ensure_all R E us bind_to w =
     ensure_checkpoint_gc R
       (ensure_checkpoint_stable R
         (ensure_checkpoint_report_stable R E us
           (ensure_checkpoint R
             (ensure_config_stable R E us
               (ensure_config_ack R E us
                 (ensure_available R E us bind_to w))))))"

text \<open>What a round does with the result of the link's loop.\<close>

definition maintain_step ::
  "e_codec \<Rightarrow> server_id \<Rightarrow> int \<Rightarrow> op_result \<Rightarrow> replicant_returncode \<Rightarrow> 'e link_wrapper \<Rightarrow> (bool \<times> 'e link_wrapper) round" where
  "maintain_step E us i res status w =
     (if i < 0 \<and> (status = REPLICANT_TIMEOUT \<or> status = REPLICANT_INTERRUPTED) then Leave (False, reset_sleep w)
      else if i < 0 then Leave (False, do_sleep w)
      else
        (let w1 = reset_sleep w
         in if i = int64_max then Leave (config_exists us (lk_config (lw_coord w1)), w1)
            else case map_of (lw_rpcs w1) i of
                   None \<Rightarrow> Again (False, w1)
                 | Some rpc \<Rightarrow>
                     (let (stop, w2) = run_callback E rpc res (w1\<lparr>lw_rpcs := m_erase i (lw_rpcs w1)\<rparr>)
                      in if stop then Leave (False, w2) else Again (False, w2))))"

partial_function (option) maintain_link ::
  "'e replicant_ops \<Rightarrow> e_codec \<Rightarrow> server_id \<Rightarrow> location \<Rightarrow> 'e link_wrapper \<Rightarrow> (bool \<times> 'e link_wrapper) run" where
  "maintain_link R E us bind_to w =
     (let w1 = ensure_all R E us bind_to w
      in case link_loop R E 1000 REPLICANT_GARBAGE (lw_coord w1) of
           None \<Rightarrow> None
         | Some (Inl e) \<Rightarrow> Some (Inl e)
         | Some (Inr (i, res, status, l)) \<Rightarrow>
             (case maintain_step E us i res status (w1\<lparr>lw_coord := l\<rparr>) of
                Leave x \<Rightarrow> Some (Inr x)
              | Again (_, w2) \<Rightarrow> maintain_link R E us bind_to w2))"

text \<open>One round of the loop of \<open>daemon::run\<close>; the result tells whether the cluster changed.\<close>

definition run_round ::
  "'e replicant_ops \<Rightarrow> e_codec \<Rightarrow> location \<Rightarrow> 'e link_wrapper \<Rightarrow> 'db daemon \<Rightarrow>
     (bool \<times> 'e link_wrapper \<times> 'db daemon) run" where
  "run_round R E bind_to w d =
     run_bind (maintain_link R E (dm_us d) bind_to w) (\<lambda>(ok, w1).
       if \<not> ok then ret (False, w1, d)
       else case follow_config (lk_config (lw_coord w1)) d of
              (d1, ClusterJump) \<Rightarrow> ret (True, w1, d1)
            | (d1, Skipped) \<Rightarrow> ret (False, w1, d1)
            | (d1, Moved version) \<Rightarrow> ret (False, lw_ack_config R E (dm_us d) version w1, d1))"

end
