(* ===== verification/CoordinatorLinkProps.thy ===== *)
theory CoordinatorLinkProps
  imports CoordinatorLink CoordinatorProps
begin

text \<open>
  The link to the coordinator as a state machine: its assertions hold whatever the library does, so that only
  decoding an answer can fail, the cluster it follows never changes, and its configuration is always one the coordinator sent.
\<close>

section \<open>The invariant\<close>

definition link_ok :: "'e coordinator_link \<Rightarrow> bool" where
  "link_ok l \<longleftrightarrow>
     (case lk_state l of
        NOTHING \<Rightarrow> lk_id l = -1 \<and> lk_status l = REPLICANT_GARBAGE \<and> lk_output l = None
      | WAITING_ON_BROADCAST \<Rightarrow> 0 \<le> lk_id l \<and> lk_output l = None \<and> c_version (lk_config l) \<noteq> 0
      | FETCHING_CONFIG \<Rightarrow> 0 \<le> lk_id l)"

lemma link_ok_simps [simp]:
  "lk_state l = NOTHING \<Longrightarrow> link_ok l \<longleftrightarrow> lk_id l = -1 \<and> lk_status l = REPLICANT_GARBAGE \<and> lk_output l = None"
  "lk_state l = WAITING_ON_BROADCAST \<Longrightarrow> link_ok l \<longleftrightarrow> 0 \<le> lk_id l \<and> lk_output l = None \<and> c_version (lk_config l) \<noteq> 0"
  "lk_state l = FETCHING_CONFIG \<Longrightarrow> link_ok l \<longleftrightarrow> 0 \<le> lk_id l"
  by (simp_all add: link_ok_def)

lemma link_ok_new: "link_ok (link_new e)"
  by (simp add: link_new_def)

lemma link_ok_frame [simp]: "link_ok (l\<lparr>lk_repl := e\<rparr>) = link_ok l" "link_ok (l\<lparr>lk_pending_ids := q\<rparr>) = link_ok l"
  by (cases "lk_state l"; simp)+

lemma link_reset_facts [simp]:
  "lk_config (link_reset l) = lk_config l" "lk_state (link_reset l) = NOTHING" "lk_id (link_reset l) = -1"
  "lk_status (link_reset l) = REPLICANT_GARBAGE" "lk_output (link_reset l) = None" "link_ok (link_reset l)"
  "lk_pending_ids (link_reset l) = lk_pending_ids l"
  by (simp_all add: link_reset_def)

text \<open>The faults of decoding an answer: the library hands over the completed operation with success, and the bytes
  it hands over with it make \<open>unpack_config\<close> fail. The theory \<open>ConfigurationProps\<close> has the three kinds of such bytes.\<close>

definition answer_faults :: "'e replicant_ops \<Rightarrow> e_codec \<Rightarrow> fault \<Rightarrow> bool" where
  "answer_faults R E f \<longleftrightarrow>
     (\<exists>timeout e lid st out e'. rp_loop R timeout e = (lid, st, (REPLICANT_SUCCESS, out), e') \<and> 0 \<le> lid \<and>
        unpack_config E (case out of None \<Rightarrow> [] | Some bs \<Rightarrow> bs) = Inl f)"

text \<open>A configuration that was sent.\<close>

definition sent_config :: "e_codec \<Rightarrow> configuration \<Rightarrow> bool" where
  "sent_config E c \<longleftrightarrow> (\<exists>bs rest. unpack_config E bs = Inr (Some (c, rest)))"

text \<open>How the configuration may change from one call to the next.\<close>

definition link_step :: "e_codec \<Rightarrow> bool \<Rightarrow> 'e coordinator_link \<Rightarrow> 'e coordinator_link \<Rightarrow> bool" where
  "link_step E new l l' \<longleftrightarrow> link_ok l' \<and>
     (if new then sent_config E (lk_config l') \<and>
        (c_cluster (lk_config l) \<noteq> 0 \<longrightarrow> c_cluster (lk_config l') = c_cluster (lk_config l))
      else lk_config l' = lk_config l)"

section \<open>The operations\<close>

lemma prime_ok:
  assumes "link_ok l"
  shows "\<exists>ok st' l'. prime_state_machine R st l = Inr (ok, st', l') \<and> link_ok l' \<and> lk_config l' = lk_config l \<and>
    lk_pending_ids l' = lk_pending_ids l \<and> (ok \<longrightarrow> 0 \<le> lk_id l' \<and> lk_state l' \<noteq> NOTHING)"
proof (cases "lk_state l")
  case NOTHING
  then show ?thesis using assms
    by (auto simp: prime_state_machine_def begin_fetching_config_def begin_waiting_on_broadcast_def Let_def
      split: prod.splits if_splits)
qed (use assms in \<open>auto simp: prime_state_machine_def\<close>)

lemma callback_ok:
  assumes "link_ok l" and "lk_state l \<noteq> NOTHING"
  shows "case handle_internal_callback R E st (store_result res l) of
      Inl f \<Rightarrow> fst res = REPLICANT_SUCCESS \<and> unpack_config E (case snd res of None \<Rightarrow> [] | Some bs \<Rightarrow> bs) = Inl f
    | Inr (new, failed, st', l') \<Rightarrow> link_step E new l l' \<and> lk_pending_ids l' = lk_pending_ids l"
proof (cases "lk_state l")
  case WAITING_ON_BROADCAST
  obtain i st2 e where "rp_send R ''config_get'' [] REPLICANT_SUCCESS (lk_repl l) = (i, st2, e)" by (metis prod.collapse)
  then show ?thesis using assms(1) WAITING_ON_BROADCAST
    by (cases "fst res = REPLICANT_SUCCESS"; cases "0 \<le> i")
      (auto simp: handle_internal_callback_def store_result_def begin_fetching_config_def link_step_def Let_def)
next
  case FETCHING_CONFIG
  show ?thesis
  proof (cases "unpack_config E (case snd res of None \<Rightarrow> [] | Some bs \<Rightarrow> bs)")
    case (Inl f)
    then show ?thesis using FETCHING_CONFIG
      by (auto simp: handle_internal_callback_def store_result_def link_step_def Let_def)
  next
    case r: (Inr r)
    show ?thesis
    proof (cases r)
      case None
      then show ?thesis using FETCHING_CONFIG r
        by (auto simp: handle_internal_callback_def store_result_def link_step_def Let_def)
    next
      case (Some cr)
      obtain c rest where cr: "cr = (c, rest)" by (cases cr)
      then have "sent_config E c" using r Some by (auto simp: sent_config_def)
      moreover have "link_ok (link_reset l'\<lparr>lk_config := c\<rparr>)" for l' :: "'a coordinator_link" by simp
      ultimately show ?thesis using FETCHING_CONFIG r Some cr
        by (auto simp: handle_internal_callback_def store_result_def link_step_def Let_def)
    qed
  qed
qed (use assms(2) in simp)

text \<open>The same for an operation the library has completed.\<close>

lemma completed_ok:
  assumes "link_ok l" and "lk_state l \<noteq> NOTHING" and "rp_loop R timeout e = (lid, st, res, e')" and "0 \<le> lid"
  shows "case handle_internal_callback R E st2 (store_result res l) of
      Inl f \<Rightarrow> answer_faults R E f
    | Inr (new, failed, st', l') \<Rightarrow> link_step E new l l' \<and> lk_pending_ids l' = lk_pending_ids l"
proof (cases "handle_internal_callback R E st2 (store_result res l)")
  case (Inl f)
  obtain rst out where res: "res = (rst, out)" by (cases res)
  have "rp_loop R timeout e = (lid, st, (REPLICANT_SUCCESS, out), e')"
    and "unpack_config E (case out of None \<Rightarrow> [] | Some bs \<Rightarrow> bs) = Inl f"
    using callback_ok [OF assms(1,2), where R = R and E = E and st = st2 and res = res] assms(3) Inl unfolding res by auto
  then have "answer_faults R E f" using assms(4) unfolding answer_faults_def by blast
  then show ?thesis using Inl by simp
next
  case (Inr x)
  then show ?thesis using callback_ok [OF assms(1,2), where R = R and E = E and st = st2 and res = res] by simp
qed

lemma ensure_round_ok:
  assumes ok: "link_ok l"
  shows "case ensure_round R E st l of
       Inl f \<Rightarrow> answer_faults R E f
     | Inr (Again (_, st', l')) \<Rightarrow> link_step E False l l'
     | Inr (Leave (b, st', l')) \<Rightarrow>
         link_step E False l l' \<and> (b \<longrightarrow> c_version (lk_config l) \<noteq> 0) \<or> b \<and> link_step E True l l'"
proof -
  obtain p st1 l1 where p: "prime_state_machine R st l = Inr (p, st1, l1)" "link_ok l1" "lk_config l1 = lk_config l"
    "p \<longrightarrow> 0 \<le> lk_id l1 \<and> lk_state l1 \<noteq> NOTHING" using prime_ok [OF ok, of R st] by blast
  show ?thesis
  proof (cases p)
    case True
    let ?timeout = "if lk_state l1 = WAITING_ON_BROADCAST then 0 else -1 :: int"
    obtain lid st2 rst out e where lp: "rp_loop R ?timeout (lk_repl l1) = (lid, st2, (rst, out), e)"
      by (metis prod.collapse)
    have l1: "link_ok (l1\<lparr>lk_repl := e\<rparr>)" "lk_state (l1\<lparr>lk_repl := e\<rparr>) \<noteq> NOTHING" "0 \<le> lk_id l1" using p True by simp_all
    note cb = completed_ok [OF l1(1,2) lp, where E = E and ?st2.0 = st2]
    have s: "link_step E new (l1\<lparr>lk_repl := e\<rparr>) l3 \<longleftrightarrow> link_step E new l l3" for new l3
      using p(3) by (simp add: link_step_def)
    have idle: "link_step E False l (l1\<lparr>lk_repl := e\<rparr>)" "link_step E False l (l1\<lparr>lk_repl := e, lk_pending_ids := q\<rparr>)" for q
      using p by (simp_all add: link_step_def)
    have v: "?timeout = 0 \<Longrightarrow> c_version (lk_config l) \<noteq> 0" using p(2,3) by (auto split: if_splits)
    consider "lid < 0" "st2 = REPLICANT_TIMEOUT \<and> ?timeout \<ge> 0" | "lid < 0" "\<not> (st2 = REPLICANT_TIMEOUT \<and> ?timeout \<ge> 0)"
      | "lid = lk_id l1" "0 \<le> lid" | "lid \<noteq> lk_id l1" "0 \<le> lid" by linarith
    then show ?thesis
    proof cases
      case 1
      then show ?thesis using p True lp idle v by (simp add: ensure_round_def split: if_splits)
    next
      case 2
      then show ?thesis using p True lp idle by (simp add: ensure_round_def split: if_splits)
    next
      case 3
      then show ?thesis using p True lp cb s by (auto simp: ensure_round_def split: sum.splits)
    next
      case 4
      then show ?thesis using p True lp idle by (simp add: ensure_round_def)
    qed
  next
    case False
    then show ?thesis using p by (simp add: ensure_round_def link_step_def)
  qed
qed

lemma link_step_trans: "link_step E False l l1 \<Longrightarrow> link_step E b l1 l2 \<Longrightarrow> link_step E b l l2"
  by (auto simp: link_step_def split: if_splits)

lemma ensure_configuration_ok:
  assumes run: "ensure_configuration R E st l = Some r" and "link_ok l"
  shows "case r of
       Inl f \<Rightarrow> answer_faults R E f
     | Inr (b, st', l') \<Rightarrow> link_step E False l l' \<and> (b \<longrightarrow> c_version (lk_config l) \<noteq> 0) \<or> b \<and> link_step E True l l'"
  using assms(2)
proof (induction rule: ensure_configuration.raw_induct [OF _ run, case_names 1])
  case (1 ensure R E st l r)
  note s = ensure_round_ok [OF 1(3), where R = R and E = E and st = st]
  show ?case
  proof (cases "ensure_round R E st l")
    case (Inl f)
    then show ?thesis using s 1(2) by auto
  next
    case x: (Inr x)
    show ?thesis
    proof (cases x)
      case (Again y)
      obtain b st1 l1 where y: "y = (b, st1, l1)" by (cases y)
      then have s1: "link_step E False l l1" and run1: "ensure R E st1 l1 = Some r" using s x Again 1(2) by simp_all
      then have "link_ok l1" "lk_config l1 = lk_config l" by (simp_all add: link_step_def)
      with 1(1) [OF run1] s1 show ?thesis by (cases r) (auto dest: link_step_trans)
    next
      case (Leave y)
      then show ?thesis using s x 1(2) by (cases y) auto
    qed
  qed
qed

section \<open>Properties\<close>

lemma link_fetches:
  assumes ok: "link_ok l" and send: "rp_send R ''config_get'' [] REPLICANT_SUCCESS (lk_repl l) = (i, st1, e)" "0 \<le> i"
    and answer: "rp_loop R (-1) e = (i, st2, (REPLICANT_SUCCESS, Some bs), e')"
    and decodes: "unpack_config E bs = Inr (Some (c, rest))"
    and wait: "rp_loop R 0 (lk_repl l) = (lid, REPLICANT_TIMEOUT, res, e2)" "lid < 0"
  shows "(lk_state l = NOTHING \<and> lk_config l = config_new \<longrightarrow>
      (\<exists>st' l'. ensure_configuration R E st l = Some (Inr (True, st', l')) \<and> lk_config l' = c)) \<and>
    (lk_state l = WAITING_ON_BROADCAST \<longrightarrow>
      ensure_configuration R E st l = Some (Inr (True, REPLICANT_TIMEOUT, l\<lparr>lk_repl := e2\<rparr>)))"
proof (intro conjI impI)
  assume a: "lk_state l = NOTHING \<and> lk_config l = config_new"
  then show "\<exists>st' l'. ensure_configuration R E st l = Some (Inr (True, st', l')) \<and> lk_config l' = c"
    using ok send answer decodes
    by (subst ensure_configuration.simps)
      (simp add: ensure_round_def prime_state_machine_def begin_fetching_config_def handle_internal_callback_def
        store_result_def config_new_def Let_def link_reset_def)
next
  assume "lk_state l = WAITING_ON_BROADCAST"
  then show "ensure_configuration R E st l = Some (Inr (True, REPLICANT_TIMEOUT, l\<lparr>lk_repl := e2\<rparr>))"
    using ok wait by (subst ensure_configuration.simps) (simp add: ensure_round_def prime_state_machine_def Let_def)
qed

text \<open>C23: whatever the library answers, bringing the link up to date never fails an assertion of the link and
  never reaches \<open>abort\<close>; it keeps the state machine consistent and stays with its cluster. When it
  reports an error the configuration is the old one; when it reports success there is a
  configuration to use: the old one, which was not the empty one, or one the coordinator sent. The only way it can
  fail is in decoding: the library completed the fetch with success and its bytes are one of the three kinds on which
  reading a configuration fails (C29), and then with that failure.\<close>

theorem link_follows:
  assumes run: "ensure_configuration R E st l = Some r" and ok: "link_ok l"
  shows "case r of
      Inl f \<Rightarrow> answer_faults R E f
    | Inr (b, st', l') \<Rightarrow> link_ok l' \<and>
        (c_cluster (lk_config l) \<noteq> 0 \<longrightarrow> c_cluster (lk_config l') = c_cluster (lk_config l)) \<and>
        (if b then lk_config l' = lk_config l \<and> c_version (lk_config l) \<noteq> 0 \<or> sent_config E (lk_config l')
         else lk_config l' = lk_config l)"
  using ensure_configuration_ok [OF run ok] by (cases r) (auto simp: link_step_def)

text \<open>A link without a configuration asks for it and waits for the answer; it then has exactly
  the configuration the answer encodes. A link that has one and nothing new to read returns at once
  without a change.\<close>

theorem link_adopts:
  assumes ok: "link_ok l" and send: "rp_send R ''config_get'' [] REPLICANT_SUCCESS (lk_repl l) = (i, st1, e)" "0 \<le> i"
    and answer: "rp_loop R (-1) e = (i, st2, (REPLICANT_SUCCESS, Some bs), e')"
    and decodes: "unpack_config E bs = Inr (Some (c, rest))"
    and wait: "rp_loop R 0 (lk_repl l) = (lid, REPLICANT_TIMEOUT, res, e2)" "lid < 0"
  shows "(lk_state l = NOTHING \<and> lk_config l = config_new \<longrightarrow>
      (\<exists>st' l'. ensure_configuration R E st l = Some (Inr (True, st', l')) \<and> lk_config l' = c)) \<and>
    (lk_state l = WAITING_ON_BROADCAST \<longrightarrow>
      ensure_configuration R E st l = Some (Inr (True, REPLICANT_TIMEOUT, l\<lparr>lk_repl := e2\<rparr>)))"
  by (rule link_fetches [OF assms])

text \<open>A library over one coordinator.\<close>

definition demo_replicant :: "unit replicant_ops" where
  "demo_replicant = \<lparr>rp_send = (\<lambda>_ _ _ e. (7, REPLICANT_SUCCESS, e)), rp_wait = (\<lambda>_ _ _ e. (8, REPLICANT_SUCCESS, e)),
     rp_loop = (\<lambda>timeout e. if timeout \<noteq> 0
       then (7, REPLICANT_SUCCESS, (REPLICANT_SUCCESS, Some (packed_config be_codec demo_coordinator)), e)
       else (-1, REPLICANT_TIMEOUT, (REPLICANT_GARBAGE, None), e)), rp_kill = (\<lambda>_ e. e)\<rparr>"

definition demo_published :: configuration where
  "demo_published = \<lparr>c_cluster = 5, c_version = 1, c_flags = 0, c_servers = [server_new 7]\<rparr>"

lemma demo_published_decodes: "unpack_config be_codec (packed_config be_codec demo_coordinator) = Inr (Some (demo_published, []))"
proof -
  have "list_all server_wf (m_servers demo_coordinator)" "length (m_servers demo_coordinator) < u64_bound"
    "length (m_servers demo_coordinator) \<le> max_reserve be_codec"
    "m_cluster demo_coordinator < u64_bound" "m_version demo_coordinator < u64_bound" "unat (m_flags demo_coordinator) < u64_bound"
    by (simp_all add: demo_coordinator_def coordinator_new_def server_wf_def server_new_def loc_wf_def loc_default_def)
  from be.unpack_config_pack [OF coord_inv_sorted [OF demo_inv] this, of "[]"] show ?thesis
    by (simp add: packed_config_def pack_servers_def demo_published_def demo_coordinator_def coordinator_new_def)
qed

theorem link_adopts_witness:
  "\<exists>st' l'. ensure_configuration demo_replicant be_codec REPLICANT_GARBAGE (link_new ()) = Some (Inr (True, st', l')) \<and>
     lk_config l' = demo_published"
  using link_adopts [OF link_ok_new, of demo_replicant "()" 7 REPLICANT_SUCCESS "()" REPLICANT_SUCCESS
      "packed_config be_codec demo_coordinator" "()" be_codec demo_published "[]" "-1" "(REPLICANT_GARBAGE, None)" "()"]
    demo_published_decodes by (simp add: demo_replicant_def link_new_def)

theorem link_follows_witness:
  "\<exists>b st' l'. ensure_configuration demo_replicant be_codec REPLICANT_GARBAGE (link_new ()) = Some (Inr (b, st', l')) \<and>
     link_ok l' \<and> sent_config be_codec (lk_config l')"
proof -
  obtain st' l' where run: "ensure_configuration demo_replicant be_codec REPLICANT_GARBAGE (link_new ()) = Some (Inr (True, st', l'))"
    using link_fetches [OF link_ok_new, of demo_replicant "()" 7 REPLICANT_SUCCESS "()" REPLICANT_SUCCESS
        "packed_config be_codec demo_coordinator" "()" be_codec demo_published "[]" "-1" "(REPLICANT_GARBAGE, None)" "()"
        REPLICANT_GARBAGE] demo_published_decodes unfolding demo_replicant_def link_new_def by auto
  from link_follows [OF run link_ok_new] run show ?thesis by (auto simp: link_new_def config_new_def)
qed

end
