(* ===== verification/ClientMessages.thy ===== *)
theory ClientMessages
  imports Block
begin

text \<open>
  The messages clients send to daemons: the header \<open>client::send\<close> writes
  (\<open>client/client.cc\<close>) and the payloads of \<open>pending_write::send_data\<close>,
  \<open>pending_truncate::send_data\<close> and the request of \<open>pending_read\<close>; and what
  \<open>pending_write\<close> and \<open>pending_truncate\<close> read from the answers.
\<close>

definition client_header :: "e_codec \<Rightarrow> wtf_network_msgtype \<Rightarrow> u64 \<Rightarrow> byte list" where
  "client_header E mt nonce = pk8 E (msgtype_code mt) @ pk64 E nonce"

definition write_payload :: "e_codec \<Rightarrow> u64 \<Rightarrow> block_location list \<Rightarrow> u64 \<Rightarrow> byte list \<Rightarrow> byte list" where
  "write_payload E token bls file_offset data =
     pk64 E token @ pk32 E (length bls mod 4294967296) @ pack_bls E bls @ pk64 E file_offset @ data"

definition truncate_payload :: "e_codec \<Rightarrow> u64 \<Rightarrow> block_location list \<Rightarrow> u64 \<Rightarrow> nat \<Rightarrow> byte list" where
  "truncate_payload E token bls file_offset len =
     pk64 E token @ pk32 E (length bls mod 4294967296) @ pack_bls E bls @ pk64 E file_offset @ pk32 E len"

definition get_payload :: "e_codec \<Rightarrow> u64 \<Rightarrow> nat \<Rightarrow> byte list" where
  "get_payload E bid block_length = pk64 E bid @ pk32 E block_length"

text \<open>What follows the type and the nonce of an answer.\<close>

definition unpack_update_reply :: "e_codec \<Rightarrow> (response_returncode option \<times> u64 \<times> u64 \<times> u64) reader" where
  "unpack_update_reply E bs =
     do {
       (rc, bs) \<leftarrow> unpack_response E bs;
       (bi, bs) \<leftarrow> up64 E bs;
       (file_offset, bs) \<leftarrow> up64 E bs;
       (block_length, bs) \<leftarrow> up64 E bs;
       Some ((rc, bi, file_offset, block_length), bs)
     }"

definition unpack_truncate_reply :: "e_codec \<Rightarrow> (response_returncode option \<times> u64 \<times> nat \<times> u64 \<times> nat) reader" where
  "unpack_truncate_reply E bs =
     do {
       (rc, bs) \<leftarrow> unpack_response E bs;
       (bi, bs) \<leftarrow> up64 E bs;
       (block_capacity, bs) \<leftarrow> up32 E bs;
       (file_offset, bs) \<leftarrow> up64 E bs;
       (block_length, bs) \<leftarrow> up32 E bs;
       Some ((rc, bi, block_capacity, file_offset, block_length), bs)
     }"

context e_buffer
begin

lemma unpack_client_header:
  "nonce < u64_bound \<Longrightarrow> unpack_msgtype E (client_header E mt nonce @ r) = Some (Some mt, pk64 E nonce @ r)"
  using unpack_pack_msgtype [of mt "pk64 E nonce @ r"] by (simp add: client_header_def pack_msgtype_def)

end

end
