(* ===== verification/DaemonProps.thy ===== *)
theory DaemonProps
  imports Daemon ClientMessages BlockmapProps "HOL-Library.Multiset"
begin

text \<open>
  The daemon against its clients: what it makes of a write message, as the first of the replicas
  and as one of the others, what a read of a stored block is answered, and the truncate message,
  which it cannot decode.
\<close>

section \<open>Decoding requests\<close>

context e_buffer
begin

lemma unpack_write_payload:
  assumes "token < u64_bound" and "length bls < 2 ^ 32" and "list_all bl_wf bls" and "file_offset < u64_bound"
  shows "unpack_update E (write_payload E token bls file_offset data) = Some ((token, bls, file_offset), data)"
  using assms by (simp add: unpack_update_def write_payload_def up64_pk64 up32_pk32 unpack_pack_bls)

lemma handle_update:
  assumes "nonce < u64_bound"
  shows "handle_message K E conn (client_header E REQ_UPDATE nonce @ payload) d =
    process_update K E nonce (client_header E REQ_UPDATE nonce @ payload) (Some payload) d"
  unfolding handle_message_def using assms by (simp add: unpack_client_header up_from_def up64_pk64)

lemma handle_get:
  assumes "nonce < u64_bound"
  shows "handle_message K E conn (client_header E REQ_GET nonce @ payload) d =
    process_get K E conn nonce (Some payload) d"
  unfolding handle_message_def using assms by (simp add: unpack_client_header up_from_def up64_pk64)

lemma handle_truncate:
  assumes "nonce < u64_bound"
  shows "handle_message K E conn (client_header E REQ_TRUNCATE nonce @ payload) d =
    process_truncate K E nonce (client_header E REQ_TRUNCATE nonce @ payload) (Some payload) d"
  unfolding handle_message_def using assms by (simp add: unpack_client_header up_from_def up64_pk64)

text \<open>A message without a byte behind the header of BusyBee has no type: the daemon branches on a variable never set.\<close>

lemma empty_message_undefined: "handle_message K E conn [] d = Inl Undefined"
proof -
  have "up8 E [] = None" using int_codec.up_short [OF codec8, of "[]"] by simp
  then show ?thesis by (simp add: handle_message_def unpack_msgtype_def)
qed

end

section \<open>One write\<close>

definition daemon_map :: "'db daemon \<Rightarrow> 'db blockmap" where
  "daemon_map d = bsm_blockmap (dm_blockman d)"

text \<open>Room for one more block.\<close>

definition daemon_ready :: "'db kv_ops \<Rightarrow> nat \<Rightarrow> 'db daemon \<Rightarrow> bool" where
  "daemon_ready K n d \<longleftrightarrow> bm_ok K (daemon_map d) \<and> d_log_offset (bm_disk (daemon_map d)) + n < u64_bound \<and>
     bm_block_id (daemon_map d) + 1 < u64_bound"

text \<open>All locations of a new block lack a block number.\<close>

definition fresh_locations :: "block_location list \<Rightarrow> bool" where
  "fresh_locations bls \<longleftrightarrow> list_all (\<lambda>b. bl_si b < u64_bound \<and> bl_bi b = u64_max) bls"

lemma own_block_fresh: "fresh_locations bls \<Longrightarrow> own_block us bls = u64_max"
proof -
  have "foldl (\<lambda>bid bl. if bl_si bl = us then bl_bi bl else bid) u64_max bls = u64_max"
    if "list_all (\<lambda>b. bl_si b < u64_bound \<and> bl_bi b = u64_max) bls"
    using that by (induction bls) simp_all
  then show "fresh_locations bls \<Longrightarrow> own_block us bls = u64_max" by (simp add: own_block_def fresh_locations_def)
qed

lemma fresh_wf: "fresh_locations bls \<Longrightarrow> list_all bl_wf bls"
  by (auto simp: fresh_locations_def list_all_iff bl_wf_def u64_max_def)

definition update_reply ::
  "e_codec \<Rightarrow> u64 \<Rightarrow> response_returncode \<Rightarrow> u64 \<Rightarrow> u64 \<Rightarrow> u64 \<Rightarrow> byte list" where
  "update_reply E nonce rc bid file_offset block_len =
     pack_msgtype E RESP_UPDATE @ pk64 E nonce @ pack_response E rc @ pk64 E bid @ pk64 E file_offset @ pk64 E block_len"

text \<open>The log and the block numbers after a write of \<open>n\<close> bytes: blocks that were there stay as they were.\<close>

definition takes_block :: "'db kv_ops \<Rightarrow> nat \<Rightarrow> 'db blockmap \<Rightarrow> 'db blockmap \<Rightarrow> bool" where
  "takes_block K n bm bm' \<longleftrightarrow> bm_grows K bm bm' \<and> d_log_offset (bm_disk bm') = d_log_offset (bm_disk bm) + n \<and>
     bm_block_id bm' \<le> bm_block_id bm + 1"

lemma bm_write_takes_block:
  assumes K: "kv_store K" and ok: "bm_ok K bm" and off: "d_log_offset (bm_disk bm) + length data < u64_bound"
    and next_id: "bm_block_id bm + 1 < u64_bound" and w: "bm_write K E data bid bm = Inr (st, bid', bm')"
  shows "takes_block K (length data) bm bm'"
proof -
  have dk: "disk_wf (bm_disk bm)" using ok by (simp add: bm_ok_def)
  have "d_log_offset (bm_disk bm') = d_log_offset (bm_disk bm) + length data \<and> bm_block_id bm' \<le> bm_block_id bm + 1"
    using w
  proof (cases rule: bm_write_cases)
    case (full o0 dk')
    then show ?thesis using disk_write_facts(4) [OF dk off] by simp
  next
    case (commit st0 o0 dk' vb st1)
    then show ?thesis
      using disk_write_facts(4) [OF dk off commit(1)] kv_store.write_offset_map_cases [OF K commit(4)] next_id
      by (auto simp: u64_simps)
  qed
  then show ?thesis using kv_store.bm_write_grows [OF K ok off next_id w] by (simp add: takes_block_def)
qed

text \<open>
  What a daemon does with a write: it stores the data in a new block and answers with the number
  and the length; or, when the log is full or the database refuses the map, it stores nothing and
  answers with success and the length \<open>2^64 - 1\<close>.
\<close>

definition write_done ::
  "'db kv_ops \<Rightarrow> e_codec \<Rightarrow> byte list \<Rightarrow> u64 \<Rightarrow> u64 \<Rightarrow> 'db daemon \<Rightarrow> 'db daemon \<Rightarrow> byte list \<Rightarrow> bool" where
  "write_done K E data nonce file_offset d d' reply \<longleftrightarrow>
     dm_us d' = dm_us d \<and> bm_ok K (daemon_map d') \<and> takes_block K (length data) (daemon_map d) (daemon_map d') \<and>
     ((\<exists>bid m. stored K E (daemon_map d') bid m \<and> block_bytes K E (daemon_map d') bid = Some data \<and>
         bid = bm_block_id (daemon_map d) \<and> reply = update_reply E nonce RESPONSE_SUCCESS bid file_offset (length data)) \<or>
      (\<exists>bid. kv_get K (bm_db (daemon_map d')) = kv_get K (bm_db (daemon_map d)) \<and>
         (length (d_log (bm_disk (daemon_map d))) < d_log_offset (bm_disk (daemon_map d)) + length data \<or>
          (\<exists>k v. kv_put K (bm_db (daemon_map d)) k v = None)) \<and>
         reply = update_reply E nonce RESPONSE_SUCCESS bid file_offset u64_max))"

lemma process_update_done:
  assumes K: "kv_store K" and E: "e_buffer E"
    and tok: "token < u64_bound" and n: "length bls < 2 ^ 32" "bls \<noteq> []" and fresh: "fresh_locations bls"
    and fo: "file_offset < u64_bound" and data: "0 < length data" "length data < u64_max"
    and ready: "daemon_ready K (length data) d"
  shows "\<exists>d' reply. process_update K E nonce msg (Some (write_payload E token bls file_offset data)) d =
      Inr (d', (if bl_si (hd bls) = dm_us d then forward_message (tl bls) msg else []) @ [(token, reply)]) \<and>
    write_done K E data (reply_nonce (dm_us d) nonce bls) file_offset d d' reply"
proof -
  obtain b rest where bls: "bls = b # rest" using n(2) by (cases bls) auto
  let ?bm = "bsm_blockmap (dm_blockman d)"
  have r: "bm_ok K ?bm" "d_log_offset (bm_disk ?bm) + length data < u64_bound" "bm_block_id ?bm + 1 < u64_bound"
    using ready by (simp_all add: daemon_ready_def daemon_map_def)
  from bm_write_stores [OF K E r(1) data(1) r(2,3), of u64_max] obtain st bid bm'
    where w: "bm_write K E data u64_max ?bm = Inr (st, bid, bm')" and ok: "bm_ok K bm'"
      and c: "if st < 0 then st = -1 \<and> kv_get K (bm_db bm') = kv_get K (bm_db ?bm) \<and>
          (length (d_log (bm_disk ?bm)) < d_log_offset (bm_disk ?bm) + length data \<or> (\<exists>k v. kv_put K (bm_db ?bm) k v = None))
        else st = int (length data) \<and> bid = bm_block_id ?bm \<and> (\<exists>m. stored K E bm' bid m) \<and>
          block_bytes K E bm' bid = Some data" by blast
  have tk: "takes_block K (length data) ?bm bm'" by (rule bm_write_takes_block [OF K r w])
  let ?d' = "d\<lparr>dm_blockman := (dm_blockman d)\<lparr>bsm_blockmap := bm'\<rparr>\<rparr>"
  have up: "up_from (unpack_update E) (Some (write_payload E token bls file_offset data)) =
      Some ((token, bls, file_offset), data)"
    using e_buffer.unpack_write_payload [OF E tok n(1) fresh_wf [OF fresh] fo] by (simp add: up_from_def)
  have rc: "\<not> u64_of_int st < length data"
  proof (cases "st < 0")
    case True
    then have "u64_of_int st = u64_max" using c by (simp add: u64_of_int_def u64_max_def)
    then show ?thesis using data(2) by simp
  next
    case False
    then show ?thesis using c data(2) by (simp add: u64_of_int_def u64_max_def)
  qed
  let ?reply = "update_reply E (reply_nonce (dm_us d) nonce bls) RESPONSE_SUCCESS bid file_offset (u64_of_int st)"
  have "process_update K E nonce msg (Some (write_payload E token bls file_offset data)) d =
      Inr (?d', (if bl_si (hd bls) = dm_us d then forward_message (tl bls) msg else []) @ [(token, ?reply)])"
    using up own_block_fresh [OF fresh, of "dm_us d"] w rc bls
    by (simp add: process_update_def write_block_def forward_if_first_def update_reply_def)
  moreover have "write_done K E data (reply_nonce (dm_us d) nonce bls) file_offset d ?d' ?reply"
  proof (cases "st < 0")
    case True
    then have "u64_of_int st = u64_max" using c by (simp add: u64_of_int_def u64_max_def)
    then show ?thesis using True c ok tk by (auto simp: write_done_def daemon_map_def)
  next
    case False
    then have "u64_of_int st = length data" using c data(2) by (simp add: u64_of_int_def u64_max_def)
    then show ?thesis using False c ok tk by (auto simp: write_done_def daemon_map_def)
  qed
  ultimately show ?thesis by blast
qed

section \<open>Examples\<close>

definition demo_daemon :: "server_id \<Rightarrow> (u64 \<Rightarrow> byte list option) daemon" where
  "demo_daemon us = \<lparr>dm_us = us, dm_blockman = bsm_setup us demo_store, dm_config = config_new\<rparr>"

definition demo_locations :: "block_location list" where
  "demo_locations = [\<lparr>bl_si = 5, bl_bi = u64_max\<rparr>, \<lparr>bl_si = 3, bl_bi = u64_max\<rparr>]"

lemma demo_daemon_ready: "daemon_ready map_kv 3 (demo_daemon us)"
  using demo_store_ok by (simp add: daemon_ready_def daemon_map_def demo_daemon_def bsm_setup_def
    demo_store_def blockmap_new_def disk_new_def u64_max_def)

lemma demo_write_stores:
  assumes "write_done map_kv be_codec [1, 2, 3] nonce file_offset (demo_daemon us) d' reply"
  shows "block_bytes map_kv be_codec (daemon_map d') 0 = Some [1, 2, 3]"
  using assms by (auto simp: write_done_def map_kv_def daemon_map_def demo_daemon_def bsm_setup_def
    demo_store_def blockmap_new_def disk_new_def)

section \<open>Reading what was written\<close>

context e_buffer
begin

lemma up32_None_iff: "up32 E bs = None \<longleftrightarrow> length bs < 4"
  using int_codec.up_Some_iff [OF codec32, of bs] by (cases "up32 E bs") auto

lemma up32_rest: "up32 E bs = Some (x, r) \<Longrightarrow> r = drop 4 bs \<and> 4 \<le> length bs"
  using int_codec.up_rest [OF codec32] by fastforce

lemma unpack_get_payload:
  "bid < u64_bound \<Longrightarrow> len < 2 ^ 32 \<Longrightarrow>
     up64 E (get_payload E bid len) = Some (bid, pk32 E len) \<and> up32 E (pk32 E len) = Some (len, [])"
  using up64_pk64 [of bid "pk32 E len"] up32_pk32 [of len "[]"] by (simp add: get_payload_def)

text \<open>The daemon reads one 32-bit number more than the client wrote.\<close>

lemma unpack_truncate_short:
  assumes "token < u64_bound" and "length bls < 2 ^ 32" and "list_all bl_wf bls"
  shows "unpack_truncate E (truncate_payload E token bls file_offset len) = None"
proof -
  have "up32 E (drop 8 (drop 4 (pk64 E file_offset @ pk32 E len))) = None"
    by (simp add: up32_None_iff pk_lengths)
  then show ?thesis
    using assms up32_rest [of "pk64 E file_offset @ pk32 E len"] up64_rest [of "drop 4 (pk64 E file_offset @ pk32 E len)"]
    by (auto simp: unpack_truncate_def truncate_payload_def up64_pk64 up32_pk32 unpack_pack_bls
      split: Option.bind_splits)
qed

end

text \<open>C30: a request for the first bytes of a stored block is answered with exactly these bytes; a
  number that was never stored with an error and no data; the daemon does not change.\<close>

theorem daemon_get_block:
  assumes E: "e_buffer E" and "nonce < u64_bound" and bid: "bid < u64_bound" and len: "0 < len" "len < 2 ^ 32"
  shows "(\<forall>m bs. stored K E (daemon_map d) bid m \<and> block_bytes K E (daemon_map d) bid = Some bs \<and> len \<le> length bs \<longrightarrow>
       handle_message K E conn (client_header E REQ_GET nonce @ get_payload E bid len) d =
         Inr (d, [(conn, pack_msgtype E RESP_GET @ pk64 E nonce @ pack_response E RESPONSE_SUCCESS @ pk64 E bid @ take len bs)])) \<and>
    (kv_get K (bm_db (daemon_map d)) bid = None \<longrightarrow>
       handle_message K E conn (client_header E REQ_GET nonce @ get_payload E bid len) d =
         Inr (d, [(conn, pack_msgtype E RESP_GET @ pk64 E nonce @ pack_response E RESPONSE_SERVER_ERROR @ pk64 E bid)]))"
proof -
  have "len < u64_bound" using len(2) by simp
  note rd = bm_read_bytes [OF len(1) this, of K E "daemon_map d" bid]
  have h: "handle_message K E conn (client_header E REQ_GET nonce @ get_payload E bid len) d =
      process_get K E conn nonce (Some (get_payload E bid len)) d"
    by (rule e_buffer.handle_get [OF E assms(2)])
  show ?thesis unfolding h
    using rd e_buffer.unpack_get_payload [OF E bid len(2)]
    by (auto simp: process_get_def up_from_def read_block_def daemon_map_def)
qed

theorem daemon_get_block_witness:
  "handle_message map_kv be_codec 9 (client_header be_codec REQ_GET 7 @ get_payload be_codec 0 3)
       (demo_daemon 5\<lparr>dm_blockman := bsm_setup 5 demo_one\<rparr>) =
     Inr (demo_daemon 5\<lparr>dm_blockman := bsm_setup 5 demo_one\<rparr>,
       [(9, pack_msgtype be_codec RESP_GET @ pk64 be_codec 7 @ pack_response be_codec RESPONSE_SUCCESS @
            pk64 be_codec 0 @ [10, 11, 12])])"
proof -
  have m: "daemon_map (demo_daemon 5\<lparr>dm_blockman := bsm_setup 5 demo_one\<rparr>) = demo_one"
    by (simp add: daemon_map_def bsm_setup_def)
  have "(7::nat) < u64_bound" "(0::nat) < u64_bound" "(0::nat) < 3" "(3::nat) < 2 ^ 32" by simp_all
  from conjunct1 [OF daemon_get_block [OF be.e_buffer_axioms this, of map_kv
    "demo_daemon 5\<lparr>dm_blockman := bsm_setup 5 demo_one\<rparr>" 9, unfolded m]] demo_one_stored(1,2)
  show ?thesis by auto
qed

section \<open>Truncation\<close>

text \<open>No daemon can handle the truncate message that clients send: the sender leaves out the
  block capacity which the receiver unpacks, so the length of the block is never set.\<close>

theorem client_truncate_undefined:
  assumes E: "e_buffer E" and "nonce < u64_bound" and "token < u64_bound" and "length bls < 2 ^ 32"
    and "list_all bl_wf bls"
  shows "handle_message K E conn (client_header E REQ_TRUNCATE nonce @ truncate_payload E token bls file_offset len) d =
    Inl Undefined"
  unfolding e_buffer.handle_truncate [OF E assms(2)] process_truncate_def
  using e_buffer.unpack_truncate_short [OF E assms(3-5)] by (simp add: up_from_def)

theorem client_truncate_undefined_witness:
  "handle_message map_kv be_codec 9 (client_header be_codec REQ_TRUNCATE 7 @ truncate_payload be_codec 9 demo_locations 64 2)
     (demo_daemon 5) = Inl Undefined"
  by (rule client_truncate_undefined [OF be.e_buffer_axioms])
    (simp_all add: demo_locations_def bl_wf_def u64_max_def)

end
