(* ===== verification/LinkWrapperProps.thy ===== *)
theory LinkWrapperProps
  imports LinkWrapper CoordinatorLinkProps DaemonProps
begin

text \<open>
  The daemon's side of the protocol with the coordinator: rounds of \<open>daemon::run\<close> keep the link and
  the acknowledgements consistent with the configuration the daemon has; and the case in which an
  acknowledgement is lost.
\<close>

section \<open>The link's loop\<close>

lemma link_round_ok:
  assumes ok: "link_ok l"
  shows "case link_round R E timeout st l of
      Inl f \<Rightarrow> answer_faults R E f
    | Inr (Again (_, _, st', l')) \<Rightarrow> link_step E False l l'
    | Inr (Leave (i, _, st', l')) \<Rightarrow> \<exists>b. link_step E b l l'"
proof -
  obtain p st1 l1 where p: "prime_state_machine R st l = Inr (p, st1, l1)" "link_ok l1" "lk_config l1 = lk_config l"
    "p \<longrightarrow> 0 \<le> lk_id l1 \<and> lk_state l1 \<noteq> NOTHING" using prime_ok [OF ok, of R st] by blast
  obtain lid st2 rst out e where lp: "rp_loop R timeout (lk_repl l1) = (lid, st2, (rst, out), e)" by (metis prod.collapse)
  have idle: "link_step E False l (l1\<lparr>lk_repl := e\<rparr>)" "link_step E False l l1" using p by (simp_all add: link_step_def)
  show ?thesis
  proof (cases "p \<and> lid = lk_id l1")
    case True
    then have l1: "link_ok (l1\<lparr>lk_repl := e\<rparr>)" "lk_state (l1\<lparr>lk_repl := e\<rparr>) \<noteq> NOTHING" "0 \<le> lid" using p by simp_all
    note cb = completed_ok [OF l1(1,2) lp l1(3), where E = E and ?st2.0 = st2]
    have "link_step E new (l1\<lparr>lk_repl := e\<rparr>) l3 \<longleftrightarrow> link_step E new l l3" for new l3
      using p(3) by (simp add: link_step_def)
    then show ?thesis using p True lp cb by (auto simp: link_round_def split: sum.splits)
  next
    case False
    then show ?thesis using p lp idle by (cases p) (auto simp: link_round_def)
  qed
qed

lemma link_wait_ok:
  assumes run: "link_wait R E timeout st l = Some r" and "link_ok l"
  shows "case r of Inl f \<Rightarrow> answer_faults R E f | Inr (i, res, st', l') \<Rightarrow> \<exists>b. link_step E b l l'"
  using assms(2)
proof (induction rule: link_wait.raw_induct [OF _ run, case_names 1])
  case (1 wait R E timeout st l r)
  note s = link_round_ok [OF 1(3), where R = R and E = E and timeout = timeout and st = st]
  show ?case
  proof (cases "link_round R E timeout st l")
    case (Inl f)
    then show ?thesis using s 1(2) by auto
  next
    case x: (Inr x)
    show ?thesis
    proof (cases x)
      case (Again y)
      obtain a b st1 l1 where y: "y = (a, b, st1, l1)" by (cases y)
      then have s1: "link_step E False l l1" and run1: "wait R E timeout st1 l1 = Some r" using s x Again 1(2) by simp_all
      then have "link_ok l1" by (simp add: link_step_def)
      with 1(1) [OF run1] s1 show ?thesis by (cases r) (auto dest: link_step_trans)
    next
      case (Leave y)
      then show ?thesis using s x 1(2) by (cases y) auto
    qed
  qed
qed

lemma link_loop_ok:
  assumes "link_loop R E timeout st l = Some r" and "link_ok l"
  shows "case r of Inl f \<Rightarrow> answer_faults R E f | Inr (i, res, st', l') \<Rightarrow> \<exists>b. link_step E b l l'"
proof (cases "lk_pending_ids l")
  case Nil
  then show ?thesis using link_wait_ok [OF _ assms(2)] assms(1) by (simp add: link_loop_def)
next
  case (Cons p q)
  then have "link_step E False l (l\<lparr>lk_pending_ids := q\<rparr>)" using assms(2) by (simp add: link_step_def)
  then show ?thesis using assms(1) Cons by (cases p) (auto simp: link_loop_def)
qed

section \<open>The wrapper\<close>

definition wrapper_ok :: "'e link_wrapper \<Rightarrow> bool" where
  "wrapper_ok w \<longleftrightarrow> link_ok (lw_coord w) \<and> 1000000 \<le> lw_sleep w \<and> lw_sleep w \<le> 1000000000"

text \<open>What calls and callbacks leave alone.\<close>

definition same_acks :: "'e link_wrapper \<Rightarrow> 'e link_wrapper \<Rightarrow> bool" where
  "same_acks w w' \<longleftrightarrow> lw_config_ack w' = lw_config_ack w \<and> lw_sleep w' = lw_sleep w \<and>
     lk_config (lw_coord w') = lk_config (lw_coord w) \<and> (link_ok (lw_coord w) \<longrightarrow> link_ok (lw_coord w'))"

lemma same_acks_refl [simp]: "same_acks w w"
  by (simp add: same_acks_def)

lemma same_acks_trans: "same_acks w w1 \<Longrightarrow> same_acks w1 w2 \<Longrightarrow> same_acks w w2"
  by (simp add: same_acks_def)

lemma ensure_same:
  "same_acks w (ensure_available R E us bind_to w)" "same_acks w (ensure_config_ack R E us w)"
  "same_acks w (ensure_config_stable R E us w)" "same_acks w (ensure_checkpoint R w)"
  "same_acks w (ensure_checkpoint_report_stable R E us w)" "same_acks w (ensure_checkpoint_stable R w)"
  "same_acks w (ensure_checkpoint_gc R w)"
  by (simp_all add: ensure_available_def ensure_config_ack_def ensure_config_stable_def ensure_checkpoint_def
      ensure_checkpoint_report_stable_def ensure_checkpoint_stable_def ensure_checkpoint_gc_def
      make_rpc_def link_rpc_def wait_cond_def link_wait_for_def same_acks_def Let_def split: prod.split)

lemma ensure_all_same: "same_acks w (ensure_all R E us bind_to w)"
  unfolding ensure_all_def by (intro same_acks_trans [OF _ ensure_same(1)] same_acks_trans [OF _ ensure_same(2)]
    same_acks_trans [OF _ ensure_same(3)] same_acks_trans [OF _ ensure_same(4)] same_acks_trans [OF _ ensure_same(5)]
    same_acks_trans [OF _ ensure_same(6)] same_acks_trans [OF _ ensure_same(7)] same_acks_refl)

text \<open>What a round of \<open>maintain_link\<close> may do to the acknowledged version and the link.\<close>

definition wrapper_step :: "e_codec \<Rightarrow> 'e link_wrapper \<Rightarrow> 'e link_wrapper \<Rightarrow> bool" where
  "wrapper_step E w w' \<longleftrightarrow> wrapper_ok w' \<and> lw_config_ack w' = lw_config_ack w \<and>
     (c_cluster (lk_config (lw_coord w)) \<noteq> 0 \<longrightarrow>
        c_cluster (lk_config (lw_coord w')) = c_cluster (lk_config (lw_coord w)))"

lemma wrapper_step_trans: "wrapper_step E w w1 \<Longrightarrow> wrapper_step E w1 w2 \<Longrightarrow> wrapper_step E w w2"
  by (auto simp: wrapper_step_def)

lemma sleep_facts:
  "1000000 \<le> lw_sleep w \<Longrightarrow> lw_sleep w \<le> 1000000000 \<Longrightarrow> 1000000 \<le> lw_sleep (do_sleep w) \<and> lw_sleep (do_sleep w) \<le> 1000000000"
  "lw_sleep (reset_sleep w) = 1000000"
  "lw_coord (do_sleep w) = lw_coord w" "lw_coord (reset_sleep w) = lw_coord w"
  "lw_config_ack (do_sleep w) = lw_config_ack w" "lw_config_ack (reset_sleep w) = lw_config_ack w"
  "lw_rpcs (reset_sleep w) = lw_rpcs w"
  by (simp_all add: do_sleep_def reset_sleep_def)

lemma callback_step:
  assumes "wrapper_ok w"
  shows "wrapper_step E w (snd (run_callback E rpc res w))"
  using assms sleep_facts [of w]
  by (cases rpc; cases res)
    (auto simp: run_callback_def rpc_callback_def wrapper_step_def wrapper_ok_def Let_def split: option.splits)

lemma maintain_step_step:
  assumes "wrapper_ok w"
  shows "case maintain_step E us i res st w of
      Again (_, w') \<Rightarrow> wrapper_step E w w'
    | Leave (b, w') \<Rightarrow> wrapper_step E w w' \<and> (b \<longrightarrow> config_exists us (lk_config (lw_coord w')))"
proof -
  have w: "wrapper_step E w (do_sleep w)" "wrapper_step E w (reset_sleep w)"
    using assms sleep_facts [of w] by (auto simp: wrapper_step_def wrapper_ok_def)
  have cb: "wrapper_step E w (snd (run_callback E rpc res (reset_sleep w\<lparr>lw_rpcs := q\<rparr>)))" for rpc q
  proof -
    have "wrapper_step E w (reset_sleep w\<lparr>lw_rpcs := q\<rparr>)" using w(2) by (simp add: wrapper_step_def wrapper_ok_def)
    then show ?thesis using callback_step wrapper_step_trans by (metis wrapper_step_def)
  qed
  show ?thesis using w cb by (auto simp: maintain_step_def Let_def split: option.splits prod.splits)
      (metis snd_conv)+
qed

lemma maintain_link_ok:
  assumes run: "maintain_link R E us bind_to w = Some r" and "wrapper_ok w"
  shows "case r of
      Inl f \<Rightarrow> answer_faults R E f
    | Inr (b, w') \<Rightarrow> wrapper_step E w w' \<and> (b \<longrightarrow> config_exists us (lk_config (lw_coord w')))"
  using assms(2)
proof (induction rule: maintain_link.raw_induct [OF _ run, case_names 1])
  case (1 maintain R E us bind_to w r)
  let ?w1 = "ensure_all R E us bind_to w"
  have w1: "wrapper_step E w ?w1" "link_ok (lw_coord ?w1)"
    using ensure_all_same [of w R E us bind_to] 1(3) by (auto simp: wrapper_step_def wrapper_ok_def same_acks_def)
  from 1(2) obtain lr where lr: "link_loop R E 1000 REPLICANT_GARBAGE (lw_coord ?w1) = Some lr"
    by (auto simp: Let_def split: option.splits)
  note s = link_loop_ok [OF lr w1(2)]
  show ?case
  proof (cases lr)
    case (Inl f)
    then show ?thesis using s 1(2) lr by (auto simp: Let_def)
  next
    case (Inr y)
    obtain i res st l where y: "y = (i, res, st, l)" by (cases y)
    let ?w2 = "?w1\<lparr>lw_coord := l\<rparr>"
    have w2: "wrapper_step E w ?w2" "wrapper_ok ?w2"
      using w1 s Inr y by (auto simp: wrapper_step_def wrapper_ok_def link_step_def split: if_splits)
    note st = maintain_step_step [OF w2(2), of E us i res st]
    show ?thesis
    proof (cases "maintain_step E us i res st ?w2")
      case (Again z)
      obtain a w3 where z: "z = (a, w3)" by (cases z)
      then have w3: "wrapper_step E w w3" using st Again wrapper_step_trans [OF w2(1)] by simp
      have run3: "maintain R E us bind_to w3 = Some r" using 1(2) lr Inr y Again z by (simp add: Let_def)
      have "wrapper_ok w3" using w3 by (simp add: wrapper_step_def)
      with 1(1) [OF run3] w3 show ?thesis by (cases r) (auto dest: wrapper_step_trans)
    next
      case (Leave z)
      then show ?thesis using st 1(2) lr Inr y wrapper_step_trans [OF w2(1)] by (cases z) (auto simp: Let_def)
    qed
  qed
qed

section \<open>Properties\<close>

lemma lw_ack_config_ok:
  assumes "wrapper_ok w"
  shows "wrapper_ok (lw_ack_config R E us v w)" "lw_config_ack (lw_ack_config R E us v w) = max v (lw_config_ack w)"
    "lk_config (lw_coord (lw_ack_config R E us v w)) = lk_config (lw_coord w)"
proof -
  let ?w = "w\<lparr>lw_need_config_ack := True, lw_config_ack := v, lw_config_ack_id := -1\<rparr>"
  have "same_acks ?w (ensure_config_ack R E us ?w)" by (rule ensure_same)
  then show "wrapper_ok (lw_ack_config R E us v w)" "lw_config_ack (lw_ack_config R E us v w) = max v (lw_config_ack w)"
    "lk_config (lw_coord (lw_ack_config R E us v w)) = lk_config (lw_coord w)"
    using assms by (auto simp: lw_ack_config_def same_acks_def wrapper_ok_def)
qed

lemma run_round_ok:
  assumes run: "run_round R E bind_to w d = Some r" and ok: "wrapper_ok w"
    and acked: "lw_config_ack w \<le> c_version (dm_config d)"
  shows "case r of
      Inl f \<Rightarrow> answer_faults R E f
    | Inr (jump, w', d') \<Rightarrow> wrapper_ok w' \<and> lw_config_ack w' \<le> c_version (dm_config d') \<and>
        c_version (dm_config d) \<le> c_version (dm_config d') \<and>
        (c_cluster (dm_config d) \<noteq> 0 \<longrightarrow> c_cluster (dm_config d') = c_cluster (dm_config d)) \<and>
        (dm_config d' = dm_config d \<or> dm_config d' = lk_config (lw_coord w') \<and> config_exists (dm_us d) (dm_config d')) \<and>
        dm_us d' = dm_us d \<and> dm_blockman d' = dm_blockman d"
proof -
  from run obtain mr where mr: "maintain_link R E (dm_us d) bind_to w = Some mr"
    by (auto simp: run_round_def run_bind_def split: option.splits)
  note s = maintain_link_ok [OF mr ok]
  show ?thesis
  proof (cases mr)
    case (Inl f)
    then show ?thesis using run mr s by (auto simp: run_round_def)
  next
    case (Inr y)
    obtain b w1 where m: "mr = Inr (b, w1)" using Inr by (cases y) simp
    have us: "b \<longrightarrow> config_exists (dm_us d) (lk_config (lw_coord w1))"
      and w1: "wrapper_ok w1" "lw_config_ack w1 = lw_config_ack w" using s m by (simp_all add: wrapper_step_def)
    let ?new = "lk_config (lw_coord w1)"
    show ?thesis
    proof (cases b)
      case False
      then show ?thesis using run mr m w1 acked by (auto simp: run_round_def)
    next
      case True
      consider (jump) "follow_config ?new d = (d, ClusterJump)" | (skip) "follow_config ?new d = (d, Skipped)"
        | (moved) "follow_config ?new d = (d\<lparr>dm_config := ?new\<rparr>, Moved (c_version ?new))"
          "c_version (dm_config d) \<le> c_version ?new" "c_cluster (dm_config d) \<noteq> 0 \<longrightarrow> c_cluster ?new = c_cluster (dm_config d)"
        by (cases "c_cluster (dm_config d) \<noteq> 0 \<and> c_cluster (dm_config d) \<noteq> c_cluster ?new";
            cases "c_version ?new < c_version (dm_config d)") (auto simp: follow_config_def)
      then show ?thesis
      proof cases
        case moved
        have "r = Inr (False, lw_ack_config R E (dm_us d) (c_version ?new) w1, d\<lparr>dm_config := ?new\<rparr>)"
          using True run mr m moved(1) by (simp add: run_round_def)
        then show ?thesis using True us moved acked lw_ack_config_ok [OF w1(1), of R E "dm_us d" "c_version ?new"] w1(2) by auto
      qed (use True run mr m w1 acked in \<open>auto simp: run_round_def\<close>)
    qed
  qed
qed

text \<open>C22: a round of the daemon's main loop, whatever the library answers. The only way it can fail is in
  decoding: the library completed a fetch with success and its bytes are one of the three kinds on which reading a
  configuration fails (C29). Otherwise no assertion fails. The configuration of the daemon is the old one or the one of the link, in which case the daemon is
  a member of it; its version never goes back and its cluster never changes; and the version the
  daemon has promised to the coordinator is never newer than the one it has adopted.\<close>

theorem daemon_rounds:
  assumes run: "run_round R E bind_to w d = Some r" and ok: "wrapper_ok w"
    and acked: "lw_config_ack w \<le> c_version (dm_config d)"
  shows "case r of
      Inl f \<Rightarrow> answer_faults R E f
    | Inr (jump, w', d') \<Rightarrow> wrapper_ok w' \<and> lw_config_ack w' \<le> c_version (dm_config d') \<and>
        c_version (dm_config d) \<le> c_version (dm_config d') \<and>
        (c_cluster (dm_config d) \<noteq> 0 \<longrightarrow> c_cluster (dm_config d') = c_cluster (dm_config d)) \<and>
        (dm_config d' = dm_config d \<or> dm_config d' = lk_config (lw_coord w') \<and> config_exists (dm_us d) (dm_config d')) \<and>
        dm_us d' = dm_us d \<and> dm_blockman d' = dm_blockman d"
  using assms by (rule run_round_ok)

definition demo_bind :: location where
  "demo_bind = srv_bind_to (server_new 7)"

text \<open>Server 7 starts, fetches the configuration of the coordinator and adopts it.\<close>

definition demo_run_daemon :: "(u64 \<Rightarrow> byte list option) daemon" where
  "demo_run_daemon = (demo_daemon 7)\<lparr>dm_config := config_new\<rparr>"

lemma demo_fetches:
  "lk_config l = config_new \<Longrightarrow> lk_state l = NOTHING \<Longrightarrow> lk_id l = -1 \<Longrightarrow> lk_pending_ids l = [] \<Longrightarrow> lk_output l = None \<Longrightarrow>
     \<exists>st l'. link_loop demo_replicant be_codec 1000 REPLICANT_GARBAGE l =
       Some (Inr (int64_max, (REPLICANT_SUCCESS, Some (packed_config be_codec demo_coordinator)), st, l')) \<and>
       lk_config l' = demo_published"
  using demo_published_decodes
  by (subst link_loop_def, simp, subst link_wait.simps)
    (simp add: link_round_def prime_state_machine_def begin_fetching_config_def handle_internal_callback_def
      store_result_def config_new_def Let_def link_reset_def demo_replicant_def)

lemma demo_maintains:
  "\<exists>w'. maintain_link demo_replicant be_codec 7 demo_bind (wrapper_new ()) = Some (Inr (True, w')) \<and>
     lk_config (lw_coord w') = demo_published"
proof -
  let ?w = "ensure_all demo_replicant be_codec 7 demo_bind (wrapper_new ())"
  have "lk_config (lw_coord ?w) = config_new" "lk_state (lw_coord ?w) = NOTHING" "lk_id (lw_coord ?w) = -1"
    "lk_pending_ids (lw_coord ?w) = []" "lk_output (lw_coord ?w) = None"
    by (simp_all add: ensure_all_def ensure_available_def ensure_config_ack_def ensure_config_stable_def
      ensure_checkpoint_def ensure_checkpoint_report_stable_def ensure_checkpoint_stable_def ensure_checkpoint_gc_def
      make_rpc_def link_rpc_def wait_cond_def link_wait_for_def wrapper_new_def link_new_def config_new_def
      get_state_def demo_replicant_def Let_def)
  from demo_fetches [OF this] obtain st l where
    "link_loop demo_replicant be_codec 1000 REPLICANT_GARBAGE (lw_coord ?w) =
       Some (Inr (int64_max, (REPLICANT_SUCCESS, Some (packed_config be_codec demo_coordinator)), st, l))"
    and "lk_config l = demo_published" by blast
  then show ?thesis
    by (subst maintain_link.simps)
      (simp add: maintain_step_def int64_max_def sleep_facts demo_published_def config_exists_def server_new_def Let_def)
qed

theorem daemon_rounds_witness:
  "\<exists>w' d'. run_round demo_replicant be_codec demo_bind (wrapper_new ()) demo_run_daemon = Some (Inr (False, w', d')) \<and>
     config_exists 7 (dm_config d') \<and> lw_config_ack w' \<le> c_version (dm_config d')"
proof -
  from demo_maintains obtain w1 where m: "maintain_link demo_replicant be_codec 7 demo_bind (wrapper_new ()) = Some (Inr (True, w1))"
    and c: "lk_config (lw_coord w1) = demo_published" by blast
  let ?w = "lw_ack_config demo_replicant be_codec 7 1 w1" and ?d = "demo_run_daemon\<lparr>dm_config := demo_published\<rparr>"
  have run: "run_round demo_replicant be_codec demo_bind (wrapper_new ()) demo_run_daemon = Some (Inr (False, ?w, ?d))"
    using m c by (simp add: run_round_def demo_run_daemon_def demo_daemon_def follow_config_def config_new_def demo_published_def)
  have "wrapper_ok (wrapper_new ())" "lw_config_ack (wrapper_new ()) \<le> c_version (dm_config demo_run_daemon)"
    by (simp_all add: wrapper_ok_def wrapper_new_def link_ok_new)
  note th = daemon_rounds [OF run this]
  have "dm_config ?d \<noteq> dm_config demo_run_daemon" "dm_us demo_run_daemon = 7"
    by (simp_all add: demo_run_daemon_def demo_daemon_def config_new_def demo_published_def)
  with th have "lw_config_ack ?w \<le> c_version (dm_config ?d)" "config_exists 7 (dm_config ?d)" by auto
  then show ?thesis using run by blast
qed

text \<open>An acknowledgement can get lost. If the call for a new version cannot be sent while the
  call for an older one is outstanding, the success of the older call clears the flag: nothing is
  sent for the new version any more, although it is still recorded as the one to acknowledge.\<close>

theorem config_ack_lost:
  assumes out: "map_of (lw_rpcs w) i = Some Rpc_config_ack" "0 \<le> i" "i \<noteq> int64_max"
    and newer: "lw_config_ack w < v"
    and fails: "rp_send R ''config_ack'' (pk64 E us @ pk64 E v) REPLICANT_GARBAGE (lk_repl (lw_coord w)) = (j, st, e)" "j < 0"
  shows "\<exists>w'. maintain_step E us i (REPLICANT_SUCCESS, ans) status (lw_ack_config R E us v w) = Again (False, w') \<and>
    lw_config_ack w' = v \<and> (\<forall>R' E'. ensure_config_ack R' E' us w' = w') \<and>
    (\<forall>R' E' v'. v' \<le> v \<longrightarrow> lw_ack_config R' E' us v' w' = w')"
proof -
  let ?w = "w\<lparr>lw_need_config_ack := True, lw_config_ack := v, lw_config_ack_id := j, lw_coord := (lw_coord w)\<lparr>lk_repl := e\<rparr>\<rparr>"
  have sent: "lw_ack_config R E us v w = ?w"
    using newer fails by (simp add: lw_ack_config_def ensure_config_ack_def make_rpc_def link_rpc_def)
  have "maintain_step E us i (REPLICANT_SUCCESS, ans) status ?w = Again (False,
      reset_sleep ?w\<lparr>lw_rpcs := m_erase i (lw_rpcs w), lw_config_ack_id := -1, lw_need_config_ack := False\<rparr>)"
    using out by (simp add: maintain_step_def run_callback_def rpc_callback_def reset_sleep_def Let_def)
  then show ?thesis unfolding sent by (simp add: ensure_config_ack_def lw_ack_config_def reset_sleep_def)
qed

theorem config_ack_lost_witness:
  "\<exists>w'. maintain_step be_codec 7 3 (REPLICANT_SUCCESS, None) REPLICANT_SUCCESS
       (lw_ack_config (demo_replicant\<lparr>rp_send := (\<lambda>_ _ _ e. (-1, REPLICANT_SERVER_ERROR, e))\<rparr>) be_codec 7 9
         ((wrapper_new ())\<lparr>lw_rpcs := [(3, Rpc_config_ack)], lw_config_ack := 8, lw_config_ack_id := 3,
            lw_need_config_ack := True\<rparr>)) = Again (False, w') \<and>
     lw_config_ack w' = 9 \<and> ensure_config_ack demo_replicant be_codec 7 w' = w'"
proof -
  let ?w = "(wrapper_new ())\<lparr>lw_rpcs := [(3, Rpc_config_ack)], lw_config_ack := 8, lw_config_ack_id := 3, lw_need_config_ack := True\<rparr>"
  let ?R = "demo_replicant\<lparr>rp_send := (\<lambda>_ _ _ e. (-1, REPLICANT_SERVER_ERROR, e))\<rparr>"
  have "map_of (lw_rpcs ?w) 3 = Some Rpc_config_ack" "(0::int) \<le> 3" "3 \<noteq> int64_max" "lw_config_ack ?w < 9"
    by (simp_all add: int64_max_def)
  from config_ack_lost [OF this, of ?R be_codec 7 "-1" REPLICANT_SERVER_ERROR "()" None REPLICANT_SUCCESS]
  show ?thesis by auto
qed

end
