(* ===== verification/ClientFile.thy ===== *)
theory ClientFile
  imports IntervalMap
begin

text \<open>
  \<open>client/file.{h,cc}\<close> and \<open>client/buffer_descriptor.{h,cc}\<close>: what a client keeps of an open
  file, and the attributes under which HyperDex keeps its metadata.

  Operations are objects the code shares by reference-counted pointers; a pointer is the number of
  the object in the client's store. The reference counts themselves are not modelled. The signed
  counter of a buffer descriptor is an \<open>int\<close>.
\<close>

section \<open>Files\<close>

type_synonym op_ref = nat
type_synonym file_ref = nat
type_synonym bd_ref = nat

text \<open>\<open>time\<close> has no initial value.\<close>

record client_file =
  fl_path :: string
  fl_fd :: int
  fl_pending :: "int list"
  fl_block_map :: slice_map
  fl_last_op :: "(u64, op_ref) smap"
  fl_offset :: u64
  fl_replicas :: u64
  fl_block_size :: u64
  fl_is_directory :: bool
  fl_flags :: nat
  fl_mode :: u64
  fl_time :: "u64 option"
  fl_owner :: string
  fl_group :: string

definition file_new :: "string \<Rightarrow> u64 \<Rightarrow> u64 \<Rightarrow> client_file" where
  "file_new path reps block_sz =
     \<lparr>fl_path = path, fl_fd = 0, fl_pending = [], fl_block_map = [], fl_last_op = [], fl_offset = 0,
      fl_replicas = reps, fl_block_size = block_sz, fl_is_directory = False, fl_flags = 0, fl_mode = 0,
      fl_time = None, fl_owner = '''', fl_group = ''''\<rparr>"

text \<open>Offsets of writes are passed on as 32-bit numbers here, although the map has 64-bit keys.\<close>

definition has_last_op :: "u64 \<Rightarrow> client_file \<Rightarrow> bool" where
  "has_last_op block_offset f \<longleftrightarrow> map_of (fl_last_op f) (block_offset mod 4294967296) \<noteq> None"

definition last_op :: "u64 \<Rightarrow> client_file \<Rightarrow> op_ref res" where
  "last_op block_offset f = res_of_option (map_of (fl_last_op f) (block_offset mod 4294967296))"

definition set_last_op :: "u64 \<Rightarrow> op_ref \<Rightarrow> client_file \<Rightarrow> client_file" where
  "set_last_op block_offset op f = f\<lparr>fl_last_op := m_assign (block_offset mod 4294967296) op (fl_last_op f)\<rparr>"

definition pending_ops_empty :: "client_file \<Rightarrow> bool" where
  "pending_ops_empty f \<longleftrightarrow> fl_pending f = []"

definition pending_ops_pop_front :: "client_file \<Rightarrow> (int \<times> client_file) res" where
  "pending_ops_pop_front f =
     (case fl_pending f of [] \<Rightarrow> Inl Undefined | i # rest \<Rightarrow> Inr (i, f\<lparr>fl_pending := rest\<rparr>))"

definition add_pending_op :: "int \<Rightarrow> client_file \<Rightarrow> client_file" where
  "add_pending_op i f = f\<lparr>fl_pending := fl_pending f @ [i]\<rparr>"

definition insert_block :: "u64 \<Rightarrow> slice \<Rightarrow> client_file \<Rightarrow> client_file res" where
  "insert_block insert_address slc f =
     rbind (insert_slice insert_address slc (fl_block_map f)) (\<lambda>m. Inr (f\<lparr>fl_block_map := m\<rparr>))"

type_synonym changeset = "(u64, block) smap"

fun apply_changes :: "changeset \<Rightarrow> slice_map \<Rightarrow> slice_map res" where
  "apply_changes [] m = Inr m"
| "apply_changes ((insert_address, b) # it) m =
     rbind (imap_insert insert_address (b_length b) (b_list b) m) (apply_changes it)"

definition apply_changeset :: "changeset \<Rightarrow> client_file \<Rightarrow> client_file res" where
  "apply_changeset changes f =
     rbind (apply_changes changes (fl_block_map f)) (\<lambda>m. Inr (f\<lparr>fl_block_map := m\<rparr>))"

definition file_truncate :: "u64 \<Rightarrow> client_file \<Rightarrow> client_file res" where
  "file_truncate len f = rbind (imap_truncate len (fl_block_map f)) (\<lambda>m. Inr (f\<lparr>fl_block_map := m\<rparr>))"

definition file_length :: "client_file \<Rightarrow> u64" where
  "file_length f = imap_length (fl_block_map f)"

section \<open>Serialisation\<close>

definition file_pack_size :: "client_file \<Rightarrow> nat" where
  "file_pack_size f = 2 * 8 + imap_pack_size (fl_block_map f)"

definition serialize_blockmap :: "e_codec \<Rightarrow> client_file \<Rightarrow> byte list" where
  "serialize_blockmap E f = pk64 E (fl_replicas f) @ pk64 E (fl_block_size f) @ pack_imap E (fl_block_map f)"

text \<open>
  Nothing checks the unpacker afterwards: after too few bytes the replicas, the block size or a
  slice are values that were never set.
\<close>

definition unpack_file :: "e_codec \<Rightarrow> byte list \<Rightarrow> client_file \<Rightarrow> client_file res" where
  "unpack_file E bs f =
     (case do {
         (replicas, bs) \<leftarrow> up64 E bs;
         (block_size, bs) \<leftarrow> up64 E bs;
         (m, bs) \<leftarrow> unpack_imap E (fl_block_map f) bs;
         Some (f\<lparr>fl_replicas := replicas, fl_block_size := block_size, fl_block_map := m\<rparr>)
       } of
        None \<Rightarrow> Inl Undefined
      | Some f' \<Rightarrow> Inr f')"

section \<open>Buffer descriptors\<close>

text \<open>How many operations still use the buffer of a write.\<close>

definition bd_add_op :: "int \<Rightarrow> int" where
  "bd_add_op count = count + 1"

definition bd_remove_op :: "int \<Rightarrow> int res" where
  "bd_remove_op count = rbind (assert_that (0 \<le> count - 1)) (\<lambda>_. Inr (count - 1))"

definition bd_done :: "int \<Rightarrow> bool" where
  "bd_done count \<longleftrightarrow> count = 0"

section \<open>Metadata\<close>

text \<open>An attribute as HyperDex returns it: its name and its encoded value.\<close>

type_synonym hd_attr = "string \<times> byte list"

text \<open>
  \<open>e::unpack64be\<close> of a variable onto itself swaps the bytes of a little-endian machine. A value
  with fewer than 8 bytes leaves the variable unset.
\<close>

definition swap64 :: "u64 \<Rightarrow> u64" where
  "swap64 x = foldl (\<lambda>acc i. acc * 256 + (x div 256 ^ i) mod 256) 0 [0, 1, 2, 3, 4, 5, 6, 7]"

definition attr_u64 :: "e_codec \<Rightarrow> byte list \<Rightarrow> u64 res" where
  "attr_u64 E bs = (case up64 E bs of None \<Rightarrow> Inl Undefined | Some (x, _) \<Rightarrow> Inr (swap64 x))"

definition o_append :: "nat \<Rightarrow> bool" where
  "o_append flags \<longleftrightarrow> odd (flags div 1024)"

definition o_creat :: "nat \<Rightarrow> bool" where
  "o_creat flags \<longleftrightarrow> odd (flags div 64)"

text \<open>
  The loop over the attributes that \<open>pending_read::parse_metadata\<close>, \<open>pending_open\<close> and
  \<open>pending_write::handle_new_metadata\<close> share; the last two move the offset of a file opened for
  appending to its end (\<open>at_end\<close>).
\<close>

definition parse_attr :: "e_codec \<Rightarrow> bool \<Rightarrow> hd_attr \<Rightarrow> client_file \<Rightarrow> client_file res" where
  "parse_attr E at_end a f =
     (let (name, val) = a
      in if name = ''blockmap'' then
           (if val = [] then Inr f
            else rbind (unpack_file E val f) (\<lambda>f1.
                   Inr (if at_end \<and> o_append (fl_flags f) then f1\<lparr>fl_offset := file_length f1\<rparr> else f1)))
         else if name = ''directory'' then
           rbind (attr_u64 E val) (\<lambda>is_dir. Inr (f\<lparr>fl_is_directory := (is_dir \<noteq> 0)\<rparr>))
         else if name = ''mode'' then rbind (attr_u64 E val) (\<lambda>m. Inr (f\<lparr>fl_mode := m\<rparr>))
         else Inr f)"

fun parse_metadata :: "e_codec \<Rightarrow> bool \<Rightarrow> hd_attr list \<Rightarrow> client_file \<Rightarrow> client_file res" where
  "parse_metadata E at_end [] f = Inr f"
| "parse_metadata E at_end (a # attrs) f = rbind (parse_attr E at_end a f) (parse_metadata E at_end attrs)"

text \<open>The loop of \<open>pending_getattr\<close> also reads the owner, the group and the time.\<close>

definition string_of_bytes :: "byte list \<Rightarrow> string" where
  "string_of_bytes bs = map (\<lambda>b. char_of (unat b)) bs"

definition bytes_of_string :: "string \<Rightarrow> byte list" where
  "bytes_of_string s = map (\<lambda>c. word_of_nat (of_char c)) s"

definition parse_attr_all :: "e_codec \<Rightarrow> hd_attr \<Rightarrow> client_file \<Rightarrow> client_file res" where
  "parse_attr_all E a f =
     (let (name, val) = a
      in if name = ''owner'' then Inr (f\<lparr>fl_owner := string_of_bytes val\<rparr>)
         else if name = ''group'' then Inr (f\<lparr>fl_group := string_of_bytes val\<rparr>)
         else if name = ''time'' then
           (case up64 E val of None \<Rightarrow> Inr (f\<lparr>fl_time := Some (swap64 0)\<rparr>) | Some (t, _) \<Rightarrow> Inr (f\<lparr>fl_time := Some (swap64 t)\<rparr>))
         else if name = ''mode'' then
           (case up64 E val of None \<Rightarrow> Inr (f\<lparr>fl_mode := swap64 0\<rparr>) | Some (m, _) \<Rightarrow> Inr (f\<lparr>fl_mode := swap64 m\<rparr>))
         else parse_attr E False a f)"

fun parse_metadata_all :: "e_codec \<Rightarrow> hd_attr list \<Rightarrow> client_file \<Rightarrow> client_file res" where
  "parse_metadata_all E [] f = Inr f"
| "parse_metadata_all E (a # attrs) f = rbind (parse_attr_all E a f) (parse_metadata_all E attrs)"

record file_attrs =
  fa_size :: u64
  fa_mode :: u64
  fa_flags :: nat
  fa_is_dir :: bool
  fa_time :: u64
  fa_owner :: string
  fa_group :: string

text \<open>\<open>strcpy\<close> stops at a zero; \<open>mode_t\<close> has 32 bits.\<close>

definition c_string :: "string \<Rightarrow> string" where
  "c_string s = takeWhile (\<lambda>c. c \<noteq> CHR 0x00) s"

definition fill_attrs :: "client_file \<Rightarrow> file_attrs res" where
  "fill_attrs f =
     (case fl_time f of
        None \<Rightarrow> Inl Undefined
      | Some t \<Rightarrow> Inr \<lparr>fa_size = file_length f, fa_mode = fl_mode f mod 4294967296, fa_flags = fl_flags f,
                       fa_is_dir = fl_is_directory f, fa_time = t, fa_owner = c_string (fl_owner f), fa_group = c_string (fl_group f)\<rparr>)"

end
