(* ===== verification/ClientState.thy ===== *)
theory ClientState
  imports ClientMessages ClientFile CoordinatorLink
begin

text \<open>
  The state of a client (\<open>client/client.h\<close>) and of its pending operations
  (\<open>client/pending_aggregation.{h,cc}\<close>, \<open>client/message_hyperdex_*\<close>), and what they share: which
  answers an operation still waits for, sending to daemons and to HyperDex, failed servers, and
  following the configuration.

  BusyBee and HyperDex are not part of the repository: the record \<open>client_env\<close> has their calls, over
  a state \<open>'e\<close> of their own. Operations, files and buffer descriptors are shared objects; the client
  has a store for each and a pointer is a number. The return code an operation reports goes into a
  variable of the caller; \<open>po_status\<close> is its value. Texts of errors, logging and the datatype tags
  of attributes are not modelled. \<open>send_nop\<close> has no return statement; no caller uses its result.
\<close>

section \<open>HyperDex\<close>

datatype hyperdex_status =
    HYPERDEX_CLIENT_SUCCESS | HYPERDEX_CLIENT_NOTFOUND | HYPERDEX_CLIENT_SEARCHDONE
  | HYPERDEX_CLIENT_NONEPENDING | HYPERDEX_CLIENT_GARBAGE | HYPERDEX_CLIENT_OTHER nat

text \<open>Calls on the space \<open>wtf\<close>, whose key is the path; a search is for a regular expression.\<close>

datatype hyperdex_call =
    HD_get string
  | HD_put string "hd_attr list"
  | HD_condput string "hd_attr list" "hd_attr list"
  | HD_del string
  | HD_search string

text \<open>A message object; the library writes the status and the attributes of its operation to it.\<close>

record hd_message =
  msg_reqid :: int
  msg_call :: hyperdex_call
  msg_status :: hyperdex_status
  msg_attrs :: "hd_attr list"

section \<open>Return codes\<close>

datatype wtf_client_returncode =
    WTF_CLIENT_SUCCESS | WTF_CLIENT_NOTFOUND | WTF_CLIENT_INVALID | WTF_CLIENT_BADF | WTF_CLIENT_READONLY
  | WTF_CLIENT_NAMETOOLONG | WTF_CLIENT_EXIST | WTF_CLIENT_ISDIR | WTF_CLIENT_NOTDIR
  | WTF_CLIENT_READDIRDONE | WTF_CLIENT_UNKNOWNSPACE | WTF_CLIENT_COORDFAIL | WTF_CLIENT_SERVERERROR
  | WTF_CLIENT_POLLFAILED | WTF_CLIENT_OVERFLOW | WTF_CLIENT_RECONFIGURE | WTF_CLIENT_TIMEOUT
  | WTF_CLIENT_NONEPENDING | WTF_CLIENT_NOMEM | WTF_CLIENT_BADCONFIG | WTF_CLIENT_DUPLICATE
  | WTF_CLIENT_INTERRUPTED | WTF_CLIENT_CLUSTER_JUMP | WTF_CLIENT_COORD_LOGGED | WTF_CLIENT_BACKOFF
  | WTF_CLIENT_IO | WTF_CLIENT_INTERNAL | WTF_CLIENT_EXCEPTION | WTF_CLIENT_GARBAGE

section \<open>Operations\<close>

record pending_write =
  pw_data :: "byte list"
  pw_locations :: "block_location list"
  pw_file_offset :: u64
  pw_bd :: bd_ref
  pw_file :: file_ref
  pw_old_blockmap :: "byte list"
  pw_changeset :: changeset
  pw_state :: nat
  pw_next :: "op_ref option"
  pw_deferred :: bool
  pw_retry :: bool
  pw_retried :: bool

record pending_read =
  pr_buf :: "byte list"
  pr_buf_sz :: u64
  pr_max_buf_sz :: u64
  pr_offset_map :: "((u64 \<times> u64) \<times> u64 \<times> u64 \<times> u64) list"
  pr_file :: file_ref
  pr_state :: nat

text \<open>The fields of the other classes, in the order of their constructors.\<close>

datatype op_kind =
    Op_write pending_write
  | Op_read pending_read
  | Op_truncate file_ref u64
  | Op_getattr string "file_attrs option"
  | Op_open file_ref
  | Op_creat file_ref
  | Op_chmod string u64
  | Op_mkdir string u64
  | Op_del string int
  | Op_rename string string int
  | Op_readdir string "string list" "string option"
  | Op_chdir string

record pending_op =
  po_kind :: op_kind
  po_outstanding_wtf :: "server_id list"
  po_outstanding_hyperdex :: "hd_message list"
  po_client_visible_id :: int
  po_status :: wtf_client_returncode
  po_done :: bool

definition op_new :: "int \<Rightarrow> op_kind \<Rightarrow> pending_op" where
  "op_new i k = \<lparr>po_kind = k, po_outstanding_wtf = [], po_outstanding_hyperdex = [], po_client_visible_id = i,
     po_status = WTF_CLIENT_SUCCESS, po_done = False\<rparr>"

definition aggregation_done :: "pending_op \<Rightarrow> bool" where
  "aggregation_done op \<longleftrightarrow> po_outstanding_wtf op = [] \<and> po_outstanding_hyperdex op = []"

definition handle_sent_to_wtf :: "server_id \<Rightarrow> pending_op \<Rightarrow> pending_op" where
  "handle_sent_to_wtf si op = op\<lparr>po_outstanding_wtf := po_outstanding_wtf op @ [si]\<rparr>"

definition handle_sent_to_hyperdex :: "hd_message \<Rightarrow> pending_op \<Rightarrow> pending_op" where
  "handle_sent_to_hyperdex msg op = op\<lparr>po_outstanding_hyperdex := po_outstanding_hyperdex op @ [msg]\<rparr>"

text \<open>The loops that take out the first match, moving the rest up.\<close>

fun remove_first :: "('a \<Rightarrow> bool) \<Rightarrow> 'a list \<Rightarrow> 'a list" where
  "remove_first P [] = []"
| "remove_first P (x # xs) = (if P x then xs else x # remove_first P xs)"

definition remove_wtf_message :: "server_id \<Rightarrow> pending_op \<Rightarrow> pending_op" where
  "remove_wtf_message si op = op\<lparr>po_outstanding_wtf := remove_first (\<lambda>i. i = si) (po_outstanding_wtf op)\<rparr>"

definition remove_hyperdex_message :: "int \<Rightarrow> pending_op \<Rightarrow> pending_op" where
  "remove_hyperdex_message reqid op =
     op\<lparr>po_outstanding_hyperdex := remove_first (\<lambda>m. msg_reqid m = reqid) (po_outstanding_hyperdex op)\<rparr>"

text \<open>The library's writes to the messages of a completed request.\<close>

definition deliver_hyperdex :: "int \<Rightarrow> hyperdex_status \<Rightarrow> hd_attr list \<Rightarrow> pending_op \<Rightarrow> pending_op" where
  "deliver_hyperdex reqid st attrs op =
     op\<lparr>po_outstanding_hyperdex :=
        map (\<lambda>m. if msg_reqid m = reqid then m\<lparr>msg_status := st, msg_attrs := attrs\<rparr> else m) (po_outstanding_hyperdex op)\<rparr>"

text \<open>\<open>m_outstanding_hyperdex[0]\<close> cast to the class of the message the code expects.\<close>

definition first_message :: "(hyperdex_call \<Rightarrow> bool) \<Rightarrow> pending_op \<Rightarrow> hd_message res" where
  "first_message P op =
     (case po_outstanding_hyperdex op of
        [] \<Rightarrow> Inl Undefined
      | m # _ \<Rightarrow> if P (msg_call m) then Inr m else Inl Undefined)"

definition is_get :: "hyperdex_call \<Rightarrow> bool" where
  "is_get c = (case c of HD_get _ \<Rightarrow> True | _ \<Rightarrow> False)"

definition is_condput :: "hyperdex_call \<Rightarrow> bool" where
  "is_condput c = (case c of HD_condput _ _ _ \<Rightarrow> True | _ \<Rightarrow> False)"

definition is_search :: "hyperdex_call \<Rightarrow> bool" where
  "is_search c = (case c of HD_search _ \<Rightarrow> True | _ \<Rightarrow> False)"

section \<open>The client\<close>

text \<open>
  The environment: sending, receiving and dropping a connection; starting a HyperDex operation (its
  request number and status) and waiting for one (the request number, the status of the wait, and
  the status and attributes written for the request); which HyperDex codes are negative and how it
  encodes integers; random numbers and the counter for the choice of servers; the clock; the name of
  the user.
\<close>

record 'e client_env =
  ce_send :: "u64 \<Rightarrow> byte list \<Rightarrow> 'e \<Rightarrow> busybee_returncode \<times> 'e"
  ce_recv :: "int \<Rightarrow> 'e \<Rightarrow> (busybee_returncode \<times> u64 \<times> byte list) \<times> 'e"
  ce_drop :: "u64 \<Rightarrow> 'e \<Rightarrow> 'e"
  ce_set_external :: "'e \<Rightarrow> busybee_returncode \<times> 'e"
  ce_hyperdex :: "hyperdex_call \<Rightarrow> 'e \<Rightarrow> (int \<times> hyperdex_status) \<times> 'e"
  ce_hyperdex_loop :: "'e \<Rightarrow> (int \<times> hyperdex_status \<times> hyperdex_status \<times> hd_attr list) \<times> 'e"
  ce_hyperdex_fd :: u64
  ce_negative :: "hyperdex_status \<Rightarrow> bool"
  ce_int :: "u64 \<Rightarrow> byte list"
  ce_random :: "'e \<Rightarrow> ((nat \<Rightarrow> int) \<times> nat) \<times> 'e"
  ce_time :: "'e \<Rightarrow> u64 \<times> 'e"
  ce_user :: string
  ce_group :: string

text \<open>\<open>pending_server_pair\<close>.\<close>

type_synonym server_op = "server_id \<times> op_ref"

record ('r, 'e) client =
  cl_env :: 'e
  cl_coord :: "'r coordinator_link"
  cl_token :: u64
  cl_addr :: ipaddr
  cl_next_client_id :: int
  cl_next_server_nonce :: u64
  cl_pending_ops :: "(u64, server_op) smap"
  cl_pending_hyperdex_ops :: "(u64, server_op) smap"
  cl_failed :: "server_op list"
  cl_yieldable :: "(u64, op_ref) smap"
  cl_yielding :: "op_ref option"
  cl_next_fileno :: u64
  cl_fds :: "(u64, file_ref) smap"
  cl_cwd :: string
  cl_ops :: "op_ref \<Rightarrow> pending_op"
  cl_files :: "file_ref \<Rightarrow> client_file"
  cl_bds :: "bd_ref \<Rightarrow> int"
  cl_next_ref :: nat

definition client_new :: "'r \<Rightarrow> u64 \<Rightarrow> ipaddr \<Rightarrow> 'e \<Rightarrow> ('r, 'e) client" where
  "client_new r token addr e =
     \<lparr>cl_env = e, cl_coord = link_new r, cl_token = token, cl_addr = addr, cl_next_client_id = 1,
      cl_next_server_nonce = 1, cl_pending_ops = [], cl_pending_hyperdex_ops = [], cl_failed = [],
      cl_yieldable = [], cl_yielding = None, cl_next_fileno = 1, cl_fds = [], cl_cwd = ''/'',
      cl_ops = (\<lambda>_. op_new 0 (Op_chdir '''')), cl_files = (\<lambda>_. file_new '''' 0 0), cl_bds = (\<lambda>_. 0),
      cl_next_ref = 0\<rparr>"

definition update_op :: "op_ref \<Rightarrow> (pending_op \<Rightarrow> pending_op) \<Rightarrow> ('r, 'e) client \<Rightarrow> ('r, 'e) client" where
  "update_op p f s = s\<lparr>cl_ops := (cl_ops s)(p := f (cl_ops s p))\<rparr>"

definition update_file :: "file_ref \<Rightarrow> client_file \<Rightarrow> ('r, 'e) client \<Rightarrow> ('r, 'e) client" where
  "update_file r f s = s\<lparr>cl_files := (cl_files s)(r := f)\<rparr>"

definition set_status :: "wtf_client_returncode \<Rightarrow> pending_op \<Rightarrow> pending_op" where
  "set_status st op = op\<lparr>po_status := st\<rparr>"

text \<open>\<open>new\<close> for an operation.\<close>

definition new_op :: "int \<Rightarrow> op_kind \<Rightarrow> ('r, 'e) client \<Rightarrow> op_ref \<times> ('r, 'e) client" where
  "new_op i k s =
     (let p = cl_next_ref s
      in (p, s\<lparr>cl_ops := (cl_ops s)(p := op_new i k), cl_next_ref := Suc p\<rparr>))"

abbreviation cl_config :: "('r, 'e) client \<Rightarrow> configuration" where
  "cl_config s \<equiv> lk_config (cl_coord s)"

section \<open>Failed servers\<close>

text \<open>Operations waiting for a server of which \<open>P\<close> holds fail, in the order of their nonces.\<close>

definition fail_pending :: "(server_id \<Rightarrow> bool) \<Rightarrow> ('r, 'e) client \<Rightarrow> ('r, 'e) client" where
  "fail_pending P s =
     s\<lparr>cl_failed := cl_failed s @ map snd (filter (\<lambda>(_, si, _). P si) (cl_pending_ops s)),
       cl_pending_ops := filter (\<lambda>(_, si, _). \<not> P si) (cl_pending_ops s)\<rparr>"

definition handle_disruption :: "'e client_env \<Rightarrow> server_id \<Rightarrow> ('r, 'e) client \<Rightarrow> ('r, 'e) client" where
  "handle_disruption V si s =
     (let s1 = fail_pending (\<lambda>i. i = si) s in s1\<lparr>cl_env := ce_drop V si (cl_env s1)\<rparr>)"

section \<open>Sending\<close>

definition client_send ::
  "'e client_env \<Rightarrow> e_codec \<Rightarrow> wtf_network_msgtype \<Rightarrow> server_id \<Rightarrow> u64 \<Rightarrow> byte list \<Rightarrow> op_ref \<Rightarrow>
     ('r, 'e) client \<Rightarrow> bool \<times> ('r, 'e) client" where
  "client_send V E mt to nonce payload p s =
     (let (rc, e) = ce_send V to (client_header E mt nonce @ payload) (cl_env s);
          s1 = s\<lparr>cl_env := e\<rparr>
      in case rc of
           BUSYBEE_SUCCESS \<Rightarrow>
             (True, (update_op p (handle_sent_to_wtf to) s1)
                      \<lparr>cl_pending_ops := m_insert nonce (to, p) (cl_pending_ops s1)\<rparr>)
         | BUSYBEE_DISRUPTED \<Rightarrow> (False, handle_disruption V to s1)
         | _ \<Rightarrow> (False, s1))"

definition send_nop :: "'e client_env \<Rightarrow> e_codec \<Rightarrow> server_id \<Rightarrow> ('r, 'e) client \<Rightarrow> ('r, 'e) client" where
  "send_nop V E to s =
     (let (_, e) = ce_send V to (client_header E PACKET_NOP (cl_next_server_nonce s)) (cl_env s)
      in s\<lparr>cl_env := e, cl_next_server_nonce := u64_add (cl_next_server_nonce s) 1\<rparr>)"

text \<open>
  \<open>perform_aggregation\<close>: the servers get consecutive nonces in their order and are sent to in the
  opposite order; only the first gets the message, the others an empty one that opens a channel.
\<close>

fun aggregation_loop ::
  "'e client_env \<Rightarrow> e_codec \<Rightarrow> server_id list \<Rightarrow> op_ref \<Rightarrow> wtf_network_msgtype \<Rightarrow> byte list \<Rightarrow> nat \<Rightarrow> u64 \<Rightarrow>
     ('r, 'e) client \<Rightarrow> ('r, 'e) client" where
  "aggregation_loop V E servers p mt payload 0 nonce s = s"
| "aggregation_loop V E servers p mt payload (Suc i) nonce s =
     (let nonce1 = u64_sub nonce 1;
          si = servers ! i;
          (ok, s1) = (if i = 0 then client_send V E mt si nonce1 payload p s
                      else client_send V E PACKET_NOP si nonce1 [] p s);
          s2 = (if ok then s1 else s1\<lparr>cl_failed := cl_failed s1 @ [(si, p)]\<rparr>)
      in aggregation_loop V E servers p mt payload i nonce1 s2)"

definition perform_aggregation ::
  "'e client_env \<Rightarrow> e_codec \<Rightarrow> server_id list \<Rightarrow> op_ref \<Rightarrow> wtf_network_msgtype \<Rightarrow> byte list \<Rightarrow>
     ('r, 'e) client \<Rightarrow> ('r, 'e) client" where
  "perform_aggregation V E servers p mt payload s =
     (let s1 = s\<lparr>cl_next_server_nonce := u64_add (cl_next_server_nonce s) (length servers)\<rparr>
      in aggregation_loop V E servers p mt payload (length servers) (cl_next_server_nonce s1) s1)"

text \<open>Starting a HyperDex operation for an operation of the client.\<close>

definition add_hyperdex_op :: "'e client_env \<Rightarrow> int \<Rightarrow> op_ref \<Rightarrow> ('r, 'e) client \<Rightarrow> ('r, 'e) client" where
  "add_hyperdex_op V reqid p s =
     s\<lparr>cl_pending_hyperdex_ops := m_insert (u64_of_int reqid) (ce_hyperdex_fd V, p) (cl_pending_hyperdex_ops s)\<rparr>"

definition send_hyperdex ::
  "'e client_env \<Rightarrow> hyperdex_call \<Rightarrow> op_ref \<Rightarrow> ('r, 'e) client \<Rightarrow> int \<times> ('r, 'e) client" where
  "send_hyperdex V call p s =
     (let ((reqid, st), e) = ce_hyperdex V call (cl_env s);
          s1 = s\<lparr>cl_env := e\<rparr>
      in (reqid,
          if reqid < 0 then update_op p (set_status WTF_CLIENT_IO) s1
          else update_op p
                 (handle_sent_to_hyperdex \<lparr>msg_reqid = reqid, msg_call = call, msg_status = st, msg_attrs = []\<rparr>)
                 (add_hyperdex_op V reqid p s1)))"

section \<open>Following the configuration\<close>

text \<open>The result is the status variable after a failure, \<open>None\<close> after success.\<close>

definition maintain_coord_connection ::
  "'e client_env \<Rightarrow> 'r replicant_ops \<Rightarrow> e_codec \<Rightarrow> ('r, 'e) client \<Rightarrow>
     (wtf_client_returncode option \<times> ('r, 'e) client) run" where
  "maintain_coord_connection V R E s =
     (let old_version = c_version (cl_config s)
      in run_bind (ensure_configuration R E REPLICANT_GARBAGE (cl_coord s)) (\<lambda>(ok, rc, l).
           let s1 = s\<lparr>cl_coord := l\<rparr>
           in if \<not> ok then
                ret (Some (if rc = REPLICANT_INTERRUPTED then WTF_CLIENT_INTERRUPTED
                           else if rc = REPLICANT_TIMEOUT then WTF_CLIENT_TIMEOUT
                           else WTF_CLIENT_COORDFAIL), s1)
              else
                (let (brc, e) = ce_set_external V (cl_env s1);
                     s2 = s1\<lparr>cl_env := e\<rparr>
                 in if brc \<noteq> BUSYBEE_SUCCESS then ret (Some WTF_CLIENT_POLLFAILED, s2)
                    else if old_version < c_version (cl_config s2) then
                      (let s3 = foldl (\<lambda>s srv. send_nop V E (srv_id srv) s) s2 (c_servers (cl_config s2))
                       in ret (None, fail_pending (\<lambda>i. \<not> config_exists i (cl_config s3)) s3))
                    else ret (None, s2))))"

end
