(* ===== verification/ClientWrite.thy ===== *)
theory ClientWrite
  imports ClientState
begin

text \<open>
  \<open>client/pending_write.{h,cc}\<close>: writing one block of a file. The data goes to the daemons; with
  their answers the operation changes the block map of the file and stores the metadata in HyperDex
  under the condition that the block map there is still the old one; if it is not, the operation
  fetches the metadata and starts over. Writes at one offset of a file run one after the other: an
  operation that finds an earlier one leaves itself as that one's successor.

  The data is a slice of the caller's buffer, which the caller leaves alone until the write is done.
\<close>

definition write_of :: "pending_op \<Rightarrow> pending_write res" where
  "write_of op = (case po_kind op of Op_write w \<Rightarrow> Inr w | _ \<Rightarrow> Inl Undefined)"

definition set_write :: "pending_write \<Rightarrow> pending_op \<Rightarrow> pending_op" where
  "set_write w op = op\<lparr>po_kind := Op_write w\<rparr>"

definition write_new ::
  "e_codec \<Rightarrow> client_file \<Rightarrow> file_ref \<Rightarrow> byte list \<Rightarrow> block_location list \<Rightarrow> u64 \<Rightarrow> bd_ref \<Rightarrow> pending_write" where
  "write_new E f fr data bls file_offset bd =
     \<lparr>pw_data = data, pw_locations = bls, pw_file_offset = file_offset, pw_bd = bd, pw_file = fr,
      pw_old_blockmap = serialize_blockmap E f, pw_changeset = [], pw_state = 0, pw_next = None,
      pw_deferred = False, pw_retry = False, pw_retried = False\<rparr>"

section \<open>Sending the data\<close>

definition write_send_data ::
  "'e client_env \<Rightarrow> e_codec \<Rightarrow> op_ref \<Rightarrow> pending_write \<Rightarrow> ('r, 'e) client \<Rightarrow> ('r, 'e) client" where
  "write_send_data V E p w s =
     (let payload = write_payload E (cl_token s) (pw_locations w) (pw_file_offset w) (pw_data w);
          s1 = perform_aggregation V E (map bl_si (pw_locations w)) p REQ_UPDATE payload s
      in update_op p (set_write (w\<lparr>pw_state := 1\<rparr>)) s1)"

text \<open>New locations are chosen when the operation was deferred or is tried again.\<close>

definition write_do_op ::
  "'e client_env \<Rightarrow> e_codec \<Rightarrow> op_ref \<Rightarrow> ('r, 'e) client \<Rightarrow> ('r, 'e) client run" where
  "write_do_op V E p s =
     run_bind (lift_res (write_of (cl_ops s p))) (\<lambda>w.
       let w1 = w\<lparr>pw_old_blockmap := serialize_blockmap E (cl_files s (pw_file w)), pw_changeset := []\<rparr>
       in if pw_deferred w1 \<or> pw_retried w1 then
            (let ((rnd, last_srv), e) = ce_random V (cl_env s);
                 s1 = s\<lparr>cl_env := e\<rparr>
             in run_bind (assign_random_block_locations rnd last_srv (cl_addr s1) (cl_config s1) (pw_locations w1)) (\<lambda>bls.
                  let w2 = w1\<lparr>pw_locations := bls\<rparr>
                  in ret (write_send_data V E p w2 (update_op p (set_write w2) s1))))
          else ret (write_send_data V E p w1 (update_op p (set_write w1) s)))"

definition write_try_op ::
  "'e client_env \<Rightarrow> e_codec \<Rightarrow> op_ref \<Rightarrow> ('r, 'e) client \<Rightarrow> (bool \<times> ('r, 'e) client) run" where
  "write_try_op V E p s =
     run_bind (lift_res (write_of (cl_ops s p))) (\<lambda>w.
       let f = cl_files s (pw_file w)
       in if has_last_op (pw_file_offset w) f then
            run_bind (lift_res (last_op (pw_file_offset w) f)) (\<lambda>q.
            let s1 = update_op p (set_write (w\<lparr>pw_deferred := True\<rparr>)) s
            in run_bind (lift_res (write_of (cl_ops s1 q))) (\<lambda>lw.
                 ret (True, update_file (pw_file w) (set_last_op (pw_file_offset w) p f)
                       (update_op q (set_write (lw\<lparr>pw_next := Some p\<rparr>)) s1))))
          else
            run_bind (write_do_op V E p (update_file (pw_file w) (set_last_op (pw_file_offset w) p f) s)) (\<lambda>s1.
              ret (True, s1)))"

section \<open>Answers of daemons\<close>

text \<open>Storing the metadata: the condition is the block map from before the write.\<close>

definition write_send_metadata_update ::
  "'e client_env \<Rightarrow> e_codec \<Rightarrow> op_ref \<Rightarrow> pending_write \<Rightarrow> ('r, 'e) client \<Rightarrow> ('r, 'e) client" where
  "write_send_metadata_update V E p w s =
     (let f = cl_files s (pw_file w);
          (now, e) = ce_time V (cl_env s);
          checks = [(''blockmap'', pw_old_blockmap w)];
          attrs = [(''mode'', ce_int V (fl_mode f)),
                   (''directory'', ce_int V (if fl_is_directory f then 1 else 0)),
                   (''blockmap'', serialize_blockmap E f),
                   (''time'', ce_int V now)]
      in snd (send_hyperdex V (HD_condput (fl_path f) checks attrs) p (s\<lparr>cl_env := e\<rparr>)))"

text \<open>One block for each offset the answers name; the answer's return code is not looked at.\<close>

definition add_replica_at :: "u64 \<Rightarrow> u64 \<Rightarrow> block_location \<Rightarrow> changeset \<Rightarrow> changeset" where
  "add_replica_at file_offset block_length bl changes =
     (let b = (case map_of changes file_offset of
                 None \<Rightarrow> block_set_offset file_offset (block_set_length block_length (block_new block_length file_offset 0))
               | Some b \<Rightarrow> b)
      in m_assign file_offset (block_add_replica bl b) changes)"

definition write_handle_wtf_message ::
  "'e client_env \<Rightarrow> e_codec \<Rightarrow> op_ref \<Rightarrow> server_id \<Rightarrow> byte list \<Rightarrow> ('r, 'e) client \<Rightarrow> (bool \<times> ('r, 'e) client) run" where
  "write_handle_wtf_message V E p si bs s =
     run_bind (lift_res (write_of (cl_ops s p))) (\<lambda>w.
       case unpack_update_reply E bs of
         None \<Rightarrow> lift_res (Inl Undefined)
       | Some ((rc, bi, file_offset, block_length), _) \<Rightarrow>
           (let w1 = w\<lparr>pw_changeset := add_replica_at file_offset block_length \<lparr>bl_si = si, bl_bi = bi\<rparr> (pw_changeset w)\<rparr>;
                s1 = update_op p (\<lambda>op. set_write w1 (remove_wtf_message si op)) s
            in if aggregation_done (cl_ops s1 p) then
                 run_bind (lift_res (apply_changeset (pw_changeset w1) (cl_files s1 (pw_file w1)))) (\<lambda>f.
                   ret (True, write_send_metadata_update V E p w1 (update_file (pw_file w1) f s1)))
               else ret (True, s1)))"

definition write_handle_wtf_failure :: "op_ref \<Rightarrow> server_id \<Rightarrow> ('r, 'e) client \<Rightarrow> ('r, 'e) client" where
  "write_handle_wtf_failure p si s =
     update_op p (\<lambda>op. remove_wtf_message si (set_status WTF_CLIENT_RECONFIGURE op)) s"

section \<open>Answers of HyperDex\<close>

definition write_get_new_metadata ::
  "'e client_env \<Rightarrow> op_ref \<Rightarrow> pending_write \<Rightarrow> ('r, 'e) client \<Rightarrow> ('r, 'e) client" where
  "write_get_new_metadata V p w s = snd (send_hyperdex V (HD_get (fl_path (cl_files s (pw_file w)))) p s)"

text \<open>It looks for the message in the list from which its caller has removed it.\<close>

definition write_handle_new_metadata ::
  "e_codec \<Rightarrow> op_ref \<Rightarrow> int \<Rightarrow> ('r, 'e) client \<Rightarrow> ('r, 'e) client res" where
  "write_handle_new_metadata E p reqid s =
     rbind (write_of (cl_ops s p)) (\<lambda>w.
     rbind (first_message is_get (cl_ops s p)) (\<lambda>msg.
     rbind (parse_metadata E True (msg_attrs msg) (cl_files s (pw_file w))) (\<lambda>f.
       Inr (update_op p (remove_hyperdex_message reqid) (update_file (pw_file w) f s)))))"

definition write_handle_hyperdex_message ::
  "'e client_env \<Rightarrow> e_codec \<Rightarrow> op_ref \<Rightarrow> int \<Rightarrow> hyperdex_status \<Rightarrow> ('r, 'e) client \<Rightarrow>
     (bool \<times> ('r, 'e) client) run" where
  "write_handle_hyperdex_message V E p reqid rc s =
     run_bind (lift_res (write_of (cl_ops s p))) (\<lambda>w.
       if pw_retry w then
         (let w1 = w\<lparr>pw_retry := False, pw_retried := True\<rparr>;
              s1 = update_op p (\<lambda>op. remove_hyperdex_message reqid (set_write w1 op)) s
          in run_bind (lift_res (write_handle_new_metadata E p reqid s1)) (\<lambda>s2.
             run_bind (write_do_op V E p s2) (\<lambda>s3. ret (True, s3))))
       else
         run_bind (lift_res (first_message is_condput (cl_ops s p))) (\<lambda>msg.
           let s1 = update_op p (remove_hyperdex_message reqid) s
           in if rc \<noteq> HYPERDEX_CLIENT_SUCCESS \<or> msg_status msg \<noteq> HYPERDEX_CLIENT_SUCCESS then
                (let w1 = w\<lparr>pw_retry := True\<rparr>
                 in ret (True, write_get_new_metadata V p w1 (update_op p (set_write w1) s1)))
              else
                run_bind (lift_res (bd_remove_op (cl_bds s1 (pw_bd w)))) (\<lambda>count.
                  let s2 = s1\<lparr>cl_bds := (cl_bds s1)(pw_bd w := count)\<rparr>
                  in case pw_next w of
                       None \<Rightarrow> ret (True, s2)
                     | Some q \<Rightarrow> run_bind (write_do_op V E q s2) (\<lambda>s3. ret (True, s3)))))"

section \<open>Delivery to the caller\<close>

definition write_can_yield :: "pending_op \<Rightarrow> pending_write \<Rightarrow> ('r, 'e) client \<Rightarrow> bool" where
  "write_can_yield op w s \<longleftrightarrow> aggregation_done op \<and> \<not> po_done op \<and> bd_done (cl_bds s (pw_bd w))"

end
