(* ===== verification/ClientMetadata.thy ===== *)
theory ClientMetadata
  imports ClientState
begin

text \<open>
  The pending operations that work on the metadata in HyperDex: \<open>client/pending_open.cc\<close>,
  \<open>pending_creat.cc\<close>, \<open>pending_getattr.cc\<close>, \<open>pending_chmod.cc\<close>, \<open>pending_mkdir.cc\<close>,
  \<open>pending_chdir.cc\<close>, \<open>pending_del.cc\<close>, \<open>pending_rename.cc\<close> and \<open>pending_readdir.cc\<close>; and the two
  that begin with the metadata of a file, \<open>pending_read.cc\<close> and \<open>pending_truncate.cc\<close>.

  Deleting, renaming and listing search for the regular expression that is the path after a caret:
  every path that starts with it, whatever follows.
\<close>

section \<open>Opening and creating\<close>

definition open_try_op :: "'e client_env \<Rightarrow> op_ref \<Rightarrow> file_ref \<Rightarrow> ('r, 'e) client \<Rightarrow> ('r, 'e) client" where
  "open_try_op V p fr s = snd (send_hyperdex V (HD_get (fl_path (cl_files s fr))) p s)"

definition open_handle_hyperdex_message ::
  "e_codec \<Rightarrow> op_ref \<Rightarrow> file_ref \<Rightarrow> int \<Rightarrow> ('r, 'e) client \<Rightarrow> ('r, 'e) client res" where
  "open_handle_hyperdex_message E p fr reqid s =
     rbind (first_message is_get (cl_ops s p)) (\<lambda>msg.
     rbind (parse_metadata E True (msg_attrs msg) (cl_files s fr)) (\<lambda>f.
       Inr (update_op p (remove_hyperdex_message reqid) (update_file fr f s))))"

text \<open>The group stored for a new file is the name of its owner.\<close>

definition creat_attrs :: "'e client_env \<Rightarrow> e_codec \<Rightarrow> client_file \<Rightarrow> u64 \<Rightarrow> hd_attr list" where
  "creat_attrs V E f now =
     [(''mode'', ce_int V (fl_mode f)),
      (''directory'', ce_int V (if fl_is_directory f then 1 else 0)),
      (''blockmap'', serialize_blockmap E f),
      (''owner'', bytes_of_string (ce_user V)),
      (''group'', bytes_of_string (ce_user V)),
      (''time'', ce_int V now)]"

definition creat_try_op :: "'e client_env \<Rightarrow> e_codec \<Rightarrow> op_ref \<Rightarrow> file_ref \<Rightarrow> ('r, 'e) client \<Rightarrow> ('r, 'e) client" where
  "creat_try_op V E p fr s =
     (let f = cl_files s fr;
          (now, e) = ce_time V (cl_env s)
      in snd (send_hyperdex V (HD_put (fl_path f) (creat_attrs V E f now)) p (s\<lparr>cl_env := e\<rparr>)))"

section \<open>Attributes\<close>

definition getattr_try_op :: "'e client_env \<Rightarrow> op_ref \<Rightarrow> string \<Rightarrow> ('r, 'e) client \<Rightarrow> ('r, 'e) client" where
  "getattr_try_op V p path s = snd (send_hyperdex V (HD_get path) p s)"

definition getattr_handle_hyperdex_message ::
  "e_codec \<Rightarrow> op_ref \<Rightarrow> string \<Rightarrow> int \<Rightarrow> ('r, 'e) client \<Rightarrow> ('r, 'e) client res" where
  "getattr_handle_hyperdex_message E p path reqid s =
     rbind (first_message is_get (cl_ops s p)) (\<lambda>msg.
       if msg_status msg = HYPERDEX_CLIENT_NOTFOUND then
         Inr (update_op p (\<lambda>op. remove_hyperdex_message reqid (set_status WTF_CLIENT_NOTFOUND op)) s)
       else
         rbind (parse_metadata_all E (msg_attrs msg) (file_new '''' 0 0)) (\<lambda>f.
         rbind (fill_attrs f) (\<lambda>fa.
           Inr (update_op p (\<lambda>op. remove_hyperdex_message reqid (op\<lparr>po_kind := Op_getattr path (Some fa)\<rparr>)) s))))"

definition chmod_try_op :: "'e client_env \<Rightarrow> op_ref \<Rightarrow> string \<Rightarrow> u64 \<Rightarrow> ('r, 'e) client \<Rightarrow> ('r, 'e) client" where
  "chmod_try_op V p path mode s = snd (send_hyperdex V (HD_put path [(''mode'', ce_int V mode)]) p s)"

definition mkdir_attrs :: "'e client_env \<Rightarrow> u64 \<Rightarrow> u64 \<Rightarrow> hd_attr list" where
  "mkdir_attrs V mode now =
     [(''mode'', ce_int V mode),
      (''directory'', ce_int V 1),
      (''time'', ce_int V (now mod 4294967296)),
      (''owner'', bytes_of_string (ce_user V)),
      (''group'', bytes_of_string (ce_user V))]"

definition mkdir_try_op :: "'e client_env \<Rightarrow> op_ref \<Rightarrow> string \<Rightarrow> u64 \<Rightarrow> ('r, 'e) client \<Rightarrow> ('r, 'e) client" where
  "mkdir_try_op V p path mode s =
     (let (now, e) = ce_time V (cl_env s)
      in snd (send_hyperdex V (HD_put path (mkdir_attrs V mode now)) p (s\<lparr>cl_env := e\<rparr>)))"

text \<open>What \<open>pending_chmod\<close> and \<open>pending_mkdir\<close> do with the answer: they test the status of the wait.\<close>

definition put_handle_hyperdex_message :: "op_ref \<Rightarrow> int \<Rightarrow> hyperdex_status \<Rightarrow> ('r, 'e) client \<Rightarrow> ('r, 'e) client" where
  "put_handle_hyperdex_message p reqid rc s =
     update_op p (\<lambda>op.
       (if rc \<noteq> HYPERDEX_CLIENT_SUCCESS then set_status WTF_CLIENT_SERVERERROR else id)
         (remove_hyperdex_message reqid op)) s"

section \<open>Changing the directory\<close>

text \<open>The loop over the attributes: the directory flag is not converted, which is enough to test it for 0.\<close>

fun chdir_parse :: "e_codec \<Rightarrow> hd_attr list \<Rightarrow> bool res" where
  "chdir_parse E [] = Inr True"
| "chdir_parse E ((name, val) # attrs) =
     (if name = ''directory'' then
        (case up64 E val of
           None \<Rightarrow> Inl Undefined
         | Some (is_dir, _) \<Rightarrow> if is_dir = 0 then Inr False else chdir_parse E attrs)
      else chdir_parse E attrs)"

text \<open>When the path is not found the code returns before the message is taken out.\<close>

definition chdir_handle_hyperdex_message ::
  "e_codec \<Rightarrow> op_ref \<Rightarrow> string \<Rightarrow> int \<Rightarrow> hyperdex_status \<Rightarrow> ('r, 'e) client \<Rightarrow> ('r, 'e) client res" where
  "chdir_handle_hyperdex_message E p path reqid rc s =
     (if rc = HYPERDEX_CLIENT_NOTFOUND then Inr (update_op p (set_status WTF_CLIENT_NOTFOUND) s)
      else
        rbind (first_message is_get (cl_ops s p)) (\<lambda>msg.
        rbind (chdir_parse E (msg_attrs msg)) (\<lambda>ok.
          Inr (update_op p (remove_hyperdex_message reqid)
                (if ok then s\<lparr>cl_cwd := path\<rparr> else update_op p (set_status WTF_CLIENT_NOTDIR) s)))))"

section \<open>Searches\<close>

definition path_regex :: "string \<Rightarrow> string" where
  "path_regex path = CHR ''^'' # path"

text \<open>\<open>pending_del\<close> and \<open>pending_rename\<close> remember the number of their search.\<close>

definition del_try_op :: "'e client_env \<Rightarrow> op_ref \<Rightarrow> string \<Rightarrow> ('r, 'e) client \<Rightarrow> ('r, 'e) client" where
  "del_try_op V p path s =
     (let (reqid, s1) = send_hyperdex V (HD_search (path_regex path)) p s
      in if reqid < 0 then s1 else update_op p (\<lambda>op. op\<lparr>po_kind := Op_del path reqid\<rparr>) s1)"

text \<open>The first attribute with the name \<open>path\<close>.\<close>

definition found_path :: "hd_attr list \<Rightarrow> string option" where
  "found_path attrs = map_option (\<lambda>a. string_of_bytes (snd a)) (find (\<lambda>a. fst a = ''path'') attrs)"

definition del_handle_hyperdex_message ::
  "'e client_env \<Rightarrow> op_ref \<Rightarrow> string \<Rightarrow> int \<Rightarrow> int \<Rightarrow> hyperdex_status \<Rightarrow> ('r, 'e) client \<Rightarrow> ('r, 'e) client res" where
  "del_handle_hyperdex_message V p path search_id reqid rc s =
     (if reqid = search_id then
        rbind (first_message (\<lambda>_. True) (cl_ops s p)) (\<lambda>_.
        if ce_negative V rc then Inr (update_op p (set_status WTF_CLIENT_IO) s)
        else
          rbind (first_message is_search (cl_ops s p)) (\<lambda>msg.
            if msg_status msg = HYPERDEX_CLIENT_SEARCHDONE then Inr (update_op p (remove_hyperdex_message reqid) s)
            else
              (let s1 = (case found_path (msg_attrs msg) of
                           None \<Rightarrow> s
                         | Some target \<Rightarrow> snd (send_hyperdex V (HD_del target) p s))
               in Inr (add_hyperdex_op V (msg_reqid msg) p s1))))
      else
        Inr (update_op p (\<lambda>op. remove_hyperdex_message reqid
               (if rc \<noteq> HYPERDEX_CLIENT_SUCCESS then set_status WTF_CLIENT_IO op else op)) s))"

definition rename_try_op :: "'e client_env \<Rightarrow> op_ref \<Rightarrow> string \<Rightarrow> string \<Rightarrow> ('r, 'e) client \<Rightarrow> ('r, 'e) client" where
  "rename_try_op V p src dst s =
     (let (reqid, s1) = send_hyperdex V (HD_search (path_regex src)) p s
      in if reqid < 0 then s1 else update_op p (\<lambda>op. op\<lparr>po_kind := Op_rename src dst reqid\<rparr>) s1)"

text \<open>
  \<open>change_name\<close>: the attributes without the path, and the path found with its first characters,
  as many as the old name has, replaced by the new one. The result has one attribute less than the
  code was given, which must have one path.
\<close>

definition change_name :: "string \<Rightarrow> string \<Rightarrow> hd_attr list \<Rightarrow> (hd_attr list \<times> string \<times> string) res" where
  "change_name src dst attrs =
     (let rest = filter (\<lambda>a. fst a \<noteq> ''path'') attrs;
          paths = map (\<lambda>a. string_of_bytes (snd a)) (filter (\<lambda>a. fst a = ''path'') attrs)
      in if length rest + 1 \<noteq> length attrs \<or> list_ex (\<lambda>q. length q < length src) paths then Inl Undefined
         else case rev paths of
                [] \<Rightarrow> Inr (rest, '''', '''')
              | q # _ \<Rightarrow> Inr (rest, dst @ drop (length src) q, q))"

text \<open>The search is not registered again for its next result.\<close>

definition rename_handle_hyperdex_message ::
  "'e client_env \<Rightarrow> op_ref \<Rightarrow> string \<Rightarrow> string \<Rightarrow> int \<Rightarrow> int \<Rightarrow> hyperdex_status \<Rightarrow> ('r, 'e) client \<Rightarrow>
     ('r, 'e) client res" where
  "rename_handle_hyperdex_message V p src dst search_id reqid rc s =
     (if reqid = search_id then
        (if ce_negative V rc then Inr (update_op p (set_status WTF_CLIENT_IO) s)
         else if rc = HYPERDEX_CLIENT_SEARCHDONE then Inr (update_op p (remove_hyperdex_message reqid) s)
         else
           rbind (first_message is_search (cl_ops s p)) (\<lambda>msg.
           rbind (change_name src dst (msg_attrs msg)) (\<lambda>(attrs, target, source).
             Inr (snd (send_hyperdex V (HD_del source) p (snd (send_hyperdex V (HD_put target attrs) p s)))))))
      else
        Inr (update_op p (\<lambda>op. remove_hyperdex_message reqid
               (if rc \<noteq> HYPERDEX_CLIENT_SUCCESS then set_status WTF_CLIENT_IO op else op)) s))"

definition readdir_try_op :: "'e client_env \<Rightarrow> op_ref \<Rightarrow> string \<Rightarrow> ('r, 'e) client \<Rightarrow> ('r, 'e) client" where
  "readdir_try_op V p path s = snd (send_hyperdex V (HD_search (path_regex path)) p s)"

text \<open>
  The first path that is not the working directory, relative to the listed one: \<open>substr\<close> of a string
  shorter than the listed path throws.
\<close>

definition readdir_results :: "string \<Rightarrow> string \<Rightarrow> hd_attr list \<Rightarrow> string list res" where
  "readdir_results cwd path attrs =
     (case find (\<lambda>a. fst a = ''path'' \<and> string_of_bytes (snd a) \<noteq> cwd) attrs of
        None \<Rightarrow> Inr []
      | Some a \<Rightarrow>
          (let target = string_of_bytes (snd a)
           in if length target < length path then Inl Undefined else Inr [drop (length path) target]))"

definition readdir_handle_hyperdex_message ::
  "'e client_env \<Rightarrow> op_ref \<Rightarrow> string \<Rightarrow> string list \<Rightarrow> string option \<Rightarrow> int \<Rightarrow> hyperdex_status \<Rightarrow> ('r, 'e) client \<Rightarrow>
     ('r, 'e) client res" where
  "readdir_handle_hyperdex_message V p path results entry reqid rc s =
     rbind (first_message (\<lambda>_. True) (cl_ops s p)) (\<lambda>_.
     if ce_negative V rc then Inr (update_op p (set_status WTF_CLIENT_IO) s)
     else
       rbind (first_message is_search (cl_ops s p)) (\<lambda>msg.
         if msg_status msg = HYPERDEX_CLIENT_SEARCHDONE then
           Inr (update_op p (\<lambda>op. remove_hyperdex_message reqid (op\<lparr>po_kind := Op_readdir path (results @ ['''']) entry\<rparr>)) s)
         else
           rbind (readdir_results (cl_cwd s) path (msg_attrs msg)) (\<lambda>new.
             Inr (add_hyperdex_op V (msg_reqid msg) p
                   (update_op p (\<lambda>op. op\<lparr>po_kind := Op_readdir path (results @ new) entry\<rparr>) s)))))"

section \<open>Reading and truncating\<close>

definition read_try_op :: "'e client_env \<Rightarrow> op_ref \<Rightarrow> pending_read \<Rightarrow> ('r, 'e) client \<Rightarrow> ('r, 'e) client" where
  "read_try_op V p r s = snd (send_hyperdex V (HD_get (fl_path (cl_files s (pr_file r)))) p s)"

text \<open>
  The loop that should send the requests sends a block number and a length that were never set, and
  does not decrease what remains: with anything to read, the operation is undefined.
\<close>

definition read_handle_hyperdex_message ::
  "e_codec \<Rightarrow> op_ref \<Rightarrow> pending_read \<Rightarrow> int \<Rightarrow> ('r, 'e) client \<Rightarrow> ('r, 'e) client res" where
  "read_handle_hyperdex_message E p r reqid s =
     (if pr_state r = 0 then
        rbind (first_message is_get (cl_ops s p)) (\<lambda>msg.
        rbind (parse_metadata E False (msg_attrs msg) (cl_files s (pr_file r))) (\<lambda>f.
          let remaining = min (pr_buf_sz r) (u64_sub (file_length f) (fl_offset f))
          in if remaining > 0 then Inl Undefined
             else Inr (update_op p (\<lambda>op. remove_hyperdex_message reqid
                         (op\<lparr>po_kind := Op_read (r\<lparr>pr_buf_sz := 0, pr_state := 1\<rparr>)\<rparr>)) (update_file (pr_file r) f s))))
      else Inr (update_op p (remove_hyperdex_message reqid) s))"

definition read_handle_wtf_failure :: "op_ref \<Rightarrow> server_id \<Rightarrow> ('r, 'e) client \<Rightarrow> ('r, 'e) client" where
  "read_handle_wtf_failure p si s =
     update_op p (\<lambda>op. remove_wtf_message si (set_status WTF_CLIENT_RECONFIGURE op)) s"

text \<open>\<open>do_op\<close> of a truncation cuts the block map and then reads the first of no locations.\<close>

definition truncate_try_op :: "op_ref \<Rightarrow> file_ref \<Rightarrow> u64 \<Rightarrow> ('r, 'e) client \<Rightarrow> ('r, 'e) client res" where
  "truncate_try_op p fr len s =
     rbind (file_truncate len (cl_files s fr)) (\<lambda>_. Inl Undefined)"

end
