(* ===== verification/Client.thy ===== *)
theory Client
  imports ClientWrite ClientMetadata ClientPath
begin

text \<open>
  \<open>client/client.cc\<close>: the calls of the virtual functions of the operations, the loop that delivers
  their results, and the operations a client offers. A function that returns a request number gives
  it with the status variable it leaves (\<open>None\<close> when it does not write it) and the new state;
  \<open>-1\<close> stands for failure.

  \<open>begin_tx\<close> and \<open>end_tx\<close> are empty and \<open>ls\<close> talks to HyperDex alone.
\<close>

section \<open>The virtual functions\<close>

definition op_can_yield :: "op_ref \<Rightarrow> ('r, 'e) client \<Rightarrow> bool" where
  "op_can_yield p s =
     (let op = cl_ops s p
      in case po_kind op of
           Op_write w \<Rightarrow> write_can_yield op w s
         | Op_readdir path results entry \<Rightarrow> results \<noteq> [] \<and> \<not> po_done op
         | _ \<Rightarrow> aggregation_done op \<and> \<not> po_done op)"

text \<open>
  The status goes to the caller of the loop. For a listing it is the operation's own, before this
  result; the last one of a finished search marks the end.
\<close>

definition op_yield :: "op_ref \<Rightarrow> ('r, 'e) client \<Rightarrow> (wtf_client_returncode \<times> ('r, 'e) client) res" where
  "op_yield p s =
     (let op = cl_ops s p
      in rbind (assert_that (op_can_yield p s)) (\<lambda>_.
           case po_kind op of
             Op_readdir path results entry \<Rightarrow>
               (let op1 = op\<lparr>po_kind := Op_readdir path (tl results) (Some (c_string (hd results)))\<rparr>
                in Inr (po_status op,
                        update_op p (\<lambda>_. if tl results = [] \<and> aggregation_done op
                                         then op1\<lparr>po_status := WTF_CLIENT_READDIRDONE, po_done := True\<rparr>
                                         else op1) s))
           | _ \<Rightarrow> Inr (WTF_CLIENT_SUCCESS, update_op p (\<lambda>op. op\<lparr>po_done := True\<rparr>) s)))"

definition op_handle_wtf_failure :: "op_ref \<Rightarrow> server_id \<Rightarrow> ('r, 'e) client \<Rightarrow> ('r, 'e) client" where
  "op_handle_wtf_failure p si s =
     (case po_kind (cl_ops s p) of
        Op_write w \<Rightarrow> write_handle_wtf_failure p si s
      | Op_read r \<Rightarrow> read_handle_wtf_failure p si s
      | _ \<Rightarrow> update_op p (remove_wtf_message si) s)"

text \<open>
  The message is what follows its type and nonce. Only writes wait for daemons: a read and a
  truncation never send to one. The function of \<open>pending_chmod\<close> and \<open>pending_rename\<close> has no
  return statement.
\<close>

definition op_handle_wtf_message ::
  "'e client_env \<Rightarrow> e_codec \<Rightarrow> op_ref \<Rightarrow> server_id \<Rightarrow> byte list \<Rightarrow> ('r, 'e) client \<Rightarrow> (bool \<times> ('r, 'e) client) run" where
  "op_handle_wtf_message V E p si bs s =
     (case po_kind (cl_ops s p) of
        Op_write w \<Rightarrow> write_handle_wtf_message V E p si bs s
      | Op_chmod _ _ \<Rightarrow> lift_res (Inl Undefined)
      | Op_rename _ _ _ \<Rightarrow> lift_res (Inl Undefined)
      | _ \<Rightarrow> ret (True, update_op p (remove_wtf_message si) s))"

definition op_handle_hyperdex_message ::
  "'e client_env \<Rightarrow> e_codec \<Rightarrow> op_ref \<Rightarrow> int \<Rightarrow> hyperdex_status \<Rightarrow> ('r, 'e) client \<Rightarrow> (bool \<times> ('r, 'e) client) run" where
  "op_handle_hyperdex_message V E p reqid rc s =
     (let ok = (\<lambda>r. lift_res (rbind r (\<lambda>s1. Inr (True, s1))))
      in case po_kind (cl_ops s p) of
           Op_write w \<Rightarrow> write_handle_hyperdex_message V E p reqid rc s
         | Op_read r \<Rightarrow> ok (read_handle_hyperdex_message E p r reqid s)
         | Op_truncate fr len \<Rightarrow> ok (Inr (put_handle_hyperdex_message p reqid rc s))
         | Op_getattr path fa \<Rightarrow> ok (getattr_handle_hyperdex_message E p path reqid s)
         | Op_open fr \<Rightarrow> ok (open_handle_hyperdex_message E p fr reqid s)
         | Op_creat fr \<Rightarrow> ok (Inr (update_op p (remove_hyperdex_message reqid) s))
         | Op_chmod path mode \<Rightarrow> ok (Inr (put_handle_hyperdex_message p reqid rc s))
         | Op_mkdir path mode \<Rightarrow> ok (Inr (put_handle_hyperdex_message p reqid rc s))
         | Op_del path search_id \<Rightarrow> ok (del_handle_hyperdex_message V p path search_id reqid rc s)
         | Op_rename src dst search_id \<Rightarrow> ok (rename_handle_hyperdex_message V p src dst search_id reqid rc s)
         | Op_readdir path results entry \<Rightarrow> ok (readdir_handle_hyperdex_message V p path results entry reqid rc s)
         | Op_chdir path \<Rightarrow> ok (chdir_handle_hyperdex_message E p path reqid rc s))"

section \<open>The loop\<close>

text \<open>The request number, the status and the state.\<close>

type_synonym ('r, 'e) loop_result = "int \<times> wtf_client_returncode \<times> ('r, 'e) client"

definition client_id_of :: "op_ref \<Rightarrow> ('r, 'e) client \<Rightarrow> int" where
  "client_id_of p s = po_client_visible_id (cl_ops s p)"

definition make_yieldable :: "op_ref \<Rightarrow> ('r, 'e) client \<Rightarrow> ('r, 'e) client" where
  "make_yieldable p s = s\<lparr>cl_yieldable := m_insert (u64_of_int (client_id_of p s)) p (cl_yieldable s)\<rparr>"

text \<open>What happens to an operation after a message or a failure.\<close>

definition after_message :: "int \<Rightarrow> op_ref \<Rightarrow> ('r, 'e) client \<Rightarrow> ('r, 'e) client" where
  "after_message wait_for p s =
     (if wait_for > 0 \<and> wait_for \<noteq> client_id_of p s then make_yieldable p s else s\<lparr>cl_yielding := Some p\<rparr>)"

definition loop_yielding ::
  "int \<Rightarrow> wtf_client_returncode \<Rightarrow> op_ref \<Rightarrow> ('r, 'e) client \<Rightarrow> ('r, 'e) loop_result round res" where
  "loop_yielding wait_for status p s =
     (if \<not> op_can_yield p s then Inr (Again (0, status, s\<lparr>cl_yielding := None\<rparr>))
      else if wait_for \<noteq> client_id_of p s then Inr (Again (0, status, (make_yieldable p s)\<lparr>cl_yielding := None\<rparr>))
      else
        rbind (op_yield p s) (\<lambda>(status, s1).
          Inr (Leave (client_id_of p s, status,
                      if op_can_yield p s1 then s1 else s1\<lparr>cl_yielding := None\<rparr>))))"

definition loop_hyperdex ::
  "'e client_env \<Rightarrow> e_codec \<Rightarrow> int \<Rightarrow> wtf_client_returncode \<Rightarrow> ('r, 'e) client \<Rightarrow> ('r, 'e) loop_result round run" where
  "loop_hyperdex V E wait_for status s =
     (let ((reqid, hstatus, mstatus, attrs), e) = ce_hyperdex_loop V (cl_env s);
          s1 = s\<lparr>cl_env := e\<rparr>
      in case map_of (cl_pending_hyperdex_ops s1) (u64_of_int reqid) of
           None \<Rightarrow> ret (Again (0, status, s1))
         | Some (_, p) \<Rightarrow>
             (let s2 = s1\<lparr>cl_pending_hyperdex_ops := m_erase (u64_of_int reqid) (cl_pending_hyperdex_ops s1)\<rparr>;
                  s3 = update_op p (deliver_hyperdex reqid mstatus attrs) s2
              in run_bind (op_handle_hyperdex_message V E p reqid hstatus s3) (\<lambda>(ok, s4).
                   ret (if ok then Again (0, status, after_message wait_for p s4) else Leave (-1, status, s4)))))"

definition loop_message ::
  "'e client_env \<Rightarrow> e_codec \<Rightarrow> int \<Rightarrow> wtf_client_returncode \<Rightarrow> server_id \<Rightarrow> byte list \<Rightarrow> ('r, 'e) client \<Rightarrow>
     ('r, 'e) loop_result round run" where
  "loop_message V E wait_for status i msg s =
     (case do { (mt, bs) \<leftarrow> unpack_msgtype E msg; (nonce, bs) \<leftarrow> up64 E bs; Some (mt, nonce, bs) } of
        None \<Rightarrow> ret (Leave (-1, WTF_CLIENT_SERVERERROR, s))
      | Some (mt, nonce, bs) \<Rightarrow>
          (case map_of (cl_pending_ops s) nonce of
             None \<Rightarrow> ret (Again (0, status, s))
           | Some (si, p) \<Rightarrow>
               (let s1 = s\<lparr>cl_pending_ops := m_erase nonce (cl_pending_ops s)\<rparr>
                in if mt = Some CONFIGMISMATCH then
                     ret (Again (0, status, s1\<lparr>cl_failed := cl_failed s1 @ [(si, p)]\<rparr>))
                   else if i = si \<and> config_exists i (cl_config s1) then
                     run_bind (op_handle_wtf_message V E p i bs s1) (\<lambda>(ok, s2).
                       let status1 = (case po_kind (cl_ops s1 p) of Op_write _ \<Rightarrow> WTF_CLIENT_SUCCESS | _ \<Rightarrow> status)
                       in ret (if ok then Again (0, status1, after_message wait_for p s2) else Leave (-1, status1, s2)))
                   else if i \<noteq> si then ret (Leave (-1, WTF_CLIENT_SERVERERROR, s1))
                   else ret (Again (0, WTF_CLIENT_SERVERERROR, s1)))))"

text \<open>The part of a round that waits for messages.\<close>

definition loop_receive ::
  "'e client_env \<Rightarrow> 'r replicant_ops \<Rightarrow> e_codec \<Rightarrow> int \<Rightarrow> int \<Rightarrow> wtf_client_returncode \<Rightarrow> ('r, 'e) client \<Rightarrow>
     ('r, 'e) loop_result round run" where
  "loop_receive V R E timeout wait_for status s =
     run_bind (lift_res (assert_that (cl_pending_ops s \<noteq> [] \<or> cl_pending_hyperdex_ops s \<noteq> []))) (\<lambda>_.
     run_bind (maintain_coord_connection V R E s) (\<lambda>(failure, s1).
       case failure of
         Some st \<Rightarrow> ret (Leave (-1, st, s1))
       | None \<Rightarrow>
           (let (_, e) = ce_set_external V (cl_env s1);
                ((rc, sid_num, msg), e) = ce_recv V timeout e;
                s2 = s1\<lparr>cl_env := e\<rparr>
            in case rc of
                 BUSYBEE_SUCCESS \<Rightarrow> loop_message V E wait_for status sid_num msg s2
               | BUSYBEE_INTERRUPTED \<Rightarrow> ret (Leave (-1, WTF_CLIENT_INTERRUPTED, s2))
               | BUSYBEE_TIMEOUT \<Rightarrow> ret (Leave (-1, WTF_CLIENT_TIMEOUT, s2))
               | BUSYBEE_DISRUPTED \<Rightarrow> ret (Again (0, status, handle_disruption V sid_num s2))
               | BUSYBEE_EXTERNAL \<Rightarrow>
                   if sid_num = ce_hyperdex_fd V then loop_hyperdex V E wait_for status s2
                   else ret (Again (0, status, s2))
               | _ \<Rightarrow> ret (Leave (-1, WTF_CLIENT_INTERNAL, s2)))))"

definition loop_round ::
  "'e client_env \<Rightarrow> 'r replicant_ops \<Rightarrow> e_codec \<Rightarrow> int \<Rightarrow> int \<Rightarrow> wtf_client_returncode \<Rightarrow> ('r, 'e) client \<Rightarrow>
     ('r, 'e) loop_result round run" where
  "loop_round V R E timeout wait_for status s =
     (case cl_yielding s of
        Some p \<Rightarrow> lift_res (loop_yielding wait_for status p s)
      | None \<Rightarrow>
          (case cl_failed s of
             (si, p) # rest \<Rightarrow>
               ret (Again (0, status, (after_message wait_for p (op_handle_wtf_failure p si s))\<lparr>cl_failed := rest\<rparr>))
           | [] \<Rightarrow>
               (case cl_yieldable s of
                  (i, p) # rest \<Rightarrow>
                    if wait_for > 0 then
                      (case map_of (cl_yieldable s) (u64_of_int wait_for) of
                         Some q \<Rightarrow>
                           ret (Again (0, status, s\<lparr>cl_yielding := Some q,
                                  cl_yieldable := m_erase (u64_of_int wait_for) (cl_yieldable s)\<rparr>))
                       | None \<Rightarrow>
                           if cl_pending_ops s = [] \<and> cl_pending_hyperdex_ops s = []
                           then ret (Leave (-1, WTF_CLIENT_NONEPENDING, s))
                           else loop_receive V R E timeout wait_for status s)
                    else ret (Again (0, status, s\<lparr>cl_yielding := Some p, cl_yieldable := rest\<rparr>))
                | [] \<Rightarrow>
                    if cl_pending_ops s = [] \<and> cl_pending_hyperdex_ops s = []
                    then ret (Leave (-1, WTF_CLIENT_NONEPENDING, s))
                    else loop_receive V R E timeout wait_for status s)))"

partial_function (option) loop_rounds ::
  "'e client_env \<Rightarrow> 'r replicant_ops \<Rightarrow> e_codec \<Rightarrow> int \<Rightarrow> int \<Rightarrow> wtf_client_returncode \<Rightarrow> ('r, 'e) client \<Rightarrow>
     ('r, 'e) loop_result run" where
  "loop_rounds V R E timeout wait_for status s =
     (case loop_round V R E timeout wait_for status s of
        None \<Rightarrow> None
      | Some (Inl e) \<Rightarrow> Some (Inl e)
      | Some (Inr (Leave r)) \<Rightarrow> Some (Inr r)
      | Some (Inr (Again (_, status1, s1))) \<Rightarrow> loop_rounds V R E timeout wait_for status1 s1)"

definition inner_loop ::
  "'e client_env \<Rightarrow> 'r replicant_ops \<Rightarrow> e_codec \<Rightarrow> int \<Rightarrow> int \<Rightarrow> ('r, 'e) client \<Rightarrow> ('r, 'e) loop_result run" where
  "inner_loop V R E timeout wait_for s = loop_rounds V R E timeout wait_for WTF_CLIENT_SUCCESS s"

text \<open>The two overloads of \<open>loop\<close>: for one operation, and for any.\<close>

definition client_loop ::
  "'e client_env \<Rightarrow> 'r replicant_ops \<Rightarrow> e_codec \<Rightarrow> int \<Rightarrow> int \<Rightarrow> ('r, 'e) client \<Rightarrow> ('r, 'e) loop_result run" where
  "client_loop V R E client_id timeout s = inner_loop V R E timeout client_id s"

definition client_loop_any ::
  "'e client_env \<Rightarrow> 'r replicant_ops \<Rightarrow> e_codec \<Rightarrow> int \<Rightarrow> ('r, 'e) client \<Rightarrow> ('r, 'e) loop_result run" where
  "client_loop_any V R E timeout s = inner_loop V R E timeout (-1) s"

end
