(* ===== verification/ClientOps.thy ===== *)
theory ClientOps
  imports Client
begin

text \<open>
  \<open>client/client.cc\<close>: the operations a client offers. A function gives what it returns, \<open>-1\<close> for
  failure, the status variable of the caller (\<open>None\<close> when it does not write it) and the new state.
  A path that cannot be made canonical makes them fail without writing the status: \<open>canon_path\<close>
  reports to a variable of its own.

  The user is the same with \<open>getuid\<close> and \<open>geteuid\<close>. \<open>begin_tx\<close> and \<open>end_tx\<close> are empty; \<open>ls\<close>,
  which talks to HyperDex alone, is in the theory \<open>ListPaths\<close>.
\<close>

type_synonym ('r, 'e) call_result = "int \<times> wtf_client_returncode option \<times> ('r, 'e) client"

definition next_client_id :: "('r, 'e) client \<Rightarrow> int \<times> ('r, 'e) client" where
  "next_client_id s = (cl_next_client_id s, s\<lparr>cl_next_client_id := cl_next_client_id s + 1\<rparr>)"

definition new_file :: "client_file \<Rightarrow> ('r, 'e) client \<Rightarrow> file_ref \<times> ('r, 'e) client" where
  "new_file f s =
     (let r = cl_next_ref s in (r, s\<lparr>cl_files := (cl_files s)(r := f), cl_next_ref := Suc r\<rparr>))"

definition find_file :: "int \<Rightarrow> ('r, 'e) client \<Rightarrow> file_ref option" where
  "find_file fd s = map_of (cl_fds s) (u64_of_int fd)"

text \<open>The absolute path, \<open>None\<close> when there is none.\<close>

definition abs_path :: "string \<Rightarrow> ('r, 'e) client \<Rightarrow> string option res" where
  "abs_path path s = canon_path (cl_cwd s) path_max path"

text \<open>An operation on a path that was started: its number and its status.\<close>

definition started :: "int \<Rightarrow> op_ref \<Rightarrow> ('r, 'e) client \<Rightarrow> ('r, 'e) call_result" where
  "started i p s = (i, Some (po_status (cl_ops s p)), s)"

section \<open>Files\<close>

text \<open>The result also has the new descriptor.\<close>

definition client_open ::
  "'e client_env \<Rightarrow> 'r replicant_ops \<Rightarrow> e_codec \<Rightarrow> string \<Rightarrow> nat \<Rightarrow> u64 \<Rightarrow> u64 \<Rightarrow> u64 \<Rightarrow> ('r, 'e) client \<Rightarrow>
     (u64 \<times> ('r, 'e) call_result) run" where
  "client_open V R E path flags mode num_replicas block_sz s =
     (let (i, s1) = next_client_id s;
          fd = cl_next_fileno s1;
          s2 = s1\<lparr>cl_next_fileno := u64_add fd 1\<rparr>
      in run_bind (maintain_coord_connection V R E s2) (\<lambda>(failure, s3).
           case failure of
             Some st \<Rightarrow> ret (fd, -1, Some st, s3)
           | None \<Rightarrow>
               run_bind (lift_res (abs_path path s3)) (\<lambda>r.
                 case r of
                   None \<Rightarrow> ret (fd, -1, None, s3)
                 | Some abspath \<Rightarrow>
                     if o_creat flags then
                       (let (fr, s4) = new_file ((file_new abspath num_replicas block_sz)
                              \<lparr>fl_flags := flags, fl_mode := mode, fl_owner := ce_user V, fl_group := ce_group V\<rparr>) s3;
                            (p, s5) = new_op i (Op_creat fr) (s4\<lparr>cl_fds := m_assign fd fr (cl_fds s4)\<rparr>)
                        in ret (fd, started i p (creat_try_op V E p fr s5)))
                     else
                       (let (fr, s4) = new_file ((file_new abspath num_replicas block_sz)\<lparr>fl_flags := flags\<rparr>) s3;
                            (p, s5) = new_op i (Op_open fr) (s4\<lparr>cl_fds := m_assign fd fr (cl_fds s4)\<rparr>)
                        in ret (fd, started i p (open_try_op V p fr s5))))))"

text \<open>The conversion to the signed result.\<close>

definition int_of_u64 :: "u64 \<Rightarrow> int" where
  "int_of_u64 n = (if n < 2 ^ 63 then int n else int n - 2 ^ 64)"

datatype whence = SEEK_SET | SEEK_CUR | SEEK_END | OTHER_WHENCE

definition client_lseek :: "int \<Rightarrow> u64 \<Rightarrow> whence \<Rightarrow> ('r, 'e) client \<Rightarrow> ('r, 'e) call_result res" where
  "client_lseek fd offset w s =
     (case find_file fd s of
        None \<Rightarrow> Inr (-1, Some WTF_CLIENT_BADF, s)
      | Some fr \<Rightarrow>
          (let f = cl_files s fr;
               seek = (\<lambda>off. Inr (int_of_u64 off, None, update_file fr (f\<lparr>fl_offset := off\<rparr>) s))
           in case w of
                SEEK_SET \<Rightarrow> seek offset
              | SEEK_CUR \<Rightarrow> seek (u64_add (fl_offset f) offset)
              | SEEK_END \<Rightarrow> seek (u64_add (file_length f) offset)
              | OTHER_WHENCE \<Rightarrow> Inl Undefined))"

text \<open>One round of the loop of \<open>write\<close>: an operation for the next block.\<close>

definition write_block_op ::
  "'e client_env \<Rightarrow> e_codec \<Rightarrow> int \<Rightarrow> file_ref \<Rightarrow> bd_ref \<Rightarrow> byte list \<Rightarrow> u64 \<Rightarrow> ('r, 'e) client \<Rightarrow> ('r, 'e) client run" where
  "write_block_op V E i fr bd data file_offset s =
     (let ((rnd, last_srv), e) = ce_random V (cl_env s);
          s1 = s\<lparr>cl_env := e\<rparr>
      in run_bind (assign_random_block_locations rnd last_srv (cl_addr s1) (cl_config s1)
                     (replicate (fl_replicas (cl_files s1 fr)) bl_default)) (\<lambda>bls.
           let (p, s2) = new_op i (Op_write (write_new E (cl_files s1 fr) fr data bls file_offset bd)) s1;
               s3 = s2\<lparr>cl_bds := (cl_bds s2)(bd := bd_add_op (cl_bds s2 bd))\<rparr>;
               s4 = update_file fr (add_pending_op i (cl_files s3 fr)) s3
           in run_bind (write_try_op V E p s4) (\<lambda>(_, s5).
                ret (update_file fr ((cl_files s5 fr)\<lparr>fl_offset := u64_add file_offset (length data)\<rparr>) s5))))"

partial_function (option) write_loop ::
  "'e client_env \<Rightarrow> e_codec \<Rightarrow> int \<Rightarrow> file_ref \<Rightarrow> bd_ref \<Rightarrow> byte list \<Rightarrow> u64 \<Rightarrow> ('r, 'e) client \<Rightarrow> ('r, 'e) client run" where
  "write_loop V E i fr bd rest file_offset s =
     (if rest = [] then ret s
      else
        (let len = min (length rest) (fl_block_size (cl_files s fr))
         in case write_block_op V E i fr bd (take len rest) file_offset s of
              None \<Rightarrow> None
            | Some (Inl e) \<Rightarrow> Some (Inl e)
            | Some (Inr s1) \<Rightarrow> write_loop V E i fr bd (drop len rest) (u64_add file_offset len) s1))"

definition client_write ::
  "'e client_env \<Rightarrow> e_codec \<Rightarrow> int \<Rightarrow> byte list \<Rightarrow> ('r, 'e) client \<Rightarrow> ('r, 'e) call_result run" where
  "client_write V E fd buf s =
     (case find_file fd s of
        None \<Rightarrow> ret (-1, Some WTF_CLIENT_BADF, s)
      | Some fr \<Rightarrow>
          (let (i, s1) = next_client_id s;
               bd = cl_next_ref s1;
               s2 = s1\<lparr>cl_bds := (cl_bds s1)(bd := 0), cl_next_ref := Suc bd\<rparr>
           in run_bind (write_loop V E i fr bd buf (fl_offset (cl_files s2 fr)) s2) (\<lambda>s3.
                ret (i, if buf = [] then None else Some WTF_CLIENT_SUCCESS, s3))))"

definition client_read ::
  "'e client_env \<Rightarrow> 'r replicant_ops \<Rightarrow> e_codec \<Rightarrow> int \<Rightarrow> u64 \<Rightarrow> ('r, 'e) client \<Rightarrow> ('r, 'e) call_result run" where
  "client_read V R E fd buf_sz s =
     run_bind (maintain_coord_connection V R E s) (\<lambda>(failure, s1).
       case failure of
         Some st \<Rightarrow> ret (-1, Some st, s1)
       | None \<Rightarrow>
           (case find_file fd s1 of
              None \<Rightarrow> ret (-1, Some WTF_CLIENT_BADF, s1)
            | Some fr \<Rightarrow>
                (let (i, s2) = next_client_id s1;
                     r = \<lparr>pr_buf = [], pr_buf_sz = buf_sz, pr_max_buf_sz = buf_sz, pr_offset_map = [], pr_file = fr, pr_state = 0\<rparr>;
                     (p, s3) = new_op i (Op_read r) s2;
                     s4 = update_file fr (add_pending_op i (cl_files s3 fr)) s3
                 in ret (started i p (read_try_op V p r s4)))))"

definition client_truncate ::
  "'e client_env \<Rightarrow> 'r replicant_ops \<Rightarrow> e_codec \<Rightarrow> int \<Rightarrow> u64 \<Rightarrow> ('r, 'e) client \<Rightarrow> ('r, 'e) call_result run" where
  "client_truncate V R E fd len s =
     run_bind (maintain_coord_connection V R E s) (\<lambda>(failure, s1).
       case failure of
         Some st \<Rightarrow> ret (-1, Some st, s1)
       | None \<Rightarrow>
           (case find_file fd s1 of
              None \<Rightarrow> ret (-1, Some WTF_CLIENT_BADF, s1)
            | Some fr \<Rightarrow>
                (let (i, s2) = next_client_id s1;
                     (p, s3) = new_op i (Op_truncate fr len) s2;
                     s4 = update_file fr (add_pending_op i (cl_files s3 fr)) s3
                 in run_bind (lift_res (truncate_try_op p fr len s4)) (\<lambda>s5. ret (started i p s5)))))"

text \<open>Waiting for the operations on a file; the descriptor stays.\<close>

partial_function (option) close_loop ::
  "'e client_env \<Rightarrow> 'r replicant_ops \<Rightarrow> e_codec \<Rightarrow> file_ref \<Rightarrow> int \<Rightarrow> wtf_client_returncode option \<Rightarrow> ('r, 'e) client \<Rightarrow>
     ('r, 'e) call_result run" where
  "close_loop V R E fr retval status s =
     (case pending_ops_pop_front (cl_files s fr) of
        Inl _ \<Rightarrow> Some (Inr (retval, if retval \<ge> 0 then Some WTF_CLIENT_SUCCESS else status, s))
      | Inr (i, f) \<Rightarrow>
          (case inner_loop V R E (-1) i (update_file fr f s) of
             None \<Rightarrow> None
           | Some (Inl e) \<Rightarrow> Some (Inl e)
           | Some (Inr (r, st, s1)) \<Rightarrow>
               if r < 0 \<and> st = WTF_CLIENT_NONEPENDING then close_loop V R E fr retval (Some st) s1
               else if r < 0 then close_loop V R E fr (-1) (Some WTF_CLIENT_IO) s1
               else close_loop V R E fr retval (Some st) s1))"

definition client_close ::
  "'e client_env \<Rightarrow> 'r replicant_ops \<Rightarrow> e_codec \<Rightarrow> int \<Rightarrow> ('r, 'e) client \<Rightarrow> ('r, 'e) call_result run" where
  "client_close V R E fd s =
     (case find_file fd s of
        None \<Rightarrow> ret (-1, Some WTF_CLIENT_BADF, s)
      | Some fr \<Rightarrow> close_loop V R E fr 0 None s)"

section \<open>Paths\<close>

text \<open>The operations that start with making a path canonical.\<close>

definition with_path ::
  "string \<Rightarrow> (string \<Rightarrow> ('r, 'e) client \<Rightarrow> ('r, 'e) call_result) \<Rightarrow> ('r, 'e) client \<Rightarrow> ('r, 'e) call_result res" where
  "with_path path f s =
     rbind (abs_path path s) (\<lambda>r.
       case r of None \<Rightarrow> Inr (-1, None, s) | Some abspath \<Rightarrow> Inr (f abspath s))"

definition client_unlink :: "'e client_env \<Rightarrow> string \<Rightarrow> ('r, 'e) client \<Rightarrow> ('r, 'e) call_result res" where
  "client_unlink V path s =
     with_path path (\<lambda>abspath s.
       let (i, s1) = next_client_id s;
           (p, s2) = new_op i (Op_del abspath 0) s1
       in started i p (del_try_op V p abspath s2)) s"

definition client_rename :: "'e client_env \<Rightarrow> string \<Rightarrow> string \<Rightarrow> ('r, 'e) client \<Rightarrow> ('r, 'e) call_result res" where
  "client_rename V src dst s =
     rbind (abs_path src s) (\<lambda>r.
       case r of
         None \<Rightarrow> Inr (-1, None, s)
       | Some src_abspath \<Rightarrow>
           with_path dst (\<lambda>dst_abspath s.
             let (i, s1) = next_client_id s;
                 (p, s2) = new_op i (Op_rename src_abspath dst_abspath 0) s1
             in started i p (rename_try_op V p src_abspath dst_abspath s2)) s)"

definition client_chmod :: "'e client_env \<Rightarrow> string \<Rightarrow> u64 \<Rightarrow> ('r, 'e) client \<Rightarrow> ('r, 'e) call_result res" where
  "client_chmod V path mode s =
     with_path path (\<lambda>abspath s.
       let (i, s1) = next_client_id s;
           (p, s2) = new_op i (Op_chmod abspath mode) s1
       in started i p (chmod_try_op V p abspath mode s2)) s"

definition client_mkdir :: "'e client_env \<Rightarrow> string \<Rightarrow> u64 \<Rightarrow> ('r, 'e) client \<Rightarrow> ('r, 'e) call_result res" where
  "client_mkdir V path mode s =
     with_path path (\<lambda>abspath s.
       let (i, s1) = next_client_id s;
           (p, s2) = new_op i (Op_mkdir abspath mode) s1
       in started i p (mkdir_try_op V p abspath mode s2)) s"

text \<open>Listing ignores the failure, and then uses a buffer that holds no path.\<close>

definition client_readdir :: "'e client_env \<Rightarrow> string \<Rightarrow> ('r, 'e) client \<Rightarrow> ('r, 'e) call_result res" where
  "client_readdir V path s =
     rbind (abs_path path s) (\<lambda>r.
       case r of
         None \<Rightarrow> Inl Undefined
       | Some abspath \<Rightarrow>
           (let (i, s1) = next_client_id s;
                (p, s2) = new_op i (Op_readdir abspath [] None) s1
            in Inr (started i p (readdir_try_op V p abspath s2))))"

text \<open>These two take a number before they look at the coordinator and the path.\<close>

definition client_getattr ::
  "'e client_env \<Rightarrow> 'r replicant_ops \<Rightarrow> e_codec \<Rightarrow> string \<Rightarrow> ('r, 'e) client \<Rightarrow> ('r, 'e) call_result run" where
  "client_getattr V R E path s =
     (let (i, s1) = next_client_id s
      in run_bind (maintain_coord_connection V R E s1) (\<lambda>(failure, s2).
           case failure of
             Some st \<Rightarrow> ret (-1, Some st, s2)
           | None \<Rightarrow>
               lift_res (with_path path (\<lambda>abspath s.
                 let (p, s3) = new_op i (Op_getattr abspath None) s
                 in started i p (getattr_try_op V p abspath s3)) s2)))"

definition client_chdir ::
  "'e client_env \<Rightarrow> 'r replicant_ops \<Rightarrow> e_codec \<Rightarrow> string \<Rightarrow> ('r, 'e) client \<Rightarrow> ('r, 'e) call_result run" where
  "client_chdir V R E path s =
     (let (i, s1) = next_client_id s
      in run_bind (maintain_coord_connection V R E s1) (\<lambda>(failure, s2).
           case failure of
             Some st \<Rightarrow> ret (-1, Some st, s2)
           | None \<Rightarrow>
               lift_res (with_path path (\<lambda>abspath s.
                 let (p, s3) = new_op i (Op_chdir abspath) s
                 in started i p (snd (send_hyperdex V (HD_get abspath) p s3))) s2)))"

section \<open>Waiting for the result\<close>

text \<open>The operation, and the loop for it when it was started; the loop returns the number it waits for.\<close>

definition and_wait ::
  "'e client_env \<Rightarrow> 'r replicant_ops \<Rightarrow> e_codec \<Rightarrow> ('r, 'e) call_result run \<Rightarrow> ('r, 'e) call_result run" where
  "and_wait V R E call =
     run_bind call (\<lambda>(reqid, status, s).
       if reqid < 0 then ret (reqid, status, s)
       else run_bind (client_loop V R E reqid (-1) s) (\<lambda>(lreqid, status, s). ret (lreqid, Some status, s)))"

definition client_getattr_sync ::
  "'e client_env \<Rightarrow> 'r replicant_ops \<Rightarrow> e_codec \<Rightarrow> string \<Rightarrow> ('r, 'e) client \<Rightarrow> ('r, 'e) call_result run" where
  "client_getattr_sync V R E path s = and_wait V R E (client_getattr V R E path s)"

definition client_write_sync ::
  "'e client_env \<Rightarrow> 'r replicant_ops \<Rightarrow> e_codec \<Rightarrow> int \<Rightarrow> byte list \<Rightarrow> ('r, 'e) client \<Rightarrow> ('r, 'e) call_result run" where
  "client_write_sync V R E fd buf s =
     (if buf = [] then ret (0, None, s) else and_wait V R E (client_write V E fd buf s))"

definition client_read_sync ::
  "'e client_env \<Rightarrow> 'r replicant_ops \<Rightarrow> e_codec \<Rightarrow> int \<Rightarrow> u64 \<Rightarrow> ('r, 'e) client \<Rightarrow> ('r, 'e) call_result run" where
  "client_read_sync V R E fd buf_sz s =
     (if buf_sz = 0 then ret (0, None, s) else and_wait V R E (client_read V R E fd buf_sz s))"

end
