(* ===== verification/Replication.thy ===== *)
theory Replication
  imports DaemonProps "HOL-Library.Multiset"
begin

text \<open>
  Several daemons and the messages between them: what becomes of a write that a client sends to the
  first of its daemons, together with the empty messages that open a channel to the others
  (\<open>client::perform_aggregation\<close>), whatever the order of delivery.
\<close>

section \<open>The network\<close>

text \<open>
  Messages in flight have a sender and a receiver. One for a token that is no daemon goes to a
  client. Messages are delivered in any order.
\<close>

type_synonym flight = "u64 \<times> packet"

record 'db network =
  net_daemons :: "server_id \<Rightarrow> 'db daemon option"
  net_flight :: "flight multiset"
  net_clients :: "flight multiset"

inductive net_step :: "'db kv_ops \<Rightarrow> e_codec \<Rightarrow> 'db network \<Rightarrow> 'db network \<Rightarrow> bool" for K E where
  net_deliver: "net_flight s = add_mset (sender, to, msg) M \<Longrightarrow> net_daemons s to = Some d \<Longrightarrow>
    handle_message K E sender msg d = Inr (d', out) \<Longrightarrow>
    net_step K E s (s\<lparr>net_daemons := (net_daemons s)(to \<mapsto> d'), net_flight := M + image_mset (Pair to) (mset out)\<rparr>)"
| net_client: "net_flight s = add_mset (sender, to, msg) M \<Longrightarrow> net_daemons s to = None \<Longrightarrow>
    net_step K E s (s\<lparr>net_flight := M, net_clients := add_mset (sender, to, msg) (net_clients s)\<rparr>)"

inductive_cases net_stepE: "net_step K E s s'"

section \<open>A write\<close>

definition update_msg :: "e_codec \<Rightarrow> u64 \<Rightarrow> u64 \<Rightarrow> block_location list \<Rightarrow> u64 \<Rightarrow> byte list \<Rightarrow> byte list" where
  "update_msg E nonce token bls file_offset data =
     client_header E REQ_UPDATE nonce @ write_payload E token bls file_offset data"

definition nop_msg :: "e_codec \<Rightarrow> u64 \<Rightarrow> byte list" where
  "nop_msg E nonce = client_header E PACKET_NOP nonce"

text \<open>What \<open>perform_aggregation\<close> sends for a write.\<close>

definition write_flight ::
  "e_codec \<Rightarrow> u64 \<Rightarrow> u64 \<Rightarrow> block_location list \<Rightarrow> u64 \<Rightarrow> byte list \<Rightarrow> flight multiset" where
  "write_flight E nonce token bls file_offset data =
     add_mset (token, bl_si (hd bls), update_msg E nonce token bls file_offset data)
       (image_mset (\<lambda>i. (token, bl_si (bls ! i), nop_msg E (nonce + i))) (mset_set {1..<length bls}))"

text \<open>A client has sent a write for new blocks on distinct daemons with room for it.\<close>

definition write_sent ::
  "'db kv_ops \<Rightarrow> e_codec \<Rightarrow> u64 \<Rightarrow> u64 \<Rightarrow> block_location list \<Rightarrow> u64 \<Rightarrow> byte list \<Rightarrow> 'db network \<Rightarrow> bool" where
  "write_sent K E nonce token bls file_offset data s \<longleftrightarrow>
     net_flight s = write_flight E nonce token bls file_offset data \<and> net_clients s = {#} \<and>
     bls \<noteq> [] \<and> length bls < 2 ^ 32 \<and> fresh_locations bls \<and> distinct (map bl_si bls) \<and>
     nonce + length bls < u64_bound \<and> token < u64_bound \<and> net_daemons s token = None \<and> file_offset < u64_bound \<and>
     0 < length data \<and> length data < u64_max \<and>
     (\<forall>b \<in> set bls. \<exists>d. net_daemons s (bl_si b) = Some d \<and> dm_us d = bl_si b \<and> daemon_ready K (length data) d)"

lemma reply_nonce_nth:
  assumes "distinct (map bl_si bls)" and "i < length bls" and "nonce + length bls < u64_bound"
  shows "reply_nonce (bl_si (bls ! i)) nonce bls = nonce + i"
proof -
  have "length (takeWhile (\<lambda>bl. bl_si bl \<noteq> bl_si (bls ! i)) bls) = i"
    using assms(1,2)
  proof (induction bls arbitrary: i)
    case (Cons b bls)
    show ?case
    proof (cases i)
      case (Suc j)
      then have "bl_si b \<noteq> bl_si (bls ! j)" using Cons.prems by (auto simp: image_iff)
      then show ?thesis using Cons Suc by simp
    qed simp
  qed simp
  then show ?thesis using assms(2,3) by (simp add: reply_nonce_def u64_simps)
qed

text \<open>
  After \<open>n\<close> steps: the daemons in \<open>P\<close> have handled the message, the client has the answers of
  \<open>Q\<close>, the empty messages of \<open>N\<close> are still on their way.
\<close>

definition write_todo :: "block_location list \<Rightarrow> nat set \<Rightarrow> nat set" where
  "write_todo bls P = (if 0 \<in> P then {..<length bls} - P else {0})"

definition copy_to :: "u64 \<Rightarrow> block_location list \<Rightarrow> byte list \<Rightarrow> nat \<Rightarrow> flight" where
  "copy_to token bls msg i = (if i = 0 then token else bl_si (hd bls), bl_si (bls ! i), msg)"

definition nop_to :: "e_codec \<Rightarrow> u64 \<Rightarrow> u64 \<Rightarrow> block_location list \<Rightarrow> nat \<Rightarrow> flight" where
  "nop_to E nonce token bls i = (token, bl_si (bls ! i), nop_msg E (nonce + i))"

definition answer_of :: "u64 \<Rightarrow> block_location list \<Rightarrow> (nat \<Rightarrow> byte list) \<Rightarrow> nat \<Rightarrow> flight" where
  "answer_of token bls rep i = (bl_si (bls ! i), token, rep i)"

definition write_run ::
  "'db kv_ops \<Rightarrow> e_codec \<Rightarrow> u64 \<Rightarrow> u64 \<Rightarrow> block_location list \<Rightarrow> u64 \<Rightarrow> byte list \<Rightarrow> 'db network \<Rightarrow>
     nat \<Rightarrow> nat set \<Rightarrow> nat set \<Rightarrow> nat set \<Rightarrow> (nat \<Rightarrow> byte list) \<Rightarrow> 'db network \<Rightarrow> bool" where
  "write_run K E nonce token bls file_offset data s0 n P Q N rep s \<longleftrightarrow>
     (let msg = update_msg E nonce token bls file_offset data
      in P \<subseteq> {..<length bls} \<and> (P \<noteq> {} \<longrightarrow> 0 \<in> P) \<and> Q \<subseteq> P \<and> N \<subseteq> {1..<length bls} \<and>
         n + card N + 1 = card P + card Q + length bls \<and>
         net_flight s = image_mset (copy_to token bls msg) (mset_set (write_todo bls P)) +
           image_mset (nop_to E nonce token bls) (mset_set N) +
           image_mset (answer_of token bls rep) (mset_set (P - Q)) \<and>
         net_clients s = image_mset (answer_of token bls rep) (mset_set Q) \<and>
         (\<forall>j. j \<notin> (\<lambda>i. bl_si (bls ! i)) ` P \<longrightarrow> net_daemons s j = net_daemons s0 j) \<and>
         (\<forall>i \<in> P. \<exists>d d'. net_daemons s0 (bl_si (bls ! i)) = Some d \<and> net_daemons s (bl_si (bls ! i)) = Some d' \<and>
            write_done K E data (nonce + i) file_offset d d' (rep i)))"

lemma write_run_start:
  assumes "write_sent K E nonce token bls file_offset data s"
  shows "write_run K E nonce token bls file_offset data s 0 {} {} {1..<length bls} (\<lambda>i. []) s"
proof -
  have "bls \<noteq> []" using assms by (simp add: write_sent_def)
  then have "copy_to token bls m 0 = (token, bl_si (hd bls), m)" "length bls - 1 + 1 = length bls" for m
    by (cases bls; simp add: copy_to_def)+
  then show ?thesis using assms
    by (simp add: write_sent_def write_run_def write_flight_def write_todo_def nop_to_def [abs_def])
qed


lemma forward_rest:
  assumes "bl_si (hd bls) = us"
  shows "mset (map (Pair us) (forward_message (tl bls) msg)) =
    image_mset (copy_to token bls msg) (mset_set ({..<length bls} - {0}))"
proof (cases bls)
  case (Cons b rest)
  have "{..<length bls} - {0} = Suc ` {..<length rest}"
    unfolding Cons by (simp add: lessThan_Suc_eq_insert_0)
  then have "image_mset (copy_to token bls msg) (mset_set ({..<length bls} - {0})) =
      image_mset (\<lambda>i. (us, bl_si (rest ! i), msg)) (mset_set {..<length rest})"
    using assms by (simp add: image_mset_mset_set [symmetric] image_mset.compositionality comp_def Cons copy_to_def)
  also have "\<dots> = mset (map (\<lambda>i. (us, bl_si (rest ! i), msg)) [0..<length rest])"
    by (simp add: lessThan_atLeast0)
  also have "map (\<lambda>i. (us, bl_si (rest ! i), msg)) [0..<length rest] = map (Pair us) (forward_message rest msg)"
    by (rule nth_equalityI) (simp_all add: forward_message_def)
  finally show ?thesis by (simp add: Cons)
qed (simp add: forward_message_def)

lemma write_targets:
  assumes "write_sent K E nonce token bls file_offset data s0"
  shows write_target: "i < length bls \<Longrightarrow> \<exists>d. net_daemons s0 (bl_si (bls ! i)) = Some d \<and>
      dm_us d = bl_si (bls ! i) \<and> daemon_ready K (length data) d"
    and write_token: "i < length bls \<Longrightarrow> bl_si (bls ! i) \<noteq> token"
    and write_distinct: "i < length bls \<Longrightarrow> j < length bls \<Longrightarrow> bl_si (bls ! i) = bl_si (bls ! j) \<longleftrightarrow> i = j"
    and write_nonempty: "bls \<noteq> []"
proof -
  have ds: "\<forall>b \<in> set bls. \<exists>d. net_daemons s0 (bl_si b) = Some d \<and> dm_us d = bl_si b \<and> daemon_ready K (length data) d"
    and tok: "net_daemons s0 token = None" and dist: "distinct (map bl_si bls)" and ne: "bls \<noteq> []"
    using assms by (simp_all add: write_sent_def)
  show t: "\<exists>d. net_daemons s0 (bl_si (bls ! i)) = Some d \<and> dm_us d = bl_si (bls ! i) \<and> daemon_ready K (length data) d"
    if "i < length bls" for i using ds that by simp
  show "bl_si (bls ! i) \<noteq> token" if "i < length bls" for i using t [OF that] tok by auto
  show "bl_si (bls ! i) = bl_si (bls ! j) \<longleftrightarrow> i = j" if "i < length bls" "j < length bls" for i j
    using dist that nth_eq_iff_index_eq [of "map bl_si bls" i j] by simp
  show "bls \<noteq> []" by (fact ne)
qed

lemma handle_write:
  assumes K: "kv_store K" and E: "e_buffer E" and w: "write_sent K E nonce token bls file_offset data s0"
    and i: "i < length bls" and d: "net_daemons s0 (bl_si (bls ! i)) = Some d"
    and msg: "msg = update_msg E nonce token bls file_offset data"
  shows "\<exists>d' reply. handle_message K E sender msg d =
      Inr (d', (if i = 0 then forward_message (tl bls) msg else []) @ [(token, reply)]) \<and>
    write_done K E data (nonce + i) file_offset d d' reply"
proof -
  have *: "bls \<noteq> []" "length bls < 2 ^ 32" "fresh_locations bls" "distinct (map bl_si bls)" "nonce + length bls < u64_bound"
    "token < u64_bound" "file_offset < u64_bound" "0 < length data" "length data < u64_max"
    using w by (simp_all add: write_sent_def)
  have us: "dm_us d = bl_si (bls ! i)" and ready: "daemon_ready K (length data) d"
    using write_target [OF w i] d by auto
  have first: "bl_si (hd bls) = dm_us d \<longleftrightarrow> i = 0"
    using write_distinct [OF w, of 0 i] *(1) i us by (auto simp: hd_conv_nth)
  have nonce: "reply_nonce (dm_us d) nonce bls = nonce + i"
    using reply_nonce_nth [OF *(4) i *(5)] us by simp
  from process_update_done [OF K E *(6) *(2,1,3) *(7,8,9) ready, of nonce msg] show ?thesis
    unfolding first nonce msg update_msg_def by (subst e_buffer.handle_update [OF E]) (use *(5) in auto)
qed

text \<open>
  What the messages in flight are: copies of the write for daemons that lack it, empty messages for
  daemons, answers for the client.
\<close>

lemma write_run_flight:
  assumes w: "write_sent K E nonce token bls file_offset data s0"
    and run: "write_run K E nonce token bls file_offset data s0 n P Q N rep s"
    and mem: "(sender, to, msg) \<in># net_flight s"
  obtains (copy) i d where "i < length bls" "i \<notin> P" "i \<in> write_todo bls P" "to = bl_si (bls ! i)"
      "(sender, to, msg) = copy_to token bls (update_msg E nonce token bls file_offset data) i"
      "net_daemons s0 to = Some d" "net_daemons s to = Some d"
  | (nop) i d where "i \<in> N" "(sender, to, msg) = nop_to E nonce token bls i" "net_daemons s to = Some d"
  | (answer) i where "i \<in> P - Q" "(sender, to, msg) = answer_of token bls rep i" "net_daemons s to = None"
proof -
  let ?msg = "update_msg E nonce token bls file_offset data"
  have P: "P \<subseteq> {..<length bls}" "P \<noteq> {} \<longrightarrow> 0 \<in> P" "N \<subseteq> {1..<length bls}" and fl: "net_flight s =
      image_mset (copy_to token bls ?msg) (mset_set (write_todo bls P)) + image_mset (nop_to E nonce token bls) (mset_set N) +
      image_mset (answer_of token bls rep) (mset_set (P - Q))"
    and ds: "\<And>j. j \<notin> (\<lambda>i. bl_si (bls ! i)) ` P \<Longrightarrow> net_daemons s j = net_daemons s0 j"
    and dn: "\<forall>i \<in> P. \<exists>d d'. net_daemons s0 (bl_si (bls ! i)) = Some d \<and> net_daemons s (bl_si (bls ! i)) = Some d' \<and>
            write_done K E data (nonce + i) file_offset d d' (rep i)"
    using run by (simp_all add: write_run_def Let_def)
  have "finite P" using P(1) by (rule finite_subset) simp
  moreover have "finite N" using P(3) by (rule finite_subset) simp
  ultimately have fin: "finite (P - Q)" "finite (write_todo bls P)" "finite N" by (simp_all add: write_todo_def)
  have todo: "i < length bls \<and> i \<notin> P" if "i \<in> write_todo bls P" for i
    using that write_nonempty [OF w] P(2) by (auto simp: write_todo_def split: if_splits)
  have fresh: "net_daemons s (bl_si (bls ! i)) = net_daemons s0 (bl_si (bls ! i))" if "i < length bls" "i \<notin> P" for i
    by (rule ds) (use write_distinct [OF w] P(1) that in \<open>auto simp: subset_eq\<close>)
  consider i where "i \<in> write_todo bls P" "(sender, to, msg) = copy_to token bls ?msg i"
    | i where "i \<in> N" "(sender, to, msg) = nop_to E nonce token bls i"
    | i where "i \<in> P - Q" "(sender, to, msg) = answer_of token bls rep i"
    using mem fin unfolding fl by (auto simp del: Diff_iff)
  then show thesis
  proof cases
    case 1
    then have i: "i < length bls" "i \<notin> P" using todo by auto
    then obtain d where d: "net_daemons s0 (bl_si (bls ! i)) = Some d" using write_target [OF w i(1)] by auto
    have "to = bl_si (bls ! i)" using 1(2) by (simp add: copy_to_def)
    with 1 i d fresh [OF i] copy show thesis by simp
  next
    case 2
    then have i: "i < length bls" using P(3) by auto
    have "\<exists>d. net_daemons s (bl_si (bls ! i)) = Some d"
      using fresh [OF i] dn write_target [OF w i] by (cases "i \<in> P") auto
    with 2 nop show thesis by (auto simp: nop_to_def)
  next
    case 3
    have "token \<notin> (\<lambda>i. bl_si (bls ! i)) ` P" using write_token [OF w] P(1) by force
    then have "net_daemons s token = None" using ds w by (simp add: write_sent_def)
    with 3 answer show thesis by (simp add: answer_of_def)
  qed
qed

lemma mset_set_Diff_single: "finite A \<Longrightarrow> i \<in> A \<Longrightarrow> mset_set A = add_mset i (mset_set (A - {i}))"
  by (metis mset_set.remove)


lemma write_run_deliver:
  assumes w: "write_sent K E nonce token bls file_offset data s0"
    and run: "write_run K E nonce token bls file_offset data s0 n P Q N rep s"
    and i: "i < length bls" "i \<notin> P" "i \<in> write_todo bls P"
    and msg: "msg = update_msg E nonce token bls file_offset data"
    and fl: "net_flight s = add_mset (copy_to token bls msg i) M"
    and d: "net_daemons s0 (bl_si (bls ! i)) = Some d"
    and out: "out = (if i = 0 then forward_message (tl bls) msg else []) @ [(token, reply)]"
    and wd: "write_done K E data (nonce + i) file_offset d d' reply"
  shows "write_run K E nonce token bls file_offset data s0 (Suc n) (insert i P) Q N (rep(i := reply))
    (s\<lparr>net_daemons := (net_daemons s)(bl_si (bls ! i) \<mapsto> d'), net_flight := M + mset (map (Pair (bl_si (bls ! i))) out)\<rparr>)"
proof -
  let ?send = "image_mset (copy_to token bls msg)"
  let ?ans = "\<lambda>rep. image_mset (answer_of token bls rep)"
  have P: "P \<subseteq> {..<length bls}" "P \<noteq> {} \<longrightarrow> 0 \<in> P" "Q \<subseteq> P" "N \<subseteq> {1..<length bls}"
    "n + card N + 1 = card P + card Q + length bls"
    and fl0: "net_flight s = ?send (mset_set (write_todo bls P)) + image_mset (nop_to E nonce token bls) (mset_set N) +
      ?ans rep (mset_set (P - Q))"
    and cl: "net_clients s = ?ans rep (mset_set Q)"
    and ds: "\<And>j. j \<notin> (\<lambda>i. bl_si (bls ! i)) ` P \<Longrightarrow> net_daemons s j = net_daemons s0 j"
    and dn: "\<And>k. k \<in> P \<Longrightarrow> \<exists>d d'. net_daemons s0 (bl_si (bls ! k)) = Some d \<and>
      net_daemons s (bl_si (bls ! k)) = Some d' \<and> write_done K E data (nonce + k) file_offset d d' (rep k)"
    using run unfolding write_run_def Let_def msg by simp_all
  have fin: "finite P" "finite Q" "finite (write_todo bls P)"
    using P(1,3) by (auto simp: write_todo_def intro: finite_subset)
  have same: "?ans (rep(i := reply)) (mset_set A) = ?ans rep (mset_set A)" if "A \<subseteq> P" for A
    using that i(2) fin(1) finite_subset [OF that] by (intro image_mset_cong) (auto simp: answer_of_def)
  have "?send (mset_set (write_todo bls P)) = add_mset (copy_to token bls msg i) (?send (mset_set (write_todo bls P - {i})))"
    using i(3) fin mset_set_Diff_single [of "write_todo bls P" i] by simp
  then have M: "M = ?send (mset_set (write_todo bls P - {i})) + image_mset (nop_to E nonce token bls) (mset_set N) +
      ?ans rep (mset_set (P - Q))"
    using fl fl0 by simp
  have todo: "?send (mset_set (write_todo bls (insert i P))) = ?send (mset_set (write_todo bls P - {i})) +
      mset (map (Pair (bl_si (bls ! i))) (if i = 0 then forward_message (tl bls) msg else []))"
  proof (cases "i = 0")
    case True
    then have "P = {}" using i(2) P(2) by auto
    then show ?thesis
      using True forward_rest [of bls "bl_si (bls ! 0)" msg token] write_nonempty [OF w]
      by (simp add: write_todo_def hd_conv_nth)
  next
    case False
    then have "0 \<in> P" using i(3) by (simp add: write_todo_def split: if_splits)
    then show ?thesis using False by (simp add: write_todo_def Diff_insert2 [of _ i P] Diff_insert [symmetric])
  qed
  have ins: "insert i P - Q = insert i (P - Q)" using i(2) P(3) by auto
  have ans: "?ans (rep(i := reply)) (mset_set (insert i P - Q)) =
      add_mset (bl_si (bls ! i), token, reply) (?ans rep (mset_set (P - Q)))"
    unfolding ins using same [of "P - Q"] fin i(2) by (simp add: mset_set.insert) (simp add: answer_of_def)
  have flight: "M + mset (map (Pair (bl_si (bls ! i))) out) = ?send (mset_set (write_todo bls (insert i P))) +
      image_mset (nop_to E nonce token bls) (mset_set N) + ?ans (rep(i := reply)) (mset_set (insert i P - Q))"
    unfolding todo ans M out by simp
  have sub: "insert i P \<subseteq> {..<length bls}" "0 \<in> insert i P" "Q \<subseteq> insert i P"
      "Suc n + card N + 1 = card (insert i P) + card Q + length bls"
    using P i fin by (auto simp: write_todo_def split: if_splits)
  have dn': "\<exists>d d''. net_daemons s0 (bl_si (bls ! k)) = Some d \<and>
      ((net_daemons s)(bl_si (bls ! i) \<mapsto> d')) (bl_si (bls ! k)) = Some d'' \<and>
      write_done K E data (nonce + k) file_offset d d'' ((rep(i := reply)) k)" if k: "k \<in> insert i P" for k
  proof (cases "k = i")
    case False
    then have "bl_si (bls ! k) \<noteq> bl_si (bls ! i)" using write_distinct [OF w _ i(1)] k P(1) by auto
    then show ?thesis using False dn [of k] k by simp
  qed (use d wd in simp)
  have cl': "net_clients s = ?ans (rep(i := reply)) (mset_set Q)" using cl same [OF P(3)] by simp
  have ds': "j \<notin> (\<lambda>i. bl_si (bls ! i)) ` insert i P \<Longrightarrow>
      ((net_daemons s)(bl_si (bls ! i) \<mapsto> d')) j = net_daemons s0 j" for j
    using ds [of j] by auto
  show ?thesis
    unfolding write_run_def Let_def msg [symmetric]
    using sub P(4) flight cl' ds' dn' by (simp del: fun_upd_apply insert_iff)
qed

lemma write_run_nop:
  assumes run: "write_run K E nonce token bls file_offset data s0 n P Q N rep s"
    and i: "i \<in> N" and fl: "net_flight s = add_mset (nop_to E nonce token bls i) M"
  shows "write_run K E nonce token bls file_offset data s0 (Suc n) P Q (N - {i}) rep (s\<lparr>net_flight := M\<rparr>)"
proof -
  have "N \<subseteq> {1..<length bls}" using run by (simp add: write_run_def Let_def)
  then have fin: "finite N" by (rule finite_subset) simp
  then have "card N = Suc (card (N - {i}))" using card.remove [OF fin i] by simp
  then show ?thesis using run fl mset_set_Diff_single [OF fin i] unfolding write_run_def Let_def by auto
qed

lemma write_run_answer:
  assumes run: "write_run K E nonce token bls file_offset data s0 n P Q N rep s"
    and i: "i \<in> P - Q" and fl: "net_flight s = add_mset (answer_of token bls rep i) M"
  shows "write_run K E nonce token bls file_offset data s0 (Suc n) P (insert i Q) N rep
    (s\<lparr>net_flight := M, net_clients := add_mset (answer_of token bls rep i) (net_clients s)\<rparr>)"
proof -
  have "finite P" and "Q \<subseteq> P" using run by (auto simp: write_run_def Let_def intro: finite_subset)
  then have fin: "finite P" "finite Q" "Q \<subseteq> P" by (auto intro: finite_subset)
  have "P - insert i Q = P - Q - {i}" by auto
  then have "image_mset (answer_of token bls rep) (mset_set (P - Q)) =
      add_mset (answer_of token bls rep i) (image_mset (answer_of token bls rep) (mset_set (P - insert i Q)))"
    using mset_set_Diff_single [of "P - Q" i] fin i by simp
  then show ?thesis using run fl fin i unfolding write_run_def Let_def by (simp add: mset_set.insert)
qed


lemma handle_nop:
  assumes "e_buffer E"
  shows "handle_message K E sender (nop_msg E nonce) d = Inr (d, [])"
proof -
  have "unpack_msgtype E (client_header E PACKET_NOP nonce) = Some (Some PACKET_NOP, pk64 E nonce)"
    using e_buffer.unpack_pack_msgtype [OF assms, of PACKET_NOP "pk64 E nonce"] by (simp add: client_header_def pack_msgtype_def)
  then show ?thesis by (simp add: handle_message_def nop_msg_def split: option.split)
qed

lemma write_run_step:
  assumes K: "kv_store K" and E: "e_buffer E" and w: "write_sent K E nonce token bls file_offset data s0"
    and run: "write_run K E nonce token bls file_offset data s0 n P Q N rep s" and step: "net_step K E s s'"
  shows "\<exists>P' Q' N' rep'. write_run K E nonce token bls file_offset data s0 (Suc n) P' Q' N' rep' s'"
  using step
proof (rule net_stepE)
  fix sender to msg M d d' out
  assume 1: "s' = s\<lparr>net_daemons := (net_daemons s)(to \<mapsto> d'), net_flight := M + image_mset (Pair to) (mset out)\<rparr>"
    "net_flight s = add_mset (sender, to, msg) M" "net_daemons s to = Some d" "handle_message K E sender msg d = Inr (d', out)"
  then have "(sender, to, msg) \<in># net_flight s" by simp
  then show ?thesis
  proof (cases rule: write_run_flight [OF w run, consumes 1, case_names copy nop answer])
    case (copy i d0)
    let ?msg = "update_msg E nonce token bls file_offset data"
    have m: "msg = ?msg" using copy(5) by (simp add: copy_to_def)
    have d: "net_daemons s0 (bl_si (bls ! i)) = Some d" using copy(4,6,7) 1(3) by simp
    from handle_write [OF K E w copy(1) d m, of sender] 1(4) obtain reply where
      "out = (if i = 0 then forward_message (tl bls) ?msg else []) @ [(token, reply)]"
      "write_done K E data (nonce + i) file_offset d d' reply" unfolding m by auto
    from write_run_deliver [OF w run copy(1-3) refl _ d this] 1(1,2) copy(4,5) show ?thesis by auto
  next
    case (nop i d0)
    then have "msg = nop_msg E (nonce + i)" by (simp add: nop_to_def)
    then have "d' = d" "out = []" using 1(4) by (simp_all add: handle_nop [OF E])
    then have "s' = s\<lparr>net_flight := M\<rparr>" using 1(1,3) by (simp add: fun_upd_idem)
    then show ?thesis using write_run_nop [OF run nop(1)] 1(2) nop(2) by metis
  next
    case (answer i)
    then show ?thesis using 1(3) by simp
  qed
next
  fix sender to msg M
  assume 2: "s' = s\<lparr>net_flight := M, net_clients := add_mset (sender, to, msg) (net_clients s)\<rparr>"
    "net_flight s = add_mset (sender, to, msg) M" "net_daemons s to = None"
  then have "(sender, to, msg) \<in># net_flight s" by simp
  then show ?thesis
  proof (cases rule: write_run_flight [OF w run, consumes 1, case_names copy nop answer])
    case (answer i)
    then have "net_flight s = add_mset (answer_of token bls rep i) M" using 2(2) by simp
    from write_run_answer [OF run answer(1) this] show ?thesis unfolding 2(1) answer(2) by blast
  qed (use 2(3) in simp_all)
qed

lemma write_run_steps:
  assumes "kv_store K" and "e_buffer E" and "write_sent K E nonce token bls file_offset data s0"
    and "(net_step K E ^^ n) s0 s"
  shows "\<exists>P Q N rep. write_run K E nonce token bls file_offset data s0 n P Q N rep s"
  using assms(4)
proof (induction n arbitrary: s)
  case 0
  then show ?case using write_run_start [OF assms(3)] by auto
next
  case (Suc n)
  then obtain s1 where "(net_step K E ^^ n) s0 s1" and "net_step K E s1 s" by auto
  then show ?case using Suc.IH write_run_step [OF assms(1-3)] by blast
qed

lemma write_run_progress:
  assumes K: "kv_store K" and E: "e_buffer E" and w: "write_sent K E nonce token bls file_offset data s0"
    and run: "write_run K E nonce token bls file_offset data s0 n P Q N rep s" and ne: "net_flight s \<noteq> {#}"
  shows "\<exists>s'. net_step K E s s'"
proof -
  obtain sender to msg where mem: "(sender, to, msg) \<in># net_flight s" using ne by fastforce
  then obtain M where M: "net_flight s = add_mset (sender, to, msg) M" by (meson mset_add)
  from mem show ?thesis
  proof (cases rule: write_run_flight [OF w run, consumes 1, case_names copy nop answer])
    case (copy i d)
    have m: "msg = update_msg E nonce token bls file_offset data" using copy(5) by (simp add: copy_to_def)
    from handle_write [OF K E w copy(1) _ m, of d sender] copy(4,6) obtain d' out
      where "handle_message K E sender msg d = Inr (d', out)" by auto
    then show ?thesis using net_step.net_deliver [OF M copy(7)] by blast
  next
    case (nop i d)
    then have "msg = nop_msg E (nonce + i)" by (simp add: nop_to_def)
    then show ?thesis using net_step.net_deliver [OF M nop(3)] handle_nop [OF E] by blast
  next
    case (answer i)
    then show ?thesis using net_step.net_client [OF M] by blast
  qed
qed

lemma write_run_end:
  assumes w: "write_sent K E nonce token bls file_offset data s0"
    and run: "write_run K E nonce token bls file_offset data s0 n P Q N rep s" and idle: "net_flight s = {#}"
  shows "P = {..<length bls} \<and> Q = {..<length bls} \<and> N = {}"
proof -
  let ?msg = "update_msg E nonce token bls file_offset data"
  have P: "P \<subseteq> {..<length bls}" "Q \<subseteq> P" "N \<subseteq> {1..<length bls}" and fl: "net_flight s =
      image_mset (copy_to token bls ?msg) (mset_set (write_todo bls P)) + image_mset (nop_to E nonce token bls) (mset_set N) +
      image_mset (answer_of token bls rep) (mset_set (P - Q))"
    using run by (simp_all add: write_run_def Let_def)
  have "mset_set (write_todo bls P) = {#}" "mset_set N = {#}" "mset_set (P - Q) = {#}"
    using fl idle by (metis image_mset_is_empty_iff empty_eq_union)+
  moreover have "finite (write_todo bls P)" "finite N" "finite (P - Q)"
    using finite_subset [OF P(1)] finite_subset [OF P(3)] by (auto simp: write_todo_def)
  ultimately have "write_todo bls P = {}" "N = {}" "P - Q = {}" by (metis mset_set_empty_iff)+
  then show ?thesis using P by (auto simp: write_todo_def split: if_splits)
qed

text \<open>When nothing is in flight: who has stored what, and which answers the client has.\<close>

lemma write_run_idle:
  assumes w: "write_sent K E nonce token bls file_offset data s0"
    and run: "write_run K E nonce token bls file_offset data s0 n P Q N rep s" and idle: "net_flight s = {#}"
  shows "n + 1 = 3 * length bls \<and> (\<forall>j. j \<notin> bl_si ` set bls \<longrightarrow> net_daemons s j = net_daemons s0 j) \<and>
    net_clients s = mset (map (answer_of token bls rep) [0..<length bls]) \<and>
    (\<forall>i < length bls. \<exists>d d'. net_daemons s0 (bl_si (bls ! i)) = Some d \<and> net_daemons s (bl_si (bls ! i)) = Some d' \<and>
       write_done K E data (nonce + i) file_offset d d' (rep i))"
proof -
  note PQ = write_run_end [OF w run idle, THEN conjunct1] write_run_end [OF w run idle, THEN conjunct2, THEN conjunct1]
    write_run_end [OF w run idle, THEN conjunct2, THEN conjunct2]
  have P: "n + card N + 1 = card P + card Q + length bls" and cl: "net_clients s = image_mset (answer_of token bls rep) (mset_set Q)"
    and other: "\<And>j. j \<notin> (\<lambda>i. bl_si (bls ! i)) ` P \<Longrightarrow> net_daemons s j = net_daemons s0 j"
    and stored: "\<forall>i \<in> P. \<exists>d d'. net_daemons s0 (bl_si (bls ! i)) = Some d \<and> net_daemons s (bl_si (bls ! i)) = Some d' \<and>
      write_done K E data (nonce + i) file_offset d d' (rep i)" using run by (simp_all add: write_run_def Let_def)
  have "net_clients s = mset (map (answer_of token bls rep) [0..<length bls])"
    using cl by (simp add: PQ lessThan_atLeast0)
  moreover have "net_daemons s j = net_daemons s0 j" if "j \<notin> bl_si ` set bls" for j
    using other [of j] that unfolding PQ by force
  ultimately show ?thesis using stored P unfolding PQ by simp
qed


text \<open>C7: a write sent to the first of its daemons reaches all of them, in whatever order messages
  are delivered: no run is longer than three steps for each replica, none gets stuck before nothing
  is in flight, and then the client has one answer from each replica, whose nonce is the replica's
  place, and each replica has either stored exactly the data or had no room for it; other daemons
  are as before.\<close>

theorem replicated_write:
  assumes K: "kv_store K" and E: "e_buffer E" and w: "write_sent K E nonce token bls file_offset data s0"
    and run: "(net_step K E ^^ n) s0 s"
  shows "n < 3 * length bls \<and>
    (net_flight s \<noteq> {#} \<longrightarrow> (\<exists>s'. net_step K E s s')) \<and>
    (net_flight s = {#} \<longrightarrow>
       (\<forall>j. j \<notin> bl_si ` set bls \<longrightarrow> net_daemons s j = net_daemons s0 j) \<and>
       (\<exists>rep. net_clients s = mset (map (\<lambda>i. (bl_si (bls ! i), token, rep i)) [0..<length bls]) \<and>
          (\<forall>i < length bls. \<exists>d d'. net_daemons s0 (bl_si (bls ! i)) = Some d \<and>
             net_daemons s (bl_si (bls ! i)) = Some d' \<and>
             write_done K E data (nonce + i) file_offset d d' (rep i))))"
proof -
  from write_run_steps [OF K E w run] obtain P Q N rep
    where r: "write_run K E nonce token bls file_offset data s0 n P Q N rep s" by auto
  then have P: "P \<subseteq> {..<length bls}" "Q \<subseteq> P" "n + card N + 1 = card P + card Q + length bls"
    by (simp_all add: write_run_def Let_def)
  have "card P \<le> length bls" "card Q \<le> length bls"
    using P card_mono [of "{..<length bls}"] by (metis card_lessThan finite_lessThan subset_trans)+
  then have "n < 3 * length bls" using P(3) by simp
  moreover have "net_flight s \<noteq> {#} \<longrightarrow> (\<exists>s'. net_step K E s s')" using write_run_progress [OF K E w r] by simp
  ultimately show ?thesis using write_run_idle [OF w r] unfolding answer_of_def [abs_def] by blast
qed

text \<open>Client 9 writes three bytes for offset 64 of a file to the daemons 5 and 3.\<close>

definition demo_net :: "(u64 \<Rightarrow> byte list option) network" where
  "demo_net = \<lparr>net_daemons = (\<lambda>j. if j = 5 \<or> j = 3 then Some (demo_daemon j) else None),
     net_flight = write_flight be_codec 7 9 demo_locations 64 [1, 2, 3], net_clients = {#}\<rparr>"

lemma demo_net_sent: "write_sent map_kv be_codec 7 9 demo_locations 64 [1, 2, 3] demo_net"
  using demo_daemon_ready by (simp add: write_sent_def demo_net_def demo_locations_def fresh_locations_def
    u64_max_def) (simp add: demo_daemon_def numeral_3_eq_3)

lemma write_ends:
  assumes K: "kv_store K" and E: "e_buffer E" and w: "write_sent K E nonce token bls file_offset data s0"
  shows "\<exists>n s. (net_step K E ^^ n) s0 s \<and> net_flight s = {#}"
proof (rule ccontr)
  assume none: "\<nexists>n s. (net_step K E ^^ n) s0 s \<and> net_flight s = {#}"
  have "\<exists>s. (net_step K E ^^ n) s0 s" for n
  proof (induction n)
    case (Suc n)
    then obtain s where s: "(net_step K E ^^ n) s0 s" by auto
    from write_run_steps [OF K E w s] obtain P Q N rep where r: "write_run K E nonce token bls file_offset data s0 n P Q N rep s" by auto
    then have "\<exists>s'. net_step K E s s'" using write_run_progress [OF K E w r] none s by blast
    then show ?case using s by auto
  qed simp
  then obtain s where "(net_step K E ^^ (3 * length bls)) s0 s" by blast
  from write_run_steps [OF K E w this] obtain P Q N rep
    where "write_run K E nonce token bls file_offset data s0 (3 * length bls) P Q N rep s" by auto
  then have "P \<subseteq> {..<length bls}" "Q \<subseteq> P" "3 * length bls + card N + 1 = card P + card Q + length bls"
    by (simp_all add: write_run_def Let_def)
  then show False using card_mono [of "{..<length bls}" P] card_mono [of "{..<length bls}" Q] by auto
qed

theorem replicated_write_witness:
  "\<exists>n s d5 d3. (net_step map_kv be_codec ^^ n) demo_net s \<and> net_flight s = {#} \<and> size (net_clients s) = 2 \<and>
     net_daemons s 5 = Some d5 \<and> block_bytes map_kv be_codec (daemon_map d5) 0 = Some [1, 2, 3] \<and>
     net_daemons s 3 = Some d3 \<and> block_bytes map_kv be_codec (daemon_map d3) 0 = Some [1, 2, 3]"
proof -
  note th = replicated_write [OF map_kv.kv_store_axioms be.e_buffer_axioms demo_net_sent]
  have len: "length demo_locations = 2" by (simp add: demo_locations_def)
  obtain n s where run: "(net_step map_kv be_codec ^^ n) demo_net s" and idle: "net_flight s = {#}"
    using write_ends [OF map_kv.kv_store_axioms be.e_buffer_axioms demo_net_sent] by blast
  from th [OF run] idle obtain rep where
    cl: "net_clients s = mset (map (\<lambda>i. (bl_si (demo_locations ! i), 9, rep i)) [0..<length demo_locations])"
    and ds: "\<forall>i < length demo_locations. \<exists>d d'. net_daemons demo_net (bl_si (demo_locations ! i)) = Some d \<and>
       net_daemons s (bl_si (demo_locations ! i)) = Some d' \<and>
       write_done map_kv be_codec [1, 2, 3] (7 + i) 64 d d' (rep i)" by blast
  from ds [rule_format, of 0] obtain d5 where d5: "net_daemons s 5 = Some d5"
    "write_done map_kv be_codec [1, 2, 3] 7 64 (demo_daemon 5) d5 (rep 0)"
    by (auto simp: demo_locations_def demo_net_def)
  from ds [rule_format, of 1] obtain d3 where d3: "net_daemons s 3 = Some d3"
    "write_done map_kv be_codec [1, 2, 3] 8 64 (demo_daemon 3) d3 (rep 1)"
    by (auto simp: demo_locations_def demo_net_def)
  have "size (net_clients s) = 2" unfolding cl by (simp add: len)
  then show ?thesis using run idle d5(1) d3(1) demo_write_stores [OF d5(2)] demo_write_stores [OF d3(2)] by blast
qed

end
