(* ===== verification/WritePath.thy ===== *)
theory WritePath
  imports ClientOps Replication ConfigurationProps IntervalMapProps CoordinatorLinkProps
begin

text \<open>
  A write from end to end: what the client sends for one block of a file, what its loop makes of the
  answers of the daemons in whatever order they arrive, and what the metadata in HyperDex say when
  the write returns.
\<close>

section \<open>The services of a client\<close>

text \<open>
  BusyBee and HyperDex as a client sees them. The observers of their state: the messages sent, those
  that have arrived, the objects of HyperDex by their keys, and the requests with their results.
  Sending works; an arrived message is received before an answer of HyperDex; a conditional put
  compares and replaces attributes at once, and its result can be fetched later.
\<close>

type_synonym hd_object = "string \<Rightarrow> byte list option"

definition checks_hold :: "hd_attr list \<Rightarrow> hd_object \<Rightarrow> bool" where
  "checks_hold checks obj \<longleftrightarrow> list_all (\<lambda>(a, v). obj a = Some v) checks"

definition put_attrs :: "hd_attr list \<Rightarrow> hd_object \<Rightarrow> hd_object" where
  "put_attrs attrs obj = (\<lambda>a. case map_of attrs a of None \<Rightarrow> obj a | Some v \<Rightarrow> Some v)"

definition condput :: "string \<Rightarrow> hd_attr list \<Rightarrow> hd_attr list \<Rightarrow> (string \<Rightarrow> hd_object option) \<Rightarrow>
    (string \<Rightarrow> hd_object option) option" where
  "condput path checks attrs st =
     (case st path of
        None \<Rightarrow> None
      | Some obj \<Rightarrow> if checks_hold checks obj then Some (st(path \<mapsto> put_attrs attrs obj)) else None)"

type_synonym hd_result = "int \<times> hyperdex_status"

text \<open>What \<open>perform_aggregation\<close> sends, beginning with the last server.\<close>

definition aggregation_msg :: "e_codec \<Rightarrow> server_id list \<Rightarrow> wtf_network_msgtype \<Rightarrow> byte list \<Rightarrow> u64 \<Rightarrow> nat \<Rightarrow> packet" where
  "aggregation_msg E servers mt payload nonce i =
     (servers ! i, if i = 0 then client_header E mt nonce @ payload else client_header E PACKET_NOP (nonce + i))"

section \<open>The state of a client during a write\<close>

text \<open>Nothing is going on.\<close>

definition idle_client :: "('r, 'e) client \<Rightarrow> bool" where
  "idle_client s \<longleftrightarrow> cl_pending_ops s = [] \<and> cl_pending_hyperdex_ops s = [] \<and> cl_failed s = [] \<and>
     cl_yieldable s = [] \<and> cl_yielding s = None"

text \<open>What the loop leaves alone.\<close>

definition keeps_session :: "('r, 'e) client \<Rightarrow> ('r, 'e) client \<Rightarrow> bool" where
  "keeps_session s s' \<longleftrightarrow> cl_coord s' = cl_coord s \<and> cl_fds s' = cl_fds s \<and> cl_token s' = cl_token s \<and> cl_addr s' = cl_addr s \<and>
     cl_next_client_id s' = cl_next_client_id s \<and> cl_next_server_nonce s' = cl_next_server_nonce s"

text \<open>The changes an operation has collected from the answers of the replicas \<open>qs\<close>.\<close>

definition collected :: "u64 \<Rightarrow> u64 \<Rightarrow> (nat \<Rightarrow> block_location) \<Rightarrow> nat list \<Rightarrow> changeset" where
  "collected file_offset len loc qs =
     (if qs = [] then [] else [(file_offset, \<lparr>b_list = map loc qs, b_offset = file_offset, b_length = len\<rparr>)])"

text \<open>The operation \<open>p\<close> waits for the answers of the replicas that are not in \<open>qs\<close>.\<close>

definition awaiting ::
  "op_ref \<Rightarrow> int \<Rightarrow> u64 \<Rightarrow> block_location list \<Rightarrow> pending_write \<Rightarrow> nat list \<Rightarrow> ('r, 'e) client \<Rightarrow> bool" where
  "awaiting p i base bls w qs s \<longleftrightarrow>
     cl_yielding s = None \<and> cl_failed s = [] \<and> cl_yieldable s = [] \<and> cl_pending_hyperdex_ops s = [] \<and>
     smap_inv (cl_pending_ops s) \<and>
     (\<forall>n. map_of (cl_pending_ops s) n =
        (if base \<le> n \<and> n < base + length bls \<and> n - base \<notin> set qs then Some (bl_si (bls ! (n - base)), p) else None)) \<and>
     po_kind (cl_ops s p) = Op_write w \<and> distinct (po_outstanding_wtf (cl_ops s p)) \<and>
     set (po_outstanding_wtf (cl_ops s p)) = (\<lambda>k. bl_si (bls ! k)) ` ({..<length bls} - set qs) \<and>
     po_outstanding_hyperdex (cl_ops s p) = [] \<and> po_client_visible_id (cl_ops s p) = i \<and> \<not> po_done (cl_ops s p) \<and>
     cl_bds s (pw_bd w) = 1 \<and> \<not> pw_retry w \<and> pw_next w = None \<and> 0 < i"

locale client_services =
  fixes V :: "'e client_env"
    and sent :: "'e \<Rightarrow> packet list"
    and inbox :: "'e \<Rightarrow> packet list"
    and store :: "'e \<Rightarrow> string \<Rightarrow> hd_object option"
    and results :: "'e \<Rightarrow> hd_result list"
  assumes send_result: "fst (ce_send V to msg e) = BUSYBEE_SUCCESS"
    and send_sent: "sent (snd (ce_send V to msg e)) = sent e @ [(to, msg)]"
    and random_sent: "sent (snd (ce_random V e)) = sent e"
    and external_result: "fst (ce_set_external V e) = BUSYBEE_SUCCESS"
    and external_frame: "e' = snd (ce_set_external V e) \<Longrightarrow> inbox e' = inbox e \<and> store e' = store e \<and> results e' = results e"
    and time_frame: "e' = snd (ce_time V e) \<Longrightarrow> inbox e' = inbox e \<and> store e' = store e \<and> results e' = results e"
    and recv_message: "\<And>e i msg rest t rc num m e'. inbox e = (i, msg) # rest \<Longrightarrow> ce_recv V t e = ((rc, num, m), e') \<Longrightarrow>
      rc = BUSYBEE_SUCCESS \<and> num = i \<and> m = msg \<and> inbox e' = rest \<and> store e' = store e \<and> results e' = results e"
    and recv_result: "\<And>e t rc num m e'. inbox e = [] \<Longrightarrow> results e \<noteq> [] \<Longrightarrow> ce_recv V t e = ((rc, num, m), e') \<Longrightarrow>
      rc = BUSYBEE_EXTERNAL \<and> num = ce_hyperdex_fd V \<and> inbox e' = [] \<and> store e' = store e \<and> results e' = results e"
    and condput_call: "\<And>e path checks attrs r st e'. ce_hyperdex V (HD_condput path checks attrs) e = ((r, st), e') \<Longrightarrow>
      0 \<le> r \<and> inbox e' = inbox e \<and>
      (case condput path checks attrs (store e) of
         Some st' \<Rightarrow> store e' = st' \<and> results e' = results e @ [(r, HYPERDEX_CLIENT_SUCCESS)]
       | None \<Rightarrow> store e' = store e \<and> (\<exists>n. results e' = results e @ [(r, HYPERDEX_CLIENT_OTHER n)]))"
    and loop_result: "\<And>e r st rest r' st' st'' as e'. results e = (r, st) # rest \<Longrightarrow> ce_hyperdex_loop V e = ((r', st', st'', as), e') \<Longrightarrow>
      r' = r \<and> st' = HYPERDEX_CLIENT_SUCCESS \<and> st'' = st \<and> inbox e' = inbox e \<and> store e' = store e \<and> results e' = rest"
begin

text \<open>Each server is noted under its nonce and has its message.\<close>

lemma aggregation_loop_sends:
  assumes "k \<le> length servers" and "base + k < u64_bound" and "smap_inv (cl_pending_ops s)"
    and "\<forall>i < k. map_of (cl_pending_ops s) (base + i) = None"
  shows "\<exists>e' m'. aggregation_loop V E servers p mt payload k (base + k) s =
      (update_op p (\<lambda>op. op\<lparr>po_outstanding_wtf := po_outstanding_wtf op @ map ((!) servers) (rev [0..<k])\<rparr>) s)
        \<lparr>cl_env := e', cl_pending_ops := m'\<rparr> \<and>
    sent e' = sent (cl_env s) @ map (aggregation_msg E servers mt payload base) (rev [0..<k]) \<and> smap_inv m' \<and>
    (\<forall>n. map_of m' n = (if base \<le> n \<and> n < base + k then Some (servers ! (n - base), p) else map_of (cl_pending_ops s) n))"
  using assms
proof (induction k arbitrary: s)
  case 0
  then show ?case by (intro exI [of _ "cl_env s"] exI [of _ "cl_pending_ops s"]) (auto simp: update_op_def)
next
  case (Suc k)
  let ?msg = "snd (aggregation_msg E servers mt payload base k)"
  let ?e = "snd (ce_send V (servers ! k) ?msg (cl_env s))"
  let ?s1 = "(update_op p (handle_sent_to_wtf (servers ! k)) s)
      \<lparr>cl_env := ?e, cl_pending_ops := m_insert (base + k) (servers ! k, p) (cl_pending_ops s)\<rparr>"
  have nonce: "u64_sub (base + Suc k) 1 = base + k" by (simp add: u64_sub_def)
  have send: "(if k = 0 then client_send V E mt (servers ! k) (base + k) payload p s
      else client_send V E PACKET_NOP (servers ! k) (base + k) [] p s) = (True, ?s1)"
    using send_result by (cases "k = 0") (simp_all add: client_send_def aggregation_msg_def update_op_def split_beta Let_def)
  have "map_of (cl_pending_ops s) (base + k) = None" using Suc.prems(4) by simp
  then have m1: "map_of (cl_pending_ops ?s1) = (map_of (cl_pending_ops s))(base + k \<mapsto> (servers ! k, p))"
    using Suc.prems(3) by (simp add: map_of_insert)
  have "\<exists>e' m'. aggregation_loop V E servers p mt payload k (base + k) ?s1 =
      (update_op p (\<lambda>op. op\<lparr>po_outstanding_wtf := po_outstanding_wtf op @ map ((!) servers) (rev [0..<k])\<rparr>) ?s1)
        \<lparr>cl_env := e', cl_pending_ops := m'\<rparr> \<and>
    sent e' = sent (cl_env ?s1) @ map (aggregation_msg E servers mt payload base) (rev [0..<k]) \<and> smap_inv m' \<and>
    (\<forall>n. map_of m' n = (if base \<le> n \<and> n < base + k then Some (servers ! (n - base), p) else map_of (cl_pending_ops ?s1) n))"
    by (rule Suc.IH) (use Suc.prems m1 in \<open>simp_all add: smap_inv_insert\<close>)
  then obtain e' m' where IH: "aggregation_loop V E servers p mt payload k (base + k) ?s1 =
      (update_op p (\<lambda>op. op\<lparr>po_outstanding_wtf := po_outstanding_wtf op @ map ((!) servers) (rev [0..<k])\<rparr>) ?s1)
        \<lparr>cl_env := e', cl_pending_ops := m'\<rparr>"
    "sent e' = sent ?e @ map (aggregation_msg E servers mt payload base) (rev [0..<k])" "smap_inv m'"
    "\<forall>n. map_of m' n = (if base \<le> n \<and> n < base + k then Some (servers ! (n - base), p)
       else ((map_of (cl_pending_ops s))(base + k \<mapsto> (servers ! k, p))) n)" unfolding m1 by auto
  have "aggregation_loop V E servers p mt payload (Suc k) (base + Suc k) s =
      aggregation_loop V E servers p mt payload k (base + k) ?s1"
    unfolding aggregation_loop.simps nonce Let_def send by simp
  moreover have "(update_op p (\<lambda>op. op\<lparr>po_outstanding_wtf := po_outstanding_wtf op @ map ((!) servers) (rev [0..<k])\<rparr>) ?s1)
        \<lparr>cl_env := e', cl_pending_ops := m'\<rparr> =
      (update_op p (\<lambda>op. op\<lparr>po_outstanding_wtf := po_outstanding_wtf op @ map ((!) servers) (rev [0..<Suc k])\<rparr>) s)
        \<lparr>cl_env := e', cl_pending_ops := m'\<rparr>"
    by (simp add: update_op_def handle_sent_to_wtf_def)
  moreover have "sent ?e = sent (cl_env s) @ [aggregation_msg E servers mt payload base k]"
    using send_sent [of "servers ! k" ?msg "cl_env s"] by (simp add: aggregation_msg_def)
  ultimately show ?case using IH by (intro exI [of _ e'] exI [of _ m']) auto
qed

lemma try_op_sends:
  assumes w: "po_kind (cl_ops s p) = Op_write w" and out: "po_outstanding_wtf (cl_ops s p) = []"
    and last: "\<not> has_last_op (pw_file_offset w) (cl_files s (pw_file w))"
    and now: "\<not> pw_deferred w" "\<not> pw_retried w"
    and nonces: "cl_next_server_nonce s + length (pw_locations w) < u64_bound" and idle: "cl_pending_ops s = []"
  shows "\<exists>e' m'. write_try_op V E p s = ret (True,
      update_op p (\<lambda>op. op\<lparr>po_outstanding_wtf := map bl_si (rev (pw_locations w)),
         po_kind := Op_write (w\<lparr>pw_old_blockmap := serialize_blockmap E (cl_files s (pw_file w)), pw_changeset := [], pw_state := 1\<rparr>)\<rparr>)
        ((update_file (pw_file w) (set_last_op (pw_file_offset w) p (cl_files s (pw_file w))) s)
          \<lparr>cl_next_server_nonce := cl_next_server_nonce s + length (pw_locations w), cl_env := e', cl_pending_ops := m'\<rparr>)) \<and>
    sent e' = sent (cl_env s) @ map (aggregation_msg E (map bl_si (pw_locations w)) REQ_UPDATE
       (write_payload E (cl_token s) (pw_locations w) (pw_file_offset w) (pw_data w)) (cl_next_server_nonce s))
       (rev [0..<length (pw_locations w)]) \<and> smap_inv m' \<and>
    (\<forall>n. map_of m' n = (if cl_next_server_nonce s \<le> n \<and> n < cl_next_server_nonce s + length (pw_locations w)
       then Some (bl_si (pw_locations w ! (n - cl_next_server_nonce s)), p) else None))"
proof -
  let ?f = "cl_files s (pw_file w)" and ?bls = "pw_locations w" and ?base = "cl_next_server_nonce s"
  let ?w1 = "w\<lparr>pw_old_blockmap := serialize_blockmap E ?f, pw_changeset := []\<rparr>"
  let ?payload = "write_payload E (cl_token s) ?bls (pw_file_offset w) (pw_data w)"
  let ?s1 = "update_op p (set_write ?w1) (update_file (pw_file w) (set_last_op (pw_file_offset w) p ?f) s)"
  define s2 where "s2 = ?s1\<lparr>cl_next_server_nonce := ?base + length ?bls\<rparr>"
  have s2: "cl_pending_ops s2 = []" "cl_env s2 = cl_env s" "po_outstanding_wtf (cl_ops s2 p) = []"
    using idle out by (simp_all add: s2_def update_op_def update_file_def set_write_def)
  have "\<exists>e' m'. aggregation_loop V E (map bl_si ?bls) p REQ_UPDATE ?payload (length ?bls) (?base + length ?bls) s2 =
      (update_op p (\<lambda>op. op\<lparr>po_outstanding_wtf := po_outstanding_wtf op @ map ((!) (map bl_si ?bls)) (rev [0..<length ?bls])\<rparr>) s2)
        \<lparr>cl_env := e', cl_pending_ops := m'\<rparr> \<and>
    sent e' = sent (cl_env s2) @ map (aggregation_msg E (map bl_si ?bls) REQ_UPDATE ?payload ?base) (rev [0..<length ?bls]) \<and> smap_inv m' \<and>
    (\<forall>n. map_of m' n = (if ?base \<le> n \<and> n < ?base + length ?bls then Some (map bl_si ?bls ! (n - ?base), p) else map_of (cl_pending_ops s2) n))"
    by (rule aggregation_loop_sends) (use nonces s2 in simp_all)
  then obtain e' m' where a: "aggregation_loop V E (map bl_si ?bls) p REQ_UPDATE ?payload (length ?bls) (?base + length ?bls) s2 =
      (update_op p (\<lambda>op. op\<lparr>po_outstanding_wtf := po_outstanding_wtf op @ map ((!) (map bl_si ?bls)) (rev [0..<length ?bls])\<rparr>) s2)
        \<lparr>cl_env := e', cl_pending_ops := m'\<rparr>"
    and e': "sent e' = sent (cl_env s2) @ map (aggregation_msg E (map bl_si ?bls) REQ_UPDATE ?payload ?base) (rev [0..<length ?bls])"
    and m': "smap_inv m'" "\<forall>n. map_of m' n = (if ?base \<le> n \<and> n < ?base + length ?bls then Some (map bl_si ?bls ! (n - ?base), p)
      else map_of (cl_pending_ops s2) n)"
    by blast
  have servers: "map ((!) (map bl_si ?bls)) (rev [0..<length ?bls]) = map bl_si (rev ?bls)"
    by (simp add: rev_map [symmetric] map_nth [of "map bl_si ?bls", simplified] del: upt_Suc)
  have "u64_add ?base (length ?bls) = ?base + length ?bls" using nonces by (simp add: u64_simps)
  then have "perform_aggregation V E (map bl_si ?bls) p REQ_UPDATE ?payload ?s1 =
      (update_op p (\<lambda>op. op\<lparr>po_outstanding_wtf := map bl_si (rev ?bls)\<rparr>) s2)\<lparr>cl_env := e', cl_pending_ops := m'\<rparr>"
    using a s2(3) unfolding perform_aggregation_def Let_def servers
    by (simp add: update_op_def update_file_def s2_def)
  moreover have "serialize_blockmap E (set_last_op off q g) = serialize_blockmap E g" for off q g
    by (simp add: serialize_blockmap_def set_last_op_def)
  ultimately have "write_try_op V E p s = ret (True,
      update_op p (\<lambda>op. op\<lparr>po_outstanding_wtf := map bl_si (rev ?bls), po_kind := Op_write (?w1\<lparr>pw_state := 1\<rparr>)\<rparr>)
        ((update_file (pw_file w) (set_last_op (pw_file_offset w) p ?f) s)
          \<lparr>cl_next_server_nonce := ?base + length ?bls, cl_env := e', cl_pending_ops := m'\<rparr>))"
    using w last now by (simp add: write_try_op_def write_of_def write_do_op_def write_send_data_def
      update_op_def update_file_def set_write_def s2_def Let_def)
  moreover have "\<forall>n. map_of m' n = (if ?base \<le> n \<and> n < ?base + length ?bls then Some (bl_si (?bls ! (n - ?base)), p) else None)"
    using m'(2) s2(1) by auto
  ultimately show ?thesis using e' m'(1) s2(2) by (intro exI [of _ e'] exI [of _ m']) simp
qed

lemma client_write_sends:
  assumes fd: "find_file fd s = Some fr" and idle: "idle_client s" and i: "0 < cl_next_client_id s"
    and last: "\<not> has_last_op (fl_offset (cl_files s fr)) (cl_files s fr)"
    and buf: "buf \<noteq> []" "length buf \<le> fl_block_size (cl_files s fr)"
    and rnd: "fst (ce_random V (cl_env s)) = (rnd, n)"
    and bls: "assign_random_block_locations rnd n (cl_addr s) (cl_config s)
      (replicate (fl_replicas (cl_files s fr)) bl_default) = ret bls"
    and dist: "distinct (map bl_si bls)" and nonces: "cl_next_server_nonce s + length bls < u64_bound"
  shows "\<exists>s' p w. client_write V E fd buf s = ret (cl_next_client_id s, Some WTF_CLIENT_SUCCESS, s') \<and>
    sent (cl_env s') = sent (cl_env s) @ map (aggregation_msg E (map bl_si bls) REQ_UPDATE
       (write_payload E (cl_token s) bls (fl_offset (cl_files s fr)) buf) (cl_next_server_nonce s)) (rev [0..<length bls]) \<and>
    awaiting p (cl_next_client_id s) (cl_next_server_nonce s) bls w [] s' \<and>
    pw_file w = fr \<and> pw_old_blockmap w = serialize_blockmap E (cl_files s fr) \<and> pw_changeset w = [] \<and>
    cl_coord s' = cl_coord s \<and> cl_fds s' = cl_fds s \<and> cl_token s' = cl_token s \<and> cl_addr s' = cl_addr s \<and>
    cl_next_client_id s' = cl_next_client_id s + 1 \<and> cl_next_server_nonce s' = cl_next_server_nonce s + length bls \<and>
    cl_files s' fr = (set_last_op (fl_offset (cl_files s fr)) p (add_pending_op (cl_next_client_id s) (cl_files s fr)))
      \<lparr>fl_offset := u64_add (fl_offset (cl_files s fr)) (length buf)\<rparr>"
proof -
  let ?f = "cl_files s fr" and ?i = "cl_next_client_id s" and ?bd = "cl_next_ref s" and ?fo = "fl_offset (cl_files s fr)"
  define e1 where "e1 = snd (ce_random V (cl_env s))"
  have r: "ce_random V (cl_env s) = ((rnd, n), e1)" using rnd by (simp add: e1_def prod_eq_iff)
  let ?p = "Suc ?bd"
  let ?w = "write_new E ?f fr buf bls ?fo ?bd"
  define s1 where "s1 = s\<lparr>cl_next_client_id := ?i + 1, cl_bds := (cl_bds s)(?bd := 1), cl_next_ref := Suc ?p, cl_env := e1,
    cl_ops := (cl_ops s)(?p := op_new ?i (Op_write ?w)), cl_files := (cl_files s)(fr := add_pending_op ?i ?f)\<rparr>"
  have b: "min (length buf) (fl_block_size ?f) = length buf" using buf(2) by simp
  have nd: "\<not> has_last_op (pw_file_offset ?w) (cl_files s1 (pw_file ?w))"
    using last by (simp add: s1_def write_new_def has_last_op_def add_pending_op_def)
  have "\<exists>e' m'. write_try_op V E ?p s1 = ret (True,
      update_op ?p (\<lambda>op. op\<lparr>po_outstanding_wtf := map bl_si (rev (pw_locations ?w)),
         po_kind := Op_write (?w\<lparr>pw_old_blockmap := serialize_blockmap E (cl_files s1 (pw_file ?w)), pw_changeset := [], pw_state := 1\<rparr>)\<rparr>)
        ((update_file (pw_file ?w) (set_last_op (pw_file_offset ?w) ?p (cl_files s1 (pw_file ?w))) s1)
          \<lparr>cl_next_server_nonce := cl_next_server_nonce s1 + length (pw_locations ?w), cl_env := e', cl_pending_ops := m'\<rparr>)) \<and>
    sent e' = sent (cl_env s1) @ map (aggregation_msg E (map bl_si (pw_locations ?w)) REQ_UPDATE
       (write_payload E (cl_token s1) (pw_locations ?w) (pw_file_offset ?w) (pw_data ?w)) (cl_next_server_nonce s1))
       (rev [0..<length (pw_locations ?w)]) \<and> smap_inv m' \<and>
    (\<forall>n. map_of m' n = (if cl_next_server_nonce s1 \<le> n \<and> n < cl_next_server_nonce s1 + length (pw_locations ?w)
       then Some (bl_si (pw_locations ?w ! (n - cl_next_server_nonce s1)), ?p) else None))"
    by (rule try_op_sends [OF _ _ nd])
      (use nonces idle in \<open>simp_all add: s1_def op_new_def write_new_def idle_client_def\<close>)
  moreover have ws: "pw_locations ?w = bls" "pw_file_offset ?w = ?fo" "pw_data ?w = buf" "pw_file ?w = fr" "pw_bd ?w = ?bd"
    by (simp_all add: write_new_def)
  ultimately obtain e' m' where t: "write_try_op V E ?p s1 = ret (True,
      update_op ?p (\<lambda>op. op\<lparr>po_outstanding_wtf := map bl_si (rev bls),
         po_kind := Op_write (?w\<lparr>pw_old_blockmap := serialize_blockmap E (cl_files s1 fr), pw_changeset := [], pw_state := 1\<rparr>)\<rparr>)
        ((update_file fr (set_last_op ?fo ?p (cl_files s1 fr)) s1)
          \<lparr>cl_next_server_nonce := cl_next_server_nonce s1 + length bls, cl_env := e', cl_pending_ops := m'\<rparr>))"
    and e': "sent e' = sent (cl_env s1) @ map (aggregation_msg E (map bl_si bls) REQ_UPDATE
       (write_payload E (cl_token s1) bls ?fo buf) (cl_next_server_nonce s1)) (rev [0..<length bls])"
    and m': "smap_inv m'" "\<forall>n. map_of m' n = (if cl_next_server_nonce s1 \<le> n \<and> n < cl_next_server_nonce s1 + length bls
       then Some (bl_si (bls ! (n - cl_next_server_nonce s1)), ?p) else None)"
    unfolding ws by blast
  let ?s2 = "s\<lparr>cl_next_client_id := ?i + 1, cl_bds := (cl_bds s)(?bd := 0), cl_next_ref := ?p\<rparr>"
  let ?s3 = "?s2\<lparr>cl_env := e1, cl_ops := (cl_ops s)(?p := op_new ?i (Op_write ?w)), cl_next_ref := Suc ?p,
    cl_bds := (cl_bds s)(?bd := 1)\<rparr>"
  have s1': "update_file fr (add_pending_op ?i (cl_files ?s3 fr)) ?s3 = s1"
    by (rule client.equality) (simp_all add: s1_def update_file_def)
  define s5 where "s5 = update_op ?p (\<lambda>op. op\<lparr>po_outstanding_wtf := map bl_si (rev bls),
         po_kind := Op_write (?w\<lparr>pw_old_blockmap := serialize_blockmap E (cl_files s1 fr), pw_changeset := [], pw_state := 1\<rparr>)\<rparr>)
        ((update_file fr (set_last_op ?fo ?p (cl_files s1 fr)) s1)
          \<lparr>cl_next_server_nonce := cl_next_server_nonce s1 + length bls, cl_env := e', cl_pending_ops := m'\<rparr>)"
  define s' where "s' = update_file fr ((cl_files s5 fr)\<lparr>fl_offset := u64_add ?fo (length buf)\<rparr>) s5"
  have "write_block_op V E ?i fr ?bd buf ?fo ?s2 = ret s'"
    using r bls t s1' unfolding write_block_op_def
    by (simp add: new_op_def bd_add_op_def s'_def s5_def)
  then have "write_loop V E ?i fr ?bd buf ?fo ?s2 = ret s'"
    using buf b by (subst write_loop.simps) (simp add: write_loop.simps)
  then have "client_write V E fd buf s = ret (?i, Some WTF_CLIENT_SUCCESS, s')"
    using fd buf(1) by (simp add: client_write_def next_client_id_def)
  moreover have "serialize_blockmap E (cl_files s1 fr) = serialize_blockmap E ?f"
    by (simp add: serialize_blockmap_def s1_def add_pending_op_def)
  moreover have "awaiting ?p ?i (cl_next_server_nonce s) bls
      (?w\<lparr>pw_old_blockmap := serialize_blockmap E (cl_files s1 fr), pw_changeset := [], pw_state := 1\<rparr>) [] s'"
    using idle i m' dist unfolding awaiting_def idle_client_def
    by (simp add: s'_def s5_def s1_def update_file_def update_op_def op_new_def write_new_def rev_map [symmetric])
      (auto simp: set_conv_nth)
  ultimately show ?thesis using e' ws random_sent [of "cl_env s"]
    by (intro exI [of _ s'] exI [of _ ?p]
        exI [of _ "?w\<lparr>pw_old_blockmap := serialize_blockmap E (cl_files s1 fr), pw_changeset := [], pw_state := 1\<rparr>"])
      (simp add: s'_def s5_def update_file_def update_op_def s1_def set_last_op_def add_pending_op_def e1_def)
qed

end

section \<open>Rounds of the loop\<close>

lemma loop_rounds_again:
  "loop_round V R E t i st s = ret (Again (x, st1, s1)) \<Longrightarrow> loop_rounds V R E t i st s = loop_rounds V R E t i st1 s1"
  by (subst loop_rounds.simps) simp

lemma loop_rounds_leave: "loop_round V R E t i st s = ret (Leave r) \<Longrightarrow> loop_rounds V R E t i st s = ret r"
  by (subst loop_rounds.simps) simp

text \<open>The link has no news: the loop finds the configuration as it is.\<close>

definition quiet_link :: "'r replicant_ops \<Rightarrow> e_codec \<Rightarrow> 'r coordinator_link \<Rightarrow> bool" where
  "quiet_link R E l \<longleftrightarrow> (\<exists>rc. ensure_configuration R E REPLICANT_GARBAGE l = ret (True, rc, l))"

lemma loop_not_yet:
  assumes "cl_yielding s = Some p" and "\<not> op_can_yield p s"
  shows "loop_round V R E t i st s = ret (Again (0, st, s\<lparr>cl_yielding := None\<rparr>))"
  using assms by (simp add: loop_round_def loop_yielding_def)

lemma loop_yields:
  assumes "cl_yielding s = Some p" and "op_can_yield p s" and "po_kind (cl_ops s p) = Op_write w" and "client_id_of p s = i"
  shows "\<exists>s'. loop_round V R E t i st s = ret (Leave (i, WTF_CLIENT_SUCCESS, s')) \<and>
    s' = update_op p (\<lambda>op. op\<lparr>po_done := True\<rparr>) (s\<lparr>cl_yielding := None\<rparr>)"
proof -
  let ?s1 = "update_op p (\<lambda>op. op\<lparr>po_done := True\<rparr>) s"
  have "\<not> op_can_yield p ?s1" using assms(3) by (simp add: op_can_yield_def update_op_def write_can_yield_def)
  moreover have "op_yield p s = Inr (WTF_CLIENT_SUCCESS, ?s1)" using assms by (simp add: op_yield_def)
  moreover have "?s1\<lparr>cl_yielding := None\<rparr> = update_op p (\<lambda>op. op\<lparr>po_done := True\<rparr>) (s\<lparr>cl_yielding := None\<rparr>)"
    by (simp add: update_op_def)
  ultimately show ?thesis using assms by (simp add: loop_round_def loop_yielding_def)
qed

context client_services
begin

lemma loop_waits:
  assumes "quiet_link R E (cl_coord s)" and "cl_yielding s = None" "cl_failed s = []" "cl_yieldable s = []"
    and "cl_pending_ops s \<noteq> [] \<or> cl_pending_hyperdex_ops s \<noteq> []"
  shows loop_receives: "inbox (cl_env s) = (j, msg) # rest \<Longrightarrow> \<exists>e'. loop_round V R E t i st s = loop_message V E i st j msg (s\<lparr>cl_env := e'\<rparr>) \<and>
      inbox e' = rest \<and> store e' = store (cl_env s) \<and> results e' = results (cl_env s)"
    and loop_fetches: "inbox (cl_env s) = [] \<Longrightarrow> results (cl_env s) \<noteq> [] \<Longrightarrow>
      \<exists>e'. loop_round V R E t i st s = loop_hyperdex V E i st (s\<lparr>cl_env := e'\<rparr>) \<and>
      inbox e' = [] \<and> store e' = store (cl_env s) \<and> results e' = results (cl_env s)"
proof -
  define e1 where "e1 = snd (ce_set_external V (cl_env s))"
  define e2 where "e2 = snd (ce_set_external V e1)"
  have frame: "inbox e2 = inbox (cl_env s)" "store e2 = store (cl_env s)" "results e2 = results (cl_env s)"
    using external_frame [OF e1_def] external_frame [OF e2_def] by simp_all
  obtain rc where "ensure_configuration R E REPLICANT_GARBAGE (cl_coord s) = ret (True, rc, cl_coord s)"
    using assms(1) by (auto simp: quiet_link_def)
  then have "maintain_coord_connection V R E s = ret (None, s\<lparr>cl_env := e1\<rparr>)"
    using external_result [of "cl_env s"] by (simp add: maintain_coord_connection_def e1_def split_beta Let_def)
  moreover have "loop_round V R E t i st s = loop_receive V R E t i st s"
    using assms(2-5) by (auto simp: loop_round_def)
  moreover have "assert_that (cl_pending_ops s \<noteq> [] \<or> cl_pending_hyperdex_ops s \<noteq> []) = Inr ()"
    using assms(5) by simp
  ultimately have r: "ce_recv V t e2 = ((rc, num, m), e3) \<Longrightarrow> rc = BUSYBEE_SUCCESS \<Longrightarrow>
        loop_round V R E t i st s = loop_message V E i st num m (s\<lparr>cl_env := e3\<rparr>)"
      "ce_recv V t e2 = ((rc, num, m), e3) \<Longrightarrow> rc = BUSYBEE_EXTERNAL \<Longrightarrow> num = ce_hyperdex_fd V \<Longrightarrow>
        loop_round V R E t i st s = loop_hyperdex V E i st (s\<lparr>cl_env := e3\<rparr>)" for rc num m e3
    by (simp_all add: loop_receive_def e2_def split_beta Let_def)
  obtain rc num m e3 where e3: "ce_recv V t e2 = ((rc, num, m), e3)" by (metis prod.exhaust)
  show "\<exists>e'. loop_round V R E t i st s = loop_message V E i st j msg (s\<lparr>cl_env := e'\<rparr>) \<and>
      inbox e' = rest \<and> store e' = store (cl_env s) \<and> results e' = results (cl_env s)" if "inbox (cl_env s) = (j, msg) # rest"
    using recv_message [OF _ e3, of j msg rest] that r(1) [OF e3] frame by (intro exI [of _ e3]) simp
  show "\<exists>e'. loop_round V R E t i st s = loop_hyperdex V E i st (s\<lparr>cl_env := e'\<rparr>) \<and>
      inbox e' = [] \<and> store e' = store (cl_env s) \<and> results e' = results (cl_env s)"
    if "inbox (cl_env s) = []" "results (cl_env s) \<noteq> []"
    using recv_result [OF _ _ e3] that r(2) [OF e3] frame by (intro exI [of _ e3]) simp
qed

end

section \<open>Answers\<close>

context e_buffer
begin

lemma unpack_reply:
  assumes "nonce < u64_bound" and "bid < u64_bound" and "file_offset < u64_bound" and "len < u64_bound"
  shows "\<exists>r. do { (mt, bs) \<leftarrow> unpack_msgtype E (update_reply E nonce rc bid file_offset len); (nonce, bs) \<leftarrow> up64 E bs;
      Some (mt, nonce, bs) } = Some (Some RESP_UPDATE, nonce, r) \<and>
    unpack_update_reply E r = Some ((Some rc, bid, file_offset, len), [])"
proof (intro exI conjI)
  let ?r = "pack_response E rc @ pk64 E bid @ pk64 E file_offset @ pk64 E len"
  show "do { (mt, bs) \<leftarrow> unpack_msgtype E (update_reply E nonce rc bid file_offset len); (nonce, bs) \<leftarrow> up64 E bs;
      Some (mt, nonce, bs) } = Some (Some RESP_UPDATE, nonce, ?r)"
    using assms unpack_pack_msgtype [of RESP_UPDATE] by (simp add: update_reply_def up64_pk64)
  show "unpack_update_reply E ?r = Some ((Some rc, bid, file_offset, len), [])"
    using assms up64_pk64 [of len "[]"] by (simp add: unpack_update_reply_def unpack_pack_response up64_pk64)
qed

end

lemma remove_first_set: "distinct xs \<Longrightarrow> x \<in> set xs \<Longrightarrow> distinct (remove_first (\<lambda>y. y = x) xs) \<and> set (remove_first (\<lambda>y. y = x) xs) = set xs - {x}"
  by (induction xs) auto

lemma add_collected:
  "add_replica_at file_offset len (loc k) (collected file_offset len loc qs) = collected file_offset len loc (qs @ [k])"
  by (simp add: add_replica_at_def collected_def block_new_def block_set_length_def block_set_offset_def block_add_replica_def)

text \<open>The state after the answer of the replica \<open>k\<close>, before anything is done with it.\<close>

definition answered ::
  "op_ref \<Rightarrow> u64 \<Rightarrow> block_location list \<Rightarrow> pending_write \<Rightarrow> nat \<Rightarrow> ('r, 'e) client \<Rightarrow> ('r, 'e) client" where
  "answered p base bls w k s =
     update_op p (\<lambda>op. set_write w (remove_wtf_message (bl_si (bls ! k)) op))
       (s\<lparr>cl_pending_ops := m_erase (base + k) (cl_pending_ops s)\<rparr>)"

lemma answered_awaits:
  assumes aw: "awaiting p i base bls w qs s" and dist: "distinct (map bl_si bls)" and k: "k < length bls" "k \<notin> set qs"
    and w': "pw_bd w' = pw_bd w" "\<not> pw_retry w'" "pw_next w' = None"
  shows "awaiting p i base bls w' (qs @ [k]) (answered p base bls w' k s)"
proof -
  have out: "distinct (po_outstanding_wtf (cl_ops s p))"
      "set (po_outstanding_wtf (cl_ops s p)) = (\<lambda>k. bl_si (bls ! k)) ` ({..<length bls} - set qs)"
    and inv: "smap_inv (cl_pending_ops s)"
    and ops: "\<forall>n. map_of (cl_pending_ops s) n =
        (if base \<le> n \<and> n < base + length bls \<and> n - base \<notin> set qs then Some (bl_si (bls ! (n - base)), p) else None)"
    using aw by (simp_all add: awaiting_def)
  have "bl_si (bls ! k) \<in> set (po_outstanding_wtf (cl_ops s p))" using out k by auto
  note rm = remove_first_set [OF out(1) this]
  have inj: "inj_on (\<lambda>k. bl_si (bls ! k)) {..<length bls}"
    using dist by (auto simp: inj_on_def distinct_conv_nth)
  have "(\<lambda>k. bl_si (bls ! k)) ` ({..<length bls} - set qs) - {bl_si (bls ! k)} =
      (\<lambda>k. bl_si (bls ! k)) ` ({..<length bls} - set qs - {k})"
    using inj_on_image_set_diff [OF inj, of "{..<length bls} - set qs" "{k}"] k by auto
  moreover have "{..<length bls} - set (qs @ [k]) = {..<length bls} - set qs - {k}" by auto
  ultimately have rm_set: "set (remove_first (\<lambda>y. y = bl_si (bls ! k)) (po_outstanding_wtf (cl_ops s p))) =
      (\<lambda>k. bl_si (bls ! k)) ` ({..<length bls} - set (qs @ [k]))"
    using rm out by simp
  have "map_of (m_erase (base + k) (cl_pending_ops s)) n =
      (if base \<le> n \<and> n < base + length bls \<and> n - base \<notin> set (qs @ [k]) then Some (bl_si (bls ! (n - base)), p) else None)" for n
    using ops inv by (auto simp: map_of_erase)
  then show ?thesis
    using aw w' rm rm_set unfolding awaiting_def answered_def
    by (simp add: update_op_def set_write_def remove_wtf_message_def smap_inv_erase)
qed


lemma awaiting_done:
  assumes "awaiting p i base bls w qs s"
  shows "aggregation_done (cl_ops s p) \<longleftrightarrow> {..<length bls} \<subseteq> set qs"
  using assms by (auto simp: awaiting_def aggregation_done_def simp flip: set_empty)

lemma awaiting_pending:
  assumes "awaiting p i base bls w qs s"
  shows "cl_pending_ops s = [] \<longleftrightarrow> {..<length bls} \<subseteq> set qs"
proof
  assume "cl_pending_ops s = []"
  then have "map_of (cl_pending_ops s) (base + k) = None" for k by simp
  then have "\<not> (k < length bls \<and> k \<notin> set qs)" for k
    using assms unfolding awaiting_def by (metis add_diff_cancel_left' le_add1 nat_add_left_cancel_less option.distinct(1))
  then show "{..<length bls} \<subseteq> set qs" by auto
next
  assume sub: "{..<length bls} \<subseteq> set qs"
  have "map_of (cl_pending_ops s) n = None" for n
  proof -
    have "n - base \<in> set qs" if "base \<le> n" "n < base + length bls" using sub that by auto
    then show ?thesis using assms by (simp add: awaiting_def)
  qed
  then show "cl_pending_ops s = []" by (metis map_of_eq_None_iff image_is_empty set_empty all_not_in_conv)
qed

context client_services
begin

text \<open>The loop receives an answer and hands it to the operation.\<close>

lemma receive_answer:
  assumes E: "e_buffer E" and q: "quiet_link R E (cl_coord s)" and aw: "awaiting p i base bls w qs s"
    and k: "k < length bls" "k \<notin> set qs" and ex: "config_exists (bl_si (bls ! k)) (cl_config s)"
    and loc: "bl_si (loc k) = bl_si (bls ! k)" and ch: "pw_changeset w = collected fo len loc qs"
    and bounds: "base + length bls < u64_bound" "bl_bi (loc k) < u64_bound" "fo < u64_bound" "len < u64_bound"
    and inbox: "inbox (cl_env s) = (bl_si (bls ! k), update_reply E (base + k) RESPONSE_SUCCESS (bl_bi (loc k)) fo len) # rest"
    and w': "w' = w\<lparr>pw_changeset := collected fo len loc (qs @ [k])\<rparr>"
  shows "\<exists>e'. inbox e' = rest \<and> store e' = store (cl_env s) \<and> results e' = results (cl_env s) \<and>
    (let s' = answered p base bls w' k (s\<lparr>cl_env := e'\<rparr>)
     in loop_round V R E t i st s =
       (if aggregation_done (cl_ops s' p) then
          run_bind (lift_res (apply_changeset (pw_changeset w') (cl_files s' (pw_file w')))) (\<lambda>f.
            ret (Again (0, WTF_CLIENT_SUCCESS,
              after_message i p (write_send_metadata_update V E p w' (update_file (pw_file w') f s')))))
        else ret (Again (0, WTF_CLIENT_SUCCESS, after_message i p s'))))"
proof -
  have "\<not> {..<length bls} \<subseteq> set qs" using k by auto
  then have "cl_pending_ops s \<noteq> []" using awaiting_pending [OF aw] by simp
  then obtain e' where r: "loop_round V R E t i st s = loop_message V E i st (bl_si (bls ! k))
        (update_reply E (base + k) RESPONSE_SUCCESS (bl_bi (loc k)) fo len) (s\<lparr>cl_env := e'\<rparr>)"
    and e': "inbox e' = rest" "store e' = store (cl_env s)" "results e' = results (cl_env s)"
    using loop_receives [OF q _ _ _ _ inbox, where t = t and i = i and st = st] aw by (auto simp: awaiting_def)
  have "base + k < u64_bound" using bounds(1) k(1) by simp
  from e_buffer.unpack_reply [OF E this bounds(2-4), of RESPONSE_SUCCESS] obtain r
    where up: "do { (mt, bs) \<leftarrow> unpack_msgtype E (update_reply E (base + k) RESPONSE_SUCCESS (bl_bi (loc k)) fo len);
        (nonce, bs) \<leftarrow> up64 E bs; Some (mt, nonce, bs) } = Some (Some RESP_UPDATE, base + k, r)"
      "unpack_update_reply E r = Some ((Some RESPONSE_SUCCESS, bl_bi (loc k), fo, len), [])" by blast
  have pend: "map_of (cl_pending_ops s) (base + k) = Some (bl_si (bls ! k), p)" and kind: "po_kind (cl_ops s p) = Op_write w"
    using aw k by (simp_all add: awaiting_def)
  have l: "\<lparr>bl_si = bl_si (bls ! k), bl_bi = bl_bi (loc k)\<rparr> = loc k" using loc by simp
  let ?s' = "answered p base bls w' k (s\<lparr>cl_env := e'\<rparr>)"
  let ?s1 = "s\<lparr>cl_env := e', cl_pending_ops := m_erase (base + k) (cl_pending_ops s)\<rparr>"
  have "write_handle_wtf_message V E p (bl_si (bls ! k)) r ?s1 =
      (if aggregation_done (cl_ops ?s' p) then
         run_bind (lift_res (apply_changeset (pw_changeset w') (cl_files ?s' (pw_file w')))) (\<lambda>f.
           ret (True, write_send_metadata_update V E p w' (update_file (pw_file w') f ?s')))
       else ret (True, ?s'))"
    unfolding write_handle_wtf_message_def using kind up(2) ch
    by (simp add: write_of_def l add_collected w' answered_def Let_def)
  then have h: "op_handle_wtf_message V E p (bl_si (bls ! k)) r ?s1 =
      (if aggregation_done (cl_ops ?s' p) then
         run_bind (lift_res (apply_changeset (pw_changeset w') (cl_files ?s' (pw_file w')))) (\<lambda>f.
           ret (True, write_send_metadata_update V E p w' (update_file (pw_file w') f ?s')))
       else ret (True, ?s'))"
    using kind by (simp add: op_handle_wtf_message_def)
  have "loop_message V E i st (bl_si (bls ! k)) (update_reply E (base + k) RESPONSE_SUCCESS (bl_bi (loc k)) fo len) (s\<lparr>cl_env := e'\<rparr>) =
      run_bind (op_handle_wtf_message V E p (bl_si (bls ! k)) r ?s1) (\<lambda>(ok, s2).
        ret (if ok then Again (0, WTF_CLIENT_SUCCESS, after_message i p s2) else Leave (-1, WTF_CLIENT_SUCCESS, s2)))"
    unfolding loop_message_def up(1) using pend kind ex by (simp add: Let_def cong: if_cong)
  with r e' h show ?thesis
    by (intro exI [of _ e']) (auto simp: Let_def run_bind_def split: sum.split option.split)
qed

lemma after_own: "awaiting p i base bls w qs s \<Longrightarrow> after_message i p s = s\<lparr>cl_yielding := Some p\<rparr>"
  by (simp add: after_message_def client_id_of_def awaiting_def)

text \<open>An answer that is not the last one is noted, and the loop goes on.\<close>

lemma answer_step:
  assumes "e_buffer E" and "quiet_link R E (cl_coord s)" and aw: "awaiting p i base bls w qs s"
    and dist: "distinct (map bl_si bls)" and k: "k < length bls" "k \<notin> set qs" and "config_exists (bl_si (bls ! k)) (cl_config s)"
    and "bl_si (loc k) = bl_si (bls ! k)" and "pw_changeset w = collected fo len loc qs"
    and "base + length bls < u64_bound" "bl_bi (loc k) < u64_bound" "fo < u64_bound" "len < u64_bound"
    and "inbox (cl_env s) = (bl_si (bls ! k), update_reply E (base + k) RESPONSE_SUCCESS (bl_bi (loc k)) fo len) # rest"
    and w': "w' = w\<lparr>pw_changeset := collected fo len loc (qs @ [k])\<rparr>"
    and more: "\<not> {..<length bls} \<subseteq> set (qs @ [k])"
  shows "\<exists>s'. loop_rounds V R E t i st s = loop_rounds V R E t i WTF_CLIENT_SUCCESS s' \<and>
    awaiting p i base bls w' (qs @ [k]) s' \<and> inbox (cl_env s') = rest \<and> store (cl_env s') = store (cl_env s) \<and>
    results (cl_env s') = results (cl_env s) \<and> cl_coord s' = cl_coord s \<and> cl_files s' = cl_files s \<and> keeps_session s s'"
proof -
  from receive_answer [OF assms(1-3) k assms(7-15), where t = t and st = st] obtain e'
    where e': "inbox e' = rest" "store e' = store (cl_env s)" "results e' = results (cl_env s)"
    and r: "let s' = answered p base bls w' k (s\<lparr>cl_env := e'\<rparr>)
     in loop_round V R E t i st s =
       (if aggregation_done (cl_ops s' p) then
          run_bind (lift_res (apply_changeset (pw_changeset w') (cl_files s' (pw_file w')))) (\<lambda>f.
            ret (Again (0, WTF_CLIENT_SUCCESS,
              after_message i p (write_send_metadata_update V E p w' (update_file (pw_file w') f s')))))
        else ret (Again (0, WTF_CLIENT_SUCCESS, after_message i p s')))" by blast
  define s' where "s' = answered p base bls w' k (s\<lparr>cl_env := e'\<rparr>)"
  have "awaiting p i base bls w qs (s\<lparr>cl_env := e'\<rparr>)" using aw by (simp add: awaiting_def)
  then have aw': "awaiting p i base bls w' (qs @ [k]) s'"
    unfolding s'_def by (rule answered_awaits [OF _ dist k]) (use w' aw in \<open>simp_all add: awaiting_def\<close>)
  have nd: "\<not> aggregation_done (cl_ops s' p)" using awaiting_done [OF aw'] more by simp
  then have "loop_round V R E t i st s = ret (Again (0, WTF_CLIENT_SUCCESS, s'\<lparr>cl_yielding := Some p\<rparr>))"
    using r after_own [OF aw'] unfolding s'_def [symmetric] Let_def by simp
  then have "loop_rounds V R E t i st s = loop_rounds V R E t i WTF_CLIENT_SUCCESS (s'\<lparr>cl_yielding := Some p\<rparr>)"
    by (rule loop_rounds_again)
  also have "\<dots> = loop_rounds V R E t i WTF_CLIENT_SUCCESS s'"
  proof -
    have "\<not> op_can_yield p (s'\<lparr>cl_yielding := Some p\<rparr>)"
      using nd aw' by (simp add: op_can_yield_def write_can_yield_def awaiting_def)
    from loop_not_yet [OF _ this, where V = V and R = R and E = E and t = t and i = i and st = WTF_CLIENT_SUCCESS] have
      "loop_round V R E t i WTF_CLIENT_SUCCESS (s'\<lparr>cl_yielding := Some p\<rparr>) = ret (Again (0, WTF_CLIENT_SUCCESS, s'\<lparr>cl_yielding := None\<rparr>))"
      by simp
    moreover have "s'\<lparr>cl_yielding := None\<rparr> = s'" using aw' by (simp add: awaiting_def client.equality)
    ultimately show ?thesis using loop_rounds_again by metis
  qed
  finally show ?thesis using aw' e'
    by (intro exI [of _ s']) (simp add: s'_def answered_def update_op_def keeps_session_def)
qed

text \<open>The metadata are stored under the condition that the block map is still the old one.\<close>

lemma metadata_update:
  assumes obj: "store (cl_env s) (fl_path (cl_files s (pw_file w))) = Some obj" "obj ''blockmap'' = Some (pw_old_blockmap w)"
    and res: "results (cl_env s) = []" and out: "po_outstanding_hyperdex (cl_ops s p) = []" "cl_pending_hyperdex_ops s = []"
  shows "\<exists>e' r m attrs. 0 \<le> r \<and> msg_reqid m = r \<and> is_condput (msg_call m) \<and>
    write_send_metadata_update V E p w s = update_op p (\<lambda>op. op\<lparr>po_outstanding_hyperdex := [m]\<rparr>)
      (s\<lparr>cl_env := e', cl_pending_hyperdex_ops := [(u64_of_int r, (ce_hyperdex_fd V, p))]\<rparr>) \<and>
    inbox e' = inbox (cl_env s) \<and> results e' = [(r, HYPERDEX_CLIENT_SUCCESS)] \<and>
    store e' = (store (cl_env s))(fl_path (cl_files s (pw_file w)) \<mapsto> put_attrs attrs obj) \<and>
    map_of attrs ''blockmap'' = Some (serialize_blockmap E (cl_files s (pw_file w)))"
proof -
  let ?f = "cl_files s (pw_file w)"
  define e1 where "e1 = snd (ce_time V (cl_env s))"
  let ?checks = "[(''blockmap'', pw_old_blockmap w)]"
  let ?attrs = "[(''mode'', ce_int V (fl_mode ?f)), (''directory'', ce_int V (if fl_is_directory ?f then 1 else 0)),
    (''blockmap'', serialize_blockmap E ?f), (''time'', ce_int V (fst (ce_time V (cl_env s))))]"
  obtain r st e' where c: "ce_hyperdex V (HD_condput (fl_path ?f) ?checks ?attrs) e1 = ((r, st), e')" by (metis prod.exhaust)
  let ?m = "\<lparr>msg_reqid = r, msg_call = HD_condput (fl_path ?f) ?checks ?attrs, msg_status = st, msg_attrs = []\<rparr>"
  have frame: "inbox e1 = inbox (cl_env s)" "store e1 = store (cl_env s)" "results e1 = []"
    using time_frame [OF e1_def] res by simp_all
  have put: "condput (fl_path ?f) ?checks ?attrs (store e1) = Some ((store (cl_env s))(fl_path ?f \<mapsto> put_attrs ?attrs obj))"
    using obj frame by (simp add: condput_def checks_hold_def)
  have e': "0 \<le> r" "inbox e' = inbox (cl_env s)" "results e' = [(r, HYPERDEX_CLIENT_SUCCESS)]"
    "store e' = (store (cl_env s))(fl_path ?f \<mapsto> put_attrs ?attrs obj)"
    using condput_call [OF c] put frame by simp_all
  moreover have "write_send_metadata_update V E p w s = update_op p (\<lambda>op. op\<lparr>po_outstanding_hyperdex := [?m]\<rparr>)
      (s\<lparr>cl_env := e', cl_pending_hyperdex_ops := [(u64_of_int r, (ce_hyperdex_fd V, p))]\<rparr>)"
    using c e'(1) out unfolding write_send_metadata_update_def send_hyperdex_def Let_def split_beta e1_def [symmetric]
    by (simp add: add_hyperdex_op_def handle_sent_to_hyperdex_def update_op_def)
  moreover have "map_of ?attrs ''blockmap'' = Some (serialize_blockmap E ?f)" by simp
  moreover have "is_condput (msg_call ?m)" by (simp add: is_condput_def)
  ultimately show ?thesis by (intro exI [of _ e'] exI [of _ r] exI [of _ ?m] exI [of _ ?attrs]) simp
qed

text \<open>The result of the put is the last thing a write waits for.\<close>

lemma fetch_result:
  assumes q: "quiet_link R E (cl_coord s)" and idle: "cl_yielding s = None" "cl_failed s = []" "cl_yieldable s = []" "cl_pending_ops s = []"
    and hyper: "cl_pending_hyperdex_ops s = [(u64_of_int r, (fd, p))]"
    and op: "po_kind (cl_ops s p) = Op_write w" "po_outstanding_wtf (cl_ops s p) = []" "po_outstanding_hyperdex (cl_ops s p) = [m]"
      "msg_reqid m = r" "is_condput (msg_call m)" "po_client_visible_id (cl_ops s p) = i" "\<not> po_done (cl_ops s p)"
    and w: "\<not> pw_retry w" "pw_next w = None" "cl_bds s (pw_bd w) = 1" and i: "0 < i"
    and env: "inbox (cl_env s) = []" "results (cl_env s) = [(r, HYPERDEX_CLIENT_SUCCESS)]"
  shows "\<exists>s'. loop_rounds V R E t i st s = ret (i, WTF_CLIENT_SUCCESS, s') \<and> idle_client s' \<and> keeps_session s s' \<and>
    cl_files s' = cl_files s \<and> store (cl_env s') = store (cl_env s)"
proof -
  from loop_fetches [OF q idle(1-3), where t = t and i = i and st = st] hyper env obtain e1
    where r1: "loop_round V R E t i st s = loop_hyperdex V E i st (s\<lparr>cl_env := e1\<rparr>)"
      and e1: "inbox e1 = []" "store e1 = store (cl_env s)" "results e1 = [(r, HYPERDEX_CLIENT_SUCCESS)]" by auto
  obtain r' st' st'' attrs e2 where l: "ce_hyperdex_loop V e1 = ((r', st', st'', attrs), e2)" by (metis prod.exhaust)
  from loop_result [OF e1(3) this] have l': "r' = r" "st' = HYPERDEX_CLIENT_SUCCESS" "st'' = HYPERDEX_CLIENT_SUCCESS"
    and e2: "store e2 = store (cl_env s)" using e1 by simp_all
  define s3 where "s3 = update_op p (deliver_hyperdex r HYPERDEX_CLIENT_SUCCESS attrs)
      (s\<lparr>cl_env := e2, cl_pending_hyperdex_ops := []\<rparr>)"
  define s4 where "s4 = (update_op p (remove_hyperdex_message r) s3)\<lparr>cl_bds := (cl_bds s)(pw_bd w := 0)\<rparr>"
  have "op_handle_hyperdex_message V E p r HYPERDEX_CLIENT_SUCCESS s3 = ret (True, s4)"
    using op w by (simp add: op_handle_hyperdex_message_def write_handle_hyperdex_message_def write_of_def s3_def s4_def
      update_op_def deliver_hyperdex_def first_message_def bd_remove_op_def)
  then have "loop_hyperdex V E i st (s\<lparr>cl_env := e1\<rparr>) = ret (Again (0, st, after_message i p s4))"
    using l l' hyper by (simp add: loop_hyperdex_def s3_def)
  moreover have "after_message i p s4 = s4\<lparr>cl_yielding := Some p\<rparr>"
    using op(6) by (simp add: after_message_def client_id_of_def s4_def s3_def update_op_def remove_hyperdex_message_def deliver_hyperdex_def)
  ultimately have "loop_rounds V R E t i st s = loop_rounds V R E t i st (s4\<lparr>cl_yielding := Some p\<rparr>)"
    using r1 loop_rounds_again by metis
  moreover have "\<exists>s'. loop_round V R E t i st (s4\<lparr>cl_yielding := Some p\<rparr>) = ret (Leave (i, WTF_CLIENT_SUCCESS, s')) \<and>
      s' = update_op p (\<lambda>op. op\<lparr>po_done := True\<rparr>) (s4\<lparr>cl_yielding := Some p, cl_yielding := None\<rparr>)"
    by (rule loop_yields [where w = w])
      (use op w in \<open>simp_all add: s4_def s3_def update_op_def remove_hyperdex_message_def deliver_hyperdex_def
        op_can_yield_def write_can_yield_def aggregation_done_def bd_done_def client_id_of_def\<close>)
  ultimately obtain s' where "loop_rounds V R E t i st s = ret (i, WTF_CLIENT_SUCCESS, s')"
    and s': "s' = update_op p (\<lambda>op. op\<lparr>po_done := True\<rparr>) (s4\<lparr>cl_yielding := Some p, cl_yielding := None\<rparr>)"
    using loop_rounds_leave by metis
  moreover have "idle_client s' \<and> keeps_session s s' \<and> cl_files s' = cl_files s \<and> store (cl_env s') = store (cl_env s)"
    using idle e2 by (simp add: s' s4_def s3_def update_op_def idle_client_def keeps_session_def)
  ultimately show ?thesis by blast
qed

text \<open>The last answer: the block map changes, is stored, and the operation is delivered.\<close>

lemma answer_last:
  assumes "e_buffer E" and q: "quiet_link R E (cl_coord s)" and aw: "awaiting p i base bls w qs s"
    and dist: "distinct (map bl_si bls)" and k: "k < length bls" "k \<notin> set qs" and "config_exists (bl_si (bls ! k)) (cl_config s)"
    and "bl_si (loc k) = bl_si (bls ! k)" and "pw_changeset w = collected fo len loc qs"
    and "base + length bls < u64_bound" "bl_bi (loc k) < u64_bound" "fo < u64_bound" "len < u64_bound"
    and inbox: "inbox (cl_env s) = (bl_si (bls ! k), update_reply E (base + k) RESPONSE_SUCCESS (bl_bi (loc k)) fo len) # []"
    and all: "{..<length bls} \<subseteq> set (qs @ [k])" and res: "results (cl_env s) = []"
    and f: "f = cl_files s (pw_file w)" and ins: "imap_insert fo len (map loc (qs @ [k])) (fl_block_map f) = Inr m'"
    and obj: "store (cl_env s) (fl_path f) = Some obj" "obj ''blockmap'' = Some (pw_old_blockmap w)"
  shows "\<exists>s' attrs. loop_rounds V R E t i st s = ret (i, WTF_CLIENT_SUCCESS, s') \<and> idle_client s' \<and> keeps_session s s' \<and>
    cl_files s' = (cl_files s)(pw_file w := f\<lparr>fl_block_map := m'\<rparr>) \<and>
    store (cl_env s') = (store (cl_env s))(fl_path f \<mapsto> put_attrs attrs obj) \<and>
    map_of attrs ''blockmap'' = Some (serialize_blockmap E (f\<lparr>fl_block_map := m'\<rparr>))"
proof -
  let ?w = "w\<lparr>pw_changeset := collected fo len loc (qs @ [k])\<rparr>" and ?f = "f\<lparr>fl_block_map := m'\<rparr>"
  from receive_answer [OF assms(1-3) k assms(7-14) refl, where t = t and st = st] obtain e'
    where e': "inbox e' = []" "store e' = store (cl_env s)" "results e' = results (cl_env s)"
    and r: "let s' = answered p base bls ?w k (s\<lparr>cl_env := e'\<rparr>)
     in loop_round V R E t i st s =
       (if aggregation_done (cl_ops s' p) then
          run_bind (lift_res (apply_changeset (pw_changeset ?w) (cl_files s' (pw_file ?w)))) (\<lambda>f.
            ret (Again (0, WTF_CLIENT_SUCCESS,
              after_message i p (write_send_metadata_update V E p ?w (update_file (pw_file ?w) f s')))))
        else ret (Again (0, WTF_CLIENT_SUCCESS, after_message i p s')))" by blast
  define s1 where "s1 = answered p base bls ?w k (s\<lparr>cl_env := e'\<rparr>)"
  have "awaiting p i base bls w qs (s\<lparr>cl_env := e'\<rparr>)" using aw by (simp add: awaiting_def)
  then have aw1: "awaiting p i base bls ?w (qs @ [k]) s1"
    unfolding s1_def by (rule answered_awaits [OF _ dist k]) (use aw in \<open>simp_all add: awaiting_def\<close>)
  have done1: "aggregation_done (cl_ops s1 p)" using awaiting_done [OF aw1] all by simp
  have s1: "cl_files s1 = cl_files s" "cl_env s1 = e'" "cl_coord s1 = cl_coord s"
    by (simp_all add: s1_def answered_def update_op_def)
  define s2 where "s2 = update_file (pw_file w) ?f s1"
  have aw2: "awaiting p i base bls ?w (qs @ [k]) s2" using aw1 by (simp add: s2_def update_file_def awaiting_def)
  have "apply_changeset (pw_changeset ?w) (cl_files s1 (pw_file ?w)) = Inr ?f"
    using ins s1 f by (simp add: apply_changeset_def collected_def)
  then have r1: "loop_round V R E t i st s = ret (Again (0, WTF_CLIENT_SUCCESS,
      after_message i p (write_send_metadata_update V E p ?w s2)))"
    using r done1 unfolding s1_def [symmetric] Let_def by (simp add: s2_def)
  have s2: "cl_files s2 (pw_file ?w) = ?f" "cl_files s2 = (cl_files s)(pw_file w := ?f)" "cl_env s2 = e'" "cl_coord s2 = cl_coord s"
    using s1 by (simp_all add: s2_def update_file_def)
  have "\<exists>e2 r m attrs. 0 \<le> r \<and> msg_reqid m = r \<and> is_condput (msg_call m) \<and>
    write_send_metadata_update V E p ?w s2 = update_op p (\<lambda>op. op\<lparr>po_outstanding_hyperdex := [m]\<rparr>)
      (s2\<lparr>cl_env := e2, cl_pending_hyperdex_ops := [(u64_of_int r, (ce_hyperdex_fd V, p))]\<rparr>) \<and>
    inbox e2 = inbox (cl_env s2) \<and> results e2 = [(r, HYPERDEX_CLIENT_SUCCESS)] \<and>
    store e2 = (store (cl_env s2))(fl_path (cl_files s2 (pw_file ?w)) \<mapsto> put_attrs attrs obj) \<and>
    map_of attrs ''blockmap'' = Some (serialize_blockmap E (cl_files s2 (pw_file ?w)))"
    by (rule metadata_update) (use obj res e' s2 aw2 in \<open>simp_all add: awaiting_def\<close>)
  then obtain e2 r m attrs where m: "0 \<le> r" "msg_reqid m = r" "is_condput (msg_call m)"
    and u: "write_send_metadata_update V E p ?w s2 = update_op p (\<lambda>op. op\<lparr>po_outstanding_hyperdex := [m]\<rparr>)
      (s2\<lparr>cl_env := e2, cl_pending_hyperdex_ops := [(u64_of_int r, (ce_hyperdex_fd V, p))]\<rparr>)"
    and e2: "inbox e2 = []" "results e2 = [(r, HYPERDEX_CLIENT_SUCCESS)]"
      "store e2 = (store (cl_env s))(fl_path f \<mapsto> put_attrs attrs obj)"
      "map_of attrs ''blockmap'' = Some (serialize_blockmap E ?f)" using s2 e' by auto
  define s3 where "s3 = update_op p (\<lambda>op. op\<lparr>po_outstanding_hyperdex := [m]\<rparr>)
      (s2\<lparr>cl_env := e2, cl_pending_hyperdex_ops := [(u64_of_int r, (ce_hyperdex_fd V, p))]\<rparr>)"
  have empty: "cl_pending_ops s2 = []" "po_outstanding_wtf (cl_ops s2 p) = []"
    using awaiting_pending [OF aw2] awaiting_done [OF aw2] all by (simp_all add: aggregation_done_def)
  have own: "after_message i p s3 = s3\<lparr>cl_yielding := Some p\<rparr>"
    using aw2 by (simp add: after_message_def client_id_of_def awaiting_def s3_def update_op_def)
  have "\<not> op_can_yield p (s3\<lparr>cl_yielding := Some p\<rparr>)"
    using aw2 by (simp add: op_can_yield_def write_can_yield_def awaiting_def aggregation_done_def s3_def update_op_def)
  then have "loop_round V R E t i WTF_CLIENT_SUCCESS (s3\<lparr>cl_yielding := Some p\<rparr>) = ret (Again (0, WTF_CLIENT_SUCCESS, s3))"
    using aw2 by (subst loop_not_yet [where p = p]) (simp_all add: s3_def update_op_def awaiting_def client.equality)
  then have "loop_rounds V R E t i st s = loop_rounds V R E t i WTF_CLIENT_SUCCESS s3"
    using r1 own unfolding u s3_def [symmetric] by (metis loop_rounds_again)
  moreover have "\<exists>s'. loop_rounds V R E t i WTF_CLIENT_SUCCESS s3 = ret (i, WTF_CLIENT_SUCCESS, s') \<and> idle_client s' \<and>
      keeps_session s3 s' \<and> cl_files s' = cl_files s3 \<and> store (cl_env s') = store (cl_env s3)"
    by (rule fetch_result [where r = r and p = p and w = ?w and m = m and fd = "ce_hyperdex_fd V"])
      (use aw2 q s2(4) empty m e2 in \<open>simp_all add: s3_def update_op_def awaiting_def\<close>)
  moreover have "keeps_session s s3"
    by (simp add: s3_def s2_def s1_def answered_def update_op_def update_file_def keeps_session_def)
  ultimately show ?thesis using e2 s2(2) by (auto simp: s3_def update_op_def keeps_session_def)
qed

lemma answers_in_any_order:
  assumes E: "e_buffer E" and q: "quiet_link R E (cl_coord s)" and aw: "awaiting p i base bls w qs s"
    and dist: "distinct (map bl_si bls)" and ex: "\<forall>b \<in> set bls. config_exists (bl_si b) (cl_config s)"
    and loc: "\<forall>k < length bls. bl_si (loc k) = bl_si (bls ! k) \<and> bl_bi (loc k) < u64_bound"
    and ch: "pw_changeset w = collected fo len loc qs"
    and bounds: "base + length bls < u64_bound" "fo < u64_bound" "len < u64_bound"
    and ks: "ks \<noteq> []" "distinct (qs @ ks)" "set (qs @ ks) = {..<length bls}"
    and inbox: "inbox (cl_env s) = map (\<lambda>k. (bl_si (bls ! k), update_reply E (base + k) RESPONSE_SUCCESS (bl_bi (loc k)) fo len)) ks"
    and res: "results (cl_env s) = []"
    and f: "f = cl_files s (pw_file w)" and ins: "imap_insert fo len (map loc (qs @ ks)) (fl_block_map f) = Inr m'"
    and obj: "store (cl_env s) (fl_path f) = Some obj" "obj ''blockmap'' = Some (pw_old_blockmap w)"
  shows "\<exists>s' attrs. loop_rounds V R E t i st s = ret (i, WTF_CLIENT_SUCCESS, s') \<and> idle_client s' \<and> keeps_session s s' \<and>
    cl_files s' = (cl_files s)(pw_file w := f\<lparr>fl_block_map := m'\<rparr>) \<and>
    store (cl_env s') = (store (cl_env s))(fl_path f \<mapsto> put_attrs attrs obj) \<and>
    map_of attrs ''blockmap'' = Some (serialize_blockmap E (f\<lparr>fl_block_map := m'\<rparr>))"
  using q aw ex ch ks inbox res f ins obj
proof (induction ks arbitrary: s w qs st)
  case (Cons k ks)
  have k: "k < length bls" "k \<notin> set qs" using Cons.prems(6,7) by auto
  have ex1: "config_exists (bl_si (bls ! k)) (cl_config s)" using Cons.prems(3) k(1) by simp
  have lk: "bl_si (loc k) = bl_si (bls ! k)" "bl_bi (loc k) < u64_bound" using loc k(1) by simp_all
  have in1: "inbox (cl_env s) = (bl_si (bls ! k), update_reply E (base + k) RESPONSE_SUCCESS (bl_bi (loc k)) fo len) #
      map (\<lambda>k. (bl_si (bls ! k), update_reply E (base + k) RESPONSE_SUCCESS (bl_bi (loc k)) fo len)) ks"
    using Cons.prems(8) by simp
  show ?case
  proof (cases "ks = []")
    case True
    have all: "{..<length bls} \<subseteq> set (qs @ [k])" using Cons.prems(7) True by simp
    show ?thesis
      by (rule answer_last [OF E Cons.prems(1,2) dist k ex1 lk(1) Cons.prems(4) bounds(1) lk(2) bounds(2,3) _ all Cons.prems(9,10) _ Cons.prems(12,13)])
        (use in1 True Cons.prems(11) in simp_all)
  next
    case False
    have more: "\<not> {..<length bls} \<subseteq> set (qs @ [k])"
    proof -
      obtain j where "j \<in> set ks" using False by fastforce
      then have "j \<in> {..<length bls}" "j \<notin> set (qs @ [k])" using Cons.prems(6,7) by auto
      then show ?thesis by blast
    qed
    let ?w = "w\<lparr>pw_changeset := collected fo len loc (qs @ [k])\<rparr>"
    from answer_step [OF E Cons.prems(1,2) dist k ex1 lk(1) Cons.prems(4) bounds(1) lk(2) bounds(2,3) in1 refl more, where t = t and st = st]
    obtain s' where s': "loop_rounds V R E t i st s = loop_rounds V R E t i WTF_CLIENT_SUCCESS s'"
        "awaiting p i base bls ?w (qs @ [k]) s'"
        "inbox (cl_env s') = map (\<lambda>k. (bl_si (bls ! k), update_reply E (base + k) RESPONSE_SUCCESS (bl_bi (loc k)) fo len)) ks"
        "store (cl_env s') = store (cl_env s)" "results (cl_env s') = results (cl_env s)" "cl_coord s' = cl_coord s" "cl_files s' = cl_files s"
        "keeps_session s s'"
      by blast
    have "\<exists>s'' attrs. loop_rounds V R E t i WTF_CLIENT_SUCCESS s' = ret (i, WTF_CLIENT_SUCCESS, s'') \<and> idle_client s'' \<and> keeps_session s' s'' \<and>
      cl_files s'' = (cl_files s')(pw_file ?w := f\<lparr>fl_block_map := m'\<rparr>) \<and>
      store (cl_env s'') = (store (cl_env s'))(fl_path f \<mapsto> put_attrs attrs obj) \<and>
      map_of attrs ''blockmap'' = Some (serialize_blockmap E (f\<lparr>fl_block_map := m'\<rparr>))"
      by (rule Cons.IH [where qs = "qs @ [k]"]) (use Cons.prems s' False in simp_all)
    then show ?thesis using s' by (auto simp: keeps_session_def simp del: fun_upd_apply)
  qed
qed simp

end


section \<open>A write from end to end\<close>

text \<open>The log and the database of a daemon take one more block.\<close>

definition daemon_room :: "'db kv_ops \<Rightarrow> nat \<Rightarrow> 'db daemon \<Rightarrow> bool" where
  "daemon_room K n d \<longleftrightarrow> d_log_offset (bm_disk (daemon_map d)) + n \<le> length (d_log (bm_disk (daemon_map d))) \<and>
     (\<forall>k v. kv_put K (bm_db (daemon_map d)) k v \<noteq> None)"

text \<open>A block that a daemon has stored, with its bytes.\<close>

definition holds_block :: "'db kv_ops \<Rightarrow> e_codec \<Rightarrow> 'db daemon \<Rightarrow> u64 \<Rightarrow> byte list \<Rightarrow> bool" where
  "holds_block K E d bid data \<longleftrightarrow> (\<exists>m. stored K E (daemon_map d) bid m) \<and> block_bytes K E (daemon_map d) bid = Some data"

lemma write_done_room:
  assumes "write_done K E data nonce fo d d' reply" and "daemon_room K (length data) d"
  shows "reply = update_reply E nonce RESPONSE_SUCCESS (bm_block_id (daemon_map d)) fo (length data) \<and>
    holds_block K E d' (bm_block_id (daemon_map d)) data"
  using assms by (auto simp: write_done_def daemon_room_def holds_block_def simp del: not_None_eq)

text \<open>Every server of the configuration is a daemon that can take a block; the client is not one.\<close>

definition cluster_ready :: "'db kv_ops \<Rightarrow> nat \<Rightarrow> configuration \<Rightarrow> u64 \<Rightarrow> (server_id \<Rightarrow> 'db daemon option) \<Rightarrow> bool" where
  "cluster_ready K n c token daemons \<longleftrightarrow> daemons token = None \<and> token < u64_bound \<and> c_servers c \<noteq> [] \<and>
     (\<forall>srv \<in> set (c_servers c). srv_id srv < u64_max \<and>
        (\<exists>d. daemons (srv_id srv) = Some d \<and> dm_us d = srv_id srv \<and> daemon_ready K n d \<and> daemon_room K n d))"

text \<open>A file of \<open>b\<close> bytes, open at an offset where no write has been made, takes the buffer as one block.\<close>

definition file_ready :: "u64 \<Rightarrow> byte list \<Rightarrow> client_file \<Rightarrow> bool" where
  "file_ready b buf f \<longleftrightarrow> imap_wf b (fl_block_map f) \<and> fl_offset f \<le> b \<and> \<not> has_last_op (fl_offset f) f \<and>
     buf \<noteq> [] \<and> length buf \<le> fl_block_size f \<and> fl_offset f + length buf < u64_max \<and>
     0 < fl_replicas f \<and> fl_replicas f < 2 ^ 32"

lemma aggregation_flight:
  assumes "bls \<noteq> []"
  shows "mset (map (Pair token) (map (aggregation_msg E (map bl_si bls) REQ_UPDATE (write_payload E token bls fo data) nonce)
      (rev [0..<length bls]))) = write_flight E nonce token bls fo data"
proof -
  let ?g = "\<lambda>i. (token, aggregation_msg E (map bl_si bls) REQ_UPDATE (write_payload E token bls fo data) nonce i)"
  have "mset (map (Pair token) (map (aggregation_msg E (map bl_si bls) REQ_UPDATE (write_payload E token bls fo data) nonce)
      (rev [0..<length bls]))) = image_mset ?g (mset_set {0..<length bls})"
    by (simp add: image_mset.compositionality comp_def)
  also have "{0..<length bls} = insert 0 {1..<length bls}" using assms by (cases bls) auto
  also have "image_mset ?g (mset_set (insert 0 {1..<length bls})) = add_mset (?g 0) (image_mset ?g (mset_set {1..<length bls}))"
    by simp
  also have "?g 0 = (token, bl_si (hd bls), update_msg E nonce token bls fo data)"
    using assms by (simp add: aggregation_msg_def update_msg_def hd_conv_nth)
  also have "image_mset ?g (mset_set {1..<length bls}) =
      image_mset (\<lambda>i. (token, bl_si (bls ! i), nop_msg E (nonce + i))) (mset_set {1..<length bls})"
    by (rule image_mset_cong) (simp add: aggregation_msg_def nop_msg_def)
  finally show ?thesis by (simp add: write_flight_def)
qed

lemma assigned_locations:
  assumes c: "cluster_ready K n c token daemons" and r: "assign_random_block_locations rnd k addr c (replicate reps bl_default) = Some res"
    and reps: "0 < reps"
  shows "\<exists>bls. res = Inr bls \<and> length bls = reps \<and> bls \<noteq> [] \<and> fresh_locations bls \<and> distinct (map bl_si bls) \<and>
    (\<forall>b \<in> set bls. config_exists (bl_si b) c) \<and>
    (\<forall>b \<in> set bls. \<exists>d. daemons (bl_si b) = Some d \<and> dm_us d = bl_si b \<and> daemon_ready K n d \<and> daemon_room K n d)"
proof -
  have ids: "\<forall>srv \<in> set (c_servers c). srv_id srv < u64_max" and ne: "c_servers c \<noteq> []"
    and ds: "\<forall>srv \<in> set (c_servers c). \<exists>d. daemons (srv_id srv) = Some d \<and> dm_us d = srv_id srv \<and> daemon_ready K n d \<and> daemon_room K n d"
    using c by (auto simp: cluster_ready_def)
  have nm: "no_max (c_servers c)" using ids by (auto simp: no_max_def list_all_iff)
  have ps: "preset (replicate reps bl_default) = []" by (simp add: preset_def bl_default_def filter_replicate)
  obtain bls where res: "res = Inr bls" and fill: "list_all2 (fill_rel (c_servers c) {}) (replicate reps bl_default) bls"
    and dist: "distinct (map bl_si bls)"
    using assign_random_fills [OF nm ne _ r] by (auto simp: ps)
  have len: "length bls = reps" using list_all2_lengthD [OF fill] by simp
  have "\<exists>srv \<in> set (c_servers c). b = \<lparr>bl_si = srv_id srv, bl_bi = u64_max\<rparr>" if b: "b \<in> set bls" for b
  proof -
    from b obtain j where "j < length bls" "b = bls ! j" by (auto simp: in_set_conv_nth)
    then have "fill_rel (c_servers c) {} bl_default b" using list_all2_nthD2 [OF fill, of j] len by simp
    then show ?thesis by (auto simp: fill_rel_def usable_def bl_default_def)
  qed
  then have loc: "\<forall>b \<in> set bls. \<exists>srv \<in> set (c_servers c). bl_si b = srv_id srv \<and> bl_bi b = u64_max" by fastforce
  then have "fresh_locations bls" using ids by (fastforce simp: fresh_locations_def list_all_iff u64_max_def)
  moreover have "\<forall>b \<in> set bls. config_exists (bl_si b) c" using loc by (fastforce simp: config_exists_def list_ex_iff)
  moreover have "\<forall>b \<in> set bls. \<exists>d. daemons (bl_si b) = Some d \<and> dm_us d = bl_si b \<and> daemon_ready K n d \<and> daemon_room K n d"
    using loc ds by metis
  moreover have "bls \<noteq> []" using len reps by auto
  ultimately show ?thesis using res len dist by blast
qed


text \<open>
  What a reader of the file finds afterwards: at the addresses of the write the buffer, on as many
  different daemons as the file has replicas; elsewhere what was there before. After the end of the
  write this needs the slice that is cut to begin with its block.
\<close>

definition write_visible ::
  "'db kv_ops \<Rightarrow> e_codec \<Rightarrow> (server_id \<Rightarrow> 'db daemon option) \<Rightarrow> u64 \<Rightarrow> byte list \<Rightarrow> client_file \<Rightarrow> client_file \<Rightarrow> bool" where
  "write_visible K E daemons b buf f f' \<longleftrightarrow>
     (let fo = fl_offset f; stop = fl_offset f + length buf
      in imap_wf (max b stop) (fl_block_map f') \<and>
         (\<exists>L. length L = fl_replicas f \<and> distinct (map bl_si L) \<and>
            (\<forall>l \<in> set L. \<exists>d. daemons (bl_si l) = Some d \<and> holds_block K E d (bl_bi l) buf) \<and>
            (\<forall>x. x < stop \<or> cut_ok (fl_block_map f) stop \<longrightarrow>
               seg_lookup (fl_block_map f') x =
                 (if fo \<le> x \<and> x < stop then Some (L, x - fo) else seg_lookup (fl_block_map f) x))))"

lemma map_reordered: "mset (map g xs) = mset ys \<Longrightarrow> \<exists>zs. mset zs = mset xs \<and> ys = map g zs"
proof (induction ys arbitrary: xs)
  case (Cons y ys)
  then have "y \<in> g ` set xs" by (metis list.set_intros(1) mset_eq_setD set_map)
  then obtain x where x: "x \<in> set xs" "g x = y" by auto
  then have "add_mset x (mset (remove1 x xs)) = mset xs" by simp
  then have "image_mset g (add_mset x (mset (remove1 x xs))) = add_mset y (mset ys)" using Cons.prems by (metis mset.simps(2) mset_map)
  then have "mset (map g (remove1 x xs)) = mset ys" using x(2) by simp
  then obtain zs where "mset zs = mset (remove1 x xs)" "ys = map g zs" using Cons.IH by blast
  then show ?case using x by (intro exI [of _ "x # zs"]) simp
qed simp

lemma answers_order:
  assumes "mset (map (\<lambda>(j, msg). (j, token, msg)) box) = mset (map (answer_of token bls rep) [0..<length bls])"
  shows "\<exists>ks. distinct ks \<and> set ks = {..<length bls} \<and> box = map (\<lambda>k. (bl_si (bls ! k), rep k)) ks"
proof -
  let ?g = "\<lambda>(j, t, msg). (j, msg)"
  have "mset box = image_mset ?g (mset (map (\<lambda>(j, msg). (j, token, msg)) box))"
    by (simp add: image_mset.compositionality comp_def case_prod_beta flip: mset_map)
  also have "\<dots> = mset (map (\<lambda>k. (bl_si (bls ! k), rep k)) [0..<length bls])"
    unfolding assms by (simp add: image_mset.compositionality comp_def answer_of_def flip: mset_map)
  finally have "mset (map (\<lambda>k. (bl_si (bls ! k), rep k)) [0..<length bls]) = mset box" by simp
  then obtain ks where ks: "mset ks = mset [0..<length bls]" "box = map (\<lambda>k. (bl_si (bls ! k), rep k)) ks"
    using map_reordered by blast
  then have "distinct ks" "set ks = {..<length bls}"
    by (metis distinct_upt mset_eq_imp_distinct_iff) (use ks(1) mset_eq_setD in fastforce)
  then show ?thesis using ks by blast
qed


text \<open>The second half: the loop, once the answers of an idle network have arrived.\<close>

lemma write_completes:
  assumes services: "client_services V sent inbox store results" and K: "kv_store K" and E: "e_buffer E"
    and f: "file_ready b buf f" and cluster: "cluster_ready K (length buf) (cl_config s1) token (net_daemons N0)"
    and aw: "awaiting p i base bls w [] s1" and ch: "pw_changeset w = []" and old: "pw_old_blockmap w = serialize_blockmap E f"
    and same: "fl_block_map (cl_files s1 (pw_file w)) = fl_block_map f" "fl_path (cl_files s1 (pw_file w)) = fl_path f"
    and bls: "length bls = fl_replicas f" "distinct (map bl_si bls)" "\<forall>b \<in> set bls. config_exists (bl_si b) (cl_config s1)"
    and room: "\<forall>b \<in> set bls. \<exists>d. net_daemons N0 (bl_si b) = Some d \<and> dm_us d = bl_si b \<and>
      daemon_ready K (length buf) d \<and> daemon_room K (length buf) d"
    and ws: "write_sent K E base token bls (fl_offset f) buf N0"
    and run: "(net_step K E ^^ m) N0 N" "net_flight N = {#}"
    and box: "mset (map (\<lambda>(j, msg). (j, token, msg)) (inbox e)) = net_clients N"
    and env: "results e = []" "store e (fl_path f) = Some obj" "obj ''blockmap'' = Some (serialize_blockmap E f)"
    and q: "quiet_link R E (cl_coord s1)"
  shows "\<exists>s2 attrs. client_loop V R E i t (s1\<lparr>cl_env := e\<rparr>) = ret (i, WTF_CLIENT_SUCCESS, s2) \<and> idle_client s2 \<and>
    keeps_session s1 s2 \<and> (\<exists>m'. cl_files s2 (pw_file w) = (cl_files s1 (pw_file w))\<lparr>fl_block_map := m'\<rparr>) \<and>
    store (cl_env s2) = (store e)(fl_path f \<mapsto> put_attrs attrs obj) \<and>
    map_of attrs ''blockmap'' = Some (serialize_blockmap E (cl_files s2 (pw_file w))) \<and>
    write_visible K E (net_daemons N) b buf f (cl_files s2 (pw_file w))"
proof -
  let ?fo = "fl_offset f"
  have fr: "imap_wf b (fl_block_map f)" "?fo \<le> b" "0 < length buf" "?fo + length buf < u64_max"
    using f by (simp_all add: file_ready_def)
  from write_run_steps [OF K E ws run(1)] obtain P Q Nop rep where "write_run K E base token bls ?fo buf N0 m P Q Nop rep N" by auto
  from write_run_idle [OF ws this run(2)] have
    cl: "net_clients N = mset (map (answer_of token bls rep) [0..<length bls])"
    and st: "\<forall>k < length bls. \<exists>d d'. net_daemons N0 (bl_si (bls ! k)) = Some d \<and> net_daemons N (bl_si (bls ! k)) = Some d' \<and>
       write_done K E buf (base + k) ?fo d d' (rep k)" by simp_all
  define loc where "loc k = \<lparr>bl_si = bl_si (bls ! k), bl_bi = bm_block_id (daemon_map (the (net_daemons N0 (bl_si (bls ! k)))))\<rparr>" for k
  have stored: "bl_bi (loc k) < u64_bound \<and> rep k = update_reply E (base + k) RESPONSE_SUCCESS (bl_bi (loc k)) ?fo (length buf) \<and>
      (\<exists>d. net_daemons N (bl_si (loc k)) = Some d \<and> holds_block K E d (bl_bi (loc k)) buf)"
    if k: "k < length bls" for k
  proof -
    from st k obtain d d' where d: "net_daemons N0 (bl_si (bls ! k)) = Some d" "net_daemons N (bl_si (bls ! k)) = Some d'"
      "write_done K E buf (base + k) ?fo d d' (rep k)" by blast
    have "bls ! k \<in> set bls" using k by simp
    from bspec [OF room this] d(1) have "daemon_ready K (length buf) d" "daemon_room K (length buf) d" by auto
    then show ?thesis using write_done_room [OF d(3)] d(1,2) by (simp add: loc_def daemon_ready_def)
  qed
  from answers_order [OF box [unfolded cl]] obtain ks where ks: "distinct ks" "set ks = {..<length bls}"
    and ib: "inbox e = map (\<lambda>k. (bl_si (bls ! k), rep k)) ks" by blast
  have inb: "inbox e = map (\<lambda>k. (bl_si (bls ! k), update_reply E (base + k) RESPONSE_SUCCESS (bl_bi (loc k)) ?fo (length buf))) ks"
    unfolding ib by (rule map_cong [OF refl]) (use ks(2) conjunct1 [OF conjunct2 [OF stored]] in blast)
  have small: "?fo < u64_bound" "length buf < u64_bound" "?fo + length buf < u64_bound" using fr(4) by (simp_all add: u64_max_def)
  from imap_insert_bytes [OF fr(1,2,3) small(3), of "map loc ks"] obtain m'
    where ins: "imap_insert ?fo (length buf) (map loc ks) (fl_block_map f) = Inr m'" "imap_wf (max b (?fo + length buf)) m'"
      "\<forall>x. x < ?fo + length buf \<or> cut_ok (fl_block_map f) (?fo + length buf) \<longrightarrow>
         seg_lookup m' x = (if ?fo \<le> x \<and> x < ?fo + length buf then Some (map loc ks, x - ?fo) else seg_lookup (fl_block_map f) x)"
    by blast
  have ne: "bls \<noteq> []" and nonces: "base + length bls < u64_bound" using ws by (simp_all add: write_sent_def)
  have ksne: "ks \<noteq> []"
  proof
    assume "ks = []"
    moreover have "0 \<in> set ks" unfolding ks(2) using ne by simp
    ultimately show False by simp
  qed
  let ?s = "s1\<lparr>cl_env := e\<rparr>"
  have aw': "awaiting p i base bls w [] ?s" using aw by (simp add: awaiting_def)
  have locs: "\<forall>k < length bls. bl_si (loc k) = bl_si (bls ! k) \<and> bl_bi (loc k) < u64_bound"
    using conjunct1 [OF stored] by (simp add: loc_def)
  have "\<exists>s' attrs. loop_rounds V R E t i WTF_CLIENT_SUCCESS ?s = ret (i, WTF_CLIENT_SUCCESS, s') \<and> idle_client s' \<and> keeps_session ?s s' \<and>
      cl_files s' = (cl_files ?s)(pw_file w := (cl_files ?s (pw_file w))\<lparr>fl_block_map := m'\<rparr>) \<and>
      store (cl_env s') = (store (cl_env ?s))(fl_path (cl_files ?s (pw_file w)) \<mapsto> put_attrs attrs obj) \<and>
      map_of attrs ''blockmap'' = Some (serialize_blockmap E ((cl_files ?s (pw_file w))\<lparr>fl_block_map := m'\<rparr>))"
  proof (rule client_services.answers_in_any_order [OF services E _ aw' bls(2) _ locs _ nonces small(1,2) ksne _ _ _ _ refl])
    show "inbox (cl_env ?s) = map (\<lambda>k. (bl_si (bls ! k), update_reply E (base + k) RESPONSE_SUCCESS (bl_bi (loc k)) ?fo (length buf))) ks"
      using inb by simp
    show "imap_insert ?fo (length buf) (map loc ([] @ ks)) (fl_block_map (cl_files ?s (pw_file w))) = Inr m'"
      using ins(1) same(1) by simp
  qed (use ks bls(3) q ch old same(2) env in \<open>simp_all add: collected_def\<close>)
  moreover have "write_visible K E (net_daemons N) b buf f ((cl_files s1 (pw_file w))\<lparr>fl_block_map := m'\<rparr>)"
    unfolding write_visible_def Let_def
  proof (intro conjI exI [of _ "map loc ks"])
    show "length (map loc ks) = fl_replicas f" using ks bls(1) distinct_card [OF ks(1)] by simp
    show "distinct (map bl_si (map loc ks))"
    proof -
      have "inj_on (\<lambda>k. bl_si (bls ! k)) {..<length bls}"
        using bls(2) by (auto simp: inj_on_def distinct_conv_nth)
      then show ?thesis using ks by (simp add: distinct_map inj_on_def loc_def)
    qed
    show "\<forall>l \<in> set (map loc ks). \<exists>d. net_daemons N (bl_si l) = Some d \<and> holds_block K E d (bl_bi l) buf"
      using ks(2) stored by auto
  qed (use ins in simp_all)
  moreover have "keeps_session (s1\<lparr>cl_env := e\<rparr>) = keeps_session s1" by (simp add: keeps_session_def fun_eq_iff)
  ultimately show ?thesis using same unfolding client_loop_def inner_loop_def
    by (elim exE conjE) (rule exI, rule exI, auto)
qed

lemma write_ends_answered:
  assumes K: "kv_store K" and E: "e_buffer E" and w: "write_sent K E nonce token bls fo data N1"
  shows "\<exists>m N box. (net_step K E ^^ m) N1 N \<and> net_flight N = {#} \<and>
    mset (map (\<lambda>(j, msg). (j, token, msg)) box) = net_clients N"
proof -
  obtain m N where run: "(net_step K E ^^ m) N1 N" "net_flight N = {#}" using write_ends [OF assms] by blast
  from write_run_steps [OF K E w run(1)] obtain P Q Nop rep where "write_run K E nonce token bls fo data N1 m P Q Nop rep N" by auto
  from write_run_idle [OF w this run(2)] have "net_clients N = mset (map (answer_of token bls rep) [0..<length bls])" by simp
  then have "mset (map (\<lambda>(j, msg). (j, token, msg)) (map (\<lambda>k. (bl_si (bls ! k), rep k)) [0..<length bls])) = net_clients N"
    by (simp add: answer_of_def [abs_def] comp_def)
  then show ?thesis using run by blast
qed

text \<open>What a write leaves: the offset of the file has moved, and the write is the last operation at its offset.\<close>

definition follows_write :: "e_codec \<Rightarrow> client_file \<Rightarrow> byte list \<Rightarrow> ('r, 'e) client \<Rightarrow> file_ref \<Rightarrow> ('r, 'e) client \<Rightarrow> bool" where
  "follows_write E f buf s r s2 \<longleftrightarrow> cl_coord s2 = cl_coord s \<and> cl_fds s2 = cl_fds s \<and> cl_token s2 = cl_token s \<and>
     cl_addr s2 = cl_addr s \<and> cl_next_client_id s2 = cl_next_client_id s + 1 \<and>
     cl_next_server_nonce s2 = cl_next_server_nonce s + fl_replicas f \<and>
     (\<exists>p m. cl_files s2 r = (set_last_op (fl_offset f) p (add_pending_op (cl_next_client_id s) f))
        \<lparr>fl_offset := u64_add (fl_offset f) (length buf), fl_block_map := m\<rparr>)"

definition daemons_grow ::
  "'db kv_ops \<Rightarrow> nat \<Rightarrow> (server_id \<Rightarrow> 'db daemon option) \<Rightarrow> (server_id \<Rightarrow> 'db daemon option) \<Rightarrow> bool" where
  "daemons_grow K n ds ds' \<longleftrightarrow> (\<forall>j. ds' j = ds j \<or>
     (\<exists>d d'. ds j = Some d \<and> ds' j = Some d' \<and> dm_us d' = dm_us d \<and> bm_ok K (daemon_map d) \<and>
        bm_ok K (daemon_map d') \<and> takes_block K n (daemon_map d) (daemon_map d')))"

lemma write_grows:
  assumes K: "kv_store K" and E: "e_buffer E" and w: "write_sent K E nonce token bls fo data N1"
    and run: "(net_step K E ^^ m) N1 N" "net_flight N = {#}"
  shows "daemons_grow K (length data) (net_daemons N1) (net_daemons N)"
proof -
  from write_run_steps [OF K E w run(1)] obtain P Q Nop rep where "write_run K E nonce token bls fo data N1 m P Q Nop rep N" by auto
  note idle = write_run_idle [OF w this run(2)]
  have "\<exists>d d'. net_daemons N1 j = Some d \<and> net_daemons N j = Some d' \<and> dm_us d' = dm_us d \<and> bm_ok K (daemon_map d) \<and>
      bm_ok K (daemon_map d') \<and> takes_block K (length data) (daemon_map d) (daemon_map d')" if j: "j \<in> bl_si ` set bls" for j
  proof -
    from j obtain i where i: "i < length bls" "j = bl_si (bls ! i)" by (auto simp: in_set_conv_nth)
    then obtain d d' where d: "net_daemons N1 j = Some d" "net_daemons N j = Some d'" "write_done K E data (nonce + i) fo d d' (rep i)"
      using idle by blast
    moreover have "bm_ok K (daemon_map d)" using write_target [OF w i(1)] d(1) i(2) by (auto simp: daemon_ready_def)
    ultimately show ?thesis by (auto simp: write_done_def)
  qed
  then show ?thesis using idle unfolding daemons_grow_def by metis
qed

lemma write_whole:
  assumes services: "client_services V sent inbox store results" and K: "kv_store K" and E: "e_buffer E"
    and fd: "find_file fd s = Some r" and idle: "idle_client s" and i: "0 < cl_next_client_id s"
    and f: "f = cl_files s r" "file_ready b buf f"
    and nonces: "cl_next_server_nonce s + fl_replicas f < u64_bound"
    and cluster: "cluster_ready K (length buf) (cl_config s) (cl_token s) (net_daemons N0)"
    and rnd: "fst (ce_random V (cl_env s)) = (rnd, n)"
    and pick: "assign_random_block_locations rnd n (cl_addr s) (cl_config s) (replicate (fl_replicas f) bl_default) \<noteq> None"
  shows "\<exists>s1 out N1. client_write V E fd buf s = ret (cl_next_client_id s, Some WTF_CLIENT_SUCCESS, s1) \<and>
    sent (cl_env s1) = sent (cl_env s) @ out \<and> length out = fl_replicas f \<and>
    N1 = N0\<lparr>net_flight := mset (map (Pair (cl_token s)) out), net_clients := {#}\<rparr> \<and>
    (\<exists>m N box. (net_step K E ^^ m) N1 N \<and> net_flight N = {#} \<and>
       mset (map (\<lambda>(j, msg). (j, cl_token s, msg)) box) = net_clients N) \<and>
    (\<forall>m N e R t obj. (net_step K E ^^ m) N1 N \<longrightarrow> net_flight N = {#} \<longrightarrow>
       mset (map (\<lambda>(j, msg). (j, cl_token s, msg)) (inbox e)) = net_clients N \<longrightarrow> results e = [] \<longrightarrow>
       store e (fl_path f) = Some obj \<longrightarrow> obj ''blockmap'' = Some (serialize_blockmap E f) \<longrightarrow>
       quiet_link R E (cl_coord s) \<longrightarrow>
       (\<exists>s2 attrs. client_loop V R E (cl_next_client_id s) t (s1\<lparr>cl_env := e\<rparr>) =
            ret (cl_next_client_id s, WTF_CLIENT_SUCCESS, s2) \<and> idle_client s2 \<and>
          follows_write E f buf s r s2 \<and> daemons_grow K (length buf) (net_daemons N0) (net_daemons N) \<and>
          store (cl_env s2) = (store e)(fl_path f \<mapsto> put_attrs attrs obj) \<and>
          map_of attrs ''blockmap'' = Some (serialize_blockmap E (cl_files s2 r)) \<and>
          write_visible K E (net_daemons N) b buf f (cl_files s2 r)))"
proof -
  have fr: "\<not> has_last_op (fl_offset f) f" "buf \<noteq> []" "length buf \<le> fl_block_size f" "0 < fl_replicas f"
    "fl_replicas f < 2 ^ 32" "fl_offset f + length buf < u64_max" using f(2) by (simp_all add: file_ready_def)
  obtain x where "assign_random_block_locations rnd n (cl_addr s) (cl_config s) (replicate (fl_replicas f) bl_default) = Some x"
    using pick by blast
  with assigned_locations [OF cluster _ fr(4)] obtain bls
    where bls: "assign_random_block_locations rnd n (cl_addr s) (cl_config s) (replicate (fl_replicas f) bl_default) = ret bls"
      "length bls = fl_replicas f" "bls \<noteq> []" "fresh_locations bls" "distinct (map bl_si bls)"
      "\<forall>b \<in> set bls. config_exists (bl_si b) (cl_config s)"
    and room: "\<forall>b \<in> set bls. \<exists>d. net_daemons N0 (bl_si b) = Some d \<and> dm_us d = bl_si b \<and>
      daemon_ready K (length buf) d \<and> daemon_room K (length buf) d" by (metis)
  let ?out = "map (aggregation_msg E (map bl_si bls) REQ_UPDATE (write_payload E (cl_token s) bls (fl_offset f) buf)
    (cl_next_server_nonce s)) (rev [0..<length bls])"
  obtain s1 p w where w: "client_write V E fd buf s = ret (cl_next_client_id s, Some WTF_CLIENT_SUCCESS, s1)"
      "sent (cl_env s1) = sent (cl_env s) @ ?out"
      "awaiting p (cl_next_client_id s) (cl_next_server_nonce s) bls w [] s1"
      "pw_file w = r" "pw_old_blockmap w = serialize_blockmap E f" "pw_changeset w = []"
      "cl_coord s1 = cl_coord s" "cl_fds s1 = cl_fds s" "cl_token s1 = cl_token s" "cl_addr s1 = cl_addr s"
      "cl_next_client_id s1 = cl_next_client_id s + 1" "cl_next_server_nonce s1 = cl_next_server_nonce s + length bls"
      "cl_files s1 r = (set_last_op (fl_offset f) p (add_pending_op (cl_next_client_id s) f))
        \<lparr>fl_offset := u64_add (fl_offset f) (length buf)\<rparr>"
    using client_services.client_write_sends [OF services fd idle i _ fr(2) _ rnd _ bls(5)] fr(1,3) bls(1,2) nonces
    unfolding f(1) [symmetric] by metis
  have same: "fl_block_map (cl_files s1 r) = fl_block_map f" "fl_path (cl_files s1 r) = fl_path f"
    unfolding w(13) by (simp_all add: set_last_op_def add_pending_op_def)
  define N1 where "N1 = N0\<lparr>net_flight := mset (map (Pair (cl_token s)) ?out), net_clients := {#}\<rparr>"
  have ws: "write_sent K E (cl_next_server_nonce s) (cl_token s) bls (fl_offset f) buf N1"
    using aggregation_flight [OF bls(3), of "cl_token s" E "fl_offset f" buf "cl_next_server_nonce s"] bls room cluster fr nonces
    by (auto simp: write_sent_def N1_def cluster_ready_def u64_max_def)
  have D: "net_daemons N1 = net_daemons N0" by (simp add: N1_def)
  have loop: "\<exists>s2 attrs. client_loop V R E (cl_next_client_id s) t (s1\<lparr>cl_env := e\<rparr>) =
        ret (cl_next_client_id s, WTF_CLIENT_SUCCESS, s2) \<and> idle_client s2 \<and>
      follows_write E f buf s r s2 \<and> daemons_grow K (length buf) (net_daemons N0) (net_daemons N) \<and>
      store (cl_env s2) = (store e)(fl_path f \<mapsto> put_attrs attrs obj) \<and>
      map_of attrs ''blockmap'' = Some (serialize_blockmap E (cl_files s2 r)) \<and>
      write_visible K E (net_daemons N) b buf f (cl_files s2 r)"
    if "(net_step K E ^^ m) N1 N" "net_flight N = {#}"
      "mset (map (\<lambda>(j, msg). (j, cl_token s, msg)) (inbox e)) = net_clients N" "results e = []"
      "store e (fl_path f) = Some obj" "obj ''blockmap'' = Some (serialize_blockmap E f)" "quiet_link R E (cl_coord s)"
    for m N e R t obj
  proof -
    from write_completes [OF services K E f(2) _ w(3,6,5) _ _ bls(2,5) _ _ ws that(1-6), of R t]
      cluster room bls(6) w(7) same that(7) obtain s2 attrs m' where
      s2: "client_loop V R E (cl_next_client_id s) t (s1\<lparr>cl_env := e\<rparr>) = ret (cl_next_client_id s, WTF_CLIENT_SUCCESS, s2)"
        "idle_client s2" "keeps_session s1 s2" "cl_files s2 r = (cl_files s1 r)\<lparr>fl_block_map := m'\<rparr>"
        "store (cl_env s2) = (store e)(fl_path f \<mapsto> put_attrs attrs obj)"
        "map_of attrs ''blockmap'' = Some (serialize_blockmap E (cl_files s2 r))"
        "write_visible K E (net_daemons N) b buf f (cl_files s2 r)" unfolding w(4) D by auto
    have "follows_write E f buf s r s2"
      using s2(3,4) w(7-13) bls(2) unfolding follows_write_def keeps_session_def by (auto simp: f(1) [symmetric])
    moreover have "daemons_grow K (length buf) (net_daemons N0) (net_daemons N)"
      using write_grows [OF K E ws that(1,2)] unfolding D .
    ultimately show ?thesis using s2 by blast
  qed
  show ?thesis
    using w(1,2) bls(2) write_ends_answered [OF K E ws] loop
    by (intro exI [of _ s1] exI [of _ ?out] exI [of _ N1]) (simp add: N1_def)
qed

text \<open>C2: a write of one block, from the call to the loop that returns its number. The client's call
  succeeds and sends one message for each replica. The network comes to rest, and when the answers
  of the daemons have arrived, in whatever order, the loop of the client returns the number of the
  write with success: HyperDex has the new block map under the path, provided it had the one the
  client started from, and nothing is left pending. The new block map names, at the addresses of the
  write, different daemons that all store the buffer, and before the write what it named before. After the end of the write
  it names what it named before only if the slice that holds the address at the end of the write, if there is one, has the
  offset 0 in its block (\<open>cut_ok\<close>); otherwise the code gives the rest of that slice a wrong offset
  (\<open>insert_contained\<close>, \<open>interval_map.cc:154\<close>), and nothing is claimed of the addresses there.

  The conditions. The client has nothing else under way (\<open>idle_client\<close>). The file is open at an offset in it or at its
  end where no write has been made since it was opened (C33), and the buffer has at least one byte and fits in one block
  (\<open>file_ready\<close>). Every server of the configuration is a daemon with room in its log and its numbers whose database takes
  every key (\<open>cluster_ready\<close>). The draw of servers ends for the random numbers the client gets. The loop finds a link
  without news (\<open>quiet_link\<close>), and no other result of HyperDex is waiting.\<close>

theorem write_end_to_end:
  assumes services: "client_services V sent inbox store results" and K: "kv_store K" and E: "e_buffer E"
    and fd: "find_file fd s = Some r" and idle: "idle_client s" and i: "0 < cl_next_client_id s"
    and f: "f = cl_files s r" "file_ready b buf f"
    and nonces: "cl_next_server_nonce s + fl_replicas f < u64_bound"
    and cluster: "cluster_ready K (length buf) (cl_config s) (cl_token s) (net_daemons N0)"
    and rnd: "fst (ce_random V (cl_env s)) = (rnd, n)"
    and pick: "assign_random_block_locations rnd n (cl_addr s) (cl_config s) (replicate (fl_replicas f) bl_default) \<noteq> None"
  shows "\<exists>s1 out N1. client_write V E fd buf s = ret (cl_next_client_id s, Some WTF_CLIENT_SUCCESS, s1) \<and>
    sent (cl_env s1) = sent (cl_env s) @ out \<and> length out = fl_replicas f \<and>
    N1 = N0\<lparr>net_flight := mset (map (Pair (cl_token s)) out), net_clients := {#}\<rparr> \<and>
    (\<exists>m N box. (net_step K E ^^ m) N1 N \<and> net_flight N = {#} \<and>
       mset (map (\<lambda>(j, msg). (j, cl_token s, msg)) box) = net_clients N) \<and>
    (\<forall>m N e R t obj. (net_step K E ^^ m) N1 N \<longrightarrow> net_flight N = {#} \<longrightarrow>
       mset (map (\<lambda>(j, msg). (j, cl_token s, msg)) (inbox e)) = net_clients N \<longrightarrow> results e = [] \<longrightarrow>
       store e (fl_path f) = Some obj \<longrightarrow> obj ''blockmap'' = Some (serialize_blockmap E f) \<longrightarrow>
       quiet_link R E (cl_coord s) \<longrightarrow>
       (\<exists>s2 attrs. client_loop V R E (cl_next_client_id s) t (s1\<lparr>cl_env := e\<rparr>) =
            ret (cl_next_client_id s, WTF_CLIENT_SUCCESS, s2) \<and> idle_client s2 \<and>
          store (cl_env s2) = (store e)(fl_path f \<mapsto> put_attrs attrs obj) \<and>
          map_of attrs ''blockmap'' = Some (serialize_blockmap E (cl_files s2 r)) \<and>
          write_visible K E (net_daemons N) b buf f (cl_files s2 r)))"
  using write_whole [OF assms]
proof (elim exE conjE, goal_cases)
  case (1 s1 out N1 m N box)
  have "(\<forall>m N e R t obj. (net_step K E ^^ m) N1 N \<longrightarrow> net_flight N = {#} \<longrightarrow>
       mset (map (\<lambda>(j, msg). (j, cl_token s, msg)) (inbox e)) = net_clients N \<longrightarrow> results e = [] \<longrightarrow>
       store e (fl_path f) = Some obj \<longrightarrow> obj ''blockmap'' = Some (serialize_blockmap E f) \<longrightarrow>
       quiet_link R E (cl_coord s) \<longrightarrow>
       (\<exists>s2 attrs. client_loop V R E (cl_next_client_id s) t (s1\<lparr>cl_env := e\<rparr>) =
            ret (cl_next_client_id s, WTF_CLIENT_SUCCESS, s2) \<and> idle_client s2 \<and>
          store (cl_env s2) = (store e)(fl_path f \<mapsto> put_attrs attrs obj) \<and>
          map_of attrs ''blockmap'' = Some (serialize_blockmap E (cl_files s2 r)) \<and>
          write_visible K E (net_daemons N) b buf f (cl_files s2 r)))"
    using 1(5) by (intro allI impI) (elim allE impE; (assumption | (elim exE conjE, intro exI conjI; assumption)))
  then show ?case by (intro exI conjI) (rule 1(1-4,6-8) | assumption)+
qed


section \<open>An instance of the services\<close>

text \<open>BusyBee and HyperDex in memory; calls of HyperDex other than conditional puts fail.\<close>

record mem_services =
  ms_sent :: "packet list"
  ms_inbox :: "packet list"
  ms_store :: "string \<Rightarrow> hd_object option"
  ms_results :: "hd_result list"
  ms_next :: nat

definition mem_recv :: "int \<Rightarrow> mem_services \<Rightarrow> (busybee_returncode \<times> u64 \<times> byte list) \<times> mem_services" where
  "mem_recv t e =
     (case ms_inbox e of
        (i, msg) # rest \<Rightarrow> ((BUSYBEE_SUCCESS, i, msg), e\<lparr>ms_inbox := rest\<rparr>)
      | [] \<Rightarrow> (if ms_results e = [] then (BUSYBEE_TIMEOUT, 0, []) else (BUSYBEE_EXTERNAL, 100, []), e))"

definition mem_hyperdex :: "hyperdex_call \<Rightarrow> mem_services \<Rightarrow> (int \<times> hyperdex_status) \<times> mem_services" where
  "mem_hyperdex call e =
     (case call of
        HD_condput path checks attrs \<Rightarrow>
          (case condput path checks attrs (ms_store e) of
             None \<Rightarrow> ((int (ms_next e), HYPERDEX_CLIENT_GARBAGE),
               e\<lparr>ms_results := ms_results e @ [(int (ms_next e), HYPERDEX_CLIENT_OTHER 1)], ms_next := Suc (ms_next e)\<rparr>)
           | Some st \<Rightarrow> ((int (ms_next e), HYPERDEX_CLIENT_GARBAGE),
               e\<lparr>ms_store := st, ms_results := ms_results e @ [(int (ms_next e), HYPERDEX_CLIENT_SUCCESS)],
                 ms_next := Suc (ms_next e)\<rparr>))
      | _ \<Rightarrow> ((-1, HYPERDEX_CLIENT_OTHER 0), e))"

definition mem_hyperdex_loop ::
  "mem_services \<Rightarrow> (int \<times> hyperdex_status \<times> hyperdex_status \<times> hd_attr list) \<times> mem_services" where
  "mem_hyperdex_loop e =
     (case ms_results e of
        [] \<Rightarrow> ((-1, HYPERDEX_CLIENT_NONEPENDING, HYPERDEX_CLIENT_NONEPENDING, []), e)
      | (r, st) # rest \<Rightarrow> ((r, HYPERDEX_CLIENT_SUCCESS, st, []), e\<lparr>ms_results := rest\<rparr>))"

definition mem_env :: "mem_services client_env" where
  "mem_env = \<lparr>ce_send = (\<lambda>to msg e. (BUSYBEE_SUCCESS, e\<lparr>ms_sent := ms_sent e @ [(to, msg)]\<rparr>)),
     ce_recv = mem_recv, ce_drop = (\<lambda>_ e. e), ce_set_external = (\<lambda>e. (BUSYBEE_SUCCESS, e)),
     ce_hyperdex = mem_hyperdex, ce_hyperdex_loop = mem_hyperdex_loop, ce_hyperdex_fd = 100,
     ce_negative = (\<lambda>st. st \<noteq> HYPERDEX_CLIENT_SUCCESS), ce_int = be_put 8, ce_random = (\<lambda>e. ((int, 0), e)),
     ce_time = (\<lambda>e. (0, e)), ce_user = ''root'', ce_group = ''root''\<rparr>"

interpretation mem: client_services mem_env ms_sent ms_inbox ms_store ms_results
  by unfold_locales
    (auto simp: mem_env_def mem_recv_def mem_hyperdex_def mem_hyperdex_loop_def split: option.splits)

text \<open>Client 9 has opened an empty file with two replicas; the servers 5 and 3 run the daemons of \<open>demo_net\<close>.\<close>

definition demo_servers :: "server list" where
  "demo_servers = [\<lparr>srv_state = AVAILABLE, srv_id = 5, srv_bind_to = \<lparr>loc_address = Inet [10, 0, 0, 5], loc_port = 80\<rparr>\<rparr>,
     \<lparr>srv_state = AVAILABLE, srv_id = 3, srv_bind_to = \<lparr>loc_address = Inet [10, 0, 0, 3], loc_port = 80\<rparr>\<rparr>]"

definition demo_link :: "unit coordinator_link" where
  "demo_link = (link_new ())\<lparr>lk_config := config_new\<lparr>c_version := 1, c_servers := demo_servers\<rparr>,
     lk_state := WAITING_ON_BROADCAST, lk_id := 8\<rparr>"

definition demo_file :: client_file where
  "demo_file = file_new ''/a'' 2 4096"

definition demo_services :: mem_services where
  "demo_services = \<lparr>ms_sent = [], ms_inbox = [],
     ms_store = [''/a'' \<mapsto> [''blockmap'' \<mapsto> serialize_blockmap be_codec demo_file]],
     ms_results = [], ms_next = 1\<rparr>"

definition demo_client :: "(unit, mem_services) client" where
  "demo_client = (client_new () 9 Unspec demo_services)\<lparr>cl_coord := demo_link, cl_fds := [(1, 0)],
     cl_files := (\<lambda>_. demo_file)\<rparr>"

lemma demo_quiet: "quiet_link demo_replicant be_codec demo_link"
  unfolding quiet_link_def
  by (subst ensure_configuration.simps)
    (simp add: demo_replicant_def demo_link_def link_new_def ensure_round_def prime_state_machine_def Let_def)

lemma demo_cluster: "cluster_ready map_kv 3 (cl_config demo_client) (cl_token demo_client) (net_daemons demo_net)"
  using demo_daemon_ready
  by (simp add: cluster_ready_def demo_client_def client_new_def demo_link_def demo_servers_def demo_net_def
      daemon_room_def map_kv_def u64_max_def)
    (simp add: demo_daemon_def daemon_map_def bsm_setup_def demo_store_def blockmap_new_def disk_new_def)

lemma demo_pick: "assign_random_block_locations int 0 (cl_addr demo_client) (cl_config demo_client)
    (replicate 2 bl_default) \<noteq> None"
proof -
  have "draw_server int 0 demo_servers {} = Some (Inr (demo_servers ! 0, 1))"
    by (subst draw_server.simps) (simp add: demo_servers_def get_random_server_def)
  moreover have "draw_server int 1 demo_servers {5} = Some (Inr (demo_servers ! 1, 2))"
    by (subst draw_server.simps) (simp add: demo_servers_def get_random_server_def numeral_2_eq_2)
  ultimately show ?thesis
    by (simp add: assign_random_block_locations_def assign_local_def bl_order_defs bl_default_def u64_max_def
        assign_fallback_def demo_client_def client_new_def demo_link_def demo_servers_def loc_default_def
        server_default_def numeral_2_eq_2)
qed

theorem write_end_to_end_witness:
  "\<exists>s1 e s2 L. client_write mem_env be_codec 1 [1, 2, 3] demo_client = ret (1, Some WTF_CLIENT_SUCCESS, s1) \<and>
     client_loop mem_env demo_replicant be_codec 1 0 (s1\<lparr>cl_env := e\<rparr>) = ret (1, WTF_CLIENT_SUCCESS, s2) \<and>
     idle_client s2 \<and> length L = 2 \<and> seg_lookup (fl_block_map (cl_files s2 0)) 2 = Some (L, 2)"
proof -
  have f: "demo_file = cl_files demo_client 0" "file_ready 0 [1, 2, 3] demo_file"
    by (simp_all add: demo_client_def file_ready_def demo_file_def file_new_def imap_wf_def has_last_op_def u64_max_def)
  have c: "find_file 1 demo_client = Some 0" "idle_client demo_client" "0 < cl_next_client_id demo_client"
    "cl_next_server_nonce demo_client + fl_replicas demo_file < u64_bound"
    "fst (ce_random mem_env (cl_env demo_client)) = (int, 0)" "fl_replicas demo_file = 2"
    by (simp_all add: demo_client_def find_file_def idle_client_def client_new_def demo_file_def file_new_def mem_env_def
        u64_of_int_def)
  have n: "cl_next_client_id demo_client = 1" "cl_coord demo_client = demo_link" "cl_token demo_client = 9"
    "fl_path demo_file = ''/a''" "fl_offset demo_file = 0"
    by (simp_all add: demo_client_def client_new_def demo_file_def file_new_def)
  have cl: "cluster_ready map_kv (length [1, 2, 3 :: byte]) (cl_config demo_client) (cl_token demo_client) (net_daemons demo_net)"
    using demo_cluster by (simp add: numeral_3_eq_3)
  have pick: "assign_random_block_locations int 0 (cl_addr demo_client) (cl_config demo_client)
    (replicate (fl_replicas demo_file) bl_default) \<noteq> None" unfolding c(6) by (rule demo_pick)
  let ?e = "\<lambda>box. demo_services\<lparr>ms_inbox := box\<rparr>"
  have e: "ms_store (?e box) ''/a'' = Some [''blockmap'' \<mapsto> serialize_blockmap be_codec demo_file]"
    "ms_results (?e box) = []" for box by (simp_all add: demo_services_def)
  from write_end_to_end [OF mem.client_services_axioms map_kv.kv_store_axioms be.e_buffer_axioms c(1-3) f c(4) cl c(5) pick,
      unfolded n]
  show ?thesis
  proof (elim exE conjE, goal_cases)
    case (1 s1 out N1 m N box)
    note loop = 1(5) [rule_format, OF 1(6,7) _ e(2,1) _ demo_quiet, of box]
    from loop 1(8) obtain s2 where s2: "client_loop mem_env demo_replicant be_codec 1 0 (s1\<lparr>cl_env := ?e box\<rparr>) =
        ret (1, WTF_CLIENT_SUCCESS, s2)" "idle_client s2"
      "write_visible map_kv be_codec (net_daemons N) 0 [1, 2, 3] demo_file (cl_files s2 0)" by fastforce
    from s2(3) obtain L where "length L = 2" "seg_lookup (fl_block_map (cl_files s2 0)) 2 = Some (L, 2)"
      unfolding write_visible_def Let_def n c(6) by fastforce
    with 1(1) s2(1,2) show ?case by blast
  qed
qed

end
