(* ===== verification/ClientProps.thy ===== *)
theory ClientProps
  imports WritePath
begin

text \<open>
  What the loop of a client does not do: return for an operation it was not asked for by number,
  and carry out a second write at an offset.
\<close>

section \<open>Waiting for any operation\<close>

text \<open>The operations in the two places for those that have something for their caller.\<close>

definition deliverable :: "('r, 'e) client \<Rightarrow> op_ref set" where
  "deliverable s = set_option (cl_yielding s) \<union> snd ` set (cl_yieldable s)"

definition circling :: "('r, 'e) client \<Rightarrow> bool" where
  "circling s \<longleftrightarrow> cl_failed s = [] \<and> deliverable s \<noteq> {} \<and>
     (\<forall>p \<in> deliverable s. op_can_yield p s \<and> client_id_of p s \<noteq> -1)"

lemma op_can_yield_frame:
  "cl_ops s' = cl_ops s \<Longrightarrow> cl_bds s' = cl_bds s \<Longrightarrow> op_can_yield p s' = op_can_yield p s"
  by (simp add: op_can_yield_def write_can_yield_def split: op_kind.split)

lemma set_insert_subset: "set (m_insert k v m) \<subseteq> insert (k, v) (set m)"
  by (induction m) (auto split: if_splits)

lemma insert_nonempty [simp]: "m_insert k v m \<noteq> []"
  by (cases m) (auto split: if_splits)

lemma circling_round:
  assumes "circling s"
  shows "\<exists>x st' s'. loop_round V R E t (-1) st s = ret (Again (x, st', s')) \<and> circling s'"
proof (cases "cl_yielding s")
  case (Some p)
  let ?s = "(make_yieldable p s)\<lparr>cl_yielding := None\<rparr>"
  have p: "op_can_yield p s" "client_id_of p s \<noteq> -1" using assms Some by (auto simp: circling_def deliverable_def)
  then have round: "loop_round V R E t (-1) st s = ret (Again (0, st, ?s))"
    using Some by (simp add: loop_round_def loop_yielding_def)
  have "op_can_yield q ?s = op_can_yield q s" "client_id_of q ?s = client_id_of q s" for q
    by (rule op_can_yield_frame, simp_all add: make_yieldable_def) (simp add: client_id_of_def)
  moreover have "deliverable ?s \<subseteq> deliverable s"
  proof
    fix q assume "q \<in> deliverable ?s"
    then obtain k where "(k, q) \<in> set (m_insert (u64_of_int (client_id_of p s)) p (cl_yieldable s))"
      by (auto simp: deliverable_def make_yieldable_def)
    from subsetD [OF set_insert_subset this] have "q = p \<or> q \<in> snd ` set (cl_yieldable s)" by force
    then show "q \<in> deliverable s" using Some by (auto simp: deliverable_def)
  qed
  moreover have "deliverable ?s \<noteq> {}" "cl_failed ?s = cl_failed s" by (simp_all add: deliverable_def make_yieldable_def)
  ultimately have "circling ?s" using assms by (auto simp: circling_def dest: subsetD)
  with round show ?thesis by blast
next
  case None
  then obtain i p rest where y: "cl_yieldable s = (i, p) # rest"
    using assms by (cases "cl_yieldable s") (auto simp: circling_def deliverable_def)
  let ?s = "s\<lparr>cl_yielding := Some p, cl_yieldable := rest\<rparr>"
  have round: "loop_round V R E t (-1) st s = ret (Again (0, st, ?s))"
    using assms None y by (simp add: loop_round_def circling_def)
  have "op_can_yield q ?s = op_can_yield q s" "client_id_of q ?s = client_id_of q s" for q
    by (rule op_can_yield_frame, simp_all) (simp add: client_id_of_def)
  moreover have "deliverable ?s = deliverable s" "cl_failed ?s = cl_failed s" using None y by (auto simp: deliverable_def)
  ultimately have "circling ?s" using assms by (auto simp: circling_def)
  with round show ?thesis by blast
qed

lemma circling_never_leaves: "loop_rounds V R E t w st s = Some r \<Longrightarrow> w = -1 \<Longrightarrow> \<not> circling s"
proof (induction rule: loop_rounds.raw_induct [rotated, consumes 1])
  case (1 loop V R E t w st s r)
  show ?case
  proof
    assume "circling s"
    from circling_round [OF this, of V R E t st] obtain x st' s'
      where "loop_round V R E t (-1) st s = ret (Again (x, st', s'))" "circling s'" by blast
    with 1 show False by simp
  qed
qed

text \<open>C32: the loop that waits for any operation never returns once an operation has something to
  deliver: the operation is moved between the two places for operations that can deliver for ever,
  whatever the network and HyperDex do. (Operations have positive numbers.)\<close>

theorem loop_any_never_returns:
  assumes "cl_failed s = []" and "deliverable s \<noteq> {}"
    and "\<forall>p \<in> deliverable s. op_can_yield p s \<and> 0 < client_id_of p s"
  shows "client_loop_any V R E t s = None"
proof (rule ccontr)
  assume "client_loop_any V R E t s \<noteq> None"
  then obtain r where "loop_rounds V R E t (-1) WTF_CLIENT_SUCCESS s = Some r"
    by (auto simp: client_loop_any_def inner_loop_def)
  from circling_never_leaves [OF this refl] assms show False by (force simp: circling_def)
qed

theorem loop_any_never_returns_witness:
  "client_loop_any mem_env demo_replicant be_codec 0
     (demo_client\<lparr>cl_ops := (\<lambda>_. op_new 1 (Op_write (write_new be_codec demo_file 0 [1] demo_locations 0 0))), cl_yielding := Some 0\<rparr>) = None"
  by (rule loop_any_never_returns)
    (simp_all add: demo_client_def client_new_def deliverable_def op_can_yield_def write_can_yield_def aggregation_done_def
      op_new_def bd_done_def client_id_of_def)

section \<open>A second write at an offset\<close>

lemma idle_loop: "idle_client s \<Longrightarrow> inner_loop V R E t i s = ret (-1, WTF_CLIENT_NONEPENDING, s)"
  by (simp add: inner_loop_def loop_rounds_leave loop_round_def idle_client_def)

lemma idle_close:
  assumes "idle_client s"
  shows "\<exists>s'. close_loop V R E r 0 st s = ret (0, Some WTF_CLIENT_SUCCESS, s') \<and> cl_env s' = cl_env s \<and>
    fl_block_map (cl_files s' r) = fl_block_map (cl_files s r)"
  using assms
proof (induction "fl_pending (cl_files s r)" arbitrary: s st)
  case Nil
  then show ?case by (subst close_loop.simps) (simp add: pending_ops_pop_front_def)
next
  case (Cons i rest)
  let ?s = "update_file r ((cl_files s r)\<lparr>fl_pending := rest\<rparr>) s"
  have "idle_client ?s" using Cons.prems by (simp add: idle_client_def update_file_def)
  then have "close_loop V R E r 0 st s = close_loop V R E r 0 (Some WTF_CLIENT_NONEPENDING) ?s"
    by (subst close_loop.simps) (simp add: pending_ops_pop_front_def idle_loop flip: Cons.hyps(2))
  moreover have "\<exists>s'. close_loop V R E r 0 (Some WTF_CLIENT_NONEPENDING) ?s = ret (0, Some WTF_CLIENT_SUCCESS, s') \<and>
      cl_env s' = cl_env ?s \<and> fl_block_map (cl_files s' r) = fl_block_map (cl_files ?s r)"
    by (rule Cons.hyps(1)) (use \<open>idle_client ?s\<close> in \<open>simp_all add: update_file_def\<close>)
  ultimately show ?case by (simp add: update_file_def)
qed

text \<open>C33: a second write at an offset of an open file, made when the first has completed, is lost
  without an error: the call succeeds, the loop finds nothing pending under its number, and closing
  the file succeeds, although nothing was sent to a daemon or to HyperDex (only random numbers were
  drawn) and the block map of the file is the old one.\<close>

theorem second_write_lost:
  assumes fd: "find_file fd s = Some r" and idle: "idle_client s" and f: "f = cl_files s r"
    and q: "map_of (fl_last_op f) (fl_offset f mod 4294967296) = Some q" "po_kind (cl_ops s q) = Op_write v" "q < cl_next_ref s"
    and buf: "buf \<noteq> []" "length buf \<le> fl_block_size f"
    and rnd: "fst (ce_random V (cl_env s)) = (rnd, n)"
    and bls: "assign_random_block_locations rnd n (cl_addr s) (cl_config s) (replicate (fl_replicas f) bl_default) = ret bls"
  shows "\<exists>s1 s2. client_write V E fd buf s = ret (cl_next_client_id s, Some WTF_CLIENT_SUCCESS, s1) \<and>
    client_loop V R E (cl_next_client_id s) t s1 = ret (-1, WTF_CLIENT_NONEPENDING, s1) \<and>
    client_close V R E fd s1 = ret (0, Some WTF_CLIENT_SUCCESS, s2) \<and>
    cl_env s2 = snd (ce_random V (cl_env s)) \<and> fl_block_map (cl_files s2 r) = fl_block_map f"
proof -
  obtain e where e: "ce_random V (cl_env s) = ((rnd, n), e)" using rnd by (cases "ce_random V (cl_env s)") simp
  have b: "min (length buf) (fl_block_size f) = length buf" using buf(2) by simp
  have qn: "q \<noteq> Suc (cl_next_ref s)" using q(3) by simp
  obtain s1 where w: "write_block_op V E (cl_next_client_id s) r (cl_next_ref s) buf (fl_offset f)
      (s\<lparr>cl_next_client_id := cl_next_client_id s + 1, cl_bds := (cl_bds s)(cl_next_ref s := 0), cl_next_ref := Suc (cl_next_ref s)\<rparr>) = ret s1"
    and s1: "idle_client s1" "cl_env s1 = e" "cl_fds s1 = cl_fds s" "fl_block_map (cl_files s1 r) = fl_block_map f"
    using e bls q qn idle f
    by (simp add: write_block_op_def new_op_def update_file_def write_try_op_def write_of_def op_new_def write_new_def
        has_last_op_def last_op_def add_pending_op_def idle_client_def update_op_def set_write_def set_last_op_def)
  have "client_write V E fd buf s = ret (cl_next_client_id s, Some WTF_CLIENT_SUCCESS, s1)"
    using fd buf b w f by (simp add: client_write_def next_client_id_def) (subst write_loop.simps, simp add: write_loop.simps)
  moreover have "find_file fd s1 = Some r" using fd s1(3) by (simp add: find_file_def)
  ultimately show ?thesis using idle_close [OF s1(1), of V R E r None] idle_loop [OF s1(1)] s1 e
    by (auto simp: client_close_def client_loop_def)
qed

definition demo_rewriter :: "(unit, mem_services) client" where
  "demo_rewriter = demo_client\<lparr>cl_files := (\<lambda>_. demo_file\<lparr>fl_last_op := [(0, 0)]\<rparr>), cl_next_ref := 1,
     cl_ops := (\<lambda>_. op_new 1 (Op_write (write_new be_codec demo_file 0 [1] demo_locations 0 0)))\<rparr>"

theorem second_write_lost_witness:
  "\<exists>s1 s2. client_write mem_env be_codec 1 [1, 2, 3] demo_rewriter = ret (1, Some WTF_CLIENT_SUCCESS, s1) \<and>
     client_close mem_env demo_replicant be_codec 1 s1 = ret (0, Some WTF_CLIENT_SUCCESS, s2) \<and> ms_sent (cl_env s2) = []"
proof -
  let ?f = "demo_file\<lparr>fl_last_op := [(0, 0)]\<rparr>" and ?v = "write_new be_codec demo_file 0 [1] demo_locations 0 0"
  obtain bls where bls: "assign_random_block_locations int 0 (cl_addr demo_client) (cl_config demo_client) (replicate 2 bl_default) = ret bls"
    using demo_pick assigned_locations [OF demo_cluster] by fastforce
  have c: "find_file 1 demo_rewriter = Some 0" "idle_client demo_rewriter" "?f = cl_files demo_rewriter 0"
    "map_of (fl_last_op ?f) (fl_offset ?f mod 4294967296) = Some 0" "po_kind (cl_ops demo_rewriter 0) = Op_write ?v"
    "0 < cl_next_ref demo_rewriter" "[1, 2, 3 :: byte] \<noteq> []" "length [1, 2, 3 :: byte] \<le> fl_block_size ?f"
    "fst (ce_random mem_env (cl_env demo_rewriter)) = (int, 0)"
    "assign_random_block_locations int 0 (cl_addr demo_rewriter) (cl_config demo_rewriter) (replicate (fl_replicas ?f) bl_default) = ret bls"
    using bls by (simp_all add: demo_rewriter_def demo_client_def client_new_def find_file_def idle_client_def demo_file_def
        file_new_def op_new_def mem_env_def u64_of_int_def)
  have n: "cl_next_client_id demo_rewriter = 1" "ms_sent (snd (ce_random mem_env (cl_env demo_rewriter))) = []"
    by (simp_all add: demo_rewriter_def demo_client_def client_new_def mem_env_def demo_services_def)
  from second_write_lost [OF c, where E = be_codec and R = demo_replicant] obtain s1 s2
    where "client_write mem_env be_codec 1 [1, 2, 3] demo_rewriter = ret (1, Some WTF_CLIENT_SUCCESS, s1)"
      "client_close mem_env demo_replicant be_codec 1 s1 = ret (0, Some WTF_CLIENT_SUCCESS, s2)"
      "cl_env s2 = snd (ce_random mem_env (cl_env demo_rewriter))" unfolding n(1) by blast
  then show ?thesis using n(2) by metis
qed

end
