(* ===== verification/Admin.thy ===== *)
theory Admin
  imports CoordinatorLink StdMap
begin

text \<open>
  \<open>admin/admin.{h,cc}\<close> with the operations it keeps (\<open>admin/yieldable.*\<close>, \<open>admin/coord_rpc.*\<close>,
  \<open>admin/coord_rpc_generic.*\<close>, \<open>admin/pending_string.*\<close>): the library with which tools give
  orders to the coordinator. A call starts an operation and returns its number; \<open>loop\<close> returns the
  number of an operation that has completed, and the operation's status is in the variable its call
  was given.

  An operation is an object the code shares by pointers; a pointer is its number in the store
  \<open>am_ops\<close>. The caller's status variable of a call is \<open>ao_status\<close>; it is another variable than the
  one passed to \<open>loop\<close>. BusyBee is a parameter, as in the client; Replicant is behind the
  coordinator link. The parser and the printer of addresses belong to the library \<open>po6\<close> and are
  parameters. Texts of errors are not modelled. \<open>abort\<close> is a failed assertion. No class of the
  repository derives from \<open>multi_yieldable\<close>, so its callback has no definition.
\<close>

section \<open>Status codes\<close>

datatype wtf_admin_returncode =
    WTF_ADMIN_SUCCESS | WTF_ADMIN_NOMEM | WTF_ADMIN_NONEPENDING | WTF_ADMIN_POLLFAILED | WTF_ADMIN_TIMEOUT
  | WTF_ADMIN_INTERRUPTED | WTF_ADMIN_SERVERERROR | WTF_ADMIN_COORDFAIL | WTF_ADMIN_BADSPACE
  | WTF_ADMIN_DUPLICATE | WTF_ADMIN_NOTFOUND | WTF_ADMIN_LOCALERROR | WTF_ADMIN_INTERNAL
  | WTF_ADMIN_EXCEPTION | WTF_ADMIN_GARBAGE

definition interpret_rpc_request_failure :: "replicant_returncode \<Rightarrow> wtf_admin_returncode" where
  "interpret_rpc_request_failure rc =
     (case rc of
        REPLICANT_TIMEOUT \<Rightarrow> WTF_ADMIN_TIMEOUT
      | REPLICANT_INTERRUPTED \<Rightarrow> WTF_ADMIN_INTERRUPTED
      | _ \<Rightarrow> WTF_ADMIN_COORDFAIL)"

definition interpret_rpc_loop_failure :: "replicant_returncode \<Rightarrow> wtf_admin_returncode" where
  "interpret_rpc_loop_failure rc =
     (case rc of
        REPLICANT_TIMEOUT \<Rightarrow> WTF_ADMIN_TIMEOUT
      | REPLICANT_INTERRUPTED \<Rightarrow> WTF_ADMIN_INTERRUPTED
      | REPLICANT_NONE_PENDING \<Rightarrow> WTF_ADMIN_NONEPENDING
      | _ \<Rightarrow> WTF_ADMIN_COORDFAIL)"

definition interpret_rpc_response_failure :: "replicant_returncode \<Rightarrow> wtf_admin_returncode" where
  "interpret_rpc_response_failure rc =
     (case rc of
        REPLICANT_SUCCESS \<Rightarrow> WTF_ADMIN_SUCCESS
      | REPLICANT_TIMEOUT \<Rightarrow> WTF_ADMIN_TIMEOUT
      | REPLICANT_INTERRUPTED \<Rightarrow> WTF_ADMIN_INTERRUPTED
      | REPLICANT_NONE_PENDING \<Rightarrow> WTF_ADMIN_NONEPENDING
      | _ \<Rightarrow> WTF_ADMIN_COORDFAIL)"

section \<open>Operations\<close>

type_synonym admin_ref = nat

text \<open>A call of the coordinator with what the library stores for it; a string with its receiver.\<close>

datatype admin_kind =
    Coord_rpc_generic string replicant_returncode "byte list option"
  | Pending_string wtf_admin_returncode string "string option"

record admin_op =
  ao_kind :: admin_kind
  ao_id :: int
  ao_status :: wtf_admin_returncode
  ao_done :: bool

definition ao_can_yield :: "admin_op \<Rightarrow> bool" where
  "ao_can_yield op \<longleftrightarrow> \<not> ao_done op"

text \<open>The status for the loop, and the operation.\<close>

definition ao_yield :: "admin_op \<Rightarrow> (wtf_admin_returncode \<times> admin_op) res" where
  "ao_yield op =
     rbind (assert_that (ao_can_yield op)) (\<lambda>_.
       Inr (WTF_ADMIN_SUCCESS,
            case ao_kind op of
              Coord_rpc_generic name rc out \<Rightarrow> op\<lparr>ao_done := True\<rparr>
            | Pending_string st str store \<Rightarrow>
                op\<lparr>ao_done := True, ao_status := st, ao_kind := Pending_string st str (Some str)\<rparr>))"

definition admin_status_of_code :: "nat \<Rightarrow> wtf_admin_returncode" where
  "admin_status_of_code x =
     (if x = coord_code COORD_SUCCESS then WTF_ADMIN_SUCCESS
      else if x = coord_code COORD_NOT_FOUND then WTF_ADMIN_NOTFOUND
      else if x = coord_code COORD_DUPLICATE then WTF_ADMIN_DUPLICATE
      else if x = coord_code COORD_UNINITIALIZED then WTF_ADMIN_COORDFAIL
      else if x = coord_code COORD_NO_CAN_DO then WTF_ADMIN_COORDFAIL
      else WTF_ADMIN_INTERNAL)"

text \<open>An answer of fewer than two bytes counts as success.\<close>

definition ao_handle_response :: "admin_op \<Rightarrow> admin_op res" where
  "ao_handle_response op =
     (case ao_kind op of
        Pending_string _ _ _ \<Rightarrow> Inl Undefined
      | Coord_rpc_generic name rc out \<Rightarrow>
          (let resp = interpret_rpc_response_failure rc;
               bs = (case out of None \<Rightarrow> [] | Some bs \<Rightarrow> bs);
               op1 = op\<lparr>ao_status := resp\<rparr>
           in Inr (if resp \<noteq> WTF_ADMIN_SUCCESS then op1
                   else if 2 \<le> length bs then op1\<lparr>ao_status := admin_status_of_code (be_val 0 (take 2 bs))\<rparr>
                   else op1)))"

definition ao_store_result :: "op_result \<Rightarrow> admin_op \<Rightarrow> admin_op" where
  "ao_store_result r op =
     op\<lparr>ao_kind := (case ao_kind op of Coord_rpc_generic name _ _ \<Rightarrow> Coord_rpc_generic name (fst r) (snd r) | k \<Rightarrow> k)\<rparr>"

section \<open>State\<close>

record 'e admin_env =
  ae_send :: "u64 \<Rightarrow> byte list \<Rightarrow> 'e \<Rightarrow> busybee_returncode \<times> 'e"
  ae_recv :: "int \<Rightarrow> 'e \<Rightarrow> (busybee_returncode \<times> u64 \<times> byte list) \<times> 'e"
  ae_drop :: "u64 \<Rightarrow> 'e \<Rightarrow> 'e"
  ae_set_external :: "'e \<Rightarrow> busybee_returncode \<times> 'e"

record ('r, 'e) admin =
  am_env :: 'e
  am_coord :: "'r coordinator_link"
  am_next_id :: int
  am_next_server_nonce :: u64
  am_handle_coord_ops :: bool
  am_coord_ops :: "(int, admin_ref) smap"
  am_server_ops :: "(u64, server_id \<times> admin_ref) smap"
  am_multi_ops :: "(int, admin_ref) smap"
  am_failed :: "(server_id \<times> admin_ref) list"
  am_yieldable :: "admin_ref list"
  am_yielding :: "admin_ref option"
  am_yielded :: "admin_ref option"
  am_ops :: "admin_ref \<Rightarrow> admin_op"
  am_next_ref :: admin_ref

definition admin_new :: "'r \<Rightarrow> 'e \<Rightarrow> ('r, 'e) admin" where
  "admin_new r e =
     \<lparr>am_env = e, am_coord = link_new r, am_next_id = 1, am_next_server_nonce = 1, am_handle_coord_ops = False,
      am_coord_ops = [], am_server_ops = [], am_multi_ops = [], am_failed = [], am_yieldable = [],
      am_yielding = None, am_yielded = None,
      am_ops = (\<lambda>_. \<lparr>ao_kind = Pending_string WTF_ADMIN_GARBAGE '''' None, ao_id = 0,
        ao_status = WTF_ADMIN_GARBAGE, ao_done = True\<rparr>), am_next_ref = 0\<rparr>"

definition am_update :: "admin_ref \<Rightarrow> admin_op \<Rightarrow> ('r, 'e) admin \<Rightarrow> ('r, 'e) admin" where
  "am_update p op s = s\<lparr>am_ops := (am_ops s)(p := op)\<rparr>"

text \<open>\<open>new\<close>, with the next number; the caller's variable holds \<open>st\<close>.\<close>

definition am_new_op ::
  "admin_kind \<Rightarrow> wtf_admin_returncode \<Rightarrow> ('r, 'e) admin \<Rightarrow> int \<times> admin_ref \<times> ('r, 'e) admin" where
  "am_new_op k st s =
     (let i = am_next_id s; p = am_next_ref s
      in (i, p, s\<lparr>am_next_id := i + 1, am_next_ref := Suc p,
                 am_ops := (am_ops s)(p := \<lparr>ao_kind = k, ao_id = i, ao_status = st, ao_done = False\<rparr>)\<rparr>))"

section \<open>The connection to the coordinator\<close>

text \<open>
  The result, the status variable and the state. The codes that are persistent errors of the
  coordinator set the status but do not return.
\<close>

definition admin_link_failure :: "replicant_returncode \<Rightarrow> bool \<times> wtf_admin_returncode" where
  "admin_link_failure rc =
     (case rc of
        REPLICANT_TIMEOUT \<Rightarrow> (True, WTF_ADMIN_TIMEOUT)
      | REPLICANT_INTERRUPTED \<Rightarrow> (True, WTF_ADMIN_INTERRUPTED)
      | REPLICANT_NAME_TOO_LONG \<Rightarrow> (False, WTF_ADMIN_COORDFAIL)
      | REPLICANT_OBJ_NOT_FOUND \<Rightarrow> (False, WTF_ADMIN_COORDFAIL)
      | REPLICANT_FUNC_NOT_FOUND \<Rightarrow> (False, WTF_ADMIN_COORDFAIL)
      | REPLICANT_CLUSTER_JUMP \<Rightarrow> (False, WTF_ADMIN_COORDFAIL)
      | REPLICANT_MISBEHAVING_SERVER \<Rightarrow> (True, WTF_ADMIN_COORDFAIL)
      | REPLICANT_SERVER_ERROR \<Rightarrow> (True, WTF_ADMIN_COORDFAIL)
      | REPLICANT_NEED_BOOTSTRAP \<Rightarrow> (True, WTF_ADMIN_COORDFAIL)
      | REPLICANT_BACKOFF \<Rightarrow> (True, WTF_ADMIN_COORDFAIL)
      | _ \<Rightarrow> (True, WTF_ADMIN_INTERNAL))"

definition admin_maintain ::
  "'e admin_env \<Rightarrow> 'r replicant_ops \<Rightarrow> e_codec \<Rightarrow> wtf_admin_returncode \<Rightarrow> ('r, 'e) admin \<Rightarrow>
     (bool \<times> wtf_admin_returncode \<times> ('r, 'e) admin) run" where
  "admin_maintain V R E st s =
     run_bind (ensure_configuration R E REPLICANT_GARBAGE (am_coord s)) (\<lambda>(ok, rc, l).
       let s1 = s\<lparr>am_coord := l\<rparr>;
           (stop, st1) = (if ok then (False, st) else admin_link_failure rc)
       in if stop then ret (False, st1, s1)
          else
            (let (brc, e) = ae_set_external V (am_env s1);
                 s2 = s1\<lparr>am_env := e\<rparr>
             in if brc \<noteq> BUSYBEE_SUCCESS then ret (False, WTF_ADMIN_POLLFAILED, s2)
                else ret (True, st1, if lk_pending_ids (am_coord s2) \<noteq> [] then s2\<lparr>am_handle_coord_ops := True\<rparr> else s2)))"

section \<open>Calls\<close>

text \<open>The number or -1, the status variable, the operation that was started, and the state.\<close>

type_synonym ('r, 'e) admin_result = "int \<times> wtf_admin_returncode \<times> admin_ref option \<times> ('r, 'e) admin"

text \<open>What the calls of the coordinator do after the connection has been looked after.\<close>

definition admin_rpc ::
  "'r replicant_ops \<Rightarrow> string \<Rightarrow> string \<Rightarrow> byte list \<Rightarrow> wtf_admin_returncode \<Rightarrow> ('r, 'e) admin \<Rightarrow> ('r, 'e) admin_result" where
  "admin_rpc R opname func data st s =
     (let (i, p, s1) = am_new_op (Coord_rpc_generic opname REPLICANT_GARBAGE None) st s;
          (cid, rst, l) = link_rpc R func data (am_coord s1);
          s2 = am_update p (ao_store_result (rst, None) (am_ops s1 p)) (s1\<lparr>am_coord := l\<rparr>)
      in if cid \<ge> 0 then (i, st, Some p, s2\<lparr>am_coord_ops := m_assign cid p (am_coord_ops s2)\<rparr>)
         else (-1, interpret_rpc_request_failure rst, None, s2))"

definition admin_call ::
  "'e admin_env \<Rightarrow> 'r replicant_ops \<Rightarrow> e_codec \<Rightarrow> (wtf_admin_returncode \<Rightarrow> ('r, 'e) admin \<Rightarrow> ('r, 'e) admin_result) \<Rightarrow>
     wtf_admin_returncode \<Rightarrow> ('r, 'e) admin \<Rightarrow> ('r, 'e) admin_result run" where
  "admin_call V R E f st s =
     run_bind (admin_maintain V R E st s) (\<lambda>(ok, st1, s1). ret (if ok then f st1 s1 else (-1, st1, None, s1)))"

fun show_nat :: "nat \<Rightarrow> nat \<Rightarrow> string" where
  "show_nat base n =
     (let d = [char_of (if n mod base < 10 then 48 + n mod base else 87 + n mod base)]
      in if n < base \<or> base < 2 then d else show_nat base (n div base) @ d)"

definition config_dump :: "(location \<Rightarrow> string) \<Rightarrow> configuration \<Rightarrow> string" where
  "config_dump show_location c =
     ''cluster '' @ show_nat 10 (c_cluster c) @ [char_of (10 :: nat)] @
     ''version '' @ show_nat 10 (c_version c) @ [char_of (10 :: nat)] @
     ''flags '' @ show_nat 16 (c_flags c) @ [char_of (10 :: nat)] @
     concat (map (\<lambda>s. ''server '' @ show_nat 10 (srv_id s) @ '' '' @ show_location (srv_bind_to s) @ '' '' @
        state_to_string (srv_state s) @ [char_of (10 :: nat)]) (c_servers c))"

definition admin_dump_config ::
  "'e admin_env \<Rightarrow> 'r replicant_ops \<Rightarrow> e_codec \<Rightarrow> (location \<Rightarrow> string) \<Rightarrow> wtf_admin_returncode \<Rightarrow> ('r, 'e) admin \<Rightarrow>
     ('r, 'e) admin_result run" where
  "admin_dump_config V R E show_location =
     admin_call V R E (\<lambda>st s.
       let (i, p, s1) = am_new_op (Pending_string WTF_ADMIN_SUCCESS (config_dump show_location (lk_config (am_coord s))) None) st s
       in (i, st, Some p, s1\<lparr>am_yieldable := am_yieldable s1 @ [p]\<rparr>))"

definition admin_read_only ::
  "'e admin_env \<Rightarrow> 'r replicant_ops \<Rightarrow> e_codec \<Rightarrow> int \<Rightarrow> wtf_admin_returncode \<Rightarrow> ('r, 'e) admin \<Rightarrow> ('r, 'e) admin_result run" where
  "admin_read_only V R E ro =
     admin_call V R E (admin_rpc R (if ro \<noteq> 0 then ''set read-only'' else ''set read-write'') ''read_only''
       [if ro \<noteq> 0 then 1 else 0])"

text \<open>The address is parsed behind the connection; the status for one that cannot be is a timeout.\<close>

definition admin_server_register ::
  "'e admin_env \<Rightarrow> 'r replicant_ops \<Rightarrow> e_codec \<Rightarrow> (byte list \<Rightarrow> location option) \<Rightarrow> u64 \<Rightarrow> byte list \<Rightarrow>
     wtf_admin_returncode \<Rightarrow> ('r, 'e) admin \<Rightarrow> ('r, 'e) admin_result run" where
  "admin_server_register V R E parse token address =
     admin_call V R E (\<lambda>st s.
       case parse address of
         None \<Rightarrow> (-1, WTF_ADMIN_TIMEOUT, None, s)
       | Some loc \<Rightarrow> admin_rpc R ''register server'' ''server_register'' (pack_id E token @ pack_location E loc) st s)"

definition admin_server_online ::
  "'e admin_env \<Rightarrow> 'r replicant_ops \<Rightarrow> e_codec \<Rightarrow> u64 \<Rightarrow> wtf_admin_returncode \<Rightarrow> ('r, 'e) admin \<Rightarrow> ('r, 'e) admin_result run" where
  "admin_server_online V R E token = admin_call V R E (admin_rpc R ''bring server online'' ''server_online'' (be_put 8 token))"

definition admin_server_offline ::
  "'e admin_env \<Rightarrow> 'r replicant_ops \<Rightarrow> e_codec \<Rightarrow> u64 \<Rightarrow> wtf_admin_returncode \<Rightarrow> ('r, 'e) admin \<Rightarrow> ('r, 'e) admin_result run" where
  "admin_server_offline V R E token = admin_call V R E (admin_rpc R ''bring server offline'' ''server_offline'' (be_put 8 token))"

definition admin_server_forget ::
  "'e admin_env \<Rightarrow> 'r replicant_ops \<Rightarrow> e_codec \<Rightarrow> u64 \<Rightarrow> wtf_admin_returncode \<Rightarrow> ('r, 'e) admin \<Rightarrow> ('r, 'e) admin_result run" where
  "admin_server_forget V R E token = admin_call V R E (admin_rpc R ''forget server'' ''server_forget'' (be_put 8 token))"

definition admin_server_kill ::
  "'e admin_env \<Rightarrow> 'r replicant_ops \<Rightarrow> e_codec \<Rightarrow> u64 \<Rightarrow> wtf_admin_returncode \<Rightarrow> ('r, 'e) admin \<Rightarrow> ('r, 'e) admin_result run" where
  "admin_server_kill V R E token = admin_call V R E (admin_rpc R ''kill server'' ''server_kill'' (be_put 8 token))"

section \<open>Messages of servers\<close>

definition admin_handle_disruption :: "'e admin_env \<Rightarrow> server_id \<Rightarrow> ('r, 'e) admin \<Rightarrow> ('r, 'e) admin" where
  "admin_handle_disruption V si s =
     s\<lparr>am_failed := am_failed s @ map snd (filter (\<lambda>(_, i, _). i = si) (am_server_ops s)),
       am_server_ops := filter (\<lambda>(_, i, _). i \<noteq> si) (am_server_ops s),
       am_env := ae_drop V si (am_env s)\<rparr>"

text \<open>The only class of operations on servers aborts when it is told of a message, a failure or having been sent.\<close>

definition ao_server_event :: "admin_op \<Rightarrow> admin_op res" where
  "ao_server_event op = (case ao_kind op of Pending_string _ _ _ \<Rightarrow> Inl AssertFailed | _ \<Rightarrow> Inl Undefined)"

definition admin_send ::
  "'e admin_env \<Rightarrow> e_codec \<Rightarrow> wtf_network_msgtype \<Rightarrow> server_id \<Rightarrow> u64 \<Rightarrow> byte list \<Rightarrow> admin_ref \<Rightarrow> ('r, 'e) admin \<Rightarrow>
     (bool \<times> wtf_admin_returncode option \<times> ('r, 'e) admin) res" where
  "admin_send V E mt i nonce payload p s =
     (let msg = pk8 E (msgtype_code mt) @ pk8 E 0 @ pk64 E (c_version (lk_config (am_coord s))) @ pk64 E u64_max @
            pk64 E nonce @ payload;
          (rc, e) = ae_send V i msg (am_env s);
          s1 = s\<lparr>am_env := e\<rparr>
      in case rc of
           BUSYBEE_SUCCESS \<Rightarrow>
             rbind (ao_server_event (am_ops s1 p)) (\<lambda>op.
               Inr (True, None, am_update p op (s1\<lparr>am_server_ops := m_insert nonce (i, p) (am_server_ops s1)\<rparr>)))
         | BUSYBEE_DISRUPTED \<Rightarrow> Inr (False, Some WTF_ADMIN_SERVERERROR, admin_handle_disruption V i s1)
         | BUSYBEE_POLLFAILED \<Rightarrow> Inr (False, Some WTF_ADMIN_POLLFAILED, s1)
         | BUSYBEE_ADDFDFAIL \<Rightarrow> Inr (False, Some WTF_ADMIN_POLLFAILED, s1)
         | _ \<Rightarrow> Inl AssertFailed)"

section \<open>The loop\<close>

type_synonym ('r, 'e) admin_loop_result = "int \<times> wtf_admin_returncode \<times> ('r, 'e) admin"

definition admin_yielding ::
  "wtf_admin_returncode \<Rightarrow> admin_ref \<Rightarrow> ('r, 'e) admin \<Rightarrow> ('r, 'e) admin_loop_result round res" where
  "admin_yielding st p s =
     (if \<not> ao_can_yield (am_ops s p) then Inr (Again (0, st, s\<lparr>am_yielding := None\<rparr>))
      else
        rbind (ao_yield (am_ops s p)) (\<lambda>(st1, op).
          let s1 = am_update p op s;
              s2 = (if ao_can_yield op then s1 else s1\<lparr>am_yielded := Some p, am_yielding := None\<rparr>)
          in case map_of (am_multi_ops s2) (ao_id op) of
               None \<Rightarrow> Inr (Leave (ao_id op, st1, s2))
             | Some _ \<Rightarrow> Inl Undefined))"

definition admin_coord_response ::
  "'r replicant_ops \<Rightarrow> e_codec \<Rightarrow> wtf_admin_returncode \<Rightarrow> ('r, 'e) admin \<Rightarrow> ('r, 'e) admin_loop_result round run" where
  "admin_coord_response R E st s =
     run_bind (link_loop R E 0 REPLICANT_GARBAGE (am_coord s)) (\<lambda>(lid, r, lrc, l).
       let s1 = s\<lparr>am_coord := l, am_handle_coord_ops := False\<rparr>
       in if lid < 0 \<and> lrc \<noteq> REPLICANT_TIMEOUT then ret (Leave (-1, interpret_rpc_loop_failure lrc, s1))
          else case map_of (am_coord_ops s1) lid of
                 None \<Rightarrow> ret (Again (0, st, s1))
               | Some p \<Rightarrow>
                   run_bind (lift_res (ao_handle_response (ao_store_result r (am_ops s1 p)))) (\<lambda>op.
                     ret (Again (0, WTF_ADMIN_SUCCESS,
                       (am_update p op s1)\<lparr>am_coord_ops := m_erase lid (am_coord_ops s1), am_yielding := Some p\<rparr>))))"

definition admin_message ::
  "e_codec \<Rightarrow> wtf_admin_returncode \<Rightarrow> server_id \<Rightarrow> byte list \<Rightarrow> ('r, 'e) admin \<Rightarrow> ('r, 'e) admin_loop_result round res" where
  "admin_message E st i msg s =
     (case do { (mt, bs) \<leftarrow> unpack_msgtype E msg; (vfrom, bs) \<leftarrow> unpack_id E bs; (nonce, bs) \<leftarrow> up64 E bs; Some (mt, nonce) } of
        None \<Rightarrow> Inr (Leave (-1, WTF_ADMIN_SERVERERROR, s))
      | Some (mt, nonce) \<Rightarrow>
          (case map_of (am_server_ops s) nonce of
             None \<Rightarrow> Inr (Again (0, st, s))
           | Some (si, p) \<Rightarrow>
               if mt = Some CONFIGMISMATCH then Inr (Again (0, st, s\<lparr>am_failed := am_failed s @ [(si, p)]\<rparr>))
               else if i = si then
                 rbind (ao_server_event (am_ops s p)) (\<lambda>op.
                   Inr (Again (0, st, (am_update p op s)\<lparr>am_server_ops := m_erase nonce (am_server_ops s), am_yielding := Some p\<rparr>)))
               else Inr (Leave (-1, WTF_ADMIN_SERVERERROR, s))))"

definition admin_receive ::
  "'e admin_env \<Rightarrow> 'r replicant_ops \<Rightarrow> e_codec \<Rightarrow> int \<Rightarrow> wtf_admin_returncode \<Rightarrow> ('r, 'e) admin \<Rightarrow>
     ('r, 'e) admin_loop_result round run" where
  "admin_receive V R E timeout st s =
     run_bind (admin_maintain V R E st (s\<lparr>am_yielded := None\<rparr>)) (\<lambda>(ok, st1, s1).
       if \<not> ok then ret (Leave (-1, st1, s1))
       else
         run_bind (lift_res (assert_that (am_coord_ops s1 \<noteq> [] \<or> am_server_ops s1 \<noteq> []))) (\<lambda>_.
           if am_handle_coord_ops s1 then admin_coord_response R E st1 s1
           else
             (let ((rc, sid_num, msg), e) = ae_recv V timeout (am_env s1);
                  s2 = s1\<lparr>am_env := e\<rparr>
              in case rc of
                   BUSYBEE_SUCCESS \<Rightarrow> lift_res (admin_message E st1 sid_num msg s2)
                 | BUSYBEE_POLLFAILED \<Rightarrow> ret (Leave (-1, WTF_ADMIN_POLLFAILED, s2))
                 | BUSYBEE_ADDFDFAIL \<Rightarrow> ret (Leave (-1, WTF_ADMIN_POLLFAILED, s2))
                 | BUSYBEE_DISRUPTED \<Rightarrow> ret (Again (0, st1, admin_handle_disruption V sid_num s2))
                 | BUSYBEE_TIMEOUT \<Rightarrow> ret (Leave (-1, WTF_ADMIN_TIMEOUT, s2))
                 | BUSYBEE_INTERRUPTED \<Rightarrow> ret (Leave (-1, WTF_ADMIN_INTERRUPTED, s2))
                 | BUSYBEE_EXTERNAL \<Rightarrow> ret (Again (0, st1, s2\<lparr>am_handle_coord_ops := True\<rparr>))
                 | BUSYBEE_SHUTDOWN \<Rightarrow> lift_res (Inl AssertFailed))))"

definition admin_idle :: "('r, 'e) admin \<Rightarrow> bool" where
  "admin_idle s \<longleftrightarrow> am_yielding s = None \<and> am_failed s = [] \<and> am_yieldable s = [] \<and> am_coord_ops s = [] \<and> am_server_ops s = []"

definition admin_round ::
  "'e admin_env \<Rightarrow> 'r replicant_ops \<Rightarrow> e_codec \<Rightarrow> int \<Rightarrow> wtf_admin_returncode \<Rightarrow> ('r, 'e) admin \<Rightarrow>
     ('r, 'e) admin_loop_result round run" where
  "admin_round V R E timeout st s =
     (if admin_idle s then ret (Leave (-1, WTF_ADMIN_NONEPENDING, s))
      else case am_yielding s of
        Some p \<Rightarrow> lift_res (admin_yielding st p s)
      | None \<Rightarrow>
          (case am_yieldable s of
             p # rest \<Rightarrow> ret (Again (0, st, s\<lparr>am_yielding := Some p, am_yieldable := rest\<rparr>))
           | [] \<Rightarrow>
               (case am_failed s of
                  (si, p) # rest \<Rightarrow>
                    run_bind (lift_res (ao_server_event (am_ops s p))) (\<lambda>op.
                      ret (Again (0, st, (am_update p op s)\<lparr>am_yielding := Some p, am_failed := rest\<rparr>)))
                | [] \<Rightarrow> admin_receive V R E timeout st s)))"

partial_function (option) admin_rounds ::
  "'e admin_env \<Rightarrow> 'r replicant_ops \<Rightarrow> e_codec \<Rightarrow> int \<Rightarrow> wtf_admin_returncode \<Rightarrow> ('r, 'e) admin \<Rightarrow>
     ('r, 'e) admin_loop_result run" where
  "admin_rounds V R E timeout st s =
     (case admin_round V R E timeout st s of
        None \<Rightarrow> None
      | Some (Inl e) \<Rightarrow> Some (Inl e)
      | Some (Inr (Leave r)) \<Rightarrow> Some (Inr r)
      | Some (Inr (Again (_, st1, s1))) \<Rightarrow> admin_rounds V R E timeout st1 s1)"

definition admin_loop ::
  "'e admin_env \<Rightarrow> 'r replicant_ops \<Rightarrow> e_codec \<Rightarrow> int \<Rightarrow> ('r, 'e) admin \<Rightarrow> ('r, 'e) admin_loop_result run" where
  "admin_loop V R E timeout s = admin_rounds V R E timeout WTF_ADMIN_SUCCESS s"

end
