(* ===== verification/Tools.thy ===== *)
theory Tools
  imports Admin Transitions
begin

text \<open>
  The tools that give one order to the coordinator (\<open>tools/server-register.cc\<close>,
  \<open>server-online.cc\<close>, \<open>server-offline.cc\<close>, \<open>server-forget.cc\<close>, \<open>server-kill.cc\<close>): their main
  programs, from the arguments that are not options to the exit status. Options and messages are not modelled. The calls go
  through the C functions of \<open>admin/c.cc\<close>, which turn an exception into -1 with the status
  \<open>WTF_ADMIN_EXCEPTION\<close>. The variable for the status of the call
  has no initial value; every call that succeeds leaves it to the loop, every other one sets it.
\<close>

datatype exit_status = EXIT_SUCCESS | EXIT_FAILURE

text \<open>\<open>strtoull\<close> with the test that there is a number and nothing behind it.\<close>

definition parse_token :: "byte list \<Rightarrow> u64 option" where
  "parse_token arg =
     (let s = dropWhile is_space (takeWhile (\<lambda>b. b \<noteq> 0) arg);
          s1 = (case s of b # r \<Rightarrow> if b = 45 \<or> b = 43 then r else s | [] \<Rightarrow> s);
          (base, s2) = split_base s1
      in if takeWhile (is_digit base) s2 = [] \<or> dropWhile (is_digit base) s2 \<noteq> [] then None
         else Some (strtoull arg))"

text \<open>A call through the C functions: \<open>d\<close> is what it gives when an exception is caught. The tool then ends and throws the
  object away; the state before the call stands for what the exception leaves of it.\<close>

definition wrap_except :: "'a \<Rightarrow> 'a run \<Rightarrow> 'a run" where
  "wrap_except d r = (case r of Some (Inl Thrown) \<Rightarrow> ret d | _ \<Rightarrow> r)"

text \<open>From the call on: the state of a new \<open>Admin\<close> is an argument.\<close>

definition run_tool ::
  "'e admin_env \<Rightarrow> 'r replicant_ops \<Rightarrow> e_codec \<Rightarrow>
     (wtf_admin_returncode \<Rightarrow> ('r, 'e) admin \<Rightarrow> ('r, 'e) admin_result run) \<Rightarrow> ('r, 'e) admin \<Rightarrow>
     (exit_status \<times> ('r, 'e) admin) run" where
  "run_tool V R E call h =
     run_bind (wrap_except (-1, WTF_ADMIN_EXCEPTION, None, h) (call WTF_ADMIN_GARBAGE h)) (\<lambda>(rid, rrc, p, h1).
       if rid < 0 then ret (EXIT_FAILURE, h1)
       else
         run_bind (wrap_except (-1, WTF_ADMIN_EXCEPTION, h1) (admin_loop V R E (-1) h1)) (\<lambda>(lid, lrc, h2).
           if lid < 0 then ret (EXIT_FAILURE, h2)
           else
             run_bind (lift_res (assert_that (rid = lid))) (\<lambda>_.
               let rrc1 = (case p of None \<Rightarrow> rrc | Some p \<Rightarrow> ao_status (am_ops h2 p))
               in ret (if rrc1 \<noteq> WTF_ADMIN_SUCCESS then EXIT_FAILURE else EXIT_SUCCESS, h2))))"

definition token_tool ::
  "'e admin_env \<Rightarrow> 'r replicant_ops \<Rightarrow> e_codec \<Rightarrow>
     (u64 \<Rightarrow> wtf_admin_returncode \<Rightarrow> ('r, 'e) admin \<Rightarrow> ('r, 'e) admin_result run) \<Rightarrow> byte list list \<Rightarrow> ('r, 'e) admin \<Rightarrow>
     (exit_status \<times> ('r, 'e) admin) run" where
  "token_tool V R E call args h =
     (case args of
        [arg] \<Rightarrow>
          (case parse_token arg of
             None \<Rightarrow> ret (EXIT_FAILURE, h)
           | Some token \<Rightarrow> run_tool V R E (call token) h)
      | _ \<Rightarrow> ret (EXIT_FAILURE, h))"

definition tool_server_online where
  "tool_server_online V R E = token_tool V R E (admin_server_online V R E)"

definition tool_server_offline where
  "tool_server_offline V R E = token_tool V R E (admin_server_offline V R E)"

definition tool_server_forget where
  "tool_server_forget V R E = token_tool V R E (admin_server_forget V R E)"

definition tool_server_kill where
  "tool_server_kill V R E = token_tool V R E (admin_server_kill V R E)"

definition tool_server_register ::
  "'e admin_env \<Rightarrow> 'r replicant_ops \<Rightarrow> e_codec \<Rightarrow> (byte list \<Rightarrow> location option) \<Rightarrow> byte list list \<Rightarrow> ('r, 'e) admin \<Rightarrow>
     (exit_status \<times> ('r, 'e) admin) run" where
  "tool_server_register V R E parse args h =
     (case args of
        [arg, address] \<Rightarrow>
          (case parse_token arg of
             None \<Rightarrow> ret (EXIT_FAILURE, h)
           | Some token \<Rightarrow> run_tool V R E (admin_server_register V R E parse token address) h)
      | _ \<Rightarrow> ret (EXIT_FAILURE, h))"

end
