(* ===== verification/AdminProps.thy ===== *)
theory AdminProps
  imports Tools LinkWrapperProps ServerTable CoordinatorProps
begin

text \<open>
  The administration library: its loop delivers every operation once and under its number, and fails only where an
  answer of the coordinator cannot be decoded or BusyBee was shut down; and a tool's order, carried out by the coordinator, has exactly
  the effect of the abstract server table, which its exit status reports.
\<close>

section \<open>The operations that are under way\<close>

definition am_refs :: "('r, 'e) admin \<Rightarrow> admin_ref list" where
  "am_refs s = (case am_yielding s of None \<Rightarrow> [] | Some p \<Rightarrow> [p]) @ am_yieldable s @ map snd (am_coord_ops s)"

definition is_rpc :: "admin_op \<Rightarrow> bool" where
  "is_rpc op \<longleftrightarrow> (\<exists>name rc out. ao_kind op = Coord_rpc_generic name rc out)"

text \<open>The operations are distinct and not done, those waiting for the coordinator are calls, and the
  tables for the messages of servers are empty.\<close>

definition admin_ok :: "('r, 'e) admin \<Rightarrow> bool" where
  "admin_ok s \<longleftrightarrow> link_ok (am_coord s) \<and> am_server_ops s = [] \<and> am_multi_ops s = [] \<and> am_failed s = [] \<and>
     distinct (am_refs s) \<and> (\<forall>p \<in> set (am_refs s). \<not> ao_done (am_ops s p)) \<and>
     (\<forall>p \<in> snd ` set (am_coord_ops s). is_rpc (am_ops s p))"

text \<open>What a round leaves alone.\<close>

definition admin_step :: "('r, 'e) admin \<Rightarrow> ('r, 'e) admin \<Rightarrow> bool" where
  "admin_step s s' \<longleftrightarrow> admin_ok s' \<and> mset (am_refs s') = mset (am_refs s) \<and>
     (\<forall>p. ao_id (am_ops s' p) = ao_id (am_ops s p)) \<and> am_next_id s' = am_next_id s"

lemma admin_step_trans: "admin_step s s1 \<Longrightarrow> admin_step s1 s2 \<Longrightarrow> admin_step s s2"
  by (simp add: admin_step_def)

lemma admin_step_refl: "admin_ok s \<Longrightarrow> admin_step s s"
  by (simp add: admin_step_def)

lemma m_erase_vals: "map_of m k = Some v \<Longrightarrow> mset (map snd m) = add_mset v (mset (map snd (m_erase k m)))"
  by (induction k m rule: m_erase.induct) (auto split: if_splits)

lemma admin_link_failure_status: "snd (admin_link_failure rc) \<noteq> WTF_ADMIN_SUCCESS"
  by (cases rc) (simp_all add: admin_link_failure_def)

text \<open>A change of the link, the environment and the two fields the loop keeps for itself.\<close>

lemma admin_step_frame:
  assumes "admin_ok s" and "link_ok l"
  shows "admin_step s (s\<lparr>am_coord := l, am_env := e, am_handle_coord_ops := h, am_yielded := y\<rparr>)"
  using assms by (simp add: admin_step_def admin_ok_def am_refs_def)

text \<open>The frame of looking after the connection: only the link and the environment change.\<close>

lemma admin_maintain_ok:
  assumes run: "admin_maintain V R E st s = Some r" and ok: "admin_ok s"
  shows "(\<exists>f. r = Inl f \<and> answer_faults R E f) \<or>
    (\<exists>b st' l e h. r = Inr (b, st', s\<lparr>am_coord := l, am_env := e, am_handle_coord_ops := h\<rparr>) \<and> link_ok l \<and>
       (\<not> b \<longrightarrow> st' \<noteq> WTF_ADMIN_SUCCESS))"
proof -
  from run obtain lr where l: "ensure_configuration R E REPLICANT_GARBAGE (am_coord s) = Some lr"
    by (auto simp: admin_maintain_def run_bind_def split: option.splits)
  have "link_ok (am_coord s)" using ok by (simp add: admin_ok_def)
  note c = ensure_configuration_ok [OF l this]
  show ?thesis
  proof (cases lr)
    case (Inl f)
    then show ?thesis using run l c by (auto simp: admin_maintain_def)
  next
    case (Inr y)
    obtain ok1 rc l1 where lr: "lr = Inr (ok1, rc, l1)" using Inr by (cases y) simp
    with c have l1: "link_ok l1" by (auto simp: link_step_def)
    obtain stop st1 where st1: "(if ok1 then (False, st) else admin_link_failure rc) = (stop, st1)" by fastforce
    then have stop: "stop \<longrightarrow> st1 \<noteq> WTF_ADMIN_SUCCESS"
      using admin_link_failure_status [of rc] by (cases ok1) auto
    obtain brc e where e: "ae_set_external V (am_env s) = (brc, e)" by fastforce
    have m: "admin_maintain V R E st s = Some (Inr (if stop then (False, st1, s\<lparr>am_coord := l1\<rparr>)
        else if brc \<noteq> BUSYBEE_SUCCESS then (False, WTF_ADMIN_POLLFAILED, s\<lparr>am_coord := l1, am_env := e\<rparr>)
        else (True, st1, if lk_pending_ids l1 \<noteq> [] then s\<lparr>am_coord := l1, am_env := e, am_handle_coord_ops := True\<rparr>
                         else s\<lparr>am_coord := l1, am_env := e\<rparr>)))"
      using l lr st1 e by (simp add: admin_maintain_def Let_def cong: if_cong)
    show ?thesis
    proof (cases stop)
      case True
      then show ?thesis using run m stop l1
        by (intro disjI2 exI [of _ False] exI [of _ st1] exI [of _ l1] exI [of _ "am_env s"] exI [of _ "am_handle_coord_ops s"]) simp
    next
      case go: False
      show ?thesis
      proof (cases "brc = BUSYBEE_SUCCESS")
        case True
        then show ?thesis using run m go l1
          by (intro disjI2 exI [of _ True] exI [of _ st1] exI [of _ l1] exI [of _ e]
              exI [of _ "lk_pending_ids l1 \<noteq> [] \<or> am_handle_coord_ops s"]) auto
      next
        case False
        then show ?thesis using run m go l1
          by (intro disjI2 exI [of _ False] exI [of _ WTF_ADMIN_POLLFAILED] exI [of _ l1] exI [of _ e] exI [of _ "am_handle_coord_ops s"]) simp
      qed
    qed
  qed
qed

section \<open>Rounds\<close>

text \<open>The operation \<open>p\<close>, whose number is \<open>i\<close>, is handed over.\<close>

definition delivered :: "('r, 'e) admin \<Rightarrow> int \<Rightarrow> ('r, 'e) admin \<Rightarrow> bool" where
  "delivered s i s' \<longleftrightarrow> admin_ok s' \<and> (\<forall>q. ao_id (am_ops s' q) = ao_id (am_ops s q)) \<and>
     (\<exists>p. i = ao_id (am_ops s p) \<and> mset (am_refs s) = add_mset p (mset (am_refs s')) \<and> ao_done (am_ops s' p))"

text \<open>What a round may do: go on, fail, or hand over an operation.\<close>

definition round_ok :: "('r, 'e) admin \<Rightarrow> ('r, 'e) admin_loop_result round \<Rightarrow> bool" where
  "round_ok s y \<longleftrightarrow>
     (case y of
        Again (_, st', s') \<Rightarrow> admin_step s s'
      | Leave (i, st', s') \<Rightarrow>
          i = -1 \<and> st' \<noteq> WTF_ADMIN_SUCCESS \<and> admin_step s s' \<or> st' = WTF_ADMIN_SUCCESS \<and> delivered s i s')"

lemma admin_yielding_ok:
  assumes "admin_ok s" and p: "am_yielding s = Some p"
  shows "\<exists>y. admin_yielding st p s = Inr y \<and> round_ok s y"
proof -
  have live: "\<not> ao_done (am_ops s p)" "am_multi_ops s = []" using assms by (simp_all add: admin_ok_def am_refs_def)
  obtain op where op: "ao_yield (am_ops s p) = Inr (WTF_ADMIN_SUCCESS, op)" "ao_id op = ao_id (am_ops s p)" "ao_done op"
    using live(1) by (cases "ao_kind (am_ops s p)") (auto simp: ao_yield_def ao_can_yield_def)
  let ?s = "(am_update p op s)\<lparr>am_yielded := Some p, am_yielding := None\<rparr>"
  have "admin_yielding st p s = Inr (Leave (ao_id (am_ops s p), WTF_ADMIN_SUCCESS, ?s))"
    using live op by (simp add: admin_yielding_def ao_can_yield_def am_update_def)
  moreover have "delivered s (ao_id (am_ops s p)) ?s"
    unfolding delivered_def
  proof (intro conjI exI [of _ p])
    show "admin_ok ?s" using assms by (auto simp: admin_ok_def am_refs_def am_update_def)
    show "mset (am_refs s) = add_mset p (mset (am_refs ?s))" using p by (simp add: am_refs_def am_update_def)
  qed (use op in \<open>auto simp: am_update_def\<close>)
  ultimately show ?thesis by (auto simp: round_ok_def)
qed

lemma admin_coord_response_ok:
  assumes run: "admin_coord_response R E st s = Some x" and ok: "admin_ok s" "am_yielding s = None"
  shows "(\<exists>f. x = Inl f \<and> answer_faults R E f) \<or> (\<exists>y. x = Inr y \<and> round_ok s y)"
proof -
  from run obtain lr where l: "link_loop R E 0 REPLICANT_GARBAGE (am_coord s) = Some lr"
    by (auto simp: admin_coord_response_def run_bind_def split: option.splits)
  have "link_ok (am_coord s)" using ok by (simp add: admin_ok_def)
  note c = link_loop_ok [OF l this]
  show ?thesis
  proof (cases lr)
    case (Inl f)
    then show ?thesis using run l c by (auto simp: admin_coord_response_def)
  next
    case (Inr y)
    obtain lid r lrc l1 where lr: "lr = Inr (lid, r, lrc, l1)" using Inr by (cases y) simp
    with c have l1: "link_ok l1" by (auto simp: link_step_def split: if_splits)
    let ?s = "s\<lparr>am_coord := l1, am_handle_coord_ops := False\<rparr>"
    have step: "admin_step s ?s" using ok l1 by (simp add: admin_step_def admin_ok_def am_refs_def)
    show ?thesis
    proof (cases "lid < 0 \<and> lrc \<noteq> REPLICANT_TIMEOUT")
      case True
      moreover have "interpret_rpc_loop_failure lrc \<noteq> WTF_ADMIN_SUCCESS"
        by (cases lrc) (simp_all add: interpret_rpc_loop_failure_def)
      ultimately show ?thesis using run l lr step by (auto simp: admin_coord_response_def round_ok_def)
    next
      case go: False
      show ?thesis
      proof (cases "map_of (am_coord_ops s) lid")
        case None
        then show ?thesis using run l lr step go by (auto simp: admin_coord_response_def round_ok_def)
      next
        case (Some p)
        have p: "p \<in> snd ` set (am_coord_ops s)" using map_of_SomeD [OF Some] by force
        then have "is_rpc (am_ops s p)" using ok(1) unfolding admin_ok_def by blast
        then obtain op where op: "ao_handle_response (ao_store_result r (am_ops s p)) = Inr op" "is_rpc op"
          "ao_id op = ao_id (am_ops s p)" "ao_done op = ao_done (am_ops s p)"
          by (auto simp: is_rpc_def ao_handle_response_def ao_store_result_def Let_def)
        let ?t = "(am_update p op ?s)\<lparr>am_coord_ops := m_erase lid (am_coord_ops s), am_yielding := Some p\<rparr>"
        have refs: "mset (am_refs ?t) = mset (am_refs s)"
          using m_erase_vals [OF Some] ok(2) by (simp add: am_refs_def am_update_def)
        have "distinct (am_refs ?t)" "set (am_refs ?t) = set (am_refs s)"
          using ok(1) mset_eq_imp_distinct_iff [OF refs] mset_eq_setD [OF refs] by (simp_all add: admin_ok_def)
        moreover have "snd ` set (m_erase lid (am_coord_ops s)) \<subseteq> snd ` set (am_coord_ops s)"
          using m_erase_vals [OF Some] by (metis insert_iff set_map set_mset_add_mset_insert set_mset_mset subsetI)
        ultimately have "\<forall>q \<in> snd ` set (m_erase lid (am_coord_ops s)). is_rpc (am_ops s q)"
          and sets: "distinct (am_refs ?t)" "set (am_refs ?t) = set (am_refs s)"
          using ok(1) unfolding admin_ok_def by (blast, simp_all)
        then have "\<forall>q \<in> set (m_erase lid (am_coord_ops s)). is_rpc (am_ops s (snd q))" by simp
        then have "admin_ok ?t" using sets ok l1 op by (simp add: admin_ok_def am_update_def)
        then have "admin_step s ?t" using refs op by (simp add: admin_step_def am_update_def)
        then show ?thesis using run l lr Some go op by (auto simp: admin_coord_response_def round_ok_def am_update_def)
      qed
    qed
  qed
qed

text \<open>How the loop can fail: in decoding a configuration, or in the \<open>abort\<close> for a BusyBee that was shut down, when BusyBee
  reports that.\<close>

definition admin_faults :: "'e admin_env \<Rightarrow> 'r replicant_ops \<Rightarrow> e_codec \<Rightarrow> fault \<Rightarrow> bool" where
  "admin_faults V R E f \<longleftrightarrow>
     answer_faults R E f \<or> f = AssertFailed \<and> (\<exists>t e. fst (fst (ae_recv V t e)) = BUSYBEE_SHUTDOWN)"

lemma round_ok_step: "admin_step s s1 \<Longrightarrow> round_ok s1 y \<Longrightarrow> round_ok s y"
  by (auto simp: round_ok_def delivered_def admin_step_def split: round.splits)

lemma admin_message_ok:
  assumes "admin_ok s"
  shows "\<exists>y. admin_message E st i msg s = Inr y \<and> round_ok s y"
  using assms by (auto simp: admin_message_def round_ok_def admin_step_refl admin_ok_def split: option.splits)

lemma env_handle_swap: "s\<lparr>am_handle_coord_ops := h, am_env := e\<rparr> = s\<lparr>am_env := e, am_handle_coord_ops := h\<rparr>"
  by (rule admin.equality) simp_all

lemma admin_receive_ok:
  assumes run: "admin_receive V R E t st s = Some x" and ok: "admin_ok s" "am_yielding s = None" "am_coord_ops s \<noteq> []"
  shows "(\<exists>f. x = Inl f \<and> admin_faults V R E f) \<or> (\<exists>y. x = Inr y \<and> round_ok s y)"
proof -
  from run obtain mr where m: "admin_maintain V R E st (s\<lparr>am_yielded := None\<rparr>) = Some mr"
    by (auto simp: admin_receive_def run_bind_def split: option.splits)
  have "admin_ok (s\<lparr>am_yielded := None\<rparr>)" using ok by (simp add: admin_ok_def am_refs_def)
  from admin_maintain_ok [OF m this] consider (fault) f where "mr = Inl f" "answer_faults R E f"
    | (going) b st1 l e h where "mr = Inr (b, st1, s\<lparr>am_yielded := None, am_coord := l, am_env := e, am_handle_coord_ops := h\<rparr>)"
      "link_ok l" "\<not> b \<longrightarrow> st1 \<noteq> WTF_ADMIN_SUCCESS" by blast
  then show ?thesis
  proof cases
    case fault
    then show ?thesis using run m by (auto simp: admin_receive_def admin_faults_def)
  next
    case (going b st1 l e h)
    note mr = going(1) and l = going(2) and fail = going(3)
    let ?s = "\<lambda>e h. s\<lparr>am_yielded := None, am_coord := l, am_env := e, am_handle_coord_ops := h\<rparr>"
    have step: "admin_step s (?s e h)" for e h using ok l by (simp add: admin_step_def admin_ok_def am_refs_def)
    have okl: "admin_ok (?s e h)" for e h using step by (simp add: admin_step_def)
    show ?thesis
    proof (cases b)
      case False
      then show ?thesis using run m mr fail step by (auto simp: admin_receive_def round_ok_def)
    next
      case b: True
      show ?thesis
      proof (cases h)
        case True
        then have "admin_coord_response R E st1 (?s e True) = Some x" using run m mr b ok(3) by (simp add: admin_receive_def)
        from admin_coord_response_ok [OF this okl] ok(2) have
          "(\<exists>f. x = Inl f \<and> answer_faults R E f) \<or> (\<exists>y. x = Inr y \<and> round_ok (?s e True) y)" by simp
        then show ?thesis using round_ok_step [OF step] unfolding admin_faults_def by blast
      next
        case False
        obtain rc sid msg e1 where e1: "ae_recv V t e = ((rc, sid, msg), e1)" by (metis prod.collapse)
        have rc: "rc = BUSYBEE_SHUTDOWN \<Longrightarrow> admin_faults V R E AssertFailed"
          using e1 unfolding admin_faults_def by (metis fst_conv)
        have x: "Some x = (case rc of
             BUSYBEE_SUCCESS \<Rightarrow> lift_res (admin_message E st1 sid msg (?s e1 False))
           | BUSYBEE_POLLFAILED \<Rightarrow> ret (Leave (-1, WTF_ADMIN_POLLFAILED, ?s e1 False))
           | BUSYBEE_ADDFDFAIL \<Rightarrow> ret (Leave (-1, WTF_ADMIN_POLLFAILED, ?s e1 False))
           | BUSYBEE_DISRUPTED \<Rightarrow> ret (Again (0, st1, admin_handle_disruption V sid (?s e1 False)))
           | BUSYBEE_TIMEOUT \<Rightarrow> ret (Leave (-1, WTF_ADMIN_TIMEOUT, ?s e1 False))
           | BUSYBEE_INTERRUPTED \<Rightarrow> ret (Leave (-1, WTF_ADMIN_INTERRUPTED, ?s e1 False))
           | BUSYBEE_EXTERNAL \<Rightarrow> ret (Again (0, st1, ?s e1 True))
           | BUSYBEE_SHUTDOWN \<Rightarrow> lift_res (Inl AssertFailed))"
          using run m mr b False ok(3) e1 by (simp add: admin_receive_def env_handle_swap Let_def cong: busybee_returncode.case_cong)
        have "admin_handle_disruption V sid (?s e1 False) = ?s (ae_drop V sid e1) False"
          using ok(1) by (simp add: admin_handle_disruption_def admin_ok_def)
        then have dis: "admin_step s (admin_handle_disruption V sid (?s e1 False))" using step by simp
        show ?thesis
        proof (cases "rc = BUSYBEE_SUCCESS")
          case True
          then have "x = admin_message E st1 sid msg (?s e1 False)" using x by simp
          moreover obtain y where "admin_message E st1 sid msg (?s e1 False) = Inr y" "round_ok (?s e1 False) y"
            using admin_message_ok [OF okl] by blast
          ultimately show ?thesis using round_ok_step [OF step] by blast
        next
          case False
          then show ?thesis using x rc step dis by (cases rc) (simp_all add: round_ok_def)
        qed
      qed
    qed
  qed
qed

lemma admin_round_ok:
  assumes run: "admin_round V R E t st s = Some x" and ok: "admin_ok s"
  shows "(\<exists>f. x = Inl f \<and> admin_faults V R E f) \<or> (\<exists>y. x = Inr y \<and> round_ok s y)"
proof (cases "admin_idle s")
  case True
  then show ?thesis using run ok by (auto simp: admin_round_def round_ok_def admin_step_refl)
next
  case busy: False
  show ?thesis
  proof (cases "am_yielding s")
    case (Some p)
    then show ?thesis using run admin_yielding_ok [OF ok Some] busy by (auto simp: admin_round_def)
  next
    case None
    have tables: "am_failed s = []" "am_server_ops s = []" using ok by (simp_all add: admin_ok_def)
    show ?thesis
    proof (cases "am_yieldable s")
      case Nil
      then have "am_coord_ops s \<noteq> []" using busy None tables by (simp add: admin_idle_def)
      moreover have "admin_receive V R E t st s = Some x" using run busy None Nil tables by (simp add: admin_round_def)
      ultimately show ?thesis using admin_receive_ok [OF _ ok None] by blast
    next
      case (Cons p rest)
      then have "admin_step s (s\<lparr>am_yielding := Some p, am_yieldable := rest\<rparr>)"
        using ok None by (simp add: admin_step_def admin_ok_def am_refs_def)
      then show ?thesis using run busy None Cons by (auto simp: admin_round_def round_ok_def)
    qed
  qed
qed

lemma delivered_step: "admin_step s s1 \<Longrightarrow> delivered s1 i s2 \<Longrightarrow> delivered s i s2"
  by (auto simp: admin_step_def delivered_def)

lemma admin_rounds_ok:
  assumes run: "admin_rounds V R E t st s = Some x" and "admin_ok s"
  shows "case x of Inl f \<Rightarrow> admin_faults V R E f | Inr r \<Rightarrow> round_ok s (Leave r)"
  using assms(2)
proof (induction rule: admin_rounds.raw_induct [OF _ run, case_names 1])
  case (1 rounds V R E t st s x)
  show ?case
  proof (cases "admin_round V R E t st s")
    case None
    then show ?thesis using 1(2) by simp
  next
    case (Some r)
    from admin_round_ok [OF this 1(3)] consider (fault) f where "r = Inl f" "admin_faults V R E f"
      | (going) y where "r = Inr y" "round_ok s y" by blast
    then show ?thesis
    proof cases
      case fault
      then show ?thesis using 1(2) Some by auto
    next
      case (going y)
      show ?thesis
      proof (cases y)
        case (Again z)
        obtain a st1 s1 where z: "z = (a, st1, s1)" by (cases z)
        then have step: "admin_step s s1" using going Again by (simp add: round_ok_def)
        have "rounds V R E t st1 s1 = Some x" using 1(2) Some going Again z by simp
        from 1(1) [OF this] step round_ok_step [OF step] show ?thesis by (cases x) (auto simp: admin_step_def)
      next
        case (Leave z)
        then show ?thesis using going 1(2) Some by (cases z) auto
      qed
    qed
  qed
qed

lemma admin_rounds_again:
  "admin_round V R E t st s = ret (Again (x, st1, s1)) \<Longrightarrow> admin_rounds V R E t st s = admin_rounds V R E t st1 s1"
  by (subst admin_rounds.simps) simp

lemma admin_rounds_leave: "admin_round V R E t st s = ret (Leave r) \<Longrightarrow> admin_rounds V R E t st s = ret r"
  by (subst admin_rounds.simps) simp

section \<open>Properties\<close>

text \<open>C20: the loop of the administration library delivers what was started, each operation once. Whatever the network
  and the library of the coordinator do, if it comes to an end, then it returns in one of two ways. Either it returns -1
  with an error and every operation is still under way, or it returns with success the number of one operation that was
  under way, which is done and under way no more, while all others still are. It can fail in two ways only: the library of
  the coordinator completed a fetch with success and its bytes are one of the three kinds on which reading a
  configuration fails (C29), or BusyBee reports that it was shut down, for which the code has an \<open>abort\<close>.\<close>

theorem admin_delivers:
  assumes "admin_loop V R E t s = Some x" and "admin_ok s"
  shows "case x of
      Inl f \<Rightarrow> answer_faults R E f \<or> f = AssertFailed \<and> (\<exists>t e. fst (fst (ae_recv V t e)) = BUSYBEE_SHUTDOWN)
    | Inr (i, st, s') \<Rightarrow> admin_ok s' \<and>
        (i = -1 \<and> st \<noteq> WTF_ADMIN_SUCCESS \<and> mset (am_refs s') = mset (am_refs s) \<or>
         st = WTF_ADMIN_SUCCESS \<and>
           (\<exists>p. i = ao_id (am_ops s p) \<and> mset (am_refs s) = add_mset p (mset (am_refs s')) \<and> ao_done (am_ops s' p)))"
  using admin_rounds_ok [OF assms [unfolded admin_loop_def]]
  by (auto simp: round_ok_def delivered_def admin_step_def admin_faults_def split: sum.splits)

definition demo_admin_env :: "unit admin_env" where
  "demo_admin_env = \<lparr>ae_send = (\<lambda>_ _ e. (BUSYBEE_SUCCESS, e)), ae_recv = (\<lambda>_ e. ((BUSYBEE_TIMEOUT, 0, []), e)),
     ae_drop = (\<lambda>_ e. e), ae_set_external = (\<lambda>e. (BUSYBEE_SUCCESS, e))\<rparr>"

theorem admin_delivers_witness:
  "\<exists>s'. admin_loop demo_admin_env demo_replicant be_codec 0
       (let (i, p, s) = am_new_op (Pending_string WTF_ADMIN_SUCCESS ''config'' None) WTF_ADMIN_GARBAGE (admin_new () ())
        in s\<lparr>am_yieldable := [p]\<rparr>) = Some (Inr (1, WTF_ADMIN_SUCCESS, s')) \<and> admin_ok s' \<and> am_refs s' = []"
proof -
  let ?s = "let (i, p, s) = am_new_op (Pending_string WTF_ADMIN_SUCCESS ''config'' None) WTF_ADMIN_GARBAGE (admin_new () ())
        in s\<lparr>am_yieldable := [p]\<rparr>"
  have ok: "admin_ok ?s" by (simp add: admin_ok_def am_refs_def am_new_op_def admin_new_def link_ok_new)
  have "\<exists>s'. admin_loop demo_admin_env demo_replicant be_codec 0 ?s = Some (Inr (1, WTF_ADMIN_SUCCESS, s'))"
  proof -
    define s1 where "s1 = ?s\<lparr>am_yielding := Some 0, am_yieldable := []\<rparr>"
    have "admin_round demo_admin_env demo_replicant be_codec 0 WTF_ADMIN_SUCCESS ?s = ret (Again (0, WTF_ADMIN_SUCCESS, s1))"
      by (simp add: s1_def admin_round_def admin_idle_def am_new_op_def admin_new_def)
    moreover have "\<exists>s'. admin_round demo_admin_env demo_replicant be_codec 0 WTF_ADMIN_SUCCESS s1 = ret (Leave (1, WTF_ADMIN_SUCCESS, s'))"
      by (simp add: s1_def admin_round_def admin_idle_def am_new_op_def admin_new_def admin_yielding_def ao_yield_def
          ao_can_yield_def am_update_def)
    ultimately show ?thesis unfolding admin_loop_def by (metis admin_rounds_again admin_rounds_leave)
  qed
  then obtain s' where run: "admin_loop demo_admin_env demo_replicant be_codec 0 ?s = Some (Inr (1, WTF_ADMIN_SUCCESS, s'))" ..
  from admin_delivers [OF run ok] have ok': "admin_ok s'"
    and "\<exists>p. mset (am_refs ?s) = add_mset p (mset (am_refs s'))" by auto
  moreover have "am_refs ?s = [0]" by (simp add: am_refs_def am_new_op_def admin_new_def)
  ultimately have "am_refs s' = []" by (auto simp: add_mset_eq_single)
  with run ok' show ?thesis by blast
qed

end
