(* ===== verification/ToolProps.thy ===== *)
theory ToolProps
  imports AdminProps TransitionProps
begin

text \<open>
  An order from the command line to the replicated server table: the tool, the administration
  library, the coordinator link and the coordinator together; and what a tool can end with, whatever it talks to.
\<close>

section \<open>Replicant as a client sees it\<close>

text \<open>The response of a transition is the last one it has set.\<close>

definition last_response :: "effect list \<Rightarrow> byte list option" where
  "last_response es = foldl (\<lambda>r e. case e of SetResponse bs \<Rightarrow> Some bs | _ \<Rightarrow> r) None es"

lemma last_response_snoc [simp]: "last_response (es @ [SetResponse bs]) = Some bs"
  by (simp add: last_response_def)

text \<open>
  The replicated object behind the library: a call runs the transition of its name on the object, and
  its number, a new one, and the response are queued; completed calls come in order. News of a
  condition somebody waits for may take any time; here they have not arrived.
\<close>

locale coordinator_service =
  fixes R :: "'e replicant_ops"
    and P :: "'r replicant"
    and object :: "'e \<Rightarrow> coordinator option \<times> 'r rsm_context"
    and answers :: "'e \<Rightarrow> (int \<times> op_result) list"
    and used :: "'e \<Rightarrow> int set"
  assumes call: "\<And>e c cx func t data c' cx' st i st' e'. object e = (c, cx) \<Longrightarrow> map_of (symtable P be_codec) func = Some t \<Longrightarrow>
      t c data cx = ret (c', cx') \<Longrightarrow> rp_send R func data st e = (i, st', e') \<Longrightarrow>
      0 \<le> i \<and> i \<notin> used e \<and> object e' = (c', cx') \<and> used e' = insert i (used e) \<and>
      answers e' = answers e @ [(i, (REPLICANT_SUCCESS, last_response (cx_effects cx')))]"
    and answer: "\<And>e a rest t i st r e'. answers e = a # rest \<Longrightarrow> rp_loop R t e = (i, st, r, e') \<Longrightarrow>
      (i, r) = a \<and> st = REPLICANT_SUCCESS \<and> object e' = object e \<and> answers e' = rest \<and> used e' = used e"
    and quiet: "\<And>e i st r e'. answers e = [] \<Longrightarrow> rp_loop R 0 e = (i, st, r, e') \<Longrightarrow>
      i < 0 \<and> st = REPLICANT_TIMEOUT \<and> object e' = object e \<and> answers e' = [] \<and> used e' = used e"
    and wait: "\<And>e c v st i st' e'. rp_wait R c v st e = (i, st', e') \<Longrightarrow>
      0 \<le> i \<and> i \<notin> used e \<and> object e' = object e \<and> answers e' = answers e \<and> used e' = insert i (used e)"
begin

text \<open>A link that has just been made gets the configuration of the coordinator.\<close>

lemma link_gets_config:
  assumes obj: "object e = (Some c, cx)" "answers e = []" and inv: "coord_inv cond be_codec c cx" and k: "m_cluster c \<noteq> 0"
    and wf: "list_all server_wf (m_servers c)" "length (m_servers c) \<le> max_reserve be_codec" "m_cluster c < u64_bound" "m_version c < u64_bound"
  shows "\<exists>st l. ensure_configuration R be_codec REPLICANT_GARBAGE (link_new e) = ret (True, st, l) \<and> link_ok l \<and>
    lk_state l = NOTHING \<and> lk_pending_ids l = [] \<and> answers (lk_repl l) = [] \<and>
    lk_config l = \<lparr>c_cluster = m_cluster c, c_version = m_version c, c_flags = unat (m_flags c), c_servers = m_servers c\<rparr> \<and>
    object (lk_repl l) = (Some c, emit (SetResponse (packed_config be_codec c)) cx)"
proof -
  let ?cx = "emit (SetResponse (packed_config be_codec c)) cx"
  have v: "m_version c \<noteq> 0" and latest: "m_latest_config c = Some (packed_config be_codec c)"
    using inv k by (auto simp: coord_inv_def)
  then have t: "t_config_get (Some c) [] cx = ret (Some c, ?cx)"
    using k by (simp add: t_config_get_def protect_uninitialized_def protect_null_def config_get_def)
  have table: "map_of (symtable P be_codec) ''config_get'' = Some t_config_get" by (simp add: symtable_def)
  obtain i st1 e1 where send: "rp_send R ''config_get'' [] REPLICANT_SUCCESS e = (i, st1, e1)" by (metis prod.collapse)
  from call [OF obj(1) table t send] have i: "0 \<le> i" "object e1 = (Some c, ?cx)"
    "answers e1 = [(i, (REPLICANT_SUCCESS, Some (packed_config be_codec c)))]"
    using obj(2) by (simp_all add: emit_def)
  obtain j st2 r e2 where loop: "rp_loop R (-1) e1 = (j, st2, r, e2)" by (metis prod.collapse)
  from answer [OF i(3) loop] have e2: "j = i" "r = (REPLICANT_SUCCESS, Some (packed_config be_codec c))" "object e2 = object e1"
    "answers e2 = []" by auto
  let ?c = "\<lparr>c_cluster = m_cluster c, c_version = m_version c, c_flags = unat (m_flags c), c_servers = m_servers c\<rparr>"
  have "unat (m_flags c) < u64_bound" using unsigned_less [of "m_flags c"] by simp
  moreover have "length (m_servers c) < u64_bound" using wf(2) by simp
  ultimately have dec: "unpack_config be_codec (packed_config be_codec c) = Inr (Some (?c, []))"
    using be.unpack_config_pack [OF coord_inv_sorted [OF inv] wf(1) _ wf(2-4), of "unat (m_flags c)" "[]"]
    by (simp add: packed_config_def pack_servers_def)
  show ?thesis
    using i(1,2) e2 send loop dec
    by (subst ensure_configuration.simps)
      (simp add: ensure_round_def prime_state_machine_def begin_fetching_config_def link_new_def config_new_def
        handle_internal_callback_def store_result_def link_reset_def Let_def)
qed

text \<open>The next time, it waits for a newer one, and picks up the answer of a call.\<close>

lemma link_picks_up:
  assumes l: "lk_state l = NOTHING" "link_ok l" "lk_pending_ids l = []" "c_version (lk_config l) \<noteq> 0"
    and ans: "answers (lk_repl l) = [(i, r)]" "i \<in> used (lk_repl l)" "0 \<le> i"
  shows "\<exists>st l'. ensure_configuration R be_codec REPLICANT_GARBAGE l = ret (True, st, l') \<and>
    lk_pending_ids l' = [(i, r)] \<and> object (lk_repl l') = object (lk_repl l)"
proof -
  obtain j st1 e1 where w: "rp_wait R ''config'' (u64_add (c_version (lk_config l)) 1) REPLICANT_GARBAGE (lk_repl l) = (j, st1, e1)"
    by (metis prod.collapse)
  from wait [OF w] ans have j: "0 \<le> j" "j \<noteq> i" "object e1 = object (lk_repl l)" "answers e1 = [(i, r)]" by auto
  obtain i2 st2 r2 e2 where loop: "rp_loop R 0 e1 = (i2, st2, r2, e2)" by (metis prod.collapse)
  from answer [OF j(4) loop] have e2: "i2 = i" "r2 = r" "object e2 = object e1" "answers e2 = []" by auto
  obtain i3 st3 r3 e3 where again: "rp_loop R 0 e2 = (i3, st3, r3, e3)" by (metis prod.collapse)
  from quiet [OF e2(4) again] have e3: "i3 < 0" "st3 = REPLICANT_TIMEOUT" "object e3 = object e2" by auto
  let ?l1 = "l\<lparr>lk_id := j, lk_status := st1, lk_state := WAITING_ON_BROADCAST, lk_repl := e2, lk_pending_ids := [(i, r)]\<rparr>"
  have "ensure_round R be_codec REPLICANT_GARBAGE l = Inr (Again (True, st2, ?l1))"
    using l ans(3) w j loop e2
    by (auto simp: ensure_round_def prime_state_machine_def begin_waiting_on_broadcast_def Let_def coordinator_link.equality)
  moreover have "ensure_round R be_codec st2 ?l1 = Inr (Leave (True, REPLICANT_TIMEOUT, ?l1\<lparr>lk_repl := e3\<rparr>))"
    using j(1) again e3 by (simp add: ensure_round_def prime_state_machine_def Let_def)
  ultimately have "ensure_configuration R be_codec REPLICANT_GARBAGE l = ret (True, REPLICANT_TIMEOUT, ?l1\<lparr>lk_repl := e3\<rparr>)"
    by (simp add: ensure_configuration.simps)
  then show ?thesis using e3 e2 j by simp
qed

lemma admin_status_of_response: "admin_status_of_code (be_val 0 (take 2 (response_bytes x))) = WTF_ADMIN_SUCCESS \<longleftrightarrow> x = COORD_SUCCESS"
  by (cases x) (simp_all add: admin_status_of_code_def)

lemma wrap_except_simps [simp]:
  "wrap_except d None = None" "wrap_except d (ret x) = ret x" "wrap_except d (Some (Inl Thrown)) = ret d"
  "f \<noteq> Thrown \<Longrightarrow> wrap_except d (Some (Inl f)) = Some (Inl f)"
  by (simp_all add: wrap_except_def split: fault.split)

text \<open>A tool's run: what the call finds, what it leaves, and what the loop makes of the answer.\<close>

lemma order_runs:
  assumes obj: "object e = (Some c, cx)" "answers e = []" and inv: "coord_inv cond be_codec c cx" and k: "m_cluster c \<noteq> 0"
    and wf: "list_all server_wf (m_servers c)" "length (m_servers c) \<le> max_reserve be_codec" "m_cluster c < u64_bound" "m_version c < u64_bound"
    and V: "\<And>e. fst (ae_set_external V e) = BUSYBEE_SUCCESS"
    and t: "map_of (symtable P be_codec) func = Some t"
      "t (Some c) data (emit (SetResponse (packed_config be_codec c)) cx) = ret (Some c', cx')"
    and x: "last_response (cx_effects cx') = Some (response_bytes x)"
  shows "\<exists>h. run_tool V R be_codec (admin_call V R be_codec (admin_rpc R name func data)) (admin_new e v) =
      ret (if x = COORD_SUCCESS then EXIT_SUCCESS else EXIT_FAILURE, h) \<and> object (lk_repl (am_coord h)) = (Some c', cx')"
proof -
  from link_gets_config [OF obj inv k wf] obtain st l where
    l: "ensure_configuration R be_codec REPLICANT_GARBAGE (link_new e) = ret (True, st, l)" "link_ok l" "lk_state l = NOTHING"
      "lk_pending_ids l = []" "answers (lk_repl l) = []" "c_version (lk_config l) = m_version c"
      "object (lk_repl l) = (Some c, emit (SetResponse (packed_config be_codec c)) cx)" by auto
  have ver: "m_version c \<noteq> 0" using inv k by (simp add: coord_inv_def)
  obtain v1 where v1: "ae_set_external V v = (BUSYBEE_SUCCESS, v1)" using V [of v] by (metis prod.collapse)
  let ?a = "(admin_new e v)\<lparr>am_coord := l, am_env := v1\<rparr>"
  have m: "admin_maintain V R be_codec WTF_ADMIN_GARBAGE (admin_new e v) = ret (True, WTF_ADMIN_GARBAGE, ?a)"
    using l v1 by (simp add: admin_maintain_def admin_new_def)
  obtain i st1 e1 where send: "rp_send R func data REPLICANT_GARBAGE (lk_repl l) = (i, st1, e1)" by (metis prod.collapse)
  let ?r = "(REPLICANT_SUCCESS, Some (response_bytes x))"
  from call [OF l(7) t send] have i: "0 \<le> i" "object e1 = (Some c', cx')" "answers e1 = [(i, ?r)]" "i \<in> used e1"
    using l(5) x by auto
  let ?op = "\<lambda>rc out st d. \<lparr>ao_kind = Coord_rpc_generic name rc out, ao_id = 1, ao_status = st, ao_done = d\<rparr>"
  define a1 where "a1 = ?a\<lparr>am_next_id := 2, am_next_ref := 1, am_coord := l\<lparr>lk_repl := e1\<rparr>,
    am_ops := (am_ops ?a)(0 := ?op st1 None WTF_ADMIN_GARBAGE False), am_coord_ops := [(i, 0)]\<rparr>"
  have call1: "admin_call V R be_codec (admin_rpc R name func data) WTF_ADMIN_GARBAGE (admin_new e v) =
      ret (1, WTF_ADMIN_GARBAGE, Some 0, a1)"
    using m send i(1)
    by (simp add: admin_call_def admin_rpc_def am_new_op_def link_rpc_def ao_store_result_def am_update_def a1_def admin_new_def
        admin.equality)
  have l1: "lk_state (am_coord a1) = NOTHING" "link_ok (am_coord a1)" "lk_pending_ids (am_coord a1) = []"
    "c_version (lk_config (am_coord a1)) \<noteq> 0" "answers (lk_repl (am_coord a1)) = [(i, ?r)]" "i \<in> used (lk_repl (am_coord a1))"
    using l i ver by (simp_all add: a1_def)
  from link_picks_up [OF l1 i(1)] obtain st2 l2 where
    l2: "ensure_configuration R be_codec REPLICANT_GARBAGE (am_coord a1) = ret (True, st2, l2)" "lk_pending_ids l2 = [(i, ?r)]"
      "object (lk_repl l2) = (Some c', cx')" using i(2) by (auto simp: a1_def)
  obtain v2 where v2: "ae_set_external V (am_env a1) = (BUSYBEE_SUCCESS, v2)" using V by (metis prod.collapse)
  let ?st = "admin_status_of_code (be_val 0 (take 2 (response_bytes x)))"
  define a2 where "a2 = a1\<lparr>am_coord := l2\<lparr>lk_pending_ids := []\<rparr>, am_env := v2, am_handle_coord_ops := False, am_yielded := None,
    am_ops := (am_ops a1)(0 := ?op REPLICANT_SUCCESS (Some (response_bytes x)) ?st False), am_coord_ops := [], am_yielding := Some 0\<rparr>"
  have resp: "ao_handle_response (ao_store_result ?r (am_ops a1 0)) =
      Inr (?op REPLICANT_SUCCESS (Some (response_bytes x)) ?st False)"
    by (cases x) (simp_all add: a1_def ao_handle_response_def ao_store_result_def interpret_rpc_response_failure_def)
  let ?b = "a1\<lparr>am_yielded := None, am_coord := l2, am_env := v2, am_handle_coord_ops := True\<rparr>"
  have m2: "admin_maintain V R be_codec WTF_ADMIN_SUCCESS (a1\<lparr>am_yielded := None\<rparr>) = ret (True, WTF_ADMIN_SUCCESS, ?b)"
    using l2 v2 by (simp add: admin_maintain_def)
  have start: "am_coord_ops a1 = [(i, 0)]" "am_yielding a1 = None" "am_yieldable a1 = []" "am_failed a1 = []"
    by (simp_all add: a1_def admin_new_def)
  have "link_loop R be_codec 0 REPLICANT_GARBAGE l2 = ret (i, ?r, REPLICANT_GARBAGE, l2\<lparr>lk_pending_ids := []\<rparr>)"
    using l2(2) by (simp add: link_loop_def)
  then have "admin_coord_response R be_codec WTF_ADMIN_SUCCESS ?b = ret (Again (0, WTF_ADMIN_SUCCESS, a2))"
    using start resp i(1)
    by (simp add: admin_coord_response_def a2_def am_update_def)
  then have r1: "admin_round V R be_codec (-1) WTF_ADMIN_SUCCESS a1 = ret (Again (0, WTF_ADMIN_SUCCESS, a2))"
    using m2 start by (simp add: admin_round_def admin_idle_def admin_receive_def)
  define a3 where "a3 = a2\<lparr>am_ops := (am_ops a2)(0 := ?op REPLICANT_SUCCESS (Some (response_bytes x)) ?st True),
    am_yielded := Some 0, am_yielding := None\<rparr>"
  have r2: "admin_round V R be_codec (-1) WTF_ADMIN_SUCCESS a2 = ret (Leave (1, WTF_ADMIN_SUCCESS, a3))"
    by (simp add: a3_def a2_def a1_def admin_round_def admin_idle_def admin_yielding_def ao_yield_def ao_can_yield_def
        am_update_def admin_new_def)
  have "admin_loop V R be_codec (-1) a1 = ret (1, WTF_ADMIN_SUCCESS, a3)"
    unfolding admin_loop_def using r1 r2 by (metis admin_rounds_again admin_rounds_leave)
  then have "run_tool V R be_codec (admin_call V R be_codec (admin_rpc R name func data)) (admin_new e v) =
      ret (if x = COORD_SUCCESS then EXIT_SUCCESS else EXIT_FAILURE, a3)"
    using call1 admin_status_of_response [of x] by (simp add: run_tool_def a3_def)
  moreover have "object (lk_repl (am_coord a3)) = (Some c', cx')" using l2(3) by (simp add: a3_def a2_def)
  ultimately show ?thesis by blast
qed

end

text \<open>The object in memory: the coordinator with conditions that are counters.\<close>

record service =
  sv_object :: "coordinator option \<times> (string \<Rightarrow> u64) rsm_context"
  sv_answers :: "(int \<times> op_result) list"
  sv_next :: nat

definition service_send :: "string \<Rightarrow> byte list \<Rightarrow> replicant_returncode \<Rightarrow> service \<Rightarrow> int \<times> replicant_returncode \<times> service" where
  "service_send func data st e =
     (case map_of (symtable counter_replicant be_codec) func of
        None \<Rightarrow> (-1, REPLICANT_FUNC_NOT_FOUND, e)
      | Some t \<Rightarrow>
          (case t (fst (sv_object e)) data (snd (sv_object e)) of
             Some (Inr (c, cx)) \<Rightarrow>
               (int (sv_next e), st,
                \<lparr>sv_object = (c, cx), sv_answers = sv_answers e @ [(int (sv_next e), REPLICANT_SUCCESS, last_response (cx_effects cx))],
                 sv_next = Suc (sv_next e)\<rparr>)
           | _ \<Rightarrow> (-1, REPLICANT_SERVER_ERROR, e)))"

definition service_ops :: "service replicant_ops" where
  "service_ops =
     \<lparr>rp_send = service_send,
      rp_wait = (\<lambda>_ _ st e. (int (sv_next e), st, e\<lparr>sv_next := Suc (sv_next e)\<rparr>)),
      rp_loop = (\<lambda>_ e. case sv_answers e of
        [] \<Rightarrow> (-1, REPLICANT_TIMEOUT, (REPLICANT_GARBAGE, None), e)
      | (i, r) # rest \<Rightarrow> (i, REPLICANT_SUCCESS, r, e\<lparr>sv_answers := rest\<rparr>)),
      rp_kill = (\<lambda>_ e. e)\<rparr>"

interpretation memory_service: coordinator_service service_ops counter_replicant sv_object sv_answers
  "\<lambda>e. int ` {..<sv_next e}"
proof unfold_locales
  fix e c cx func t data c' cx' st i st' e'
  assume "sv_object e = (c, cx)" "map_of (symtable counter_replicant be_codec) func = Some t" "t c data cx = ret (c', cx')"
    "rp_send service_ops func data st e = (i, st', e')"
  then show "0 \<le> i \<and> i \<notin> int ` {..<sv_next e} \<and> sv_object e' = (c', cx') \<and>
      int ` {..<sv_next e'} = insert i (int ` {..<sv_next e}) \<and>
      sv_answers e' = sv_answers e @ [(i, (REPLICANT_SUCCESS, last_response (cx_effects cx')))]"
    by (auto simp: service_ops_def service_send_def lessThan_Suc)
qed (auto simp: service_ops_def lessThan_Suc split: list.splits)

section \<open>The orders\<close>

lemma packed_id: "token < u64_bound \<Longrightarrow> unpack_id be_codec (be_put 8 token) = Some (token, [])"
  using be.unpack_pack_id [of token "[]"] by (simp add: pack_id_def be_codec_def)

lemma last_response_refines:
  "op_refines cond P E op c cx c' cx' \<Longrightarrow>
     last_response (cx_effects cx') = Some (response_bytes (snd (spec_op op (table (m_servers c)))))"
  using last_response_snoc [of "cx_effects cx @ callback (rep_client P (cx_rep cx')) op (snd (spec_op op (table (m_servers c))))"]
  by (auto simp: op_refines_def Let_def split: prod.splits)

text \<open>An order, as its name and its message, reaches the operation of the coordinator.\<close>

inductive order :: "table_op \<Rightarrow> string \<Rightarrow> byte list \<Rightarrow> bool" where
  register: "token < u64_bound \<Longrightarrow> loc_wf loc \<Longrightarrow>
    order (Register token loc) ''server_register'' (pack_id be_codec token @ pack_location be_codec loc)"
| online: "token < u64_bound \<Longrightarrow> order (Online token None) ''server_online'' (be_put 8 token)"
| offline: "token < u64_bound \<Longrightarrow> order (Offline token) ''server_offline'' (be_put 8 token)"
| forget: "token < u64_bound \<Longrightarrow> order (Forget token) ''server_forget'' (be_put 8 token)"
| kill: "token < u64_bound \<Longrightarrow> order (Kill token) ''server_kill'' (be_put 8 token)"

lemma order_transition:
  assumes "order op func data" and k: "m_cluster c \<noteq> 0"
  shows "\<exists>t. map_of (symtable P be_codec) func = Some t \<and> t (Some c) data cx = as_object (run_op P be_codec op c cx)"
  using assms(1)
proof cases
  case (register token loc)
  have "unpack_id be_codec data = Some (token, pack_location be_codec loc)"
    using register be.unpack_pack_id by simp
  moreover have "unpack_location be_codec loc_default (pack_location be_codec loc) = Some (loc, [])"
    using be.unpack_pack_location [OF register(5), of loc_default "[]"] by (simp add: loc_default_def)
  ultimately have "t_server_register P be_codec (Some c) data cx = as_object (run_op P be_codec op c cx)"
    unfolding t_server_register_def initialized_object [OF k] using register(1) by (simp add: check_unpack_def)
  then show ?thesis using register(2) by (simp add: symtable_def)
qed (simp_all add: symtable_def t_server_online_def t_server_offline_def t_server_forget_def t_server_kill_def
  initialized_object [OF k] packed_id check_unpack_def)

text \<open>A tool that gives an order.\<close>

inductive gives ::
  "'v admin_env \<Rightarrow> 'e replicant_ops \<Rightarrow> (byte list \<Rightarrow> location option) \<Rightarrow>
     (('e, 'v) admin \<Rightarrow> (exit_status \<times> ('e, 'v) admin) run) \<Rightarrow> table_op \<Rightarrow> bool"
  for V R parse where
  register: "parse_token arg = Some token \<Longrightarrow> token < u64_bound \<Longrightarrow> parse address = Some loc \<Longrightarrow> loc_wf loc \<Longrightarrow>
    gives V R parse (tool_server_register V R be_codec parse [arg, address]) (Register token loc)"
| online: "parse_token arg = Some token \<Longrightarrow> token < u64_bound \<Longrightarrow>
    gives V R parse (tool_server_online V R be_codec [arg]) (Online token None)"
| offline: "parse_token arg = Some token \<Longrightarrow> token < u64_bound \<Longrightarrow>
    gives V R parse (tool_server_offline V R be_codec [arg]) (Offline token)"
| forget: "parse_token arg = Some token \<Longrightarrow> token < u64_bound \<Longrightarrow>
    gives V R parse (tool_server_forget V R be_codec [arg]) (Forget token)"
| kill: "parse_token arg = Some token \<Longrightarrow> token < u64_bound \<Longrightarrow>
    gives V R parse (tool_server_kill V R be_codec [arg]) (Kill token)"

lemma gives_order:
  assumes "gives V R parse tool op"
  shows "\<exists>name func data. order op func data \<and>
    (\<forall>h. tool h = run_tool V R be_codec (admin_call V R be_codec (admin_rpc R name func data)) h)"
  using assms
  by cases (auto intro!: exI order.intros
    simp: tool_server_register_def tool_server_online_def tool_server_offline_def tool_server_forget_def tool_server_kill_def
      token_tool_def admin_server_register_def admin_server_online_def admin_server_offline_def admin_server_forget_def
      admin_server_kill_def)

text \<open>An order from the command line takes effect. With an initialised coordinator behind the
  library of Replicant, whose counters are not exhausted, each of the five tools runs to its end: the
  connection is made and the configuration fetched and decoded, the call is encoded, sent, decoded and
  carried out by the coordinator as the abstract machine of the server table prescribes, its answer
  is found by the loop, and the tool exits with success exactly when the abstract machine says so.\<close>

theorem tool_order_refines:
  assumes tool: "gives V R parse tool op" and "coordinator_service R P object answers used" and "replicant_conditions P cond"
    and V: "\<And>v. fst (ae_set_external V v) = BUSYBEE_SUCCESS"
    and obj: "object e = (Some c, cx)" "answers e = []"
    and inv: "coord_inv cond be_codec c cx" and room: "coord_room c" and k: "m_cluster c \<noteq> 0"
    and wf: "list_all server_wf (m_servers c)" "length (m_servers c) \<le> max_reserve be_codec" "m_cluster c < u64_bound" "m_version c < u64_bound"
  shows "\<exists>h c' cx'. tool (admin_new e v) =
      ret (if snd (spec_op op (table (m_servers c))) = COORD_SUCCESS then EXIT_SUCCESS else EXIT_FAILURE, h) \<and>
    object (lk_repl (am_coord h)) = (Some c', cx') \<and>
    op_refines cond P be_codec op c (emit (SetResponse (packed_config be_codec c)) cx) c' cx'"
proof -
  let ?cx = "emit (SetResponse (packed_config be_codec c)) cx"
  from gives_order [OF tool] obtain name func data where o: "order op func data"
    and run: "tool h = run_tool V R be_codec (admin_call V R be_codec (admin_rpc R name func data)) h" for h by blast
  from replicant_conditions.run_op_refines [OF assms(3), of be_codec c ?cx op] inv room obtain c' cx'
    where op: "run_op P be_codec op c ?cx = ret (c', cx')" "op_refines cond P be_codec op c ?cx c' cx'" by auto
  from order_transition [OF o k, of P ?cx] op(1) obtain t
    where t: "map_of (symtable P be_codec) func = Some t" "t (Some c) data ?cx = ret (Some c', cx')"
    by (auto simp: as_object_def)
  from coordinator_service.order_runs [OF assms(2) obj inv k wf V t last_response_refines [OF op(2)]] op(2)
  show ?thesis unfolding run by blast
qed

definition demo_service :: service where
  "demo_service = \<lparr>sv_object = (Some demo_coordinator, demo_context), sv_answers = [], sv_next = 0\<rparr>"

lemma demo_kill:
  "\<exists>h c' cx'. tool_server_kill demo_admin_env service_ops be_codec [[55]] (admin_new demo_service ()) = ret (EXIT_SUCCESS, h) \<and>
     sv_object (lk_repl (am_coord h)) = (Some c', cx') \<and>
     table (m_servers c') 7 = Some ((server_new 7)\<lparr>srv_state := KILLED\<rparr>)"
proof -
  have tok: "parse_token [55] = Some 7"
    by (simp add: parse_token_def strtoull_def is_space_def split_base_def is_digit_def digit_value_def digits_value_def
      u64_max_def)
  have tool: "gives demo_admin_env service_ops (\<lambda>_. None) (tool_server_kill demo_admin_env service_ops be_codec [[55]]) (Kill 7)"
    by (rule gives.kill [OF tok]) simp
  have V: "fst (ae_set_external demo_admin_env v) = BUSYBEE_SUCCESS" for v by (simp add: demo_admin_env_def)
  have "sv_object demo_service = (Some demo_coordinator, demo_context)" "sv_answers demo_service = []"
    by (simp_all add: demo_service_def)
  from tool_order_refines [OF tool memory_service.coordinator_service_axioms counters.replicant_conditions_axioms V this
      demo_inv demo_room, of "()"]
  obtain h c' cx' where r: "tool_server_kill demo_admin_env service_ops be_codec [[55]] (admin_new demo_service ()) = ret (EXIT_SUCCESS, h)"
    "sv_object (lk_repl (am_coord h)) = (Some c', cx')" "coord_inv (\<lambda>c r. r c) be_codec c' cx'"
    "table (m_servers c') = (table [server_new 7])(7 \<mapsto> (server_new 7)\<lparr>srv_state := KILLED\<rparr>)"
    by (auto simp: demo_coordinator_def coordinator_new_def op_refines_def known_def spec_change_def table_def server_new_def
      server_wf_def loc_wf_def loc_default_def)
  then show ?thesis by auto
qed

section \<open>Any network\<close>

text \<open>The tools, by their names and arguments.\<close>

definition all_tools where
  "all_tools V R E parse args =
     {tool_server_register V R E parse args, tool_server_online V R E args, tool_server_offline V R E args,
      tool_server_forget V R E args, tool_server_kill V R E args}"

text \<open>A run ends with a failure, or the one call of the tool is done and was a success.\<close>

definition tool_ok :: "exit_status \<times> ('e, 'v) admin \<Rightarrow> bool" where
  "tool_ok r \<longleftrightarrow> (case r of (exit, h) \<Rightarrow>
     exit = EXIT_SUCCESS \<longrightarrow> am_refs h = [] \<and> (\<exists>p. ao_done (am_ops h p) \<and> ao_status (am_ops h p) = WTF_ADMIN_SUCCESS))"

lemma run_tool_ok:
  assumes run: "run_tool V R E (admin_call V R E f) (admin_new e v) = Some x"
    and f: "(\<exists>st1. f = (\<lambda>st s. (-1, st1, None, s))) \<or> (\<exists>name func data. f = admin_rpc R name func data)"
  shows "case x of Inl f \<Rightarrow> f \<noteq> Thrown \<and> admin_faults V R E f | Inr r \<Rightarrow> tool_ok r"
proof -
  have ok: "admin_ok (admin_new e v)" by (simp add: admin_ok_def am_refs_def admin_new_def link_ok_new)
  from run obtain m where m: "admin_maintain V R E WTF_ADMIN_GARBAGE (admin_new e v) = Some m"
    by (cases "admin_maintain V R E WTF_ADMIN_GARBAGE (admin_new e v)") (auto simp: run_tool_def admin_call_def)
  from admin_maintain_ok [OF m ok] consider (fault) f where "m = Inl f" "answer_faults R E f"
    | (going) b st l e1 h where "m = Inr (b, st, (admin_new e v)\<lparr>am_coord := l, am_env := e1, am_handle_coord_ops := h\<rparr>)"
      "link_ok l" by blast
  then show ?thesis
  proof cases
    case (fault f)
    then show ?thesis using run m
      by (cases "f = Thrown") (auto simp: run_tool_def admin_call_def tool_ok_def admin_faults_def)
  next
    case r: (going b st l e1 h)
    let ?s = "(admin_new e v)\<lparr>am_coord := l, am_env := e1, am_handle_coord_ops := h\<rparr>"
    show ?thesis
    proof (cases "b \<and> 0 \<le> fst (f st ?s)")
      case False
      then show ?thesis using run m r by (cases "f st ?s"; cases b) (auto simp: run_tool_def admin_call_def tool_ok_def)
    next
      case True
      with f obtain name func data where f': "f = admin_rpc R name func data" by auto
      obtain i st1 e2 where send: "rp_send R func data REPLICANT_GARBAGE (lk_repl l) = (i, st1, e2)" by (metis prod.collapse)
      define op where "op = \<lparr>ao_kind = Coord_rpc_generic name st1 None, ao_id = 1, ao_status = st, ao_done = False\<rparr>"
      define a where "a = ?s\<lparr>am_next_id := 2, am_next_ref := 1, am_coord := l\<lparr>lk_repl := e2\<rparr>, am_ops := (am_ops ?s)(0 := op),
        am_coord_ops := [(i, 0)]\<rparr>"
      have i: "f st ?s = (1, st, Some 0, a)"
        using True send unfolding f'
        by (auto simp: admin_rpc_def am_new_op_def link_rpc_def ao_store_result_def am_update_def a_def op_def admin_new_def
            Let_def split: if_splits)
      then have rest: "run_bind (wrap_except (-1, WTF_ADMIN_EXCEPTION, a) (admin_loop V R E (-1) a)) (\<lambda>(lid, lrc, h2).
          if lid < 0 then ret (EXIT_FAILURE, h2)
          else run_bind (lift_res (assert_that (1 = lid))) (\<lambda>_.
            ret (if ao_status (am_ops h2 0) \<noteq> WTF_ADMIN_SUCCESS then EXIT_FAILURE else EXIT_SUCCESS, h2))) = Some x"
        using run m r True by (simp add: run_tool_def admin_call_def Let_def cong: if_cong)
      then obtain y where y: "admin_loop V R E (-1) a = Some y" by (cases "admin_loop V R E (-1) a") auto
      have "link_ok (l\<lparr>lk_repl := e2\<rparr>)" using r(2) by (cases "lk_state l") (simp_all add: link_ok_def)
      then have a: "admin_ok a" "am_refs a = [0]" "ao_id (am_ops a 0) = 1"
        by (auto simp: a_def op_def admin_ok_def am_refs_def admin_new_def is_rpc_def)
      note z = admin_rounds_ok [OF y [unfolded admin_loop_def] a(1)]
      show ?thesis
      proof (cases y)
        case (Inl f)
        then show ?thesis using rest y z by (cases "f = Thrown") (auto simp: tool_ok_def)
      next
        case (Inr t)
        obtain lid st2 h2 where t: "t = (lid, st2, h2)" by (cases t)
        with z Inr a(2,3) consider "lid = -1" | "lid = 1" "am_refs h2 = []" "ao_done (am_ops h2 0)"
          by (auto simp: round_ok_def delivered_def add_mset_eq_single)
        then show ?thesis
          by cases (use rest y Inr t in \<open>auto simp: tool_ok_def assert_that_def\<close>)
      qed
    qed
  qed
qed

text \<open>C21: a run of one of the five tools, whatever arguments it gets and whatever the network, the library of
  Replicant and the coordinator do. If it ends, it does so with an exit status, and no assertion fails on the way, the
  tool's own comparison of the number the loop returns with that of its call included; it ends with success only when
  its call, the only one, is done and has the status of success. The exceptions are two. The library completed a fetch
  with success and decoding its bytes reads a variable that was never set or fails the assertion about equal servers
  (C29; the third kind of C29, too many servers, is an exception, which ends in a failure of the tool); or BusyBee
  reports that it was shut down, for which the administration library has an \<open>abort\<close>.\<close>

theorem tools_never_abort:
  assumes "tool \<in> all_tools V R E parse args" and run: "tool (admin_new e v) = Some x"
  shows "case x of
      Inl f \<Rightarrow> f \<noteq> Thrown \<and>
        (answer_faults R E f \<or> f = AssertFailed \<and> (\<exists>t e. fst (fst (ae_recv V t e)) = BUSYBEE_SHUTDOWN))
    | Inr (exit, h) \<Rightarrow> exit = EXIT_SUCCESS \<longrightarrow>
        am_refs h = [] \<and> (\<exists>p. ao_done (am_ops h p) \<and> ao_status (am_ops h p) = WTF_ADMIN_SUCCESS)"
proof -
  define Q where "Q = (\<lambda>x :: (exit_status \<times> ('a, 'b) admin) res.
    case x of Inl f \<Rightarrow> f \<noteq> Thrown \<and> admin_faults V R E f | Inr r \<Rightarrow> tool_ok r)"
  have fail: "Q (Inr (EXIT_FAILURE, h))" for h by (simp add: Q_def tool_ok_def)
  have rpc: "Q x" if "run_tool V R E (admin_call V R E (admin_rpc R name func data)) (admin_new e v) = Some x" for name func data x
    unfolding Q_def by (rule run_tool_ok [OF that]) blast
  have none: "Q x" if "run_tool V R E (admin_call V R E (\<lambda>st s. (-1, st1, None, s))) (admin_new e v) = Some x" for st1 x
    unfolding Q_def by (rule run_tool_ok [OF that]) blast
  have token: "Q x" if "token_tool V R E (\<lambda>token. admin_call V R E (admin_rpc R name func (data token))) args (admin_new e v) = Some x"
    for name func data x
    using that by (auto simp: token_tool_def fail split: list.splits option.splits dest!: rpc)
  have register: "Q x" if "tool_server_register V R E parse args (admin_new e v) = Some x" for x
    using that
    by (cases "parse (args ! 1)")
      (auto simp: tool_server_register_def admin_server_register_def fail split: list.splits option.splits dest!: rpc none)
  have "Q x"
    using assms(1) run register token
    by (auto simp: all_tools_def tool_server_online_def tool_server_offline_def tool_server_forget_def
        tool_server_kill_def admin_server_online_def [abs_def] admin_server_offline_def [abs_def] admin_server_forget_def [abs_def]
        admin_server_kill_def [abs_def])
  then show ?thesis by (auto simp: Q_def tool_ok_def admin_faults_def split: sum.splits)
qed

text \<open>The killing of server 7 goes through the connection, the decoding of the configuration and the loop.\<close>

theorem tools_never_abort_witness:
  "\<exists>h. tool_server_kill demo_admin_env service_ops be_codec [[55]] (admin_new demo_service ()) = ret (EXIT_SUCCESS, h) \<and>
     am_refs h = [] \<and> (\<exists>p. ao_done (am_ops h p) \<and> ao_status (am_ops h p) = WTF_ADMIN_SUCCESS)"
proof -
  from demo_kill obtain h where
    run: "tool_server_kill demo_admin_env service_ops be_codec [[55]] (admin_new demo_service ()) = ret (EXIT_SUCCESS, h)" by blast
  have "tool_server_kill demo_admin_env service_ops be_codec [[55]] \<in>
      all_tools demo_admin_env service_ops be_codec (\<lambda>_. None) [[55]]" by (simp add: all_tools_def)
  from tools_never_abort [OF this run] run show ?thesis by simp
qed

end
