(* ===== verification/Orders.thy ===== *)
theory Orders
  imports ToolProps
begin

text \<open>
  Orders and those who follow the configuration: a series of tools, each a process of its own with its own
  connection to the same coordinator, and a client or a daemon that connects afterwards.
\<close>

section \<open>A series of tools\<close>

type_synonym 'r replicated = "coordinator option \<times> 'r rsm_context"

text \<open>\<open>connect\<close> gives the library of a new process.\<close>

fun run_tools ::
  "('r replicated \<Rightarrow> 'e) \<Rightarrow> ('e \<Rightarrow> 'r replicated) \<Rightarrow> 'v \<Rightarrow>
     (('e, 'v) admin \<Rightarrow> (exit_status \<times> ('e, 'v) admin) run) list \<Rightarrow> 'r replicated \<Rightarrow> (exit_status list \<times> 'r replicated) run" where
  "run_tools connect object v [] ob = ret ([], ob)"
| "run_tools connect object v (tool # tools) ob =
     run_bind (tool (admin_new (connect ob) v)) (\<lambda>(x, h).
     run_bind (run_tools connect object v tools (object (lk_repl (am_coord h)))) (\<lambda>(xs, ob'). ret (x # xs, ob')))"

text \<open>The same on the abstract table.\<close>

fun spec_orders :: "table_op list \<Rightarrow> server_map \<Rightarrow> coordinator_returncode list \<times> server_map" where
  "spec_orders [] t = ([], t)"
| "spec_orders (op # ops) t =
     (let (r, x) = spec_op op t;
          (xs, t') = spec_orders ops (case r of None \<Rightarrow> t | Some t' \<Rightarrow> t')
      in (x # xs, t'))"

section \<open>What an order keeps\<close>

definition table_wf :: "server_map \<Rightarrow> bool" where
  "table_wf t \<longleftrightarrow> (\<forall>k s. t k = Some s \<longrightarrow> server_wf s \<and> srv_id s = k)"

fun op_wf :: "table_op \<Rightarrow> bool" where
  "op_wf (Register sid l) \<longleftrightarrow> sid < u64_bound \<and> loc_wf l"
| "op_wf (Online sid (Some l)) \<longleftrightarrow> loc_wf l"
| "op_wf _ \<longleftrightarrow> True"

lemma table_wf_upd: "table_wf t \<Longrightarrow> server_wf s \<Longrightarrow> table_wf (t(srv_id s \<mapsto> s))"
  by (simp add: table_wf_def)

lemma spec_change_keeps:
  assumes "table_wf t" and "server_wf s" and "spec_change t s = (Some t', x)"
  shows "table_wf t' \<and> dom t' = insert (srv_id s) (dom t)"
  using assms table_wf_upd [OF assms(1,2)] by (auto simp: spec_change_def split: if_splits)

lemma known_keeps:
  assumes wf: "table_wf t" and "known t sid f = (Some t', x)"
    and f: "\<And>s. server_wf s \<Longrightarrow> srv_id s = sid \<Longrightarrow> f s = (Some t', x) \<Longrightarrow>
      t' = t(sid := None) \<or> (\<exists>s'. spec_change t s' = (Some t', x) \<and> server_wf s')"
  shows "table_wf t' \<and> (\<exists>k. dom t' \<subseteq> insert k (dom t))"
proof (cases "t sid")
  case (Some s)
  then have "server_wf s" "srv_id s = sid" using wf by (simp_all add: table_wf_def)
  with f [OF this] assms(2) Some consider "t' = t(sid := None)"
    | s' where "spec_change t s' = (Some t', x)" "server_wf s'" by (auto simp: known_def)
  then show ?thesis
  proof cases
    case 1
    then show ?thesis using wf by (auto simp: table_wf_def)
  next
    case (2 s')
    then show ?thesis using spec_change_keeps [OF wf 2(2,1)] by blast
  qed
qed (use assms(2) in \<open>simp add: known_def\<close>)

lemma server_wf_upd: "server_wf s \<Longrightarrow> state_wf st \<Longrightarrow> server_wf (s\<lparr>srv_state := st\<rparr>)"
  "server_wf s \<Longrightarrow> loc_wf l \<Longrightarrow> server_wf (s\<lparr>srv_bind_to := l\<rparr>)"
  by (simp_all add: server_wf_def)

lemma spec_offline_keeps:
  "server_wf s \<Longrightarrow> spec_offline t s = (Some t', x) \<Longrightarrow> \<exists>s'. spec_change t s' = (Some t', x) \<and> server_wf s'"
  by (auto simp: spec_offline_def split: if_splits intro!: exI server_wf_upd)

lemma spec_online_keeps:
  assumes "server_wf s" and "\<And>l. b = Some l \<Longrightarrow> loc_wf l" and "spec_online t s b = (Some t', x)"
  shows "\<exists>s'. spec_change t s' = (Some t', x) \<and> server_wf s'"
proof -
  define l where "l = (case b of None \<Rightarrow> srv_bind_to s | Some l \<Rightarrow> l)"
  have "loc_wf l" using assms(1,2) by (auto simp: l_def server_wf_def split: option.split)
  then have "server_wf (s\<lparr>srv_state := AVAILABLE, srv_bind_to := l\<rparr>)" using assms(1) by (simp add: server_wf_def)
  moreover have "spec_change t (s\<lparr>srv_state := AVAILABLE, srv_bind_to := l\<rparr>) = (Some t', x)"
    using assms(3) by (simp add: spec_online_def l_def [symmetric] Let_def split: if_splits)
  ultimately show ?thesis by blast
qed

lemma spec_op_keeps:
  assumes wf: "table_wf t" "op_wf op" and op: "spec_op op t = (Some t', x)"
  shows "table_wf t' \<and> (\<exists>k. dom t' \<subseteq> insert k (dom t))"
proof (cases op)
  case (Register sid l)
  then have "t' = t(sid \<mapsto> \<lparr>srv_state = ASSIGNED, srv_id = sid, srv_bind_to = l\<rparr>)" using op by (auto split: option.splits)
  moreover have "server_wf \<lparr>srv_state = ASSIGNED, srv_id = sid, srv_bind_to = l\<rparr>" using wf(2) Register by (simp add: server_wf_def)
  ultimately show ?thesis using table_wf_upd [OF wf(1)] by fastforce
next
  case (Online sid l)
  then have "loc_wf y" if "l = Some y" for y using wf(2) that by simp
  then show ?thesis using spec_online_keeps known_keeps [OF wf(1) op [unfolded Online spec_op.simps]] by blast
next
  case (Offline sid)
  then show ?thesis using spec_offline_keeps known_keeps [OF wf(1) op [unfolded Offline spec_op.simps]] by blast
next
  case (Suspect sid)
  then show ?thesis using spec_offline_keeps known_keeps [OF wf(1) op [unfolded Suspect spec_op.simps]] by blast
next
  case (Shutdown sid)
  show ?thesis
    by (rule known_keeps [OF wf(1) op [unfolded Shutdown spec_op.simps]])
      (auto split: if_splits intro!: exI server_wf_upd)
next
  case (Kill sid)
  show ?thesis
    by (rule known_keeps [OF wf(1) op [unfolded Kill spec_op.simps]]) (auto intro!: exI server_wf_upd)
next
  case (Forget sid)
  show ?thesis by (rule known_keeps [OF wf(1) op [unfolded Forget spec_op.simps]]) simp
qed

text \<open>The vector behind the table.\<close>

lemma table_dom: "servers_sorted ss \<Longrightarrow> card (dom (table ss)) = length ss \<and> finite (dom (table ss))"
proof -
  assume so: "servers_sorted ss"
  have "dom (table ss) = srv_id ` set ss" by (auto simp: table_Some_iff [OF so])
  then show ?thesis using servers_sorted_distinct [OF so] by (metis List.finite_set card_image distinct_card distinct_map finite_imageI)
qed

lemma table_wf_iff: "servers_sorted ss \<Longrightarrow> table_wf (table ss) \<longleftrightarrow> list_all server_wf ss"
  by (auto simp: table_wf_def table_Some_iff list_all_iff)

lemma find_Some_list_ex: "list_ex P xs \<longleftrightarrow> (\<exists>x. find P xs = Some x)"
  by (induction xs) auto

lemma gives_wf: "gives V R parse tool op \<Longrightarrow> op_wf op"
  by (cases rule: gives.cases) auto

section \<open>A coordinator that can take orders\<close>

text \<open>No counter is exhausted before \<open>n\<close> orders have been carried out, and there is still room for a vector of the servers.\<close>

definition ready :: "(string \<Rightarrow> 'r \<Rightarrow> u64) \<Rightarrow> nat \<Rightarrow> coordinator \<Rightarrow> 'r rsm_context \<Rightarrow> bool" where
  "ready cond n c cx \<longleftrightarrow> coord_inv cond be_codec c cx \<and> m_cluster c \<noteq> 0 \<and> m_cluster c < u64_bound \<and>
     list_all server_wf (m_servers c) \<and> length (m_servers c) + n \<le> max_reserve be_codec \<and> m_version c + n < u64_bound \<and>
     m_checkpoint c + 1 + outstanding_checkpoints < u64_bound"

lemma ready_op:
  assumes ready: "ready cond (Suc n) c cx" and wf: "op_wf op" and op: "op_refines cond P be_codec op c cx0 c' cx'"
  shows "ready cond n c' cx' \<and> table (m_servers c') = (case fst (spec_op op (table (m_servers c))) of None \<Rightarrow> table (m_servers c) | Some t \<Rightarrow> t)"
proof -
  obtain r x where s: "spec_op op (table (m_servers c)) = (r, x)" by fastforce
  have inv: "coord_inv cond be_codec c cx" "coord_inv cond be_codec c' cx'"
    using ready op s by (simp_all add: ready_def op_refines_def)
  note so = coord_inv_sorted [OF inv(1)] coord_inv_sorted [OF inv(2)]
  have t: "table (m_servers c') = (case r of None \<Rightarrow> table (m_servers c) | Some t \<Rightarrow> t)" using op s by (simp add: op_refines_def)
  have "table_wf (table (m_servers c))" using ready table_wf_iff [OF so(1)] by (simp add: ready_def)
  with spec_op_keeps [OF this wf] s t have "table_wf (table (m_servers c'))"
    and dom: "\<exists>k. dom (table (m_servers c')) \<subseteq> insert k (dom (table (m_servers c)))" by (auto split: option.splits)
  then have "list_all server_wf (m_servers c')" using table_wf_iff [OF so(2)] by simp
  moreover from dom obtain k where "dom (table (m_servers c')) \<subseteq> insert k (dom (table (m_servers c)))" ..
  then have "card (dom (table (m_servers c'))) \<le> card (insert k (dom (table (m_servers c))))"
    by (rule card_mono [rotated]) (use table_dom [OF so(1)] in simp)
  then have "length (m_servers c') \<le> Suc (length (m_servers c))"
    using table_dom [OF so(1)] table_dom [OF so(2)] by (simp add: card_insert_if split: if_splits)
  moreover have "m_version c' \<le> Suc (m_version c)" "m_cluster c' = m_cluster c" "m_checkpoint c' = m_checkpoint c"
    using op s by (simp_all add: op_refines_def)
  ultimately show ?thesis using ready inv(2) t s by (simp add: ready_def)
qed

section \<open>The properties\<close>

definition status_of :: "coordinator_returncode \<Rightarrow> exit_status" where
  "status_of x = (if x = COORD_SUCCESS then EXIT_SUCCESS else EXIT_FAILURE)"

lemma tools_run:
  assumes tools: "list_all2 (gives V R parse) tools ops"
    and service: "coordinator_service R P object answers used" and cond: "replicant_conditions P cond"
    and V: "\<And>v. fst (ae_set_external V v) = BUSYBEE_SUCCESS"
    and connect: "\<And>ob. object (connect ob) = ob \<and> answers (connect ob) = []"
    and ready: "ready cond (length ops) c cx"
  shows "\<exists>c' cx'. run_tools connect object v tools (Some c, cx) =
      ret (map status_of (fst (spec_orders ops (table (m_servers c)))), (Some c', cx')) \<and>
    ready cond 0 c' cx' \<and> table (m_servers c') = snd (spec_orders ops (table (m_servers c))) \<and> m_cluster c' = m_cluster c"
  using tools ready
proof (induction tools ops arbitrary: c cx rule: list_all2_induct)
  case Nil
  then show ?case by simp
next
  case (Cons tool tools op ops)
  let ?t = "table (m_servers c)"
  have r: "coord_inv cond be_codec c cx" "coord_room c" "m_cluster c \<noteq> 0" "list_all server_wf (m_servers c)"
    "length (m_servers c) \<le> max_reserve be_codec" "m_cluster c < u64_bound" "m_version c < u64_bound"
    using Cons.prems by (simp_all add: ready_def coord_room_def)
  from tool_order_refines [OF Cons.hyps(1) service cond V _ _ r(1-7), of "connect (Some c, cx)" v] connect obtain h c1 cx1 where
    h: "tool (admin_new (connect (Some c, cx)) v) = ret (status_of (snd (spec_op op ?t)), h)"
      "object (lk_repl (am_coord h)) = (Some c1, cx1)"
    and op: "op_refines cond P be_codec op c (emit (SetResponse (packed_config be_codec c)) cx) c1 cx1"
    by (auto simp: status_of_def)
  have "ready cond (Suc (length ops)) c cx" using Cons.prems by simp
  from ready_op [OF this gives_wf [OF Cons.hyps(1)] op] have
    ready: "ready cond (length ops) c1 cx1" and t: "table (m_servers c1) = (case fst (spec_op op ?t) of None \<Rightarrow> ?t | Some t \<Rightarrow> t)" by simp_all
  have "m_cluster c1 = m_cluster c" using op by (simp add: op_refines_def split: prod.splits)
  with Cons.IH [OF ready] h t show ?case by (auto simp: Let_def split: prod.splits)
qed

text \<open>C3: orders reach those who follow the configuration. A series of orders, each given by one of the five tools in a process
  of its own, runs to its end on the same coordinator: every tool exits as the abstract machine of the
  server table says, one order after the other, and whoever connects afterwards, a client or a daemon, gets in one
  step a configuration of the same cluster whose servers are exactly the abstract table, under which every lookup of a state
  gives what the orders made of it.
\<close>

theorem orders_reach_clients:
  assumes tools: "list_all2 (gives V R parse) tools ops"
    and service: "coordinator_service R P object answers used" and cond: "replicant_conditions P cond"
    and V: "\<And>v. fst (ae_set_external V v) = BUSYBEE_SUCCESS"
    and connect: "\<And>ob. object (connect ob) = ob \<and> answers (connect ob) = []"
    and ready: "ready cond (length ops) c cx" and spec: "spec_orders ops (table (m_servers c)) = (xs, t)"
  shows "\<exists>ob st l. run_tools connect object v tools (Some c, cx) = ret (map status_of xs, ob) \<and>
    ensure_configuration R be_codec REPLICANT_GARBAGE (link_new (connect ob)) = ret (True, st, l) \<and>
    c_cluster (lk_config l) = m_cluster c \<and> table (c_servers (lk_config l)) = t \<and>
    (\<forall>sid. config_exists sid (lk_config l) \<longleftrightarrow> t sid \<noteq> None) \<and>
    (\<forall>sid. get_state sid (lk_config l) = (case t sid of None \<Rightarrow> KILLED | Some s \<Rightarrow> srv_state s))"
proof -
  from tools_run [OF tools service cond V connect ready, of v] spec obtain c' cx' where
    run: "run_tools connect object v tools (Some c, cx) = ret (map status_of xs, (Some c', cx'))"
    and r: "ready cond 0 c' cx'" and t: "table (m_servers c') = t" and k: "m_cluster c' = m_cluster c" by auto
  let ?e = "connect (Some c', cx')"
  from coordinator_service.link_gets_config [OF service, of ?e c' cx' cond] connect r obtain st l where
    l: "ensure_configuration R be_codec REPLICANT_GARBAGE (link_new ?e) = ret (True, st, l)"
      "lk_config l = \<lparr>c_cluster = m_cluster c', c_version = m_version c', c_flags = unat (m_flags c'), c_servers = m_servers c'\<rparr>"
    by (auto simp: ready_def)
  show ?thesis using run l k t by (auto simp: table_def config_exists_def get_state_def find_Some_list_ex)
qed

text \<open>Server 7 is killed, and then an order to take it offline is refused.\<close>

definition memory_connect :: "(string \<Rightarrow> u64) replicated \<Rightarrow> service" where
  "memory_connect ob = \<lparr>sv_object = ob, sv_answers = [], sv_next = 0\<rparr>"

theorem orders_reach_clients_witness:
  "\<exists>ob st l. run_tools memory_connect sv_object ()
       [tool_server_kill demo_admin_env service_ops be_codec [[55]], tool_server_offline demo_admin_env service_ops be_codec [[55]]]
       (Some demo_coordinator, demo_context) = ret ([EXIT_SUCCESS, EXIT_FAILURE], ob) \<and>
     ensure_configuration service_ops be_codec REPLICANT_GARBAGE (link_new (memory_connect ob)) = ret (True, st, l) \<and>
     config_exists 7 (lk_config l) \<and> get_state 7 (lk_config l) = KILLED \<and> \<not> config_exists 8 (lk_config l)"
proof -
  let ?kill = "tool_server_kill demo_admin_env service_ops be_codec [[55]]"
  let ?off = "tool_server_offline demo_admin_env service_ops be_codec [[55]]"
  have tok: "parse_token [55] = Some 7"
    by (simp add: parse_token_def strtoull_def is_space_def split_base_def is_digit_def digit_value_def digits_value_def
      u64_max_def)
  have tools: "list_all2 (gives demo_admin_env service_ops (\<lambda>_. None)) [?kill, ?off] [Kill 7, Offline 7]"
    by (simp add: gives.kill [OF tok] gives.offline [OF tok])
  have V: "fst (ae_set_external demo_admin_env v) = BUSYBEE_SUCCESS" for v by (simp add: demo_admin_env_def)
  have connect: "sv_object (memory_connect ob) = ob \<and> sv_answers (memory_connect ob) = []" for ob by (simp add: memory_connect_def)
  have r: "ready (\<lambda>c r. r c) (length [Kill 7, Offline 7]) demo_coordinator demo_context"
    using demo_inv demo_room
    by (simp add: ready_def coord_room_def demo_coordinator_def coordinator_new_def server_wf_def server_new_def loc_wf_def loc_default_def)
  have "spec_orders [Kill 7, Offline 7] (table (m_servers demo_coordinator)) =
      ([COORD_SUCCESS, COORD_NO_CAN_DO], [7 \<mapsto> (server_new 7)\<lparr>srv_state := KILLED\<rparr>])"
    by (auto simp: demo_coordinator_def coordinator_new_def table_def known_def spec_change_def spec_offline_def server_new_def)
  from orders_reach_clients [OF tools memory_service.coordinator_service_axioms counters.replicant_conditions_axioms V connect r this, of "()"]
  show ?thesis by (auto simp: status_of_def)
qed

end
