(* ===== verification/CoordinatorTool.thy ===== *)
theory CoordinatorTool
  imports Orders ClientFile
begin

text \<open>
  \<open>tools/coordinator.cc\<close> with \<open>locate_coordinator_lib\<close> of \<open>tools/common.h\<close>: the tool that finds the library of the
  coordinator, draws a random token, and becomes the daemon of Replicant, which starts the object with the token as
  its init string. The paths of po6, the file system, the environment and the random numbers are the record
  \<open>shell_ops\<close>.
\<close>

section \<open>The library\<close>

record shell_ops =
  sh_exec_dir :: string
  sh_env :: "string option"
  sh_self :: "string option"
  sh_join :: "string \<Rightarrow> string \<Rightarrow> string"
  sh_dirname :: "string \<Rightarrow> string"
  sh_stat :: "string \<Rightarrow> bool"
  sh_isdir :: "string \<Rightarrow> bool"
  sh_setenv :: bool
  sh_random :: "u64 option"
  sh_execvp :: "string list \<Rightarrow> bool"

definition lib_exts :: "string list" where
  "lib_exts = [[], ''.so.0.0.0'', ''.so.0'', ''.so'', ''.dylib'']"

definition lib_paths :: "shell_ops \<Rightarrow> string \<Rightarrow> string list" where
  "lib_paths S argv0 =
     concat (map (\<lambda>ext.
       let base = ''libwtf-coordinator'' @ ext
       in [sh_join S (sh_exec_dir S) base, sh_join S (sh_dirname S argv0) (sh_join S ''.libs'' base)] @
          (case sh_env S of None \<Rightarrow> [] | Some env \<Rightarrow> [env @ ext])) lib_exts) @
     (case sh_self S of
        None \<Rightarrow> []
      | Some self \<Rightarrow>
          (let workdir = sh_dirname S self; gitdir = sh_join S workdir ''.git''
           in if sh_stat S gitdir \<and> sh_isdir S gitdir
              then map (\<lambda>ext. sh_join S (sh_join S workdir ''.libs'') (''libwtf-coordinator'' @ ext)) lib_exts
              else []))"

definition locate_coordinator_lib :: "shell_ops \<Rightarrow> string \<Rightarrow> string option" where
  "locate_coordinator_lib S argv0 = find (sh_stat S) (lib_paths S argv0)"

section \<open>The tool\<close>

text \<open>\<open>%ld\<close>, which takes the token for a number with a sign.\<close>

definition show_long :: "u64 \<Rightarrow> string" where
  "show_long n = (if n < 2 ^ 63 then show_nat 10 n else CHR ''-'' # show_nat 10 (2 ^ 64 - n))"

definition token_buf :: "u64 \<Rightarrow> string" where
  "token_buf n = take 20 (show_long n)"

text \<open>\<open>Exec\<close>: the process goes on as Replicant with these arguments.\<close>

datatype launched = Not_launched | Exec "string list"

definition tool_coordinator :: "shell_ops \<Rightarrow> string \<Rightarrow> string list \<Rightarrow> launched" where
  "tool_coordinator S argv0 argv =
     (case locate_coordinator_lib S argv0 of
        None \<Rightarrow> Not_launched
      | Some libpath \<Rightarrow>
          if \<not> sh_setenv S then Not_launched
          else
            (case sh_random S of
               None \<Rightarrow> Not_launched
             | Some token \<Rightarrow>
                 (let args = [''replicant'', ''daemon''] @ argv @ [''--object'', ''wtf'', ''--library'', libpath,
                        ''--init-string'', token_buf token]
                  in if sh_execvp S args then Exec args else Not_launched)))"

section \<open>Numbers and their digits\<close>

lemma digit_byte: "d < 10 \<Longrightarrow> digit_value (word_of_nat (48 + d)) = Some d"
proof -
  assume "d < 10"
  then have "d \<in> {0, 1, 2, 3, 4, 5, 6, 7, 8, 9}" by auto
  then show ?thesis by (auto simp: digit_value_def)
qed

declare show_nat.simps [simp del]

lemma show_small: "n < 10 \<Longrightarrow> bytes_of_string (show_nat 10 n) = [word_of_nat (48 + n)]"
  by (simp add: show_nat.simps bytes_of_string_def)

lemma show_step: "10 \<le> n \<Longrightarrow>
  bytes_of_string (show_nat 10 n) = bytes_of_string (show_nat 10 (n div 10)) @ [word_of_nat (48 + n mod 10)]"
  by (subst show_nat.simps) (simp add: bytes_of_string_def Let_def)

lemma show_digits:
  "list_all (is_digit 10) (bytes_of_string (show_nat 10 n)) \<and> digits_value 10 (bytes_of_string (show_nat 10 n)) = n \<and>
   (\<exists>b r. bytes_of_string (show_nat 10 n) = b # r \<and> (b = 48 \<longrightarrow> n = 0))"
proof (induction n rule: less_induct)
  case (less n)
  show ?case
  proof (cases "n < 10")
    case True
    moreover have "(word_of_nat (48 + n) :: byte) = 48 \<longrightarrow> n = 0"
      using digit_byte [OF True] digit_byte [of 0] by auto
    ultimately show ?thesis using digit_byte [OF True] by (simp add: show_small digits_value_def is_digit_def)
  next
    case False
    then have "n div 10 < n" "n div 10 \<noteq> 0" by auto
    from less.IH [OF this(1)] this(2) digit_byte [of "n mod 10"] show ?thesis using False
      by (auto simp: show_step digits_value_def is_digit_def)
  qed
qed

lemma show_length: "n < 10 ^ k \<Longrightarrow> 0 < k \<Longrightarrow> length (show_nat 10 n) \<le> k"
proof (induction n arbitrary: k rule: less_induct)
  case (less n)
  show ?case
  proof (cases "n < 10")
    case True
    then show ?thesis using less.prems(2) by (simp add: show_nat.simps Suc_le_eq)
  next
    case False
    with less.prems have k: "1 < k" by (cases "k = 1") auto
    then have "n div 10 < 10 ^ (k - 1)" using less.prems(1) by (cases k) (auto simp: less_mult_imp_div_less mult.commute)
    with False less.IH [of "n div 10" "k - 1"] k have "length (show_nat 10 (n div 10)) \<le> k - 1" by simp
    moreover have "length (show_nat 10 n) = Suc (length (show_nat 10 (n div 10)))"
      using False arg_cong [OF show_step [of n], of length] by (simp add: bytes_of_string_def)
    ultimately show ?thesis using k by simp
  qed
qed

lemma digit_not_space: "is_digit 10 b \<Longrightarrow> \<not> is_space b \<and> b \<noteq> 0 \<and> b \<noteq> 45 \<and> b \<noteq> 43"
  by (auto simp: is_digit_def digit_value_def is_space_def word_le_nat_alt split: if_splits)

text \<open>\<open>strtoull\<close> reads what \<open>%ld\<close> wrote, whatever the sign.\<close>

lemma split_base_show: "split_base (bytes_of_string (show_nat 10 n)) = (if n = 0 then 8 else 10, bytes_of_string (show_nat 10 n))"
proof (cases "n = 0")
  case True
  then show ?thesis by (simp add: show_small split_base_def)
next
  case False
  from show_digits [of n] False obtain b r where "bytes_of_string (show_nat 10 n) = b # r" "b \<noteq> 48" by blast
  with False show ?thesis by (auto simp: split_base_def split: list.split)
qed

lemma takeWhile_digits: "takeWhile (is_digit 10) (bytes_of_string (show_nat 10 n)) = bytes_of_string (show_nat 10 n)"
  using show_digits [of n] by (simp add: list_all_iff)

lemma strtoull_show:
  assumes "n < 2 ^ 63"
  shows "strtoull (bytes_of_string (show_nat 10 n)) = n"
    "0 < n \<Longrightarrow> strtoull (45 # bytes_of_string (show_nat 10 n)) = 2 ^ 64 - n"
proof -
  let ?b = "bytes_of_string (show_nat 10 n)"
  have d: "\<forall>b \<in> set ?b. \<not> is_space b \<and> b \<noteq> 0 \<and> b \<noteq> 45 \<and> b \<noteq> 43"
    using show_digits [of n] digit_not_space by (simp add: list_all_iff)
  obtain b r where b: "?b = b # r" using show_digits [of n] by blast
  have nz: "takeWhile (\<lambda>b. b \<noteq> 0) ?b = ?b" using d by simp
  have sp: "dropWhile is_space ?b = ?b" using d b by simp
  have v: "digits_value 10 (takeWhile (is_digit 10) ?b) = n" using show_digits [of n] unfolding takeWhile_digits by blast
  have z: "n = 0 \<Longrightarrow> ?b = [48]" by (simp add: show_small)
  have le: "n \<le> u64_max" using assms by (simp add: u64_max_def)
  have s: "(case ?b of b # r \<Rightarrow> if b = 45 then (True, r) else if b = 43 then (False, r) else (False, ?b)
      | [] \<Rightarrow> (False, ?b)) = (False, ?b)" using b d by simp
  show "strtoull ?b = n"
  proof (cases "n = 0")
    case True
    then show ?thesis using z
      by (simp add: strtoull_def is_space_def split_base_def is_digit_def digit_value_def digits_value_def u64_max_def)
  next
    case False
    then show ?thesis unfolding strtoull_def nz sp Let_def s prod.case split_base_show using v le by simp
  qed
  assume "0 < n"
  have "is_space 45 = False" by (simp add: is_space_def)
  moreover have "u64_sub 0 n = 2 ^ 64 - n" using \<open>0 < n\<close> assms by (simp add: u64_sub_def)
  ultimately show "strtoull (45 # ?b) = 2 ^ 64 - n"
    using v le \<open>0 < n\<close> by (simp add: strtoull_def nz split_base_show del: takeWhile_eq_all_conv)
qed

lemma strtoull_edge: "strtoull (45 # bytes_of_string (show_nat 10 (2 ^ 63))) = 2 ^ 63"
proof -
  have "bytes_of_string (show_nat 10 (2 ^ 63)) = [57, 50, 50, 51, 51, 55, 50, 48, 51, 54, 56, 53, 52, 55, 55, 53, 56, 48, 56]"
    by (simp add: show_nat.simps bytes_of_string_def)
  then show ?thesis
    by (simp add: strtoull_def is_space_def split_base_def is_digit_def digit_value_def digits_value_def u64_max_def u64_sub_def)
qed

lemma token_buf_whole: "n < u64_bound \<Longrightarrow> token_buf n = show_long n"
  using show_length [of n 19] show_length [of "2 ^ 64 - n" 19] by (auto simp: token_buf_def show_long_def)

lemma token_read: "n < u64_bound \<Longrightarrow> strtoull (bytes_of_string (token_buf n)) = n"
  using strtoull_show [of n] strtoull_show [of "2 ^ 64 - n"] strtoull_edge
  by (cases "n = 2 ^ 63") (auto simp: token_buf_whole show_long_def bytes_of_string_def)

section \<open>A new cluster\<close>

text \<open>Without a cluster, every transition but one is refused.\<close>

lemma refused_uninitialized:
  assumes "m_cluster c = 0" and "(func, t) \<in> set (symtable P E)" and "func \<noteq> ''init''"
  shows "t (Some c) data cx = ret (Some c, generate_response COORD_UNINITIALIZED cx)"
proof -
  have u: "protect_uninitialized (Some c) cx f = ret (Some c, generate_response COORD_UNINITIALIZED cx)" for f
    using assms(1) by (simp add: protect_uninitialized_def protect_null_def)
  show ?thesis using assms(2,3)
    by (auto simp: symtable_def t_config_get_def t_config_ack_def t_server_register_def t_server_online_def
        t_server_offline_def t_server_shutdown_def t_server_kill_def t_server_forget_def t_server_suspect_def
        t_report_disconnect_def t_checkpoint_stable_def t_alarm_def t_read_only_def t_debug_dump_def u)
qed

text \<open>C14: the birth of a cluster. Whatever token the tool draws, also one that it writes with a sign, the coordinator
  that starts with the init string it passes on takes exactly this token as its cluster, arms its alarm and answers
  success. When the token is not 0, whoever connects gets the first configuration of this cluster, without servers. When
  it is 0, the coordinator stays uninitialised although it has answered success: every transition of the table of
  symbols other than \<open>init\<close>, the alarm included, only answers \<open>COORD_UNINITIALIZED\<close> and changes nothing.\<close>

theorem new_cluster:
  assumes tool: "tool_coordinator S argv0 argv = Exec args" and token: "sh_random S = Some token" "token < u64_bound"
    and cond: "replicant_conditions P cond" "\<forall>n. cond n r = 0" and service: "coordinator_service R P object answers used"
    and connect: "\<And>ob. object (connect ob) = ob \<and> answers (connect ob) = []"
  shows "\<exists>pre str c cx. args = pre @ [''--init-string'', str] \<and>
    t_init P be_codec (Some coordinator_new) (bytes_of_string str) (fresh_context r) = ret (Some c, cx) \<and> m_cluster c = token \<and>
    cx_effects cx = [SetAlarm ''alarm'' alarm_interval, SetResponse (response_bytes COORD_SUCCESS)] \<and>
    (token = 0 \<longrightarrow> (\<forall>(func, t) \<in> set (symtable P be_codec). func \<noteq> ''init'' \<longrightarrow>
       (\<forall>data cx'. t (Some c) data cx' = ret (Some c, generate_response COORD_UNINITIALIZED cx')))) \<and>
    (token \<noteq> 0 \<longrightarrow> (\<exists>st l. ensure_configuration R be_codec REPLICANT_GARBAGE (link_new (connect (Some c, cx))) = ret (True, st, l) \<and>
       c_cluster (lk_config l) = token \<and> c_version (lk_config l) = 1 \<and> c_servers (lk_config l) = []))"
proof -
  from tool token(1) obtain pre where args: "args = pre @ [''--init-string'', token_buf token]"
    by (auto simp: tool_coordinator_def Let_def split: option.splits if_splits)
  let ?str = "token_buf token"
  have inv: "coord_inv cond be_codec coordinator_new (fresh_context r)" using cond(2) by (rule coord_inv_new)
  from replicant_conditions.init_ok [OF cond(1) inv coord_room_new, of token] obtain c cx where
    run: "coord_init P be_codec token coordinator_new (fresh_context r) = ret (c, cx)" and c: "coord_inv cond be_codec c cx"
      "m_cluster c = token" "m_version c = 1" "m_servers c = []"
    and eff: "cx_effects cx = [SetAlarm ''alarm'' alarm_interval, SetResponse (response_bytes COORD_SUCCESS)]"
    by (auto simp: coordinator_new_def fresh_context_def)
  have init: "t_init P be_codec (Some coordinator_new) (bytes_of_string ?str) (fresh_context r) = ret (Some c, cx)"
    using run token_read [OF token(2)] by (simp add: t_init_def protect_null_def)
  have none: "token = 0 \<longrightarrow> (\<forall>(func, t) \<in> set (symtable P be_codec). func \<noteq> ''init'' \<longrightarrow>
       (\<forall>data cx'. t (Some c) data cx' = ret (Some c, generate_response COORD_UNINITIALIZED cx')))"
    using c(2) by (intro impI ballI) (auto intro: refused_uninitialized)
  have some: "token \<noteq> 0 \<longrightarrow> (\<exists>st l. ensure_configuration R be_codec REPLICANT_GARBAGE (link_new (connect (Some c, cx))) = ret (True, st, l) \<and>
      c_cluster (lk_config l) = token \<and> c_version (lk_config l) = 1 \<and> c_servers (lk_config l) = [])"
  proof
    assume "token \<noteq> 0"
    have ob: "object (connect (Some c, cx)) = (Some c, cx)" "answers (connect (Some c, cx)) = []" using connect by blast+
    have "m_cluster c \<noteq> 0" "list_all server_wf (m_servers c)" "length (m_servers c) \<le> max_reserve be_codec"
      "m_cluster c < u64_bound" "m_version c < u64_bound" using \<open>token \<noteq> 0\<close> token(2) c(2-4) by simp_all
    from coordinator_service.link_gets_config [OF service ob c(1) this] c(2-4)
    show "\<exists>st l. ensure_configuration R be_codec REPLICANT_GARBAGE (link_new (connect (Some c, cx))) = ret (True, st, l) \<and>
      c_cluster (lk_config l) = token \<and> c_version (lk_config l) = 1 \<and> c_servers (lk_config l) = []" by auto
  qed
  show ?thesis
    by (rule exI [of _ pre], rule exI [of _ ?str], rule exI [of _ c], rule exI [of _ cx], intro conjI)
      (rule args init c(2) eff none some)+
qed

text \<open>A shell in which everything succeeds, and the largest token, which is written as \<open>-1\<close>.\<close>

definition demo_shell :: shell_ops where
  "demo_shell = \<lparr>sh_exec_dir = ''/usr/lib'', sh_env = None, sh_self = None, sh_join = (\<lambda>a b. a @ ''/'' @ b),
     sh_dirname = (\<lambda>_. ''.''), sh_stat = (\<lambda>f. f = ''/usr/lib/libwtf-coordinator.so''), sh_isdir = (\<lambda>_. False),
     sh_setenv = True, sh_random = Some 18446744073709551615, sh_execvp = (\<lambda>_. True)\<rparr>"

theorem new_cluster_witness:
  "tool_coordinator demo_shell ''wtf'' [] = Exec [''replicant'', ''daemon'', ''--object'', ''wtf'', ''--library'',
     ''/usr/lib/libwtf-coordinator.so'', ''--init-string'', ''-1''] \<and>
   (\<exists>c cx st l. t_init counter_replicant be_codec (Some coordinator_new) (bytes_of_string ''-1'') zero_context = ret (Some c, cx) \<and>
     ensure_configuration service_ops be_codec REPLICANT_GARBAGE (link_new (memory_connect (Some c, cx))) = ret (True, st, l) \<and>
     c_cluster (lk_config l) = 18446744073709551615)"
proof -
  have one: "char_of (49 :: nat) = CHR ''1''" by code_simp
  have tool: "tool_coordinator demo_shell ''wtf'' [] = Exec [''replicant'', ''daemon'', ''--object'', ''wtf'', ''--library'',
     ''/usr/lib/libwtf-coordinator.so'', ''--init-string'', ''-1'']"
    by (simp add: tool_coordinator_def locate_coordinator_lib_def lib_paths_def lib_exts_def demo_shell_def token_buf_def
        show_long_def show_nat.simps Let_def one)
  have token: "sh_random demo_shell = Some 18446744073709551615" "(18446744073709551615 :: nat) < u64_bound"
    by (simp_all add: demo_shell_def)
  have cond: "\<forall>n. (\<lambda>c r. r c) n (\<lambda>_ :: string. 0 :: nat) = 0" by simp
  have connect: "sv_object (memory_connect ob) = ob \<and> sv_answers (memory_connect ob) = []" for ob by (simp add: memory_connect_def)
  from new_cluster [OF tool token counters.replicant_conditions_axioms cond memory_service.coordinator_service_axioms connect] tool
  show ?thesis unfolding zero_context_def by auto
qed

end
