(* ===== verification/Fuse.thy ===== *)
theory Fuse
  imports ClientOps
begin

text \<open>
  \<open>bindings/fuse/fusewtf.cc\<close>: the operations of a file system in user space, each a call of the client
  and its loop. \<open>fusewtf_release\<close> is written but not registered by \<open>main\<close>; the others that are not registered
  only return 0 and are left out, and so is what is printed. The client is the global \<open>w\<close>.

  The file handle of \<open>fuse_file_info\<close> has 64 bits without a sign. The variables a call of the client
  fills are fields of its operation, which is the last object the call has made. The C library's
  \<open>errno\<close> and \<open>getpwnam\<close>, and the function with which FUSE takes an entry of a directory, are
  parameters.
\<close>

unbundle bit_operations_syntax

definition fuse_replication :: u64 where
  "fuse_replication = 1"

definition fuse_block_length :: u64 where
  "fuse_block_length = 4096"

definition O_CREAT :: nat where
  "O_CREAT = 64"

definition O_WRONLY :: nat where
  "O_WRONLY = 1"

definition ENOENT :: int where
  "ENOENT = 2"

definition S_IFDIR :: nat where
  "S_IFDIR = 16384"

definition S_IFREG :: nat where
  "S_IFREG = 32768"

definition started_op :: "('r, 'e) client \<Rightarrow> op_ref" where
  "started_op s = cl_next_ref s - 1"

text \<open>A number of 64 bits as an \<open>int\<close> of 32.\<close>

definition c_int :: "nat \<Rightarrow> int" where
  "c_int n = (let m = n mod 4294967296 in if m < 2147483648 then int m else int m - 4294967296)"

section \<open>Files\<close>

text \<open>The result, the file handle and the state.\<close>

definition fusewtf_create ::
  "'e client_env \<Rightarrow> 'r replicant_ops \<Rightarrow> e_codec \<Rightarrow> string \<Rightarrow> u64 \<Rightarrow> ('r, 'e) client \<Rightarrow> (int \<times> u64 \<times> ('r, 'e) client) run" where
  "fusewtf_create V R E path mode s =
     run_bind (client_open V R E path O_CREAT mode fuse_replication fuse_block_length s) (\<lambda>(fh, reqid, st, s1).
       if reqid < 0 then ret (-1, fh, s1)
       else
         run_bind (client_loop V R E reqid (-1) s1) (\<lambda>(r, st, s2).
           if r < 0 then ret (-1, fh, s2) else ret (0, fh, s2)))"

text \<open>The loop is called whatever \<open>open\<close> returns, and no handle is negative.\<close>

definition fusewtf_open ::
  "'e client_env \<Rightarrow> 'r replicant_ops \<Rightarrow> e_codec \<Rightarrow> string \<Rightarrow> nat \<Rightarrow> ('r, 'e) client \<Rightarrow> (int \<times> u64 \<times> ('r, 'e) client) run" where
  "fusewtf_open V R E path flags s =
     run_bind (client_open V R E path flags 0 fuse_replication fuse_block_length s) (\<lambda>(fh, reqid, st, s1).
       run_bind (client_loop V R E reqid (-1) s1) (\<lambda>(r, lst, s2).
         if r < 0 then ret (-ENOENT, fh, s2) else ret (0, fh, s2)))"

text \<open>The offset is a parameter that is not used, here and for a write.\<close>

definition fusewtf_read ::
  "'e client_env \<Rightarrow> 'r replicant_ops \<Rightarrow> e_codec \<Rightarrow> u64 \<Rightarrow> u64 \<Rightarrow> int \<Rightarrow> ('r, 'e) client \<Rightarrow>
     (int \<times> byte list \<times> ('r, 'e) client) run" where
  "fusewtf_read V R E sz fh offset s =
     run_bind (client_read V R E (int_of_u64 fh) sz s) (\<lambda>(reqid, st, s1).
       if reqid < 0 then ret (-1, [], s1)
       else
         run_bind (client_loop V R E reqid (-1) s1) (\<lambda>(r, lst, s2).
           if r < 0 then ret (-1, [], s2)
           else
             (case po_kind (cl_ops s2 (started_op s1)) of
                Op_read rd \<Rightarrow> ret (c_int (pr_buf_sz rd), pr_buf rd, s2)
              | _ \<Rightarrow> lift_res (Inl Undefined))))"

definition fusewtf_write ::
  "'e client_env \<Rightarrow> 'r replicant_ops \<Rightarrow> e_codec \<Rightarrow> byte list \<Rightarrow> u64 \<Rightarrow> int \<Rightarrow> ('r, 'e) client \<Rightarrow> (int \<times> ('r, 'e) client) run" where
  "fusewtf_write V R E buf fh offset s =
     run_bind (client_write V E (int_of_u64 fh) buf s) (\<lambda>(reqid, st, s1).
       if reqid < 0 then ret (-1, s1)
       else
         run_bind (client_loop V R E reqid (-1) s1) (\<lambda>(r, lst, s2).
           ret (if r < 0 then -1 else c_int (length buf), s2)))"

text \<open>What \<open>truncate\<close> and \<open>ftruncate\<close> share: the loop is called whatever the client's \<open>truncate\<close> returns.\<close>

definition fusewtf_ftruncate ::
  "'e client_env \<Rightarrow> 'r replicant_ops \<Rightarrow> e_codec \<Rightarrow> u64 \<Rightarrow> u64 \<Rightarrow> ('r, 'e) client \<Rightarrow> (int \<times> ('r, 'e) client) run" where
  "fusewtf_ftruncate V R E len fh s =
     run_bind (client_truncate V R E (int_of_u64 fh) len s) (\<lambda>(reqid, st, s1).
       run_bind (client_loop V R E reqid (-1) s1) (\<lambda>(r, st, s2). ret (if r < 0 then -1 else 0, s2)))"

definition fusewtf_truncate ::
  "'e client_env \<Rightarrow> 'r replicant_ops \<Rightarrow> e_codec \<Rightarrow> string \<Rightarrow> u64 \<Rightarrow> ('r, 'e) client \<Rightarrow> (int \<times> ('r, 'e) client) run" where
  "fusewtf_truncate V R E path len s =
     run_bind (client_open V R E path O_WRONLY 0 fuse_replication fuse_block_length s) (\<lambda>(fd, reqid, st, s1).
       run_bind (client_loop V R E reqid (-1) s1) (\<lambda>(r, st, s2).
         if r < 0 then ret (-1, s2)
         else
           run_bind (fusewtf_ftruncate V R E len fd s2) (\<lambda>(r, s3).
             if r < 0 then ret (-1, s3)
             else run_bind (client_close V R E (int_of_u64 fd) s3) (\<lambda>(_, _, s4). ret (0, s4)))))"

definition fusewtf_release ::
  "'e client_env \<Rightarrow> 'r replicant_ops \<Rightarrow> e_codec \<Rightarrow> u64 \<Rightarrow> ('r, 'e) client \<Rightarrow> (int \<times> ('r, 'e) client) run" where
  "fusewtf_release V R E fh s =
     run_bind (client_close V R E (int_of_u64 fh) s) (\<lambda>(i, _, s1). ret (c_int (u64_of_int i), s1))"

section \<open>Directories and attributes\<close>

definition fusewtf_mkdir ::
  "'e client_env \<Rightarrow> 'r replicant_ops \<Rightarrow> e_codec \<Rightarrow> string \<Rightarrow> u64 \<Rightarrow> ('r, 'e) client \<Rightarrow> (int \<times> ('r, 'e) client) run" where
  "fusewtf_mkdir V R E path mode s =
     run_bind (lift_res (client_mkdir V path mode s)) (\<lambda>(i, st, s1).
       let reqid = c_int (u64_of_int i)
       in if reqid < 0 then ret (-1, s1)
          else run_bind (client_loop V R E reqid (-1) s1) (\<lambda>(r, lst, s2). ret (if r < 0 then -1 else 0, s2)))"

record stat =
  st_mode :: nat
  st_mtime :: u64
  st_nlink :: nat
  st_size :: u64
  st_uid :: nat
  st_gid :: nat

definition fill_stat :: "file_attrs \<Rightarrow> nat \<times> nat \<Rightarrow> stat" where
  "fill_stat fa p =
     \<lparr>st_mode = (if fa_is_dir fa then fa_mode fa OR S_IFDIR else fa_mode fa OR S_IFREG), st_mtime = fa_time fa,
      st_nlink = 1, st_size = fa_size fa, st_uid = fst p, st_gid = snd p\<rparr>"

text \<open>The attributes are unset when the operation has not stored them; a user with no entry is a null pointer.\<close>

definition fusewtf_getattr ::
  "'e client_env \<Rightarrow> 'r replicant_ops \<Rightarrow> e_codec \<Rightarrow> int \<Rightarrow> (string \<Rightarrow> (nat \<times> nat) option) \<Rightarrow> string \<Rightarrow> ('r, 'e) client \<Rightarrow>
     (int \<times> stat option \<times> ('r, 'e) client) run" where
  "fusewtf_getattr V R E errno getpwnam path s =
     run_bind (client_getattr V R E path s) (\<lambda>(reqid, st, s1).
       if reqid < 0 then ret (-errno, None, s1)
       else
         run_bind (client_loop V R E reqid (-1) s1) (\<lambda>(r, lst, s2).
           if r < 0 then ret (-errno, None, s2)
           else
             (let op = cl_ops s2 (started_op s1)
              in if po_status op = WTF_CLIENT_NOTFOUND then ret (-ENOENT, None, s2)
                 else
                   (case po_kind op of
                      Op_getattr _ (Some fa) \<Rightarrow>
                        (case getpwnam (fa_owner fa) of
                           None \<Rightarrow> lift_res (Inl Undefined)
                         | Some p \<Rightarrow> ret (0, Some (fill_stat fa p), s2))
                    | _ \<Rightarrow> lift_res (Inl Undefined)))))"

text \<open>The name an entry of the client's listing is shown under, \<open>None\<close> when it is left out.\<close>

definition entry_name :: "string \<Rightarrow> string \<Rightarrow> string option" where
  "entry_name abspath de =
     (if de = abspath \<or> de = '''' then None
      else
        (let e = (if hd de = CHR ''/'' then tl de else de)
         in if CHR ''/'' \<in> set e then None else Some e))"

partial_function (option) readdir_loop ::
  "'e client_env \<Rightarrow> 'r replicant_ops \<Rightarrow> e_codec \<Rightarrow> (string \<Rightarrow> 'f \<Rightarrow> bool \<times> 'f) \<Rightarrow> string \<Rightarrow> int \<Rightarrow> op_ref \<Rightarrow> 'f \<Rightarrow> ('r, 'e) client \<Rightarrow>
     ('f \<times> ('r, 'e) client) run" where
  "readdir_loop V R E filler abspath reqid p buf s =
     (case client_loop V R E reqid (-1) s of
        None \<Rightarrow> None
      | Some (Inl e) \<Rightarrow> Some (Inl e)
      | Some (Inr (r, st, s1)) \<Rightarrow>
          (if r \<le> -1 then Some (Inr (buf, s1))
           else
             (case po_kind (cl_ops s1 p) of
                Op_readdir _ _ (Some de) \<Rightarrow>
                  (case entry_name abspath de of
                     None \<Rightarrow> readdir_loop V R E filler abspath reqid p buf s1
                   | Some e \<Rightarrow>
                       (if fst (filler e buf) then Some (Inr (snd (filler e buf), s1))
                        else readdir_loop V R E filler abspath reqid p (snd (filler e buf)) s1))
              | _ \<Rightarrow> Some (Inl Undefined))))"

definition fusewtf_readdir ::
  "'e client_env \<Rightarrow> 'r replicant_ops \<Rightarrow> e_codec \<Rightarrow> (string \<Rightarrow> 'f \<Rightarrow> bool \<times> 'f) \<Rightarrow> string \<Rightarrow> 'f \<Rightarrow> ('r, 'e) client \<Rightarrow>
     (int \<times> 'f \<times> ('r, 'e) client) run" where
  "fusewtf_readdir V R E filler path buf s =
     run_bind (lift_res (client_readdir V path s)) (\<lambda>(reqid, st, s1).
       if reqid < 0 then ret (-1, buf, s1)
       else
         (let buf1 = snd (filler ''..'' (snd (filler ''.'' buf)))
          in run_bind (lift_res (abs_path path s1)) (\<lambda>r.
               case r of
                 None \<Rightarrow> lift_res (Inl Undefined)
               | Some abspath \<Rightarrow>
                   run_bind (readdir_loop V R E filler abspath reqid (started_op s1) buf1 s1) (\<lambda>(buf2, s2). ret (0, buf2, s2)))))"

end
