(* ===== verification/Namespace.thy ===== *)
theory Namespace
  imports WritePath Fuse IntervalMapCodec "HOL-Library.AList"
begin

text \<open>
  The names of files from end to end: what a user of the file system sees of the objects in HyperDex
  after an operation of FUSE has gone through the client, its loop and the answers.
\<close>

section \<open>HyperDex as a directory\<close>

text \<open>An answer: the number of the request, the status of the wait, that of the request, and the attributes.\<close>

type_synonym hd_answer = "int \<times> hyperdex_status \<times> hyperdex_status \<times> hd_attr list"

definition lists_object :: "hd_attr list \<Rightarrow> hd_object \<Rightarrow> bool" where
  "lists_object as obj \<longleftrightarrow> distinct (map fst as) \<and> map_of as = obj"

definition put_object :: "hd_object \<Rightarrow> string \<Rightarrow> hd_attr list \<Rightarrow> (string \<Rightarrow> hd_object option) \<Rightarrow> string \<Rightarrow> hd_object option" where
  "put_object blank path attrs st = st(path \<mapsto> put_attrs attrs (case st path of None \<Rightarrow> blank | Some obj \<Rightarrow> obj))"

text \<open>
  Requests are carried out at once, and their answers come in order. An attribute that was never put
  is empty. Integers have the order of bytes that undoes the client's conversion.
\<close>

locale directory_services =
  fixes V :: "'e client_env"
    and E :: e_codec
    and store :: "'e \<Rightarrow> string \<Rightarrow> hd_object option"
    and answers :: "'e \<Rightarrow> hd_answer list"
    and blank :: hd_object
  assumes external_result: "fst (ce_set_external V e) = BUSYBEE_SUCCESS"
    and external_frame: "e' = snd (ce_set_external V e) \<Longrightarrow> store e' = store e \<and> answers e' = answers e"
    and time_frame: "e' = snd (ce_time V e) \<Longrightarrow> store e' = store e \<and> answers e' = answers e"
    and recv_answer: "\<And>e t rc num m e'. answers e \<noteq> [] \<Longrightarrow> ce_recv V t e = ((rc, num, m), e') \<Longrightarrow>
      rc = BUSYBEE_EXTERNAL \<and> num = ce_hyperdex_fd V \<and> store e' = store e \<and> answers e' = answers e"
    and next_answer: "\<And>e a rest a' e'. answers e = a # rest \<Longrightarrow> ce_hyperdex_loop V e = (a', e') \<Longrightarrow>
      a' = a \<and> store e' = store e \<and> answers e' = rest"
    and put_call: "\<And>e path attrs r st e'. ce_hyperdex V (HD_put path attrs) e = ((r, st), e') \<Longrightarrow>
      0 \<le> r \<and> store e' = put_object blank path attrs (store e) \<and>
      answers e' = answers e @ [(r, HYPERDEX_CLIENT_SUCCESS, HYPERDEX_CLIENT_SUCCESS, [])]"
    and get_call: "\<And>e path r st e'. ce_hyperdex V (HD_get path) e = ((r, st), e') \<Longrightarrow>
      0 \<le> r \<and> store e' = store e \<and>
      (case store e path of
         None \<Rightarrow> answers e' = answers e @ [(r, HYPERDEX_CLIENT_SUCCESS, HYPERDEX_CLIENT_NOTFOUND, [])]
       | Some obj \<Rightarrow> \<exists>as. lists_object as obj \<and>
           answers e' = answers e @ [(r, HYPERDEX_CLIENT_SUCCESS, HYPERDEX_CLIENT_SUCCESS, as)])"
    and blank_empty: "blank a = Some v \<Longrightarrow> v = []"
    and int_attr: "n < u64_bound \<Longrightarrow> \<exists>x rest. up64 E (ce_int V n) = Some (x, rest) \<and> swap64 x = n"

section \<open>Rounds of the loop\<close>

text \<open>An operation \<open>p\<close> of the only caller waits for the answer to \<open>m\<close>.\<close>

definition waiting :: "op_ref \<Rightarrow> int \<Rightarrow> hd_message \<Rightarrow> ('r, 'e) client \<Rightarrow> bool" where
  "waiting p i m s \<longleftrightarrow> cl_pending_ops s = [] \<and> cl_failed s = [] \<and> cl_yieldable s = [] \<and> cl_yielding s = None \<and>
     map fst (cl_pending_hyperdex_ops s) = [u64_of_int (msg_reqid m)] \<and> snd (snd (hd (cl_pending_hyperdex_ops s))) = p \<and>
     po_outstanding_hyperdex (cl_ops s p) = [m] \<and> po_outstanding_wtf (cl_ops s p) = [] \<and>
     po_client_visible_id (cl_ops s p) = i \<and> \<not> po_done (cl_ops s p) \<and> 0 < i"

lemma maintain_quiet:
  assumes "quiet_link R E (cl_coord s)" and "fst (ce_set_external V (cl_env s)) = BUSYBEE_SUCCESS"
  shows "maintain_coord_connection V R E s = ret (None, s\<lparr>cl_env := snd (ce_set_external V (cl_env s))\<rparr>)"
  using assms by (auto simp: quiet_link_def maintain_coord_connection_def split_beta Let_def)

text \<open>An operation that neither writes nor lists is handed over once nothing is outstanding.\<close>

definition plain_kind :: "op_kind \<Rightarrow> bool" where
  "plain_kind k \<longleftrightarrow> (case k of Op_write _ \<Rightarrow> False | Op_readdir _ _ _ \<Rightarrow> False | _ \<Rightarrow> True)"

lemma loop_hands_over:
  assumes "cl_yielding s = Some p" and "plain_kind (po_kind (cl_ops s p))" and "aggregation_done (cl_ops s p)"
    and "\<not> po_done (cl_ops s p)" and "po_client_visible_id (cl_ops s p) = i"
  shows "loop_round V R E t i st s =
    ret (Leave (i, WTF_CLIENT_SUCCESS, (update_op p (\<lambda>op. op\<lparr>po_done := True\<rparr>) s)\<lparr>cl_yielding := None\<rparr>))"
  using assms
  by (cases "po_kind (cl_ops s p)")
    (simp_all add: loop_round_def loop_yielding_def op_yield_def op_can_yield_def client_id_of_def update_op_def plain_kind_def)

context directory_services
begin

text \<open>The next answer goes to the operation that waits for it.\<close>

lemma loop_takes:
  assumes q: "quiet_link R E (cl_coord s)"
    and w: "cl_pending_ops s = []" "cl_failed s = []" "cl_yieldable s = []" "cl_yielding s = None"
    and pend: "map_of (cl_pending_hyperdex_ops s) (u64_of_int r) = Some (x, p)"
    and a: "answers (cl_env s) = (r, hst, mst, as) # rest"
  shows "\<exists>e s'. s' = update_op p (deliver_hyperdex r mst as)
        (s\<lparr>cl_env := e, cl_pending_hyperdex_ops := m_erase (u64_of_int r) (cl_pending_hyperdex_ops s)\<rparr>) \<and>
    loop_round V R E t i st s = run_bind (op_handle_hyperdex_message V E p r hst s') (\<lambda>(ok, s1).
        ret (if ok then Again (0, st, after_message i p s1) else Leave (-1, st, s1))) \<and>
    store e = store (cl_env s) \<and> answers e = rest"
proof -
  define e1 where "e1 = snd (ce_set_external V (cl_env s))"
  define e2 where "e2 = snd (ce_set_external V e1)"
  have frame: "store e2 = store (cl_env s)" "answers e2 = answers (cl_env s)"
    using external_frame [OF e1_def] external_frame [OF e2_def] by simp_all
  obtain rc num msg e3 where recv: "ce_recv V t e2 = ((rc, num, msg), e3)" by (metis prod.exhaust)
  from recv_answer [OF _ recv] frame a have e3: "rc = BUSYBEE_EXTERNAL" "num = ce_hyperdex_fd V"
    "store e3 = store (cl_env s)" "answers e3 = answers (cl_env s)" by simp_all
  obtain a' e4 where loop: "ce_hyperdex_loop V e3 = (a', e4)" by fastforce
  from next_answer [OF _ loop] e3 a have e4: "a' = (r, hst, mst, as)" "store e4 = store (cl_env s)" "answers e4 = rest"
    by auto
  have ne: "cl_pending_hyperdex_ops s \<noteq> []" using pend by auto
  have m: "maintain_coord_connection V R E s = ret (None, s\<lparr>cl_env := e1\<rparr>)"
    unfolding e1_def by (rule maintain_quiet [OF q external_result])
  have "loop_round V R E t i st s = loop_receive V R E t i st s" using w ne by (simp add: loop_round_def)
  then have l: "loop_round V R E t i st s = loop_hyperdex V E i st (s\<lparr>cl_env := e3\<rparr>)"
    using m recv e3 ne by (simp add: loop_receive_def e2_def split_beta Let_def)
  let ?s = "update_op p (deliver_hyperdex r mst as)
    (s\<lparr>cl_env := e4, cl_pending_hyperdex_ops := m_erase (u64_of_int r) (cl_pending_hyperdex_ops s)\<rparr>)"
  have "loop_hyperdex V E i st (s\<lparr>cl_env := e3\<rparr>) =
      run_bind (op_handle_hyperdex_message V E p r hst ?s) (\<lambda>(ok, s1).
        ret (if ok then Again (0, st, after_message i p s1) else Leave (-1, st, s1)))"
    using loop e4 pend by (simp add: loop_hyperdex_def)
  with l e4 show ?thesis by (intro exI [of _ e4] exI [of _ ?s]) simp
qed

lemma loop_takes_answer:
  assumes q: "quiet_link R E (cl_coord s)" and w: "waiting p i m s"
    and a: "answers (cl_env s) = (msg_reqid m, hst, mst, as) # rest"
  shows "\<exists>e s'. s' = update_op p (\<lambda>op. op\<lparr>po_outstanding_hyperdex := [m\<lparr>msg_status := mst, msg_attrs := as\<rparr>]\<rparr>)
        (s\<lparr>cl_env := e, cl_pending_hyperdex_ops := []\<rparr>) \<and>
    loop_round V R E t i st s = run_bind (op_handle_hyperdex_message V E p (msg_reqid m) hst s') (\<lambda>(ok, s1).
        ret (if ok then Again (0, st, after_message i p s1) else Leave (-1, st, s1))) \<and>
    store e = store (cl_env s) \<and> answers e = rest"
proof -
  obtain x where pend: "cl_pending_hyperdex_ops s = [(u64_of_int (msg_reqid m), x, p)]" using w by (auto simp: waiting_def)
  have "map_of (cl_pending_hyperdex_ops s) (u64_of_int (msg_reqid m)) = Some (x, p)" using pend by simp
  from loop_takes [OF q _ _ _ _ this a, of t i st] w pend show ?thesis
    by (auto simp: waiting_def update_op_def deliver_hyperdex_def)
qed

text \<open>An operation that is done with its one answer.\<close>

lemma one_answer_to:
  assumes q: "quiet_link R E (cl_coord s)" and w: "waiting p i m s"
    and a: "answers (cl_env s) = [(msg_reqid m, hst, mst, as)]"
    and h: "\<And>e s'. s' = update_op p (\<lambda>op. op\<lparr>po_outstanding_hyperdex := [m\<lparr>msg_status := mst, msg_attrs := as\<rparr>]\<rparr>)
        (s\<lparr>cl_env := e, cl_pending_hyperdex_ops := []\<rparr>) \<Longrightarrow>
      op_handle_hyperdex_message V E p (msg_reqid m) hst s' = ret (True, update_op p (\<lambda>op. op\<lparr>po_kind := k, po_outstanding_hyperdex := [], po_status := x\<rparr>) (s'\<lparr>cl_files := fs, cl_cwd := d\<rparr>))"
    and k: "plain_kind k"
  shows "\<exists>e. client_loop V R E i t s = ret (i, WTF_CLIENT_SUCCESS,
      (update_op p (\<lambda>op. op\<lparr>po_kind := k, po_outstanding_hyperdex := [], po_status := x, po_done := True\<rparr>) s)
        \<lparr>cl_files := fs, cl_cwd := d, cl_env := e, cl_pending_hyperdex_ops := []\<rparr>) \<and> store e = store (cl_env s) \<and> answers e = []"
proof -
  from loop_takes_answer [OF q w a, of t WTF_CLIENT_SUCCESS] obtain e s' where
    s': "s' = update_op p (\<lambda>op. op\<lparr>po_outstanding_hyperdex := [m\<lparr>msg_status := mst, msg_attrs := as\<rparr>]\<rparr>)
        (s\<lparr>cl_env := e, cl_pending_hyperdex_ops := []\<rparr>)" and
    r: "loop_round V R E t i WTF_CLIENT_SUCCESS s = run_bind (op_handle_hyperdex_message V E p (msg_reqid m) hst s') (\<lambda>(ok, s1).
        ret (if ok then Again (0, WTF_CLIENT_SUCCESS, after_message i p s1) else Leave (-1, WTF_CLIENT_SUCCESS, s1)))"
    and e: "store e = store (cl_env s)" "answers e = []" by blast
  let ?op = "(cl_ops s p)\<lparr>po_kind := k, po_outstanding_hyperdex := [], po_status := x\<rparr>"
  let ?s2 = "s\<lparr>cl_env := e, cl_pending_hyperdex_ops := [], cl_files := fs, cl_cwd := d, cl_ops := (cl_ops s)(p := ?op), cl_yielding := Some p\<rparr>"
  have "after_message i p (update_op p (\<lambda>op. op\<lparr>po_kind := k, po_outstanding_hyperdex := [], po_status := x\<rparr>) (s'\<lparr>cl_files := fs, cl_cwd := d\<rparr>)) = ?s2"
    using w unfolding s' by (simp add: after_message_def client_id_of_def update_op_def waiting_def)
  then have r1: "loop_round V R E t i WTF_CLIENT_SUCCESS s = ret (Again (0, WTF_CLIENT_SUCCESS, ?s2))"
    unfolding r h [OF s'] by simp
  have "loop_round V R E t i WTF_CLIENT_SUCCESS ?s2 =
      ret (Leave (i, WTF_CLIENT_SUCCESS, (update_op p (\<lambda>op. op\<lparr>po_done := True\<rparr>) ?s2)\<lparr>cl_yielding := None\<rparr>))"
    by (rule loop_hands_over) (use w k in \<open>simp_all add: aggregation_done_def waiting_def\<close>)
  moreover have "(update_op p (\<lambda>op. op\<lparr>po_done := True\<rparr>) ?s2)\<lparr>cl_yielding := None\<rparr> =
      (update_op p (\<lambda>op. op\<lparr>po_kind := k, po_outstanding_hyperdex := [], po_status := x, po_done := True\<rparr>) s)
        \<lparr>cl_files := fs, cl_cwd := d, cl_env := e, cl_pending_hyperdex_ops := []\<rparr>"
    using w by (simp add: update_op_def waiting_def)
  ultimately have "client_loop V R E i t s = ret (i, WTF_CLIENT_SUCCESS,
      (update_op p (\<lambda>op. op\<lparr>po_kind := k, po_outstanding_hyperdex := [], po_status := x, po_done := True\<rparr>) s)
        \<lparr>cl_files := fs, cl_cwd := d, cl_env := e, cl_pending_hyperdex_ops := []\<rparr>)"
    unfolding client_loop_def inner_loop_def using loop_rounds_again [OF r1] by (simp add: loop_rounds_leave)
  with e show ?thesis by blast
qed

lemma one_answer:
  assumes q: "quiet_link R E (cl_coord s)" and w: "waiting p i m s"
    and a: "answers (cl_env s) = [(msg_reqid m, hst, mst, as)]"
    and h: "\<And>e s'. s' = update_op p (\<lambda>op. op\<lparr>po_outstanding_hyperdex := [m\<lparr>msg_status := mst, msg_attrs := as\<rparr>]\<rparr>)
        (s\<lparr>cl_env := e, cl_pending_hyperdex_ops := []\<rparr>) \<Longrightarrow>
      op_handle_hyperdex_message V E p (msg_reqid m) hst s' = ret (True, update_op p (\<lambda>op. op\<lparr>po_kind := k, po_outstanding_hyperdex := [], po_status := x\<rparr>) (s'\<lparr>cl_files := fs\<rparr>))"
    and k: "plain_kind k"
  shows "\<exists>e. client_loop V R E i t s = ret (i, WTF_CLIENT_SUCCESS,
      (update_op p (\<lambda>op. op\<lparr>po_kind := k, po_outstanding_hyperdex := [], po_status := x, po_done := True\<rparr>) s)
        \<lparr>cl_files := fs, cl_env := e, cl_pending_hyperdex_ops := []\<rparr>) \<and> store e = store (cl_env s) \<and> answers e = []"
proof -
  have "\<exists>e. client_loop V R E i t s = ret (i, WTF_CLIENT_SUCCESS,
      (update_op p (\<lambda>op. op\<lparr>po_kind := k, po_outstanding_hyperdex := [], po_status := x, po_done := True\<rparr>) s)
        \<lparr>cl_files := fs, cl_cwd := cl_cwd s, cl_env := e, cl_pending_hyperdex_ops := []\<rparr>) \<and> store e = store (cl_env s) \<and> answers e = []"
    by (rule one_answer_to [OF q w a _ k]) (use h in \<open>simp add: update_op_def\<close>)
  then show ?thesis by (simp add: update_op_def)
qed

end

section \<open>Attributes\<close>

text \<open>What \<open>getattr\<close> makes of the attributes of an object, in whatever order they come.\<close>

definition attr_or :: "'a \<Rightarrow> (byte list \<Rightarrow> 'a) \<Rightarrow> hd_object \<Rightarrow> string \<Rightarrow> 'a" where
  "attr_or x g obj a = (case obj a of None \<Rightarrow> x | Some v \<Rightarrow> g v)"

definition attr_int :: "e_codec \<Rightarrow> byte list \<Rightarrow> u64" where
  "attr_int E v = swap64 (case up64 E v of None \<Rightarrow> 0 | Some (x, _) \<Rightarrow> x)"

lemma attr_or_simps [simp]:
  "attr_or x g Map.empty a = x"
  "attr_or x g (\<lambda>c. if c = a then Some v else m c) a = g v"
  by (simp_all add: attr_or_def)

lemma attr_or_other: "k \<noteq> a \<Longrightarrow> attr_or x g (\<lambda>c. if c = k then Some v else m c) a = attr_or x g m a"
  by (simp add: attr_or_def)

lemma attr_or_new: "m a = None \<Longrightarrow> attr_or x g m a = x"
  by (simp add: attr_or_def)

lemma parse_all_attrs:
  assumes "distinct (map fst as)" and "\<And>v. map_of as ''directory'' = Some v \<Longrightarrow> up64 E v \<noteq> None"
    and "\<And>v f. map_of as ''blockmap'' = Some v \<Longrightarrow> v \<noteq> [] \<Longrightarrow>
      unpack_file E v f = Inr (f\<lparr>fl_replicas := n, fl_block_size := b, fl_block_map := m\<rparr>)"
  shows "\<exists>f'. parse_metadata_all E as f = Inr f' \<and> fl_flags f' = fl_flags f \<and>
    fl_owner f' = attr_or (fl_owner f) string_of_bytes (map_of as) ''owner'' \<and>
    fl_group f' = attr_or (fl_group f) string_of_bytes (map_of as) ''group'' \<and>
    fl_mode f' = attr_or (fl_mode f) (attr_int E) (map_of as) ''mode'' \<and>
    fl_time f' = attr_or (fl_time f) (\<lambda>v. Some (attr_int E v)) (map_of as) ''time'' \<and>
    fl_is_directory f' = attr_or (fl_is_directory f) (\<lambda>v. attr_int E v \<noteq> 0) (map_of as) ''directory'' \<and>
    fl_block_map f' = attr_or (fl_block_map f) (\<lambda>v. if v = [] then fl_block_map f else m) (map_of as) ''blockmap''"
  using assms
proof (induction "as" arbitrary: f)
  case (Cons a as)
  obtain k v where a: "a = (k, v)" by (cases a)
  have new: "map_of as k = None" using Cons.prems(1) a by (simp add: map_of_eq_None_iff)
  have IH: "\<exists>f'. parse_metadata_all E as g = Inr f' \<and> fl_flags f' = fl_flags g \<and>
      fl_owner f' = attr_or (fl_owner g) string_of_bytes (map_of as) ''owner'' \<and>
      fl_group f' = attr_or (fl_group g) string_of_bytes (map_of as) ''group'' \<and>
      fl_mode f' = attr_or (fl_mode g) (attr_int E) (map_of as) ''mode'' \<and>
      fl_time f' = attr_or (fl_time g) (\<lambda>v. Some (attr_int E v)) (map_of as) ''time'' \<and>
      fl_is_directory f' = attr_or (fl_is_directory g) (\<lambda>v. attr_int E v \<noteq> 0) (map_of as) ''directory'' \<and>
      fl_block_map f' = attr_or (fl_block_map g) (\<lambda>v. if v = [] then fl_block_map g else m) (map_of as) ''blockmap''" for g
  proof (rule Cons.IH)
    show "distinct (map fst as)" using Cons.prems(1) by simp
    show "up64 E v' \<noteq> None" if "map_of as ''directory'' = Some v'" for v'
      using Cons.prems(2) [of v'] that new a by (cases "k = ''directory''") auto
    show "unpack_file E v' f = Inr (f\<lparr>fl_replicas := n, fl_block_size := b, fl_block_map := m\<rparr>)"
      if "map_of as ''blockmap'' = Some v'" "v' \<noteq> []" for v' f
      using Cons.prems(3) [of v' f] that new a by (cases "k = ''blockmap''") auto
  qed
  have step: "\<exists>f'. parse_metadata_all E (a # as) f = Inr f' \<and> P f'"
    if "parse_attr_all E (k, v) f = Inr g" and "\<And>f'. parse_metadata_all E as g = Inr f' \<Longrightarrow> fl_flags f' = fl_flags g \<Longrightarrow>
      fl_owner f' = attr_or (fl_owner g) string_of_bytes (map_of as) ''owner'' \<Longrightarrow>
      fl_group f' = attr_or (fl_group g) string_of_bytes (map_of as) ''group'' \<Longrightarrow>
      fl_mode f' = attr_or (fl_mode g) (attr_int E) (map_of as) ''mode'' \<Longrightarrow>
      fl_time f' = attr_or (fl_time g) (\<lambda>v. Some (attr_int E v)) (map_of as) ''time'' \<Longrightarrow>
      fl_is_directory f' = attr_or (fl_is_directory g) (\<lambda>v. attr_int E v \<noteq> 0) (map_of as) ''directory'' \<Longrightarrow>
      fl_block_map f' = attr_or (fl_block_map g) (\<lambda>v. if v = [] then fl_block_map g else m) (map_of as) ''blockmap'' \<Longrightarrow> P f'" for P g
  proof -
    from IH [of g] obtain f' where f': "parse_metadata_all E as g = Inr f'" "fl_flags f' = fl_flags g"
      "fl_owner f' = attr_or (fl_owner g) string_of_bytes (map_of as) ''owner''"
      "fl_group f' = attr_or (fl_group g) string_of_bytes (map_of as) ''group''"
      "fl_mode f' = attr_or (fl_mode g) (attr_int E) (map_of as) ''mode''"
      "fl_time f' = attr_or (fl_time g) (\<lambda>v. Some (attr_int E v)) (map_of as) ''time''"
      "fl_is_directory f' = attr_or (fl_is_directory g) (\<lambda>v. attr_int E v \<noteq> 0) (map_of as) ''directory''"
      "fl_block_map f' = attr_or (fl_block_map g) (\<lambda>v. if v = [] then fl_block_map g else m) (map_of as) ''blockmap''"
      by blast
    have "parse_metadata_all E (a # as) f = Inr f'"
      unfolding a parse_metadata_all.simps that(1) rbind_simps by (rule f'(1))
    from conjI [OF this that(2) [OF f']] show ?thesis by (rule exI)
  qed
  consider "k = ''owner''" | "k = ''group''" | "k = ''time''" | "k = ''mode''" | "k = ''directory''" | "k = ''blockmap''"
    | "k \<noteq> ''owner'' \<and> k \<noteq> ''group'' \<and> k \<noteq> ''time'' \<and> k \<noteq> ''mode'' \<and> k \<noteq> ''directory'' \<and> k \<noteq> ''blockmap''" by argo
  then show ?case
  proof cases
    case 1
    show ?thesis
      by (rule step [of "f\<lparr>fl_owner := string_of_bytes v\<rparr>"]) (use 1 new in \<open>simp_all add: attr_or_new attr_or_other parse_attr_all_def a cong: if_cong\<close>)
  next
    case 2
    show ?thesis
      by (rule step [of "f\<lparr>fl_group := string_of_bytes v\<rparr>"]) (use 2 new in \<open>simp_all add: attr_or_new attr_or_other parse_attr_all_def a cong: if_cong\<close>)
  next
    case 3
    then have "parse_attr_all E (k, v) f = Inr (f\<lparr>fl_time := Some (attr_int E v)\<rparr>)"
      by (simp add: parse_attr_all_def attr_int_def split: option.splits)
    then show ?thesis by (rule step) (use 3 new in \<open>simp_all add: attr_or_new attr_or_other a cong: if_cong\<close>)
  next
    case 4
    then have "parse_attr_all E (k, v) f = Inr (f\<lparr>fl_mode := attr_int E v\<rparr>)"
      by (simp add: parse_attr_all_def attr_int_def split: option.splits)
    then show ?thesis by (rule step) (use 4 new in \<open>simp_all add: attr_or_new attr_or_other a cong: if_cong\<close>)
  next
    case 5
    then obtain x r where "up64 E v = Some (x, r)" using Cons.prems(2) [of v] a by auto
    then have "parse_attr_all E (k, v) f = Inr (f\<lparr>fl_is_directory := (attr_int E v \<noteq> 0)\<rparr>)"
      using 5 by (simp add: parse_attr_all_def parse_attr_def attr_u64_def attr_int_def)
    then show ?thesis by (rule step) (use 5 new in \<open>simp_all add: attr_or_new attr_or_other a cong: if_cong\<close>)
  next
    case 6
    let ?g = "if v = [] then f else f\<lparr>fl_replicas := n, fl_block_size := b, fl_block_map := m\<rparr>"
    have "parse_attr_all E (k, v) f = Inr ?g"
      using 6 Cons.prems(3) [of v f] a by (simp add: parse_attr_all_def parse_attr_def)
    then show ?thesis by (rule step) (use 6 new in \<open>simp_all add: attr_or_new attr_or_other a cong: if_cong\<close>)
  next
    case 7
    show ?thesis
      by (rule step [of f]) (use 7 in \<open>simp_all add: parse_attr_all_def parse_attr_def a attr_or_other cong: if_cong\<close>)
  qed
qed simp

section \<open>Starting an operation\<close>

lemma canon_of: "abs_path path s = Inr (Some abspath) \<Longrightarrow> with_path path f s = Inr (f abspath s)"
  by (simp add: with_path_def)

text \<open>A new operation on an idle client, with its request.\<close>

definition launched :: "'e client_env \<Rightarrow> int \<Rightarrow> op_kind \<Rightarrow> hd_message \<Rightarrow> 'e \<Rightarrow> ('r, 'e) client \<Rightarrow> ('r, 'e) client" where
  "launched V i k m e s = s\<lparr>cl_env := e,
     cl_pending_hyperdex_ops := [(u64_of_int (msg_reqid m), ce_hyperdex_fd V, cl_next_ref s)],
     cl_ops := (cl_ops s)(cl_next_ref s := (op_new i k)\<lparr>po_outstanding_hyperdex := [m]\<rparr>), cl_next_ref := Suc (cl_next_ref s)\<rparr>"

lemma send_launches:
  assumes "idle_client s" and "ce_hyperdex V call (cl_env s) = ((r, st), e)" and "0 \<le> r"
  shows "snd (send_hyperdex V call (cl_next_ref s) (s\<lparr>cl_ops := (cl_ops s)(cl_next_ref s := op_new i k), cl_next_ref := Suc (cl_next_ref s)\<rparr>)) =
    launched V i k \<lparr>msg_reqid = r, msg_call = call, msg_status = st, msg_attrs = []\<rparr> e s"
  using assms
  by (simp add: send_hyperdex_def launched_def update_op_def handle_sent_to_hyperdex_def add_hyperdex_op_def idle_client_def op_new_def)

lemma launched_waiting:
  "idle_client s \<Longrightarrow> 0 < i \<Longrightarrow> waiting (cl_next_ref s) i m (launched V i k m e s)"
  by (simp add: waiting_def launched_def idle_client_def op_new_def)

text \<open>What an operation on names leaves: an idle client with the same files and the same link.\<close>

definition settled :: "('r, 'e) client \<Rightarrow> ('r, 'e) client \<Rightarrow> bool" where
  "settled s s' \<longleftrightarrow> idle_client s' \<and> cl_coord s' = cl_coord s \<and> cl_cwd s' = cl_cwd s \<and> cl_fds s' = cl_fds s \<and>
     cl_files s' = cl_files s \<and> cl_next_client_id s' = cl_next_client_id s"

context directory_services
begin

text \<open>An operation that puts attributes.\<close>

lemma put_completes:
  assumes idle: "idle_client s" "0 < i" "answers (cl_env s) = []" and q: "quiet_link R E (cl_coord s)"
    and call: "ce_hyperdex V (HD_put path attrs) (cl_env s) = ((r, st), e)"
    and k: "k = Op_mkdir dir mode \<or> k = Op_chmod dir mode \<or> k = Op_creat fr"
  shows "\<exists>s1. client_loop V R E i t (launched V i k \<lparr>msg_reqid = r, msg_call = HD_put path attrs, msg_status = st, msg_attrs = []\<rparr> e s) =
      ret (i, WTF_CLIENT_SUCCESS, s1) \<and> settled s s1 \<and>
      store (cl_env s1) = put_object blank path attrs (store (cl_env s)) \<and> answers (cl_env s1) = []"
proof -
  let ?m = "\<lparr>msg_reqid = r, msg_call = HD_put path attrs, msg_status = st, msg_attrs = []\<rparr>"
  let ?l = "launched V i k ?m e s"
  from put_call [OF call] idle(3) have e: "store e = put_object blank path attrs (store (cl_env s))"
    "answers e = [(r, HYPERDEX_CLIENT_SUCCESS, HYPERDEX_CLIENT_SUCCESS, [])]" by simp_all
  have "\<exists>e'. client_loop V R E i t ?l = ret (i, WTF_CLIENT_SUCCESS,
      (update_op (cl_next_ref s) (\<lambda>op. op\<lparr>po_kind := k, po_outstanding_hyperdex := [], po_status := WTF_CLIENT_SUCCESS, po_done := True\<rparr>) ?l)
        \<lparr>cl_files := cl_files s, cl_env := e', cl_pending_hyperdex_ops := []\<rparr>) \<and> store e' = store (cl_env ?l) \<and> answers e' = []"
  proof (rule one_answer [OF _ launched_waiting [OF idle(1,2)]])
    show "answers (cl_env ?l) = [(msg_reqid ?m, HYPERDEX_CLIENT_SUCCESS, HYPERDEX_CLIENT_SUCCESS, [])]"
      using e by (simp add: launched_def)
    show "plain_kind k" using k by (auto simp: plain_kind_def)
  qed (use q k in \<open>auto simp: launched_def op_handle_hyperdex_message_def put_handle_hyperdex_message_def update_op_def op_new_def
      remove_hyperdex_message_def\<close>)
  then show ?thesis using e idle(1) by (auto simp: launched_def idle_client_def update_op_def settled_def)
qed

text \<open>An operation that asks for the attributes of an object.\<close>

lemma getattr_completes:
  assumes idle: "idle_client s" "0 < i" "answers (cl_env s) = []" and q: "quiet_link R E (cl_coord s)"
    and call: "ce_hyperdex V (HD_get path) (cl_env s) = ((r, st), e)" and obj: "store (cl_env s) path = Some obj"
    and fa: "\<And>as. lists_object as obj \<Longrightarrow> \<exists>f. parse_metadata_all E as (file_new '''' 0 0) = Inr f \<and> fill_attrs f = Inr fa"
  shows "\<exists>s1. client_loop V R E i t (launched V i (Op_getattr path None) \<lparr>msg_reqid = r, msg_call = HD_get path, msg_status = st, msg_attrs = []\<rparr> e s) =
      ret (i, WTF_CLIENT_SUCCESS, s1) \<and> settled s s1 \<and> store (cl_env s1) = store (cl_env s) \<and> answers (cl_env s1) = [] \<and>
      po_kind (cl_ops s1 (cl_next_ref s)) = Op_getattr path (Some fa) \<and> po_status (cl_ops s1 (cl_next_ref s)) = WTF_CLIENT_SUCCESS"
proof -
  let ?m = "\<lparr>msg_reqid = r, msg_call = HD_get path, msg_status = st, msg_attrs = []\<rparr>"
  let ?l = "launched V i (Op_getattr path None) ?m e s"
  from get_call [OF call] idle(3) obj obtain "as" where e: "store e = store (cl_env s)" "lists_object as obj"
    "answers e = [(r, HYPERDEX_CLIENT_SUCCESS, HYPERDEX_CLIENT_SUCCESS, as)]" by auto
  from fa [OF e(2)] obtain f where f: "parse_metadata_all E as (file_new '''' 0 0) = Inr f" "fill_attrs f = Inr fa" by blast
  have "\<exists>e'. client_loop V R E i t ?l = ret (i, WTF_CLIENT_SUCCESS,
      (update_op (cl_next_ref s) (\<lambda>op. op\<lparr>po_kind := Op_getattr path (Some fa), po_outstanding_hyperdex := [], po_status := WTF_CLIENT_SUCCESS, po_done := True\<rparr>) ?l)
        \<lparr>cl_files := cl_files s, cl_env := e', cl_pending_hyperdex_ops := []\<rparr>) \<and> store e' = store (cl_env ?l) \<and> answers e' = []"
  proof (rule one_answer [OF _ launched_waiting [OF idle(1,2)]])
    show "answers (cl_env ?l) = [(msg_reqid ?m, HYPERDEX_CLIENT_SUCCESS, HYPERDEX_CLIENT_SUCCESS, as)]"
      using e by (simp add: launched_def)
  qed (use q f in \<open>auto simp: launched_def op_handle_hyperdex_message_def getattr_handle_hyperdex_message_def update_op_def op_new_def
      remove_hyperdex_message_def first_message_def is_get_def plain_kind_def\<close>)
  then show ?thesis using e idle(1) by (auto simp: launched_def idle_client_def update_op_def settled_def)
qed

end

section \<open>Operations of the file system\<close>

lemma c_int_small: "0 < i \<Longrightarrow> i < 2147483648 \<Longrightarrow> c_int (u64_of_int i) = i"
  by (simp add: c_int_def u64_of_int_def Let_def)

lemma mkdir_launches:
  assumes "idle_client s" and "abs_path path s = Inr (Some abspath)" and "ce_time V (cl_env s) = (now, e1)"
    and "ce_hyperdex V (HD_put abspath (mkdir_attrs V mode now)) e1 = ((r, st), e)" and "0 \<le> r"
  shows "client_mkdir V path mode s = Inr (cl_next_client_id s, Some WTF_CLIENT_SUCCESS,
    launched V (cl_next_client_id s) (Op_mkdir abspath mode)
      \<lparr>msg_reqid = r, msg_call = HD_put abspath (mkdir_attrs V mode now), msg_status = st, msg_attrs = []\<rparr> e
      (s\<lparr>cl_next_client_id := cl_next_client_id s + 1, cl_env := e1\<rparr>))"
proof -
  let ?i = "cl_next_client_id s" and ?k = "Op_mkdir abspath mode"
  let ?s = "s\<lparr>cl_next_client_id := cl_next_client_id s + 1, cl_env := e1\<rparr>"
  have idle: "idle_client ?s" using assms(1) by (simp add: idle_client_def)
  have eq: "s\<lparr>cl_next_client_id := ?i + 1, cl_ops := (cl_ops s)(cl_next_ref s := op_new ?i ?k), cl_next_ref := Suc (cl_next_ref s), cl_env := e1\<rparr> =
      ?s\<lparr>cl_ops := (cl_ops ?s)(cl_next_ref ?s := op_new ?i ?k), cl_next_ref := Suc (cl_next_ref ?s)\<rparr>"
    by (rule client.equality) simp_all
  have "client_mkdir V path mode s = Inr (started ?i (cl_next_ref ?s) (snd (send_hyperdex V (HD_put abspath (mkdir_attrs V mode now)) (cl_next_ref ?s)
      (s\<lparr>cl_next_client_id := ?i + 1, cl_ops := (cl_ops s)(cl_next_ref s := op_new ?i ?k), cl_next_ref := Suc (cl_next_ref s), cl_env := e1\<rparr>))))"
    using assms(2,3) by (simp add: client_mkdir_def canon_of next_client_id_def new_op_def mkdir_try_op_def Let_def)
  also have "\<dots> = Inr (started ?i (cl_next_ref ?s)
      (launched V ?i ?k \<lparr>msg_reqid = r, msg_call = HD_put abspath (mkdir_attrs V mode now), msg_status = st, msg_attrs = []\<rparr> e ?s))"
    unfolding eq by (subst send_launches [OF idle]) (use assms in simp_all)
  finally show ?thesis by (simp add: started_def launched_def op_new_def)
qed

lemma getattr_launches:
  assumes "idle_client s" and "abs_path path s = Inr (Some abspath)"
    and "quiet_link R E (cl_coord s)" "fst (ce_set_external V (cl_env s)) = BUSYBEE_SUCCESS"
    and "ce_hyperdex V (HD_get abspath) (snd (ce_set_external V (cl_env s))) = ((r, st), e)" and "0 \<le> r"
  shows "client_getattr V R E path s = ret (cl_next_client_id s, Some WTF_CLIENT_SUCCESS,
    launched V (cl_next_client_id s) (Op_getattr abspath None)
      \<lparr>msg_reqid = r, msg_call = HD_get abspath, msg_status = st, msg_attrs = []\<rparr> e
      (s\<lparr>cl_next_client_id := cl_next_client_id s + 1, cl_env := snd (ce_set_external V (cl_env s))\<rparr>))"
proof -
  let ?i = "cl_next_client_id s" and ?k = "Op_getattr abspath None" and ?e = "snd (ce_set_external V (cl_env s))"
  let ?s = "s\<lparr>cl_next_client_id := cl_next_client_id s + 1, cl_env := ?e\<rparr>"
  have idle: "idle_client ?s" using assms(1) by (simp add: idle_client_def)
  have m: "maintain_coord_connection V R E (s\<lparr>cl_next_client_id := cl_next_client_id s + 1\<rparr>) = ret (None, ?s)"
    using maintain_quiet [of R E "s\<lparr>cl_next_client_id := cl_next_client_id s + 1\<rparr>" V] assms(3,4) by simp
  have p: "abs_path path ?s = Inr (Some abspath)" using assms(2) by (simp add: abs_path_def)
  have "snd (send_hyperdex V (HD_get abspath) (cl_next_ref ?s)
      (?s\<lparr>cl_ops := (cl_ops ?s)(cl_next_ref ?s := op_new ?i ?k), cl_next_ref := Suc (cl_next_ref ?s)\<rparr>)) =
    launched V ?i ?k \<lparr>msg_reqid = r, msg_call = HD_get abspath, msg_status = st, msg_attrs = []\<rparr> e ?s"
    by (rule send_launches [OF idle]) (use assms in simp_all)
  then show ?thesis
    using m p canon_of [OF p]
    by (simp add: client_getattr_def next_client_id_def new_op_def started_def getattr_try_op_def launched_def op_new_def Let_def)
qed

context directory_services
begin

lemma fuse_mkdir_done:
  assumes idle: "idle_client s" "answers (cl_env s) = []" and i: "0 < cl_next_client_id s" "cl_next_client_id s < 2147483648"
    and q: "quiet_link R E (cl_coord s)" and p: "abs_path path s = Inr (Some abspath)"
  shows "\<exists>s1. fusewtf_mkdir V R E path mode s = ret (0, s1) \<and>
    settled (s\<lparr>cl_next_client_id := cl_next_client_id s + 1\<rparr>) s1 \<and> answers (cl_env s1) = [] \<and>
    store (cl_env s1) = put_object blank abspath (mkdir_attrs V mode (fst (ce_time V (cl_env s)))) (store (cl_env s))"
proof -
  let ?i = "cl_next_client_id s"
  obtain now e1 where e1: "ce_time V (cl_env s) = (now, e1)" by fastforce
  have f1: "store e1 = store (cl_env s)" "answers e1 = []" using time_frame [of e1 "cl_env s"] e1 idle(2) by simp_all
  obtain r st e where e: "ce_hyperdex V (HD_put abspath (mkdir_attrs V mode now)) e1 = ((r, st), e)" by (metis prod.collapse)
  let ?s = "s\<lparr>cl_next_client_id := ?i + 1, cl_env := e1\<rparr>"
  have l: "client_mkdir V path mode s = Inr (?i, Some WTF_CLIENT_SUCCESS, launched V ?i (Op_mkdir abspath mode)
      \<lparr>msg_reqid = r, msg_call = HD_put abspath (mkdir_attrs V mode now), msg_status = st, msg_attrs = []\<rparr> e ?s)"
    by (rule mkdir_launches [OF idle(1) p e1 e]) (use put_call [OF e] in blast)
  have "idle_client ?s" using idle(1) by (simp add: idle_client_def)
  from put_completes [OF this i(1), of R abspath "mkdir_attrs V mode now" r st e "Op_mkdir abspath mode" abspath mode _ "-1"]
  show ?thesis using l e e1 f1 q i by (auto simp: fusewtf_mkdir_def c_int_small settled_def)
qed

lemma fuse_getattr_answers:
  assumes idle: "idle_client s" "answers (cl_env s) = []" and i: "0 < cl_next_client_id s"
    and q: "quiet_link R E (cl_coord s)" and p: "abs_path path s = Inr (Some abspath)"
    and obj: "store (cl_env s) abspath = Some obj"
    and fa: "\<And>as. lists_object as obj \<Longrightarrow> \<exists>f. parse_metadata_all E as (file_new '''' 0 0) = Inr f \<and> fill_attrs f = Inr fa"
  shows "\<exists>s1. fusewtf_getattr V R E errno getpwnam path s =
      (case getpwnam (fa_owner fa) of None \<Rightarrow> lift_res (Inl Undefined) | Some pw \<Rightarrow> ret (0, Some (fill_stat fa pw), s1)) \<and>
    settled (s\<lparr>cl_next_client_id := cl_next_client_id s + 1\<rparr>) s1 \<and> answers (cl_env s1) = [] \<and> store (cl_env s1) = store (cl_env s)"
proof -
  let ?i = "cl_next_client_id s" and ?e = "snd (ce_set_external V (cl_env s))"
  have f1: "store ?e = store (cl_env s)" "answers ?e = []" using external_frame [of ?e "cl_env s"] idle(2) by simp_all
  obtain r st e where e: "ce_hyperdex V (HD_get abspath) ?e = ((r, st), e)" by (metis prod.collapse)
  let ?s = "s\<lparr>cl_next_client_id := ?i + 1, cl_env := ?e\<rparr>"
  have l: "client_getattr V R E path s = ret (?i, Some WTF_CLIENT_SUCCESS, launched V ?i (Op_getattr abspath None)
      \<lparr>msg_reqid = r, msg_call = HD_get abspath, msg_status = st, msg_attrs = []\<rparr> e ?s)"
    by (rule getattr_launches [OF idle(1) p q external_result e]) (use get_call [OF e] in blast)
  have "idle_client ?s" using idle(1) by (simp add: idle_client_def)
  from getattr_completes [OF this i, of R abspath r st e obj fa "-1"] fa obj f1 q e
  obtain s1 where "client_loop V R E ?i (-1) (launched V ?i (Op_getattr abspath None)
      \<lparr>msg_reqid = r, msg_call = HD_get abspath, msg_status = st, msg_attrs = []\<rparr> e ?s) = ret (?i, WTF_CLIENT_SUCCESS, s1)"
    "settled ?s s1" "store (cl_env s1) = store (cl_env s)" "answers (cl_env s1) = []"
    "po_kind (cl_ops s1 (cl_next_ref s)) = Op_getattr abspath (Some fa)" "po_status (cl_ops s1 (cl_next_ref s)) = WTF_CLIENT_SUCCESS"
    by auto
  then show ?thesis using l i by (intro exI [of _ s1]) (simp add: fusewtf_getattr_def started_op_def launched_def settled_def)
qed

lemma fuse_getattr_done:
  assumes idle: "idle_client s" "answers (cl_env s) = []" and i: "0 < cl_next_client_id s"
    and q: "quiet_link R E (cl_coord s)" and p: "abs_path path s = Inr (Some abspath)"
    and obj: "store (cl_env s) abspath = Some obj"
    and fa: "\<And>as. lists_object as obj \<Longrightarrow> \<exists>f. parse_metadata_all E as (file_new '''' 0 0) = Inr f \<and> fill_attrs f = Inr fa"
    and pw: "getpwnam (fa_owner fa) = Some pw"
  shows "\<exists>s1. fusewtf_getattr V R E errno getpwnam path s = ret (0, Some (fill_stat fa pw), s1) \<and>
    settled (s\<lparr>cl_next_client_id := cl_next_client_id s + 1\<rparr>) s1 \<and> answers (cl_env s1) = [] \<and> store (cl_env s1) = store (cl_env s)"
  using fuse_getattr_answers [OF assms(1-7), where getpwnam = getpwnam and errno = errno] pw by simp

end

lemma creat_launches:
  assumes "idle_client s" and "abs_path path s = Inr (Some abspath)" and "quiet_link R E (cl_coord s)"
    and "fst (ce_set_external V (cl_env s)) = BUSYBEE_SUCCESS" and "o_creat flags"
    and "ce_time V (snd (ce_set_external V (cl_env s))) = (now, e1)"
    and "f = (file_new abspath num_replicas block_sz)\<lparr>fl_flags := flags, fl_mode := mode, fl_owner := ce_user V, fl_group := ce_group V\<rparr>"
    and "ce_hyperdex V (HD_put abspath (creat_attrs V E f now)) e1 = ((r, st), e)" and "0 \<le> r"
  shows "client_open V R E path flags mode num_replicas block_sz s = ret (cl_next_fileno s, cl_next_client_id s, Some WTF_CLIENT_SUCCESS,
    launched V (cl_next_client_id s) (Op_creat (cl_next_ref s))
      \<lparr>msg_reqid = r, msg_call = HD_put abspath (creat_attrs V E f now), msg_status = st, msg_attrs = []\<rparr> e
      (s\<lparr>cl_next_client_id := cl_next_client_id s + 1, cl_next_fileno := u64_add (cl_next_fileno s) 1, cl_env := e1,
        cl_files := (cl_files s)(cl_next_ref s := f), cl_next_ref := Suc (cl_next_ref s),
        cl_fds := m_assign (cl_next_fileno s) (cl_next_ref s) (cl_fds s)\<rparr>))"
proof -
  let ?i = "cl_next_client_id s" and ?k = "Op_creat (cl_next_ref s)" and ?e = "snd (ce_set_external V (cl_env s))"
  let ?fd = "cl_next_fileno s" and ?fr = "cl_next_ref s" and ?call = "HD_put abspath (creat_attrs V E f now)"
  let ?b = "s\<lparr>cl_next_client_id := ?i + 1, cl_next_fileno := u64_add ?fd 1\<rparr>"
  let ?s = "?b\<lparr>cl_env := e1, cl_files := (cl_files s)(?fr := f), cl_next_ref := Suc ?fr, cl_fds := m_assign ?fd ?fr (cl_fds s)\<rparr>"
  let ?t = "?b\<lparr>cl_env := ?e, cl_files := (cl_files s)(?fr := f), cl_next_ref := Suc ?fr, cl_fds := m_assign ?fd ?fr (cl_fds s)\<rparr>"
  have idle: "idle_client ?s" using assms(1) by (simp add: idle_client_def)
  have m: "maintain_coord_connection V R E ?b = ret (None, ?b\<lparr>cl_env := ?e\<rparr>)"
    using maintain_quiet [of R E ?b V] assms(3,4) by simp
  have p: "abs_path path (?b\<lparr>cl_env := ?e\<rparr>) = Inr (Some abspath)" using assms(2) by (simp add: abs_path_def)
  have eq: "?t\<lparr>cl_ops := (cl_ops s)(Suc ?fr := op_new ?i ?k), cl_next_ref := Suc (Suc ?fr), cl_env := e1\<rparr> =
      ?s\<lparr>cl_ops := (cl_ops ?s)(cl_next_ref ?s := op_new ?i ?k), cl_next_ref := Suc (cl_next_ref ?s)\<rparr>"
    by (rule client.equality) simp_all
  have "client_open V R E path flags mode num_replicas block_sz s = ret (?fd, started ?i (cl_next_ref ?s) (snd (send_hyperdex V ?call (cl_next_ref ?s)
      (?t\<lparr>cl_ops := (cl_ops s)(Suc ?fr := op_new ?i ?k), cl_next_ref := Suc (Suc ?fr), cl_env := e1\<rparr>))))"
    using m p assms(5,6) unfolding assms(7)
    by (simp add: client_open_def next_client_id_def new_file_def new_op_def creat_try_op_def file_new_def Let_def)
  also have "\<dots> = ret (?fd, started ?i (cl_next_ref ?s)
      (launched V ?i ?k \<lparr>msg_reqid = r, msg_call = ?call, msg_status = st, msg_attrs = []\<rparr> e ?s))"
    unfolding eq by (subst send_launches [OF idle]) (use assms in simp_all)
  finally show ?thesis by (simp add: started_def launched_def op_new_def)
qed

lemma map_of_assign_same: "map_of (m_assign k v m) k = Some v"
  by (induction k v m rule: m_assign.induct) auto

lemma unpack_serialized_file:
  assumes "e_buffer E" and "fl_replicas f < u64_bound" "fl_block_size f < u64_bound"
    and "imap_wf b (fl_block_map f)" "list_all (\<lambda>(k, s). slice_wf s) (fl_block_map f)" "length (fl_block_map f) < u64_bound"
  shows "unpack_file E (serialize_blockmap E f) g =
    Inr (g\<lparr>fl_replicas := fl_replicas f, fl_block_size := fl_block_size f, fl_block_map := drop_offsets (fl_block_map f)\<rparr>)"
  using e_buffer.unpack_pack_imap [OF assms(1,4-6), of _ "[]"] e_buffer.up64_pk64 [OF assms(1,2)] e_buffer.up64_pk64 [OF assms(1,3)]
  by (simp add: unpack_file_def serialize_blockmap_def)

context directory_services
begin

lemma fuse_create_done:
  assumes idle: "idle_client s" "answers (cl_env s) = []" and i: "0 < cl_next_client_id s"
    and q: "quiet_link R E (cl_coord s)" and p: "abs_path path s = Inr (Some abspath)"
    and f: "f = (file_new abspath fuse_replication fuse_block_length)\<lparr>fl_flags := O_CREAT, fl_mode := mode, fl_owner := ce_user V, fl_group := ce_group V\<rparr>"
  shows "\<exists>s1. fusewtf_create V R E path mode s = ret (0, cl_next_fileno s, s1) \<and> idle_client s1 \<and> cl_coord s1 = cl_coord s \<and>
    cl_cwd s1 = cl_cwd s \<and> cl_next_client_id s1 = cl_next_client_id s + 1 \<and> answers (cl_env s1) = [] \<and>
    (\<exists>fr. map_of (cl_fds s1) (cl_next_fileno s) = Some fr \<and> cl_files s1 fr = f) \<and>
    store (cl_env s1) = put_object blank abspath (creat_attrs V E f (fst (ce_time V (snd (ce_set_external V (cl_env s)))))) (store (cl_env s))"
proof -
  let ?i = "cl_next_client_id s" and ?e = "snd (ce_set_external V (cl_env s))" and ?fd = "cl_next_fileno s" and ?fr = "cl_next_ref s"
  obtain now e1 where e1: "ce_time V ?e = (now, e1)" by fastforce
  have f1: "store e1 = store (cl_env s)" "answers e1 = []"
    using time_frame [of e1 ?e] external_frame [of ?e "cl_env s"] e1 idle(2) by simp_all
  let ?a = "creat_attrs V E f now"
  obtain r st e where e: "ce_hyperdex V (HD_put abspath ?a) e1 = ((r, st), e)" by (metis prod.collapse)
  let ?s = "s\<lparr>cl_next_client_id := ?i + 1, cl_next_fileno := u64_add ?fd 1, cl_env := e1,
        cl_files := (cl_files s)(?fr := f), cl_next_ref := Suc ?fr, cl_fds := m_assign ?fd ?fr (cl_fds s)\<rparr>"
  have l: "client_open V R E path O_CREAT mode fuse_replication fuse_block_length s = ret (?fd, ?i, Some WTF_CLIENT_SUCCESS,
    launched V ?i (Op_creat ?fr) \<lparr>msg_reqid = r, msg_call = HD_put abspath ?a, msg_status = st, msg_attrs = []\<rparr> e ?s)"
    by (rule creat_launches [OF idle(1) p q external_result _ e1 f e]) (use put_call [OF e] in \<open>simp_all add: o_creat_def O_CREAT_def\<close>)
  have "idle_client ?s" using idle(1) by (simp add: idle_client_def)
  from put_completes [OF this i(1), of R abspath ?a r st e "Op_creat ?fr" "''''" 0 ?fr "-1"] f1 q e
  obtain s1 where s1: "client_loop V R E ?i (-1) (launched V ?i (Op_creat ?fr)
      \<lparr>msg_reqid = r, msg_call = HD_put abspath ?a, msg_status = st, msg_attrs = []\<rparr> e ?s) = ret (?i, WTF_CLIENT_SUCCESS, s1)"
    "settled ?s s1" "store (cl_env s1) = put_object blank abspath ?a (store e1)" "answers (cl_env s1) = []" by auto
  then have "map_of (cl_fds s1) ?fd = Some ?fr \<and> cl_files s1 ?fr = f" by (simp add: settled_def map_of_assign_same)
  with s1 show ?thesis using l i f1 e1
    by (intro exI [of _ s1]) (auto simp: fusewtf_create_def settled_def)
qed

end

section \<open>What was made is seen\<close>

lemma string_bytes [simp]: "string_of_bytes (bytes_of_string x) = x"
proof -
  have "char_of (unat (word_of_nat (of_char c) :: byte)) = c" for c
  proof -
    have "(of_char c :: nat) < 256" by simp
    then have "unat (word_of_nat (of_char c) :: byte) = of_char c" by (simp add: unat_of_nat)
    then show ?thesis by simp
  qed
  then show ?thesis by (simp add: string_of_bytes_def bytes_of_string_def comp_def)
qed

lemma c_string_id: "CHR 0x00 \<notin> set x \<Longrightarrow> c_string x = x"
  unfolding c_string_def by (induction x) auto

context directory_services
begin

lemma attr_int_encoded: "n < u64_bound \<Longrightarrow> attr_int E (ce_int V n) = n \<and> up64 E (ce_int V n) \<noteq> None"
  using int_attr [of n] by (auto simp: attr_int_def)

lemma file_new_fields:
  "fl_flags (file_new p n b) = 0" "fl_owner (file_new p n b) = ''''" "fl_group (file_new p n b) = ''''" "fl_mode (file_new p n b) = 0"
  "fl_time (file_new p n b) = None" "fl_is_directory (file_new p n b) = False" "fl_block_map (file_new p n b) = []"
  by (simp_all add: file_new_def)

text \<open>A directory whose block map was never put.\<close>

lemma dir_attrs_parse:
  assumes l: "lists_object as obj" and mode: "mode < 4294967296" and now: "now < u64_bound"
    and obj: "obj ''directory'' = Some (ce_int V 1)" "obj ''blockmap'' = blank ''blockmap''" "obj ''mode'' = Some (ce_int V mode)"
      "obj ''time'' = Some (ce_int V now)" "obj ''owner'' = Some ow" "obj ''group'' = Some gr"
  shows "\<exists>f. parse_metadata_all E as (file_new '''' 0 0) = Inr f \<and>
    fill_attrs f = Inr \<lparr>fa_size = 0, fa_mode = mode, fa_flags = 0, fa_is_dir = True, fa_time = now,
      fa_owner = c_string (string_of_bytes ow), fa_group = c_string (string_of_bytes gr)\<rparr>"
proof -
  have l: "distinct (map fst as)" "map_of as = obj" using l by (simp_all add: lists_object_def)
  have n: "attr_int E (ce_int V 1) = 1" "attr_int E (ce_int V mode) = mode" "attr_int E (ce_int V now) = now"
    using attr_int_encoded [of 1] attr_int_encoded [of mode] attr_int_encoded [of now] mode now by simp_all
  have dir: "up64 E v \<noteq> None" if "map_of as ''directory'' = Some v" for v
    using that attr_int_encoded [of 1] by (simp add: l(2) obj)
  have blk: "unpack_file E v g = Inr (g\<lparr>fl_replicas := 0, fl_block_size := 0, fl_block_map := []\<rparr>)"
    if "map_of as ''blockmap'' = Some v" "v \<noteq> []" for v g
    using that blank_empty [of "''blockmap''" v] by (simp add: l(2) obj)
  obtain f where f: "parse_metadata_all E as (file_new '''' 0 0) = Inr f" "fl_flags f = 0"
    "fl_owner f = attr_or '''' string_of_bytes obj ''owner''" "fl_group f = attr_or '''' string_of_bytes obj ''group''"
    "fl_mode f = attr_or 0 (attr_int E) obj ''mode''" "fl_time f = attr_or None (\<lambda>v. Some (attr_int E v)) obj ''time''"
    "fl_is_directory f = attr_or False (\<lambda>v. attr_int E v \<noteq> 0) obj ''directory''"
    "fl_block_map f = attr_or [] (\<lambda>v. if v = [] then [] else []) obj ''blockmap''"
    using parse_all_attrs [OF l(1) dir blk, of "file_new '''' 0 0"] unfolding l(2) file_new_fields by blast
  then have "fl_block_map f = []" "fl_owner f = string_of_bytes ow" "fl_group f = string_of_bytes gr" "fl_mode f = mode"
    "fl_time f = Some now" "fl_is_directory f"
    by (simp_all add: attr_or_def obj n [simplified] split: option.split)
  then show ?thesis using f(1,2) mode by (intro exI [of _ f]) (simp add: fill_attrs_def file_length_def imap_length_def)
qed

lemma mkdir_attrs_parse:
  assumes "lists_object as (put_attrs (mkdir_attrs V mode now) blank)" and "mode < 4294967296" and "CHR 0x00 \<notin> set (ce_user V)"
  shows "\<exists>f. parse_metadata_all E as (file_new '''' 0 0) = Inr f \<and>
    fill_attrs f = Inr \<lparr>fa_size = 0, fa_mode = mode, fa_flags = 0, fa_is_dir = True, fa_time = now mod 4294967296,
      fa_owner = ce_user V, fa_group = ce_user V\<rparr>"
  using dir_attrs_parse [OF assms(1,2), of "now mod 4294967296" "bytes_of_string (ce_user V)" "bytes_of_string (ce_user V)"] assms(3)
  by (simp add: put_attrs_def mkdir_attrs_def c_string_id)

lemma creat_attrs_parse:
  assumes "lists_object as (put_attrs (creat_attrs V E f now) old)" and "mode < 4294967296" "now < u64_bound" and "CHR 0x00 \<notin> set (ce_user V)"
    and E: "e_buffer E" and f: "fl_mode f = mode" "\<not> fl_is_directory f" "fl_block_map f = []" "fl_replicas f < u64_bound" "fl_block_size f < u64_bound"
  shows "\<exists>g. parse_metadata_all E as (file_new '''' 0 0) = Inr g \<and>
    fill_attrs g = Inr \<lparr>fa_size = 0, fa_mode = mode, fa_flags = 0, fa_is_dir = False, fa_time = now,
      fa_owner = ce_user V, fa_group = ce_user V\<rparr>"
proof -
  let ?obj = "put_attrs (creat_attrs V E f now) old"
  have l: "distinct (map fst as)" "map_of as = ?obj" using assms(1) by (simp_all add: lists_object_def)
  have obj: "?obj ''directory'' = Some (ce_int V 0)" "?obj ''blockmap'' = Some (serialize_blockmap E f)" "?obj ''mode'' = Some (ce_int V mode)"
    "?obj ''time'' = Some (ce_int V now)" "?obj ''owner'' = Some (bytes_of_string (ce_user V))"
    "?obj ''group'' = Some (bytes_of_string (ce_user V))"
    using f(1,2) by (simp_all add: put_attrs_def creat_attrs_def)
  have n: "attr_int E (ce_int V 0) = 0" "attr_int E (ce_int V mode) = mode" "attr_int E (ce_int V now) = now"
    using attr_int_encoded [of 0] attr_int_encoded [of mode] attr_int_encoded [of now] assms(2,3) by simp_all
  have u: "unpack_file E (serialize_blockmap E f) g = Inr (g\<lparr>fl_replicas := fl_replicas f, fl_block_size := fl_block_size f, fl_block_map := []\<rparr>)" for g
    using unpack_serialized_file [OF E f(4,5), of 0 g] f(3) by (simp add: imap_wf_def drop_offsets_def)
  have dir: "up64 E v \<noteq> None" if "map_of as ''directory'' = Some v" for v
    using that attr_int_encoded [of 0] by (simp add: l(2) obj)
  have blk: "unpack_file E v g = Inr (g\<lparr>fl_replicas := fl_replicas f, fl_block_size := fl_block_size f, fl_block_map := []\<rparr>)"
    if "map_of as ''blockmap'' = Some v" "v \<noteq> []" for v g
    using that u by (simp add: l(2) obj)
  obtain g where g: "parse_metadata_all E as (file_new '''' 0 0) = Inr g" "fl_flags g = 0"
    "fl_owner g = attr_or '''' string_of_bytes ?obj ''owner''" "fl_group g = attr_or '''' string_of_bytes ?obj ''group''"
    "fl_mode g = attr_or 0 (attr_int E) ?obj ''mode''" "fl_time g = attr_or None (\<lambda>v. Some (attr_int E v)) ?obj ''time''"
    "fl_is_directory g = attr_or False (\<lambda>v. attr_int E v \<noteq> 0) ?obj ''directory''"
    "fl_block_map g = attr_or [] (\<lambda>v. if v = [] then [] else []) ?obj ''blockmap''"
    using parse_all_attrs [OF l(1) dir blk, of "file_new '''' 0 0"] unfolding l(2) file_new_fields by blast
  then have "fl_block_map g = []" "fl_owner g = ce_user V" "fl_group g = ce_user V" "fl_mode g = mode"
    "fl_time g = Some now" "\<not> fl_is_directory g"
    by (simp_all add: attr_or_def obj n)
  then show ?thesis using g(1,2) assms(2,4) by (intro exI [of _ g]) (simp add: fill_attrs_def c_string_id file_length_def imap_length_def)
qed

end

text \<open>C4: what was made through the file system is seen through it. A directory made with \<open>mkdir\<close> under
  a new name has at once, for \<open>getattr\<close>, the type of a directory, the permissions it was given, the
  owner's numbers, the time at which it was made (of 32 bits) and no size. A file made with \<open>create\<close>
  is a regular file with its permissions, owner and time, and empty: also when there was a file of
  that name before, whose contents are gone from the metadata. No other name is touched.\<close>

theorem made_is_seen:
  assumes D: "directory_services V E store answers blank" and E: "e_buffer E"
    and idle: "idle_client s" "answers (cl_env s) = []" and i: "0 < cl_next_client_id s" "cl_next_client_id s < 2147483648"
    and q: "quiet_link R E (cl_coord s)" and p: "abs_path path s = Inr (Some abspath)"
    and mode: "mode < 4294967296" and time: "\<And>e. fst (ce_time V e) < u64_bound"
    and user: "CHR 0x00 \<notin> set (ce_user V)" "getpwnam (ce_user V) = Some pw"
  shows "(store (cl_env s) abspath = None \<longrightarrow>
      (\<exists>now s1 s2. fusewtf_mkdir V R E path mode s = ret (0, s1) \<and> now = fst (ce_time V (cl_env s)) \<and>
        fusewtf_getattr V R E errno getpwnam path s1 = ret (0, Some \<lparr>st_mode = mode OR S_IFDIR, st_mtime = now mod 4294967296,
          st_nlink = 1, st_size = 0, st_uid = fst pw, st_gid = snd pw\<rparr>, s2) \<and>
        (\<forall>other. other \<noteq> abspath \<longrightarrow> store (cl_env s2) other = store (cl_env s) other))) \<and>
    (\<exists>e now s1 s2. fusewtf_create V R E path mode s = ret (0, cl_next_fileno s, s1) \<and> now = fst (ce_time V e) \<and>
        fusewtf_getattr V R E errno getpwnam path s1 = ret (0, Some \<lparr>st_mode = mode OR S_IFREG, st_mtime = now,
          st_nlink = 1, st_size = 0, st_uid = fst pw, st_gid = snd pw\<rparr>, s2) \<and>
        (\<forall>other. other \<noteq> abspath \<longrightarrow> store (cl_env s2) other = store (cl_env s) other))"
proof (intro conjI impI)
  assume new: "store (cl_env s) abspath = None"
  let ?now = "fst (ce_time V (cl_env s))"
  let ?fa = "\<lparr>fa_size = 0, fa_mode = mode, fa_flags = 0, fa_is_dir = True, fa_time = ?now mod 4294967296,
      fa_owner = ce_user V, fa_group = ce_user V\<rparr>"
  from directory_services.fuse_mkdir_done [OF D idle i q p, of mode] obtain s1 where s1:
    "fusewtf_mkdir V R E path mode s = ret (0, s1)" "settled (s\<lparr>cl_next_client_id := cl_next_client_id s + 1\<rparr>) s1"
    "answers (cl_env s1) = []" "store (cl_env s1) = put_object blank abspath (mkdir_attrs V mode ?now) (store (cl_env s))" by blast
  have st: "idle_client s1" "0 < cl_next_client_id s1" "quiet_link R E (cl_coord s1)" "abs_path path s1 = Inr (Some abspath)"
    using s1(2) q p i(1) by (simp_all add: settled_def abs_path_def)
  have obj: "store (cl_env s1) abspath = Some (put_attrs (mkdir_attrs V mode ?now) blank)" using s1(4) new by (simp add: put_object_def)
  from directory_services.fuse_getattr_done [OF D st(1) s1(3) st(2-4) obj, of ?fa getpwnam pw errno]
    directory_services.mkdir_attrs_parse [OF D _ mode user(1)] user(2)
  obtain s2 where "fusewtf_getattr V R E errno getpwnam path s1 = ret (0, Some (fill_stat ?fa pw), s2)"
    "store (cl_env s2) = store (cl_env s1)" by auto
  then show "\<exists>now s1 s2. fusewtf_mkdir V R E path mode s = ret (0, s1) \<and> now = ?now \<and>
      fusewtf_getattr V R E errno getpwnam path s1 = ret (0, Some \<lparr>st_mode = mode OR S_IFDIR, st_mtime = now mod 4294967296,
        st_nlink = 1, st_size = 0, st_uid = fst pw, st_gid = snd pw\<rparr>, s2) \<and>
      (\<forall>other. other \<noteq> abspath \<longrightarrow> store (cl_env s2) other = store (cl_env s) other)"
    using s1(1,4) by (intro exI [of _ ?now] exI [of _ s1] exI [of _ s2]) (simp add: fill_stat_def put_object_def)
next
  let ?e = "snd (ce_set_external V (cl_env s))"
  let ?now = "fst (ce_time V ?e)"
  let ?f = "(file_new abspath fuse_replication fuse_block_length)\<lparr>fl_flags := O_CREAT, fl_mode := mode, fl_owner := ce_user V, fl_group := ce_group V\<rparr>"
  let ?old = "case store (cl_env s) abspath of None \<Rightarrow> blank | Some obj \<Rightarrow> obj"
  let ?fa = "\<lparr>fa_size = 0, fa_mode = mode, fa_flags = 0, fa_is_dir = False, fa_time = ?now,
      fa_owner = ce_user V, fa_group = ce_user V\<rparr>"
  from directory_services.fuse_create_done [OF D idle i(1) q p refl, of mode] obtain s1 where s1:
    "fusewtf_create V R E path mode s = ret (0, cl_next_fileno s, s1)" "idle_client s1" "cl_coord s1 = cl_coord s" "cl_cwd s1 = cl_cwd s"
    "cl_next_client_id s1 = cl_next_client_id s + 1" "answers (cl_env s1) = []"
    "store (cl_env s1) = put_object blank abspath (creat_attrs V E ?f ?now) (store (cl_env s))" by blast
  have st: "0 < cl_next_client_id s1" "quiet_link R E (cl_coord s1)" "abs_path path s1 = Inr (Some abspath)"
    using s1(3-5) q p i(1) by (simp_all add: abs_path_def)
  have obj: "store (cl_env s1) abspath = Some (put_attrs (creat_attrs V E ?f ?now) ?old)" using s1(7) by (simp add: put_object_def)
  have f: "fl_mode ?f = mode" "\<not> fl_is_directory ?f" "fl_block_map ?f = []" "fl_replicas ?f < u64_bound" "fl_block_size ?f < u64_bound"
    by (simp_all add: file_new_def fuse_replication_def fuse_block_length_def)
  from directory_services.fuse_getattr_done [OF D s1(2,6) st obj, of ?fa getpwnam pw errno]
    directory_services.creat_attrs_parse [OF D _ mode time user(1) E f] user(2)
  obtain s2 where "fusewtf_getattr V R E errno getpwnam path s1 = ret (0, Some (fill_stat ?fa pw), s2)"
    "store (cl_env s2) = store (cl_env s1)" by auto
  then show "\<exists>e now s1 s2. fusewtf_create V R E path mode s = ret (0, cl_next_fileno s, s1) \<and> now = fst (ce_time V e) \<and>
      fusewtf_getattr V R E errno getpwnam path s1 = ret (0, Some \<lparr>st_mode = mode OR S_IFREG, st_mtime = now,
        st_nlink = 1, st_size = 0, st_uid = fst pw, st_gid = snd pw\<rparr>, s2) \<and>
      (\<forall>other. other \<noteq> abspath \<longrightarrow> store (cl_env s2) other = store (cl_env s) other)"
    using s1(1,7) by (intro exI [of _ ?e] exI [of _ ?now] exI [of _ s1] exI [of _ s2]) (simp add: fill_stat_def put_object_def)
qed

section \<open>HyperDex in memory\<close>

text \<open>Objects are association lists, newest first; integers are little-endian.\<close>

record hyperdex_memory =
  hx_objects :: "(string \<times> hd_attr list) list"
  hx_answers :: "hd_answer list"

definition hx_store :: "hyperdex_memory \<Rightarrow> string \<Rightarrow> hd_object option" where
  "hx_store e = (\<lambda>k. map_option map_of (map_of (hx_objects e) k))"

text \<open>A number that no request has which is still to be answered.\<close>

definition hx_fresh :: "hyperdex_memory \<Rightarrow> int" where
  "hx_fresh e =
     (case filter (\<lambda>n. n \<notin> set (map (u64_of_int \<circ> fst) (hx_answers e))) [0..<Suc (length (hx_answers e))] of
        [] \<Rightarrow> 0 | n # _ \<Rightarrow> int n)"

definition hx_find :: "string \<Rightarrow> hyperdex_memory \<Rightarrow> (string \<times> hd_attr list) list" where
  "hx_find prefix e =
     map (\<lambda>(k, as). (k, (''path'', bytes_of_string k) # filter (\<lambda>a. fst a \<noteq> ''path'') (AList.clearjunk as)))
       (filter (\<lambda>(k, as). take (length prefix) k = prefix) (AList.clearjunk (hx_objects e)))"

definition hx_call :: "hyperdex_call \<Rightarrow> hyperdex_memory \<Rightarrow> (int \<times> hyperdex_status) \<times> hyperdex_memory" where
  "hx_call call e =
     (let r = hx_fresh e;
          ok = (\<lambda>st as. (r, HYPERDEX_CLIENT_SUCCESS, st, as));
          (objects, replies) =
            (case call of
               HD_put path attrs \<Rightarrow>
                 (AList.update path (attrs @ (case map_of (hx_objects e) path of None \<Rightarrow> [(''blockmap'', [])] | Some as \<Rightarrow> as)) (hx_objects e),
                  [ok HYPERDEX_CLIENT_SUCCESS []])
             | HD_get path \<Rightarrow>
                 (hx_objects e,
                  [case map_of (hx_objects e) path of
                     None \<Rightarrow> ok HYPERDEX_CLIENT_NOTFOUND []
                   | Some as \<Rightarrow> ok HYPERDEX_CLIENT_SUCCESS (AList.clearjunk as)])
             | HD_del path \<Rightarrow> (AList.delete path (hx_objects e), [ok HYPERDEX_CLIENT_SUCCESS []])
             | HD_search regex \<Rightarrow>
                 (hx_objects e,
                  map (\<lambda>(k, as). ok HYPERDEX_CLIENT_SUCCESS as) (hx_find (tl regex) e) @ [ok HYPERDEX_CLIENT_SEARCHDONE []])
             | HD_condput path checks attrs \<Rightarrow> (hx_objects e, [ok (HYPERDEX_CLIENT_OTHER 0) []]))
      in ((r, HYPERDEX_CLIENT_GARBAGE), e\<lparr>hx_objects := objects, hx_answers := hx_answers e @ replies\<rparr>))"

definition hx_env :: "hyperdex_memory client_env" where
  "hx_env = \<lparr>ce_send = (\<lambda>_ _ e. (BUSYBEE_SUCCESS, e)),
     ce_recv = (\<lambda>_ e. (if hx_answers e = [] then (BUSYBEE_TIMEOUT, 0, []) else (BUSYBEE_EXTERNAL, 100, []), e)),
     ce_drop = (\<lambda>_ e. e), ce_set_external = (\<lambda>e. (BUSYBEE_SUCCESS, e)), ce_hyperdex = hx_call,
     ce_hyperdex_loop = (\<lambda>e. case hx_answers e of
       [] \<Rightarrow> ((-1, HYPERDEX_CLIENT_NONEPENDING, HYPERDEX_CLIENT_NONEPENDING, []), e) | a # rest \<Rightarrow> (a, e\<lparr>hx_answers := rest\<rparr>)),
     ce_hyperdex_fd = 100, ce_negative = (\<lambda>st. st \<noteq> HYPERDEX_CLIENT_SUCCESS), ce_int = (\<lambda>n. rev (be_put 8 n)),
     ce_random = (\<lambda>e. ((int, 0), e)), ce_time = (\<lambda>e. (1000, e)), ce_user = ''root'', ce_group = ''root''\<rparr>"

lemma be_val_digit: "i < length bs \<Longrightarrow> be_val 0 bs div 256 ^ i mod 256 = unat (rev bs ! i)"
proof (induction bs arbitrary: i rule: rev_induct)
  case (snoc b bs)
  have b: "unat b < 256" using unsigned_less [of b] by simp
  show ?case
  proof (cases i)
    case 0
    then show ?thesis using b by (simp add: be_val_append)
  next
    case (Suc j)
    have "(be_val 0 bs * 256 + unat b) div 256 ^ Suc j = be_val 0 bs div 256 ^ j" using b by (simp add: div_mult2_eq)
    then show ?thesis using snoc Suc by (simp add: be_val_append)
  qed
qed simp

lemma be_val_foldl: "be_val a bs = foldl (\<lambda>a b. a * 256 + unat b) a bs"
  by (induction a bs rule: be_val.induct) auto

lemma swap_reversed: "length bs = 8 \<Longrightarrow> swap64 (be_val 0 bs) = be_val 0 (rev bs)"
proof -
  assume l: "length bs = 8"
  have up: "[0, 1, 2, 3, 4, 5, 6, 7] = [0..<8::nat]" by (simp add: upt_rec)
  have "swap64 (be_val 0 bs) = foldl (\<lambda>a i. a * 256 + unat (rev bs ! i)) 0 [0..<8]"
    unfolding swap64_def up by (rule foldl_cong) (use l be_val_digit [of _ bs] in auto)
  also have "\<dots> = foldl (\<lambda>a b. a * 256 + unat b) 0 (map ((!) (rev bs)) [0..<length (rev bs)])"
    using l by (simp add: foldl_map)
  also have "\<dots> = be_val 0 (rev bs)" unfolding map_nth by (simp add: be_val_foldl)
  finally show ?thesis .
qed

lemma hx_store_update:
  "hx_store (e\<lparr>hx_objects := AList.update path (attrs @ (case map_of (hx_objects e) path of None \<Rightarrow> [(''blockmap'', [])] | Some as \<Rightarrow> as)) (hx_objects e), hx_answers := a\<rparr>) =
     put_object [''blockmap'' \<mapsto> []] path attrs (hx_store e)"
  by (auto simp: hx_store_def put_object_def put_attrs_def fun_eq_iff update_conv' map_add_def split: option.split)

interpretation hx: directory_services hx_env be_codec hx_store hx_answers "[''blockmap'' \<mapsto> []]"
proof unfold_locales
  fix e path attrs r st e'
  assume "ce_hyperdex hx_env (HD_put path attrs) e = ((r, st), e')"
  then show "0 \<le> r \<and> hx_store e' = put_object [''blockmap'' \<mapsto> []] path attrs (hx_store e) \<and>
      hx_answers e' = hx_answers e @ [(r, HYPERDEX_CLIENT_SUCCESS, HYPERDEX_CLIENT_SUCCESS, [])]"
    by (auto simp: hx_env_def hx_call_def Let_def hx_store_update hx_fresh_def split: list.split)
next
  fix e path r st e'
  assume "ce_hyperdex hx_env (HD_get path) e = ((r, st), e')"
  then show "0 \<le> r \<and> hx_store e' = hx_store e \<and>
      (case hx_store e path of
         None \<Rightarrow> hx_answers e' = hx_answers e @ [(r, HYPERDEX_CLIENT_SUCCESS, HYPERDEX_CLIENT_NOTFOUND, [])]
       | Some obj \<Rightarrow> \<exists>as. lists_object as obj \<and>
           hx_answers e' = hx_answers e @ [(r, HYPERDEX_CLIENT_SUCCESS, HYPERDEX_CLIENT_SUCCESS, as)])"
    by (auto simp: hx_env_def hx_call_def Let_def hx_store_def hx_fresh_def lists_object_def map_of_clearjunk distinct_clearjunk
        split: option.splits list.splits)
next
  fix n :: u64 assume n: "n < u64_bound"
  have "up64 be_codec (rev (be_put 8 n)) = Some (be_val 0 (rev (be_put 8 n)), [])" by (simp add: be_codec_def be_get_def)
  moreover have "swap64 (be_val 0 (rev (be_put 8 n))) = n" using n be_val_put [of n 8] by (simp add: swap_reversed)
  ultimately show "\<exists>x rest. up64 be_codec (ce_int hx_env n) = Some (x, rest) \<and> swap64 x = n" by (auto simp: hx_env_def)
qed (auto simp: hx_env_def hx_store_def split: if_splits list.splits)

text \<open>A client of a cluster with no servers, and an object named \<open>/a\<close>.\<close>

definition hx_client :: "(string \<times> hd_attr list) list \<Rightarrow> (unit, hyperdex_memory) client" where
  "hx_client objects = (client_new () 9 Unspec \<lparr>hx_objects = objects, hx_answers = []\<rparr>)\<lparr>cl_coord := demo_link\<rparr>"

lemma hx_client_idle:
  "idle_client (hx_client objects)" "hx_answers (cl_env (hx_client objects)) = []" "cl_next_client_id (hx_client objects) = 1"
  "quiet_link demo_replicant be_codec (cl_coord (hx_client objects))" "cl_cwd (hx_client objects) = ''/''"
  "hx_store (cl_env (hx_client objects)) = (\<lambda>k. map_option map_of (map_of objects k))"
  using demo_quiet by (simp_all add: hx_client_def client_new_def idle_client_def hx_store_def)

lemma hx_path: "abs_path ''/a'' (hx_client objects) = Inr (Some ''/a'')"
  by (simp add: abs_path_def hx_client_idle canon_path_def canon_start_def canon_finish_def path_max_def put_char_def
      canon_loop.simps canon_copy.simps is_dot_def is_dotdot_def Let_def)

theorem made_is_seen_witness:
  "\<exists>s1 s2. fusewtf_mkdir hx_env demo_replicant be_codec ''/a'' 493 (hx_client []) = ret (0, s1) \<and>
     fusewtf_getattr hx_env demo_replicant be_codec 5 [''root'' \<mapsto> (0, 0)] ''/a'' s1 =
       ret (0, Some \<lparr>st_mode = 493 OR S_IFDIR, st_mtime = 1000, st_nlink = 1, st_size = 0, st_uid = 0, st_gid = 0\<rparr>, s2)"
proof -
  have "0 < cl_next_client_id (hx_client [])" "cl_next_client_id (hx_client []) < 2147483648" by (simp_all add: hx_client_idle)
  note c = hx_client_idle(1,2) [of "[]"] this hx_client_idle(4) [of "[]"] hx_path [of "[]"]
  have mode: "(493 :: u64) < 4294967296" and time: "fst (ce_time hx_env e) < u64_bound"
    and user: "CHR 0x00 \<notin> set (ce_user hx_env)" "[''root'' \<mapsto> (0, 0)] (ce_user hx_env) = Some (0, 0)" for e
    by (simp_all add: hx_env_def)
  have "hx_store (cl_env (hx_client [])) ''/a'' = None" "fst (ce_time hx_env e) = 1000" for e
    by (simp_all add: hx_client_idle hx_env_def)
  with made_is_seen [where getpwnam = "[''root'' \<mapsto> (0, 0)]" and pw = "(0, 0)" and errno = 5,
      OF hx.directory_services_axioms be.e_buffer_axioms c mode time user] show ?thesis by auto
qed

end
