(* ===== verification/Listing.thy ===== *)
theory Listing
  imports Namespace
begin

text \<open>
  Searches: what the listing of a directory shows, and what deleting a name deletes. Both search for
  the keys that begin with a path.
\<close>

section \<open>Searches of HyperDex\<close>

text \<open>The characters that stand for themselves in a regular expression.\<close>

definition plain_path :: "string \<Rightarrow> bool" where
  "plain_path path \<longleftrightarrow> list_all (\<lambda>c. c \<notin> set ''.^$*+?()[]{}|'' \<and> c \<noteq> CHR 0x5C) path"

definition under :: "string \<Rightarrow> (string \<Rightarrow> hd_object option) \<Rightarrow> string set" where
  "under path st = {k \<in> dom st. take (length path) k = path}"

text \<open>The attributes of an object that was found include its key.\<close>

definition finds :: "hd_attr list \<Rightarrow> string \<Rightarrow> bool" where
  "finds as k \<longleftrightarrow> distinct (map fst as) \<and> map_of as ''path'' = Some (bytes_of_string k)"

definition search_answers :: "int \<Rightarrow> (string \<times> hd_attr list) list \<Rightarrow> hd_answer list" where
  "search_answers r found = map (\<lambda>(k, as). (r, HYPERDEX_CLIENT_SUCCESS, HYPERDEX_CLIENT_SUCCESS, as)) found @
     [(r, HYPERDEX_CLIENT_SUCCESS, HYPERDEX_CLIENT_SEARCHDONE, [])]"

locale search_services = directory_services V E store answers blank
  for V :: "'e client_env" and E store answers blank +
  assumes success: "\<not> ce_negative V HYPERDEX_CLIENT_SUCCESS"
    and search_call: "\<And>e path r st e'. ce_hyperdex V (HD_search (path_regex path)) e = ((r, st), e') \<Longrightarrow>
      plain_path path \<Longrightarrow> finite (dom (store e)) \<Longrightarrow>
      0 \<le> r \<and> store e' = store e \<and>
      (length (answers e) < u64_bound \<longrightarrow> u64_of_int r \<notin> (u64_of_int \<circ> fst) ` set (answers e)) \<and>
      (\<exists>found. distinct (map fst found) \<and> fst ` set found = under path (store e) \<and> list_all (\<lambda>(k, as). finds as k) found \<and>
         answers e' = answers e @ search_answers r found)"
    and del_call: "\<And>e k r st e'. ce_hyperdex V (HD_del k) e = ((r, st), e') \<Longrightarrow>
      0 \<le> r \<and> store e' = (store e)(k := None) \<and>
      (length (answers e) < u64_bound \<longrightarrow> u64_of_int r \<notin> (u64_of_int \<circ> fst) ` set (answers e)) \<and>
      (\<exists>x. answers e' = answers e @ [(r, HYPERDEX_CLIENT_SUCCESS, x, [])])"

lemma find_key:
  assumes "distinct (map fst as)" and "(a, v) \<in> set as"
  shows "find (\<lambda>x. fst x = a \<and> Q x) as = (if Q (a, v) then Some (a, v) else None)"
  using assms
proof (induction "as")
  case (Cons x as)
  show ?case
  proof (cases "x = (a, v)")
    case True
    then have "\<forall>y \<in> set as. fst y \<noteq> a" using Cons.prems(1) by (auto simp: image_iff)
    then show ?thesis using True by (auto simp: find_None_iff)
  next
    case False
    then have "(a, v) \<in> set as" using Cons.prems(2) by simp
    moreover have "fst x \<noteq> a" using Cons.prems(1) calculation by (auto simp: image_iff)
    ultimately show ?thesis using Cons by simp
  qed
qed simp

lemma finds_key: "finds as k \<Longrightarrow> distinct (map fst as) \<and> (''path'', bytes_of_string k) \<in> set as"
  by (simp add: finds_def map_of_SomeD)

lemma finds_found: "finds as k \<Longrightarrow> found_path as = Some k"
  using find_key [of "as" "''path''" "bytes_of_string k" "\<lambda>_. True"] finds_key [of "as" k] by (simp add: found_path_def)

lemma finds_results:
  assumes "finds as k" and "take (length path) k = path"
  shows "readdir_results cwd path as = Inr (if k = cwd then [] else [drop (length path) k])"
proof -
  have "find (\<lambda>a. fst a = ''path'' \<and> string_of_bytes (snd a) \<noteq> cwd) as =
      (if k = cwd then None else Some (''path'', bytes_of_string k))"
    using find_key [of "as" "''path''" "bytes_of_string k" "\<lambda>a. string_of_bytes (snd a) \<noteq> cwd"] finds_key [OF assms(1)]
    by simp
  moreover have "length path \<le> length k" using assms(2) by (metis length_take min.cobounded1)
  ultimately show ?thesis by (simp add: readdir_results_def)
qed

section \<open>Listing\<close>

text \<open>The operation \<open>p\<close> lists \<open>path\<close> and has nothing for its caller.\<close>

definition listing :: "op_ref \<Rightarrow> int \<Rightarrow> hd_message \<Rightarrow> string \<Rightarrow> string option \<Rightarrow> ('r, 'e) client \<Rightarrow> bool" where
  "listing p i m path entry s \<longleftrightarrow> waiting p i m s \<and> is_search (msg_call m) \<and> po_kind (cl_ops s p) = Op_readdir path [] entry"

context search_services
begin

text \<open>A result that is shown is returned by the loop.\<close>

lemma listing_result:
  assumes l: "listing p i m path entry s" and q: "quiet_link R E (cl_coord s)"
    and a: "answers (cl_env s) = (msg_reqid m, HYPERDEX_CLIENT_SUCCESS, HYPERDEX_CLIENT_SUCCESS, as) # rest"
    and f: "finds as k" "take (length path) k = path"
  shows "\<exists>s1 m1. listing p i m1 path (if k = cl_cwd s then entry else Some (c_string (drop (length path) k))) s1 \<and>
      msg_reqid m1 = msg_reqid m \<and> cl_coord s1 = cl_coord s \<and> cl_cwd s1 = cl_cwd s \<and>
      store (cl_env s1) = store (cl_env s) \<and> answers (cl_env s1) = rest \<and>
      (if k = cl_cwd s then loop_rounds V R E t i st s = loop_rounds V R E t i st s1
       else \<exists>st1. loop_rounds V R E t i st s = ret (i, st1, s1))"
proof -
  have w: "waiting p i m s" and m: "is_search (msg_call m)" and k: "po_kind (cl_ops s p) = Op_readdir path [] entry"
    using l by (simp_all add: listing_def)
  from loop_takes_answer [OF q w a, of t st] obtain e s' where
    s': "s' = update_op p (\<lambda>op. op\<lparr>po_outstanding_hyperdex := [m\<lparr>msg_status := HYPERDEX_CLIENT_SUCCESS, msg_attrs := as\<rparr>]\<rparr>)
        (s\<lparr>cl_env := e, cl_pending_hyperdex_ops := []\<rparr>)" and
    r: "loop_round V R E t i st s = run_bind (op_handle_hyperdex_message V E p (msg_reqid m) HYPERDEX_CLIENT_SUCCESS s') (\<lambda>(ok, s1).
        ret (if ok then Again (0, st, after_message i p s1) else Leave (-1, st, s1)))"
    and e: "store e = store (cl_env s)" "answers e = rest" by blast
  let ?m = "m\<lparr>msg_status := HYPERDEX_CLIENT_SUCCESS, msg_attrs := as\<rparr>"
  let ?new = "if k = cl_cwd s then [] else [drop (length path) k]"
  define s2 where "s2 = s\<lparr>cl_env := e,
    cl_ops := (cl_ops s)(p := (cl_ops s p)\<lparr>po_outstanding_hyperdex := [?m], po_kind := Op_readdir path ?new entry\<rparr>),
    cl_pending_hyperdex_ops := [(u64_of_int (msg_reqid m), ce_hyperdex_fd V, p)], cl_yielding := Some p\<rparr>"
  have h: "op_handle_hyperdex_message V E p (msg_reqid m) HYPERDEX_CLIENT_SUCCESS s' =
      ret (True, add_hyperdex_op V (msg_reqid m) p (update_op p (\<lambda>op. op\<lparr>po_kind := Op_readdir path ?new entry\<rparr>) s'))"
    using k m success finds_results [OF f, of "cl_cwd s"] unfolding s'
    by (simp add: op_handle_hyperdex_message_def readdir_handle_hyperdex_message_def update_op_def first_message_def)
  have "after_message i p (add_hyperdex_op V (msg_reqid m) p (update_op p (\<lambda>op. op\<lparr>po_kind := Op_readdir path ?new entry\<rparr>) s')) = s2"
    using w unfolding s' s2_def
    by (simp add: after_message_def client_id_of_def update_op_def add_hyperdex_op_def waiting_def)
  then have r1: "loop_round V R E t i st s = ret (Again (0, st, s2))" unfolding r h by simp
  show ?thesis
  proof (cases "k = cl_cwd s")
    case True
    then have "\<not> op_can_yield p s2" by (simp add: op_can_yield_def s2_def)
    then have "loop_round V R E t i st s2 = ret (Again (0, st, s2\<lparr>cl_yielding := None\<rparr>))" by (intro loop_not_yet) (simp_all add: s2_def)
    then have "loop_rounds V R E t i st s = loop_rounds V R E t i st (s2\<lparr>cl_yielding := None\<rparr>)"
      using loop_rounds_again [OF r1] by (simp add: loop_rounds_again)
    moreover have "listing p i ?m path entry (s2\<lparr>cl_yielding := None\<rparr>)"
      using w m True by (simp add: listing_def waiting_def s2_def)
    ultimately show ?thesis using True e
      by (intro exI [of _ "s2\<lparr>cl_yielding := None\<rparr>"] exI [of _ ?m]) (simp add: s2_def)
  next
    case False
    let ?entry = "Some (c_string (drop (length path) k))"
    let ?op = "(cl_ops s2 p)\<lparr>po_kind := Op_readdir path [] ?entry\<rparr>"
    let ?t = "(s2\<lparr>cl_ops := (cl_ops s2)(p := ?op)\<rparr>)\<lparr>cl_yielding := None\<rparr>"
    have "\<exists>st1. loop_round V R E t i st s2 = ret (Leave (i, st1, ?t))"
      using w False
      by (simp add: loop_round_def loop_yielding_def op_yield_def op_can_yield_def client_id_of_def update_op_def s2_def
          aggregation_done_def waiting_def)
    then obtain st1 where "loop_rounds V R E t i st s = ret (i, st1, ?t)"
      using loop_rounds_again [OF r1] by (auto simp: loop_rounds_leave)
    moreover have "listing p i ?m path ?entry ?t"
      using w m False by (simp add: listing_def waiting_def s2_def)
    ultimately show ?thesis using False e
      by (intro exI [of _ ?t] exI [of _ ?m]) (auto simp: s2_def)
  qed
qed

end

context search_services
begin

text \<open>After the last result the loop returns once more, with an empty entry.\<close>

lemma listing_done:
  assumes l: "listing p i m path entry s" and q: "quiet_link R E (cl_coord s)"
    and a: "answers (cl_env s) = [(msg_reqid m, HYPERDEX_CLIENT_SUCCESS, HYPERDEX_CLIENT_SEARCHDONE, [])]"
  shows "\<exists>st1 s1. loop_rounds V R E t i st s = ret (i, st1, s1) \<and> po_kind (cl_ops s1 p) = Op_readdir path [] (Some '''') \<and>
      idle_client s1 \<and> cl_coord s1 = cl_coord s \<and> cl_cwd s1 = cl_cwd s \<and> store (cl_env s1) = store (cl_env s) \<and> answers (cl_env s1) = []"
proof -
  have w: "waiting p i m s" and m: "is_search (msg_call m)" and k: "po_kind (cl_ops s p) = Op_readdir path [] entry"
    using l by (simp_all add: listing_def)
  from loop_takes_answer [OF q w a, of t st] obtain e s' where
    s': "s' = update_op p (\<lambda>op. op\<lparr>po_outstanding_hyperdex := [m\<lparr>msg_status := HYPERDEX_CLIENT_SEARCHDONE, msg_attrs := []\<rparr>]\<rparr>)
        (s\<lparr>cl_env := e, cl_pending_hyperdex_ops := []\<rparr>)" and
    r: "loop_round V R E t i st s = run_bind (op_handle_hyperdex_message V E p (msg_reqid m) HYPERDEX_CLIENT_SUCCESS s') (\<lambda>(ok, s1).
        ret (if ok then Again (0, st, after_message i p s1) else Leave (-1, st, s1)))"
    and e: "store e = store (cl_env s)" "answers e = []" by blast
  let ?op = "(cl_ops s p)\<lparr>po_kind := Op_readdir path [''''] entry, po_outstanding_hyperdex := []\<rparr>"
  define s2 where "s2 = s\<lparr>cl_env := e, cl_pending_hyperdex_ops := [], cl_ops := (cl_ops s)(p := ?op), cl_yielding := Some p\<rparr>"
  have h: "op_handle_hyperdex_message V E p (msg_reqid m) HYPERDEX_CLIENT_SUCCESS s' =
      ret (True, s\<lparr>cl_env := e, cl_pending_hyperdex_ops := [], cl_ops := (cl_ops s)(p := ?op)\<rparr>)"
    using k m success unfolding s'
    by (simp add: op_handle_hyperdex_message_def readdir_handle_hyperdex_message_def update_op_def first_message_def
        remove_hyperdex_message_def)
  have "after_message i p (s\<lparr>cl_env := e, cl_pending_hyperdex_ops := [], cl_ops := (cl_ops s)(p := ?op)\<rparr>) = s2"
    using w unfolding s2_def by (simp add: after_message_def client_id_of_def waiting_def)
  then have r1: "loop_round V R E t i st s = ret (Again (0, st, s2))" unfolding r h by simp
  let ?t = "(s2\<lparr>cl_ops := (cl_ops s2)(p := ?op\<lparr>po_kind := Op_readdir path [] (Some ''''), po_status := WTF_CLIENT_READDIRDONE, po_done := True\<rparr>)\<rparr>)\<lparr>cl_yielding := None\<rparr>"
  have "\<exists>st1. loop_round V R E t i st s2 = ret (Leave (i, st1, ?t))"
    using w
    by (simp add: loop_round_def loop_yielding_def op_yield_def op_can_yield_def client_id_of_def update_op_def s2_def
        aggregation_done_def waiting_def c_string_def)
  then obtain st1 where "loop_rounds V R E t i st s = ret (i, st1, ?t)"
    using loop_rounds_again [OF r1] by (auto simp: loop_rounds_leave)
  then show ?thesis using w e
    by (intro exI [of _ st1] exI [of _ ?t]) (simp add: s2_def idle_client_def waiting_def)
qed

end

text \<open>The name a key is shown under in the listing of \<open>path\<close>.\<close>

definition shown_name :: "string \<Rightarrow> string \<Rightarrow> string \<Rightarrow> string list" where
  "shown_name cwd path k =
     (if k = cwd then [] else case entry_name path (c_string (drop (length path) k)) of None \<Rightarrow> [] | Some n \<Rightarrow> [n])"

lemma idle_loop_ends: "idle_client s \<Longrightarrow> client_loop V R E i t s = ret (-1, WTF_CLIENT_NONEPENDING, s)"
  by (simp add: client_loop_def inner_loop_def loop_rounds_leave loop_round_def idle_client_def)

context search_services
begin

lemma readdir_loop_lists:
  assumes "\<And>e b. filler e b = (False, b @ [e])" and "listing p i m path entry s" and "quiet_link R E (cl_coord s)"
    and "answers (cl_env s) = search_answers (msg_reqid m) found" and "\<forall>(k, as) \<in> set found. finds as k \<and> take (length path) k = path"
  shows "\<exists>s1. readdir_loop V R E filler path i p buf s = ret (buf @ concat (map (\<lambda>(k, as). shown_name (cl_cwd s) path k) found), s1) \<and>
    idle_client s1 \<and> cl_coord s1 = cl_coord s \<and> cl_cwd s1 = cl_cwd s \<and> store (cl_env s1) = store (cl_env s) \<and> answers (cl_env s1) = []"
  using assms(2-)
proof (induction found arbitrary: m entry s buf)
  case Nil
  have i: "0 < i" using Nil.prems(1) by (simp add: listing_def waiting_def)
  from listing_done [OF Nil.prems(1,2), of "-1" WTF_CLIENT_SUCCESS] Nil.prems(3) obtain st1 s1 where s1:
    "client_loop V R E i (-1) s = ret (i, st1, s1)" "po_kind (cl_ops s1 p) = Op_readdir path [] (Some '''')"
    "idle_client s1" "cl_coord s1 = cl_coord s" "cl_cwd s1 = cl_cwd s" "store (cl_env s1) = store (cl_env s)" "answers (cl_env s1) = []"
    by (auto simp: search_answers_def client_loop_def inner_loop_def)
  have "readdir_loop V R E filler path i p buf s = readdir_loop V R E filler path i p buf s1"
    using s1(1,2) i by (subst readdir_loop.simps) (simp add: entry_name_def)
  also have "\<dots> = ret (buf, s1)" using idle_loop_ends [OF s1(3)] by (subst readdir_loop.simps) simp
  finally show ?case using s1 by simp
next
  case (Cons x found)
  obtain k "as" where x: "x = (k, as)" by (cases x)
  have i: "0 < i" using Cons.prems(1) by (simp add: listing_def waiting_def)
  have a: "answers (cl_env s) = (msg_reqid m, HYPERDEX_CLIENT_SUCCESS, HYPERDEX_CLIENT_SUCCESS, as) # search_answers (msg_reqid m) found"
    using Cons.prems(3) x by (simp add: search_answers_def)
  from listing_result [OF Cons.prems(1,2) a, of k "-1" WTF_CLIENT_SUCCESS] Cons.prems(4) x obtain s1 m1 where
    l: "listing p i m1 path (if k = cl_cwd s then entry else Some (c_string (drop (length path) k))) s1" and
    s1: "msg_reqid m1 = msg_reqid m" "cl_coord s1 = cl_coord s" "cl_cwd s1 = cl_cwd s" "store (cl_env s1) = store (cl_env s)"
      "answers (cl_env s1) = search_answers (msg_reqid m) found" and
    r: "if k = cl_cwd s then client_loop V R E i (-1) s = client_loop V R E i (-1) s1
        else \<exists>st1. client_loop V R E i (-1) s = ret (i, st1, s1)"
    by (auto simp: client_loop_def inner_loop_def)
  have kind: "po_kind (cl_ops s1 p) = Op_readdir path [] (if k = cl_cwd s then entry else Some (c_string (drop (length path) k)))"
    using l by (simp add: listing_def)
  have step: "readdir_loop V R E filler path i p buf s = readdir_loop V R E filler path i p (buf @ shown_name (cl_cwd s) path k) s1"
  proof (cases "k = cl_cwd s")
    case True
    then have "client_loop V R E i (-1) s = client_loop V R E i (-1) s1" using r by simp
    then have "readdir_loop V R E filler path i p buf s = readdir_loop V R E filler path i p buf s1"
      by (subst (1 2) readdir_loop.simps) simp
    then show ?thesis using True by (simp add: shown_name_def)
  next
    case False
    then obtain st1 where "client_loop V R E i (-1) s = ret (i, st1, s1)" using r by auto
    then show ?thesis using kind False i
      by (subst readdir_loop.simps) (simp add: shown_name_def assms(1) split: option.split)
  qed
  have "quiet_link R E (cl_coord s1)" using Cons.prems(2) s1(2) by simp
  from Cons.IH [OF l this, of "buf @ shown_name (cl_cwd s) path k"] s1 Cons.prems(4) x step
  show ?case by auto
qed

end

lemma hx_fresh_number:
  assumes "length (hx_answers e) < u64_bound"
  shows "u64_of_int (hx_fresh e) \<notin> (u64_of_int \<circ> fst) ` set (hx_answers e)"
proof -
  let ?l = "map (u64_of_int \<circ> fst) (hx_answers e)" and ?n = "Suc (length (hx_answers e))"
  have "\<not> {0..<?n} \<subseteq> set ?l"
  proof
    assume "{0..<?n} \<subseteq> set ?l"
    then have "card {0..<?n} \<le> card (set ?l)" by (rule card_mono [rotated]) simp
    also have "\<dots> \<le> length ?l" by (rule card_length)
    finally show False by simp
  qed
  then obtain x where "x \<in> {0..<?n}" "x \<notin> set ?l" by (meson subsetI)
  then have "x \<in> set (filter (\<lambda>n. n \<notin> set ?l) [0..<?n])" by (simp only: set_filter set_upt mem_Collect_eq simp_thms)
  then have "filter (\<lambda>n. n \<notin> set ?l) [0..<?n] \<noteq> []" by (metis empty_iff list.set(1))
  then obtain n ns where f: "filter (\<lambda>n. n \<notin> set ?l) [0..<?n] = n # ns" by (cases "filter (\<lambda>n. n \<notin> set ?l) [0..<?n]") (simp_all del: upt_Suc)
  then have "n \<in> set (filter (\<lambda>n. n \<notin> set ?l) [0..<?n])" by (simp only: list.set_intros)
  then have "n \<notin> set ?l" "n < ?n" unfolding set_filter set_upt by simp_all
  moreover have "u64_of_int (hx_fresh e) = n" using f \<open>n < ?n\<close> assms by (simp add: hx_fresh_def u64_of_int_def)
  ultimately show ?thesis by simp
qed

lemma hx_fresh_nonneg: "0 \<le> hx_fresh e"
  by (simp add: hx_fresh_def split: list.split)

lemma hx_find_finds:
  assumes "(k, as) \<in> set (hx_find path e)"
  shows "finds as k"
  using assms distinct_clearjunk
  by (auto simp: hx_find_def finds_def distinct_map_filter)

interpretation hx: search_services hx_env be_codec hx_store hx_answers "[''blockmap'' \<mapsto> []]"
proof unfold_locales
  show "\<not> ce_negative hx_env HYPERDEX_CLIENT_SUCCESS" by (simp add: hx_env_def)
next
  fix e path r st e'
  assume call: "ce_hyperdex hx_env (HD_search (path_regex path)) e = ((r, st), e')"
  let ?f = "hx_find path e"
  have "distinct (map fst ?f)" using distinct_clearjunk [of "hx_objects e"]
    by (simp add: hx_find_def comp_def case_prod_beta distinct_map_filter)
  moreover have "fst ` set ?f = under path (hx_store e)"
  proof -
    have "fst ` set ?f = {k \<in> fst ` set (AList.clearjunk (hx_objects e)). take (length path) k = path}"
      by (force simp: hx_find_def)
    then show ?thesis by (simp add: dom_clearjunk under_def hx_store_def dom_map_of_conv_image_fst dom_map_option)
  qed
  moreover have "list_all (\<lambda>(k, as). finds as k) ?f" using hx_find_finds by (auto simp: list_all_iff)
  moreover have "r = hx_fresh e" "hx_store e' = hx_store e" "hx_answers e' = hx_answers e @ search_answers r ?f"
    using call by (auto simp: hx_env_def hx_call_def Let_def path_regex_def hx_store_def search_answers_def)
  ultimately show "0 \<le> r \<and> hx_store e' = hx_store e \<and>
      (length (hx_answers e) < u64_bound \<longrightarrow> u64_of_int r \<notin> (u64_of_int \<circ> fst) ` set (hx_answers e)) \<and>
      (\<exists>found. distinct (map fst found) \<and> fst ` set found = under path (hx_store e) \<and> list_all (\<lambda>(k, as). finds as k) found \<and>
         hx_answers e' = hx_answers e @ search_answers r found)"
    using hx_fresh_number hx_fresh_nonneg by blast
next
  fix e k r st e'
  assume call: "ce_hyperdex hx_env (HD_del k) e = ((r, st), e')"
  then have "r = hx_fresh e" "hx_store e' = (hx_store e)(k := None)"
    "hx_answers e' = hx_answers e @ [(r, HYPERDEX_CLIENT_SUCCESS, HYPERDEX_CLIENT_SUCCESS, [])]"
    by (auto simp: hx_env_def hx_call_def Let_def hx_store_def delete_conv' fun_eq_iff)
  then show "0 \<le> r \<and> hx_store e' = (hx_store e)(k := None) \<and>
      (length (hx_answers e) < u64_bound \<longrightarrow> u64_of_int r \<notin> (u64_of_int \<circ> fst) ` set (hx_answers e)) \<and>
      (\<exists>x. hx_answers e' = hx_answers e @ [(r, HYPERDEX_CLIENT_SUCCESS, x, [])])"
    using hx_fresh_number hx_fresh_nonneg by blast
qed

section \<open>What a listing shows\<close>

lemma readdir_launches:
  assumes "idle_client s" and "abs_path path s = Inr (Some abspath)"
    and "ce_hyperdex V (HD_search (path_regex abspath)) (cl_env s) = ((r, st), e)" and "0 \<le> r"
  shows "client_readdir V path s = Inr (cl_next_client_id s, Some WTF_CLIENT_SUCCESS,
    launched V (cl_next_client_id s) (Op_readdir abspath [] None)
      \<lparr>msg_reqid = r, msg_call = HD_search (path_regex abspath), msg_status = st, msg_attrs = []\<rparr> e
      (s\<lparr>cl_next_client_id := cl_next_client_id s + 1\<rparr>))"
proof -
  let ?i = "cl_next_client_id s" and ?k = "Op_readdir abspath [] None"
  let ?s = "s\<lparr>cl_next_client_id := cl_next_client_id s + 1\<rparr>"
  have idle: "idle_client ?s" using assms(1) by (simp add: idle_client_def)
  have "client_readdir V path s = Inr (started ?i (cl_next_ref ?s) (snd (send_hyperdex V (HD_search (path_regex abspath)) (cl_next_ref ?s)
      (?s\<lparr>cl_ops := (cl_ops ?s)(cl_next_ref ?s := op_new ?i ?k), cl_next_ref := Suc (cl_next_ref ?s)\<rparr>))))"
    using assms(2) by (simp add: client_readdir_def next_client_id_def new_op_def readdir_try_op_def Let_def)
  also have "\<dots> = Inr (started ?i (cl_next_ref ?s)
      (launched V ?i ?k \<lparr>msg_reqid = r, msg_call = HD_search (path_regex abspath), msg_status = st, msg_attrs = []\<rparr> e ?s))"
    by (subst send_launches [OF idle]) (use assms in simp_all)
  finally show ?thesis by (simp add: started_def launched_def op_new_def)
qed

lemma take_prefix: "take (length p) k = p \<longleftrightarrow> (\<exists>x. k = p @ x)"
  by (metis append_eq_conv_conj append_take_drop_id)

lemma shown_name_iff:
  assumes "CHR 0x00 \<notin> set x"
  shows "n \<in> set (shown_name cwd dir (dir @ x)) \<longleftrightarrow> dir @ x \<noteq> cwd \<and> CHR ''/'' \<notin> set n \<and> x \<noteq> dir \<and>
    (x = CHR ''/'' # n \<or> x = n \<and> n \<noteq> '''')"
  using assms
  by (cases x) (auto simp: shown_name_def entry_name_def c_string_id Let_def split: if_splits)

context search_services
begin

lemma fuse_readdir_lists:
  assumes filler: "\<And>e b. filler e b = (False, b @ [e])"
    and idle: "idle_client s" "answers (cl_env s) = []" and i: "0 < cl_next_client_id s" and q: "quiet_link R E (cl_coord s)"
    and p: "abs_path path s = Inr (Some dir)" and plain: "plain_path dir" and fin: "finite (dom (store (cl_env s)))"
  shows "\<exists>(found :: (string \<times> hd_attr list) list) s1. fusewtf_readdir V R E filler path [] s =
      ret (0, ''.'' # ''..'' # concat (map (\<lambda>(k, as). shown_name (cl_cwd s) dir k) found), s1) \<and>
    fst ` set found = under dir (store (cl_env s)) \<and> idle_client s1 \<and> store (cl_env s1) = store (cl_env s)"
proof -
  let ?i = "cl_next_client_id s"
  obtain r st e where e: "ce_hyperdex V (HD_search (path_regex dir)) (cl_env s) = ((r, st), e)" by (metis prod.collapse)
  let ?m = "\<lparr>msg_reqid = r, msg_call = HD_search (path_regex dir), msg_status = st, msg_attrs = []\<rparr>"
  let ?k = "Op_readdir dir [] None"
  let ?l = "launched V ?i ?k ?m e (s\<lparr>cl_next_client_id := ?i + 1\<rparr>)"
  from search_call [OF e plain fin] idle(2) obtain found where r: "0 \<le> r" "store e = store (cl_env s)"
    and found: "fst ` set found = under dir (store (cl_env s))" "list_all (\<lambda>(k, as). finds as k) found"
      "answers e = search_answers r found" by auto
  have call: "client_readdir V path s = Inr (?i, Some WTF_CLIENT_SUCCESS, ?l)" by (rule readdir_launches [OF idle(1) p e r(1)])
  have "idle_client (s\<lparr>cl_next_client_id := ?i + 1\<rparr>)" using idle(1) by (simp add: idle_client_def)
  from launched_waiting [OF this i, where V = V and k = ?k and m = ?m and e = e]
  have l: "listing (cl_next_ref s) ?i ?m dir None ?l" by (simp add: listing_def is_search_def launched_def op_new_def)
  have f: "\<forall>(k, as) \<in> set found. finds as k \<and> take (length dir) k = dir"
  proof (clarify)
    fix k "as" assume k: "(k, as) \<in> set found"
    then have "k \<in> fst ` set found" by (metis fst_conv image_eqI)
    then have "take (length dir) k = dir" unfolding found(1) by (simp add: under_def)
    with k found(2) show "finds as k \<and> take (length dir) k = dir" by (auto simp: list_all_iff)
  qed
  have a: "answers (cl_env ?l) = search_answers (msg_reqid ?m) found" using found(3) by (simp add: launched_def)
  have ql: "quiet_link R E (cl_coord ?l)" using q by (simp add: launched_def)
  from readdir_loop_lists [OF filler l ql a f, of "[''.'', ''..'']"] obtain s1 where s1:
    "readdir_loop V R E filler dir ?i (cl_next_ref s) [''.'', ''..''] ?l =
       ret (''.'' # ''..'' # concat (map (\<lambda>(k, as). shown_name (cl_cwd s) dir k) found), s1)"
    "idle_client s1" "store (cl_env s1) = store (cl_env s)" using r(2) by (auto simp: launched_def)
  have "abs_path path ?l = Inr (Some dir)" using p by (simp add: abs_path_def launched_def)
  moreover have "started_op ?l = cl_next_ref s" by (simp add: started_op_def launched_def)
  ultimately have "fusewtf_readdir V R E filler path [] s =
      ret (0, ''.'' # ''..'' # concat (map (\<lambda>(k, as). shown_name (cl_cwd s) dir k) found), s1)"
    using call i s1(1) by (simp add: fusewtf_readdir_def filler Let_def)
  then show ?thesis using found(1) s1(2,3) by (intro exI [of _ found] exI [of _ s1]) simp
qed

end

text \<open>C15: what the listing of a directory through the file system shows. It always works, and after
  the two dots it has the names of the directory's entries, but with two exceptions: an entry whose
  name behind the directory repeats the whole path of the directory (\<open>/a/a\<close> in \<open>/a\<close>) is left out, and
  every other name that begins like the directory's path (\<open>/ab\<close> for \<open>/a\<close>) is shown with what
  follows, as if it were an entry. The working directory is never shown. (Paths have no characters
  that are special in regular expressions, and keys no zeros.)\<close>

theorem fuse_listing:
  assumes D: "search_services V E store answers blank" and filler: "\<And>e b. filler e b = (False, b @ [e])"
    and idle: "idle_client s" "answers (cl_env s) = []" and i: "0 < cl_next_client_id s" and q: "quiet_link R E (cl_coord s)"
    and p: "abs_path path s = Inr (Some dir)" and plain: "plain_path dir"
    and fin: "finite (dom (store (cl_env s)))" and keys: "\<forall>k \<in> dom (store (cl_env s)). CHR 0x00 \<notin> set k"
  shows "\<exists>names s1. fusewtf_readdir V R E filler path [] s = ret (0, ''.'' # ''..'' # names, s1) \<and>
    idle_client s1 \<and> store (cl_env s1) = store (cl_env s) \<and>
    (\<forall>n. n \<in> set names \<longleftrightarrow> CHR ''/'' \<notin> set n \<and>
       (\<exists>k \<in> dom (store (cl_env s)). k \<noteq> cl_cwd s \<and>
          (k = dir @ ''/'' @ n \<and> ''/'' @ n \<noteq> dir \<or> k = dir @ n \<and> n \<noteq> '''' \<and> n \<noteq> dir)))"
proof -
  from search_services.fuse_readdir_lists [OF D filler idle i q p plain fin] obtain found :: "(string \<times> hd_attr list) list" and s1 where r:
    "fusewtf_readdir V R E filler path [] s = ret (0, ''.'' # ''..'' # concat (map (\<lambda>(k, as). shown_name (cl_cwd s) dir k) found), s1)"
    "fst ` set found = under dir (store (cl_env s))" "idle_client s1" "store (cl_env s1) = store (cl_env s)" by blast
  let ?st = "store (cl_env s)"
  have shown: "n \<in> set (concat (map (\<lambda>(k, as). shown_name (cl_cwd s) dir k) found)) \<longleftrightarrow>
      (\<exists>k \<in> under dir ?st. n \<in> set (shown_name (cl_cwd s) dir k))" for n
    unfolding r(2) [symmetric] by (auto simp: case_prod_beta)
  have "n \<in> set (concat (map (\<lambda>(k, as). shown_name (cl_cwd s) dir k) found)) \<longleftrightarrow> CHR ''/'' \<notin> set n \<and>
      (\<exists>k \<in> dom ?st. k \<noteq> cl_cwd s \<and> (k = dir @ ''/'' @ n \<and> ''/'' @ n \<noteq> dir \<or> k = dir @ n \<and> n \<noteq> '''' \<and> n \<noteq> dir))" for n
  proof -
    have "(\<exists>k \<in> under dir ?st. n \<in> set (shown_name (cl_cwd s) dir k)) \<longleftrightarrow>
        (\<exists>x. dir @ x \<in> dom ?st \<and> n \<in> set (shown_name (cl_cwd s) dir (dir @ x)))"
      by (auto simp: under_def take_prefix)
    also have "\<dots> \<longleftrightarrow> (\<exists>x. dir @ x \<in> dom ?st \<and> dir @ x \<noteq> cl_cwd s \<and> CHR ''/'' \<notin> set n \<and> x \<noteq> dir \<and>
        (x = CHR ''/'' # n \<or> x = n \<and> n \<noteq> ''''))"
    proof -
      have "CHR 0x00 \<notin> set x" if "dir @ x \<in> dom ?st" for x using bspec [OF keys that] by simp
      then show ?thesis by (metis shown_name_iff)
    qed
    finally show ?thesis unfolding shown by auto
  qed
  with r(1,3,4) show ?thesis by blast
qed

text \<open>With \<open>/a\<close>, its entries \<open>x\<close> and \<open>a\<close>, and \<open>/ab\<close>, the listing of \<open>/a\<close> shows \<open>x\<close> and \<open>b\<close>.\<close>

definition hx_tree :: "(string \<times> hd_attr list) list" where
  "hx_tree = [(''/a'', []), (''/a/x'', []), (''/a/a'', []), (''/ab'', [])]"

lemma hx_tree_store: "dom (hx_store (cl_env (hx_client hx_tree))) = {''/a'', ''/a/x'', ''/a/a'', ''/ab''}"
  by (auto simp: hx_client_idle hx_tree_def dom_def split: if_splits)

theorem fuse_listing_witness:
  "\<exists>names s1. fusewtf_readdir hx_env demo_replicant be_codec (\<lambda>e b. (False, b @ [e])) ''/a'' [] (hx_client hx_tree) =
      ret (0, ''.'' # ''..'' # names, s1) \<and> set names = {''x'', ''b''}"
proof -
  let ?s = "hx_client hx_tree"
  have i: "0 < cl_next_client_id ?s" by (simp add: hx_client_idle)
  have plain: "plain_path ''/a''" by (simp add: plain_path_def)
  have fin: "finite (dom (hx_store (cl_env ?s)))" and keys: "\<forall>k \<in> dom (hx_store (cl_env ?s)). CHR 0x00 \<notin> set k"
    by (simp_all add: hx_tree_store)
  have filler: "(\<lambda>e b. (False, b @ [e])) e b = (False, b @ [e])" for e :: string and b by simp
  from fuse_listing [where filler = "\<lambda>e b. (False, b @ [e])", OF hx.search_services_axioms filler hx_client_idle(1,2) i hx_client_idle(4)
      hx_path plain fin keys]
  show ?thesis
  proof (elim exE conjE, intro exI conjI)
    fix names s1
    assume n: "\<forall>n. n \<in> set names \<longleftrightarrow> CHR ''/'' \<notin> set n \<and> (\<exists>k \<in> dom (hx_store (cl_env ?s)). k \<noteq> cl_cwd ?s \<and>
        (k = ''/a'' @ ''/'' @ n \<and> ''/'' @ n \<noteq> ''/a'' \<or> k = ''/a'' @ n \<and> n \<noteq> [] \<and> n \<noteq> ''/a''))"
    show "set names = {''x'', ''b''}"
      by (rule set_eqI, subst n [rule_format], unfold hx_tree_store hx_client_idle(5)) auto
  qed
qed

section \<open>Deleting\<close>

text \<open>
  The operation \<open>p\<close> deletes what its search finds. \<open>search\<close> is the message of the search while it goes
  on, \<open>ds\<close> the numbers of the deletions under way.
\<close>

definition deleting :: "'e client_env \<Rightarrow> op_ref \<Rightarrow> int \<Rightarrow> string \<Rightarrow> int \<Rightarrow> hd_message list \<Rightarrow> hd_message list \<Rightarrow> ('r, 'e) client \<Rightarrow> bool" where
  "deleting V p i path r search ds s \<longleftrightarrow> cl_pending_ops s = [] \<and> cl_failed s = [] \<and> cl_yieldable s = [] \<and> cl_yielding s = None \<and>
     smap_inv (cl_pending_hyperdex_ops s) \<and>
     (\<forall>n. map_of (cl_pending_hyperdex_ops s) n =
        (if n \<in> (u64_of_int \<circ> msg_reqid) ` set (search @ ds) then Some (ce_hyperdex_fd V, p) else None)) \<and>
     cl_ops s p = \<lparr>po_kind = Op_del path r, po_outstanding_wtf = [], po_outstanding_hyperdex = search @ ds,
       po_client_visible_id = i, po_status = WTF_CLIENT_SUCCESS, po_done = False\<rparr> \<and>
     distinct (u64_of_int r # map (u64_of_int \<circ> msg_reqid) ds) \<and>
     (search = [] \<or> (\<exists>m. search = [m] \<and> msg_reqid m = r \<and> is_search (msg_call m))) \<and> 0 < i"

text \<open>The answers to come.\<close>

definition deletion_answers :: "hd_message list \<Rightarrow> hd_answer list \<Rightarrow> bool" where
  "deletion_answers ds as \<longleftrightarrow> list_all2 (\<lambda>m a. \<exists>x. a = (msg_reqid m, HYPERDEX_CLIENT_SUCCESS, x, [])) ds as"

lemma no_pending: "smap_inv m \<Longrightarrow> (\<forall>n. map_of m n = None) \<Longrightarrow> m = []"
  by (metis list.exhaust map_of_Cons_code(2) option.distinct(1) surj_pair)

context search_services
begin

lemma deletion_step:
  assumes d: "deleting V p i path r [m] ds s" and q: "quiet_link R E (cl_coord s)"
    and a: "answers (cl_env s) = (r, HYPERDEX_CLIENT_SUCCESS, HYPERDEX_CLIENT_SUCCESS, as) # search_answers r found @ das"
      "deletion_answers ds das" "length (answers (cl_env s)) < u64_bound"
    and f: "finds as k"
  shows "\<exists>s1 m1 d1 da. loop_rounds V R E t i st s = loop_rounds V R E t i st s1 \<and> deleting V p i path r [m1] (ds @ [d1]) s1 \<and>
      answers (cl_env s1) = search_answers r found @ das @ [da] \<and> deletion_answers (ds @ [d1]) (das @ [da]) \<and>
      store (cl_env s1) = (store (cl_env s))(k := None) \<and> cl_coord s1 = cl_coord s"
proof -
  have D: "cl_pending_ops s = []" "cl_failed s = []" "cl_yieldable s = []" "cl_yielding s = None"
      "smap_inv (cl_pending_hyperdex_ops s)" "msg_reqid m = r" "is_search (msg_call m)" "0 < i"
      "distinct (u64_of_int r # map (u64_of_int \<circ> msg_reqid) ds)"
    and pend: "\<And>n. map_of (cl_pending_hyperdex_ops s) n =
        (if n = u64_of_int r \<or> n \<in> (u64_of_int \<circ> msg_reqid) ` set ds then Some (ce_hyperdex_fd V, p) else None)"
    and op: "cl_ops s p = \<lparr>po_kind = Op_del path r, po_outstanding_wtf = [], po_outstanding_hyperdex = m # ds,
       po_client_visible_id = i, po_status = WTF_CLIENT_SUCCESS, po_done = False\<rparr>"
    using d by (auto simp: deleting_def)
  have "map_of (cl_pending_hyperdex_ops s) (u64_of_int r) = Some (ce_hyperdex_fd V, p)" by (simp add: pend)
  from loop_takes [OF q D(1-4) this a(1), of t i st] obtain e s' where
    s': "s' = update_op p (deliver_hyperdex r HYPERDEX_CLIENT_SUCCESS as)
        (s\<lparr>cl_env := e, cl_pending_hyperdex_ops := m_erase (u64_of_int r) (cl_pending_hyperdex_ops s)\<rparr>)" and
    rd: "loop_round V R E t i st s = run_bind (op_handle_hyperdex_message V E p r HYPERDEX_CLIENT_SUCCESS s') (\<lambda>(ok, s1).
        ret (if ok then Again (0, st, after_message i p s1) else Leave (-1, st, s1)))"
    and e: "store e = store (cl_env s)" "answers e = search_answers r found @ das" by blast
  let ?m = "m\<lparr>msg_status := HYPERDEX_CLIENT_SUCCESS, msg_attrs := as\<rparr>"
  have "msg_reqid x \<noteq> r" if "x \<in> set ds" for x using D(9) that by force
  then have ds: "map (\<lambda>x. if msg_reqid x = r then x\<lparr>msg_status := HYPERDEX_CLIENT_SUCCESS, msg_attrs := as\<rparr> else x) ds = ds"
    by (simp add: map_idI)
  let ?op = "\<lparr>po_kind = Op_del path r, po_outstanding_wtf = [], po_outstanding_hyperdex = ?m # ds,
       po_client_visible_id = i, po_status = WTF_CLIENT_SUCCESS, po_done = False\<rparr>"
  have op': "cl_ops s' p = ?op" unfolding s' using op ds D(6) by (simp add: update_op_def deliver_hyperdex_def)
  obtain r1 st1 e1 where call: "ce_hyperdex V (HD_del k) e = ((r1, st1), e1)" by (metis prod.collapse)
  from del_call [OF call] obtain x where e1: "0 \<le> r1" "store e1 = (store e)(k := None)"
    "length (answers e) < u64_bound \<longrightarrow> u64_of_int r1 \<notin> (u64_of_int \<circ> fst) ` set (answers e)"
    "answers e1 = answers e @ [(r1, HYPERDEX_CLIENT_SUCCESS, x, [])]" by blast
  let ?d = "\<lparr>msg_reqid = r1, msg_call = HD_del k, msg_status = st1, msg_attrs = []\<rparr>"
  have "(u64_of_int \<circ> msg_reqid) ` set ds \<subseteq> (u64_of_int \<circ> fst) ` set das"
  proof
    fix n assume "n \<in> (u64_of_int \<circ> msg_reqid) ` set ds"
    then obtain j where "j < length ds" "n = u64_of_int (msg_reqid (ds ! j))" by (auto simp: in_set_conv_nth)
    moreover from this have "das ! j \<in> set das" "fst (das ! j) = msg_reqid (ds ! j)"
      using a(2) by (auto simp: deletion_answers_def list_all2_conv_all_nth)
    ultimately show "n \<in> (u64_of_int \<circ> fst) ` set das" by force
  qed
  moreover have "u64_of_int r \<in> (u64_of_int \<circ> fst) ` set (search_answers r found)" by (simp add: search_answers_def)
  moreover have "u64_of_int r1 \<notin> (u64_of_int \<circ> fst) ` (set (search_answers r found) \<union> set das)"
    using e1(3) e(2) a(1,3) by simp
  ultimately have fresh: "u64_of_int r1 \<noteq> u64_of_int r" "u64_of_int r1 \<notin> (u64_of_int \<circ> msg_reqid) ` set ds"
    unfolding image_Un by (metis UnI1, blast)
  define s2 where "s2 = add_hyperdex_op V r p (snd (send_hyperdex V (HD_del k) p s'))"
  have h: "op_handle_hyperdex_message V E p r HYPERDEX_CLIENT_SUCCESS s' = ret (True, s2)"
    using op' D(6,7) success finds_found [OF f]
    by (simp add: op_handle_hyperdex_message_def del_handle_hyperdex_message_def first_message_def s2_def)
  have s2: "cl_ops s2 p = ?op\<lparr>po_outstanding_hyperdex := ?m # ds @ [?d]\<rparr>" "cl_env s2 = e1" "cl_coord s2 = cl_coord s"
    "cl_pending_ops s2 = []" "cl_failed s2 = []" "cl_yieldable s2 = []" "cl_yielding s2 = None"
    "cl_pending_hyperdex_ops s2 = m_insert (u64_of_int r) (ce_hyperdex_fd V, p) (m_insert (u64_of_int r1) (ce_hyperdex_fd V, p)
       (m_erase (u64_of_int r) (cl_pending_hyperdex_ops s)))"
    using call e1(1) op op' D unfolding s2_def s'
    by (simp_all add: send_hyperdex_def add_hyperdex_op_def update_op_def handle_sent_to_hyperdex_def)
  let ?s = "s2\<lparr>cl_yielding := None\<rparr>"
  have am: "after_message i p s2 = s2\<lparr>cl_yielding := Some p\<rparr>" using s2(1) by (simp add: after_message_def client_id_of_def)
  have "loop_round V R E t i st s = ret (Again (0, st, s2\<lparr>cl_yielding := Some p\<rparr>))" unfolding rd h by (simp add: am)
  moreover have "loop_round V R E t i st (s2\<lparr>cl_yielding := Some p\<rparr>) = ret (Again (0, st, ?s))"
    using loop_not_yet [of "s2\<lparr>cl_yielding := Some p\<rparr>" p V R E t i st] s2(1)
    by (simp add: op_can_yield_def aggregation_done_def)
  ultimately have "loop_rounds V R E t i st s = loop_rounds V R E t i st ?s" by (simp add: loop_rounds_again)
  moreover have "deleting V p i path r [?m] (ds @ [?d]) ?s"
    using D fresh s2 pend unfolding deleting_def
    by (auto simp: smap_inv_insert smap_inv_erase map_of_insert map_of_erase)
  ultimately show ?thesis using s2(2,3) e e1 a(2)
    by (intro exI [of _ ?s] exI [of _ ?m] exI [of _ ?d] exI [of _ "(r1, HYPERDEX_CLIENT_SUCCESS, x, [])"])
      (simp add: deletion_answers_def list_all2_appendI)
qed

end

lemma deletion_ends:
  assumes r: "loop_round V R E t i st s = ret (Again (0, st, s2\<lparr>cl_yielding := Some p\<rparr>))" and d: "deleting V p i path r [] ds s2"
  shows "if ds = [] then \<exists>s3. loop_rounds V R E t i st s = ret (i, WTF_CLIENT_SUCCESS, s3) \<and> idle_client s3 \<and> cl_env s3 = cl_env s2
    else loop_rounds V R E t i st s = loop_rounds V R E t i st s2"
proof (cases "ds = []")
  case True
  let ?s = "s2\<lparr>cl_yielding := Some p\<rparr>"
  have op: "cl_ops s2 p = \<lparr>po_kind = Op_del path r, po_outstanding_wtf = [], po_outstanding_hyperdex = [],
       po_client_visible_id = i, po_status = WTF_CLIENT_SUCCESS, po_done = False\<rparr>"
    using d True by (simp add: deleting_def)
  have "cl_pending_hyperdex_ops s2 = []" using d True by (intro no_pending) (simp_all add: deleting_def)
  then have "idle_client ((update_op p (\<lambda>op. op\<lparr>po_done := True\<rparr>) ?s)\<lparr>cl_yielding := None\<rparr>)"
    using d by (simp add: idle_client_def deleting_def update_op_def)
  moreover have "loop_round V R E t i st ?s = ret (Leave (i, WTF_CLIENT_SUCCESS, (update_op p (\<lambda>op. op\<lparr>po_done := True\<rparr>) ?s)\<lparr>cl_yielding := None\<rparr>))"
    by (rule loop_hands_over) (use op in \<open>simp_all add: plain_kind_def aggregation_done_def\<close>)
  ultimately show ?thesis using True loop_rounds_again [OF r] by (auto simp: loop_rounds_leave update_op_def)
next
  case False
  let ?s = "s2\<lparr>cl_yielding := Some p\<rparr>"
  have "cl_yielding s2 = None" using d by (simp add: deleting_def)
  then have "?s\<lparr>cl_yielding := None\<rparr> = s2" by (intro client.equality) simp_all
  moreover have "loop_round V R E t i st ?s = ret (Again (0, st, ?s\<lparr>cl_yielding := None\<rparr>))"
  proof (rule loop_not_yet)
    have "cl_ops s2 p = \<lparr>po_kind = Op_del path r, po_outstanding_wtf = [], po_outstanding_hyperdex = ds,
       po_client_visible_id = i, po_status = WTF_CLIENT_SUCCESS, po_done = False\<rparr>"
      using d by (simp add: deleting_def)
    then show "\<not> op_can_yield p ?s" using False by (simp add: op_can_yield_def aggregation_done_def)
  qed simp
  ultimately show ?thesis using False loop_rounds_again [OF r] by (simp add: loop_rounds_again)
qed

context search_services
begin

lemma search_ends:
  assumes d: "deleting V p i path r [m] ds s" and q: "quiet_link R E (cl_coord s)"
    and a: "answers (cl_env s) = (r, HYPERDEX_CLIENT_SUCCESS, HYPERDEX_CLIENT_SEARCHDONE, []) # das"
  shows "\<exists>s2. loop_round V R E t i st s = ret (Again (0, st, s2\<lparr>cl_yielding := Some p\<rparr>)) \<and> deleting V p i path r [] ds s2 \<and>
      answers (cl_env s2) = das \<and> store (cl_env s2) = store (cl_env s) \<and> cl_coord s2 = cl_coord s"
proof -
  have D: "cl_pending_ops s = []" "cl_failed s = []" "cl_yieldable s = []" "cl_yielding s = None"
      "smap_inv (cl_pending_hyperdex_ops s)" "msg_reqid m = r" "is_search (msg_call m)" "0 < i"
      "distinct (u64_of_int r # map (u64_of_int \<circ> msg_reqid) ds)"
    and pend: "\<And>n. map_of (cl_pending_hyperdex_ops s) n =
        (if n = u64_of_int r \<or> n \<in> (u64_of_int \<circ> msg_reqid) ` set ds then Some (ce_hyperdex_fd V, p) else None)"
    and op: "cl_ops s p = \<lparr>po_kind = Op_del path r, po_outstanding_wtf = [], po_outstanding_hyperdex = m # ds,
       po_client_visible_id = i, po_status = WTF_CLIENT_SUCCESS, po_done = False\<rparr>"
    using d by (auto simp: deleting_def)
  have "map_of (cl_pending_hyperdex_ops s) (u64_of_int r) = Some (ce_hyperdex_fd V, p)" by (simp add: pend)
  from loop_takes [OF q D(1-4) this a(1), of t i st] obtain e s' where
    s': "s' = update_op p (deliver_hyperdex r HYPERDEX_CLIENT_SEARCHDONE [])
        (s\<lparr>cl_env := e, cl_pending_hyperdex_ops := m_erase (u64_of_int r) (cl_pending_hyperdex_ops s)\<rparr>)" and
    rd: "loop_round V R E t i st s = run_bind (op_handle_hyperdex_message V E p r HYPERDEX_CLIENT_SUCCESS s') (\<lambda>(ok, s1).
        ret (if ok then Again (0, st, after_message i p s1) else Leave (-1, st, s1)))"
    and e: "store e = store (cl_env s)" "answers e = das" by blast
  have "msg_reqid x \<noteq> r" if "x \<in> set ds" for x using D(9) that by force
  then have ds: "map (\<lambda>x. if msg_reqid x = r then x\<lparr>msg_status := HYPERDEX_CLIENT_SEARCHDONE, msg_attrs := []\<rparr> else x) ds = ds"
    by (simp add: map_idI)
  let ?s = "update_op p (remove_hyperdex_message r) s'"
  have h: "op_handle_hyperdex_message V E p r HYPERDEX_CLIENT_SUCCESS s' = ret (True, ?s)"
    using op D(6,7) success ds unfolding s'
    by (simp add: op_handle_hyperdex_message_def del_handle_hyperdex_message_def first_message_def update_op_def deliver_hyperdex_def)
  have am: "after_message i p ?s = ?s\<lparr>cl_yielding := Some p\<rparr>"
    using op unfolding s' by (simp add: after_message_def client_id_of_def update_op_def deliver_hyperdex_def remove_hyperdex_message_def)
  have "deleting V p i path r [] ds ?s"
    using D op pend ds unfolding deleting_def s'
    by (auto simp: smap_inv_erase map_of_erase update_op_def deliver_hyperdex_def remove_hyperdex_message_def)
  moreover have "loop_round V R E t i st s = ret (Again (0, st, ?s\<lparr>cl_yielding := Some p\<rparr>))" unfolding rd h by (simp add: am)
  ultimately show ?thesis using e unfolding s' by (intro exI [of _ ?s]) (simp add: s' update_op_def)
qed

lemma deletion_answered:
  assumes d: "deleting V p i path r [] (m # ds) s" and q: "quiet_link R E (cl_coord s)"
    and a: "answers (cl_env s) = (msg_reqid m, HYPERDEX_CLIENT_SUCCESS, x, []) # das"
  shows "\<exists>s2. loop_round V R E t i st s = ret (Again (0, st, s2\<lparr>cl_yielding := Some p\<rparr>)) \<and> deleting V p i path r [] ds s2 \<and>
      answers (cl_env s2) = das \<and> store (cl_env s2) = store (cl_env s) \<and> cl_coord s2 = cl_coord s"
proof -
  let ?r = "msg_reqid m"
  have D: "cl_pending_ops s = []" "cl_failed s = []" "cl_yieldable s = []" "cl_yielding s = None"
      "smap_inv (cl_pending_hyperdex_ops s)" "0 < i"
      "distinct (u64_of_int r # map (u64_of_int \<circ> msg_reqid) (m # ds))"
    and pend: "\<And>n. map_of (cl_pending_hyperdex_ops s) n =
        (if n = u64_of_int ?r \<or> n \<in> (u64_of_int \<circ> msg_reqid) ` set ds then Some (ce_hyperdex_fd V, p) else None)"
    and op: "cl_ops s p = \<lparr>po_kind = Op_del path r, po_outstanding_wtf = [], po_outstanding_hyperdex = m # ds,
       po_client_visible_id = i, po_status = WTF_CLIENT_SUCCESS, po_done = False\<rparr>"
    using d by (auto simp: deleting_def)
  have "map_of (cl_pending_hyperdex_ops s) (u64_of_int ?r) = Some (ce_hyperdex_fd V, p)" by (simp add: pend)
  from loop_takes [OF q D(1-4) this a(1), of t i st] obtain e s' where
    s': "s' = update_op p (deliver_hyperdex ?r x [])
        (s\<lparr>cl_env := e, cl_pending_hyperdex_ops := m_erase (u64_of_int ?r) (cl_pending_hyperdex_ops s)\<rparr>)" and
    rd: "loop_round V R E t i st s = run_bind (op_handle_hyperdex_message V E p ?r HYPERDEX_CLIENT_SUCCESS s') (\<lambda>(ok, s1).
        ret (if ok then Again (0, st, after_message i p s1) else Leave (-1, st, s1)))"
    and e: "store e = store (cl_env s)" "answers e = das" by blast
  have "msg_reqid y \<noteq> ?r" if "y \<in> set ds" for y using D(7) that by (auto simp: image_iff)
  then have ds: "map (\<lambda>y. if msg_reqid y = ?r then y\<lparr>msg_status := x, msg_attrs := []\<rparr> else y) ds = ds"
    by (simp add: map_idI)
  have ne: "?r \<noteq> r" using D(7) by auto
  let ?s = "update_op p (remove_hyperdex_message ?r) s'"
  have h: "op_handle_hyperdex_message V E p ?r HYPERDEX_CLIENT_SUCCESS s' = ret (True, ?s)"
    using op ne ds unfolding s'
    by (simp add: op_handle_hyperdex_message_def del_handle_hyperdex_message_def update_op_def deliver_hyperdex_def)
  have am: "after_message i p ?s = ?s\<lparr>cl_yielding := Some p\<rparr>"
    using op unfolding s' by (simp add: after_message_def client_id_of_def update_op_def deliver_hyperdex_def remove_hyperdex_message_def)
  have "deleting V p i path r [] ds ?s"
    using D op pend ds unfolding deleting_def s'
    by (auto simp: smap_inv_erase map_of_erase update_op_def deliver_hyperdex_def remove_hyperdex_message_def)
  moreover have "loop_round V R E t i st s = ret (Again (0, st, ?s\<lparr>cl_yielding := Some p\<rparr>))" unfolding rd h by (simp add: am)
  ultimately show ?thesis using e unfolding s' by (intro exI [of _ ?s]) (simp add: s' update_op_def)
qed

text \<open>The whole of the deletion.\<close>

lemma deletions_complete:
  assumes "deleting V p i path r [] ds s" and "ds \<noteq> []" and "quiet_link R E (cl_coord s)" and "deletion_answers ds (answers (cl_env s))"
  shows "\<exists>s1. loop_rounds V R E t i st s = ret (i, WTF_CLIENT_SUCCESS, s1) \<and> idle_client s1 \<and> store (cl_env s1) = store (cl_env s)"
  using assms
proof (induction ds arbitrary: s)
  case (Cons m ds)
  obtain x das where a: "answers (cl_env s) = (msg_reqid m, HYPERDEX_CLIENT_SUCCESS, x, []) # das" "deletion_answers ds das"
    using Cons.prems(4) by (auto simp: deletion_answers_def list_all2_Cons1)
  from deletion_answered [OF Cons.prems(1,3) a(1), of t st] obtain s2 where s2:
    "loop_round V R E t i st s = ret (Again (0, st, s2\<lparr>cl_yielding := Some p\<rparr>))" "deleting V p i path r [] ds s2"
    "answers (cl_env s2) = das" "store (cl_env s2) = store (cl_env s)" "cl_coord s2 = cl_coord s" by blast
  show ?case
  proof (cases "ds = []")
    case True
    then show ?thesis using deletion_ends [OF s2(1,2)] s2(4) by auto
  next
    case False
    then have "loop_rounds V R E t i st s = loop_rounds V R E t i st s2" using deletion_ends [OF s2(1,2)] by simp
    then show ?thesis using Cons.IH [OF s2(2) False] s2 a(2) Cons.prems(3) by auto
  qed
qed simp

lemma search_deletes:
  assumes "deleting V p i path r [m] ds s" and "quiet_link R E (cl_coord s)"
    and "answers (cl_env s) = search_answers r found @ das" and "deletion_answers ds das"
    and "length (answers (cl_env s)) < u64_bound" and "list_all (\<lambda>(k, as). finds as k) found"
  shows "\<exists>s1. loop_rounds V R E t i st s = ret (i, WTF_CLIENT_SUCCESS, s1) \<and> idle_client s1 \<and>
    store (cl_env s1) = (\<lambda>k. if k \<in> fst ` set found then None else store (cl_env s) k)"
  using assms
proof (induction found arbitrary: m ds das s)
  case Nil
  have a: "answers (cl_env s) = (r, HYPERDEX_CLIENT_SUCCESS, HYPERDEX_CLIENT_SEARCHDONE, []) # das"
    using Nil.prems(3) by (simp add: search_answers_def)
  from search_ends [OF Nil.prems(1,2) a, of t st] obtain s2 where s2:
    "loop_round V R E t i st s = ret (Again (0, st, s2\<lparr>cl_yielding := Some p\<rparr>))" "deleting V p i path r [] ds s2"
    "answers (cl_env s2) = das" "store (cl_env s2) = store (cl_env s)" "cl_coord s2 = cl_coord s" by blast
  show ?case
  proof (cases "ds = []")
    case True
    then show ?thesis using deletion_ends [OF s2(1,2)] s2(4) by auto
  next
    case False
    then have "loop_rounds V R E t i st s = loop_rounds V R E t i st s2" using deletion_ends [OF s2(1,2)] by simp
    then show ?thesis using deletions_complete [OF s2(2) False] s2 Nil.prems(2,4) by auto
  qed
next
  case (Cons y found)
  obtain k "as" where y: "y = (k, as)" by (cases y)
  have a: "answers (cl_env s) = (r, HYPERDEX_CLIENT_SUCCESS, HYPERDEX_CLIENT_SUCCESS, as) # search_answers r found @ das"
    using Cons.prems(3) y by (simp add: search_answers_def)
  have f: "finds as k" using Cons.prems(6) y by simp
  from deletion_step [OF Cons.prems(1,2) a Cons.prems(4,5) f, of t st] obtain s1 m1 d1 da where s1:
    "loop_rounds V R E t i st s = loop_rounds V R E t i st s1" "deleting V p i path r [m1] (ds @ [d1]) s1"
    "answers (cl_env s1) = search_answers r found @ das @ [da]" "deletion_answers (ds @ [d1]) (das @ [da])"
    "store (cl_env s1) = (store (cl_env s))(k := None)" "cl_coord s1 = cl_coord s" by blast
  have "length (answers (cl_env s1)) < u64_bound" using Cons.prems(5) a s1(3) by simp
  moreover have "quiet_link R E (cl_coord s1)" using Cons.prems(2) s1(6) by simp
  moreover have "list_all (\<lambda>(k, as). finds as k) found" using Cons.prems(6) by simp
  ultimately obtain s2 where "loop_rounds V R E t i st s1 = ret (i, WTF_CLIENT_SUCCESS, s2)" "idle_client s2"
    "store (cl_env s2) = (\<lambda>k. if k \<in> fst ` set found then None else store (cl_env s1) k)"
    using Cons.IH [OF s1(2) _ s1(3,4)] by blast
  then show ?case using s1(1,5) y by (intro exI [of _ s2]) (auto simp: fun_eq_iff)
qed

end

section \<open>What a deletion deletes\<close>

lemma unlink_launches:
  assumes "idle_client s" and "abs_path path s = Inr (Some abspath)"
    and "ce_hyperdex V (HD_search (path_regex abspath)) (cl_env s) = ((r, st), e)" and "0 \<le> r"
  shows "client_unlink V path s = Inr (cl_next_client_id s, Some WTF_CLIENT_SUCCESS,
    launched V (cl_next_client_id s) (Op_del abspath r)
      \<lparr>msg_reqid = r, msg_call = HD_search (path_regex abspath), msg_status = st, msg_attrs = []\<rparr> e
      (s\<lparr>cl_next_client_id := cl_next_client_id s + 1\<rparr>))"
proof -
  let ?i = "cl_next_client_id s" and ?k = "Op_del abspath 0" and ?call = "HD_search (path_regex abspath)"
  let ?m = "\<lparr>msg_reqid = r, msg_call = ?call, msg_status = st, msg_attrs = []\<rparr>"
  let ?s = "s\<lparr>cl_next_client_id := cl_next_client_id s + 1\<rparr>"
  let ?t = "?s\<lparr>cl_ops := (cl_ops ?s)(cl_next_ref ?s := op_new ?i ?k), cl_next_ref := Suc (cl_next_ref ?s)\<rparr>"
  have idle: "idle_client ?s" using assms(1) by (simp add: idle_client_def)
  have "snd (send_hyperdex V ?call (cl_next_ref ?s) ?t) = launched V ?i ?k ?m e ?s"
    by (rule send_launches [OF idle]) (use assms(3,4) in simp_all)
  moreover have "fst (send_hyperdex V ?call (cl_next_ref ?s) ?t) = r"
    using assms(3,4) by (simp add: send_hyperdex_def)
  ultimately have "send_hyperdex V ?call (cl_next_ref ?s) ?t = (r, launched V ?i ?k ?m e ?s)" by (metis prod.collapse)
  then have "del_try_op V (cl_next_ref ?s) abspath ?t = launched V ?i (Op_del abspath r) ?m e ?s"
    using assms(4) by (simp add: del_try_op_def update_op_def launched_def op_new_def)
  moreover have "client_unlink V path s = Inr (started ?i (cl_next_ref ?s) (del_try_op V (cl_next_ref ?s) abspath ?t))"
    using assms(2) by (simp add: client_unlink_def with_path_def next_client_id_def new_op_def Let_def)
  ultimately show ?thesis by (simp add: started_def launched_def op_new_def)
qed

text \<open>C17: deleting a name deletes every object whose path begins with it: the operation and its loop
  succeed, the client is idle, and HyperDex has lost exactly the keys with that prefix: the entries of
  the directory, which is what a recursive removal wants, and also every neighbour whose name goes on
  from the deleted one (\<open>/ab\<close> goes with \<open>/a\<close>). (The path has no characters that are special in
  regular expressions, and fewer than $2^{64}$ requests are open at a time.)\<close>

theorem unlink_removes_prefix:
  assumes D: "search_services V E store answers blank"
    and idle: "idle_client s" "answers (cl_env s) = []" and i: "0 < cl_next_client_id s" and q: "quiet_link R E (cl_coord s)"
    and p: "abs_path path s = Inr (Some abspath)" and plain: "plain_path abspath"
    and fin: "finite (dom (store (cl_env s)))" and card: "card (under abspath (store (cl_env s))) + 1 < u64_bound"
  shows "\<exists>s1 s2. client_unlink V path s = Inr (cl_next_client_id s, Some WTF_CLIENT_SUCCESS, s1) \<and>
    client_loop V R E (cl_next_client_id s) t s1 = ret (cl_next_client_id s, WTF_CLIENT_SUCCESS, s2) \<and> idle_client s2 \<and>
    store (cl_env s2) = (\<lambda>k. if take (length abspath) k = abspath then None else store (cl_env s) k)"
proof -
  let ?i = "cl_next_client_id s" and ?call = "HD_search (path_regex abspath)" and ?st = "store (cl_env s)"
  obtain r st e where e: "ce_hyperdex V ?call (cl_env s) = ((r, st), e)" by (metis prod.collapse)
  let ?m = "\<lparr>msg_reqid = r, msg_call = ?call, msg_status = st, msg_attrs = []\<rparr>"
  let ?l = "launched V ?i (Op_del abspath r) ?m e (s\<lparr>cl_next_client_id := ?i + 1\<rparr>)"
  from search_services.search_call [OF D e plain fin] idle(2) obtain found where r: "0 \<le> r" "store e = ?st"
    and found: "distinct (map fst found)" "fst ` set found = under abspath ?st" "list_all (\<lambda>(k, as). finds as k) found"
      "answers e = search_answers r found" by auto
  have call: "client_unlink V path s = Inr (?i, Some WTF_CLIENT_SUCCESS, ?l)" by (rule unlink_launches [OF idle(1) p e r(1)])
  have "deleting V (cl_next_ref s) ?i abspath r [?m] [] ?l"
    using idle(1) i
    by (auto simp: deleting_def launched_def op_new_def idle_client_def is_search_def smap_inv_def)
  moreover have "quiet_link R E (cl_coord ?l)" using q by (simp add: launched_def)
  moreover have "answers (cl_env ?l) = search_answers r found @ []" using found(4) by (simp add: launched_def)
  moreover have "deletion_answers [] []" by (simp add: deletion_answers_def)
  moreover have "length (answers (cl_env ?l)) < u64_bound"
  proof -
    have "length found = card (fst ` set found)" using distinct_card [OF found(1)] by simp
    then show ?thesis using found(2,4) card by (simp add: launched_def search_answers_def)
  qed
  ultimately obtain s2 where s2: "loop_rounds V R E t ?i WTF_CLIENT_SUCCESS ?l = ret (?i, WTF_CLIENT_SUCCESS, s2)"
    "idle_client s2" "store (cl_env s2) = (\<lambda>k. if k \<in> fst ` set found then None else store (cl_env ?l) k)"
    using search_services.search_deletes [OF D _ _ _ _ _ found(3)] by blast
  have "store (cl_env s2) = (\<lambda>k. if take (length abspath) k = abspath then None else ?st k)"
    using s2(3) r(2) unfolding found(2) by (auto simp: under_def launched_def fun_eq_iff dom_def)
  with call s2(1,2) show ?thesis by (simp add: client_loop_def inner_loop_def)
qed

text \<open>Deleting \<open>/a\<close> with its two entries deletes \<open>/ab\<close> as well.\<close>

theorem unlink_removes_prefix_witness:
  "\<exists>s1 s2. client_unlink hx_env ''/a'' (hx_client hx_tree) = Inr (1, Some WTF_CLIENT_SUCCESS, s1) \<and>
     client_loop hx_env demo_replicant be_codec 1 (-1) s1 = ret (1, WTF_CLIENT_SUCCESS, s2) \<and>
     hx_store (cl_env s2) = Map.empty"
proof -
  let ?s = "hx_client hx_tree"
  have i: "0 < cl_next_client_id ?s" and one: "cl_next_client_id ?s = 1" by (simp_all add: hx_client_idle)
  have plain: "plain_path ''/a''" by (simp add: plain_path_def)
  have fin: "finite (dom (hx_store (cl_env ?s)))" by (simp add: hx_tree_store)
  have u: "under ''/a'' (hx_store (cl_env ?s)) = {''/a'', ''/a/x'', ''/a/a'', ''/ab''}"
    by (auto simp: under_def hx_tree_store)
  then have card: "card (under ''/a'' (hx_store (cl_env ?s))) + 1 < u64_bound" by simp
  have all: "(\<lambda>k. if take (length ''/a'') k = ''/a'' then None else hx_store (cl_env ?s) k) = Map.empty"
  proof
    fix k
    have "k \<in> dom (hx_store (cl_env ?s)) \<Longrightarrow> take (length ''/a'') k = ''/a''" unfolding hx_tree_store by auto
    then show "(if take (length ''/a'') k = ''/a'' then None else hx_store (cl_env ?s) k) = None" by auto
  qed
  from unlink_removes_prefix [OF hx.search_services_axioms hx_client_idle(1,2) i hx_client_idle(4) hx_path plain fin card, where t = "-1"]
  show ?thesis unfolding all one by blast
qed

end
