(* ===== verification/Rereplicate.thy ===== *)
theory Rereplicate
  imports ClientOps Tools
begin

text \<open>
  \<open>client/rereplicate.cc\<close>: the repair of the replicas of a server that has failed. \<open>replicate_all\<close>
  checks that the server is not available and calls \<open>replicate_one\<close> for every path it finds with a
  HyperDex client of its own; the body of \<open>replicate_one\<close> is commented out. HyperDex's client is
  a parameter: its search, and its loop with the status and the attributes it fills.
  The main program is \<open>tools/backup.cc\<close>.
\<close>

record 'h repair_ops =
  rp_search :: "string \<Rightarrow> 'h \<Rightarrow> 'h"
  rp_loop :: "'h \<Rightarrow> (hyperdex_status \<times> hd_attr list) \<times> 'h"

definition replicate_one :: "string \<Rightarrow> server_id \<Rightarrow> int" where
  "replicate_one path sid = 0"

text \<open>What is done with one result: the results of the calls are not used.\<close>

definition replicate_found :: "hd_attr list \<Rightarrow> server_id \<Rightarrow> int list" where
  "replicate_found attrs sid = map (\<lambda>a. replicate_one (c_string (string_of_bytes (snd a))) sid) (filter (\<lambda>a. fst a = ''path'') attrs)"

text \<open>The loop over the results; the calls of \<open>replicate_one\<close> are returned with what they return.\<close>

partial_function (option) replicate_loop ::
  "'h repair_ops \<Rightarrow> server_id \<Rightarrow> int list \<Rightarrow> 'h \<Rightarrow> (int list \<times> 'h) option" where
  "replicate_loop H sid calls h =
     (let ((st, attrs), h1) = rp_loop H h
      in if st \<noteq> HYPERDEX_CLIENT_SUCCESS then Some (calls, h1)
         else replicate_loop H sid (calls @ replicate_found attrs sid) h1)"

definition replicate_all ::
  "'r replicant_ops \<Rightarrow> e_codec \<Rightarrow> 'e client_env \<Rightarrow> 'h repair_ops \<Rightarrow> server_id \<Rightarrow> 'h \<Rightarrow> ('r, 'e) client \<Rightarrow>
     (int \<times> 'h \<times> ('r, 'e) client) run" where
  "replicate_all R E V H sid h s =
     run_bind (maintain_coord_connection V R E s) (\<lambda>(failure, s1).
       case failure of
         Some _ \<Rightarrow> ret (-1, h, s1)
       | None \<Rightarrow>
           if get_state sid (lk_config (cl_coord s1)) = AVAILABLE then ret (0, h, s1)
           else
             (case replicate_loop H sid [] (rp_search H ''^'' h) of
                None \<Rightarrow> None
              | Some (_, h1) \<Rightarrow> ret (0, h1, s1)))"

text \<open>
  \<open>tools/backup.cc\<close> from the arguments that are not options; \<open>path\<close> is its option. The client is new
  (\<open>s\<close>), and the result of the repair is the exit status.
\<close>

definition tool_backup ::
  "'r replicant_ops \<Rightarrow> e_codec \<Rightarrow> 'e client_env \<Rightarrow> 'h repair_ops \<Rightarrow> string option \<Rightarrow> byte list list \<Rightarrow> 'h \<Rightarrow>
     ('r, 'e) client \<Rightarrow> (int \<times> 'h \<times> ('r, 'e) client) run" where
  "tool_backup R E V H path args h s =
     (case args of
        [arg] \<Rightarrow>
          (case parse_token arg of
             None \<Rightarrow> ret (1, h, s)
           | Some sid \<Rightarrow>
               (case path of
                  Some p \<Rightarrow> ret (replicate_one p sid, h, s)
                | None \<Rightarrow> replicate_all R E V H sid h s))
      | _ \<Rightarrow> ret (1, h, s))"

text \<open>A search with finitely many results: the repair ends, and each path is visited once.\<close>

inductive finds_paths :: "'h repair_ops \<Rightarrow> 'h \<Rightarrow> string list \<Rightarrow> 'h \<Rightarrow> bool" for H where
  finds_end: "fst (fst (rp_loop H h)) \<noteq> HYPERDEX_CLIENT_SUCCESS \<Longrightarrow> finds_paths H h [] (snd (rp_loop H h))"
| finds_path: "rp_loop H h = ((HYPERDEX_CLIENT_SUCCESS, attrs), h1) \<Longrightarrow> finds_paths H h1 ps h2 \<Longrightarrow>
    finds_paths H h (map (c_string \<circ> string_of_bytes \<circ> snd) (filter (\<lambda>a. fst a = ''path'') attrs) @ ps) h2"

lemma replicate_loop_ends:
  "finds_paths H h ps h2 \<Longrightarrow> replicate_loop H sid calls h = Some (calls @ map (\<lambda>p. replicate_one p sid) ps, h2)"
proof (induction arbitrary: calls rule: finds_paths.induct)
  case (finds_end h)
  then show ?case by (subst replicate_loop.simps) (simp add: split_beta)
next
  case (finds_path h attrs h1 ps h2)
  then show ?case by (subst replicate_loop.simps) (simp add: replicate_found_def comp_def)
qed

text \<open>
  The repair of the replicas repairs nothing. When the coordinator is reached and the search for
  all paths comes to an end, \<open>replicate_all\<close> returns 0, success, after a search that has shown it every
  path, and the client and through it the daemons and HyperDex are as maintaining the link left them:
  no file has been read or written. The answer is the same for a server that is available.
\<close>

lemma repair_does_nothing:
  assumes "maintain_coord_connection V R E s = ret (None, s1)" and "finds_paths H (rp_search H ''^'' h) ps h2"
  shows "replicate_all R E V H sid h s =
    ret (0, if get_state sid (lk_config (cl_coord s1)) = AVAILABLE then h else h2, s1)"
  using assms replicate_loop_ends [OF assms(2)] by (simp add: replicate_all_def)

text \<open>So the tool that asks for the repair of one file succeeds at once and has done nothing.\<close>

lemma backup_of_a_file: "parse_token arg = Some sid \<Longrightarrow> tool_backup R E V H (Some path) [arg] h s = ret (0, h, s)"
  by (simp add: tool_backup_def replicate_one_def)

end
