(* ===== verification/WriteSession.thy ===== *)
theory WriteSession
  imports WritePath
begin

text \<open>
  A client that appends to a file, one buffer after the other: what the daemons hold and the block
  map says after any number of writes, whatever the order in which messages were delivered.
\<close>

section \<open>Sessions\<close>

text \<open>
  Each write is followed by a time in which the network comes to rest and the answers arrive, and by
  the loop. The outcomes are the numbers and statuses of the call and of the loop.
\<close>

type_synonym outcome = "int \<times> wtf_client_returncode option \<times> int \<times> wtf_client_returncode"

inductive session ::
  "'e client_env \<Rightarrow> 'r replicant_ops \<Rightarrow> 'db kv_ops \<Rightarrow> e_codec \<Rightarrow> ('e \<Rightarrow> packet list) \<Rightarrow> ('e \<Rightarrow> packet list) \<Rightarrow>
     ('e \<Rightarrow> string \<Rightarrow> hd_object option) \<Rightarrow> ('e \<Rightarrow> hd_result list) \<Rightarrow> int \<Rightarrow>
     byte list list \<Rightarrow> outcome list \<Rightarrow> ('r, 'e) client \<Rightarrow> 'db network \<Rightarrow> ('r, 'e) client \<Rightarrow> 'db network \<Rightarrow> bool"
  for V R K E sent inbox store results fd where
  session_end: "session V R K E sent inbox store results fd [] [] s N s N"
| session_write: "client_write V E fd buf s = ret (i, st, s1) \<Longrightarrow> sent (cl_env s1) = sent (cl_env s) @ out \<Longrightarrow>
    (net_step K E ^^ m) (N\<lparr>net_flight := mset (map (Pair (cl_token s)) out), net_clients := {#}\<rparr>) N1 \<Longrightarrow> net_flight N1 = {#} \<Longrightarrow>
    mset (map (\<lambda>(j, msg). (j, cl_token s, msg)) (inbox e)) = net_clients N1 \<Longrightarrow> results e = [] \<Longrightarrow> store e = store (cl_env s) \<Longrightarrow>
    client_loop V R E i t (s1\<lparr>cl_env := e\<rparr>) = ret (j, st1, s2) \<Longrightarrow>
    session V R K E sent inbox store results fd bufs outs s2 N1 s' N' \<Longrightarrow>
    session V R K E sent inbox store results fd (buf # bufs) ((i, st, j, st1) # outs) s N s' N'"

definition succeeds :: "outcome \<Rightarrow> bool" where
  "succeeds out \<longleftrightarrow> (case out of (i, st, j, st1) \<Rightarrow> st = Some WTF_CLIENT_SUCCESS \<and> j = i \<and> st1 = WTF_CLIENT_SUCCESS)"

section \<open>Room for a session\<close>

text \<open>Each daemon of the configuration has room for \<open>n\<close> bytes in \<open>k\<close> blocks.\<close>

definition cluster_room :: "'db kv_ops \<Rightarrow> nat \<Rightarrow> nat \<Rightarrow> configuration \<Rightarrow> u64 \<Rightarrow> (server_id \<Rightarrow> 'db daemon option) \<Rightarrow> bool" where
  "cluster_room K n k c token daemons \<longleftrightarrow> daemons token = None \<and> token < u64_bound \<and> c_servers c \<noteq> [] \<and>
     (\<forall>srv \<in> set (c_servers c). srv_id srv < u64_max \<and>
        (\<exists>d. daemons (srv_id srv) = Some d \<and> dm_us d = srv_id srv \<and> bm_ok K (daemon_map d) \<and>
           d_log_offset (bm_disk (daemon_map d)) + n \<le> length (d_log (bm_disk (daemon_map d))) \<and>
           bm_block_id (daemon_map d) + k < u64_bound))"

text \<open>The file is open at its end and takes the buffers as blocks.\<close>

definition file_takes :: "byte list list \<Rightarrow> client_file \<Rightarrow> bool" where
  "file_takes bufs f \<longleftrightarrow> imap_wf (fl_offset f) (fl_block_map f) \<and>
     (\<forall>x. fl_offset f \<le> x \<and> x < fl_offset f + length (concat bufs) \<longrightarrow> \<not> has_last_op x f) \<and>
     fl_offset f + length (concat bufs) < 2 ^ 32 \<and> (\<forall>buf \<in> set bufs. buf \<noteq> [] \<and> length buf \<le> fl_block_size f) \<and>
     0 < fl_replicas f \<and> fl_replicas f < 2 ^ 32"

definition picks :: "'e client_env \<Rightarrow> ipaddr \<Rightarrow> configuration \<Rightarrow> nat \<Rightarrow> bool" where
  "picks V addr c reps \<longleftrightarrow> (\<forall>e rnd n. fst (ce_random V e) = (rnd, n) \<longrightarrow>
     assign_random_block_locations rnd n addr c (replicate reps bl_default) \<noteq> None)"

definition appendable :: "'e client_env \<Rightarrow> 'db kv_ops \<Rightarrow> byte list list \<Rightarrow> int \<Rightarrow> file_ref \<Rightarrow> ('r, 'e) client \<Rightarrow> 'db network \<Rightarrow> bool" where
  "appendable V K bufs fd r s N \<longleftrightarrow> find_file fd s = Some r \<and> idle_client s \<and> 0 < cl_next_client_id s \<and>
     file_takes bufs (cl_files s r) \<and> cl_next_server_nonce s + length bufs * fl_replicas (cl_files s r) < u64_bound \<and>
     picks V (cl_addr s) (cl_config s) (fl_replicas (cl_files s r)) \<and>
     cluster_room K (length (concat bufs)) (length bufs) (cl_config s) (cl_token s) (net_daemons N)"

text \<open>HyperDex has the block map of the file.\<close>

definition published :: "e_codec \<Rightarrow> (string \<Rightarrow> hd_object option) \<Rightarrow> client_file \<Rightarrow> bool" where
  "published E st f \<longleftrightarrow> (\<exists>obj. st (fl_path f) = Some obj \<and> obj ''blockmap'' = Some (serialize_blockmap E f))"

section \<open>What a write leaves\<close>

text \<open>Blocks that were stored stay stored.\<close>

definition keeps_blocks :: "'db kv_ops \<Rightarrow> e_codec \<Rightarrow> (server_id \<Rightarrow> 'db daemon option) \<Rightarrow> (server_id \<Rightarrow> 'db daemon option) \<Rightarrow> bool" where
  "keeps_blocks K E ds ds' \<longleftrightarrow> (\<forall>j d bid bytes. ds j = Some d \<and> holds_block K E d bid bytes \<longrightarrow>
     (\<exists>d'. ds' j = Some d' \<and> holds_block K E d' bid bytes))"

lemma grow_keeps_blocks: "daemons_grow K n ds ds' \<Longrightarrow> keeps_blocks K E ds ds'"
  unfolding keeps_blocks_def
proof (intro allI impI, elim conjE)
  fix j d bid bytes
  assume g: "daemons_grow K n ds ds'" and d: "ds j = Some d" "holds_block K E d bid bytes"
  show "\<exists>d'. ds' j = Some d' \<and> holds_block K E d' bid bytes"
  proof (cases "ds' j = ds j")
    case False
    then obtain d' where d': "ds' j = Some d'" "bm_ok K (daemon_map d)" "takes_block K n (daemon_map d) (daemon_map d')"
      using g d(1) unfolding daemons_grow_def by (metis option.inject)
    obtain m where "stored K E (daemon_map d) bid m" using d(2) by (auto simp: holds_block_def)
    from bm_grows_stored [OF d'(2) _ this] d'(3) d(2) d'(1) show ?thesis by (auto simp: takes_block_def holds_block_def)
  qed (use d in simp)
qed

lemma keeps_blocks_trans: "keeps_blocks K E a b \<Longrightarrow> keeps_blocks K E b c \<Longrightarrow> keeps_blocks K E a c"
  unfolding keeps_blocks_def by metis

lemma keeps_blocks_refl: "keeps_blocks K E a a"
  by (simp add: keeps_blocks_def)

lemma room_left:
  assumes room: "cluster_room K (n + n') (Suc k) c token ds" and g: "daemons_grow K n ds ds'"
  shows "cluster_room K n' k c token ds'"
proof -
  have token: "ds token = None" and srv: "\<forall>srv \<in> set (c_servers c). srv_id srv < u64_max \<and>
        (\<exists>d. ds (srv_id srv) = Some d \<and> dm_us d = srv_id srv \<and> bm_ok K (daemon_map d) \<and>
           d_log_offset (bm_disk (daemon_map d)) + (n + n') \<le> length (d_log (bm_disk (daemon_map d))) \<and>
           bm_block_id (daemon_map d) + Suc k < u64_bound)"
    using room by (simp_all add: cluster_room_def)
  have "ds' token = None" using g token unfolding daemons_grow_def by (metis option.distinct(1))
  moreover have "\<exists>d. ds' (srv_id x) = Some d \<and> dm_us d = srv_id x \<and> bm_ok K (daemon_map d) \<and>
      d_log_offset (bm_disk (daemon_map d)) + n' \<le> length (d_log (bm_disk (daemon_map d))) \<and>
      bm_block_id (daemon_map d) + k < u64_bound" if x: "x \<in> set (c_servers c)" for x
  proof -
    from srv x obtain d where d: "ds (srv_id x) = Some d" "dm_us d = srv_id x" "bm_ok K (daemon_map d)"
      "d_log_offset (bm_disk (daemon_map d)) + (n + n') \<le> length (d_log (bm_disk (daemon_map d)))"
      "bm_block_id (daemon_map d) + Suc k < u64_bound" by blast
    show ?thesis
    proof (cases "ds' (srv_id x) = ds (srv_id x)")
      case False
      then obtain d' where "ds' (srv_id x) = Some d'" "dm_us d' = dm_us d" "bm_ok K (daemon_map d')"
          "takes_block K n (daemon_map d) (daemon_map d')"
        using g d(1) unfolding daemons_grow_def by (metis option.inject)
      then show ?thesis using d by (auto simp: takes_block_def bm_grows_def)
    qed (use d in auto)
  qed
  ultimately show ?thesis using room by (simp add: cluster_room_def)
qed

lemma room_ready:
  assumes "cluster_room K n (Suc k) c token ds" and puts: "\<And>db k v. kv_put K db k v \<noteq> None" and "m \<le> n"
  shows "cluster_ready K m c token ds"
proof -
  have "daemon_ready K m d \<and> daemon_room K m d"
    if "bm_ok K (daemon_map d)" "d_log_offset (bm_disk (daemon_map d)) + n \<le> length (d_log (bm_disk (daemon_map d)))"
      "bm_block_id (daemon_map d) + Suc k < u64_bound" for d
    using that puts assms(3) by (auto simp: daemon_ready_def daemon_room_def bm_ok_def disk_wf_def)
  then show ?thesis using assms(1) unfolding cluster_room_def cluster_ready_def by blast
qed

lemma has_last_after:
  "has_last_op x (set_last_op y p f) \<longleftrightarrow> x mod 4294967296 = y mod 4294967296 \<or> has_last_op x f"
  using m_assign_keys [of "y mod 4294967296" p "fl_last_op f"]
  by (simp add: has_last_op_def set_last_op_def map_of_eq_None_iff)

text \<open>The file behind a write.\<close>

definition file_after :: "client_file \<Rightarrow> byte list \<Rightarrow> op_ref \<Rightarrow> int \<Rightarrow> slice_map \<Rightarrow> client_file" where
  "file_after f buf p i m = (set_last_op (fl_offset f) p (add_pending_op i f))
     \<lparr>fl_offset := u64_add (fl_offset f) (length buf), fl_block_map := m\<rparr>"

lemma file_after_takes:
  assumes f: "file_takes (buf # bufs) f" and m: "imap_wf (fl_offset f + length buf) m" and g: "g = file_after f buf p i m"
  shows "file_takes bufs g" and "fl_offset g = fl_offset f + length buf" and "fl_path g = fl_path f" and "fl_replicas g = fl_replicas f"
    and "fl_block_size g = fl_block_size f"
proof -
  have small: "fl_offset f + (length buf + length (concat bufs)) < 4294967296" and buf: "buf \<noteq> []"
    using f by (auto simp: file_takes_def)
  show off: "fl_offset g = fl_offset f + length buf" using small by (simp add: g file_after_def u64_add_def)
  show same: "fl_path g = fl_path f" "fl_replicas g = fl_replicas f" "fl_block_size g = fl_block_size f"
    by (simp_all add: g file_after_def set_last_op_def add_pending_op_def)
  have "has_last_op x g \<longleftrightarrow> has_last_op x (set_last_op (fl_offset f) p f)" for x
    by (simp add: g file_after_def has_last_op_def set_last_op_def add_pending_op_def)
  then have "\<not> has_last_op x g" if "fl_offset f + length buf \<le> x" "x < fl_offset f + length buf + length (concat bufs)" for x
    using that f small buf unfolding file_takes_def by (auto simp: has_last_after)
  then show "file_takes bufs g" using f m small off same by (simp add: file_takes_def g file_after_def)
qed

lemma takes_ready:
  assumes f: "file_takes (buf # bufs) f"
  shows "file_ready (fl_offset f) buf f"
proof -
  have "buf \<noteq> []" using f by (simp add: file_takes_def)
  then have "\<not> has_last_op (fl_offset f) f" using f by (simp add: file_takes_def)
  then show ?thesis using f by (simp add: file_takes_def file_ready_def u64_max_def)
qed

text \<open>
  What a reader finds at the addresses from \<open>b\<close> on: for each byte as many different daemons as the
  file has replicas, which all hold a block with this byte.
\<close>

definition holds_bytes :: "'db kv_ops \<Rightarrow> e_codec \<Rightarrow> (server_id \<Rightarrow> 'db daemon option) \<Rightarrow> client_file \<Rightarrow> u64 \<Rightarrow> byte list \<Rightarrow> bool" where
  "holds_bytes K E ds f b data \<longleftrightarrow> (\<forall>x < length data. \<exists>L n. seg_lookup (fl_block_map f) (b + x) = Some (L, n) \<and>
     length L = fl_replicas f \<and> distinct (map bl_si L) \<and>
     (\<forall>l \<in> set L. \<exists>d bytes. ds (bl_si l) = Some d \<and> holds_block K E d (bl_bi l) bytes \<and> n < length bytes \<and> bytes ! n = data ! x))"

lemma holds_bytes_visible:
  assumes v: "write_visible K E ds (fl_offset f) buf f g" and r: "fl_replicas g = fl_replicas f"
  shows "holds_bytes K E ds g (fl_offset f) buf" and "imap_wf (fl_offset f + length buf) (fl_block_map g)"
    and "x < fl_offset f \<Longrightarrow> seg_lookup (fl_block_map g) x = seg_lookup (fl_block_map f) x"
proof -
  let ?b = "fl_offset f" and ?stop = "fl_offset f + length buf"
  have m: "max ?b ?stop = ?stop" by simp
  from v obtain L where L: "imap_wf ?stop (fl_block_map g)" "length L = fl_replicas f" "distinct (map bl_si L)"
    "\<forall>l \<in> set L. \<exists>d. ds (bl_si l) = Some d \<and> holds_block K E d (bl_bi l) buf"
    "\<forall>x. x < ?stop \<or> cut_ok (fl_block_map f) ?stop \<longrightarrow>
       seg_lookup (fl_block_map g) x = (if ?b \<le> x \<and> x < ?stop then Some (L, x - ?b) else seg_lookup (fl_block_map f) x)"
    unfolding write_visible_def Let_def m by blast
  have at: "seg_lookup (fl_block_map g) (?b + x) = Some (L, x)" if "x < length buf" for x
    using L(5) [rule_format, of "?b + x"] that by simp
  show "holds_bytes K E ds g ?b buf"
    unfolding holds_bytes_def
  proof (intro allI impI)
    fix x assume x: "x < length buf"
    have "\<forall>l \<in> set L. \<exists>d bytes. ds (bl_si l) = Some d \<and> holds_block K E d (bl_bi l) bytes \<and> x < length bytes \<and> bytes ! x = buf ! x"
      using L(4) x by blast
    then show "\<exists>L n. seg_lookup (fl_block_map g) (?b + x) = Some (L, n) \<and> length L = fl_replicas g \<and> distinct (map bl_si L) \<and>
        (\<forall>l \<in> set L. \<exists>d bytes. ds (bl_si l) = Some d \<and> holds_block K E d (bl_bi l) bytes \<and> n < length bytes \<and> bytes ! n = buf ! x)"
      using at [OF x] L(2,3) r by auto
  qed
  show "imap_wf ?stop (fl_block_map g)" by fact
  show "x < ?b \<Longrightarrow> seg_lookup (fl_block_map g) x = seg_lookup (fl_block_map f) x"
    using L(5) [rule_format, of x] by simp
qed

text \<open>Later writes behind them leave these bytes where they are.\<close>

lemma holds_bytes_later:
  assumes h: "holds_bytes K E ds f b data" and k: "keeps_blocks K E ds ds'" and r: "fl_replicas g = fl_replicas f"
    and same: "\<And>x. x < b + length data \<Longrightarrow> seg_lookup (fl_block_map g) x = seg_lookup (fl_block_map f) x"
  shows "holds_bytes K E ds' g b data"
  unfolding holds_bytes_def
proof (intro allI impI)
  fix x assume x: "x < length data"
  from h x obtain L n where L: "seg_lookup (fl_block_map f) (b + x) = Some (L, n)" "length L = fl_replicas f" "distinct (map bl_si L)"
    "\<forall>l \<in> set L. \<exists>d bytes. ds (bl_si l) = Some d \<and> holds_block K E d (bl_bi l) bytes \<and> n < length bytes \<and> bytes ! n = data ! x"
    unfolding holds_bytes_def by blast
  have "\<exists>d bytes. ds' (bl_si l) = Some d \<and> holds_block K E d (bl_bi l) bytes \<and> n < length bytes \<and> bytes ! n = data ! x"
    if "l \<in> set L" for l
    using L(4) that k unfolding keeps_blocks_def by metis
  then show "\<exists>L n. seg_lookup (fl_block_map g) (b + x) = Some (L, n) \<and> length L = fl_replicas g \<and> distinct (map bl_si L) \<and>
     (\<forall>l \<in> set L. \<exists>d bytes. ds' (bl_si l) = Some d \<and> holds_block K E d (bl_bi l) bytes \<and> n < length bytes \<and> bytes ! n = data ! x)"
    using L(1-3) same [of "b + x"] x r by auto
qed

lemma holds_bytes_append:
  assumes "holds_bytes K E ds f b data" and "holds_bytes K E ds f (b + length data) rest"
  shows "holds_bytes K E ds f b (data @ rest)"
  unfolding holds_bytes_def
proof (intro allI impI)
  fix x assume x: "x < length (data @ rest)"
  show "\<exists>L n. seg_lookup (fl_block_map f) (b + x) = Some (L, n) \<and> length L = fl_replicas f \<and> distinct (map bl_si L) \<and>
     (\<forall>l \<in> set L. \<exists>d bytes. ds (bl_si l) = Some d \<and> holds_block K E d (bl_bi l) bytes \<and> n < length bytes \<and> bytes ! n = (data @ rest) ! x)"
  proof (cases "x < length data")
    case True
    then show ?thesis using assms(1) by (simp add: holds_bytes_def nth_append)
  next
    case False
    have "b + length data + (x - length data) = b + x" using False by simp
    then show ?thesis using assms(2) [unfolded holds_bytes_def, rule_format, of "x - length data"] False x by (simp add: nth_append)
  qed
qed

section \<open>One write after the other\<close>

definition appended ::
  "'db kv_ops \<Rightarrow> e_codec \<Rightarrow> byte list \<Rightarrow> file_ref \<Rightarrow> ('r, 'e) client \<Rightarrow> 'db network \<Rightarrow> ('r, 'e) client \<Rightarrow> 'db network \<Rightarrow> bool" where
  "appended K E data r s N s' N' \<longleftrightarrow>
     (let f = cl_files s r; f' = cl_files s' r
      in fl_path f' = fl_path f \<and> fl_replicas f' = fl_replicas f \<and> fl_offset f' = fl_offset f + length data \<and>
         imap_wf (fl_offset f') (fl_block_map f') \<and> holds_bytes K E (net_daemons N') f' (fl_offset f) data \<and>
         (\<forall>x < fl_offset f. seg_lookup (fl_block_map f') x = seg_lookup (fl_block_map f) x)) \<and>
     keeps_blocks K E (net_daemons N) (net_daemons N') \<and> idle_client s'"

lemma append_one:
  assumes services: "client_services V sent inbox store results" and K: "kv_store K" and E: "e_buffer E"
    and puts: "\<And>db k v. kv_put K db k v \<noteq> None"
    and a: "appendable V K (buf # bufs) fd r s N" and pub: "published E (store (cl_env s)) (cl_files s r)"
    and q: "quiet_link R E (cl_coord s)"
  shows "\<exists>s1 out. client_write V E fd buf s = ret (cl_next_client_id s, Some WTF_CLIENT_SUCCESS, s1) \<and>
    sent (cl_env s1) = sent (cl_env s) @ out \<and>
    (\<exists>m N1 box. (net_step K E ^^ m) (N\<lparr>net_flight := mset (map (Pair (cl_token s)) out), net_clients := {#}\<rparr>) N1 \<and>
       net_flight N1 = {#} \<and> mset (map (\<lambda>(j, msg). (j, cl_token s, msg)) box) = net_clients N1) \<and>
    (\<forall>m N1 e t. (net_step K E ^^ m) (N\<lparr>net_flight := mset (map (Pair (cl_token s)) out), net_clients := {#}\<rparr>) N1 \<longrightarrow>
       net_flight N1 = {#} \<longrightarrow> mset (map (\<lambda>(j, msg). (j, cl_token s, msg)) (inbox e)) = net_clients N1 \<longrightarrow> results e = [] \<longrightarrow>
       store e = store (cl_env s) \<longrightarrow>
       (\<exists>s2. client_loop V R E (cl_next_client_id s) t (s1\<lparr>cl_env := e\<rparr>) = ret (cl_next_client_id s, WTF_CLIENT_SUCCESS, s2) \<and>
          appendable V K bufs fd r s2 N1 \<and> published E (store (cl_env s2)) (cl_files s2 r) \<and> cl_coord s2 = cl_coord s \<and>
          appended K E buf r s N s2 N1))"
proof -
  let ?f = "cl_files s r"
  have fd: "find_file fd s = Some r" "idle_client s" "0 < cl_next_client_id s" and f: "file_takes (buf # bufs) ?f"
    and nonce: "cl_next_server_nonce s + Suc (length bufs) * fl_replicas ?f < u64_bound"
    and picks: "picks V (cl_addr s) (cl_config s) (fl_replicas ?f)"
    and room: "cluster_room K (length buf + length (concat bufs)) (Suc (length bufs)) (cl_config s) (cl_token s) (net_daemons N)"
    using a by (simp_all add: appendable_def)
  obtain rnd n where rnd: "fst (ce_random V (cl_env s)) = (rnd, n)" by fastforce
  have pick: "assign_random_block_locations rnd n (cl_addr s) (cl_config s) (replicate (fl_replicas ?f) bl_default) \<noteq> None"
    using picks rnd by (simp add: picks_def)
  have ready: "cluster_ready K (length buf) (cl_config s) (cl_token s) (net_daemons N)"
    by (rule room_ready [OF room puts]) simp
  have n1: "cl_next_server_nonce s + fl_replicas ?f < u64_bound" using nonce by simp
  obtain obj where obj: "store (cl_env s) (fl_path ?f) = Some obj" "obj ''blockmap'' = Some (serialize_blockmap E ?f)"
    using pub by (auto simp: published_def)
  from write_whole [OF services K E fd refl takes_ready [OF f] n1 ready rnd pick] obtain s1 out N0 where
    w: "client_write V E fd buf s = ret (cl_next_client_id s, Some WTF_CLIENT_SUCCESS, s1)" "sent (cl_env s1) = sent (cl_env s) @ out"
      "N0 = N\<lparr>net_flight := mset (map (Pair (cl_token s)) out), net_clients := {#}\<rparr>"
    and ends: "\<exists>m N1 box. (net_step K E ^^ m) N0 N1 \<and> net_flight N1 = {#} \<and>
       mset (map (\<lambda>(j, msg). (j, cl_token s, msg)) box) = net_clients N1"
    and loop: "\<And>m N1 e R t obj. (net_step K E ^^ m) N0 N1 \<Longrightarrow> net_flight N1 = {#} \<Longrightarrow>
       mset (map (\<lambda>(j, msg). (j, cl_token s, msg)) (inbox e)) = net_clients N1 \<Longrightarrow> results e = [] \<Longrightarrow>
       store e (fl_path ?f) = Some obj \<Longrightarrow> obj ''blockmap'' = Some (serialize_blockmap E ?f) \<Longrightarrow> quiet_link R E (cl_coord s) \<Longrightarrow>
       \<exists>s2 attrs. client_loop V R E (cl_next_client_id s) t (s1\<lparr>cl_env := e\<rparr>) = ret (cl_next_client_id s, WTF_CLIENT_SUCCESS, s2) \<and>
          idle_client s2 \<and> follows_write E ?f buf s r s2 \<and> daemons_grow K (length buf) (net_daemons N) (net_daemons N1) \<and>
          store (cl_env s2) = (store e)(fl_path ?f \<mapsto> put_attrs attrs obj) \<and>
          map_of attrs ''blockmap'' = Some (serialize_blockmap E (cl_files s2 r)) \<and>
          write_visible K E (net_daemons N1) (fl_offset ?f) buf ?f (cl_files s2 r)" by blast
  have "\<exists>s2. client_loop V R E (cl_next_client_id s) t (s1\<lparr>cl_env := e\<rparr>) = ret (cl_next_client_id s, WTF_CLIENT_SUCCESS, s2) \<and>
      appendable V K bufs fd r s2 N1 \<and> published E (store (cl_env s2)) (cl_files s2 r) \<and> cl_coord s2 = cl_coord s \<and>
      appended K E buf r s N s2 N1"
    if "(net_step K E ^^ m) N0 N1" "net_flight N1 = {#}" "mset (map (\<lambda>(j, msg). (j, cl_token s, msg)) (inbox e)) = net_clients N1"
      "results e = []" "store e = store (cl_env s)" for m N1 e t
  proof -
    have "store e (fl_path ?f) = Some obj" using that(5) obj(1) by simp
    from loop [OF that(1-4) this obj(2) q] obtain s2 attrs where
      s2: "client_loop V R E (cl_next_client_id s) t (s1\<lparr>cl_env := e\<rparr>) = ret (cl_next_client_id s, WTF_CLIENT_SUCCESS, s2)"
        "idle_client s2" "follows_write E ?f buf s r s2" "daemons_grow K (length buf) (net_daemons N) (net_daemons N1)"
        "store (cl_env s2) = (store e)(fl_path ?f \<mapsto> put_attrs attrs obj)"
        "map_of attrs ''blockmap'' = Some (serialize_blockmap E (cl_files s2 r))"
        "write_visible K E (net_daemons N1) (fl_offset ?f) buf ?f (cl_files s2 r)" by blast
    from s2(3) obtain p mm where g: "cl_files s2 r = file_after ?f buf p (cl_next_client_id s) mm" and
      fr: "cl_coord s2 = cl_coord s" "cl_fds s2 = cl_fds s" "cl_token s2 = cl_token s" "cl_addr s2 = cl_addr s"
        "cl_next_client_id s2 = cl_next_client_id s + 1" "cl_next_server_nonce s2 = cl_next_server_nonce s + fl_replicas ?f"
      unfolding follows_write_def file_after_def by blast
    have reps: "fl_replicas (cl_files s2 r) = fl_replicas ?f" unfolding g by (simp add: file_after_def set_last_op_def add_pending_op_def)
    note v = holds_bytes_visible [OF s2(7) reps]
    have mm: "imap_wf (fl_offset ?f + length buf) mm" using v(2) unfolding g by (simp add: file_after_def)
    note t = file_after_takes [OF f mm g]
    have "appendable V K bufs fd r s2 N1"
      unfolding appendable_def fr t(4)
      using fd s2(2) t(1) nonce picks room_left [OF room s2(4)] by (simp add: find_file_def fr)
    moreover have "published E (store (cl_env s2)) (cl_files s2 r)"
      using s2(5,6) t(3) by (simp add: published_def put_attrs_def)
    moreover have "appended K E buf r s N s2 N1"
      using t(2-4) v(1,2,3) grow_keeps_blocks [OF s2(4)] s2(2) by (simp add: appended_def)
    ultimately show ?thesis using s2(1) fr(1) by blast
  qed
  then show ?thesis using w(1,2) ends unfolding w(3) by blast
qed

lemma appended_nothing:
  "idle_client s \<Longrightarrow> imap_wf (fl_offset (cl_files s r)) (fl_block_map (cl_files s r)) \<Longrightarrow> appended K E [] r s N s N"
  by (simp add: appended_def holds_bytes_def keeps_blocks_refl)

lemma appended_trans:
  assumes a: "appended K E data r s N s1 N1" and b: "appended K E rest r s1 N1 s2 N2"
  shows "appended K E (data @ rest) r s N s2 N2"
proof -
  let ?f = "cl_files s r" and ?f1 = "cl_files s1 r" and ?f2 = "cl_files s2 r"
  have 1: "fl_path ?f1 = fl_path ?f" "fl_replicas ?f1 = fl_replicas ?f" "fl_offset ?f1 = fl_offset ?f + length data"
    "holds_bytes K E (net_daemons N1) ?f1 (fl_offset ?f) data" "keeps_blocks K E (net_daemons N) (net_daemons N1)"
    "\<And>x. x < fl_offset ?f \<Longrightarrow> seg_lookup (fl_block_map ?f1) x = seg_lookup (fl_block_map ?f) x"
    using a by (simp_all add: appended_def Let_def)
  have 2: "fl_path ?f2 = fl_path ?f1" "fl_replicas ?f2 = fl_replicas ?f1" "fl_offset ?f2 = fl_offset ?f1 + length rest"
    "imap_wf (fl_offset ?f2) (fl_block_map ?f2)" "holds_bytes K E (net_daemons N2) ?f2 (fl_offset ?f1) rest"
    "keeps_blocks K E (net_daemons N1) (net_daemons N2)" "idle_client s2"
    "\<And>x. x < fl_offset ?f1 \<Longrightarrow> seg_lookup (fl_block_map ?f2) x = seg_lookup (fl_block_map ?f1) x"
    using b unfolding appended_def Let_def by blast+
  have "holds_bytes K E (net_daemons N2) ?f2 (fl_offset ?f) data"
    by (rule holds_bytes_later [OF 1(4) 2(6,2)]) (use 2(8) 1(3) in simp)
  then have "holds_bytes K E (net_daemons N2) ?f2 (fl_offset ?f) (data @ rest)"
    by (rule holds_bytes_append) (use 2(5) 1(3) in simp)
  then show ?thesis using 1 2 keeps_blocks_trans [OF 1(5) 2(6)] by (simp add: appended_def Let_def)
qed

lemma session_appends:
  assumes ses: "session V R K E sent inbox store results fd bufs outs s N s' N'"
    and services: "client_services V sent inbox store results" and K: "kv_store K" and E: "e_buffer E"
    and puts: "\<And>db k v. kv_put K db k v \<noteq> None"
    and "appendable V K bufs fd r s N" and "published E (store (cl_env s)) (cl_files s r)" and "quiet_link R E (cl_coord s)"
  shows "list_all succeeds outs \<and> length outs = length bufs \<and> appended K E (concat bufs) r s N s' N' \<and>
    published E (store (cl_env s')) (cl_files s' r)"
  using ses assms(6-8)
proof (induction rule: session.induct)
  case (session_end s N)
  then show ?case by (simp add: appended_nothing appendable_def file_takes_def)
next
  case (session_write buf s i st s1 out m N N1 e t j st1 s2 bufs outs s' N')
  from append_one [OF services K E puts session_write.prems] obtain s1' out' where
    w: "client_write V E fd buf s = ret (cl_next_client_id s, Some WTF_CLIENT_SUCCESS, s1')" "sent (cl_env s1') = sent (cl_env s) @ out'"
    and loop: "\<And>m N1 e t. (net_step K E ^^ m) (N\<lparr>net_flight := mset (map (Pair (cl_token s)) out'), net_clients := {#}\<rparr>) N1 \<Longrightarrow>
       net_flight N1 = {#} \<Longrightarrow> mset (map (\<lambda>(j, msg). (j, cl_token s, msg)) (inbox e)) = net_clients N1 \<Longrightarrow> results e = [] \<Longrightarrow>
       store e = store (cl_env s) \<Longrightarrow>
       \<exists>s2. client_loop V R E (cl_next_client_id s) t (s1'\<lparr>cl_env := e\<rparr>) = ret (cl_next_client_id s, WTF_CLIENT_SUCCESS, s2) \<and>
          appendable V K bufs fd r s2 N1 \<and> published E (store (cl_env s2)) (cl_files s2 r) \<and> cl_coord s2 = cl_coord s \<and>
          appended K E buf r s N s2 N1" by blast
  have same: "i = cl_next_client_id s" "st = Some WTF_CLIENT_SUCCESS" "s1 = s1'" using session_write.hyps(1) w(1) by simp_all
  have "out = out'" using session_write.hyps(2) w(2) same(3) by simp
  with loop session_write.hyps(3-7) obtain s2' where
    s2': "client_loop V R E (cl_next_client_id s) t (s1'\<lparr>cl_env := e\<rparr>) = ret (cl_next_client_id s, WTF_CLIENT_SUCCESS, s2')"
      "appendable V K bufs fd r s2' N1" "published E (store (cl_env s2')) (cl_files s2' r)" "cl_coord s2' = cl_coord s"
      "appended K E buf r s N s2' N1" by blast
  have s2: "j = cl_next_client_id s" "st1 = WTF_CLIENT_SUCCESS" "s2 = s2'" using session_write.hyps(8) s2'(1) same by simp_all
  have q: "quiet_link R E (cl_coord s2)" using s2'(4) s2(3) session_write.prems(3) by simp
  from session_write.IH [OF s2'(2,3) [folded s2(3)] q] appended_trans [OF s2'(5) [folded s2(3)]] same s2
  show ?case by (auto simp: succeeds_def)
qed

lemma session_exists:
  assumes services: "client_services V sent inbox store results" and K: "kv_store K" and E: "e_buffer E"
    and puts: "\<And>db k v. kv_put K db k v \<noteq> None"
    and arrives: "\<And>e box. \<exists>e'. inbox e' = box \<and> results e' = [] \<and> store e' = store e"
    and "appendable V K bufs fd r s N" and "published E (store (cl_env s)) (cl_files s r)" and "quiet_link R E (cl_coord s)"
  shows "\<exists>outs s' N'. session V R K E sent inbox store results fd bufs outs s N s' N'"
  using assms(6-8)
proof (induction bufs arbitrary: s N)
  case Nil
  then show ?case using session.session_end by blast
next
  case (Cons buf bufs)
  from append_one [OF services K E puts Cons.prems] obtain s1 out m N1 box where
    w: "client_write V E fd buf s = ret (cl_next_client_id s, Some WTF_CLIENT_SUCCESS, s1)" "sent (cl_env s1) = sent (cl_env s) @ out"
      "(net_step K E ^^ m) (N\<lparr>net_flight := mset (map (Pair (cl_token s)) out), net_clients := {#}\<rparr>) N1" "net_flight N1 = {#}"
      "mset (map (\<lambda>(j, msg). (j, cl_token s, msg)) box) = net_clients N1"
    and loop: "\<And>m N1 e t. (net_step K E ^^ m) (N\<lparr>net_flight := mset (map (Pair (cl_token s)) out), net_clients := {#}\<rparr>) N1 \<Longrightarrow>
       net_flight N1 = {#} \<Longrightarrow> mset (map (\<lambda>(j, msg). (j, cl_token s, msg)) (inbox e)) = net_clients N1 \<Longrightarrow> results e = [] \<Longrightarrow>
       store e = store (cl_env s) \<Longrightarrow>
       \<exists>s2. client_loop V R E (cl_next_client_id s) t (s1\<lparr>cl_env := e\<rparr>) = ret (cl_next_client_id s, WTF_CLIENT_SUCCESS, s2) \<and>
          appendable V K bufs fd r s2 N1 \<and> published E (store (cl_env s2)) (cl_files s2 r) \<and> cl_coord s2 = cl_coord s \<and>
          appended K E buf r s N s2 N1" by blast
  obtain e where e: "inbox e = box" "results e = []" "store e = store (cl_env s)" using arrives by blast
  from loop [OF w(3,4) _ e(2,3), of "-1"] w(5) e(1) obtain s2 where
    s2: "client_loop V R E (cl_next_client_id s) (-1) (s1\<lparr>cl_env := e\<rparr>) = ret (cl_next_client_id s, WTF_CLIENT_SUCCESS, s2)"
      "appendable V K bufs fd r s2 N1" "published E (store (cl_env s2)) (cl_files s2 r)" "cl_coord s2 = cl_coord s" by blast
  have "quiet_link R E (cl_coord s2)" using s2(4) Cons.prems(3) by simp
  from Cons.IH [OF s2(2,3) this] obtain outs s' N' where "session V R K E sent inbox store results fd bufs outs s2 N1 s' N'" by blast
  from session.session_write [OF w(1-4) _ e(2,3) s2(1) this] w(5) e(1) show ?case by blast
qed

text \<open>C1: a client that appends to a file buffer by buffer. Whatever the order in which messages
  between the client and the daemons are delivered, the session goes through: there is one, and in
  each the calls and loops succeed, with the numbers the calls returned. In the end the file has
  grown by exactly the buffers, one behind the other: for each of their bytes its block map names as
  many different daemons as the file has replicas, which all hold a block with this byte; what was
  in the file before has not moved, no block that any daemon held is lost, and HyperDex has this
  block map.

  The conditions. The client has nothing else under way and the file is open at its end (\<open>appendable\<close>,
  \<open>file_takes\<close>). Each buffer has at least one byte and fits in one block, so that the loop of a call makes one
  operation of it; the splitting of a larger buffer is not covered. The file stays below 2^32 bytes and has no unfinished
  or earlier operation at the new offsets: the code keeps its last operations by the offset modulo 2^32 and loses writes
  that are 4 GiB apart (C33). The draw of servers ends for every outcome of the random numbers (\<open>picks\<close>); it does not
  when there are fewer available servers than replicas. Every server of the configuration is a daemon with room in its log
  and its numbers for all the buffers, the database takes every key, and the link has no news during the session
  (\<open>quiet_link\<close>).\<close>

theorem appends_in_order:
  assumes services: "client_services V sent inbox store results" and K: "kv_store K" and E: "e_buffer E"
    and puts: "\<And>db k v. kv_put K db k v \<noteq> None"
    and arrives: "\<And>e box. \<exists>e'. inbox e' = box \<and> results e' = [] \<and> store e' = store e"
    and a: "appendable V K bufs fd r s N" and f: "f = cl_files s r" "published E (store (cl_env s)) f" and q: "quiet_link R E (cl_coord s)"
  shows "(\<exists>outs s' N'. session V R K E sent inbox store results fd bufs outs s N s' N') \<and>
    (\<forall>outs s' N'. session V R K E sent inbox store results fd bufs outs s N s' N' \<longrightarrow>
       list_all succeeds outs \<and> length outs = length bufs \<and> idle_client s' \<and>
       (\<exists>f'. f' = cl_files s' r \<and> fl_path f' = fl_path f \<and> fl_offset f' = fl_offset f + length (concat bufs) \<and>
          imap_wf (fl_offset f') (fl_block_map f') \<and>
          holds_bytes K E (net_daemons N') f' (fl_offset f) (concat bufs) \<and>
          (\<forall>x < fl_offset f. seg_lookup (fl_block_map f') x = seg_lookup (fl_block_map f) x) \<and>
          published E (store (cl_env s')) f') \<and>
       keeps_blocks K E (net_daemons N) (net_daemons N'))"
proof -
  have pub: "published E (store (cl_env s)) (cl_files s r)" using f by simp
  show ?thesis
  proof (intro conjI allI impI)
    show "\<exists>outs s' N'. session V R K E sent inbox store results fd bufs outs s N s' N'"
      by (rule session_exists [OF services K E puts arrives a pub q])
  next
    fix outs s' N'
    assume ses: "session V R K E sent inbox store results fd bufs outs s N s' N'"
    note ap = session_appends [OF ses services K E puts a pub q]
    then show "list_all succeeds outs" "length outs = length bufs" by simp_all
    have "appended K E (concat bufs) r s N s' N'" "published E (store (cl_env s')) (cl_files s' r)" using ap by simp_all
    then show "idle_client s'" "keeps_blocks K E (net_daemons N) (net_daemons N')"
      "\<exists>f'. f' = cl_files s' r \<and> fl_path f' = fl_path f \<and> fl_offset f' = fl_offset f + length (concat bufs) \<and>
          imap_wf (fl_offset f') (fl_block_map f') \<and> holds_bytes K E (net_daemons N') f' (fl_offset f) (concat bufs) \<and>
          (\<forall>x < fl_offset f. seg_lookup (fl_block_map f') x = seg_lookup (fl_block_map f) x) \<and>
          published E (store (cl_env s')) f'"
      unfolding appended_def Let_def f(1) by blast+
  qed
qed

text \<open>Client 9 appends three bytes and then two to its empty file.\<close>

lemma demo_appendable: "appendable mem_env map_kv [[1, 2, 3], [4, 5]] 1 0 demo_client demo_net"
proof -
  have f: "cl_files demo_client 0 = demo_file" by (simp add: demo_client_def)
  have takes: "file_takes [[1, 2, 3], [4, 5]] demo_file"
    by (simp add: file_takes_def demo_file_def file_new_def imap_wf_def has_last_op_def)
  have room: "cluster_room map_kv 5 2 (cl_config demo_client) (cl_token demo_client) (net_daemons demo_net)"
    using demo_store_ok
    by (simp add: cluster_room_def demo_client_def client_new_def demo_link_def demo_servers_def demo_net_def u64_max_def
        demo_daemon_def daemon_map_def bsm_setup_def) (simp add: demo_store_def blockmap_new_def disk_new_def)
  have pick: "picks mem_env (cl_addr demo_client) (cl_config demo_client) 2"
    using demo_pick by (simp add: picks_def mem_env_def)
  have "find_file 1 demo_client = Some 0" "idle_client demo_client" "0 < cl_next_client_id demo_client"
    "cl_next_server_nonce demo_client + 2 * 2 < u64_bound" "fl_replicas demo_file = 2"
    by (simp_all add: demo_client_def find_file_def idle_client_def client_new_def demo_file_def file_new_def u64_of_int_def)
  moreover have "length (concat [[1, 2, 3], [4, 5 :: byte]]) = 5" "length [[1, 2, 3], [4, 5 :: byte]] = 2" by simp_all
  ultimately show ?thesis using takes room pick unfolding appendable_def f by metis
qed

theorem appends_in_order_witness:
  "\<exists>i1 i2 s' N'. session mem_env demo_replicant map_kv be_codec ms_sent ms_inbox ms_store ms_results 1 [[1, 2, 3], [4, 5]]
     [(i1, Some WTF_CLIENT_SUCCESS, i1, WTF_CLIENT_SUCCESS), (i2, Some WTF_CLIENT_SUCCESS, i2, WTF_CLIENT_SUCCESS)] demo_client demo_net s' N' \<and>
     fl_offset (cl_files s' 0) = 5 \<and> holds_bytes map_kv be_codec (net_daemons N') (cl_files s' 0) 0 [1, 2, 3, 4, 5]"
proof -
  have puts: "kv_put map_kv db k v \<noteq> None" for db k v by (simp add: map_kv_def)
  have arrives: "\<exists>e' :: mem_services. ms_inbox e' = box \<and> ms_results e' = [] \<and> ms_store e' = ms_store e" for e :: mem_services and box
    by (rule exI [of _ "e\<lparr>ms_inbox := box, ms_results := []\<rparr>"]) simp
  have f: "demo_file = cl_files demo_client 0" "fl_offset demo_file = 0" by (simp_all add: demo_client_def demo_file_def file_new_def)
  have pub: "published be_codec (ms_store (cl_env demo_client)) demo_file"
    by (simp add: published_def demo_client_def client_new_def demo_services_def demo_file_def file_new_def)
  have q: "quiet_link demo_replicant be_codec (cl_coord demo_client)" using demo_quiet by (simp add: demo_client_def)
  note all = appends_in_order [OF mem.client_services_axioms map_kv.kv_store_axioms be.e_buffer_axioms puts arrives demo_appendable f(1) pub q]
  from all obtain outs s' N' where ses: "session mem_env demo_replicant map_kv be_codec ms_sent ms_inbox ms_store ms_results 1
      [[1, 2, 3], [4, 5]] outs demo_client demo_net s' N'" by blast
  with all have end': "list_all succeeds outs" "length outs = 2" "fl_offset (cl_files s' 0) = 5"
    "holds_bytes map_kv be_codec (net_daemons N') (cl_files s' 0) 0 [1, 2, 3, 4, 5]" unfolding f(2) by auto
  then obtain o1 o2 where "outs = [o1, o2]" by (auto simp: numeral_2_eq_2 length_Suc_conv)
  with end'(1) obtain i1 i2 where "outs = [(i1, Some WTF_CLIENT_SUCCESS, i1, WTF_CLIENT_SUCCESS), (i2, Some WTF_CLIENT_SUCCESS, i2, WTF_CLIENT_SUCCESS)]"
    by (cases o1; cases o2) (auto simp: succeeds_def)
  with ses end'(3,4) show ?thesis by blast
qed

end
