(* ===== verification/CriticalSection.thy ===== *)
theory CriticalSection
  imports Prelude
begin

text \<open>
  \<open>enter_critical_section\<close>, \<open>exit_critical_section\<close> and their killable variants of
  \<open>daemon/coordinator_link_wrapper.cc\<close>: the lock that the threads of a daemon take around their calls
  of the coordinator link, built from a mutex, a condition and a counter. The thread that follows
  the coordinator waits inside for a message; the others send it a signal when they need the lock.

  Every function holds the mutex but while it waits for the condition, so the program is a step
  relation: a step is what a thread does from taking the mutex to giving it up. The condition belongs to
  the library; a signal of it wakes at least one of the threads that sleep, if there are any, and
  a thread may also wake up by itself.
\<close>

section \<open>The lock\<close>

text \<open>Where a thread is; the flag tells whether it (has) entered as one that can be interrupted.\<close>

datatype place = Outside | Asleep bool | Woken bool | Inside bool

text \<open>\<open>m_to_kill\<close> is \<open>None\<close> until it is first set.\<close>

record 't lock =
  cs_locked :: bool
  cs_kill :: bool
  cs_to_kill :: "'t option"
  cs_waiting :: u64
  cs_place :: "'t \<Rightarrow> place"

definition lock_new :: "'t lock" where
  "lock_new = \<lparr>cs_locked = False, cs_kill = False, cs_to_kill = None, cs_waiting = 0, cs_place = (\<lambda>_. Outside)\<rparr>"

text \<open>
  The test of the loop with what follows, up to the wait or the return. The second result is the
  receiver of the signal that is sent, if any.
\<close>

definition enter_try :: "'t \<Rightarrow> bool \<Rightarrow> 't lock \<Rightarrow> 't lock \<times> 't option option" where
  "enter_try t killable s =
     (if cs_locked s then
        (s\<lparr>cs_waiting := u64_add (cs_waiting s) 1, cs_place := (cs_place s)(t := Asleep killable)\<rparr>,
         if cs_kill s then Some (cs_to_kill s) else None)
      else if killable then
        (s\<lparr>cs_locked := True, cs_kill := True, cs_to_kill := Some t, cs_place := (cs_place s)(t := Inside True)\<rparr>, None)
      else (s\<lparr>cs_locked := True, cs_place := (cs_place s)(t := Inside False)\<rparr>, None))"

text \<open>After the wait the counter goes down, and the loop tests again.\<close>

definition enter_again :: "'t \<Rightarrow> bool \<Rightarrow> 't lock \<Rightarrow> 't lock \<times> 't option option" where
  "enter_again t killable s = enter_try t killable (s\<lparr>cs_waiting := u64_sub (cs_waiting s) 1\<rparr>)"

text \<open>The second result tells whether the condition is signalled.\<close>

definition exit_section :: "'t \<Rightarrow> bool \<Rightarrow> 't lock \<Rightarrow> 't lock \<times> bool" where
  "exit_section t killable s =
     (let s1 = s\<lparr>cs_locked := False, cs_kill := (if killable then False else cs_kill s), cs_place := (cs_place s)(t := Outside)\<rparr>
      in (s1, cs_waiting s1 > 0))"

definition sleepers :: "'t set \<Rightarrow> 't lock \<Rightarrow> 't set" where
  "sleepers T s = {t \<in> T. \<exists>k. cs_place s t = Asleep k}"

definition wake :: "'t set \<Rightarrow> 't lock \<Rightarrow> 't lock" where
  "wake W s = s\<lparr>cs_place := (\<lambda>t. case cs_place s t of Asleep k \<Rightarrow> if t \<in> W then Woken k else Asleep k | p \<Rightarrow> p)\<rparr>"

text \<open>A step of one of the threads \<open>T\<close>, with the signal it sends; the last rule is waking up unasked.\<close>

inductive cs_step :: "'t set \<Rightarrow> 't lock \<Rightarrow> 't option option \<Rightarrow> 't lock \<Rightarrow> bool" for T where
  step_enter: "t \<in> T \<Longrightarrow> cs_place s t = Outside \<Longrightarrow> enter_try t k s = (s', sig) \<Longrightarrow> cs_step T s sig s'"
| step_again: "t \<in> T \<Longrightarrow> cs_place s t = Woken k \<Longrightarrow> enter_again t k s = (s', sig) \<Longrightarrow> cs_step T s sig s'"
| step_exit: "t \<in> T \<Longrightarrow> cs_place s t = Inside k \<Longrightarrow> exit_section t k s = (s1, notify) \<Longrightarrow>
    W \<subseteq> sleepers T s1 \<Longrightarrow> (if notify then W = {} \<longrightarrow> sleepers T s1 = {} else W = {}) \<Longrightarrow> cs_step T s None (wake W s1)"
| step_unasked: "t \<in> sleepers T s \<Longrightarrow> cs_step T s None (wake {t} s)"

inductive_cases cs_stepE: "cs_step T s sig s'"

inductive cs_reachable :: "'t set \<Rightarrow> 't lock \<Rightarrow> bool" for T where
  reach_new: "cs_reachable T lock_new"
| reach_step: "cs_reachable T s \<Longrightarrow> cs_step T s sig s' \<Longrightarrow> cs_reachable T s'"

section \<open>The invariant\<close>

definition waiters :: "'t set \<Rightarrow> 't lock \<Rightarrow> 't set" where
  "waiters T s = {t \<in> T. \<exists>k. cs_place s t = Asleep k \<or> cs_place s t = Woken k}"

text \<open>
  The lock is held exactly when a thread is inside, which then is the only one; the flag \<open>m_kill\<close> is
  set exactly when this thread can be interrupted, and then names it; the counter counts those that
  wait; and when the lock is free, a sleeper is never left without one that has been woken.
\<close>

definition held :: "'t lock \<Rightarrow> bool" where
  "held s \<longleftrightarrow> (\<exists>t. cs_place s t = Inside (cs_kill s) \<and> (\<forall>t' k'. cs_place s t' = Inside k' \<longrightarrow> t' = t) \<and>
     (cs_kill s \<longrightarrow> cs_to_kill s = Some t))"

definition free :: "'t set \<Rightarrow> 't lock \<Rightarrow> bool" where
  "free T s \<longleftrightarrow> (\<forall>t k. cs_place s t \<noteq> Inside k) \<and> \<not> cs_kill s \<and> (sleepers T s \<noteq> {} \<longrightarrow> (\<exists>t k. cs_place s t = Woken k))"

definition cs_inv :: "'t set \<Rightarrow> 't lock \<Rightarrow> bool" where
  "cs_inv T s \<longleftrightarrow> (\<forall>t. t \<notin> T \<longrightarrow> cs_place s t = Outside) \<and> (if cs_locked s then held s else free T s) \<and>
     cs_waiting s = card (waiters T s)"

lemma held_asleep:
  assumes "held s" and "\<And>k. cs_place s t \<noteq> Inside k"
  shows "held (s\<lparr>cs_waiting := n, cs_place := (cs_place s)(t := Asleep k)\<rparr>)"
proof -
  obtain h where h: "cs_place s h = Inside (cs_kill s)" "\<forall>t' k'. cs_place s t' = Inside k' \<longrightarrow> t' = h" "cs_kill s \<longrightarrow> cs_to_kill s = Some h"
    using assms(1) unfolding held_def by blast
  then have "h \<noteq> t" using assms(2) by auto
  with h show ?thesis unfolding held_def by (intro exI [of _ h]) simp
qed

lemma held_enters:
  assumes "free T s"
  shows "held (s\<lparr>cs_waiting := n, cs_locked := True, cs_kill := True, cs_to_kill := Some t, cs_place := (cs_place s)(t := Inside True)\<rparr>)"
    and "held (s\<lparr>cs_waiting := n, cs_locked := True, cs_place := (cs_place s)(t := Inside False)\<rparr>)"
  using assms by (auto simp: held_def free_def)

lemma cs_inv_new: "cs_inv T lock_new"
  by (simp add: cs_inv_def free_def lock_new_def waiters_def sleepers_def)

text \<open>The test of the loop, for a thread that is not counted as waiting; \<open>n\<close> is the counter before.\<close>

lemma cs_inv_try:
  assumes T: "finite T" "card T < u64_bound" and out: "\<forall>t. t \<notin> T \<longrightarrow> cs_place s t = Outside"
    and lock: "if cs_locked s then held s else free T s" and n: "n = card (waiters T s - {t})"
    and t: "t \<in> T" "\<And>k. cs_place s t \<noteq> Inside k" and e: "enter_try t k (s\<lparr>cs_waiting := n\<rparr>) = (s', sig)"
  shows "cs_inv T s'"
proof (cases "cs_locked s")
  case True
  have s': "s' = s\<lparr>cs_waiting := u64_add n 1, cs_place := (cs_place s)(t := Asleep k)\<rparr>"
    using e True by (simp add: enter_try_def)
  have w: "waiters T s' = insert t (waiters T s - {t})" using t(1) by (auto simp: s' waiters_def)
  have c: "card (waiters T s') = Suc n" using T(1) unfolding w n by (subst card_insert_disjoint) (auto simp: waiters_def)
  moreover have "card (waiters T s') < u64_bound"
    using card_mono [OF T(1), of "waiters T s'"] T(2) by (force simp: waiters_def)
  moreover have "held s'" unfolding s' by (rule held_asleep) (use lock True t(2) in simp_all)
  ultimately show ?thesis using True out t(1) by (simp add: cs_inv_def s' u64_add_def)
next
  case False
  have w: "waiters T s' = waiters T s - {t}" using e False by (auto simp: enter_try_def waiters_def split: if_splits)
  have "held s'" "cs_locked s'" using held_enters [of T s t n] lock False e by (auto simp: enter_try_def split: if_splits)
  moreover have "cs_waiting s' = n" "\<forall>t. t \<notin> T \<longrightarrow> cs_place s' t = Outside"
    using e False out t(1) by (auto simp: enter_try_def split: if_splits)
  ultimately show ?thesis by (simp add: cs_inv_def w n)
qed

lemma cs_inv_enter:
  assumes T: "finite T" "card T < u64_bound" and inv: "cs_inv T s" and t: "t \<in> T" "cs_place s t = Outside"
    and e: "enter_try t k s = (s', sig)"
  shows "cs_inv T s'"
proof -
  have "t \<notin> waiters T s" using t by (simp add: waiters_def)
  then have "cs_waiting s = card (waiters T s - {t})" using inv by (simp add: cs_inv_def)
  from cs_inv_try [OF T _ _ this t(1), of k s' sig] inv t(2) e show ?thesis by (simp add: cs_inv_def)
qed

lemma cs_inv_again:
  assumes T: "finite T" "card T < u64_bound" and inv: "cs_inv T s" and t: "t \<in> T" "cs_place s t = Woken k"
    and e: "enter_again t k s = (s', sig)"
  shows "cs_inv T s'"
proof -
  have "t \<in> waiters T s" "finite (waiters T s)" using t T(1) by (simp_all add: waiters_def)
  moreover have "cs_waiting s = card (waiters T s)" using inv by (simp add: cs_inv_def)
  moreover have "card (waiters T s) \<le> card T" using card_mono [OF T(1)] by (simp add: waiters_def)
  ultimately have "u64_sub (cs_waiting s) 1 = card (waiters T s - {t})"
    using T(2) by (cases "card (waiters T s)") (auto simp: u64_sub_def)
  from cs_inv_try [OF T _ _ this t(1), of k s' sig] inv t(2) e show ?thesis by (simp add: cs_inv_def enter_again_def)
qed

lemma wake_place:
  "cs_place (wake W s) t = Inside k \<longleftrightarrow> cs_place s t = Inside k"
  "cs_place (wake W s) t = Outside \<longleftrightarrow> cs_place s t = Outside"
  "cs_place (wake W s) t = Asleep k \<longleftrightarrow> cs_place s t = Asleep k \<and> t \<notin> W"
  "cs_place (wake W s) t = Woken k \<longleftrightarrow> cs_place s t = Woken k \<or> cs_place s t = Asleep k \<and> t \<in> W"
  by (cases "cs_place s t"; simp add: wake_def)+

lemma wake_places:
  "waiters T (wake W s) = waiters T s"
  "sleepers T (wake W s) = sleepers T s - W"
  by (auto simp: waiters_def sleepers_def wake_place)

lemma wake_lock [simp]:
  "cs_locked (wake W s) = cs_locked s" "cs_kill (wake W s) = cs_kill s" "cs_to_kill (wake W s) = cs_to_kill s"
  "cs_waiting (wake W s) = cs_waiting s"
  by (simp_all add: wake_def)

lemma wake_woken: "t \<in> W \<Longrightarrow> W \<subseteq> sleepers T s \<Longrightarrow> \<exists>k. cs_place (wake W s) t = Woken k"
  by (auto simp: wake_place sleepers_def)

lemma cs_inv_exit:
  assumes T: "finite T" and inv: "cs_inv T s" and t: "t \<in> T" "cs_place s t = Inside k" and e: "exit_section t k s = (s1, notify)"
    and W: "W \<subseteq> sleepers T s1" "if notify then W = {} \<longrightarrow> sleepers T s1 = {} else W = {}"
  shows "cs_inv T (wake W s1)"
proof -
  have s1: "s1 = s\<lparr>cs_locked := False, cs_kill := (if k then False else cs_kill s), cs_place := (cs_place s)(t := Outside)\<rparr>"
    and notify: "notify \<longleftrightarrow> cs_waiting s > 0" using e by (auto simp: exit_section_def Let_def)
  have "cs_locked s" using inv t by (auto simp: cs_inv_def free_def split: if_splits)
  then have held: "held s" using inv by (simp add: cs_inv_def)
  have kill: "cs_kill s \<Longrightarrow> k" using held t(2) unfolding held_def by auto
  have none: "cs_place s t' \<noteq> Inside k'" if "t' \<noteq> t" for t' k' using held t(2) that unfolding held_def by auto
  have same: "cs_place s1 t' = Asleep k' \<or> cs_place s1 t' = Woken k' \<longleftrightarrow> cs_place s t' = Asleep k' \<or> cs_place s t' = Woken k'" for t' k'
    using t(2) by (cases "t' = t") (simp_all add: s1)
  have w: "waiters T s1 = waiters T s" unfolding waiters_def same ..
  have woken: "\<exists>t k. cs_place (wake W s1) t = Woken k" if "sleepers T (wake W s1) \<noteq> {}"
  proof -
    have ne: "sleepers T s1 \<noteq> {}" using that by (auto simp: wake_places)
    moreover have "sleepers T s1 \<subseteq> waiters T s" unfolding w [symmetric] by (auto simp: sleepers_def waiters_def)
    ultimately have "0 < card (waiters T s)" using T by (auto simp: card_gt_0_iff waiters_def)
    then have "notify" using notify inv by (simp add: cs_inv_def)
    then obtain t' where "t' \<in> W" using W(2) ne by auto
    then show ?thesis using wake_woken [OF _ W(1)] by blast
  qed
  have "free T (wake W s1)" using kill none woken unfolding free_def by (auto simp: wake_place s1)
  moreover have "\<forall>t. t \<notin> T \<longrightarrow> cs_place (wake W s1) t = Outside" using inv t(1) by (simp add: wake_place s1 cs_inv_def)
  ultimately show ?thesis using inv unfolding cs_inv_def by (simp add: wake_places w) (simp add: s1)
qed

lemma cs_inv_unasked:
  assumes inv: "cs_inv T s" and t: "t \<in> sleepers T s"
  shows "cs_inv T (wake {t} s)"
proof -
  have "\<exists>k. cs_place (wake {t} s) t = Woken k" by (rule wake_woken [of _ _ T]) (use t in simp_all)
  then have "free T s \<Longrightarrow> free T (wake {t} s)" unfolding free_def by (auto simp: wake_place)
  moreover have "held s \<Longrightarrow> held (wake {t} s)" unfolding held_def by (simp add: wake_place)
  ultimately show ?thesis using inv unfolding cs_inv_def by (auto simp: wake_place wake_places)
qed

lemma cs_inv_step:
  assumes "finite T" and "card T < u64_bound" and "cs_inv T s" and "cs_step T s sig s'"
  shows "cs_inv T s'"
  using assms(4)
  by (rule cs_stepE)
    (use cs_inv_enter [OF assms(1-3)] cs_inv_again [OF assms(1-3)] cs_inv_exit [OF assms(1,3)] cs_inv_unasked [OF assms(3)] in auto)

lemma cs_inv_reachable: "cs_reachable T s \<Longrightarrow> finite T \<Longrightarrow> card T < u64_bound \<Longrightarrow> cs_inv T s"
  by (induction rule: cs_reachable.induct) (auto intro: cs_inv_new cs_inv_step)

section \<open>Leaving the section\<close>

text \<open>A step in which nobody comes and nobody wakes up unasked.\<close>

inductive cs_leave :: "'t set \<Rightarrow> 't lock \<Rightarrow> 't lock \<Rightarrow> bool" for T where
  leave_again: "t \<in> T \<Longrightarrow> cs_place s t = Woken k \<Longrightarrow> enter_again t k s = (s', sig) \<Longrightarrow> cs_leave T s s'"
| leave_exit: "t \<in> T \<Longrightarrow> cs_place s t = Inside k \<Longrightarrow> exit_section t k s = (s1, notify) \<Longrightarrow>
    W \<subseteq> sleepers T s1 \<Longrightarrow> (if notify then W = {} \<longrightarrow> sleepers T s1 = {} else W = {}) \<Longrightarrow> cs_leave T s (wake W s1)"

lemma cs_leave_step: "cs_leave T s s' \<Longrightarrow> \<exists>sig. cs_step T s sig s'"
  by (induction rule: cs_leave.induct) (auto intro: step_again step_exit)

lemma cs_leave_reachable: "cs_reachable T s \<Longrightarrow> cs_leave T s s' \<Longrightarrow> cs_reachable T s'"
  by (auto dest: cs_leave_step intro: reach_step)

definition present :: "'t set \<Rightarrow> 't lock \<Rightarrow> 't set" where
  "present T s = {t \<in> T. cs_place s t \<noteq> Outside}"

definition wakers :: "'t set \<Rightarrow> 't lock \<Rightarrow> 't set" where
  "wakers T s = {t \<in> T. \<exists>k. cs_place s t = Woken k}"

definition cs_work :: "'t set \<Rightarrow> 't lock \<Rightarrow> nat" where
  "cs_work T s = card (present T s) * Suc (card T) + card (wakers T s)"

lemma again_work:
  assumes T: "finite T" and t: "t \<in> T" "cs_place s t = Woken k" and e: "enter_again t k s = (s', sig)"
  shows "cs_work T s' < cs_work T s"
proof -
  have "wakers T s' = wakers T s - {t}" "present T s' = present T s"
    using e t by (auto simp: enter_again_def enter_try_def wakers_def present_def split: if_splits)
  moreover have "t \<in> wakers T s" "finite (wakers T s)" using t T by (simp_all add: wakers_def)
  ultimately show ?thesis using card_Diff1_less [of "wakers T s" t] by (simp add: cs_work_def)
qed

lemma exit_work:
  assumes T: "finite T" and t: "t \<in> T" "cs_place s t = Inside k" and e: "exit_section t k s = (s1, notify)"
  shows "cs_work T (wake W s1) < cs_work T s"
proof -
  have "cs_place s1 = (cs_place s)(t := Outside)" using e by (auto simp: exit_section_def Let_def)
  then have p: "present T (wake W s1) = present T s - {t}" by (auto simp: present_def wake_place)
  have "t \<in> present T s" "finite (present T s)" using t T by (simp_all add: present_def)
  then have "card (present T s) = Suc (card (present T (wake W s1)))" unfolding p by (metis card_Suc_Diff1)
  moreover have "card (wakers T (wake W s1)) \<le> card T" by (rule card_mono [OF T]) (auto simp: wakers_def)
  ultimately show ?thesis by (simp add: cs_work_def)
qed

lemma leave_work: "cs_leave T s s' \<Longrightarrow> finite T \<Longrightarrow> cs_work T s' < cs_work T s"
  by (induction rule: cs_leave.induct) (auto intro: again_work exit_work)

lemma leave_bounded: "(cs_leave T ^^ n) s s' \<Longrightarrow> finite T \<Longrightarrow> n + cs_work T s' \<le> cs_work T s"
proof (induction n arbitrary: s')
  case (Suc n)
  then obtain s1 where "(cs_leave T ^^ n) s s1" "cs_leave T s1 s'" by auto
  with Suc.IH [of s1] leave_work [of T s1 s'] Suc.prems(2) show ?case by simp
qed simp

lemma cs_work_le:
  assumes "finite T" shows "cs_work T s \<le> card T * (card T + 2)"
proof -
  have "card (present T s) \<le> card T" "card (wakers T s) \<le> card T"
    using assms by (auto intro: card_mono simp: present_def wakers_def)
  then have "card (present T s) * Suc (card T) + card (wakers T s) \<le> card T * Suc (card T) + card T"
    by (intro add_mono mult_right_mono) simp_all
  then show ?thesis by (simp add: cs_work_def)
qed

text \<open>Somebody can always go on: the one inside leaves, or one that is awake tests again.\<close>

lemma inside_leaves:
  assumes t: "t \<in> T" "cs_place s t = Inside k"
  shows "\<exists>s'. cs_leave T s s'"
proof -
  obtain s1 notify where e: "exit_section t k s = (s1, notify)" by (cases "exit_section t k s")
  let ?W = "if notify then sleepers T s1 else {}"
  have "cs_leave T s (wake ?W s1)" by (rule leave_exit [OF t e]) auto
  then show ?thesis ..
qed

lemma leave_enabled:
  assumes inv: "cs_inv T s" and t: "cs_place s t \<noteq> Outside"
  shows "\<exists>s'. cs_leave T s s'"
proof (cases "cs_locked s")
  case True
  then obtain h where h: "cs_place s h = Inside (cs_kill s)" using inv unfolding cs_inv_def held_def by auto
  then have "h \<in> T" using inv unfolding cs_inv_def by (metis place.distinct(5))
  then show ?thesis by (rule inside_leaves) (rule h)
next
  case False
  then have "free T s" using inv by (simp add: cs_inv_def)
  moreover have "t \<in> T" using inv t unfolding cs_inv_def by auto
  ultimately have "\<exists>t k. cs_place s t = Woken k" using t by (cases "cs_place s t") (auto simp: free_def sleepers_def)
  then obtain w k where w: "cs_place s w = Woken k" by blast
  moreover have "w \<in> T" using inv w unfolding cs_inv_def by (metis place.distinct(3))
  moreover obtain s' sig where "enter_again w k s = (s', sig)" by (cases "enter_again w k s")
  ultimately show ?thesis by (blast intro: leave_again)
qed

lemma step_signal:
  assumes inv: "cs_inv T s" and step: "cs_step T s (Some x) s'"
  shows "\<exists>h. x = Some h \<and> cs_place s h = Inside True"
proof -
  have "cs_locked s \<and> cs_kill s \<and> x = cs_to_kill s"
    using step by (rule cs_stepE) (auto simp: enter_try_def enter_again_def split: if_splits)
  then show ?thesis using inv unfolding cs_inv_def held_def by auto
qed

lemma interrupted:
  assumes "cs_inv T s" and "cs_place s h = Inside True"
  shows "snd (enter_try t k s) = Some (Some h)"
  using assms by (cases "cs_locked s") (auto simp: cs_inv_def held_def free_def enter_try_def)

lemma locked_inside:
  assumes "cs_inv T s"
  shows "cs_locked s \<longleftrightarrow> (\<exists>t k. cs_place s t = Inside k)"
  using assms by (cases "cs_locked s") (auto simp: cs_inv_def held_def free_def)

lemma inside_unique:
  assumes "cs_inv T s" and "cs_place s t = Inside k" and "cs_place s t' = Inside k'"
  shows "t = t'"
  using assms by (cases "cs_locked s") (auto simp: cs_inv_def held_def free_def)

section \<open>The properties\<close>

text \<open>C8: the critical sections of the coordinator link. In every state that threads reach, whatever
  the order of their calls, of the wake-ups that a signal of the condition chooses and of those nobody asked
  for, at most one thread is inside, and the lock is marked as taken exactly when one is. A signal goes
  only to the thread that is inside and that entered as one that can be interrupted, and when there is such a thread,
  one that comes does interrupt it. No wake-up is lost: when nobody new comes, somebody can always
  go on until all have been through and left, and this takes at most n (n + 2) steps of n threads.
\<close>

theorem critical_section:
  assumes "finite T" and "card T < u64_bound" and "cs_reachable T s"
  shows "(\<forall>t k t' k'. cs_place s t = Inside k \<and> cs_place s t' = Inside k' \<longrightarrow> t = t') \<and>
    (cs_locked s \<longleftrightarrow> (\<exists>t k. cs_place s t = Inside k)) \<and>
    (\<forall>x s'. cs_step T s (Some x) s' \<longrightarrow> (\<exists>h. x = Some h \<and> cs_place s h = Inside True)) \<and>
    (\<forall>h t k. cs_place s h = Inside True \<longrightarrow> snd (enter_try t k s) = Some (Some h)) \<and>
    (\<forall>n s'. (cs_leave T ^^ n) s s' \<longrightarrow> n \<le> card T * (card T + 2) \<and>
       ((\<forall>t. cs_place s' t = Outside) \<or> (\<exists>s''. cs_leave T s' s'')))"
proof -
  have inv: "cs_inv T s" by (rule cs_inv_reachable [OF assms(3,1,2)])
  have later: "cs_inv T s'" if "(cs_leave T ^^ n) s s'" for n s'
  proof -
    have "cs_reachable T s'" using that
    proof (induction n arbitrary: s')
      case (Suc n) then show ?case by (auto intro: cs_leave_reachable)
    qed (simp add: assms(3))
    then show ?thesis by (rule cs_inv_reachable [OF _ assms(1,2)])
  qed
  have "n \<le> card T * (card T + 2)" if "(cs_leave T ^^ n) s s'" for n s'
    using leave_bounded [OF that assms(1)] cs_work_le [OF assms(1), of s] by linarith
  then show ?thesis
    using inside_unique [OF inv] locked_inside [OF inv] step_signal [OF inv] interrupted [OF inv] leave_enabled [OF later]
    by blast
qed

text \<open>Two threads: 0 follows the coordinator and can be interrupted, 1 comes and sleeps.\<close>

definition two_threads :: "nat lock" where
  "two_threads = \<lparr>cs_locked = True, cs_kill = True, cs_to_kill = Some 0, cs_waiting = 1,
     cs_place = (\<lambda>_. Outside)(0 := Inside True, 1 := Asleep False)\<rparr>"

lemma two_threads_reachable: "cs_reachable {0, 1} two_threads"
proof -
  let ?s = "fst (enter_try 0 True lock_new) :: nat lock"
  have "cs_reachable {0, 1} ?s"
    by (rule reach_step [OF reach_new step_enter [of 0 _ _ True]]) (simp_all add: lock_new_def enter_try_def)
  then show ?thesis
    by (rule reach_step [OF _ step_enter [of 1 _ _ False]]) (simp_all add: lock_new_def enter_try_def two_threads_def u64_add_def)
qed

theorem critical_section_witness:
  "snd (enter_try 2 True two_threads) = Some (Some 0) \<and> (\<exists>s'. cs_leave {0, 1} two_threads s')"
proof -
  have "finite {0, 1 :: nat}" "card {0, 1 :: nat} < u64_bound" by simp_all
  note spec = critical_section [OF this two_threads_reachable]
  have "(cs_leave {0, 1} ^^ 0) two_threads two_threads" by simp
  with spec have "(\<forall>t. cs_place two_threads t = Outside) \<or> (\<exists>s'. cs_leave {0, 1} two_threads s')" by blast
  moreover have "cs_place two_threads 0 = Inside True" by (simp add: two_threads_def)
  ultimately show ?thesis using spec by (metis place.distinct(5))
qed

end
