(* ===== verification/StoreSetup.thy ===== *)
theory StoreSetup
  imports BlockmapProps
begin

unbundle bit_operations_syntax

text \<open>
  \<open>blockmap::setup\<close> of \<open>blockstore/blockmap.cc\<close> and \<open>block_storage_manager::setup\<close>: what a server does
  with its database and its log file when it starts.

  LevelDB and the system calls are parameters. The database tells for a key whether it has a value; the
  code looks up the keys \<open>wtf\<close> and \<open>state\<close> and uses nothing but the status. A file is opened, made as
  long as the log, and mapped; the mapping is shared, so what one process writes to the log the
  next one finds in the file. The part of \<open>setup\<close> after \<open>if (true)\<close> is never reached.
\<close>

section \<open>The start\<close>

datatype db_status = Db_ok | Db_not_found | Db_corruption | Db_io_error | Db_other

record ('db, 'f) storage_ops =
  so_open_db :: "string \<Rightarrow> 'db option"
  so_get :: "'db \<Rightarrow> string \<Rightarrow> db_status"
  so_pagesize :: nat
  so_open_file :: "string \<Rightarrow> 'f option"
  so_truncate :: "'f \<Rightarrow> u64 \<Rightarrow> 'f option"
  so_mmap :: "'f \<Rightarrow> u64 \<Rightarrow> byte list option"

text \<open>The macro masks with the number itself, not with the complement of the page size less one.\<close>

definition round_up :: "nat \<Rightarrow> nat \<Rightarrow> nat" where
  "round_up x y = (x + y - 1) AND x"

definition backing_size :: "nat \<Rightarrow> u64" where
  "backing_size pagesize = round_up 100000000000 pagesize"

text \<open>\<open>None\<close> are the answers on which the code gives up.\<close>

definition first_time :: "db_status \<Rightarrow> bool option" where
  "first_time st = (case st of Db_ok \<Rightarrow> Some False | Db_not_found \<Rightarrow> Some True | _ \<Rightarrow> None)"

definition state_fits :: "bool \<Rightarrow> db_status \<Rightarrow> bool" where
  "state_fits first st = (case st of Db_ok \<Rightarrow> \<not> first | Db_not_found \<Rightarrow> first | _ \<Rightarrow> False)"

definition new_log :: "('db, 'f) storage_ops \<Rightarrow> string \<Rightarrow> disk option" where
  "new_log S backing_path =
     (let size = backing_size (so_pagesize S)
      in case so_open_file S backing_path of
           None \<Rightarrow> None
         | Some f \<Rightarrow>
             (case so_truncate S f size of
                None \<Rightarrow> None
              | Some f' \<Rightarrow> map_option (\<lambda>log. disk_new log size) (so_mmap S f' size)))"

definition bm_setup :: "('db, 'f) storage_ops \<Rightarrow> string \<Rightarrow> string \<Rightarrow> 'db blockmap option" where
  "bm_setup S path backing_path =
     (case so_open_db S path of
        None \<Rightarrow> None
      | Some db \<Rightarrow>
          (case first_time (so_get S db ''wtf'') of
             None \<Rightarrow> None
           | Some first \<Rightarrow>
               if state_fits first (so_get S db ''state'')
               then map_option (blockmap_new db) (new_log S backing_path)
               else None))"

text \<open>\<open>None\<close>: the process aborts.\<close>

definition bsm_open :: "('db, 'f) storage_ops \<Rightarrow> u64 \<Rightarrow> string \<Rightarrow> string \<Rightarrow> 'db block_storage_manager option" where
  "bsm_open S sid path backing_path = map_option (bsm_setup sid) (bm_setup S path backing_path)"

text \<open>With pages of 4096 bytes the size comes out as a multiple of them, below what was asked for; with pages of
  65536 bytes it is not a multiple.\<close>

lemma backing_size_pages:
  "backing_size 4096 = 99999997952" "99999997952 mod 4096 = (0 :: nat)" "backing_size 65536 mod 65536 \<noteq> 0"
  by (simp_all add: backing_size_def round_up_def)

lemma bm_setup_fresh: "bm_setup S path bpath = Some bm \<Longrightarrow> d_log_offset (bm_disk bm) = 0 \<and> bm_block_id bm = 0"
  by (auto simp: bm_setup_def new_log_def blockmap_new_def disk_new_def Let_def split: option.splits if_splits)

section \<open>A restart\<close>

text \<open>
  A server with the block map \<open>bm\<close> stops and starts again: the database gives back what it was given,
  no code stores anything under \<open>wtf\<close> or \<open>state\<close>, the file has its length already, and mapping it shows what
  was written to the log.
\<close>

definition restarts :: "('db, 'f) storage_ops \<Rightarrow> 'db kv_ops \<Rightarrow> string \<Rightarrow> string \<Rightarrow> 'db blockmap \<Rightarrow> bool" where
  "restarts S K path bpath bm \<longleftrightarrow>
     (\<exists>db f. so_open_db S path = Some db \<and> kv_get K db = kv_get K (bm_db bm) \<and>
        so_get S db ''wtf'' = Db_not_found \<and> so_get S db ''state'' = Db_not_found \<and>
        so_open_file S bpath = Some f \<and> so_truncate S f (backing_size (so_pagesize S)) = Some f \<and>
        so_mmap S f (backing_size (so_pagesize S)) = Some (d_log (bm_disk bm))) \<and>
     length (d_log (bm_disk bm)) = backing_size (so_pagesize S)"

lemma backing_size_bound: "backing_size p < u64_bound"
proof -
  have "99999999999 + int p AND 100000000000 \<le> 100000000000" by (rule AND_upper2) simp
  then have "nat (99999999999 + int p AND 100000000000) \<le> nat 100000000000" by (rule nat_mono)
  then show ?thesis by (simp add: backing_size_def round_up_def and_nat_def)
qed

lemma restarts_setup:
  assumes "restarts S K path bpath bm"
  shows "\<exists>db. bm_setup S path bpath = Some (blockmap_new db (disk_new (d_log (bm_disk bm)) (length (d_log (bm_disk bm))))) \<and>
    kv_get K db = kv_get K (bm_db bm) \<and> length (d_log (bm_disk bm)) < u64_bound"
  using assms backing_size_bound [of "so_pagesize S"]
  by (auto simp: restarts_def bm_setup_def first_time_def state_fits_def new_log_def)

text \<open>Reading a block uses its offset map and the log only.\<close>

lemma bm_read_loop_log: "d_log dk' = d_log dk \<Longrightarrow> bm_read_loop dk' first off rem out it = bm_read_loop dk first off rem out it"
proof (induction dk first off rem out it rule: bm_read_loop.induct)
  case (2 dk first offset rem out k s it)
  then show ?case by (auto simp: disk_read_def rbind_def Let_def split: sum.splits)
qed simp

lemma bm_read_log:
  assumes "kv_get K (bm_db bm') bid = kv_get K (bm_db bm) bid" and "d_log (bm_disk bm') = d_log (bm_disk bm)"
  shows "bm_read K E bid off len bm' = bm_read K E bid off len bm"
  unfolding bm_read_def read_offset_map_def assms(1) bm_read_loop_log [OF assms(2)] ..

section \<open>The first write\<close>

text \<open>With a new log the data goes to the beginning, whatever the database holds.\<close>

lemma first_write:
  fixes bm :: "'db blockmap"
  assumes E: "e_buffer E" and K: "kv_store K" and log: "length log < u64_bound" and data: "0 < length data"
    and w: "bm_write K E data b (blockmap_new db (disk_new log (length log))) = Inr (st, bid', bm')" and st: "0 \<le> st"
  shows "bid' = 0 \<and> d_log (bm_disk bm') = data @ drop (length data) log \<and> block_bytes K E bm' 0 = Some data \<and>
    (\<forall>b. b \<noteq> 0 \<longrightarrow> kv_get K (bm_db bm') b = kv_get K db b)"
  using w
proof (cases rule: bm_write_cases)
  case (commit st0 o0 dk vb st1)
  let ?dk = "disk_new log (length log)"
  have wf: "disk_wf ?dk" using log by (simp add: disk_wf_def disk_new_def)
  have d: "disk_write data ?dk = Inr (st0, o0, dk)" using commit(1) by (simp add: blockmap_new_def)
  then have le: "length data \<le> length log"
    using commit(2) by (auto simp: disk_write_def disk_new_def u64_add_def Let_def split: if_splits)
  have fits: "d_log_offset ?dk + length data < u64_bound" using le log by (simp add: disk_new_def)
  note f = disk_write_facts [OF wf fits d]
  have log': "o0 = 0" "d_log dk = data @ drop (length data) log"
    using d commit(2) le unfolding disk_write_eq [OF wf fits] by (auto simp: disk_new_def split: if_splits)
  have "vb_safe 0 (length data) []" by (simp add: vb_safe_def lower_bound_def)
  with vb_update_overlays [of 0 "[]" 0 "length data" o0] data fits commit(3) log'(1)
  have vwf: "vb_wf (length data) (entries (map snd vb))"
    and lk: "\<forall>x. vb_lookup vb x = (if 0 \<le> x \<and> x < 0 + length data then Some (o0 + (x - 0)) else vb_lookup [] x)"
    by (auto simp: vb_wf_def disk_new_def)
  have ol: "on_log dk (length data) vb" "log_bytes (d_log dk) vb 0 (length data) = data"
    using log_after_update [OF wf fits d _ _ _ lk, of 0] commit(2) by (simp_all add: on_log_def log_bytes_def overlay_bytes_def)
  have "st1 \<ge> 0" using commit(6) st by (auto split: if_splits)
  then obtain db' where put: "kv_put K db 0 (pack_vblock E vb) = Some db'"
    and bm': "bm_disk bm' = dk" "bm_db bm' = db'"
    using commit(4) by (auto simp: write_offset_map_def blockmap_new_def split: option.splits)
  note g = kv_store.get_put [OF K put]
  have "block_bytes K E bm' 0 = Some data"
    using stored_committed [OF E _ vwf data, of K bm' 0] ol bm' g by simp
  then show ?thesis using commit(5) log' bm' g by (simp add: blockmap_new_def)
qed (use st in simp)

text \<open>The block map over a log whose beginning has been replaced.\<close>

definition overwritten :: "byte list \<Rightarrow> 'db blockmap \<Rightarrow> 'db blockmap" where
  "overwritten data bm = bm\<lparr>bm_disk := (bm_disk bm)\<lparr>d_log := data @ drop (length data) (d_log (bm_disk bm))\<rparr>\<rparr>"

text \<open>C19: a restart. When a server stops and starts again on the same database and file, its setup succeeds
  and every block that was stored reads as before; but the numbers and the log start from the
  beginning. The first write that succeeds is given number 0, whatever was stored there, and every
  other block reads as if the beginning of the log had been overwritten with the data.
\<close>

theorem restart_then_write:
  assumes K: "kv_store K" and E: "e_buffer E" and restart: "restarts S K path bpath bm"
  shows "\<exists>bm'. bm_setup S path bpath = Some bm' \<and> (\<forall>b off len. bm_read K E b off len bm' = bm_read K E b off len bm) \<and>
    (\<forall>data b0 st bid' bm''. 0 < length data \<and> bm_write K E data b0 bm' = Inr (st, bid', bm'') \<and> 0 \<le> st \<longrightarrow>
       bid' = 0 \<and> block_bytes K E bm'' 0 = Some data \<and>
       (\<forall>b off len. b \<noteq> 0 \<longrightarrow> bm_read K E b off len bm'' = bm_read K E b off len (overwritten data bm)))"
proof -
  let ?log = "d_log (bm_disk bm)"
  from restarts_setup [OF restart] obtain db where
    s: "bm_setup S path bpath = Some (blockmap_new db (disk_new ?log (length ?log)))"
    and db: "kv_get K db = kv_get K (bm_db bm)" and len: "length ?log < u64_bound" by blast
  show ?thesis
  proof (intro exI [of _ "blockmap_new db (disk_new ?log (length ?log))"] conjI s allI impI; (elim conjE)?)
    show "bm_read K E b off len (blockmap_new db (disk_new ?log (length ?log))) = bm_read K E b off len bm" for b off len
      by (rule bm_read_log) (simp_all add: blockmap_new_def disk_new_def db)
  next
    fix data b0 st bid' bm''
    assume w: "0 < length data" "bm_write K E data b0 (blockmap_new db (disk_new ?log (length ?log))) = Inr (st, bid', bm'')"
      "0 \<le> st"
    note fw = first_write [OF E K len w]
    show "bid' = 0" "block_bytes K E bm'' 0 = Some data" using fw by simp_all
    show "bm_read K E b off len bm'' = bm_read K E b off len (overwritten data bm)" if "b \<noteq> 0" for b off len
      by (rule bm_read_log) (use fw that db in \<open>simp_all add: overwritten_def\<close>)
  qed
qed

text \<open>A server that stored the bytes 1, 2, 3 as its first block, with pages of 4096 bytes.\<close>

definition used_store :: "(u64 \<Rightarrow> byte list option) blockmap" where
  "used_store =
     (case bm_write map_kv be_codec [1, 2, 3] 0
             (blockmap_new (\<lambda>_. None) (disk_new (replicate (backing_size 4096) 0) (backing_size 4096))) of
        Inr (st, bid, bm) \<Rightarrow> bm | Inl e \<Rightarrow> blockmap_new (\<lambda>_. None) (disk_new [] 0))"

definition used_storage :: "(u64 \<Rightarrow> byte list option, byte list) storage_ops" where
  "used_storage = \<lparr>so_open_db = (\<lambda>_. Some (bm_db used_store)), so_get = (\<lambda>_ _. Db_not_found), so_pagesize = 4096,
     so_open_file = (\<lambda>_. Some (d_log (bm_disk used_store))), so_truncate = (\<lambda>f _. Some f), so_mmap = (\<lambda>f _. Some f)\<rparr>"

lemma small_write:
  assumes "length data \<le> length log" and "length log < u64_bound"
  shows "\<exists>bm. bm_write map_kv be_codec data b (blockmap_new db (disk_new log (length log))) = Inr (int (length data), 0, bm) \<and>
    length (d_log (bm_disk bm)) = length log"
  using assms
  by (simp add: bm_write_def disk_write_def blockmap_new_def disk_new_def write_offset_map_def map_kv_def vb_update_def
    u64_simps Let_def)

lemma used_store_facts:
  "length (d_log (bm_disk used_store)) = backing_size 4096" "block_bytes map_kv be_codec used_store 0 = Some [1, 2, 3]"
proof -
  let ?log = "replicate (backing_size 4096) 0 :: byte list"
  have len: "length ?log < u64_bound" using backing_size_bound by simp
  have "length [1, 2, 3 :: byte] \<le> length ?log" unfolding length_replicate backing_size_pages by simp
  from small_write [OF this len, of 0 "\<lambda>_. None"] obtain bm where
    w: "bm_write map_kv be_codec [1, 2, 3] 0 (blockmap_new (\<lambda>_. None) (disk_new ?log (length ?log))) = Inr (int 3, 0, bm)"
    and l: "length (d_log (bm_disk bm)) = length ?log" by auto
  have "used_store = bm" using w by (simp add: used_store_def)
  with l first_write [OF be.e_buffer_axioms map_kv.kv_store_axioms len _ w]
  show "length (d_log (bm_disk used_store)) = backing_size 4096" "block_bytes map_kv be_codec used_store 0 = Some [1, 2, 3]"
    by simp_all
qed

lemma used_restarts: "restarts used_storage map_kv path bpath used_store"
  using used_store_facts(1) by (simp add: restarts_def used_storage_def)

theorem restart_then_write_witness:
  "\<exists>bm' bm''. bm_setup used_storage ''data'' ''log'' = Some bm' \<and>
     bm_read map_kv be_codec 0 0 3 bm' = bm_read map_kv be_codec 0 0 3 used_store \<and>
     block_bytes map_kv be_codec used_store 0 = Some [1, 2, 3] \<and>
     bm_write map_kv be_codec [9] 7 bm' = Inr (1, 0, bm'') \<and> block_bytes map_kv be_codec bm'' 0 = Some [9]"
proof -
  note r = used_restarts [of "''data''" "''log''"]
  let ?log = "d_log (bm_disk used_store)"
  from restarts_setup [OF r] obtain db where
    s: "bm_setup used_storage ''data'' ''log'' = Some (blockmap_new db (disk_new ?log (length ?log)))" by blast
  have "length [9 :: byte] \<le> length ?log" unfolding used_store_facts(1) backing_size_pages by simp
  moreover have "length ?log < u64_bound" unfolding used_store_facts(1) by (rule backing_size_bound)
  ultimately obtain bm'' where
    w: "bm_write map_kv be_codec [9] 7 (blockmap_new db (disk_new ?log (length ?log))) = Inr (int (length [9 :: byte]), 0, bm'')"
    using small_write by blast
  with restart_then_write [OF map_kv.kv_store_axioms be.e_buffer_axioms r] s used_store_facts(2) show ?thesis
    by (force simp del: One_nat_def)
qed

end
