(* ===== verification/DaemonMain.thy ===== *)
theory DaemonMain
  imports LinkWrapperProps StoreSetup
begin

text \<open>
  \<open>daemon::run\<close> of \<open>daemon/daemon.cc\<close> from the beginning to the end: the start, the loop with the
  signals, and what it returns.

  Whether a system call of the start succeeds is a parameter, by the name of the signal or the call. Signals
  are handled where the loop tests for them: \<open>sigs k\<close> are those that arrive before the \<open>k\<close>th
  round; the main thread blocks signals but while it waits. The threads that answer the clients
  (\<open>daemon::loop\<close>) are in the theory \<open>Daemon\<close>; here the loop of the main thread runs alone.
\<close>

section \<open>The start\<close>

datatype ('e, 'db) start_result =
    Exit_failure
  | Store_aborted "'e link_wrapper"
  | Running "'e link_wrapper" "'db daemon"

definition start_calls :: "bool \<Rightarrow> string list" where
  "start_calls daemonize =
     [''SIGHUP'', ''SIGINT'', ''SIGTERM'', ''SIGALRM'', ''SIGUSR1'', ''sigfillset'', ''pthread_sigmask''] @
     (if daemonize then [''daemon''] else [])"

text \<open>The server is registered with the coordinator before its store is opened.\<close>

definition daemon_start ::
  "'e replicant_ops \<Rightarrow> e_codec \<Rightarrow> (string \<Rightarrow> bool) \<Rightarrow> (nat \<Rightarrow> u64 option) \<Rightarrow> ('db, 'f) storage_ops \<Rightarrow>
     bool \<Rightarrow> string \<Rightarrow> string \<Rightarrow> location \<Rightarrow> 'e \<Rightarrow> ('e, 'db) start_result run" where
  "daemon_start R E calls rnd S daemonize data backing_path bind_to e =
     (if \<not> list_all calls (start_calls daemonize) then ret Exit_failure
      else
        (case generate_token rnd 0 of
           None \<Rightarrow> None
         | Some None \<Rightarrow> ret Exit_failure
         | Some (Some sid) \<Rightarrow>
             run_bind (register_id R E sid bind_to (wrapper_new e)) (\<lambda>(ok, w).
               if \<not> ok then ret Exit_failure
               else case bsm_open S sid data backing_path of
                      None \<Rightarrow> ret (Store_aborted w)
                    | Some b \<Rightarrow> ret (Running w \<lparr>dm_us = sid, dm_blockman = b, dm_config = config_new\<rparr>))))"

section \<open>The loop\<close>

datatype signal = Stop | Alarm | Usr1

text \<open>\<open>rs_timeout\<close>: the handler of the alarm has been replaced by \<open>exit_after_timeout\<close>.\<close>

record run_state =
  rs_interrupts :: nat
  rs_alarm :: bool
  rs_timeout :: bool
  rs_requested_exit :: bool
  rs_checkpoint :: u64
  rs_checkpoint_stable :: u64
  rs_checkpoint_gc :: u64

definition run_state_new :: run_state where
  "run_state_new = \<lparr>rs_interrupts = 0, rs_alarm = False, rs_timeout = False, rs_requested_exit = False,
     rs_checkpoint = 0, rs_checkpoint_stable = 0, rs_checkpoint_gc = 0\<rparr>"

text \<open>The handlers; \<open>handle_debug\<close> is installed for no signal.\<close>

fun handle_signal :: "signal \<Rightarrow> run_state \<Rightarrow> run_state" where
  "handle_signal Stop s = s\<lparr>rs_interrupts := rs_interrupts s + 1\<rparr>"
| "handle_signal Alarm s = (if rs_timeout s then s\<lparr>rs_interrupts := rs_interrupts s + 1\<rparr> else s\<lparr>rs_alarm := True\<rparr>)"
| "handle_signal Usr1 s = s"

text \<open>The beginning of a round; the first result is the \<open>break\<close>.\<close>

definition check_interrupts ::
  "'e replicant_ops \<Rightarrow> e_codec \<Rightarrow> (string \<Rightarrow> bool) \<Rightarrow> server_id \<Rightarrow> run_state \<Rightarrow> 'e link_wrapper \<Rightarrow>
     bool \<times> run_state \<times> 'e link_wrapper" where
  "check_interrupts R E calls us s w =
     (let s1 = s\<lparr>rs_alarm := False\<rparr>
      in if rs_interrupts s1 > 0 \<and> \<not> rs_requested_exit s1 then
           (if \<not> calls ''exit_after_timeout'' then (True, s1\<lparr>rs_interrupts := rs_interrupts s1 + 2\<rparr>, w)
            else (False, s1\<lparr>rs_timeout := True, rs_requested_exit := True\<rparr>, request_shutdown R E us w))
         else (False, s1, w))"

definition note_checkpoints :: "configuration \<Rightarrow> 'e link_wrapper \<Rightarrow> run_state \<Rightarrow> run_state" where
  "note_checkpoints c w s =
     (if c_version c > 0
      then s\<lparr>rs_checkpoint := max (rs_checkpoint s) (lw_checkpoint w),
             rs_checkpoint_stable := max (rs_checkpoint_stable s) (lw_checkpoint_stable w),
             rs_checkpoint_gc := max (rs_checkpoint_gc s) (lw_checkpoint_gc w)\<rparr>
      else s)"

text \<open>The first result is \<open>cluster_jump\<close>.\<close>

partial_function (option) main_loop ::
  "'e replicant_ops \<Rightarrow> e_codec \<Rightarrow> (string \<Rightarrow> bool) \<Rightarrow> location \<Rightarrow> (nat \<Rightarrow> signal list) \<Rightarrow> nat \<Rightarrow> run_state \<Rightarrow>
     'e link_wrapper \<Rightarrow> 'db daemon \<Rightarrow> (bool \<times> run_state \<times> 'e link_wrapper \<times> 'db daemon) run" where
  "main_loop R E calls bind_to sigs k s w d =
     (let s0 = fold handle_signal (sigs k) s
      in if \<not> (rs_interrupts s0 < 2 \<and> \<not> should_exit (dm_us d) w) then Some (Inr (False, s0, w, d))
         else
           (case check_interrupts R E calls (dm_us d) s0 w of
              (stop, s1, w1) \<Rightarrow>
                if stop then Some (Inr (False, s1, w1, d))
                else
                  (case run_round R E bind_to w1 d of
                     None \<Rightarrow> None
                   | Some (Inl e) \<Rightarrow> Some (Inl e)
                   | Some (Inr (jump, w2, d1)) \<Rightarrow>
                       if jump then Some (Inr (True, note_checkpoints (dm_config d) w1 s1, w2, d1))
                       else main_loop R E calls bind_to sigs (Suc k) (note_checkpoints (dm_config d) w1 s1) w2 d1)))"

datatype ('e, 'db) run_result =
    Failed "('e, 'db) start_result"
  | Exit_success bool run_state "'e link_wrapper" "'db daemon"

definition daemon_run ::
  "'e replicant_ops \<Rightarrow> e_codec \<Rightarrow> (string \<Rightarrow> bool) \<Rightarrow> (nat \<Rightarrow> u64 option) \<Rightarrow> ('db, 'f) storage_ops \<Rightarrow>
     bool \<Rightarrow> string \<Rightarrow> string \<Rightarrow> location \<Rightarrow> (nat \<Rightarrow> signal list) \<Rightarrow> 'e \<Rightarrow> ('e, 'db) run_result run" where
  "daemon_run R E calls rnd S daemonize data backing_path bind_to sigs e =
     run_bind (daemon_start R E calls rnd S daemonize data backing_path bind_to e) (\<lambda>st.
       case st of
         Running w d \<Rightarrow>
           run_bind (main_loop R E calls bind_to sigs 0 run_state_new w d) (\<lambda>(jump, s, w', d').
             ret (Exit_success jump (s\<lparr>rs_interrupts := rs_interrupts s + 2\<rparr>) w' d'))
       | _ \<Rightarrow> ret (Failed st))"

section \<open>The start\<close>

lemma generate_token_large:
  assumes "generate_token rnd k = Some r"
  shows "r = Some t \<Longrightarrow> 2 ^ 32 \<le> t"
proof (induction rule: generate_token.raw_induct [OF _ assms, case_names 1])
  case (1 token rnd k r)
  then show ?case by (cases "rnd k") (auto split: if_splits)
qed

lemma link_rpc_same: "link_rpc R func data l = (i, st, l') \<Longrightarrow> l' = l\<lparr>lk_repl := lk_repl l'\<rparr>"
  by (auto simp: link_rpc_def split: prod.splits)

lemma link_ok_repl: "link_ok (l\<lparr>lk_repl := e\<rparr>) = link_ok l"
  by (simp add: link_ok_def split: link_state.split)

lemma register_ok:
  assumes run: "register_id R E us bind_to w = Some r" and ok: "wrapper_ok w"
  shows "case r of Inl f \<Rightarrow> answer_faults R E f | Inr (b, w') \<Rightarrow> wrapper_ok w' \<and> lw_config_ack w' = lw_config_ack w"
proof -
  obtain rid st l where rpc: "link_rpc R ''server_register'' (pack_id E us @ pack_location E bind_to) (lw_coord w) = (rid, st, l)"
    by (metis prod.collapse)
  have l: "link_ok l" using link_rpc_same [OF rpc] ok link_ok_repl unfolding wrapper_ok_def by metis
  show ?thesis
  proof (cases "rid < 0")
    case True
    then show ?thesis using run rpc l ok by (auto simp: register_id_def wrapper_ok_def)
  next
    case False
    then obtain lr where lr: "link_loop R E (-1) REPLICANT_GARBAGE l = Some lr"
      using run rpc by (cases "link_loop R E (-1) REPLICANT_GARBAGE l") (auto simp: register_id_def)
    note s = link_loop_ok [OF lr l]
    show ?thesis
    proof (cases lr)
      case (Inl f)
      then show ?thesis using run rpc False lr s by (auto simp: register_id_def)
    next
      case (Inr y)
      obtain i rst out st' l' where x: "lr = Inr (i, (rst, out), st', l')" using Inr by (metis prod.collapse)
      then have "link_ok l'" using s by (auto simp: link_step_def split: if_splits)
      then have "wrapper_ok (w\<lparr>lw_coord := l'\<rparr>)" using ok by (simp add: wrapper_ok_def)
      then show ?thesis using run rpc False lr x by (auto simp: register_id_def Let_def split: if_splits option.splits prod.splits)
    qed
  qed
qed

lemma wrapper_new_ok: "wrapper_ok (wrapper_new e)" "lw_config_ack (wrapper_new e) = 0"
  by (simp_all add: wrapper_ok_def wrapper_new_def link_ok_new)

lemma daemon_start_ok:
  assumes run: "daemon_start R E calls rnd S daemonize data bpath bind_to e = Some r"
  shows "case r of
      Inl f \<Rightarrow> answer_faults R E f
    | Inr Exit_failure \<Rightarrow> True
    | Inr (Store_aborted w) \<Rightarrow> bm_setup S data bpath = None
    | Inr (Running w d) \<Rightarrow> wrapper_ok w \<and> lw_config_ack w = 0 \<and> 2 ^ 32 \<le> dm_us d \<and> dm_config d = config_new \<and>
        bsm_open S (dm_us d) data bpath = Some (dm_blockman d)"
proof (cases "list_all calls (start_calls daemonize)")
  case True
  then obtain t where t: "generate_token rnd 0 = Some t"
    using run by (cases "generate_token rnd 0") (auto simp: daemon_start_def)
  show ?thesis
  proof (cases t)
    case None
    then show ?thesis using run t by (auto simp: daemon_start_def split: if_splits)
  next
    case (Some sid)
    note sid = generate_token_large [OF t Some] t Some
    obtain rr where rr: "register_id R E sid bind_to (wrapper_new e) = Some rr"
      using run True t Some by (cases "register_id R E sid bind_to (wrapper_new e)") (auto simp: daemon_start_def)
    show ?thesis using register_ok [OF rr wrapper_new_ok(1)] run True sid rr
      by (auto simp: daemon_start_def bsm_open_def wrapper_new_ok split: if_splits option.splits sum.splits)
  qed
qed (use run in \<open>auto simp: daemon_start_def\<close>)

section \<open>The loop\<close>

lemma check_interrupts_ok:
  assumes "check_interrupts R E calls us s w = (stop, s', w')" and "wrapper_ok w"
  shows "wrapper_ok w' \<and> lw_config_ack w' = lw_config_ack w \<and> (stop \<longrightarrow> 2 \<le> rs_interrupts s') \<and>
    rs_interrupts s \<le> rs_interrupts s'"
  using assms
  by (auto simp: check_interrupts_def request_shutdown_def make_rpc_def link_rpc_def wrapper_ok_def link_ok_repl Let_def
      split: if_splits prod.splits)

lemma main_loop_ok:
  assumes run: "main_loop R E calls bind_to sigs k s w d = Some r" and "wrapper_ok w"
    and "lw_config_ack w \<le> c_version (dm_config d)"
  shows "case r of
      Inl f \<Rightarrow> answer_faults R E f
    | Inr (jump, s', w', d') \<Rightarrow> wrapper_ok w' \<and> lw_config_ack w' \<le> c_version (dm_config d') \<and>
        c_version (dm_config d) \<le> c_version (dm_config d') \<and>
        (dm_config d' = dm_config d \<or> config_exists (dm_us d) (dm_config d')) \<and>
        dm_us d' = dm_us d \<and> dm_blockman d' = dm_blockman d \<and>
        (jump \<or> 2 \<le> rs_interrupts s' \<or> should_exit (dm_us d') w')"
  using assms(2-)
proof (induction rule: main_loop.raw_induct [OF _ run, case_names 1])
  case (1 loop R E calls bind_to sigs k s w d r)
  let ?s = "fold handle_signal (sigs k) s"
  obtain stop s1 w1 where ci: "check_interrupts R E calls (dm_us d) ?s w = (stop, s1, w1)" by (metis prod.collapse)
  note w1 = check_interrupts_ok [OF ci 1(3)]
  show ?case
  proof (cases "rs_interrupts ?s < 2 \<and> \<not> should_exit (dm_us d) w \<and> \<not> stop")
    case True
    then obtain rr where rr: "run_round R E bind_to w1 d = Some rr"
      using 1(2) ci by (cases "run_round R E bind_to w1 d") (auto simp: Let_def)
    have s: "case rr of Inl f \<Rightarrow> answer_faults R E f
      | Inr (jump, w2, d2) \<Rightarrow> wrapper_ok w2 \<and> lw_config_ack w2 \<le> c_version (dm_config d2) \<and>
          c_version (dm_config d) \<le> c_version (dm_config d2) \<and> dm_us d2 = dm_us d \<and> dm_blockman d2 = dm_blockman d \<and>
          (dm_config d2 = dm_config d \<or> config_exists (dm_us d) (dm_config d2))"
      using run_round_ok [OF rr] w1 1(4) by (cases rr) auto
    show ?thesis
    proof (cases rr)
      case (Inl f)
      then show ?thesis using 1(2) True ci rr s by (auto simp: Let_def)
    next
      case (Inr y)
      obtain jump w2 d2 where x: "rr = Inr (jump, w2, d2)" using Inr by (cases y) simp
      show ?thesis
      proof (cases jump)
        case False
        let ?s2 = "note_checkpoints (dm_config d) w1 s1"
        have "loop R E calls bind_to sigs (Suc k) ?s2 w2 d2 = Some r" using 1(2) True ci rr x False by (simp add: Let_def)
        from 1(1) [OF this] x s show ?thesis by (cases r) auto
      qed (use 1(2) True ci rr x s in \<open>auto simp: Let_def\<close>)
    qed
  next
    case False
    then show ?thesis using 1(2,3,4) ci w1 by (auto simp: Let_def split: if_splits)
  qed
qed

section \<open>Stopping\<close>

lemma handle_signal_facts:
  "rs_interrupts s \<le> rs_interrupts (handle_signal a s)" "rs_timeout (handle_signal a s) = rs_timeout s"
  "rs_requested_exit (handle_signal a s) = rs_requested_exit s"
  by (cases a; simp)+

lemma handle_signals_keep [simp]:
  "rs_timeout (fold handle_signal sigs s) = rs_timeout s" "rs_requested_exit (fold handle_signal sigs s) = rs_requested_exit s"
  by (induction sigs arbitrary: s) (simp_all add: handle_signal_facts)

lemma signals_interrupts: "rs_interrupts s \<le> rs_interrupts (fold handle_signal sigs s)"
proof (induction sigs arbitrary: s)
  case (Cons a sigs)
  from Cons [of "handle_signal a s"] handle_signal_facts(1) [of s a] show ?case by simp
qed simp

lemma signal_counted:
  assumes "x \<in> set sigs" and "x = Stop \<or> x = Alarm \<and> rs_timeout s"
  shows "rs_interrupts s < rs_interrupts (fold handle_signal sigs s)"
  using assms
proof (induction sigs arbitrary: s)
  case (Cons a sigs)
  note mono = handle_signal_facts [where s = s and a = a]
  show ?case
  proof (cases "x = a")
    case True
    then have "rs_interrupts s < rs_interrupts (handle_signal a s)" using Cons.prems(2) by (cases a) auto
    then show ?thesis using signals_interrupts [of "handle_signal a s" sigs] by simp
  next
    case False
    with Cons.IH [of "handle_signal a s"] Cons.prems mono show ?thesis by simp
  qed
qed simp

lemma note_checkpoints_signals [simp]:
  "rs_interrupts (note_checkpoints c w s) = rs_interrupts s" "rs_timeout (note_checkpoints c w s) = rs_timeout s"
  "rs_requested_exit (note_checkpoints c w s) = rs_requested_exit s"
  by (simp_all add: note_checkpoints_def)

text \<open>What a round of the loop needs to have returned.\<close>

lemma main_loop_returns:
  assumes "\<forall>w d. run_round R E bind_to w (d :: 'db daemon) \<noteq> None"
    and "\<And>s1 w1 w2 d1. rs_interrupts (fold handle_signal (sigs k) s) < 2 \<Longrightarrow>
      check_interrupts R E calls (dm_us d) (fold handle_signal (sigs k) s) w = (False, s1, w1) \<Longrightarrow>
      main_loop R E calls bind_to sigs (Suc k) (note_checkpoints (dm_config d) w1 s1) w2 (d1 :: 'db daemon) \<noteq> None"
  shows "main_loop R E calls bind_to sigs k s w (d :: 'db daemon) \<noteq> None"
proof -
  obtain stop s1 w1 where ci: "check_interrupts R E calls (dm_us d) (fold handle_signal (sigs k) s) w = (stop, s1, w1)"
    by (metis prod.collapse)
  obtain r where r: "run_round R E bind_to w1 d = Some r" using assms(1) [rule_format, of w1 d] by auto
  show ?thesis
    by (cases r) (use assms(2) ci r in \<open>auto simp: main_loop.simps [of _ _ _ _ _ k] Let_def\<close>)
qed

lemma check_keeps:
  assumes "check_interrupts R E calls us s w = (False, s1, w1)" and "rs_requested_exit s \<longrightarrow> rs_timeout s"
  shows "rs_interrupts s1 = rs_interrupts s" "rs_requested_exit s1 \<longrightarrow> rs_timeout s1" "1 \<le> rs_interrupts s \<Longrightarrow> rs_timeout s1"
    "rs_timeout s \<Longrightarrow> rs_timeout s1"
  using assms by (auto simp: check_interrupts_def Let_def split: if_splits)

lemma second_interrupt_stops:
  assumes rounds: "\<forall>w d. run_round R E bind_to w (d :: 'db daemon) \<noteq> None"
    and x: "x \<in> set (sigs (k + n))" "x = Stop \<or> x = Alarm" and s: "rs_timeout s" "1 \<le> rs_interrupts s"
  shows "main_loop R E calls bind_to sigs k s w (d :: 'db daemon) \<noteq> None"
  using x(1) s
proof (induction n arbitrary: k s w d)
  case 0
  then have i: "2 \<le> rs_interrupts (fold handle_signal (sigs k) s)" using signal_counted [of x "sigs k" s] x(2) by fastforce
  show ?case by (rule main_loop_returns [OF rounds]) (use i in simp)
next
  case (Suc n)
  let ?s = "fold handle_signal (sigs k) s"
  have s: "rs_timeout ?s" "1 \<le> rs_interrupts ?s" using Suc.prems(2,3) signals_interrupts [of s "sigs k"] by simp_all
  show ?case by (rule main_loop_returns [OF rounds], rule Suc.IH) (use Suc.prems(1) s check_keeps(1,4) in fastforce)+
qed

lemma two_interrupts_stop:
  assumes rounds: "\<forall>w d. run_round R E bind_to w (d :: 'db daemon) \<noteq> None"
    and x: "Stop \<in> set (sigs (k + n))" "y \<in> set (sigs (k + n + Suc m))" "y = Stop \<or> y = Alarm"
    and s: "rs_requested_exit s \<longrightarrow> rs_timeout s"
  shows "main_loop R E calls bind_to sigs k s w (d :: 'db daemon) \<noteq> None"
  using x(1,2) s
proof (induction n arbitrary: k s w d)
  case 0
  let ?s = "fold handle_signal (sigs k) s"
  have s: "rs_requested_exit ?s \<longrightarrow> rs_timeout ?s" "1 \<le> rs_interrupts ?s" using signal_counted [of Stop "sigs k" s] 0(1,3) by simp_all
  show ?case
    by (rule main_loop_returns [OF rounds], rule second_interrupt_stops [OF rounds _ x(3), where n = m])
      (use 0(2) s check_keeps(1,3) in fastforce)+
next
  case (Suc n)
  let ?s = "fold handle_signal (sigs k) s"
  have s: "rs_requested_exit ?s \<longrightarrow> rs_timeout ?s" using Suc.prems(3) by simp
  show ?case by (rule main_loop_returns [OF rounds], rule Suc.IH) (use Suc.prems s check_keeps(2) in fastforce)+
qed

section \<open>The properties\<close>

text \<open>C6: the life of a daemon, from its start to its end, whatever the coordinator and the system answer and
  whichever signals arrive. The only way it can fail is in decoding: the coordinator's library completed a fetch with
  success and its bytes are one of the three kinds on which reading a configuration fails (C29). Otherwise no assertion
  fails. The number of the server has at least 33 bits. It only goes on with a
  store that has been opened for that number, and aborts, already registered, when the store does not open.
  It ends because the cluster changed, because of interrupts, or because the coordinator says so; then its
  configuration is the empty one or has it as a member, and nothing newer has been acknowledged.
\<close>

theorem daemon_life:
  assumes run: "daemon_run R E calls rnd S daemonize data bpath bind_to sigs e = Some r"
  shows "case r of
      Inl f \<Rightarrow> answer_faults R E f
    | Inr (Failed st) \<Rightarrow> st = Exit_failure \<or> (\<exists>w. st = Store_aborted w \<and> bm_setup S data bpath = None)
    | Inr (Exit_success jump s w d) \<Rightarrow> 2 ^ 32 \<le> dm_us d \<and> bsm_open S (dm_us d) data bpath = Some (dm_blockman d) \<and>
        (jump \<or> 4 \<le> rs_interrupts s \<or> should_exit (dm_us d) w) \<and>
        (dm_config d = config_new \<or> config_exists (dm_us d) (dm_config d)) \<and> lw_config_ack w \<le> c_version (dm_config d)"
proof -
  obtain x where x: "daemon_start R E calls rnd S daemonize data bpath bind_to e = Some x"
    using run by (cases "daemon_start R E calls rnd S daemonize data bpath bind_to e") (auto simp: daemon_run_def)
  note ok = daemon_start_ok [OF x]
  show ?thesis
  proof (cases "\<exists>w d. x = Inr (Running w d)")
    case True
    then obtain w d where st: "x = Inr (Running w d)" by blast
    then obtain y where y: "main_loop R E calls bind_to sigs 0 run_state_new w d = Some y"
      using run x by (cases "main_loop R E calls bind_to sigs 0 run_state_new w d") (auto simp: daemon_run_def)
    have "wrapper_ok w" "lw_config_ack w \<le> c_version (dm_config d)" using ok st by simp_all
    from main_loop_ok [OF y this] run x st y ok show ?thesis by (auto simp: daemon_run_def split: sum.splits)
  next
    case False
    then show ?thesis using run x ok by (auto simp: daemon_run_def split: sum.splits start_result.splits)
  qed
qed

text \<open>Every call of the library gets a number of its own, and the first one succeeds.\<close>

definition counting_replicant :: "nat replicant_ops" where
  "counting_replicant = \<lparr>rp_send = (\<lambda>_ _ _ n. (int n, REPLICANT_SUCCESS, Suc n)),
     rp_wait = (\<lambda>_ _ _ n. (int n, REPLICANT_SUCCESS, Suc n)),
     rp_loop = (\<lambda>_ n. (0, REPLICANT_SUCCESS, (REPLICANT_SUCCESS, Some (pk16 be_codec (coord_code COORD_SUCCESS))), n)),
     rp_kill = (\<lambda>_ n. n)\<rparr>"

theorem daemon_life_witness:
  "\<exists>s w d. daemon_run counting_replicant be_codec (\<lambda>_. True) (\<lambda>_. Some (2 ^ 32)) used_storage True ''data'' ''log'' demo_bind
       (\<lambda>_. [Stop, Usr1, Stop]) 0 = Some (Inr (Exit_success False s w d)) \<and>
     2 ^ 32 \<le> dm_us d \<and> dm_us d = 2 ^ 32 \<and> bsm_open used_storage (dm_us d) ''data'' ''log'' = Some (dm_blockman d)"
proof -
  have "\<exists>w. register_id counting_replicant be_codec (2 ^ 32) demo_bind (wrapper_new 0) = Some (Inr (True, w)) \<and>
      lk_config (lw_coord w) = config_new \<and> \<not> lw_shutdown_requested w"
    using be.up16_pk16 [of "coord_code COORD_SUCCESS" "[]"]
    by (simp add: register_id_def link_rpc_def wrapper_new_def link_new_def link_loop_def link_wait.simps [of _ _ "-1"] link_round_def
      prime_state_machine_def begin_fetching_config_def counting_replicant_def config_new_def Let_def)
  then obtain w where reg: "register_id counting_replicant be_codec (2 ^ 32) demo_bind (wrapper_new 0) = Some (Inr (True, w))"
    and w: "lk_config (lw_coord w) = config_new" "\<not> lw_shutdown_requested w" by blast
  obtain b where b: "bsm_open used_storage (2 ^ 32) ''data'' ''log'' = Some b"
    using restarts_setup [OF used_restarts [of "''data''" "''log''"]] by (auto simp: bsm_open_def)
  have tok: "generate_token (\<lambda>_. Some (2 ^ 32)) 0 = Some (Some (2 ^ 32))" by (subst generate_token.simps) simp
  let ?d = "\<lparr>dm_us = 2 ^ 32, dm_blockman = b, dm_config = config_new\<rparr>"
  have start: "daemon_start counting_replicant be_codec (\<lambda>_. True) (\<lambda>_. Some (2 ^ 32)) used_storage True ''data'' ''log'' demo_bind 0 =
      Some (Inr (Running w ?d))"
    using reg b tok by (simp add: daemon_start_def start_calls_def del: power_numeral)
  let ?s = "fold handle_signal [Stop, Usr1, Stop] run_state_new"
  have "main_loop counting_replicant be_codec (\<lambda>_. True) demo_bind (\<lambda>_. [Stop, Usr1, Stop]) 0 run_state_new w ?d =
      Some (Inr (False, ?s, w, ?d))"
    by (subst main_loop.simps) (simp add: run_state_new_def)
  with start have run: "daemon_run counting_replicant be_codec (\<lambda>_. True) (\<lambda>_. Some (2 ^ 32)) used_storage True ''data'' ''log'' demo_bind
       (\<lambda>_. [Stop, Usr1, Stop]) 0 = Some (Inr (Exit_success False (?s\<lparr>rs_interrupts := rs_interrupts ?s + 2\<rparr>) w ?d))"
    by (simp add: daemon_run_def)
  from daemon_life [OF run] run show ?thesis by auto
qed

text \<open>C24: a daemon stops. If every round of its loop returns, then an interrupt followed, in any later round, by a second one
  or by the alarm that the first one sets, ends the loop, whatever else happens and whatever the coordinator answers.
\<close>

theorem daemon_stops:
  fixes d :: "'db daemon"
  assumes "\<forall>w d. run_round R E bind_to w (d :: 'db daemon) \<noteq> None"
    and "Stop \<in> set (sigs i)" and "i < j" and "Stop \<in> set (sigs j) \<or> Alarm \<in> set (sigs j)"
  shows "\<exists>r. main_loop R E calls bind_to sigs 0 run_state_new w d = Some r"
proof -
  obtain m where m: "j = 0 + i + Suc m" using assms(3) less_iff_Suc_add by auto
  have "main_loop R E calls bind_to sigs 0 run_state_new w d \<noteq> None"
    using assms(4) two_interrupts_stop [OF assms(1), of sigs 0 i] assms(2) unfolding m
    by (metis add_0 run_state_new_def run_state.select_convs(3,4))
  then show ?thesis by blast
qed

text \<open>A library that never has anything to report: every round returns, also with answers that wait in the link.\<close>

definition silent_replicant :: "unit replicant_ops" where
  "silent_replicant = \<lparr>rp_send = (\<lambda>_ _ _ e. (-1, REPLICANT_BACKOFF, e)), rp_wait = (\<lambda>_ _ _ e. (-1, REPLICANT_BACKOFF, e)),
     rp_loop = (\<lambda>_ e. (-1, REPLICANT_TIMEOUT, (REPLICANT_GARBAGE, None), e)), rp_kill = (\<lambda>_ e. e)\<rparr>"

lemma silent_round:
  "(\<exists>e. link_round silent_replicant E t st l = Inl e) \<or>
     (\<exists>i res st' l'. link_round silent_replicant E t st l = Inr (Leave (i, res, st', l')) \<and> i < 0)"
proof (cases "prime_state_machine silent_replicant st l")
  case (Inr p)
  obtain ok st1 l1 where p: "p = (ok, st1, l1)" by (cases p)
  have loop: "rp_loop silent_replicant t (lk_repl l1) = (-1, REPLICANT_TIMEOUT, (REPLICANT_GARBAGE, None), lk_repl l1)"
    by (simp add: silent_replicant_def)
  show ?thesis
    by (cases "ok \<and> lk_id l1 = -1")
      (use Inr p loop in \<open>auto simp: link_round_def handle_internal_callback_def store_result_def Let_def\<close>)
qed (simp add: link_round_def)

lemma silent_loop:
  "lk_pending_ids l = [] \<Longrightarrow> (\<exists>e. link_loop silent_replicant E t st l = Some (Inl e)) \<or>
     (\<exists>i res st' l'. link_loop silent_replicant E t st l = Some (Inr (i, res, st', l')) \<and> i < 0)"
  using silent_round [of E t st l] by (auto simp: link_loop_def link_wait.simps [of _ _ t st l])

lemma ensure_pending:
  "lk_pending_ids (lw_coord (ensure_available R E us bind_to w)) = lk_pending_ids (lw_coord w)"
  "lk_pending_ids (lw_coord (ensure_config_ack R E us w)) = lk_pending_ids (lw_coord w)"
  "lk_pending_ids (lw_coord (ensure_config_stable R E us w)) = lk_pending_ids (lw_coord w)"
  "lk_pending_ids (lw_coord (ensure_checkpoint R w)) = lk_pending_ids (lw_coord w)"
  "lk_pending_ids (lw_coord (ensure_checkpoint_report_stable R E us w)) = lk_pending_ids (lw_coord w)"
  "lk_pending_ids (lw_coord (ensure_checkpoint_stable R w)) = lk_pending_ids (lw_coord w)"
  "lk_pending_ids (lw_coord (ensure_checkpoint_gc R w)) = lk_pending_ids (lw_coord w)"
  by (simp_all add: ensure_available_def ensure_config_ack_def ensure_config_stable_def ensure_checkpoint_def
      ensure_checkpoint_report_stable_def ensure_checkpoint_stable_def ensure_checkpoint_gc_def
      make_rpc_def link_rpc_def wait_cond_def link_wait_for_def Let_def split: prod.split)

lemma callback_pending: "lk_pending_ids (lw_coord (snd (run_callback E rpc res w))) = lk_pending_ids (lw_coord w)"
  by (cases rpc; cases res)
    (auto simp: run_callback_def rpc_callback_def do_sleep_def Let_def split: option.splits)

lemma step_pending:
  assumes "maintain_step E us i res st w = Again (b, w')"
  shows "lk_pending_ids (lw_coord w') = lk_pending_ids (lw_coord w)"
proof -
  consider "w' = reset_sleep w" | rpc where "w' = snd (run_callback E rpc res (reset_sleep w\<lparr>lw_rpcs := m_erase i (lw_rpcs (reset_sleep w))\<rparr>))"
    using assms by (auto simp: maintain_step_def Let_def split: if_splits option.splits prod.splits) (metis snd_conv)
  then show ?thesis by cases (simp_all add: callback_pending reset_sleep_def)
qed

lemma silent_maintain: "maintain_link silent_replicant E us bind_to w \<noteq> None"
proof (induction "length (lk_pending_ids (lw_coord w))" arbitrary: w)
  case 0
  let ?w = "ensure_all silent_replicant E us bind_to w"
  have "lk_pending_ids (lw_coord ?w) = []" using 0 by (simp add: ensure_all_def ensure_pending)
  from silent_loop [OF this, of E 1000 REPLICANT_GARBAGE] show ?case
    by (subst maintain_link.simps) (auto simp: maintain_step_def Let_def)
next
  case (Suc n)
  let ?w = "ensure_all silent_replicant E us bind_to w"
  have same: "lk_pending_ids (lw_coord ?w) = lk_pending_ids (lw_coord w)" by (simp add: ensure_all_def ensure_pending)
  then obtain i r rest where p: "lk_pending_ids (lw_coord ?w) = (i, r) # rest" "n = length rest"
    using Suc(2) by (cases "lk_pending_ids (lw_coord w)") auto
  let ?w1 = "?w\<lparr>lw_coord := (lw_coord ?w)\<lparr>lk_pending_ids := rest\<rparr>\<rparr>"
  have l: "link_loop silent_replicant E 1000 REPLICANT_GARBAGE (lw_coord ?w) =
      Some (Inr (i, r, REPLICANT_GARBAGE, (lw_coord ?w)\<lparr>lk_pending_ids := rest\<rparr>))" using p by (simp add: link_loop_def)
  show ?case
  proof (cases "maintain_step E us i r REPLICANT_GARBAGE ?w1")
    case (Again y)
    obtain b w2 where y: "y = (b, w2)" by (cases y)
    have "lk_pending_ids (lw_coord w2) = rest" using step_pending [of E us i r REPLICANT_GARBAGE ?w1] Again y by simp
    with Suc(1) [of w2] p(2) Again y l show ?thesis by (subst maintain_link.simps) (simp add: Let_def)
  next
    case (Leave y)
    with l show ?thesis by (subst maintain_link.simps) (simp add: Let_def)
  qed
qed

lemma silent_rounds: "run_round silent_replicant E bind_to w d \<noteq> None"
proof -
  obtain r where "maintain_link silent_replicant E (dm_us d) bind_to w = Some r" using silent_maintain by blast
  then show ?thesis by (cases r) (auto simp: run_round_def split: prod.split follow_result.split)
qed

theorem daemon_stops_witness:
  "\<exists>r. main_loop silent_replicant be_codec (\<lambda>_. True) demo_bind
     (\<lambda>k. if k = 2 then [Usr1, Stop] else if k = 5 then [Alarm] else [Usr1]) 0 run_state_new (wrapper_new ())
     demo_run_daemon = Some r"
  by (rule daemon_stops [of _ _ _ _ 2 5]) (simp_all add: silent_rounds del: not_None_eq)

end
