(* ===== verification/DaemonOptions.thy ===== *)
theory DaemonOptions
  imports DaemonMain
begin

text \<open>
  \<open>daemon/main.cc\<close>: the options of the daemon and the call of \<open>daemon::run\<close>.

  popt reads the command line: it looks for the first row of the table that has the given name or letter, stores the
  argument where the row says, and returns the value of the row; an option that is not in the table, or an argument
  of the wrong type, is an error. Numbers are stored as they are, so a negative port is a large one. The addresses
  that po6 and BusyBee find are parameters; the help text, the log, and the exceptions of po6 that end \<open>main\<close> with a
  failure are not modelled.
\<close>

section \<open>The table\<close>

datatype target = To_metadata | To_data | To_log | To_listen_host | To_listen_port | To_coordinator_host
  | To_coordinator_port | To_threads

definition popts :: "(string \<times> char \<times> target option \<times> char) list" where
  "popts =
     [(''daemon'', CHR ''d'', None, CHR ''d''), (''foreground'', CHR ''f'', None, CHR ''f''),
      (''data'', CHR ''M'', Some To_metadata, CHR ''M''), (''data'', CHR ''D'', Some To_data, CHR ''D''),
      (''log'', CHR ''L'', Some To_log, CHR ''O''), (''listen'', CHR ''l'', Some To_listen_host, CHR ''l''),
      (''listen-port'', CHR ''p'', Some To_listen_port, CHR ''L''),
      (''coordinator'', CHR ''c'', Some To_coordinator_host, CHR ''c''),
      (''coordinator-port'', CHR ''P'', Some To_coordinator_port, CHR ''C''),
      (''threads'', CHR ''t'', Some To_threads, CHR ''t'')]"

datatype given = Long string | Short char

datatype argument = No_argument | Text string | Number int

definition popt_row :: "given \<Rightarrow> (string \<times> char \<times> target option \<times> char) option" where
  "popt_row g = find (\<lambda>(name, letter, _, _). case g of Long n \<Rightarrow> name = n | Short c \<Rightarrow> letter = c) popts"

section \<open>The options\<close>

record main_vars =
  mv_daemonize :: bool
  mv_data :: string
  mv_metadata :: string
  mv_log :: "string option"
  mv_listen_host :: string
  mv_listen_port :: u64
  mv_listen_ip :: ipaddr
  mv_listen :: bool
  mv_coordinator_host :: string
  mv_coordinator_port :: u64
  mv_coordinator :: bool
  mv_threads :: int

definition main_vars_new :: main_vars where
  "main_vars_new = \<lparr>mv_daemonize = False, mv_data = ''./data'', mv_metadata = ''./metadata'', mv_log = None,
     mv_listen_host = ''auto'', mv_listen_port = 2013, mv_listen_ip = Unspec, mv_listen = False,
     mv_coordinator_host = ''127.0.0.1'', mv_coordinator_port = 1982, mv_coordinator = False, mv_threads = 1\<rparr>"

fun popt_store :: "target option \<Rightarrow> argument \<Rightarrow> main_vars \<Rightarrow> main_vars option" where
  "popt_store None No_argument v = Some v"
| "popt_store (Some To_metadata) (Text x) v = Some (v\<lparr>mv_metadata := x\<rparr>)"
| "popt_store (Some To_data) (Text x) v = Some (v\<lparr>mv_data := x\<rparr>)"
| "popt_store (Some To_log) (Text x) v = Some (v\<lparr>mv_log := Some x\<rparr>)"
| "popt_store (Some To_listen_host) (Text x) v = Some (v\<lparr>mv_listen_host := x\<rparr>)"
| "popt_store (Some To_listen_port) (Number n) v = Some (v\<lparr>mv_listen_port := u64_of_int n\<rparr>)"
| "popt_store (Some To_coordinator_host) (Text x) v = Some (v\<lparr>mv_coordinator_host := x\<rparr>)"
| "popt_store (Some To_coordinator_port) (Number n) v = Some (v\<lparr>mv_coordinator_port := u64_of_int n\<rparr>)"
| "popt_store (Some To_threads) (Number n) v = Some (v\<lparr>mv_threads := n\<rparr>)"
| "popt_store _ _ v = None"

record net_ops =
  no_ipaddr :: "string \<Rightarrow> ipaddr option"
  no_lookup :: "string \<Rightarrow> location"
  no_discover :: "ipaddr option"

definition listen_option :: "net_ops \<Rightarrow> main_vars \<Rightarrow> main_vars option" where
  "listen_option N v =
     (let v1 = v\<lparr>mv_listen := True\<rparr>
      in if mv_listen_host v = ''auto'' then Some v1
         else
           (case no_ipaddr N (mv_listen_host v) of
              Some ip \<Rightarrow> Some (v1\<lparr>mv_listen_ip := ip\<rparr>)
            | None \<Rightarrow>
                (let l = no_lookup N (mv_listen_host v)
                 in if l = loc_default then None else Some (v1\<lparr>mv_listen_ip := loc_address l\<rparr>))))"

text \<open>The \<open>switch\<close>; \<open>None\<close> leaves \<open>main\<close> with a failure.\<close>

definition main_option :: "net_ops \<Rightarrow> char \<Rightarrow> main_vars \<Rightarrow> main_vars option" where
  "main_option N rc v =
     (if rc = CHR ''d'' then Some (v\<lparr>mv_daemonize := True\<rparr>)
      else if rc = CHR ''f'' then Some (v\<lparr>mv_daemonize := False\<rparr>)
      else if rc = CHR ''D'' \<or> rc = CHR ''M'' \<or> rc = CHR ''t'' then Some v
      else if rc = CHR ''l'' then listen_option N v
      else if rc = CHR ''L'' then (if mv_listen_port v \<ge> 65536 then None else Some (v\<lparr>mv_listen := True\<rparr>))
      else if rc = CHR ''c'' then Some (v\<lparr>mv_coordinator := True\<rparr>)
      else if rc = CHR ''C'' then (if mv_coordinator_port v \<ge> 65536 then None else Some (v\<lparr>mv_coordinator := True\<rparr>))
      else None)"

fun main_options :: "net_ops \<Rightarrow> (given \<times> argument) list \<Rightarrow> main_vars \<Rightarrow> main_vars option" where
  "main_options N [] v = Some v"
| "main_options N ((g, a) # args) v =
     (case popt_row g of
        None \<Rightarrow> None
      | Some (_, _, target, rc) \<Rightarrow>
          (case Option.bind (popt_store target a v) (main_option N rc) of
             None \<Rightarrow> None
           | Some v1 \<Rightarrow> main_options N args v1))"

text \<open>The end of \<open>main\<close>; \<open>connect\<close> is the library of the coordinator for an address.\<close>

definition daemon_main ::
  "'e replicant_ops \<Rightarrow> e_codec \<Rightarrow> (string \<Rightarrow> bool) \<Rightarrow> (nat \<Rightarrow> u64 option) \<Rightarrow> ('db, 'f) storage_ops \<Rightarrow> net_ops \<Rightarrow>
     (string \<Rightarrow> u64 \<Rightarrow> 'e) \<Rightarrow> (nat \<Rightarrow> signal list) \<Rightarrow> (given \<times> argument) list \<Rightarrow> ('e, 'db) run_result run" where
  "daemon_main R E calls rnd S N connect sigs args =
     (case main_options N args main_vars_new of
        None \<Rightarrow> ret (Failed Exit_failure)
      | Some v \<Rightarrow>
          (case (if mv_listen_host v = ''auto'' then no_discover N else Some (mv_listen_ip v)) of
             None \<Rightarrow> ret (Failed Exit_failure)
           | Some ip \<Rightarrow>
               daemon_run R E calls rnd S (mv_daemonize v) (mv_data v) (mv_metadata v)
                 \<lparr>loc_address = ip, loc_port = mv_listen_port v mod 65536\<rparr> sigs
                 (connect (mv_coordinator_host v) (mv_coordinator_port v mod 65536))))"

section \<open>What they do\<close>

lemma popt_row_Short:
  "popt_row (Short c) = Some (name, letter, target, rc) \<Longrightarrow> letter = c \<and> (name, letter, target, rc) \<in> set popts"
  by (auto simp: popt_row_def find_Some_iff in_set_conv_nth)

text \<open>A long name finds its first row, so \<open>--data\<close> is the option \<open>-M\<close>.\<close>

lemma popt_row_Long:
  "popt_row (Long name) = Some (n, letter, target, rc) \<Longrightarrow> (n, letter, target, rc) \<in> set popts \<and> letter \<noteq> CHR ''D''"
  by (auto simp: popt_row_def popts_def split: if_splits)

definition good_ports :: "main_vars \<Rightarrow> bool" where
  "good_ports v \<longleftrightarrow> mv_listen_port v < 65536 \<and> mv_coordinator_port v < 65536"

lemma option_step:
  assumes "(n, letter, target, rc) \<in> set popts" and "popt_store target a v = Some v0" and "main_option N rc v0 = Some v1"
  shows "(good_ports v \<longrightarrow> good_ports v1) \<and> letter \<noteq> CHR ''L'' \<and> (letter \<noteq> CHR ''D'' \<longrightarrow> mv_data v1 = mv_data v)"
proof (cases a)
  case No_argument
  then show ?thesis using assms
    by (auto simp: popts_def main_option_def good_ports_def)
next
  case (Text x)
  then show ?thesis using assms
    by (auto simp: popts_def main_option_def listen_option_def good_ports_def Let_def split: option.splits if_splits)
next
  case (Number k)
  then show ?thesis using assms
    by (auto simp: popts_def main_option_def good_ports_def split: if_splits)
qed

definition logs :: "given \<Rightarrow> bool" where
  "logs g \<longleftrightarrow> g = Long ''log'' \<or> g = Short (CHR ''L'')"

lemma logs_row: "logs g \<Longrightarrow> popt_row g = Some (''log'', CHR ''L'', Some To_log, CHR ''O'')"
  by (auto simp: logs_def popt_row_def popts_def)

lemma main_options_keep:
  assumes "main_options N args v = Some w"
  shows "(good_ports v \<longrightarrow> good_ports w) \<and> (\<forall>(g, a) \<in> set args. \<not> logs g) \<and>
    ((\<forall>(g, a) \<in> set args. g \<noteq> Short (CHR ''D'')) \<longrightarrow> mv_data w = mv_data v)"
  using assms
proof (induction N args v rule: main_options.induct)
  case (2 N g a args v)
  from "2.prems" obtain n letter target rc v0 v1 where row: "popt_row g = Some (n, letter, target, rc)"
    and step: "popt_store target a v = Some v0" "main_option N rc v0 = Some v1" and rest: "main_options N args v1 = Some w"
    by (auto split: option.splits prod.splits simp: bind_eq_Some_conv)
  have r: "(n, letter, target, rc) \<in> set popts" "g \<noteq> Short (CHR ''D'') \<longrightarrow> letter \<noteq> CHR ''D''"
    using row popt_row_Short popt_row_Long by (cases g; blast)+
  from option_step [OF r(1) step] have s: "good_ports v \<longrightarrow> good_ports v1" "letter \<noteq> CHR ''L''"
    "letter \<noteq> CHR ''D'' \<longrightarrow> mv_data v1 = mv_data v" by simp_all
  have "\<not> logs g" using logs_row [of g] row s(2) by auto
  moreover have "Option.bind (popt_store target a v) (main_option N rc) = Some v1" using step by simp
  note "2.IH" [OF row refl refl refl this rest]
  ultimately show ?case using r(2) s by auto
qed simp

text \<open>
  The options of the daemon. A log directory can be documented but not given: the value of its row is missing
  in the \<open>switch\<close>, so the daemon fails. \<open>--data\<close> names the backing file, not the database, which only \<open>-D\<close> can
  move. Ports are those of a network.
\<close>

theorem daemon_options:
  "(\<exists>(g, a) \<in> set args. logs g) \<Longrightarrow> daemon_main R E calls rnd S N connect sigs args = ret (Failed Exit_failure)"
  "main_options N args main_vars_new = Some v \<Longrightarrow> mv_listen_port v < 65536 \<and> mv_coordinator_port v < 65536"
  "main_options N args main_vars_new = Some v \<Longrightarrow> \<forall>(g, a) \<in> set args. g \<noteq> Short (CHR ''D'') \<Longrightarrow> mv_data v = ''./data''"
  subgoal
    using main_options_keep [of N args main_vars_new] by (cases "main_options N args main_vars_new") (auto simp: daemon_main_def)
  subgoal
    using main_options_keep [of N args main_vars_new v] by (simp add: good_ports_def main_vars_new_def)
  subgoal
    using main_options_keep [of N args main_vars_new v] by (simp add: main_vars_new_def)
  done

lemma data_is_metadata:
  "main_options N [(Long ''data'', Text dir), (Short (CHR ''f''), No_argument)] main_vars_new =
     Some (main_vars_new\<lparr>mv_metadata := dir\<rparr>)"
  by (simp add: popt_row_def popts_def main_option_def main_vars_new_def)

end
