(* ===== verification/Directories.thy ===== *)
theory Directories
  imports Namespace ClientPathProps
begin

text \<open>
  The working directory from end to end: \<open>chdir\<close> through the client, its loop and the answer of
  HyperDex, and the names that are resolved against the directory afterwards.
\<close>

section \<open>Changing the directory\<close>

lemma chdir_launches:
  assumes "idle_client s" and "abs_path path s = Inr (Some abspath)"
    and "quiet_link R E (cl_coord s)" "fst (ce_set_external V (cl_env s)) = BUSYBEE_SUCCESS"
    and "ce_hyperdex V (HD_get abspath) (snd (ce_set_external V (cl_env s))) = ((r, st), e)" and "0 \<le> r"
  shows "client_chdir V R E path s = ret (cl_next_client_id s, Some WTF_CLIENT_SUCCESS,
    launched V (cl_next_client_id s) (Op_chdir abspath)
      \<lparr>msg_reqid = r, msg_call = HD_get abspath, msg_status = st, msg_attrs = []\<rparr> e
      (s\<lparr>cl_next_client_id := cl_next_client_id s + 1, cl_env := snd (ce_set_external V (cl_env s))\<rparr>))"
proof -
  let ?i = "cl_next_client_id s" and ?k = "Op_chdir abspath" and ?e = "snd (ce_set_external V (cl_env s))"
  let ?s = "s\<lparr>cl_next_client_id := cl_next_client_id s + 1, cl_env := ?e\<rparr>"
  have idle: "idle_client ?s" using assms(1) by (simp add: idle_client_def)
  have m: "maintain_coord_connection V R E (s\<lparr>cl_next_client_id := cl_next_client_id s + 1\<rparr>) = ret (None, ?s)"
    using maintain_quiet [of R E "s\<lparr>cl_next_client_id := cl_next_client_id s + 1\<rparr>" V] assms(3,4) by simp
  have p: "abs_path path ?s = Inr (Some abspath)" using assms(2) by (simp add: abs_path_def)
  have "snd (send_hyperdex V (HD_get abspath) (cl_next_ref ?s)
      (?s\<lparr>cl_ops := (cl_ops ?s)(cl_next_ref ?s := op_new ?i ?k), cl_next_ref := Suc (cl_next_ref ?s)\<rparr>)) =
    launched V ?i ?k \<lparr>msg_reqid = r, msg_call = HD_get abspath, msg_status = st, msg_attrs = []\<rparr> e ?s"
    by (rule send_launches [OF idle]) (use assms in simp_all)
  then show ?thesis
    using m p canon_of [OF p]
    by (simp add: client_chdir_def next_client_id_def new_op_def started_def launched_def op_new_def Let_def)
qed

lemma chdir_parse_listed:
  assumes "distinct (map fst as)" and "(''directory'', v) \<in> set as" and "up64 E v = Some (x, rest)"
  shows "chdir_parse E as = Inr (x \<noteq> 0)"
  using assms(1,2)
proof (induction "as")
  case (Cons a as)
  obtain k w where a: "a = (k, w)" by (cases a)
  show ?case
  proof (cases "k = ''directory''")
    case True
    then have "w = v" using Cons.prems a by force
    moreover have "chdir_parse E as = Inr True" if "''directory'' \<notin> fst ` set as" for as
      using that by (induction "as") (auto split: prod.split)
    ultimately show ?thesis using True a Cons.prems(1) assms(3) by simp
  qed (use Cons a in auto)
qed simp

text \<open>What the answer says of the directory flag; no object has no attributes.\<close>

definition enters :: "e_codec \<Rightarrow> hd_object option \<Rightarrow> bool \<Rightarrow> bool" where
  "enters E obj ok \<longleftrightarrow> (case obj of None \<Rightarrow> ok
     | Some a \<Rightarrow> (\<exists>v x rest. a ''directory'' = Some v \<and> up64 E v = Some (x, rest) \<and> ok = (x \<noteq> 0)))"

context directory_services
begin

lemma chdir_done:
  assumes idle: "idle_client s" "answers (cl_env s) = []" and i: "0 < cl_next_client_id s"
    and q: "quiet_link R E (cl_coord s)" and p: "abs_path path s = Inr (Some abspath)"
    and obj: "enters E (store (cl_env s) abspath) ok"
  shows "\<exists>s1. and_wait V R E (client_chdir V R E path s) = ret (cl_next_client_id s, Some WTF_CLIENT_SUCCESS, s1) \<and>
    idle_client s1 \<and> cl_coord s1 = cl_coord s \<and> cl_next_client_id s1 = cl_next_client_id s + 1 \<and>
    cl_cwd s1 = (if ok then abspath else cl_cwd s) \<and> store (cl_env s1) = store (cl_env s) \<and> answers (cl_env s1) = [] \<and>
    po_status (cl_ops s1 (cl_next_ref s)) = (if ok then WTF_CLIENT_SUCCESS else WTF_CLIENT_NOTDIR)"
proof -
  let ?i = "cl_next_client_id s" and ?e = "snd (ce_set_external V (cl_env s))"
  have f1: "store ?e = store (cl_env s)" "answers ?e = []" using external_frame [of ?e "cl_env s"] idle(2) by simp_all
  obtain r st e where e: "ce_hyperdex V (HD_get abspath) ?e = ((r, st), e)" by (metis prod.collapse)
  let ?s = "s\<lparr>cl_next_client_id := ?i + 1, cl_env := ?e\<rparr>"
  let ?m = "\<lparr>msg_reqid = r, msg_call = HD_get abspath, msg_status = st, msg_attrs = []\<rparr>"
  let ?l = "launched V ?i (Op_chdir abspath) ?m e ?s"
  have l: "client_chdir V R E path s = ret (?i, Some WTF_CLIENT_SUCCESS, ?l)"
    by (rule chdir_launches [OF idle(1) p q external_result e]) (use get_call [OF e] in blast)
  have get: "store e = store (cl_env s)" and
    ans: "case store (cl_env s) abspath of
        None \<Rightarrow> answers e = [(r, HYPERDEX_CLIENT_SUCCESS, HYPERDEX_CLIENT_NOTFOUND, [])]
      | Some a \<Rightarrow> \<exists>as. lists_object as a \<and> answers e = [(r, HYPERDEX_CLIENT_SUCCESS, HYPERDEX_CLIENT_SUCCESS, as)]"
    using get_call [OF e] f1 by (auto split: option.splits)
  obtain mst "as" where a: "answers e = [(r, HYPERDEX_CLIENT_SUCCESS, mst, as)]" and parse: "chdir_parse E as = Inr ok"
  proof (cases "store (cl_env s) abspath")
    case None
    then show ?thesis using ans obj that by (simp add: enters_def)
  next
    case (Some o1)
    then obtain v x rest "as" where v: "o1 ''directory'' = Some v" "up64 E v = Some (x, rest)" "ok = (x \<noteq> 0)"
      and as: "lists_object as o1" "answers e = [(r, HYPERDEX_CLIENT_SUCCESS, HYPERDEX_CLIENT_SUCCESS, as)]"
      using obj ans by (auto simp: enters_def)
    have "distinct (map fst as)" "(''directory'', v) \<in> set as" using as(1) v(1) by (auto simp: lists_object_def map_of_SomeD)
    from chdir_parse_listed [OF this v(2)] show ?thesis using as(2) v(3) that by simp
  qed
  let ?x = "if ok then WTF_CLIENT_SUCCESS else WTF_CLIENT_NOTDIR" and ?d = "if ok then abspath else cl_cwd s"
  have sidle: "idle_client ?s" using idle(1) by (simp add: idle_client_def)
  have "\<exists>e'. client_loop V R E ?i (-1) ?l = ret (?i, WTF_CLIENT_SUCCESS,
      (update_op (cl_next_ref ?s) (\<lambda>op. op\<lparr>po_kind := Op_chdir abspath, po_outstanding_hyperdex := [], po_status := ?x, po_done := True\<rparr>) ?l)
        \<lparr>cl_files := cl_files s, cl_cwd := ?d, cl_env := e', cl_pending_hyperdex_ops := []\<rparr>) \<and> store e' = store (cl_env ?l) \<and> answers e' = []"
  proof (rule one_answer_to [OF _ launched_waiting [OF sidle i]])
    show "answers (cl_env ?l) = [(msg_reqid ?m, HYPERDEX_CLIENT_SUCCESS, mst, as)]" using a by (simp add: launched_def)
  qed (use q parse in \<open>auto simp: launched_def op_handle_hyperdex_message_def chdir_handle_hyperdex_message_def update_op_def op_new_def
      remove_hyperdex_message_def first_message_def is_get_def plain_kind_def set_status_def\<close>)
  then obtain e' where "client_loop V R E ?i (-1) ?l = ret (?i, WTF_CLIENT_SUCCESS,
      (update_op (cl_next_ref ?s) (\<lambda>op. op\<lparr>po_kind := Op_chdir abspath, po_outstanding_hyperdex := [], po_status := ?x, po_done := True\<rparr>) ?l)
        \<lparr>cl_files := cl_files s, cl_cwd := ?d, cl_env := e', cl_pending_hyperdex_ops := []\<rparr>)" "store e' = store (cl_env s)" "answers e' = []"
    using get by (auto simp: launched_def)
  then show ?thesis using l i idle(1) by (simp add: and_wait_def launched_def update_op_def idle_client_def)
qed

end

section \<open>Names\<close>

lemma resolve_text:
  assumes "path_ok st"
  shows "resolve q (concat (map (\<lambda>x. CHR ''/'' # x) st)) = q @ st"
  using assms
proof (induction st arbitrary: q)
  case (Cons x st)
  then have x: "CHR ''/'' \<notin> set x" "path_step x q = q @ [x]" and st: "path_ok st" by (auto simp: path_ok_def path_step_def)
  show ?case
  proof (cases st)
    case Nil
    then show ?thesis using x by (simp add: resolve_component [of q x])
  next
    case (Cons y ys)
    have "resolve (q @ [x]) (concat (map (\<lambda>x. CHR ''/'' # x) st)) = q @ x # st" using Cons.IH [OF st, of "q @ [x]"] by simp
    then show ?thesis using x Cons by (simp add: resolve_component [of q "x @ CHR ''/'' # _"])
  qed
qed simp

lemma absolute_name:
  assumes "path_ok st" and "st \<noteq> []" and "path_ok d" "cl_cwd s = path_text d" and "length (path_text st) + 4 \<le> path_max"
  shows "abs_path (path_text st) s = Inr (Some (path_text st))"
proof -
  have "take 1 (path_text st) = ''/''" using assms(2) by (cases st) (simp_all add: path_text_def)
  moreover have "resolve [] (path_text st) = st" using resolve_text [OF assms(1), of "[]"] assms(2) by (simp add: path_text_def)
  ultimately show ?thesis using canon_resolves [OF assms(3), of "path_text st" path_max] assms(4,5) by (simp add: abs_path_def Let_def)
qed

lemma relative_name:
  assumes "path_ok (st @ [x])" and "cl_cwd s = path_text st" and "length (path_text st) + length x + 4 \<le> path_max"
  shows "abs_path x s = Inr (Some (path_text (st @ [x])))"
proof -
  have ok: "path_ok st" and x: "x \<noteq> []" "CHR ''/'' \<notin> set x" "path_step x st = st @ [x]"
    using assms(1) by (auto simp: path_ok_def path_step_def)
  have "take 1 x \<noteq> ''/''" using x(1,2) by (cases x) auto
  moreover have "resolve st x = st @ [x]" using x by (simp add: resolve_component)
  ultimately show ?thesis
    using canon_resolves [OF ok, of x path_max] assms(2,3) by (simp add: abs_path_def Let_def)
qed

lemma path_text_len: "length (path_text st) + length x \<le> length (path_text (st @ [x]))"
  by (simp add: path_text_def)

section \<open>The properties\<close>

lemma digits_zero: "foldl (\<lambda>acc i. acc * 256 + f i) a is = (0 :: nat) \<longleftrightarrow> a = 0 \<and> (\<forall>i \<in> set is. f i = 0)"
  by (induction "is" arbitrary: a) auto

lemma swap64_zero: "x < 256 ^ 8 \<Longrightarrow> swap64 x = 0 \<longleftrightarrow> x = 0"
proof
  assume x: "x < 256 ^ 8" and "swap64 x = 0"
  note this(2)
  moreover have "[0, 1, 2, 3, 4, 5, 6, 7] = [0..<8::nat]" by (simp add: upt_rec)
  ultimately have "\<forall>i \<in> set [0..<8]. x div 256 ^ i mod 256 = 0" unfolding swap64_def by (simp only: digits_zero simp_thms)
  then have d: "x div 256 ^ i mod 256 = 0" if "i \<le> 7" for i using that by simp
  have "x div 256 ^ (8 - n) = 0" if "n \<le> 8" for n using that
  proof (induction n)
    case (Suc n)
    have "8 - n = Suc (8 - Suc n)" using Suc.prems by simp
    then have "x div 256 ^ (8 - Suc n) div 256 = 0" using Suc by (simp add: div_mult2_eq [symmetric] mult.commute)
    then show ?case using d [of "8 - Suc n"] by (simp add: mod_eq_self_iff_div_eq_0 [symmetric])
  qed (use x in simp)
  from this [of 8] show "x = 0" by simp
qed (simp add: swap64_def)

lemma enters_int:
  assumes "e_buffer E" and "directory_services V E store answers blank" and "n < u64_bound" and "a ''directory'' = Some (ce_int V n)"
  shows "enters E (Some a) (n \<noteq> 0)"
proof -
  obtain x rest where x: "up64 E (ce_int V n) = Some (x, rest)" "swap64 x = n"
    using directory_services.int_attr [OF assms(2,3)] by blast
  have "x < 256 ^ 8" using int_codec.up_rest [OF e_buffer.codec64 [OF assms(1)] x(1)] by simp
  then show ?thesis using x assms(4) swap64_zero [of x] by (simp add: enters_def)
qed

context directory_services
begin

text \<open>A file that is made under one spelling of its name is seen under another.\<close>

lemma created_is_seen:
  fixes s :: "('r, 'e) client"
  assumes E: "e_buffer E" and idle: "idle_client s" "answers (cl_env s) = []" and i: "0 < cl_next_client_id s"
    and q: "quiet_link R E (cl_coord s)" and p: "abs_path path s = Inr (Some abspath)"
    and p': "\<And>s'. cl_cwd s' = cl_cwd s \<Longrightarrow> abs_path path' (s' :: ('r, 'e) client) = Inr (Some abspath)"
    and mode: "mode < 4294967296" and time: "\<And>e. fst (ce_time V e) < u64_bound"
    and user: "CHR 0x00 \<notin> set (ce_user V)" "getpwnam (ce_user V) = Some pw"
  shows "\<exists>e s1 s2. fusewtf_create V R E path mode s = ret (0, cl_next_fileno s, s1) \<and> cl_cwd s1 = cl_cwd s \<and>
    idle_client s1 \<and> answers (cl_env s1) = [] \<and> cl_coord s1 = cl_coord s \<and> cl_next_client_id s1 = cl_next_client_id s + 1 \<and>
    enters E (store (cl_env s1) abspath) False \<and>
    fusewtf_getattr V R E errno getpwnam path' s1 = ret (0, Some \<lparr>st_mode = mode OR S_IFREG, st_mtime = fst (ce_time V e),
      st_nlink = 1, st_size = 0, st_uid = fst pw, st_gid = snd pw\<rparr>, s2)"
proof -
  let ?e = "snd (ce_set_external V (cl_env s))"
  let ?now = "fst (ce_time V ?e)"
  let ?f = "(file_new abspath fuse_replication fuse_block_length)\<lparr>fl_flags := O_CREAT, fl_mode := mode, fl_owner := ce_user V, fl_group := ce_group V\<rparr>"
  let ?old = "case store (cl_env s) abspath of None \<Rightarrow> blank | Some obj \<Rightarrow> obj"
  let ?obj = "put_attrs (creat_attrs V E ?f ?now) ?old"
  let ?fa = "\<lparr>fa_size = 0, fa_mode = mode, fa_flags = 0, fa_is_dir = False, fa_time = ?now,
      fa_owner = ce_user V, fa_group = ce_user V\<rparr>"
  from fuse_create_done [OF idle i q p refl, of mode] obtain s1 where s1:
    "fusewtf_create V R E path mode s = ret (0, cl_next_fileno s, s1)" "idle_client s1" "cl_coord s1 = cl_coord s" "cl_cwd s1 = cl_cwd s"
    "cl_next_client_id s1 = cl_next_client_id s + 1" "answers (cl_env s1) = []"
    "store (cl_env s1) = put_object blank abspath (creat_attrs V E ?f ?now) (store (cl_env s))" by blast
  have st: "0 < cl_next_client_id s1" "quiet_link R E (cl_coord s1)" "abs_path path' s1 = Inr (Some abspath)"
    using s1(3-5) q i p' [OF s1(4)] by simp_all
  have obj: "store (cl_env s1) abspath = Some ?obj" using s1(7) by (simp add: put_object_def)
  have f: "fl_mode ?f = mode" "\<not> fl_is_directory ?f" "fl_block_map ?f = []" "fl_replicas ?f < u64_bound" "fl_block_size ?f < u64_bound"
    by (simp_all add: file_new_def fuse_replication_def fuse_block_length_def)
  have dir: "?obj ''directory'' = Some (ce_int V 0)" using f(2) by (simp add: put_attrs_def creat_attrs_def)
  have "enters E (store (cl_env s1) abspath) False"
    using enters_int [OF E directory_services_axioms, of 0 ?obj] dir obj by simp
  moreover from fuse_getattr_done [OF s1(2,6) st obj, of ?fa getpwnam pw errno]
    creat_attrs_parse [OF _ mode time user(1) E f] user(2)
  obtain s2 where "fusewtf_getattr V R E errno getpwnam path' s1 = ret (0, Some (fill_stat ?fa pw), s2)" by auto
  ultimately show ?thesis
    using s1(1-6) by (intro exI [of _ ?e] exI [of _ s1] exI [of _ s2]) (simp add: fill_stat_def)
qed

end

text \<open>C5: the working directory. A directory is made by a relative name and entered, and a file is made in it by its own
  name; then the file is seen under the absolute path: directories, the resolution of names, the client's loop and
  the metadata agree. Entering the file fails with \<open>WTF_CLIENT_NOTDIR\<close> and leaves the working
  directory. But entering a directory that was never made succeeds too, and the working directory is then
  one that does not exist.
\<close>

theorem working_directory:
  fixes s :: "('r, 'e) client"
  assumes D: "directory_services V E store answers blank" and E: "e_buffer E"
    and idle: "idle_client s" "answers (cl_env s) = []" and i: "0 < cl_next_client_id s" "cl_next_client_id s < 2147483648"
    and q: "quiet_link R E (cl_coord s)"
    and cwd: "cl_cwd s = path_text st" "path_ok (st @ [dir, name])" "length (path_text (st @ [dir, name])) + 4 \<le> path_max"
    and new: "store (cl_env s) (path_text (st @ [dir])) = None"
    and mode: "dmode < 4294967296" "mode < 4294967296" and time: "\<And>e. fst (ce_time V e) < u64_bound"
    and user: "CHR 0x00 \<notin> set (ce_user V)" "getpwnam (ce_user V) = Some pw"
  shows "(\<exists>i1 i2 e fd s1 s2 s3 s4 s5.
      fusewtf_mkdir V R E dir dmode s = ret (0, s1) \<and>
      and_wait V R E (client_chdir V R E dir s1) = ret (i1, Some WTF_CLIENT_SUCCESS, s2) \<and>
      cl_cwd s2 = path_text (st @ [dir]) \<and>
      fusewtf_create V R E name mode s2 = ret (0, fd, s3) \<and>
      fusewtf_getattr V R E errno getpwnam (path_text (st @ [dir, name])) s3 = ret (0, Some \<lparr>st_mode = mode OR S_IFREG,
        st_mtime = fst (ce_time V e), st_nlink = 1, st_size = 0, st_uid = fst pw, st_gid = snd pw\<rparr>, s4) \<and>
      and_wait V R E (client_chdir V R E name s3) = ret (i2, Some WTF_CLIENT_SUCCESS, s5) \<and>
      cl_cwd s5 = cl_cwd s3 \<and> po_status (cl_ops s5 (cl_next_ref s3)) = WTF_CLIENT_NOTDIR) \<and>
    (\<exists>i1 s1. and_wait V R E (client_chdir V R E dir s) = ret (i1, Some WTF_CLIENT_SUCCESS, s1) \<and>
      po_status (cl_ops s1 (cl_next_ref s)) = WTF_CLIENT_SUCCESS \<and>
      cl_cwd s1 = path_text (st @ [dir]) \<and> store (cl_env s1) (path_text (st @ [dir])) = None)"
proof -
  let ?d = "path_text (st @ [dir])" and ?f = "path_text (st @ [dir, name])"
  have ok: "path_ok (st @ [dir])" "path_ok ((st @ [dir]) @ [name])" using cwd(2) by (simp_all add: path_ok_def)
  have len: "length (path_text st) + length dir + 4 \<le> path_max" "length ?d + length name + 4 \<le> path_max"
    using path_text_len [of st dir] path_text_len [of "st @ [dir]" name] cwd(3) by simp_all
  have p: "abs_path dir s' = Inr (Some ?d)" if "cl_cwd s' = cl_cwd s" for s' :: "('r, 'e) client"
    by (rule relative_name [OF ok(1) _ len(1)]) (use that cwd(1) in simp)
  have pf: "abs_path name s' = Inr (Some ?f)" "abs_path ?f s' = Inr (Some ?f)" if "cl_cwd s' = ?d" for s' :: "('r, 'e) client"
    using relative_name [OF ok(2) that len(2)] absolute_name [OF ok(2) _ ok(1) that] cwd(3) by simp_all
  from directory_services.fuse_mkdir_done [OF D idle i q p [OF refl], of dmode] obtain s1 now where s1:
    "fusewtf_mkdir V R E dir dmode s = ret (0, s1)" "settled (s\<lparr>cl_next_client_id := cl_next_client_id s + 1\<rparr>) s1"
    "answers (cl_env s1) = []" "store (cl_env s1) = put_object blank ?d (mkdir_attrs V dmode now) (store (cl_env s))" by blast
  have st1: "idle_client s1" "0 < cl_next_client_id s1" "quiet_link R E (cl_coord s1)" "cl_cwd s1 = cl_cwd s"
    using s1(2) q i(1) by (simp_all add: settled_def)
  have "put_attrs (mkdir_attrs V dmode now) blank ''directory'' = Some (ce_int V 1)" by (simp add: put_attrs_def mkdir_attrs_def)
  then have "enters E (store (cl_env s1) ?d) True"
    using enters_int [OF E D, of 1 "put_attrs (mkdir_attrs V dmode now) blank"] s1(4) new by (simp add: put_object_def)
  from directory_services.chdir_done [OF D st1(1) s1(3) st1(2,3) p [OF st1(4)] this] obtain i1 s2 where s2:
    "and_wait V R E (client_chdir V R E dir s1) = ret (i1, Some WTF_CLIENT_SUCCESS, s2)" "idle_client s2" "cl_coord s2 = cl_coord s1"
    "0 < cl_next_client_id s2" "cl_cwd s2 = ?d" "answers (cl_env s2) = []" using st1(2) by fastforce
  have q2: "quiet_link R E (cl_coord s2)" using s2(3) st1(3) by simp
  have pf2: "abs_path ?f s' = Inr (Some ?f)" if "cl_cwd s' = cl_cwd s2" for s' :: "('r, 'e) client" using pf(2) that s2(5) by simp
  note seen = directory_services.created_is_seen [OF D E, where path' = ?f and abspath = ?f and getpwnam = getpwnam and pw = pw and errno = errno]
  from seen [OF s2(2,6,4) q2 pf(1) [OF s2(5)] pf2 mode(2) time user] obtain e s3 s4 where s3:
    "fusewtf_create V R E name mode s2 = ret (0, cl_next_fileno s2, s3)" "cl_cwd s3 = ?d" "idle_client s3" "answers (cl_env s3) = []"
    "cl_coord s3 = cl_coord s2" "0 < cl_next_client_id s3" "enters E (store (cl_env s3) ?f) False"
    "fusewtf_getattr V R E errno getpwnam ?f s3 = ret (0, Some \<lparr>st_mode = mode OR S_IFREG, st_mtime = fst (ce_time V e),
      st_nlink = 1, st_size = 0, st_uid = fst pw, st_gid = snd pw\<rparr>, s4)" using s2(4,5) by fastforce
  have "quiet_link R E (cl_coord s3)" using s3(5) q2 by simp
  from directory_services.chdir_done [OF D s3(3,4,6) this pf(1) [OF s3(2)] s3(7)] obtain i2 s5 where s5:
    "and_wait V R E (client_chdir V R E name s3) = ret (i2, Some WTF_CLIENT_SUCCESS, s5)" "cl_cwd s5 = cl_cwd s3"
    "po_status (cl_ops s5 (cl_next_ref s3)) = WTF_CLIENT_NOTDIR" by auto
  have "enters E (store (cl_env s) ?d) True" using new by (simp add: enters_def)
  from directory_services.chdir_done [OF D idle i(1) q p [OF refl] this] new have
    "\<exists>i1 s1. and_wait V R E (client_chdir V R E dir s) = ret (i1, Some WTF_CLIENT_SUCCESS, s1) \<and>
      po_status (cl_ops s1 (cl_next_ref s)) = WTF_CLIENT_SUCCESS \<and> cl_cwd s1 = ?d \<and> store (cl_env s1) ?d = None" by auto
  with s1(1) s2(1,5) s3(1,8) s5 show ?thesis by blast
qed

theorem working_directory_witness:
  "\<exists>i1 s1 s2. fusewtf_mkdir hx_env demo_replicant be_codec ''a'' 493 (hx_client []) = ret (0, s1) \<and>
     and_wait hx_env demo_replicant be_codec (client_chdir hx_env demo_replicant be_codec ''a'' s1) = ret (i1, Some WTF_CLIENT_SUCCESS, s2) \<and>
     cl_cwd s2 = ''/a''"
proof -
  have "0 < cl_next_client_id (hx_client [])" "cl_next_client_id (hx_client []) < 2147483648" by (simp_all add: hx_client_idle)
  note c = hx_client_idle(1,2) [of "[]"] this hx_client_idle(4) [of "[]"]
  have mode: "(493 :: u64) < 4294967296" "(420 :: u64) < 4294967296" and time: "fst (ce_time hx_env e) < u64_bound"
    and user: "CHR 0x00 \<notin> set (ce_user hx_env)" "[''root'' \<mapsto> (0, 0)] (ce_user hx_env) = Some (0, 0)" for e
    by (simp_all add: hx_env_def)
  have cwd: "cl_cwd (hx_client []) = path_text []" "path_ok ([] @ [''a'', ''f''])" "length (path_text ([] @ [''a'', ''f''])) + 4 \<le> path_max"
    "hx_store (cl_env (hx_client [])) (path_text ([] @ [''a''])) = None"
    by (simp_all add: hx_client_idle path_text_def path_ok_def path_max_def hx_client_def client_new_def hx_store_def)
  from working_directory [where getpwnam = "[''root'' \<mapsto> (0, 0)]" and pw = "(0, 0)" and errno = 5,
      OF hx.directory_services_axioms be.e_buffer_axioms c cwd mode time user] show ?thesis
    by (auto simp: path_text_def)
qed

end
