(* ===== verification/Mkfs.thy ===== *)
theory Mkfs
  imports Directories
begin

text \<open>
  \<open>tools/mkfs.cc\<close>: the tool that stores the root directory in HyperDex, and what the file system then
  makes of it. The options of the command line (e::argparser) are not modelled. \<open>pw\<close> is the name of the user in
  the password file, \<open>None\<close> when there is none.
\<close>

section \<open>The tool\<close>

text \<open>The memory of an integer of 64 bits.\<close>

definition host64 :: "u64 \<Rightarrow> byte list" where
  "host64 n = rev (be_put 8 n)"

text \<open>A number of bytes from the beginning of a C string; what lies behind its end is not known.\<close>

definition c_bytes :: "nat \<Rightarrow> string \<Rightarrow> byte list res" where
  "c_bytes n x = (if n \<le> length x + 1 then Inr (take n (bytes_of_string x @ [0])) else Inl Undefined)"

text \<open>The sizes of owner and group are constants.\<close>

definition mkfs_attrs :: "string option \<Rightarrow> u64 \<Rightarrow> hd_attr list res" where
  "mkfs_attrs pw now =
     (case pw of
        None \<Rightarrow> Inl Undefined
      | Some name \<Rightarrow>
          rbind (c_bytes 5 name) (\<lambda>owner.
          rbind (c_bytes 6 name) (\<lambda>grp.
            Inr [(''mode'', host64 511), (''directory'', host64 1), (''time'', host64 now), (''owner'', owner), (''group'', grp)])))"

text \<open>The status of the wait when it fails, else that of the request, once its number comes.\<close>

partial_function (option) hyperdex_wait_for_result ::
  "'e client_env \<Rightarrow> int \<Rightarrow> 'e \<Rightarrow> (hyperdex_status \<times> 'e) option" where
  "hyperdex_wait_for_result V reqid e =
     (case ce_hyperdex_loop V e of
        ((i, lstatus, status, as), e1) \<Rightarrow>
          if i < 0 then Some (lstatus, e1)
          else if i \<noteq> reqid then hyperdex_wait_for_result V reqid e1
          else Some (status, e1))"

definition tool_mkfs :: "'e client_env \<Rightarrow> string option \<Rightarrow> 'e \<Rightarrow> (int \<times> 'e) run" where
  "tool_mkfs V pw e =
     (let (now, e1) = ce_time V e
      in run_bind (lift_res (mkfs_attrs pw now)) (\<lambda>attrs.
           case ce_hyperdex V (HD_put ''/'' attrs) e1 of
             ((r, status), e2) \<Rightarrow>
               if r < 0 then ret (-1, e2)
               else
                 (case hyperdex_wait_for_result V r e2 of
                    None \<Rightarrow> None
                  | Some (res, e3) \<Rightarrow> ret (if res \<noteq> HYPERDEX_CLIENT_SUCCESS then -1 else 0, e3))))"

section \<open>What it stores\<close>

lemma mkfs_short: "length name < 5 \<Longrightarrow> mkfs_attrs (Some name) now = Inl Undefined"
  by (simp add: mkfs_attrs_def c_bytes_def rbind_def)

lemma mkfs_stores:
  assumes "5 \<le> length name"
  shows "mkfs_attrs (Some name) now = Inr [(''mode'', host64 511), (''directory'', host64 1), (''time'', host64 now),
    (''owner'', bytes_of_string (take 5 name)), (''group'', take 6 (bytes_of_string name @ [0]))]"
  using assms by (simp add: mkfs_attrs_def c_bytes_def bytes_of_string_def take_map)

lemma root_name: "cl_cwd s = path_text d \<Longrightarrow> path_ok d \<Longrightarrow> abs_path ''/'' s = Inr (Some ''/'')"
  using canon_resolves [of d "''/''" path_max] by (simp add: abs_path_def path_max_def path_text_def Let_def)

context directory_services
begin

lemma mkfs_puts:
  assumes "answers e = []" and "mkfs_attrs pw (fst (ce_time V e)) = Inr attrs"
  shows "\<exists>e'. tool_mkfs V pw e = ret (0, e') \<and> store e' = put_object blank ''/'' attrs (store e) \<and> answers e' = []"
proof -
  obtain now e1 where e1: "ce_time V e = (now, e1)" by fastforce
  have f1: "store e1 = store e" "answers e1 = []" using time_frame [of e1 e] e1 assms(1) by simp_all
  obtain r st e2 where e2: "ce_hyperdex V (HD_put ''/'' attrs) e1 = ((r, st), e2)" by (metis prod.collapse)
  from put_call [OF e2] f1 have r: "0 \<le> r" "store e2 = put_object blank ''/'' attrs (store e)"
    "answers e2 = [(r, HYPERDEX_CLIENT_SUCCESS, HYPERDEX_CLIENT_SUCCESS, [])]" by simp_all
  obtain a e3 where e3: "ce_hyperdex_loop V e2 = (a, e3)" by fastforce
  from next_answer [OF r(3) e3] have e3': "a = (r, HYPERDEX_CLIENT_SUCCESS, HYPERDEX_CLIENT_SUCCESS, [])" "store e3 = store e2" "answers e3 = []"
    by simp_all
  have "hyperdex_wait_for_result V r e2 = Some (HYPERDEX_CLIENT_SUCCESS, e3)"
    using e3 e3'(1) r(1) by (subst hyperdex_wait_for_result.simps) simp
  then show ?thesis using assms(2) e1 e2 r e3' by (simp add: tool_mkfs_def)
qed

end

section \<open>The properties\<close>

text \<open>C16: making a file system. For a user whose name has at least five letters the tool stores the root directory and
  succeeds, and the file system then shows it as a directory with all permissions and the time it was
  made; but its owner is the first five letters of the name, so for a longer name the attributes of the root are
  those of another user, or, when there is none of that name, asking for them is undefined. For a shorter
  name the tool reads behind the end of the name.
\<close>

theorem mkfs_makes_root:
  fixes s :: "('r, 'e) client"
  assumes D: "directory_services V E store answers blank"
    and int: "\<And>n. n < u64_bound \<Longrightarrow> ce_int V n = host64 n" and time: "\<And>e. fst (ce_time V e) < u64_bound"
    and empty: "answers e = []" "store e ''/'' = None" and name: "CHR 0x00 \<notin> set name"
    and idle: "idle_client s" "0 < cl_next_client_id s" and q: "quiet_link R E (cl_coord s)"
    and cwd: "cl_cwd s = path_text d" "path_ok d"
  shows "if length name < 5 then tool_mkfs V (Some name) e = lift_res (Inl Undefined)
    else \<exists>e' s'. tool_mkfs V (Some name) e = ret (0, e') \<and>
      fusewtf_getattr V R E errno getpwnam ''/'' (s\<lparr>cl_env := e'\<rparr>) =
        (case getpwnam (take 5 name) of
           None \<Rightarrow> lift_res (Inl Undefined)
         | Some pw \<Rightarrow> ret (0, Some \<lparr>st_mode = 511 OR S_IFDIR, st_mtime = fst (ce_time V e), st_nlink = 1, st_size = 0,
             st_uid = fst pw, st_gid = snd pw\<rparr>, s')) \<and>
      (\<forall>other. other \<noteq> ''/'' \<longrightarrow> store e' other = store e other)"
proof (cases "length name < 5")
  case True
  then show ?thesis by (simp add: tool_mkfs_def mkfs_short split: prod.split)
next
  case False
  let ?now = "fst (ce_time V e)" and ?grp = "take 6 (bytes_of_string name @ [0])"
  let ?attrs = "[(''mode'', host64 511), (''directory'', host64 1), (''time'', host64 ?now),
    (''owner'', bytes_of_string (take 5 name)), (''group'', ?grp)]"
  let ?obj = "put_attrs ?attrs blank"
  have "mkfs_attrs (Some name) ?now = Inr ?attrs" using mkfs_stores [of name] False by simp
  from directory_services.mkfs_puts [OF D empty(1) this] obtain e' where
    e': "tool_mkfs V (Some name) e = ret (0, e')" "store e' = put_object blank ''/'' ?attrs (store e)" "answers e' = []" by blast
  let ?s = "s\<lparr>cl_env := e'\<rparr>"
  have s: "idle_client ?s" "answers (cl_env ?s) = []" "0 < cl_next_client_id ?s" "quiet_link R E (cl_coord ?s)"
    "abs_path ''/'' ?s = Inr (Some ''/'')" "store (cl_env ?s) ''/'' = Some ?obj"
    using idle q e'(2,3) empty(2) root_name [of ?s d] cwd by (simp_all add: idle_client_def put_object_def)
  have obj: "?obj ''directory'' = Some (ce_int V 1)" "?obj ''blockmap'' = blank ''blockmap''" "?obj ''mode'' = Some (ce_int V 511)"
    "?obj ''time'' = Some (ce_int V ?now)" "?obj ''owner'' = Some (bytes_of_string (take 5 name))" "?obj ''group'' = Some ?grp"
    using int [of 1] int [of 511] int [OF time] by (simp_all add: put_attrs_def)
  let ?fa = "\<lparr>fa_size = 0, fa_mode = 511, fa_flags = 0, fa_is_dir = True, fa_time = ?now,
      fa_owner = take 5 name, fa_group = c_string (string_of_bytes ?grp)\<rparr>"
  have "c_string (take 5 name) = take 5 name" using name by (intro c_string_id) (auto dest: in_set_takeD)
  then have fa: "\<exists>f. parse_metadata_all E as (file_new '''' 0 0) = Inr f \<and> fill_attrs f = Inr ?fa" if "lists_object as ?obj" for "as"
    using directory_services.dir_attrs_parse [OF D that _ time obj] by simp
  from directory_services.fuse_getattr_answers [OF D s fa, where getpwnam = getpwnam and errno = errno] obtain s' where
    "fusewtf_getattr V R E errno getpwnam ''/'' ?s =
      (case getpwnam (take 5 name) of None \<Rightarrow> lift_res (Inl Undefined) | Some pw \<Rightarrow> ret (0, Some (fill_stat ?fa pw), s'))" by auto
  then show ?thesis using False e'(1,2)
    by (intro if_not_P [THEN iffD2] exI [of _ e'] exI [of _ s']) (auto simp: fill_stat_def put_object_def split: option.split)
qed

theorem mkfs_makes_root_witness:
  "\<exists>e' s'. tool_mkfs hx_env (Some ''admin'') \<lparr>hx_objects = [], hx_answers = []\<rparr> = ret (0, e') \<and>
     fusewtf_getattr hx_env demo_replicant be_codec 5 [''admin'' \<mapsto> (7, 8)] ''/'' ((hx_client [])\<lparr>cl_env := e'\<rparr>) =
       ret (0, Some \<lparr>st_mode = 511 OR S_IFDIR, st_mtime = 1000, st_nlink = 1, st_size = 0, st_uid = 7, st_gid = 8\<rparr>, s')"
proof -
  let ?e = "\<lparr>hx_objects = [], hx_answers = []\<rparr>"
  have int: "ce_int hx_env n = host64 n" and time: "fst (ce_time hx_env e) < u64_bound" "fst (ce_time hx_env e) = 1000" for n e
    by (simp_all add: hx_env_def host64_def)
  have e: "hx_answers ?e = []" "hx_store ?e ''/'' = None" "CHR 0x00 \<notin> set ''admin''" by (simp_all add: hx_store_def)
  have i: "0 < cl_next_client_id (hx_client [])" by (simp add: hx_client_idle)
  have cwd: "cl_cwd (hx_client []) = path_text []" "path_ok []"
    by (simp_all add: path_text_def path_ok_def hx_client_def client_new_def)
  from mkfs_makes_root [where getpwnam = "[''admin'' \<mapsto> (7, 8)]" and errno = 5,
      OF hx.directory_services_axioms int time(1) e hx_client_idle(1) [of "[]"] i hx_client_idle(4) [of "[]"] cwd] time(2)
  show ?thesis by auto
qed

end
