(* ===== verification/ListPaths.thy ===== *)
theory ListPaths
  imports Listing
begin

text \<open>
  \<open>client::ls\<close> of \<open>client/client.cc\<close>: the only operation of the client that waits for HyperDex itself, outside
  the loop of the client. It asks HyperDex for whatever is answered next, also when the answer belongs to
  another request; HyperDex stores the status and the attributes of an answer where its own request said.
\<close>

section \<open>The operation\<close>

text \<open>The first attribute that is a path and not empty; the loop over the attributes ends there.\<close>

definition ls_path :: "hd_attr list \<Rightarrow> string option" where
  "ls_path attrs = map_option (\<lambda>a. string_of_bytes (snd a)) (find (\<lambda>a. fst a = ''path'' \<and> snd a \<noteq> []) attrs)"

text \<open>\<open>hstatus\<close> and \<open>attrs\<close> are the variables that the search \<open>reqid\<close> writes.\<close>

partial_function (option) ls_loop ::
  "'e client_env \<Rightarrow> int \<Rightarrow> hyperdex_status \<Rightarrow> hd_attr list \<Rightarrow> string list \<Rightarrow> 'e \<Rightarrow> (string list \<times> 'e) run" where
  "ls_loop V reqid hstatus attrs output e =
     (if hstatus = HYPERDEX_CLIENT_SEARCHDONE \<or> hstatus = HYPERDEX_CLIENT_NONEPENDING then Some (Inr (output, e))
      else
        (case ce_hyperdex_loop V e of
           ((retval, lstatus, mstatus, as), e1) \<Rightarrow>
             (let hstatus1 = (if retval = reqid then mstatus else hstatus);
                  attrs1 = (if retval = reqid then as else attrs)
              in if retval > 0 then
                   (case ls_path attrs1 of
                      None \<Rightarrow> ls_loop V reqid hstatus1 attrs1 output e1
                    | Some path \<Rightarrow> ls_loop V reqid hstatus1 [] (output @ [path]) e1)
                 else ls_loop V reqid hstatus1 attrs1 output e1)))"

definition client_ls :: "'e client_env \<Rightarrow> string \<Rightarrow> ('r, 'e) client \<Rightarrow> (string list \<times> ('r, 'e) client) run" where
  "client_ls V path s =
     run_bind (lift_res (abs_path path s)) (\<lambda>r.
       case r of
         None \<Rightarrow> ret ([], s)
       | Some abspath \<Rightarrow>
           (let ((reqid, hstatus), e) = ce_hyperdex V (HD_search (path_regex abspath)) (cl_env s)
            in run_bind (ls_loop V reqid hstatus [] [] e) (\<lambda>(output, e1). ret (output, s\<lparr>cl_env := e1\<rparr>))))"

section \<open>Its loop\<close>

lemma bytes_of_string_Nil: "bytes_of_string k = [] \<longleftrightarrow> k = []"
  by (simp add: bytes_of_string_def)

lemma ls_path_finds: "finds as k \<Longrightarrow> k \<noteq> [] \<Longrightarrow> ls_path as = Some k"
  using find_key [of "as" "''path''" "bytes_of_string k" "\<lambda>a. snd a \<noteq> []"] finds_key [of "as" k]
  by (simp add: ls_path_def bytes_of_string_Nil)

lemma ls_path_Nil [simp]: "ls_path [] = None"
  by (simp add: ls_path_def)

definition ls_waits :: "hyperdex_status \<Rightarrow> bool" where
  "ls_waits st \<longleftrightarrow> st \<noteq> HYPERDEX_CLIENT_SEARCHDONE \<and> st \<noteq> HYPERDEX_CLIENT_NONEPENDING"

context directory_services
begin

lemma ls_own_answer:
  assumes "answers e = (r, x, HYPERDEX_CLIENT_SUCCESS, as) # rest" and "ls_waits st" and "0 < r" and "finds as k" "k \<noteq> []"
  shows "\<exists>e1. ls_loop V r st attrs out e = ls_loop V r HYPERDEX_CLIENT_SUCCESS [] (out @ [k]) e1 \<and>
    store e1 = store e \<and> answers e1 = rest"
proof -
  obtain a e1 where c: "ce_hyperdex_loop V e = (a, e1)" by fastforce
  from next_answer [OF assms(1) c] have "a = (r, x, HYPERDEX_CLIENT_SUCCESS, as)" "store e1 = store e" "answers e1 = rest" by simp_all
  then show ?thesis using c assms(2-) ls_path_finds [OF assms(4,5)]
    by (intro exI [of _ e1]) (subst ls_loop.simps, simp add: ls_waits_def)
qed

lemma ls_last_answer:
  assumes "answers e = (r, x, HYPERDEX_CLIENT_SEARCHDONE, []) # rest" and "ls_waits st" and "0 < r"
  shows "\<exists>e1. ls_loop V r st attrs out e = ret (out, e1) \<and> store e1 = store e \<and> answers e1 = rest"
proof -
  obtain a e1 where c: "ce_hyperdex_loop V e = (a, e1)" by fastforce
  from next_answer [OF assms(1) c] have "a = (r, x, HYPERDEX_CLIENT_SEARCHDONE, [])" "store e1 = store e" "answers e1 = rest" by simp_all
  then show ?thesis using c assms(2,3)
    by (intro exI [of _ e1]) (subst ls_loop.simps, simp add: ls_waits_def ls_loop.simps [of V r HYPERDEX_CLIENT_SEARCHDONE])
qed

text \<open>The answer to another request is taken and dropped.\<close>

lemma ls_other_answer:
  assumes "answers e = (i, x, y, as) # rest" and "ls_waits st" and "i \<noteq> r"
  shows "\<exists>e1. ls_loop V r st [] out e = ls_loop V r st [] out e1 \<and> store e1 = store e \<and> answers e1 = rest"
proof -
  obtain a e1 where c: "ce_hyperdex_loop V e = (a, e1)" by fastforce
  from next_answer [OF assms(1) c] have "a = (i, x, y, as)" "store e1 = store e" "answers e1 = rest" by simp_all
  then show ?thesis using c assms(2,3)
    by (intro exI [of _ e1]) (subst ls_loop.simps, simp add: ls_waits_def)
qed

lemma ls_other_answers:
  assumes "answers e = old @ rest" and "ls_waits st" and "r \<notin> fst ` set old"
  shows "\<exists>e1. ls_loop V r st [] out e = ls_loop V r st [] out e1 \<and> store e1 = store e \<and> answers e1 = rest"
  using assms
proof (induction old arbitrary: e)
  case Nil
  then show ?case by (intro exI [of _ e]) simp
next
  case (Cons a old)
  obtain i x y "as" where a: "a = (i, x, y, as)" by (cases a)
  with Cons.prems have "answers e = (i, x, y, as) # (old @ rest)" "i \<noteq> r" by auto
  from ls_other_answer [OF this(1) Cons.prems(2) this(2), of out] obtain e1 where
    e1: "ls_loop V r st [] out e = ls_loop V r st [] out e1" "store e1 = store e" "answers e1 = old @ rest" by blast
  from Cons.IH [OF e1(3) Cons.prems(2)] Cons.prems(3) e1 show ?case by auto
qed

lemma ls_own_answers:
  assumes "answers e = search_answers r found" and "ls_waits st" and "0 < r" and "\<forall>(k, as) \<in> set found. finds as k \<and> k \<noteq> []"
  shows "\<exists>e1. ls_loop V r st [] out e = ret (out @ map fst found, e1) \<and> store e1 = store e \<and> answers e1 = []"
  using assms
proof (induction found arbitrary: e st out)
  case Nil
  then have "answers e = (r, HYPERDEX_CLIENT_SUCCESS, HYPERDEX_CLIENT_SEARCHDONE, []) # []" by (simp add: search_answers_def)
  from ls_last_answer [OF this Nil.prems(2,3)] show ?case by simp
next
  case (Cons x found)
  obtain k "as" where x: "x = (k, as)" by (cases x)
  with Cons.prems have "answers e = (r, HYPERDEX_CLIENT_SUCCESS, HYPERDEX_CLIENT_SUCCESS, as) # search_answers r found"
    and k: "finds as k" "k \<noteq> []" by (simp_all add: search_answers_def)
  from ls_own_answer [OF this(1) Cons.prems(2,3) k, of "[]" out] obtain e1 where
    e1: "ls_loop V r st [] out e = ls_loop V r HYPERDEX_CLIENT_SUCCESS [] (out @ [k]) e1" "store e1 = store e"
      "answers e1 = search_answers r found" by blast
  from Cons.IH [OF e1(3) _ Cons.prems(3), of HYPERDEX_CLIENT_SUCCESS "out @ [k]"] Cons.prems(4) e1 x
  show ?case by (auto simp: ls_waits_def)
qed

end

text \<open>A search that could not be started is never answered, and the loop does not end.\<close>

lemma ls_hangs:
  assumes silent: "\<And>e. fst (fst (ce_hyperdex_loop V e)) \<le> 0 \<and> fst (fst (ce_hyperdex_loop V e)) \<noteq> r" and w: "ls_waits st"
  shows "ls_loop V r st attrs out e = None"
proof (rule ccontr)
  assume "ls_loop V r st attrs out e \<noteq> None"
  then obtain y where run: "ls_loop V r st attrs out e = Some y" by blast
  show False using silent w
  proof (induction rule: ls_loop.raw_induct [OF _ run, case_names 1])
    case (1 f V r st attrs out e y)
    obtain i x m as' e1 where c: "ce_hyperdex_loop V e = ((i, x, m, as'), e1)" by (metis prod.collapse)
    with "1.prems"(1) [of e] have "i \<le> 0" "i \<noteq> r" by simp_all
    then have "f V r st attrs out e1 = Some y" using "1.hyps" "1.prems"(2) c by (simp add: ls_waits_def)
    then show ?case using "1.IH" "1.prems" by blast
  qed
qed

section \<open>What it returns\<close>

lemma ls_never_returns:
  assumes "abs_path path s = Inr (Some abspath)" and "ce_hyperdex V (HD_search (path_regex abspath)) (cl_env s) = ((r, st), e)"
    and "ls_waits st" and "\<And>e. fst (fst (ce_hyperdex_loop V e)) \<le> 0 \<and> fst (fst (ce_hyperdex_loop V e)) \<noteq> r"
  shows "client_ls V path s = None"
  using assms(1,2) ls_hangs [OF assms(4,3)] by (simp add: client_ls_def)

text \<open>C18: \<open>ls\<close>, whatever requests of the client are open. It returns every key that begins with the path, each
  once; but it takes the answers of all other requests as well and drops them: no answer is left, and nothing else
  in the client has changed, so the operations that wait for those answers go on waiting.

  The conditions. The path is resolved to one that is not empty and has none of the characters that mean something in a
  regular expression (\<open>plain_path\<close>): the path goes into the expression of the search as it is, so that \<open>/a+b\<close>, say, finds
  no key that begins with it. The search was started: HyperDex gave it a number above 0 and left no status that reports the
  end of a search or that nothing is pending (\<open>ls_waits\<close>); a search that failed makes the loop run forever or end
  early. There are finitely many keys, and fewer than 2^64 answers are waiting.\<close>

theorem ls_takes_all:
  assumes D: "search_services V E store answers blank"
    and path: "abs_path path s = Inr (Some abspath)" "plain_path abspath" "abspath \<noteq> []"
    and fin: "finite (dom (store (cl_env s)))" and few: "length (answers (cl_env s)) < u64_bound"
    and call: "ce_hyperdex V (HD_search (path_regex abspath)) (cl_env s) = ((r, st), e)" "0 < r" "ls_waits st"
  shows "\<exists>names e1. client_ls V path s = ret (names, s\<lparr>cl_env := e1\<rparr>) \<and> distinct names \<and>
    set names = under abspath (store (cl_env s)) \<and> store e1 = store (cl_env s) \<and> answers e1 = []"
proof -
  have D': "directory_services V E store answers blank" using D by (simp add: search_services_def)
  from search_services.search_call [OF D call(1) path(2) fin] few obtain found where
    e: "store e = store (cl_env s)" "r \<notin> fst ` set (answers (cl_env s))" and
    f: "distinct (map fst found)" "fst ` set found = under abspath (store (cl_env s))" "list_all (\<lambda>(k, as). finds as k) found"
      "answers e = answers (cl_env s) @ search_answers r found" by (auto simp: image_comp)
  from directory_services.ls_other_answers [OF D' f(4) call(3) e(2), of "[]"] obtain e1 where
    e1: "ls_loop V r st [] [] e = ls_loop V r st [] [] e1" "store e1 = store e" "answers e1 = search_answers r found" by blast
  have "k \<noteq> []" if "k \<in> fst ` set found" for k using that path(3) unfolding f(2) by (auto simp: under_def)
  then have "\<forall>(k, as) \<in> set found. finds as k \<and> k \<noteq> []" using f(3) by (force simp: list_all_iff)
  from directory_services.ls_own_answers [OF D' e1(3) call(3,2) this, of "[]"] obtain e2 where
    "ls_loop V r st [] [] e1 = ret (map fst found, e2)" "store e2 = store e1" "answers e2 = []" by auto
  then have "client_ls V path s = ret (map fst found, s\<lparr>cl_env := e2\<rparr>)" "store e2 = store (cl_env s)"
    using path(1) call(1) e1 e(1) by (simp_all add: client_ls_def)
  with f(1,2) \<open>answers e2 = []\<close> show ?thesis by (intro exI [of _ "map fst found"] exI [of _ e2]) simp
qed

text \<open>A client that waits for the answer to another request, which is already there.\<close>

definition hx_busy :: "(unit, hyperdex_memory) client" where
  "hx_busy = (hx_client hx_tree)\<lparr>cl_env := \<lparr>hx_objects = hx_tree,
     hx_answers = [(0, HYPERDEX_CLIENT_SUCCESS, HYPERDEX_CLIENT_SUCCESS, [(''mode'', [])])]\<rparr>\<rparr>"

theorem ls_takes_all_witness:
  "\<exists>names e1. client_ls hx_env ''/a'' hx_busy = ret (names, hx_busy\<lparr>cl_env := e1\<rparr>) \<and>
     set names = {''/a'', ''/a/x'', ''/a/a'', ''/ab''} \<and> length (hx_answers (cl_env hx_busy)) = 1 \<and> hx_answers e1 = []"
proof -
  have st: "hx_store (cl_env hx_busy) = hx_store (cl_env (hx_client hx_tree))"
    by (simp add: hx_busy_def hx_client_def hx_store_def client_new_def)
  have path: "abs_path ''/a'' hx_busy = Inr (Some ''/a'')" using hx_path [of hx_tree]
    by (simp add: abs_path_def hx_busy_def hx_client_def)
  have fresh: "hx_fresh (cl_env hx_busy) = 1" by (simp add: hx_busy_def hx_fresh_def u64_of_int_def)
  obtain r x e where call: "ce_hyperdex hx_env (HD_search (path_regex ''/a'')) (cl_env hx_busy) = ((r, x), e)"
    by (metis prod.collapse)
  then have "r = 1" "x = HYPERDEX_CLIENT_GARBAGE" using fresh
    by (auto simp: hx_env_def hx_call_def Let_def path_regex_def)
  then have "0 < r" "ls_waits x" by (simp_all add: ls_waits_def)
  moreover have "plain_path ''/a''" "''/a'' \<noteq> []" by (simp_all add: plain_path_def)
  moreover have "finite (dom (hx_store (cl_env hx_busy)))" by (simp add: st hx_tree_store)
  moreover have n: "length (hx_answers (cl_env hx_busy)) = 1" by (simp add: hx_busy_def)
  then have "length (hx_answers (cl_env hx_busy)) < u64_bound" by simp
  ultimately obtain names e1 where "client_ls hx_env ''/a'' hx_busy = ret (names, hx_busy\<lparr>cl_env := e1\<rparr>)"
    "set names = under ''/a'' (hx_store (cl_env hx_busy))" "hx_answers e1 = []"
    using ls_takes_all [OF hx.search_services_axioms path _ _ _ _ call] by blast
  moreover have "under ''/a'' (hx_store (cl_env hx_busy)) = {''/a'', ''/a/x'', ''/a/a'', ''/ab''}"
    unfolding under_def st hx_tree_store by auto
  ultimately show ?thesis using n by blast
qed

end
