(* ===== verification/CBindings.thy ===== *)
theory CBindings
  imports ListPaths
begin

text \<open>
  \<open>client/c.cc\<close>: the functions of \<open>wtf/client.h\<close>, which forward to the class \<open>client\<close> and turn the exceptions of
  C++ into return codes, and the names of the return codes.

  The code of the client throws nothing itself; its libraries may. \<open>t\<close> is the exception that leaves the
  forwarded call, with the client as it is then, \<open>None\<close> when there is none; where the model itself has the exception,
  the fault \<open>Thrown\<close> of decoding a configuration, \<open>t\<close> is that one, an \<open>Other_exception\<close>. A function gives what it returns,
  what it stores at \<open>status\<close> and in \<open>errno\<close>, and the message it leaves in the client. \<open>wtf_client_ls\<close> has no
  status and catches nothing; it is \<open>client_ls\<close> itself.
\<close>

section \<open>Exceptions\<close>

datatype c_exception = Po6_error int | Bad_alloc | Other_exception

record c_result =
  cr_return :: int
  cr_status :: "wtf_client_returncode option"
  cr_errno :: "int option"
  cr_message :: "string option"

definition c_return :: "int \<Rightarrow> wtf_client_returncode option \<Rightarrow> c_result" where
  "c_return i status = \<lparr>cr_return = i, cr_status = status, cr_errno = None, cr_message = None\<rparr>"

definition ENOMEM :: int where
  "ENOMEM = 12"

fun c_catch :: "c_exception \<Rightarrow> c_result" where
  "c_catch (Po6_error e) = \<lparr>cr_return = -1, cr_status = Some WTF_CLIENT_EXCEPTION, cr_errno = Some e,
     cr_message = Some ''unhandled exception was thrown''\<rparr>"
| "c_catch Bad_alloc = \<lparr>cr_return = -1, cr_status = Some WTF_CLIENT_NOMEM, cr_errno = Some ENOMEM,
     cr_message = Some ''out of memory''\<rparr>"
| "c_catch Other_exception = \<lparr>cr_return = -1, cr_status = Some WTF_CLIENT_EXCEPTION, cr_errno = None,
     cr_message = Some ''unhandled exception was thrown''\<rparr>"

type_synonym ('r, 'e) thrown = "(c_exception \<times> ('r, 'e) client) option"

type_synonym ('r, 'e) c_call = "(c_result \<times> ('r, 'e) client) run"

definition c_wrap :: "('r, 'e) thrown \<Rightarrow> ('r, 'e) call_result run \<Rightarrow> ('r, 'e) c_call" where
  "c_wrap t call =
     (case t of
        Some (ex, s) \<Rightarrow> ret (c_catch ex, s)
      | None \<Rightarrow> run_bind call (\<lambda>(i, status, s). ret (c_return i status, s)))"

text \<open>The constructor reports by the null pointer and \<open>errno\<close>.\<close>

definition wtf_client_create :: "c_exception option \<Rightarrow> 'r \<Rightarrow> u64 \<Rightarrow> ipaddr \<Rightarrow> 'e \<Rightarrow> ('r, 'e) client option \<times> int option" where
  "wtf_client_create t r token addr e =
     (case t of
        None \<Rightarrow> (Some (client_new r token addr e), None)
      | Some (Po6_error err) \<Rightarrow> (None, Some err)
      | Some Bad_alloc \<Rightarrow> (None, Some ENOMEM)
      | Some Other_exception \<Rightarrow> (None, None))"

section \<open>The names of the return codes\<close>

fun wtf_client_returncode_to_string :: "wtf_client_returncode \<Rightarrow> string" where
  "wtf_client_returncode_to_string WTF_CLIENT_SUCCESS = ''WTF_CLIENT_SUCCESS''"
| "wtf_client_returncode_to_string WTF_CLIENT_NOTFOUND = ''WTF_CLIENT_NOTFOUND''"
| "wtf_client_returncode_to_string WTF_CLIENT_INVALID = ''WTF_CLIENT_INVALID''"
| "wtf_client_returncode_to_string WTF_CLIENT_BADF = ''WTF_CLIENT_BADF''"
| "wtf_client_returncode_to_string WTF_CLIENT_READONLY = ''WTF_CLIENT_READONLY''"
| "wtf_client_returncode_to_string WTF_CLIENT_NAMETOOLONG = ''WTF_CLIENT_NAMETOOLONG''"
| "wtf_client_returncode_to_string WTF_CLIENT_EXIST = ''WTF_CLIENT_EXIST''"
| "wtf_client_returncode_to_string WTF_CLIENT_ISDIR = ''WTF_CLIENT_ISDIR''"
| "wtf_client_returncode_to_string WTF_CLIENT_NOTDIR = ''WTF_CLIENT_NOTDIR''"
| "wtf_client_returncode_to_string WTF_CLIENT_UNKNOWNSPACE = ''WTF_CLIENT_UNKNOWNSPACE''"
| "wtf_client_returncode_to_string WTF_CLIENT_COORDFAIL = ''WTF_CLIENT_COORDFAIL''"
| "wtf_client_returncode_to_string WTF_CLIENT_SERVERERROR = ''WTF_CLIENT_SERVERERROR''"
| "wtf_client_returncode_to_string WTF_CLIENT_POLLFAILED = ''WTF_CLIENT_POLLFAILED''"
| "wtf_client_returncode_to_string WTF_CLIENT_OVERFLOW = ''WTF_CLIENT_OVERFLOW''"
| "wtf_client_returncode_to_string WTF_CLIENT_RECONFIGURE = ''WTF_CLIENT_RECONFIGURE''"
| "wtf_client_returncode_to_string WTF_CLIENT_TIMEOUT = ''WTF_CLIENT_TIMEOUT''"
| "wtf_client_returncode_to_string WTF_CLIENT_NONEPENDING = ''WTF_CLIENT_NONEPENDING''"
| "wtf_client_returncode_to_string WTF_CLIENT_NOMEM = ''WTF_CLIENT_NOMEM''"
| "wtf_client_returncode_to_string WTF_CLIENT_BADCONFIG = ''WTF_CLIENT_BADCONFIG''"
| "wtf_client_returncode_to_string WTF_CLIENT_DUPLICATE = ''WTF_CLIENT_DUPLICATE''"
| "wtf_client_returncode_to_string WTF_CLIENT_INTERRUPTED = ''WTF_CLIENT_INTERRUPTED''"
| "wtf_client_returncode_to_string WTF_CLIENT_CLUSTER_JUMP = ''WTF_CLIENT_CLUSTER_JUMP''"
| "wtf_client_returncode_to_string WTF_CLIENT_COORD_LOGGED = ''WTF_CLIENT_COORD_LOGGED''"
| "wtf_client_returncode_to_string WTF_CLIENT_BACKOFF = ''WTF_CLIENT_BACKOFF''"
| "wtf_client_returncode_to_string WTF_CLIENT_IO = ''WTF_CLIENT_IO''"
| "wtf_client_returncode_to_string WTF_CLIENT_INTERNAL = ''WTF_CLIENT_INTERNAL''"
| "wtf_client_returncode_to_string WTF_CLIENT_EXCEPTION = ''WTF_CLIENT_EXCEPTION''"
| "wtf_client_returncode_to_string WTF_CLIENT_GARBAGE = ''WTF_CLIENT_GARBAGE''"
| "wtf_client_returncode_to_string _ = ''unknown wtf_client_returncode''"

section \<open>The functions\<close>

text \<open>The second result of \<open>wtf_client_getcwd\<close> is what is stored in the buffer; the status is never written.\<close>

definition wtf_client_getcwd :: "('r, 'e) thrown \<Rightarrow> u64 \<Rightarrow> ('r, 'e) client \<Rightarrow> (string option \<times> c_result) \<times> ('r, 'e) client" where
  "wtf_client_getcwd t len s =
     (case t of
        Some (ex, s1) \<Rightarrow> ((None, c_catch ex), s1)
      | None \<Rightarrow>
          (case getcwd (cl_cwd s) len of
             None \<Rightarrow> ((None, c_return (-1) None), s)
           | Some cwd \<Rightarrow> ((Some cwd, c_return 0 None), s)))"

definition wtf_client_chdir ::
  "'e client_env \<Rightarrow> 'r replicant_ops \<Rightarrow> e_codec \<Rightarrow> ('r, 'e) thrown \<Rightarrow> string \<Rightarrow> ('r, 'e) client \<Rightarrow> ('r, 'e) c_call" where
  "wtf_client_chdir V R E t path s = c_wrap t (client_chdir V R E path s)"

text \<open>The second result is what is stored at \<open>fd\<close>.\<close>

definition wtf_client_open ::
  "'e client_env \<Rightarrow> 'r replicant_ops \<Rightarrow> e_codec \<Rightarrow> ('r, 'e) thrown \<Rightarrow> string \<Rightarrow> nat \<Rightarrow> u64 \<Rightarrow> u64 \<Rightarrow> u64 \<Rightarrow>
     ('r, 'e) client \<Rightarrow> (u64 option \<times> c_result \<times> ('r, 'e) client) run" where
  "wtf_client_open V R E t path flags mode num_replicas block_sz s =
     (case t of
        Some (ex, s1) \<Rightarrow> ret (None, c_catch ex, s1)
      | None \<Rightarrow>
          run_bind (client_open V R E path flags mode num_replicas block_sz s) (\<lambda>(fd, i, status, s1).
            ret (Some fd, c_return i status, s1)))"

definition wtf_client_unlink ::
  "'e client_env \<Rightarrow> ('r, 'e) thrown \<Rightarrow> string \<Rightarrow> ('r, 'e) client \<Rightarrow> ('r, 'e) c_call" where
  "wtf_client_unlink V t path s = c_wrap t (lift_res (client_unlink V path s))"

definition wtf_client_rename ::
  "'e client_env \<Rightarrow> ('r, 'e) thrown \<Rightarrow> string \<Rightarrow> string \<Rightarrow> ('r, 'e) client \<Rightarrow> ('r, 'e) c_call" where
  "wtf_client_rename V t src dst s = c_wrap t (lift_res (client_rename V src dst s))"

definition wtf_client_getattr ::
  "'e client_env \<Rightarrow> 'r replicant_ops \<Rightarrow> e_codec \<Rightarrow> ('r, 'e) thrown \<Rightarrow> string \<Rightarrow> ('r, 'e) client \<Rightarrow> ('r, 'e) c_call" where
  "wtf_client_getattr V R E t path s = c_wrap t (client_getattr V R E path s)"

definition wtf_client_lseek ::
  "('r, 'e) thrown \<Rightarrow> int \<Rightarrow> u64 \<Rightarrow> whence \<Rightarrow> ('r, 'e) client \<Rightarrow> ('r, 'e) c_call" where
  "wtf_client_lseek t fd offset whence s = c_wrap t (lift_res (client_lseek fd offset whence s))"

text \<open>Both are empty in the client; \<open>end_tx\<close> falls off its end, so what is returned is not defined.\<close>

definition wtf_client_begin_tx :: "('r, 'e) thrown \<Rightarrow> ('r, 'e) client \<Rightarrow> ('r, 'e) c_call" where
  "wtf_client_begin_tx t s = c_wrap t (ret (0, None, s))"

definition wtf_client_end_tx :: "('r, 'e) thrown \<Rightarrow> ('r, 'e) client \<Rightarrow> ('r, 'e) c_call" where
  "wtf_client_end_tx t s = c_wrap t (lift_res (Inl Undefined))"

definition wtf_client_mkdir ::
  "'e client_env \<Rightarrow> ('r, 'e) thrown \<Rightarrow> string \<Rightarrow> u64 \<Rightarrow> ('r, 'e) client \<Rightarrow> ('r, 'e) c_call" where
  "wtf_client_mkdir V t path mode s = c_wrap t (lift_res (client_mkdir V path mode s))"

definition wtf_client_chmod ::
  "'e client_env \<Rightarrow> ('r, 'e) thrown \<Rightarrow> string \<Rightarrow> u64 \<Rightarrow> ('r, 'e) client \<Rightarrow> ('r, 'e) c_call" where
  "wtf_client_chmod V t path mode s = c_wrap t (lift_res (client_chmod V path mode s))"

definition wtf_client_write ::
  "'e client_env \<Rightarrow> e_codec \<Rightarrow> ('r, 'e) thrown \<Rightarrow> int \<Rightarrow> byte list \<Rightarrow> ('r, 'e) client \<Rightarrow> ('r, 'e) c_call" where
  "wtf_client_write V E t fd buf s = c_wrap t (client_write V E fd buf s)"

definition wtf_client_read ::
  "'e client_env \<Rightarrow> 'r replicant_ops \<Rightarrow> e_codec \<Rightarrow> ('r, 'e) thrown \<Rightarrow> int \<Rightarrow> u64 \<Rightarrow> ('r, 'e) client \<Rightarrow> ('r, 'e) c_call" where
  "wtf_client_read V R E t fd data_sz s = c_wrap t (client_read V R E fd data_sz s)"

definition wtf_client_close ::
  "'e client_env \<Rightarrow> 'r replicant_ops \<Rightarrow> e_codec \<Rightarrow> ('r, 'e) thrown \<Rightarrow> int \<Rightarrow> ('r, 'e) client \<Rightarrow> ('r, 'e) c_call" where
  "wtf_client_close V R E t fd s = c_wrap t (client_close V R E fd s)"

definition wtf_client_loop ::
  "'e client_env \<Rightarrow> 'r replicant_ops \<Rightarrow> e_codec \<Rightarrow> ('r, 'e) thrown \<Rightarrow> int \<Rightarrow> int \<Rightarrow> ('r, 'e) client \<Rightarrow> ('r, 'e) c_call" where
  "wtf_client_loop V R E t i timeout s =
     c_wrap t (run_bind (client_loop V R E i timeout s) (\<lambda>(r, status, s1). ret (r, Some status, s1)))"

definition wtf_client_truncate ::
  "'e client_env \<Rightarrow> 'r replicant_ops \<Rightarrow> e_codec \<Rightarrow> ('r, 'e) thrown \<Rightarrow> int \<Rightarrow> u64 \<Rightarrow> ('r, 'e) client \<Rightarrow> ('r, 'e) c_call" where
  "wtf_client_truncate V R E t fd len s = c_wrap t (client_truncate V R E fd len s)"

definition wtf_client_readdir ::
  "'e client_env \<Rightarrow> ('r, 'e) thrown \<Rightarrow> string \<Rightarrow> ('r, 'e) client \<Rightarrow> ('r, 'e) c_call" where
  "wtf_client_readdir V t path s = c_wrap t (lift_res (client_readdir V path s))"

definition wtf_client_getattr_sync ::
  "'e client_env \<Rightarrow> 'r replicant_ops \<Rightarrow> e_codec \<Rightarrow> ('r, 'e) thrown \<Rightarrow> string \<Rightarrow> ('r, 'e) client \<Rightarrow> ('r, 'e) c_call" where
  "wtf_client_getattr_sync V R E t path s = c_wrap t (client_getattr_sync V R E path s)"

definition wtf_client_write_sync ::
  "'e client_env \<Rightarrow> 'r replicant_ops \<Rightarrow> e_codec \<Rightarrow> ('r, 'e) thrown \<Rightarrow> int \<Rightarrow> byte list \<Rightarrow> ('r, 'e) client \<Rightarrow> ('r, 'e) c_call" where
  "wtf_client_write_sync V R E t fd buf s = c_wrap t (client_write_sync V R E fd buf s)"

definition wtf_client_read_sync ::
  "'e client_env \<Rightarrow> 'r replicant_ops \<Rightarrow> e_codec \<Rightarrow> ('r, 'e) thrown \<Rightarrow> int \<Rightarrow> u64 \<Rightarrow> ('r, 'e) client \<Rightarrow> ('r, 'e) c_call" where
  "wtf_client_read_sync V R E t fd data_sz s = c_wrap t (client_read_sync V R E fd data_sz s)"

text \<open>\<open>None\<close> for the exception that leaves the function.\<close>

definition wtf_client_ls ::
  "'e client_env \<Rightarrow> ('r, 'e) thrown \<Rightarrow> string \<Rightarrow> ('r, 'e) client \<Rightarrow> (string list option \<times> ('r, 'e) client) run" where
  "wtf_client_ls V t path s =
     (case t of
        Some (ex, s1) \<Rightarrow> ret (None, s1)
      | None \<Rightarrow> run_bind (client_ls V path s) (\<lambda>(names, s1). ret (Some names, s1)))"

section \<open>What C sees\<close>

lemma c_catch_fails: "cr_return (c_catch ex) = -1" "cr_status (c_catch ex) \<in> {Some WTF_CLIENT_EXCEPTION, Some WTF_CLIENT_NOMEM}"
  by (cases ex; simp)+

text \<open>An exception ends every function with \<open>-1\<close> and a code of its own, whatever the call would have done.\<close>

lemma c_wrap_thrown:
  "c_wrap (Some (ex, s)) call = ret (r, s') \<longleftrightarrow> r = c_catch ex \<and> s' = s"
  by (auto simp: c_wrap_def)

lemma c_wrap_forwards:
  "c_wrap None (ret (i, status, s)) = ret (c_return i status, s)"
  by (simp add: c_wrap_def)

text \<open>A failure of \<open>getcwd\<close> leaves no trace but the result.\<close>

lemma getcwd_no_status:
  "fst (wtf_client_getcwd None len s) = (None, c_return (-1) None) \<longleftrightarrow> len \<le> length (cl_cwd s)"
  by (auto simp: wtf_client_getcwd_def getcwd_def c_return_def)

text \<open>The names tell the codes apart, all but one: the end of a listing has none.\<close>

lemma returncode_names:
  "wtf_client_returncode_to_string x = ''unknown wtf_client_returncode'' \<longleftrightarrow> x = WTF_CLIENT_READDIRDONE"
  "wtf_client_returncode_to_string x = wtf_client_returncode_to_string y \<longleftrightarrow> x = y"
  subgoal by (cases x; simp)
  subgoal by (cases x; cases y; simp)
  done

end
