(* ===== verification/AdminBindings.thy ===== *)
theory AdminBindings
  imports Admin CBindings
begin

text \<open>
  \<open>admin/c.cc\<close>: the functions of \<open>wtf/admin.h\<close>, as those of the client in the theory \<open>CBindings\<close>, but without a
  message. \<open>t\<close> is the exception that leaves the forwarded call, with the object as it is then; where the model itself
  has the exception, the fault \<open>Thrown\<close> of the forwarded call, \<open>t\<close> is that one, an \<open>Other_exception\<close>. The second result
  is what is stored in \<open>errno\<close>.
\<close>

section \<open>Exceptions\<close>

fun admin_catch :: "c_exception \<Rightarrow> wtf_admin_returncode \<times> int option" where
  "admin_catch (Po6_error e) = (WTF_ADMIN_EXCEPTION, Some e)"
| "admin_catch Bad_alloc = (WTF_ADMIN_NOMEM, Some ENOMEM)"
| "admin_catch Other_exception = (WTF_ADMIN_EXCEPTION, None)"

type_synonym ('r, 'e) admin_thrown = "(c_exception \<times> ('r, 'e) admin) option"

definition admin_wrap ::
  "('r, 'e) admin_thrown \<Rightarrow> ('r, 'e) admin_result run \<Rightarrow> (('r, 'e) admin_result \<times> int option) run" where
  "admin_wrap t call =
     (case t of
        Some (ex, s) \<Rightarrow> ret ((-1, fst (admin_catch ex), None, s), snd (admin_catch ex))
      | None \<Rightarrow> run_bind call (\<lambda>r. ret (r, None)))"

definition wtf_admin_create :: "c_exception option \<Rightarrow> 'r \<Rightarrow> 'e \<Rightarrow> ('r, 'e) admin option \<times> int option" where
  "wtf_admin_create t r e =
     (case t of None \<Rightarrow> (Some (admin_new r e), None) | Some ex \<Rightarrow> (None, snd (admin_catch ex)))"

section \<open>The functions\<close>

definition wtf_admin_dump_config ::
  "'e admin_env \<Rightarrow> 'r replicant_ops \<Rightarrow> e_codec \<Rightarrow> (location \<Rightarrow> string) \<Rightarrow> ('r, 'e) admin_thrown \<Rightarrow>
     wtf_admin_returncode \<Rightarrow> ('r, 'e) admin \<Rightarrow> (('r, 'e) admin_result \<times> int option) run" where
  "wtf_admin_dump_config V R E show_location t st s = admin_wrap t (admin_dump_config V R E show_location st s)"

definition wtf_admin_read_only ::
  "'e admin_env \<Rightarrow> 'r replicant_ops \<Rightarrow> e_codec \<Rightarrow> ('r, 'e) admin_thrown \<Rightarrow> int \<Rightarrow>
     wtf_admin_returncode \<Rightarrow> ('r, 'e) admin \<Rightarrow> (('r, 'e) admin_result \<times> int option) run" where
  "wtf_admin_read_only V R E t ro st s = admin_wrap t (admin_read_only V R E ro st s)"

definition wtf_admin_server_register ::
  "'e admin_env \<Rightarrow> 'r replicant_ops \<Rightarrow> e_codec \<Rightarrow> (byte list \<Rightarrow> location option) \<Rightarrow> ('r, 'e) admin_thrown \<Rightarrow> u64 \<Rightarrow>
     byte list \<Rightarrow> wtf_admin_returncode \<Rightarrow> ('r, 'e) admin \<Rightarrow> (('r, 'e) admin_result \<times> int option) run" where
  "wtf_admin_server_register V R E parse t token address st s =
     admin_wrap t (admin_server_register V R E parse token address st s)"

definition wtf_admin_server_online ::
  "'e admin_env \<Rightarrow> 'r replicant_ops \<Rightarrow> e_codec \<Rightarrow> ('r, 'e) admin_thrown \<Rightarrow> u64 \<Rightarrow>
     wtf_admin_returncode \<Rightarrow> ('r, 'e) admin \<Rightarrow> (('r, 'e) admin_result \<times> int option) run" where
  "wtf_admin_server_online V R E t token st s = admin_wrap t (admin_server_online V R E token st s)"

definition wtf_admin_server_offline ::
  "'e admin_env \<Rightarrow> 'r replicant_ops \<Rightarrow> e_codec \<Rightarrow> ('r, 'e) admin_thrown \<Rightarrow> u64 \<Rightarrow>
     wtf_admin_returncode \<Rightarrow> ('r, 'e) admin \<Rightarrow> (('r, 'e) admin_result \<times> int option) run" where
  "wtf_admin_server_offline V R E t token st s = admin_wrap t (admin_server_offline V R E token st s)"

definition wtf_admin_server_forget ::
  "'e admin_env \<Rightarrow> 'r replicant_ops \<Rightarrow> e_codec \<Rightarrow> ('r, 'e) admin_thrown \<Rightarrow> u64 \<Rightarrow>
     wtf_admin_returncode \<Rightarrow> ('r, 'e) admin \<Rightarrow> (('r, 'e) admin_result \<times> int option) run" where
  "wtf_admin_server_forget V R E t token st s = admin_wrap t (admin_server_forget V R E token st s)"

definition wtf_admin_server_kill ::
  "'e admin_env \<Rightarrow> 'r replicant_ops \<Rightarrow> e_codec \<Rightarrow> ('r, 'e) admin_thrown \<Rightarrow> u64 \<Rightarrow>
     wtf_admin_returncode \<Rightarrow> ('r, 'e) admin \<Rightarrow> (('r, 'e) admin_result \<times> int option) run" where
  "wtf_admin_server_kill V R E t token st s = admin_wrap t (admin_server_kill V R E token st s)"

definition wtf_admin_loop ::
  "'e admin_env \<Rightarrow> 'r replicant_ops \<Rightarrow> e_codec \<Rightarrow> ('r, 'e) admin_thrown \<Rightarrow> int \<Rightarrow> ('r, 'e) admin \<Rightarrow>
     (('r, 'e) admin_loop_result \<times> int option) run" where
  "wtf_admin_loop V R E t timeout s =
     (case t of
        Some (ex, s1) \<Rightarrow> ret ((-1, fst (admin_catch ex), s1), snd (admin_catch ex))
      | None \<Rightarrow> run_bind (admin_loop V R E timeout s) (\<lambda>r. ret (r, None)))"

section \<open>The names of the return codes\<close>

fun wtf_admin_returncode_to_string :: "wtf_admin_returncode \<Rightarrow> string" where
  "wtf_admin_returncode_to_string WTF_ADMIN_SUCCESS = ''WTF_ADMIN_SUCCESS''"
| "wtf_admin_returncode_to_string WTF_ADMIN_NOMEM = ''WTF_ADMIN_NOMEM''"
| "wtf_admin_returncode_to_string WTF_ADMIN_NONEPENDING = ''WTF_ADMIN_NONEPENDING''"
| "wtf_admin_returncode_to_string WTF_ADMIN_POLLFAILED = ''WTF_ADMIN_POLLFAILED''"
| "wtf_admin_returncode_to_string WTF_ADMIN_TIMEOUT = ''WTF_ADMIN_TIMEOUT''"
| "wtf_admin_returncode_to_string WTF_ADMIN_INTERRUPTED = ''WTF_ADMIN_INTERRUPTED''"
| "wtf_admin_returncode_to_string WTF_ADMIN_SERVERERROR = ''WTF_ADMIN_SERVERERROR''"
| "wtf_admin_returncode_to_string WTF_ADMIN_COORDFAIL = ''WTF_ADMIN_COORDFAIL''"
| "wtf_admin_returncode_to_string WTF_ADMIN_BADSPACE = ''WTF_ADMIN_BADSPACE''"
| "wtf_admin_returncode_to_string WTF_ADMIN_DUPLICATE = ''WTF_ADMIN_DUPLICATE''"
| "wtf_admin_returncode_to_string WTF_ADMIN_NOTFOUND = ''WTF_ADMIN_NOTFOUND''"
| "wtf_admin_returncode_to_string WTF_ADMIN_LOCALERROR = ''WTF_ADMIN_LOCALERROR''"
| "wtf_admin_returncode_to_string WTF_ADMIN_INTERNAL = ''WTF_ADMIN_INTERNAL''"
| "wtf_admin_returncode_to_string WTF_ADMIN_EXCEPTION = ''WTF_ADMIN_EXCEPTION''"
| "wtf_admin_returncode_to_string WTF_ADMIN_GARBAGE = ''WTF_ADMIN_GARBAGE''"

lemma admin_names: "wtf_admin_returncode_to_string x = wtf_admin_returncode_to_string y \<longleftrightarrow> x = y"
  by (cases x; cases y; simp)

lemma admin_wrap_thrown: "admin_wrap (Some (ex, s)) call = ret ((i, st, r, s'), e) \<Longrightarrow>
  i = -1 \<and> st \<in> {WTF_ADMIN_EXCEPTION, WTF_ADMIN_NOMEM} \<and> r = None \<and> s' = s"
  by (cases ex) (auto simp: admin_wrap_def)

end
