(* ===== verification/Spec2Isabelle.thy ===== *)
theory Spec2Isabelle
  imports IntervalMapCodec BlockmapProps TransitionProps SnapshotProps ClientPathProps LinkWrapperProps ClientProps
    CoordinatorTool Listing Rereplicate WriteSession CriticalSection DaemonOptions Mkfs AdminBindings
begin

text \<open>
  WTF is a distributed file system. A file is a sequence of slices of immutable blocks; the slices
  of a file are kept by clients in an interval map stored in HyperDex, the blocks by daemons in an
  append-only log, and a coordinator replicated by Replicant keeps the set of daemons. This library
  models the clients, the daemons, the coordinator and the programs around them, and proves what they
  promise, alone and together, and where they do not keep it.

  Components, from the bottom:

  \<^item> \<open>Prelude\<close>: outcomes of code that can abort (\<open>res\<close>) or run forever (\<open>run\<close>),
    64-bit arithmetic. \<open>StdMap\<close>: \<open>std::map\<close> as a sorted list, its interface as the locale
    \<open>ordered_dict\<close>. \<open>Wire\<close>: the packer and unpacker of the external library \<open>e\<close> as a parameter
    with the locales \<open>int_codec\<close> and \<open>e_buffer\<close>, interpreted on the big-endian encoding the library
    documents; the message types and return codes of \<open>common/\<close>.
  \<^item> \<open>Block\<close> (\<open>common/block_location.*\<close>, \<open>common/block.*\<close>), \<open>IntervalMap\<close>
    (\<open>common/interval_map.*\<close>): the contents of a file. \<open>imap_insert\<close> follows
    \<open>interval_map::insert\<close> branch by branch, \<open>get_slices\<close>, \<open>imap_truncate\<close> and the encoding
    likewise. \<open>IntervalMapProps\<close> proves them against the bytes a map stands for
    (\<open>imap_lookup\<close>-style reads); \<open>IntervalMapCodec\<close> proves the round trip.
  \<^item> \<open>Vblock\<close> (\<open>blockstore/vblock.*\<close>): where the bytes of one stored block lie on the disk.
    \<open>VblockProps\<close> says which branches of \<open>update\<close> and \<open>set_len\<close> are correct and what the others do.
  \<^item> \<open>Blockmap\<close> (\<open>blockstore/disk.*\<close>, \<open>blockstore/blockmap.*\<close>,
    \<open>daemon/block_storage_manager.*\<close>): the log, the offset maps in a key-value database (a
    parameter with the locale \<open>kv_store\<close>) and the four operations of the store.
    \<open>BlockmapProps\<close> proves them over the bytes of a block, and that blocks never change.
    \<open>StoreSetup\<close> is the start on an existing or a new database, with LevelDB and the system calls as
    the record \<open>storage_ops\<close>, and what a restart loses.
  \<^item> \<open>Server\<close> (\<open>common/ids.*\<close>, \<open>common/server.*\<close>, \<open>common/serialization.cc\<close>,
    \<open>common/packing.cc\<close>), \<open>Configuration\<close> (\<open>common/configuration.*\<close>, \<open>common/mapper.cc\<close>):
    the configuration as its members see it, its decoding, and the random choice of servers for replicas, a loop
    that may not end and is a \<open>partial_function (option)\<close>. \<open>ConfigurationProps\<close> has the soundness of the
    choice, when it ends, and when it does not; and what decoding gives for any bytes, with the three kinds of bytes
    on which it fails. These failures are the only ones the properties of the link, the daemon,
    the administration library and the tools leave (\<open>answer_faults\<close>), beside BusyBee's own shutdown.
  \<^item> \<open>Barrier\<close> (\<open>coordinator/server_barrier.*\<close>), \<open>Coordinator\<close>
    (\<open>coordinator/coordinator.*\<close>, \<open>util.h\<close>), \<open>Transitions\<close>
    (\<open>coordinator/transitions.cc\<close>, \<open>symtable.c\<close>): the replicated state machine. Replicant is a
    parameter; the locale \<open>replicant_conditions\<close> states that conditions are counters. The vectors of the library
    \<open>e\<close> are the locale \<open>e_vectors\<close>. \<open>CoordinatorInv\<close> has the invariant
    (\<open>coord_inv\<close>: counters, barriers and conditions agree, the server table is sorted, the cached
    configuration is current) and its preservation; \<open>ServerTable\<close> the abstract machine
    \<open>spec_op\<close> over a map of servers that the code's sorted vector refines;
    \<open>CoordinatorProps\<close>, \<open>TransitionProps\<close> and \<open>SnapshotProps\<close> the properties.
  \<^item> \<open>CoordinatorLink\<close> (\<open>common/coordinator_link.*\<close>) with \<open>CoordinatorLinkProps\<close>: the state
    machine with which clients, daemons and tools follow the configuration, over the calls of
    Replicant's library (\<open>replicant_ops\<close>). \<open>LinkWrapper\<close>
    (\<open>daemon/coordinator_link_wrapper.*\<close>) with \<open>LinkWrapperProps\<close>: the daemon's outstanding calls,
    and the rounds of \<open>daemon::run\<close>.
  \<^item> \<open>Daemon\<close> (\<open>daemon/daemon.cc\<close>): the handler of every message over \<open>Blockmap\<close>.
    \<open>DaemonProps\<close> puts them against the messages clients send, \<open>Replication\<close> several daemons and the
    messages between them, a step relation on a network that delivers in any order. \<open>DaemonMain\<close> is
    \<open>daemon::run\<close> as a whole: the start, the loop with its signals, the exit, and when it exits; \<open>DaemonOptions\<close>
    (\<open>daemon/main.cc\<close>) reads the command line before it.
    \<open>CriticalSection\<close>: the lock around the coordinator link as a step relation of any number of
    threads, with mutual exclusion, who is interrupted, and that waiting ends.
  \<^item> \<open>ClientPath\<close> (\<open>canon_path\<close> on its buffer) with \<open>ClientPathProps\<close>, \<open>ClientFile\<close>
    (\<open>client/file.*\<close>, \<open>client/buffer_descriptor.*\<close>), \<open>ClientMessages\<close>, \<open>ClientState\<close> (the client
    with its operations in an explicit store, BusyBee and HyperDex as the record \<open>client_env\<close>),
    \<open>ClientWrite\<close> (\<open>pending_aggregation\<close>, \<open>pending_write\<close>), \<open>ClientMetadata\<close> (the other
    \<open>pending_*\<close>), \<open>Client\<close> (\<open>client.cc\<close>: the loop, one round at a time) and \<open>ClientOps\<close> (its
    public operations).
  \<^item> \<open>WritePath\<close>: a write through the client, its loop, the answers of the daemons in any order and
    the conditional put, over the locale \<open>client_services\<close>, interpreted on a BusyBee and HyperDex in
    memory. \<open>WriteSession\<close>: any number of writes that append to a file, each with its own round of the
    network, and the bytes that daemons hold in the end. \<open>ClientProps\<close>: what the loop does not do.
  \<^item> \<open>Admin\<close> (\<open>admin/\<close>) with \<open>AdminProps\<close>, \<open>Tools\<close> (\<open>tools/server-*.cc\<close>): the library and the
    programs that order the coordinator. \<open>ToolProps\<close> composes a tool, the library, the link and the
    coordinator's transitions, over the locale \<open>coordinator_service\<close>, which is interpreted on a
    Replicant of one process, and shows that each order refines \<open>spec_op\<close>. \<open>Orders\<close>: a series of tools,
    each a process of its own, and the configuration that a client or a daemon fetches after them.
    \<open>CoordinatorTool\<close> (\<open>tools/coordinator.cc\<close>): how a coordinator comes to its cluster.
  \<^item> \<open>Fuse\<close> (\<open>bindings/fuse/fusewtf.cc\<close>): the operations of the file system. \<open>Namespace\<close> and
    \<open>Listing\<close> compose them with the client, its loop and HyperDex as a directory of objects (the
    locales \<open>directory_services\<close> and \<open>search_services\<close>, the second an extension of the first, both
    interpreted on objects in memory): what was made is seen, what a listing shows, what a deletion
    deletes. \<open>Directories\<close> adds the working directory, \<open>Mkfs\<close> (\<open>tools/mkfs.cc\<close>) the root before
    anything else, \<open>ListPaths\<close> \<open>client::ls\<close>, which waits for HyperDex beside the loop. \<open>CBindings\<close>
    (\<open>client/c.cc\<close>) and \<open>AdminBindings\<close> (\<open>admin/c.cc\<close>): the functions for C, with the exceptions they catch.
    \<open>Rereplicate\<close> (\<open>client/rereplicate.cc\<close>, \<open>tools/backup.cc\<close>): the repair of replicas.

  Where an operation has no defined behaviour (an iterator moved past the end, a variable never
  set) the model returns \<open>Inl Undefined\<close>, for a failed assertion \<open>Inl AssertFailed\<close>, and for an exception of the
  standard library \<open>Inl Thrown\<close>: reserving room for more servers than \<open>max_reserve\<close> of the codec, the capacity of a
  vector. Loops
  are recursions over the structure or with a measure; the loops without a bound in the code
  (broadcasting until a condition arrives, drawing random servers, the loops of the link, the client,
  the administration library and the listing, which wait for a network) are
  \<open>partial_function (option)\<close>, \<open>None\<close> when they do not end, and the properties of a service that answers
  prove that they do. No fuel is used.

  Bounds: numbers are \<open>nat\<close> with the wrap-around of 64 bits written out; properties that need it
  assume that counters have room (\<open>coord_room\<close>), that lengths fit their encodings and vectors their capacity, or that fewer
  requests are open than there are numbers.

  Not modelled: the options of the tools (\<open>e::argparser\<close>), logging, the text of errors, \<open>stat\<close>, which prints
  what a search finds, and \<open>show-config\<close>, which calls the library with which HyperDex is administrated;
  \<open>admin/raw_backup.cc\<close>, which no build includes; the periodic functions of the daemon, which nothing runs, and
  the operations of FUSE that only return 0; the Java binding, which converts arguments for the Java native
  interface; the tests and benchmarks, which exercise what is modelled. The reads of the client and its truncations
  cannot be composed with the daemons: a read never ends the loop that sends its requests, and a truncation sends
  less than the daemon unpacks (\<open>DaemonProps\<close>). Threads appear in the lock only; elsewhere an operation is one
  step.
\<close>

end
